(* ===== verification/Prelude.thy ===== *)
theory Prelude
  imports Main "HOL-Library.Monad_Syntax" "HOL-Library.Signed_Division"
begin

section \<open>Prelude: outcomes of the code's functions\<close>

text \<open>
  What the components share: the shape of a function that may abort and that changes state,
  and the rules with which the components reason about it.

  A function of the code that allocates objects or changes a table takes the state as its last
  argument and returns \<open>Some (result, new state)\<close>. The value \<open>None\<close> stands for a run that does
  not come back with a result: a failed \<open>assert\<close> or \<open>QSYM_ASSERT\<close>, \<open>UNREACHABLE()\<close> and
  \<open>LOG_FATAL\<close> (all of them end the process, see \<open>logging.h\<close>), and, for the functions that take
  fuel, a recursion deeper than the fuel.
\<close>

subsection \<open>Partial and total outcomes\<close>

text \<open>
  \<open>runs t I m P\<close>: if the run \<open>m\<close> comes back, its result satisfies \<open>P\<close> and its state the
  invariant \<open>I\<close>; and if the flag \<open>t\<close> is set, the run does come back. So \<open>runs True\<close> is total
  and \<open>runs False\<close> partial correctness, and one set of rules serves both.
\<close>

definition runs :: "bool \<Rightarrow> ('s \<Rightarrow> bool) \<Rightarrow> ('a \<times> 's) option \<Rightarrow> ('a \<Rightarrow> bool) \<Rightarrow> bool" where
  "runs t I m P \<longleftrightarrow> (case m of None \<Rightarrow> \<not> t | Some (r, s) \<Rightarrow> P r \<and> I s)"

named_theorems run_rules \<open>introduction rules for \<open>runs\<close>\<close>

lemma runsD: "runs t I m P \<Longrightarrow> m = Some (r, s) \<Longrightarrow> P r \<and> I s"
  by (simp add: runs_def)

lemma runs_totalD: "runs True I m P \<Longrightarrow> \<exists>r s. m = Some (r, s) \<and> P r \<and> I s"
  by (auto simp: runs_def split: option.splits)

lemma runs_None [simp]: "runs t I None P \<longleftrightarrow> \<not> t"
  by (simp add: runs_def)

lemma runs_Some [simp]: "runs t I (Some (r, s)) P \<longleftrightarrow> P r \<and> I s"
  by (simp add: runs_def)

lemma runs_bind:
  assumes "runs t I m Q" and "\<And>r s. Q r \<Longrightarrow> I s \<Longrightarrow> runs t I (k (r, s)) P"
  shows "runs t I (Option.bind m k) P"
proof (cases m)
  case (Some p)
  with assms show ?thesis
    by (cases p) simp
qed (use assms in simp)

lemma runs_bind_pair:
  assumes "runs t I m Q" and "\<And>r s. Q r \<Longrightarrow> I s \<Longrightarrow> runs t I (k r s) P"
  shows "runs t I (Option.bind m (\<lambda>(r, s). k r s)) P"
  using assms(1) by (rule runs_bind) (simp add: assms(2))

lemma runs_mono: "runs t I m Q \<Longrightarrow> (\<And>r. Q r \<Longrightarrow> P r) \<Longrightarrow> runs t I m P"
  by (auto simp: runs_def split: option.splits)

lemma runs_weaken: "runs t I m P \<Longrightarrow> (t' \<Longrightarrow> t) \<Longrightarrow> runs t' I m P"
  by (auto simp: runs_def split: option.splits)

lemma runs_if [run_rules]:
  "(b \<Longrightarrow> runs t I m P) \<Longrightarrow> (\<not> b \<Longrightarrow> runs t I n P) \<Longrightarrow> runs t I (if b then m else n) P"
  by simp

lemma runs_option [run_rules]:
  "(x = None \<Longrightarrow> runs t I m P) \<Longrightarrow> (\<And>y. x = Some y \<Longrightarrow> runs t I (n y) P) \<Longrightarrow>
   runs t I (case x of None \<Rightarrow> m | Some y \<Rightarrow> n y) P"
  by (simp split: option.splits)

subsection \<open>Assertions\<close>

text \<open>
  \<open>assert c x\<close> models an \<open>assert(c)\<close> or \<open>QSYM_ASSERT(c)\<close> in front of the rest \<open>x\<close> of a
  function: the process ends when the condition is false.
\<close>

definition assert :: "bool \<Rightarrow> 'a option \<Rightarrow> 'a option" where
  "assert c x = (if c then x else None)"

lemma assert_True [simp]: "assert True x = x"
  by (simp add: assert_def)

lemma assert_eq_Some [simp]: "assert c x = Some y \<longleftrightarrow> c \<and> x = Some y"
  by (simp add: assert_def)

lemma runs_assert [run_rules]:
  "(t \<Longrightarrow> c) \<Longrightarrow> (c \<Longrightarrow> runs t I m P) \<Longrightarrow> runs t I (assert c m) P"
  by (auto simp: assert_def)

end
