(* ===== verification/BitVec.thy ===== *)
theory BitVec
  imports Prelude
begin

unbundle bit_operations_syntax

section \<open>Bit vectors: the meaning of expressions\<close>

text \<open>
  The values that expressions denote, as the solver reads them (\<open>toZ3ExprRecursively\<close> in
  \<open>expr.h\<close> maps every expression class to one operation of the SMT-LIB theory of fixed-size
  bit vectors): a truth value, or a bit vector given by its width and its unsigned value. The
  file also states what the code relies on in LLVM's \<open>APInt\<close>, which is not part of the
  repository: the operations are a parameter \<open>A\<close> of the model (\<open>apint_api\<close>), and
  \<open>apint_ok A\<close> lists what the LLVM documentation says of them.
\<close>

datatype dval = BoolV bool | BV nat int

text \<open>The two's complement reading of an unsigned value of \<open>n\<close> bits.\<close>

definition sval :: "nat \<Rightarrow> int \<Rightarrow> int" where
  "sval n x = signed_take_bit (n - 1) x"

subsection \<open>Concatenation and extraction\<close>

text \<open>\<open>bv_concat m x y\<close>: \<open>x\<close> above the \<open>m\<close> bits of \<open>y\<close>. \<open>bv_extract i b x\<close>: \<open>b\<close> bits from bit \<open>i\<close>.\<close>

definition bv_concat :: "nat \<Rightarrow> int \<Rightarrow> int \<Rightarrow> int" where
  "bv_concat m x y = concat_bit m y x"

definition bv_extract :: "nat \<Rightarrow> nat \<Rightarrow> int \<Rightarrow> int" where
  "bv_extract i b x = take_bit b (drop_bit i x)"

definition in_range :: "nat \<Rightarrow> int \<Rightarrow> bool" where
  "in_range n x \<longleftrightarrow> 0 \<le> x \<and> x < 2 ^ n"

lemma in_range_take_bit: "in_range n x \<longleftrightarrow> take_bit n x = x"
  by (auto simp: in_range_def take_bit_int_eq_self_iff)

lemma in_range_take [simp]: "in_range n (take_bit n x)"
  by (simp add: in_range_take_bit)

lemma in_range_bit: "in_range n x \<Longrightarrow> bit x k \<Longrightarrow> k < n"
  by (metis bit_take_bit_iff in_range_take_bit)

lemma in_range_iff_bit: "in_range n x \<longleftrightarrow> (\<forall>k. bit x k \<longrightarrow> k < n)"
  by (auto simp: in_range_take_bit bit_eq_iff bit_simps)

lemma in_range_0 [simp]: "in_range n 0"
  by (simp add: in_range_def)

lemma in_range_1 [simp]: "0 < n \<Longrightarrow> in_range n 1"
  by (simp add: in_range_def)

lemma in_range_mono: "in_range n x \<Longrightarrow> n \<le> m \<Longrightarrow> in_range m x"
  by (auto simp: in_range_iff_bit)

lemma in_range_concat [simp]:
  "in_range n x \<Longrightarrow> in_range (n + m) (bv_concat m x y)"
  by (fastforce simp: in_range_iff_bit bv_concat_def bit_simps)

lemma in_range_extract [simp]: "in_range b (bv_extract i b x)"
  by (simp add: bv_extract_def)

lemma bit_bv_concat [bit_simps]:
  "bit (bv_concat m x y) k \<longleftrightarrow> (if k < m then bit y k else bit x (k - m))"
  by (auto simp: bv_concat_def bit_simps)

lemma bit_bv_extract [bit_simps]: "bit (bv_extract i b x) k \<longleftrightarrow> k < b \<and> bit x (i + k)"
  by (auto simp: bv_extract_def bit_simps)

lemma bv_extract_bit: "bv_extract i 1 x = of_bool (bit x i)"
  by (rule bit_eqI) (auto simp: bit_simps bit_1_iff)

text \<open>The identities behind the rewriting of extractions and concatenations.\<close>

lemma extract_all: "in_range n x \<Longrightarrow> bv_extract 0 n x = x"
  by (simp add: bv_extract_def in_range_take_bit)

lemma extract_extract:
  "i + b \<le> c \<Longrightarrow> bv_extract i b (bv_extract j c x) = bv_extract (j + i) b x"
  by (rule bit_eqI) (auto simp: bit_simps algebra_simps)

lemma extract_concat_high:
  "m \<le> i \<Longrightarrow> bv_extract i b (bv_concat m x y) = bv_extract (i - m) b x"
  by (rule bit_eqI) (auto simp: bit_simps algebra_simps)

lemma extract_concat_low:
  "i + b \<le> m \<Longrightarrow> bv_extract i b (bv_concat m x y) = bv_extract i b y"
  by (rule bit_eqI) (auto simp: bit_simps)

lemma extract_concat_split:
  "i < m \<Longrightarrow> m < i + b \<Longrightarrow>
   bv_extract i b (bv_concat m x y) =
     bv_concat (m - i) (bv_extract 0 (b + i - m) x) (bv_extract i (m - i) y)"
  by (rule bit_eqI) (auto simp: bit_simps algebra_simps)

lemma concat_extract_extract:
  "bv_concat c (bv_extract (j + c) b x) (bv_extract j c x) = bv_extract j (c + b) x"
  by (rule bit_eqI) (auto simp: bit_simps algebra_simps)

lemma concat_concat:
  "bv_concat k (bv_concat m x y) z = bv_concat (m + k) x (bv_concat k y z)"
  by (rule bit_eqI) (auto simp: bit_simps algebra_simps)

lemma concat_extract_low:
  assumes "take_bit m x = y"
  shows "bv_concat m (bv_extract m b x) y = bv_extract 0 (m + b) x"
  by (rule bit_eqI) (auto simp: bit_simps simp flip: assms)

lemma and_concat:
  "in_range n x \<Longrightarrow>
   (a AND bv_concat m x y) = bv_concat m (bv_extract m n a AND x) (bv_extract 0 m a AND y)"
  by (rule bit_eqI) (auto simp: bit_simps dest: in_range_bit)

lemma or_concat:
  "in_range (n + m) a \<Longrightarrow>
   (a OR bv_concat m x y) = bv_concat m (bv_extract m n a OR x) (bv_extract 0 m a OR y)"
  by (rule bit_eqI) (auto simp: bit_simps dest: in_range_bit)

lemma xor_concat:
  "in_range (n + m) a \<Longrightarrow>
   (a XOR bv_concat m x y) = bv_concat m (bv_extract m n a XOR x) (bv_extract 0 m a XOR y)"
  by (rule bit_eqI) (auto simp: bit_simps dest: in_range_bit)

lemma bitwise_concat:
  "(bv_concat m x y AND bv_concat m x' y') = bv_concat m (x AND x') (y AND y')"
  "(bv_concat m x y OR bv_concat m x' y') = bv_concat m (x OR x') (y OR y')"
  by (rule bit_eqI, simp add: bit_simps)+

lemma concat_0: "in_range m y \<Longrightarrow> bv_concat m 0 y = y"
  by (simp add: bv_concat_def in_range_take_bit)

lemma concat_eq_or: "in_range m y \<Longrightarrow> bv_concat m x y = (push_bit m x OR y)"
  by (simp add: bv_concat_def concat_bit_def in_range_take_bit or.commute)

lemma sval_range:
  assumes "0 < n"
  shows "- (2 ^ (n - 1)) \<le> sval n x" and "sval n x < 2 ^ (n - 1)"
  by (simp_all add: sval_def)

lemma sval_inject:
  assumes "0 < n" "in_range n x" "in_range n y"
  shows "sval n x = sval n y \<longleftrightarrow> x = y"
proof
  assume "sval n x = sval n y"
  then have "take_bit n x = take_bit n y"
    using assms(1) by (simp add: sval_def signed_take_bit_eq_iff_take_bit_eq)
  then show "x = y"
    using assms by (simp add: in_range_take_bit)
qed simp

lemma take_bit_sval: "0 < n \<Longrightarrow> take_bit n (sval n x) = take_bit n x"
  by (simp add: sval_def take_bit_signed_take_bit)

lemma bit_sval: "k < n \<Longrightarrow> bit (sval n x) k \<longleftrightarrow> bit x k"
proof -
  assume "k < n"
  then have "min (n - 1) k = k"
    by simp
  then show ?thesis
    by (simp add: sval_def bit_signed_take_bit_iff)
qed

lemma extract_sval: "i + b \<le> n \<Longrightarrow> bv_extract i b (sval n x) = bv_extract i b x"
  by (rule bit_eqI) (auto simp: bit_simps bit_sval)

lemma extract_take_bit: "i + b \<le> k \<Longrightarrow> bv_extract i b (take_bit k x) = bv_extract i b x"
  by (rule bit_eqI) (auto simp: bit_simps)

lemma extract_above: "in_range n x \<Longrightarrow> n \<le> i \<Longrightarrow> bv_extract i b x = 0"
  by (rule bit_eqI) (auto simp: bit_simps dest: in_range_bit)

text \<open>Arithmetic modulo the width: inner reductions go away.\<close>

lemma modular:
  fixes a b :: int
  shows "take_bit n (take_bit n a + b) = take_bit n (a + b)"
    and "take_bit n (a + take_bit n b) = take_bit n (a + b)"
    and "take_bit n (take_bit n a - b) = take_bit n (a - b)"
    and "take_bit n (a - take_bit n b) = take_bit n (a - b)"
    and "take_bit n (take_bit n a * b) = take_bit n (a * b)"
    and "take_bit n (a * take_bit n b) = take_bit n (a * b)"
    and "take_bit n (- take_bit n a) = take_bit n (- a)"
  by (simp_all add: take_bit_eq_mod mod_simps)

subsection \<open>The arithmetic of LLVM's APInt, as the code uses it\<close>

text \<open>
  An \<open>APInt\<close> is modelled by its documented abstract value: the unsigned integer it holds; its
  width is passed along. Reading the value (equality, a bit, the comparison with a constant) is
  written in HOL; every operation that computes a new value is a field here.
\<close>

record apint_api =
  ap_add :: "nat \<Rightarrow> int \<Rightarrow> int \<Rightarrow> int"
  ap_sub :: "nat \<Rightarrow> int \<Rightarrow> int \<Rightarrow> int"
  ap_mul :: "nat \<Rightarrow> int \<Rightarrow> int \<Rightarrow> int"
  ap_udiv :: "nat \<Rightarrow> int \<Rightarrow> int \<Rightarrow> int"
  ap_sdiv :: "nat \<Rightarrow> int \<Rightarrow> int \<Rightarrow> int"
  ap_urem :: "nat \<Rightarrow> int \<Rightarrow> int \<Rightarrow> int"
  ap_srem :: "nat \<Rightarrow> int \<Rightarrow> int \<Rightarrow> int"
  ap_and :: "nat \<Rightarrow> int \<Rightarrow> int \<Rightarrow> int"
  ap_or :: "nat \<Rightarrow> int \<Rightarrow> int \<Rightarrow> int"
  ap_xor :: "nat \<Rightarrow> int \<Rightarrow> int \<Rightarrow> int"
  ap_shl :: "nat \<Rightarrow> int \<Rightarrow> int \<Rightarrow> int"
  ap_lshr :: "nat \<Rightarrow> int \<Rightarrow> int \<Rightarrow> int"
  ap_ashr :: "nat \<Rightarrow> int \<Rightarrow> int \<Rightarrow> int"
  ap_ult :: "nat \<Rightarrow> int \<Rightarrow> int \<Rightarrow> bool"
  ap_ule :: "nat \<Rightarrow> int \<Rightarrow> int \<Rightarrow> bool"
  ap_slt :: "nat \<Rightarrow> int \<Rightarrow> int \<Rightarrow> bool"
  ap_sle :: "nat \<Rightarrow> int \<Rightarrow> int \<Rightarrow> bool"
  ap_neg :: "nat \<Rightarrow> int \<Rightarrow> int"
  ap_not :: "nat \<Rightarrow> int \<Rightarrow> int"
  ap_zext :: "nat \<Rightarrow> nat \<Rightarrow> int \<Rightarrow> int"
  ap_sext :: "nat \<Rightarrow> nat \<Rightarrow> int \<Rightarrow> int"
  ap_zextOrTrunc :: "nat \<Rightarrow> nat \<Rightarrow> int \<Rightarrow> int"

text \<open>The SMT-LIB bit-vector functions, by which both sides are compared.\<close>

definition bv_sdiv :: "nat \<Rightarrow> int \<Rightarrow> int \<Rightarrow> int" where
  "bv_sdiv n x y = take_bit n (sval n x sdiv sval n y)"

definition bv_srem :: "nat \<Rightarrow> int \<Rightarrow> int \<Rightarrow> int" where
  "bv_srem n x y = take_bit n (sval n x smod sval n y)"

definition bv_shl :: "nat \<Rightarrow> int \<Rightarrow> int \<Rightarrow> int" where
  "bv_shl n x y = (if y < int n then take_bit n (push_bit (nat y) x) else 0)"

definition bv_lshr :: "nat \<Rightarrow> int \<Rightarrow> int \<Rightarrow> int" where
  "bv_lshr n x y = (if y < int n then drop_bit (nat y) x else 0)"

definition bv_ashr :: "nat \<Rightarrow> int \<Rightarrow> int \<Rightarrow> int" where
  "bv_ashr n x y =
     take_bit n (drop_bit (if y < int n then nat y else n - 1) (sval n x))"

text \<open>Shifts by constants as concatenations.\<close>

lemma shl_concat:
  "c < n \<Longrightarrow> bv_shl n x (int c) = bv_concat c (bv_extract 0 (n - c) x) 0"
  by (rule bit_eqI) (auto simp: bv_shl_def bit_simps)

lemma lshr_concat:
  "c < n \<Longrightarrow> in_range n x \<Longrightarrow> bv_lshr n x (int c) = bv_concat (n - c) 0 (bv_extract c (n - c) x)"
  by (rule bit_eqI) (auto simp: bv_lshr_def bit_simps dest: in_range_bit)

lemma shift_0 [simp]:
  assumes "0 < n" "in_range n x"
  shows "bv_shl n x 0 = x" "bv_lshr n x 0 = x" "bv_ashr n x 0 = x"
  using assms by (simp_all add: bv_shl_def bv_lshr_def bv_ashr_def take_bit_sval in_range_take_bit)

lemma shift_large [simp]:
  "int n \<le> y \<Longrightarrow> bv_shl n x y = 0" "int n \<le> y \<Longrightarrow> bv_lshr n x y = 0"
  by (simp_all add: bv_shl_def bv_lshr_def)

lemma shift_zero [simp]: "bv_shl n 0 y = 0" "bv_lshr n 0 y = 0"
  by (simp_all add: bv_shl_def bv_lshr_def)

text \<open>
  What the documentation of \<open>APInt\<close> promises for two operands of the same width \<open>n\<close>. Division
  and remainder by zero are not promised anything.
\<close>

definition apint_ok :: "apint_api \<Rightarrow> bool" where
  "apint_ok A \<longleftrightarrow>
     (\<forall>n x y. 0 < n \<longrightarrow> in_range n x \<longrightarrow> in_range n y \<longrightarrow>
        ap_add A n x y = take_bit n (x + y) \<and>
        ap_sub A n x y = take_bit n (x - y) \<and>
        ap_mul A n x y = take_bit n (x * y) \<and>
        (y \<noteq> 0 \<longrightarrow> ap_udiv A n x y = x div y) \<and>
        (y \<noteq> 0 \<longrightarrow> ap_urem A n x y = x mod y) \<and>
        (y \<noteq> 0 \<longrightarrow> ap_sdiv A n x y = bv_sdiv n x y) \<and>
        (y \<noteq> 0 \<longrightarrow> ap_srem A n x y = bv_srem n x y) \<and>
        ap_and A n x y = (x AND y) \<and>
        ap_or A n x y = (x OR y) \<and>
        ap_xor A n x y = (x XOR y) \<and>
        ap_shl A n x y = bv_shl n x y \<and>
        ap_lshr A n x y = bv_lshr n x y \<and>
        ap_ashr A n x y = bv_ashr n x y \<and>
        ap_ult A n x y = (x < y) \<and>
        ap_ule A n x y = (x \<le> y) \<and>
        ap_slt A n x y = (sval n x < sval n y) \<and>
        ap_sle A n x y = (sval n x \<le> sval n y) \<and>
        ap_neg A n x = take_bit n (- x) \<and>
        ap_not A n x = take_bit n (NOT x) \<and>
        (\<forall>m. n \<le> m \<longrightarrow> ap_zext A n m x = x) \<and>
        (\<forall>m. n \<le> m \<longrightarrow> ap_sext A n m x = take_bit m (sval n x)) \<and>
        (\<forall>m. 0 < m \<longrightarrow> ap_zextOrTrunc A n m x = take_bit m x))"

lemma apint_okD:
  assumes "apint_ok A" "0 < n" "in_range n x" "in_range n y"
  shows
    "ap_add A n x y = take_bit n (x + y) \<and>
        ap_sub A n x y = take_bit n (x - y) \<and>
        ap_mul A n x y = take_bit n (x * y) \<and>
        (y \<noteq> 0 \<longrightarrow> ap_udiv A n x y = x div y) \<and>
        (y \<noteq> 0 \<longrightarrow> ap_urem A n x y = x mod y) \<and>
        (y \<noteq> 0 \<longrightarrow> ap_sdiv A n x y = bv_sdiv n x y) \<and>
        (y \<noteq> 0 \<longrightarrow> ap_srem A n x y = bv_srem n x y) \<and>
        ap_and A n x y = (x AND y) \<and>
        ap_or A n x y = (x OR y) \<and>
        ap_xor A n x y = (x XOR y) \<and>
        ap_shl A n x y = bv_shl n x y \<and>
        ap_lshr A n x y = bv_lshr n x y \<and>
        ap_ashr A n x y = bv_ashr n x y \<and>
        ap_ult A n x y = (x < y) \<and>
        ap_ule A n x y = (x \<le> y) \<and>
        ap_slt A n x y = (sval n x < sval n y) \<and>
        ap_sle A n x y = (sval n x \<le> sval n y) \<and>
        ap_neg A n x = take_bit n (- x) \<and>
        ap_not A n x = take_bit n (NOT x) \<and>
        (\<forall>m. n \<le> m \<longrightarrow> ap_zext A n m x = x) \<and>
        (\<forall>m. n \<le> m \<longrightarrow> ap_sext A n m x = take_bit m (sval n x)) \<and>
        (\<forall>m. 0 < m \<longrightarrow> ap_zextOrTrunc A n m x = take_bit m x)"
  using assms unfolding apint_ok_def by blast

text \<open>A concrete arithmetic that keeps every promise: the hypothesis can hold.\<close>

definition bv_api :: apint_api where
  "bv_api = \<lparr>
     ap_add = (\<lambda>n x y. take_bit n (x + y)), ap_sub = (\<lambda>n x y. take_bit n (x - y)),
     ap_mul = (\<lambda>n x y. take_bit n (x * y)), ap_udiv = (\<lambda>n x y. x div y),
     ap_sdiv = bv_sdiv, ap_urem = (\<lambda>n x y. x mod y), ap_srem = bv_srem,
     ap_and = (\<lambda>n x y. x AND y), ap_or = (\<lambda>n x y. x OR y), ap_xor = (\<lambda>n x y. x XOR y),
     ap_shl = bv_shl, ap_lshr = bv_lshr, ap_ashr = bv_ashr,
     ap_ult = (\<lambda>n x y. x < y), ap_ule = (\<lambda>n x y. x \<le> y),
     ap_slt = (\<lambda>n x y. sval n x < sval n y), ap_sle = (\<lambda>n x y. sval n x \<le> sval n y),
     ap_neg = (\<lambda>n x. take_bit n (- x)), ap_not = (\<lambda>n x. take_bit n (NOT x)),
     ap_zext = (\<lambda>n m x. x), ap_sext = (\<lambda>n m x. take_bit m (sval n x)),
     ap_zextOrTrunc = (\<lambda>n m x. take_bit m x)\<rparr>"

lemma bv_api_ok: "apint_ok bv_api"
  by (simp add: apint_ok_def bv_api_def)

end
