(* ===== verification/Expr.thy ===== *)
theory Expr
  imports BitVec "HOL-Library.Word"
begin

section \<open>Symbolic expressions\<close>

text \<open>
  The expression classes of \<open>expr.h\<close> and the functions on them in \<open>codegen/expr.cpp\<close>: kinds,
  the expression objects with their widths, shallow and deep equality, the bit tests, and the
  meaning of an expression under an assignment of the input bytes.
\<close>

subsection \<open>Kinds\<close>

datatype kind =
    Bool | Constant | Read | Concat | Extract
  | ZExt | SExt
  | Add | Sub | Mul | UDiv | SDiv | URem | SRem | Neg
  | Not | And | Or | Xor | Shl | LShr | AShr
  | Equal | Distinct | Ult | Ule | Ugt | Uge | Slt | Sle | Sgt | Sge
  | LOr | LAnd | LNot
  | Ite
  | Rol | Ror | Invalid

text \<open>\<open>None\<close> is the \<open>UNREACHABLE()\<close> of the default branch.\<close>

fun swapKind :: "kind \<Rightarrow> kind option" where
  "swapKind Equal = Some Equal"
| "swapKind Distinct = Some Distinct"
| "swapKind Ult = Some Ugt"
| "swapKind Ule = Some Uge"
| "swapKind Ugt = Some Ult"
| "swapKind Uge = Some Ule"
| "swapKind Slt = Some Sgt"
| "swapKind Sle = Some Sge"
| "swapKind Sgt = Some Slt"
| "swapKind Sge = Some Sle"
| "swapKind _ = None"

fun negateKind :: "kind \<Rightarrow> kind option" where
  "negateKind Equal = Some Distinct"
| "negateKind Distinct = Some Equal"
| "negateKind Ult = Some Uge"
| "negateKind Ule = Some Ugt"
| "negateKind Ugt = Some Ule"
| "negateKind Uge = Some Ult"
| "negateKind Slt = Some Sge"
| "negateKind Sle = Some Sgt"
| "negateKind Sgt = Some Sle"
| "negateKind Sge = Some Slt"
| "negateKind _ = None"

fun isNegatableKind :: "kind \<Rightarrow> bool" where
  "isNegatableKind k = (k \<in> {Distinct, Equal, Ult, Ule, Ugt, Uge, Slt, Sle, Sgt, Sge})"

subsection \<open>Expression objects\<close>

text \<open>
  One constructor per expression class; \<open>UnaryExpr\<close> and \<open>BinaryExpr\<close> stand for the classes
  that differ only in their kind. The first component is the identity of the object, a number
  that the allocation gives out. Objects are immutable apart from memo fields, so a
  \<open>shared_ptr\<close> is the tree it points to, and pointer equality \<open>l == r\<close> is equality of the
  trees with their identities. A constant carries the unsigned value of its \<open>APInt\<close> and the
  width; the other widths are computed as the constructors of the classes compute \<open>bits_\<close>.
\<close>

datatype (discs_sels) expr =
    BoolExpr nat bool
  | ConstantExpr nat int nat
  | ReadExpr nat nat
  | ConcatExpr nat expr expr
  | ExtractExpr nat expr nat nat
  | ZExtExpr nat expr nat
  | SExtExpr nat expr nat
  | UnaryExpr nat kind expr
  | BinaryExpr nat kind expr expr
  | IteExpr nat expr expr expr

fun kind_of :: "expr \<Rightarrow> kind" where
  "kind_of (BoolExpr _ _) = Bool"
| "kind_of (ConstantExpr _ _ _) = Constant"
| "kind_of (ReadExpr _ _) = Read"
| "kind_of (ConcatExpr _ _ _) = Concat"
| "kind_of (ExtractExpr _ _ _ _) = Extract"
| "kind_of (ZExtExpr _ _ _) = ZExt"
| "kind_of (SExtExpr _ _ _) = SExt"
| "kind_of (UnaryExpr _ k _) = k"
| "kind_of (BinaryExpr _ k _ _) = k"
| "kind_of (IteExpr _ _ _ _) = Ite"

text \<open>The kinds of the subclasses of \<open>CompareExpr\<close>, whose width is 1.\<close>

definition compareKind :: "kind \<Rightarrow> bool" where
  "compareKind k \<longleftrightarrow> k \<in> {Equal, Distinct, Ult, Ule, Ugt, Uge, Slt, Sle, Sgt, Sge}"

fun bits :: "expr \<Rightarrow> nat" where
  "bits (BoolExpr _ _) = 1"
| "bits (ConstantExpr _ _ n) = n"
| "bits (ReadExpr _ _) = 8"
| "bits (ConcatExpr _ l r) = bits l + bits r"
| "bits (ExtractExpr _ _ _ n) = n"
| "bits (ZExtExpr _ _ n) = n"
| "bits (SExtExpr _ _ n) = n"
| "bits (UnaryExpr _ _ e) = bits e"
| "bits (BinaryExpr _ k l _) = (if compareKind k then 1 else bits l)"
| "bits (IteExpr _ _ t _) = bits t"

fun children :: "expr \<Rightarrow> expr list" where
  "children (BoolExpr _ _) = []"
| "children (ConstantExpr _ _ _) = []"
| "children (ReadExpr _ _) = []"
| "children (ConcatExpr _ l r) = [l, r]"
| "children (ExtractExpr _ e _ _) = [e]"
| "children (ZExtExpr _ e _) = [e]"
| "children (SExtExpr _ e _) = [e]"
| "children (UnaryExpr _ _ e) = [e]"
| "children (BinaryExpr _ _ l r) = [l, r]"
| "children (IteExpr _ c t f) = [c, t, f]"

lemma child_size [termination_simp]: "c \<in> set (children e) \<Longrightarrow> size c < size e"
  by (cases e) auto

text \<open>\<open>Expr::bytes\<close>, with its assertion.\<close>

definition bytes :: "expr \<Rightarrow> nat option" where
  "bytes e = assert (bits e mod 8 = 0) (Some (bits e div 8))"

text \<open>\<open>castAs<T>\<close> for the classes that the code casts to: the components, or \<open>None\<close>.\<close>

fun as_Constant :: "expr \<Rightarrow> int option" where
  "as_Constant (ConstantExpr _ v _) = Some v"
| "as_Constant _ = None"

fun as_Bool :: "expr \<Rightarrow> bool option" where
  "as_Bool (BoolExpr _ b) = Some b"
| "as_Bool _ = None"

fun as_Concat :: "expr \<Rightarrow> (expr \<times> expr) option" where
  "as_Concat (ConcatExpr _ l r) = Some (l, r)"
| "as_Concat _ = None"

fun as_Extract :: "expr \<Rightarrow> (expr \<times> nat \<times> nat) option" where
  "as_Extract (ExtractExpr _ e i n) = Some (e, i, n)"
| "as_Extract _ = None"

fun as_Ext :: "expr \<Rightarrow> expr option" where
  "as_Ext (ZExtExpr _ e _) = Some e"
| "as_Ext (SExtExpr _ e _) = Some e"
| "as_Ext _ = None"

fun as_SExt :: "expr \<Rightarrow> expr option" where
  "as_SExt (SExtExpr _ e _) = Some e"
| "as_SExt _ = None"

fun as_Binary :: "kind \<Rightarrow> expr \<Rightarrow> (expr \<times> expr) option" where
  "as_Binary k (BinaryExpr _ k' l r) = (if k = k' then Some (l, r) else None)"
| "as_Binary _ _ = None"

fun as_LNot :: "expr \<Rightarrow> expr option" where
  "as_LNot (UnaryExpr _ k e) = (if k = LNot then Some e else None)"
| "as_LNot _ = None"

definition isConstant :: "expr \<Rightarrow> bool" where
  "isConstant e \<longleftrightarrow> kind_of e = Constant"

text \<open>\<open>isZero\<close>, \<open>isOne\<close> and \<open>isAllOnes\<close> hold of constants only.\<close>

definition isZero :: "expr \<Rightarrow> bool" where
  "isZero e \<longleftrightarrow> as_Constant e = Some 0"

definition isOne :: "expr \<Rightarrow> bool" where
  "isOne e \<longleftrightarrow> as_Constant e = Some 1"

definition isAllOnes :: "expr \<Rightarrow> bool" where
  "isAllOnes e \<longleftrightarrow> as_Constant e = Some (2 ^ bits e - 1)"

fun isRelational :: "expr \<Rightarrow> bool" where
  "isRelational e = (kind_of e \<in>
     {Distinct, Equal, Ult, Ule, Ugt, Uge, Slt, Sle, Sgt, Sge, LAnd, LOr, LNot})"

definition isConstSym :: "expr \<Rightarrow> bool" where
  "isConstSym e = (case children e of
     [a, b] \<Rightarrow> isConstant a \<and> \<not> isConstant b \<or> isConstant b \<and> \<not> isConstant a
   | _ \<Rightarrow> False)"

text \<open>\<open>isConcrete_\<close>: cleared by a \<open>ReadExpr\<close>, and by \<open>addChild\<close> of a child that is not concrete.\<close>

fun isConcrete :: "expr \<Rightarrow> bool" where
  "isConcrete (ReadExpr _ _) = False"
| "isConcrete e = (\<forall>c \<in> set (children e). isConcrete c)"

fun depth :: "expr \<Rightarrow> nat" where
  "depth e = 1 + fold max (map depth (children e)) 0"

text \<open>\<open>getDeps\<close>: the input offsets below an expression.\<close>

fun getDeps :: "expr \<Rightarrow> nat set" where
  "getDeps (ReadExpr _ i) = {i}"
| "getDeps e = (\<Union>c \<in> set (children e). getDeps c)"


subsection \<open>Bit tests\<close>

text \<open>\<open>isZeroBit\<close> and \<open>isOneBit\<close>: what the code can tell of one bit without the solver.\<close>

fun isZeroBit :: "expr \<Rightarrow> nat \<Rightarrow> bool" where
  "isZeroBit (ConstantExpr _ v _) idx = (\<not> bit v idx)"
| "isZeroBit (ConcatExpr _ l r) idx =
     (if bits r \<le> idx then isZeroBit l (idx - bits r) else isZeroBit r idx)"
| "isZeroBit _ idx = False"

fun isOneBit :: "expr \<Rightarrow> nat \<Rightarrow> bool" where
  "isOneBit (ConstantExpr _ v _) idx = bit v idx"
| "isOneBit (ConcatExpr _ l r) idx =
     (if bits r \<le> idx then isOneBit l (idx - bits r) else isOneBit r idx)"
| "isOneBit _ idx = False"

text \<open>
  \<open>getMSB\<close>: the loop \<open>for (i = bits - 1; i-- > 0;)\<close> tests the bits \<open>i - 1\<close>, \<open>i - 2\<close>, ... of
  its counter; the result is \<open>i + 1\<close> in 32-bit arithmetic, where the counter has wrapped around
  to the largest value when the loop runs to its end.
\<close>

fun getMSB_loop :: "expr \<Rightarrow> nat \<Rightarrow> 32 word" where
  "getMSB_loop e 0 = - 1"
| "getMSB_loop e (Suc i) = (if \<not> isZeroBit e i then of_nat i else getMSB_loop e i)"

definition getMSB :: "expr \<Rightarrow> 32 word option" where
  "getMSB e = assert (1 \<le> bits e) (Some (getMSB_loop e (bits e - 1) + 1))"

text \<open>\<open>APInt::getActiveBits\<close> and \<open>countLeadingZeros\<close> of an unsigned value.\<close>

fun nat_bits :: "nat \<Rightarrow> nat" where
  "nat_bits v = (if v = 0 then 0 else 1 + nat_bits (v div 2))"

declare nat_bits.simps [simp del]

definition active_bits :: "int \<Rightarrow> nat" where
  "active_bits v = nat_bits (nat v)"

lemma nat_bits_less: "v < 2 ^ k \<longleftrightarrow> nat_bits v \<le> k"
proof (induction k arbitrary: v)
  case 0
  show ?case
    by (simp add: nat_bits.simps [of v])
next
  case (Suc k)
  show ?case
  proof (cases "v = 0")
    case False
    have "v < 2 ^ Suc k \<longleftrightarrow> v div 2 < 2 ^ k"
      by (simp add: less_mult_imp_div_less div_less_iff_less_mult mult.commute)
    with False Suc [of "v div 2"] show ?thesis
      by (simp add: nat_bits.simps [of v])
  qed (simp add: nat_bits.simps [of 0])
qed

lemma active_bits_less: "0 \<le> v \<Longrightarrow> v < 2 ^ k \<longleftrightarrow> active_bits v \<le> k"
  using nat_bits_less [of "nat v" k] by (simp add: active_bits_def nat_less_iff)

fun countLeadingZeros :: "expr \<Rightarrow> nat" where
  "countLeadingZeros (ConstantExpr _ v n) = n - active_bits v"
| "countLeadingZeros (ConcatExpr _ l r) =
     (let result = countLeadingZeros l
      in if result = bits l then result + countLeadingZeros r else result)"
| "countLeadingZeros (ZExtExpr _ e n) = n - bits e"
| "countLeadingZeros _ = 0"

subsection \<open>Equality of objects\<close>

text \<open>What \<open>hashAux\<close> feeds to the hash besides the kind, the width and the hashes of the children.\<close>

fun aux :: "expr \<Rightarrow> int" where
  "aux (BoolExpr _ b) = of_bool b"
| "aux (ConstantExpr _ v _) = v"
| "aux (ReadExpr _ i) = int i"
| "aux (ExtractExpr _ _ i _) = int i"
| "aux _ = 0"

text \<open>
  \<open>Expr::hash\<close>. The parameter \<open>H\<close> is the XXH32 digest of the data that the code feeds to it:
  kind, width, hashes of the children in order, and the data of the class.
\<close>

type_synonym digest = "kind \<times> nat \<times> nat list \<times> int \<Rightarrow> nat"

fun hash :: "digest \<Rightarrow> expr \<Rightarrow> nat" where
  "hash H e = H (kind_of e, bits e, map (hash H) (children e), aux e)"

declare hash.simps [simp del]

text \<open>
  \<open>equalAux\<close> is called on two objects of the same kind, and so of the same class; for objects of
  different classes the value is false.
\<close>

definition equalAux :: "expr \<Rightarrow> expr \<Rightarrow> bool" where
  "equalAux l r = (case l of
     BoolExpr _ b \<Rightarrow> (case r of BoolExpr _ c \<Rightarrow> b = c | _ \<Rightarrow> False)
   | ConstantExpr _ v _ \<Rightarrow> (case r of ConstantExpr _ w _ \<Rightarrow> v = w | _ \<Rightarrow> False)
   | ReadExpr _ i \<Rightarrow> (case r of ReadExpr _ j \<Rightarrow> i = j | _ \<Rightarrow> False)
   | ExtractExpr _ _ i _ \<Rightarrow> (case r of ExtractExpr _ _ j _ \<Rightarrow> i = j | _ \<Rightarrow> False)
   | ConcatExpr _ _ _ \<Rightarrow> is_ConcatExpr r
   | ZExtExpr _ _ _ \<Rightarrow> is_ZExtExpr r
   | SExtExpr _ _ _ \<Rightarrow> is_SExtExpr r
   | UnaryExpr _ _ _ \<Rightarrow> is_UnaryExpr r
   | BinaryExpr _ _ _ _ \<Rightarrow> is_BinaryExpr r
   | IteExpr _ _ _ _ \<Rightarrow> is_IteExpr r)"

definition equalMetadata :: "digest \<Rightarrow> expr \<Rightarrow> expr \<Rightarrow> bool" where
  "equalMetadata H l r \<longleftrightarrow>
     hash H l = hash H r \<and> kind_of l = kind_of r \<and>
     length (children l) = length (children r) \<and> bits l = bits r \<and> equalAux l r"

text \<open>\<open>equalShallowly\<close>: the children must be the same objects.\<close>

definition equalShallowly :: "digest \<Rightarrow> expr \<Rightarrow> expr \<Rightarrow> bool" where
  "equalShallowly H l r \<longleftrightarrow>
     equalMetadata H l r \<and> list_all2 (=) (children l) (children r)"

text \<open>\<open>operator==\<close>: recursive, with the metadata of all children compared first.\<close>

lemma zip_child_size [termination_simp]:
  "(a, b) \<in> set (zip (children l) (children r)) \<Longrightarrow> size a < size l"
  by (auto dest!: set_zip_leftD child_size)

fun equalDeeply :: "digest \<Rightarrow> expr \<Rightarrow> expr \<Rightarrow> bool" where
  "equalDeeply H l r \<longleftrightarrow>
     equalMetadata H l r \<and>
     list_all (\<lambda>(a, b). equalMetadata H a b) (zip (children l) (children r)) \<and>
     (\<forall>(a, b) \<in> set (zip (children l) (children r)). a = b \<or> equalDeeply H a b)"

declare equalDeeply.simps [simp del]


subsection \<open>The meaning of expressions\<close>

text \<open>
  What \<open>toZ3ExprRecursively\<close> tells the solver, as a value under an assignment \<open>\<rho>\<close> of the input
  bytes. \<open>None\<close> means: the term has no sort (widths that do not match, an extraction out of
  range), or it divides by zero under this assignment. With the flag \<open>dv\<close> off, unsigned and
  signed quotients have no meaning at all: laws stated with it off speak only of expressions
  without quotients.
\<close>

fun bv_arith :: "kind \<Rightarrow> nat \<Rightarrow> int \<Rightarrow> int \<Rightarrow> int option" where
  "bv_arith Add n x y = Some (take_bit n (x + y))"
| "bv_arith Sub n x y = Some (take_bit n (x - y))"
| "bv_arith Mul n x y = Some (take_bit n (x * y))"
| "bv_arith UDiv n x y = (if y = 0 then None else Some (x div y))"
| "bv_arith SDiv n x y = (if y = 0 then None else Some (bv_sdiv n x y))"
| "bv_arith URem n x y = (if y = 0 then None else Some (x mod y))"
| "bv_arith SRem n x y = (if y = 0 then None else Some (bv_srem n x y))"
| "bv_arith And n x y = Some (and x y)"
| "bv_arith Or n x y = Some (or x y)"
| "bv_arith Xor n x y = Some (xor x y)"
| "bv_arith Shl n x y = Some (bv_shl n x y)"
| "bv_arith LShr n x y = Some (bv_lshr n x y)"
| "bv_arith AShr n x y = Some (bv_ashr n x y)"
| "bv_arith _ n x y = None"

fun bv_compare :: "kind \<Rightarrow> nat \<Rightarrow> int \<Rightarrow> int \<Rightarrow> bool option" where
  "bv_compare Equal n x y = Some (x = y)"
| "bv_compare Distinct n x y = Some (x \<noteq> y)"
| "bv_compare Ult n x y = Some (x < y)"
| "bv_compare Ule n x y = Some (x \<le> y)"
| "bv_compare Ugt n x y = Some (y < x)"
| "bv_compare Uge n x y = Some (y \<le> x)"
| "bv_compare Slt n x y = Some (sval n x < sval n y)"
| "bv_compare Sle n x y = Some (sval n x \<le> sval n y)"
| "bv_compare Sgt n x y = Some (sval n y < sval n x)"
| "bv_compare Sge n x y = Some (sval n y \<le> sval n x)"
| "bv_compare _ n x y = None"

fun bool_connect :: "kind \<Rightarrow> bool \<Rightarrow> bool \<Rightarrow> bool option" where
  "bool_connect Equal p q = Some (p = q)"
| "bool_connect Distinct p q = Some (p \<noteq> q)"
| "bool_connect LAnd p q = Some (p \<and> q)"
| "bool_connect LOr p q = Some (p \<or> q)"
| "bool_connect _ p q = None"

fun sem_binary :: "bool \<Rightarrow> kind \<Rightarrow> dval \<Rightarrow> dval \<Rightarrow> dval option" where
  "sem_binary dv k (BV n x) (BV m y) =
     (if n \<noteq> m \<or> \<not> dv \<and> (k = UDiv \<or> k = SDiv) then None
      else if compareKind k then map_option BoolV (bv_compare k n x y)
      else map_option (BV n) (bv_arith k n x y))"
| "sem_binary dv k (BoolV p) (BoolV q) = map_option BoolV (bool_connect k p q)"
| "sem_binary dv k _ _ = None"

fun sem_unary :: "kind \<Rightarrow> dval \<Rightarrow> dval option" where
  "sem_unary Not (BV n x) = Some (BV n (take_bit n (not x)))"
| "sem_unary Neg (BV n x) = Some (BV n (take_bit n (- x)))"
| "sem_unary LNot (BoolV p) = Some (BoolV (\<not> p))"
| "sem_unary _ _ = None"

fun sem_concat :: "dval \<Rightarrow> dval \<Rightarrow> dval option" where
  "sem_concat (BV n x) (BV m y) = Some (BV (n + m) (bv_concat m x y))"
| "sem_concat _ _ = None"

fun sem_extract :: "nat \<Rightarrow> nat \<Rightarrow> dval \<Rightarrow> dval option" where
  "sem_extract i b (BV n x) = (if 0 < b \<and> i + b \<le> n then Some (BV b (bv_extract i b x)) else None)"
| "sem_extract _ _ _ = None"

fun sem_zext :: "nat \<Rightarrow> dval \<Rightarrow> dval option" where
  "sem_zext b (BV n x) = (if n \<le> b then Some (BV b x) else None)"
| "sem_zext _ _ = None"

fun sem_sext :: "nat \<Rightarrow> dval \<Rightarrow> dval option" where
  "sem_sext b (BV n x) = (if n \<le> b then Some (BV b (take_bit b (sval n x))) else None)"
| "sem_sext _ _ = None"

fun sem_ite :: "dval \<Rightarrow> dval \<Rightarrow> dval \<Rightarrow> dval option" where
  "sem_ite (BoolV c) (BV n x) (BV m y) = (if n = m then Some (BV n (if c then x else y)) else None)"
| "sem_ite (BoolV c) (BoolV p) (BoolV q) = Some (BoolV (if c then p else q))"
| "sem_ite _ _ _ = None"

fun sem_const :: "nat \<Rightarrow> int \<Rightarrow> dval option" where
  "sem_const n v = (if 0 < n \<and> 0 \<le> v \<and> v < 2 ^ n then Some (BV n v) else None)"

type_synonym assignment = "nat \<Rightarrow> 8 word"

fun den :: "bool \<Rightarrow> assignment \<Rightarrow> expr \<Rightarrow> dval option" where
  "den dv \<rho> (BoolExpr _ b) = Some (BoolV b)"
| "den dv \<rho> (ConstantExpr _ v n) = sem_const n v"
| "den dv \<rho> (ReadExpr _ i) = Some (BV 8 (uint (\<rho> i)))"
| "den dv \<rho> (ConcatExpr _ l r) =
     do { x \<leftarrow> den dv \<rho> l; y \<leftarrow> den dv \<rho> r; sem_concat x y }"
| "den dv \<rho> (ExtractExpr _ e i b) = do { x \<leftarrow> den dv \<rho> e; sem_extract i b x }"
| "den dv \<rho> (ZExtExpr _ e b) = do { x \<leftarrow> den dv \<rho> e; sem_zext b x }"
| "den dv \<rho> (SExtExpr _ e b) = do { x \<leftarrow> den dv \<rho> e; sem_sext b x }"
| "den dv \<rho> (UnaryExpr _ k e) = do { x \<leftarrow> den dv \<rho> e; sem_unary k x }"
| "den dv \<rho> (BinaryExpr _ k l r) =
     do { x \<leftarrow> den dv \<rho> l; y \<leftarrow> den dv \<rho> r; sem_binary dv k x y }"
| "den dv \<rho> (IteExpr _ c t f) =
     do { b \<leftarrow> den dv \<rho> c; x \<leftarrow> den dv \<rho> t; y \<leftarrow> den dv \<rho> f; sem_ite b x y }"

end
