(* ===== verification/ExprSem.thy ===== *)
theory ExprSem
  imports Expr
begin

section \<open>Laws of the expression semantics\<close>

text \<open>
  The widths and ranges that go with a meaning, and the correctness of the questions the code
  asks about expressions: kinds of comparisons, bit tests, leading zeros, equality.
\<close>

subsection \<open>Widths and ranges\<close>

fun dval_ok :: "dval \<Rightarrow> bool" where
  "dval_ok (BoolV _) = True"
| "dval_ok (BV n x) = (0 < n \<and> in_range n x)"

fun dbits :: "dval \<Rightarrow> nat" where
  "dbits (BoolV _) = 1"
| "dbits (BV n _) = n"

lemma in_range_int: "k < n \<Longrightarrow> in_range n (int k)"
  using less_exp [of n] by (auto simp: in_range_def of_nat_less_numeral_power_cancel_iff
      intro: order.strict_trans)

lemma in_range_and [simp]: "in_range n x \<Longrightarrow> in_range n (and x y)"
  by (simp add: in_range_iff_bit bit_simps)

lemma in_range_or [simp]: "in_range n x \<Longrightarrow> in_range n y \<Longrightarrow> in_range n (or x y)"
  by (auto simp: in_range_iff_bit bit_simps)

lemma in_range_xor [simp]: "in_range n x \<Longrightarrow> in_range n y \<Longrightarrow> in_range n (xor x y)"
  by (auto simp: in_range_iff_bit bit_simps)

lemma in_range_div [simp]:
  assumes "in_range n x" and "in_range n y"
  shows "in_range n (x div y)"
proof (cases "y = 0")
  case False
  with assms have "0 < y" "0 \<le> x" "x < 2 ^ n"
    by (auto simp: in_range_def)
  moreover from this have "x div y \<le> x"
    using zdiv_mono2 [of x 1 y] by simp
  ultimately show ?thesis
    by (auto simp: in_range_def pos_imp_zdiv_nonneg_iff)
qed simp

lemma in_range_mod [simp]:
  assumes "in_range n x" and "in_range n y" and "y \<noteq> 0"
  shows "in_range n (x mod y)"
proof -
  have "0 < y" "y < 2 ^ n"
    using assms by (auto simp: in_range_def)
  then show ?thesis
    unfolding in_range_def by (meson order.strict_trans pos_mod_bound pos_mod_sign)
qed

lemma in_range_shl [simp]: "in_range n (bv_shl n x y)"
  by (simp add: bv_shl_def)

lemma in_range_lshr [simp]: "in_range n x \<Longrightarrow> in_range n (bv_lshr n x y)"
  by (fastforce simp: bv_lshr_def in_range_iff_bit bit_simps)

lemma in_range_ashr [simp]: "in_range n (bv_ashr n x y)"
  by (simp add: bv_ashr_def)

lemma in_range_sdiv [simp]: "in_range n (bv_sdiv n x y)"
  by (simp add: bv_sdiv_def)

lemma in_range_srem [simp]: "in_range n (bv_srem n x y)"
  by (simp add: bv_srem_def)

lemma bv_arith_range:
  "bv_arith k n x y = Some z \<Longrightarrow> in_range n x \<Longrightarrow> in_range n y \<Longrightarrow> in_range n z"
  by (cases k) (auto split: if_splits)

lemma sem_binary_ok:
  assumes "sem_binary dv k a b = Some v" and "dval_ok a" and "dval_ok b"
  shows "dval_ok v \<and> dbits v = (if compareKind k then 1 else dbits a)"
proof (cases a)
  case (BoolV p)
  with assms show ?thesis
    by (cases b; cases v) auto
next
  case (BV n x)
  with assms show ?thesis
    by (cases b) (auto split: if_splits dest: bv_arith_range)
qed

lemma sem_unary_ok:
  "sem_unary k a = Some v \<Longrightarrow> dval_ok a \<Longrightarrow> dval_ok v \<and> dbits v = dbits a"
  by (cases a; cases k) auto

lemma sem_concat_ok:
  "sem_concat a b = Some v \<Longrightarrow> dval_ok a \<Longrightarrow> dval_ok b \<Longrightarrow> dval_ok v \<and> dbits v = dbits a + dbits b"
  by (cases a; cases b) auto

lemma sem_extract_ok: "sem_extract i b a = Some v \<Longrightarrow> dval_ok v \<and> dbits v = b"
  by (cases a) (auto split: if_splits)

lemma sem_zext_ok: "sem_zext b a = Some v \<Longrightarrow> dval_ok a \<Longrightarrow> dval_ok v \<and> dbits v = b"
  by (cases a) (auto split: if_splits intro: in_range_mono)

lemma sem_sext_ok: "sem_sext b a = Some v \<Longrightarrow> dval_ok a \<Longrightarrow> dval_ok v \<and> dbits v = b"
  by (cases a) (auto split: if_splits)

lemma sem_ite_ok:
  "sem_ite c a b = Some v \<Longrightarrow> dval_ok a \<Longrightarrow> dval_ok b \<Longrightarrow> dval_ok v \<and> dbits v = dbits a"
  by (cases c; cases a; cases b) (auto split: if_splits)

lemma den_ok: "den dv \<rho> e = Some v \<Longrightarrow> dval_ok v \<and> dbits v = bits e"
proof (induction e arbitrary: v)
  case (BinaryExpr i k l r)
  then show ?case
    by (auto simp: bind_eq_Some_conv dest!: sem_binary_ok)
next
  case (ConstantExpr i w n)
  then show ?case
    by (auto simp: in_range_def split: if_splits)
next
  case (ReadExpr i k)
  have "uint (\<rho> k) < 2 ^ LENGTH(8)"
    by (rule uint_lt2p)
  with ReadExpr show ?case
    by (auto simp: in_range_def)
qed (force simp: bind_eq_Some_conv dest!: sem_unary_ok sem_concat_ok sem_extract_ok sem_zext_ok
      sem_sext_ok sem_ite_ok)+

lemma den_BV: "den dv \<rho> e = Some (BV n x) \<Longrightarrow> bits e = n \<and> 0 < n \<and> in_range n x"
  using den_ok by fastforce

lemma den_BoolV: "den dv \<rho> e = Some (BoolV p) \<Longrightarrow> bits e = 1"
  using den_ok by fastforce

subsection \<open>Comparisons\<close>

text \<open>
  \<open>swapKind\<close> finds the comparison with the operands exchanged, \<open>negateKind\<close> the comparison with
  the opposite answer.
\<close>

lemma swapKind_sem:
  "swapKind k = Some k' \<Longrightarrow> sem_binary dv k' b a = sem_binary dv k a b"
  by (cases a; cases b; cases k) (auto simp: compareKind_def)

lemma negateKind_sem:
  "negateKind k = Some k' \<Longrightarrow> sem_binary dv k a b = Some (BoolV p) \<Longrightarrow>
   sem_binary dv k' a b = Some (BoolV (\<not> p))"
  by (cases a; cases b; cases k) (auto simp: compareKind_def split: if_splits)

lemma compare_BoolV:
  "compareKind k \<Longrightarrow> sem_binary dv k a b = Some v \<Longrightarrow> \<exists>p. v = BoolV p"
  by (cases a; cases b) (auto split: if_splits)

lemma negateKind_defined: "negateKind k = None \<longleftrightarrow> \<not> isNegatableKind k"
  by (cases k) auto

lemma swapKind_defined: "swapKind k = None \<longleftrightarrow> \<not> isNegatableKind k"
  by (cases k) auto

lemma negateKind_involutive: "negateKind k = Some k' \<Longrightarrow> negateKind k' = Some k"
  by (cases k) auto

lemma swapKind_involutive: "swapKind k = Some k' \<Longrightarrow> swapKind k' = Some k"
  by (cases k) auto

subsection \<open>Dependencies\<close>

lemma den_getDeps:
  "(\<And>i. i \<in> getDeps e \<Longrightarrow> \<rho> i = \<sigma> i) \<Longrightarrow> den dv \<rho> e = den dv \<sigma> e"
  by (induction e) (simp_all cong: bind_option_cong)

lemma isConcrete_getDeps: "isConcrete e \<longleftrightarrow> getDeps e = {}"
  by (induction e) auto

lemma finite_getDeps [simp]: "finite (getDeps e)"
  by (induction e) auto

lemma den_False_True: "den False \<rho> e = Some v \<Longrightarrow> den True \<rho> e = Some v"
proof (induction e arbitrary: v)
  case (BinaryExpr i k l r)
  have "sem_binary False k a b = Some w \<Longrightarrow> sem_binary True k a b = Some w" for a b w
    by (cases a; cases b) (auto split: if_splits)
  with BinaryExpr show ?case
    by (fastforce simp: bind_eq_Some_conv)
qed (auto simp: bind_eq_Some_conv)

subsection \<open>Bit tests and leading zeros\<close>

lemma den_ConcatE:
  assumes "den dv \<rho> (ConcatExpr i l r) = Some v"
  obtains n x m y where "den dv \<rho> l = Some (BV n x)" "den dv \<rho> r = Some (BV m y)"
    "v = BV (n + m) (bv_concat m x y)" "bits l = n" "bits r = m" "in_range n x" "in_range m y"
    "0 < n" "0 < m"
proof -
  from assms obtain a b where ab: "den dv \<rho> l = Some a" "den dv \<rho> r = Some b"
    "sem_concat a b = Some v"
    by (auto simp: bind_eq_Some_conv)
  then obtain n x m y where "a = BV n x" "b = BV m y" "v = BV (n + m) (bv_concat m x y)"
    by (cases a; cases b) auto
  with ab that den_BV show ?thesis
    by metis
qed

lemma isZeroBit_sound:
  "isZeroBit e i \<Longrightarrow> den dv \<rho> e = Some (BV n x) \<Longrightarrow> \<not> bit x i"
proof (induction e arbitrary: i n x)
  case (ConcatExpr j l r)
  from ConcatExpr.prems(2) obtain n1 x1 m1 y1 where
    "den dv \<rho> l = Some (BV n1 x1)" "den dv \<rho> r = Some (BV m1 y1)" "bits r = m1"
    "x = bv_concat m1 x1 y1"
    by (rule den_ConcatE) auto
  with ConcatExpr.IH ConcatExpr.prems(1) show ?case
    by (force simp: bit_simps split: if_splits)
qed (auto split: if_splits)

lemma isOneBit_sound:
  "isOneBit e i \<Longrightarrow> den dv \<rho> e = Some (BV n x) \<Longrightarrow> bit x i"
proof (induction e arbitrary: i n x)
  case (ConcatExpr j l r)
  from ConcatExpr.prems(2) obtain n1 x1 m1 y1 where
    "den dv \<rho> l = Some (BV n1 x1)" "den dv \<rho> r = Some (BV m1 y1)" "bits r = m1"
    "x = bv_concat m1 x1 y1"
    by (rule den_ConcatE) auto
  with ConcatExpr.IH ConcatExpr.prems(1) show ?case
    by (force simp: bit_simps split: if_splits)
qed (auto split: if_splits)

lemma clz_le_bits: "den dv \<rho> e = Some v \<Longrightarrow> countLeadingZeros e \<le> bits e"
proof (induction e arbitrary: v)
  case (ConcatExpr j l r)
  then show ?case
    by (force simp: Let_def elim!: den_ConcatE)
qed auto

lemma countLeadingZeros_sound:
  "den dv \<rho> e = Some (BV n x) \<Longrightarrow> in_range (n - countLeadingZeros e) x"
proof (induction e arbitrary: n x)
  case (ConstantExpr i v m)
  then show ?case
    by (auto simp: in_range_def active_bits_less split: if_splits)
next
  case (ConcatExpr j l r)
  from ConcatExpr.prems obtain n1 x1 m1 y1 where d:
    "den dv \<rho> l = Some (BV n1 x1)" "den dv \<rho> r = Some (BV m1 y1)" "bits r = m1" "bits l = n1"
    "x = bv_concat m1 x1 y1" "n = n1 + m1" "in_range m1 y1"
    by (rule den_ConcatE) auto
  note x1 = ConcatExpr.IH(1) [OF d(1)] and y1 = ConcatExpr.IH(2) [OF d(2)]
  have le: "countLeadingZeros l \<le> n1" "countLeadingZeros r \<le> m1"
    using d clz_le_bits by auto
  show ?case
  proof (cases "countLeadingZeros l = n1")
    case True
    with x1 have "x1 = 0"
      by (simp add: in_range_def)
    with True y1 d show ?thesis
      by (simp add: Let_def concat_0)
  next
    case False
    have "in_range (n1 - countLeadingZeros l + m1) x"
      using x1 d(5) by simp
    with False le d show ?thesis
      by (simp add: Let_def)
  qed
next
  case (ZExtExpr i e m)
  then obtain k where "den dv \<rho> e = Some (BV k x)" "k \<le> m" "n = m"
    by (auto simp: bind_eq_Some_conv elim!: sem_zext.elims split: if_splits)
  with den_BV [OF this(1)] show ?case
    by simp
qed ((frule den_BV, simp)+)

subsection \<open>Equality\<close>

lemma equalShallowly_refl [simp]: "equalShallowly H e e"
  by (cases e) (auto simp: equalShallowly_def equalMetadata_def equalAux_def list_all2_refl)

lemma equalShallowly_den: "equalShallowly H a b \<Longrightarrow> den dv \<rho> a = den dv \<rho> b"
  by (cases a; cases b) (auto simp: equalShallowly_def equalMetadata_def equalAux_def)

lemma equalShallowly_bits: "equalShallowly H a b \<Longrightarrow> bits a = bits b"
  by (simp add: equalShallowly_def equalMetadata_def)

lemma equalShallowly_sym: "equalShallowly H a b \<Longrightarrow> equalShallowly H b a"
  by (cases a; cases b) (auto simp: equalShallowly_def equalMetadata_def equalAux_def)

lemma equalShallowly_trans:
  "equalShallowly H a b \<Longrightarrow> equalShallowly H b c \<Longrightarrow> equalShallowly H a c"
  by (cases a; cases b; cases c) (auto simp: equalShallowly_def equalMetadata_def equalAux_def)

text \<open>The hash is computed from what is compared, so it never separates objects with equal data.\<close>

lemma hash_congruent:
  assumes "kind_of a = kind_of b" "bits a = bits b" "children a = children b" "equalAux a b"
  shows "hash H a = hash H b"
proof -
  have "aux a = aux b"
    using assms(4) by (cases a; cases b) (simp_all add: equalAux_def)
  with assms show ?thesis
    by (simp add: hash.simps [of H a] hash.simps [of H b])
qed

lemma equalShallowly_iff:
  "equalShallowly H a b \<longleftrightarrow>
     kind_of a = kind_of b \<and> bits a = bits b \<and> children a = children b \<and> equalAux a b"
  using hash_congruent [of a b H]
  by (auto simp: equalShallowly_def equalMetadata_def list.rel_eq)

end
