(* ===== verification/ExprCache.thy ===== *)
theory ExprCache
  imports ExprSem
begin

section \<open>The expression cache\<close>

text \<open>
  \<open>ExprCache\<close> (\<open>expr_cache.h\<close>, \<open>expr_cache.cpp\<close>): a set of weak references up to shallow equality
  and the queue of its insertions, which limits it. Which objects are still owned by someone is
  not decided here: the predicate \<open>ex\<close> (\<open>expired()\<close>) is an argument of every operation. The
  buckets of the unordered set play no role; the set is the list of its elements.
\<close>

definition kCacheSize :: nat where
  "kCacheSize = 1024"

record expr_cache =
  cache_limit :: nat
  cache_set :: "expr list"
  cache_queue :: "expr list"

definition ExprCache :: expr_cache where
  "ExprCache = \<lparr>cache_limit = kCacheSize, cache_set = [], cache_queue = []\<rparr>"

definition weakExprRefEqual :: "digest \<Rightarrow> (expr \<Rightarrow> bool) \<Rightarrow> expr \<Rightarrow> expr \<Rightarrow> bool" where
  "weakExprRefEqual H ex l r = (if ex l \<or> ex r then False else equalShallowly H l r)"

definition set_find :: "digest \<Rightarrow> (expr \<Rightarrow> bool) \<Rightarrow> expr \<Rightarrow> expr list \<Rightarrow> expr option" where
  "set_find H ex e xs = List.find (\<lambda>x. weakExprRefEqual H ex x e) xs"

definition cleanup :: "(expr \<Rightarrow> bool) \<Rightarrow> expr_cache \<Rightarrow> expr_cache" where
  "cleanup ex c = c\<lparr>cache_set := filter (\<lambda>x. \<not> ex x) (cache_set c)\<rparr>"

definition shrink :: "digest \<Rightarrow> (expr \<Rightarrow> bool) \<Rightarrow> expr_cache \<Rightarrow> expr_cache" where
  "shrink H ex c =
     (let c1 = (if length (cache_queue c) > cache_limit c then
                  let item = hd (cache_queue c);
                      s = (if \<not> ex item then
                             (case set_find H ex item (cache_set c) of
                                Some it \<Rightarrow> remove1 it (cache_set c)
                              | None \<Rightarrow> cache_set c)
                           else cache_set c)
                  in c\<lparr>cache_set := s, cache_queue := tl (cache_queue c)\<rparr>
                else c)
      in if length (cache_set c1) > cache_limit c1 * 16 then cleanup ex c1 else c1)"

definition insert :: "digest \<Rightarrow> (expr \<Rightarrow> bool) \<Rightarrow> expr \<Rightarrow> expr_cache \<Rightarrow> expr_cache" where
  "insert H ex e c =
     shrink H ex (if set_find H ex e (cache_set c) = None
                  then c\<lparr>cache_set := cache_set c @ [e], cache_queue := cache_queue c @ [e]\<rparr>
                  else c)"

definition find :: "digest \<Rightarrow> (expr \<Rightarrow> bool) \<Rightarrow> expr \<Rightarrow> expr_cache \<Rightarrow> expr option" where
  "find H ex e c = set_find H ex e (cache_set c)"

subsection \<open>Looking up\<close>

lemma set_find_SomeD:
  "set_find H ex e xs = Some x \<Longrightarrow> x \<in> set xs \<and> \<not> ex x \<and> equalShallowly H x e"
  by (auto simp: set_find_def find_Some_iff weakExprRefEqual_def split: if_splits)

lemma set_find_None:
  "set_find H ex e xs = None \<longleftrightarrow> (\<forall>x \<in> set xs. \<not> weakExprRefEqual H ex x e)"
  by (auto simp: set_find_def find_None_iff)

lemma find_sound: "find H ex e c = Some x \<Longrightarrow> x \<in> set (cache_set c) \<and> \<not> ex x \<and> equalShallowly H x e"
  by (simp add: find_def set_find_SomeD)

lemma find_den: "find H ex e c = Some x \<Longrightarrow> den dv \<rho> x = den dv \<rho> e"
  by (auto dest!: find_sound equalShallowly_den)

lemma find_complete:
  "find H ex e c = None \<Longrightarrow> x \<in> set (cache_set c) \<Longrightarrow> \<not> ex x \<Longrightarrow> \<not> ex e \<Longrightarrow> \<not> equalShallowly H x e"
  by (auto simp: find_def set_find_None weakExprRefEqual_def)

subsection \<open>The invariant\<close>

text \<open>
  No two live elements of the set are equal, the queue holds exactly the live elements (and
  possibly dead ones), and the set and the queue keep to their bounds. \<open>lim\<close> is the bound of the
  queue; inside \<open>insert\<close> it is exceeded by one.
\<close>

definition separated :: "digest \<Rightarrow> (expr \<Rightarrow> bool) \<Rightarrow> expr list \<Rightarrow> bool" where
  "separated H ex = sorted_wrt (\<lambda>x y. \<not> weakExprRefEqual H ex x y)"

definition live :: "(expr \<Rightarrow> bool) \<Rightarrow> expr list \<Rightarrow> expr set" where
  "live ex xs = {x \<in> set xs. \<not> ex x}"

definition cache_inv :: "digest \<Rightarrow> (expr \<Rightarrow> bool) \<Rightarrow> expr_cache \<Rightarrow> bool" where
  "cache_inv H ex c \<longleftrightarrow>
     live ex (cache_queue c) = live ex (cache_set c) \<and>
     separated H ex (cache_set c) \<and> separated H ex (cache_queue c) \<and>
     length (cache_queue c) \<le> cache_limit c \<and> length (cache_set c) \<le> cache_limit c * 16"

lemma cache_inv_init: "cache_inv H ex ExprCache"
  by (simp add: cache_inv_def ExprCache_def separated_def live_def)

text \<open>Objects only ever expire.\<close>

lemma separated_mono: "separated H ex xs \<Longrightarrow> (\<And>x. ex x \<Longrightarrow> ex' x) \<Longrightarrow> separated H ex' xs"
  unfolding separated_def
  by (erule sorted_wrt_mono_rel [rotated]) (auto simp: weakExprRefEqual_def split: if_splits)

lemma live_mono: "(\<And>x. ex x \<Longrightarrow> ex' x) \<Longrightarrow> live ex' xs = {x \<in> live ex xs. \<not> ex' x}"
  by (auto simp: live_def)

lemma cache_inv_expire: "cache_inv H ex c \<Longrightarrow> (\<And>x. ex x \<Longrightarrow> ex' x) \<Longrightarrow> cache_inv H ex' c"
  using live_mono [of ex ex'] by (auto simp: cache_inv_def intro: separated_mono)

lemma separated_unique:
  "separated H ex xs \<Longrightarrow> x \<in> set xs \<Longrightarrow> y \<in> set xs \<Longrightarrow> \<not> ex x \<Longrightarrow> \<not> ex y \<Longrightarrow>
   equalShallowly H x y \<Longrightarrow> x = y"
proof (induction xs)
  case (Cons a xs)
  then have "\<forall>z \<in> set xs. \<not> ex a \<longrightarrow> \<not> ex z \<longrightarrow> \<not> equalShallowly H a z" "separated H ex xs"
    by (auto simp: separated_def weakExprRefEqual_def)
  with Cons show ?case
    by (auto dest: equalShallowly_sym)
qed simp

lemma separated_distinct: "separated H ex xs \<Longrightarrow> distinct (filter (\<lambda>x. \<not> ex x) xs)"
  by (induction xs) (auto simp: separated_def weakExprRefEqual_def split: if_splits)

lemma separated_snoc:
  "separated H ex xs \<Longrightarrow> (\<And>x. x \<in> set xs \<Longrightarrow> \<not> weakExprRefEqual H ex x e) \<Longrightarrow>
   separated H ex (xs @ [e])"
  by (simp add: separated_def sorted_wrt_append)

lemma separated_tl: "separated H ex xs \<Longrightarrow> separated H ex (tl xs)"
  by (cases xs) (simp_all add: separated_def)

lemma separated_filter: "separated H ex xs \<Longrightarrow> separated H ex (filter P xs)"
  by (simp add: separated_def sorted_wrt_filter)

lemma separated_remove1: "separated H ex xs \<Longrightarrow> separated H ex (remove1 x xs)"
  by (induction xs) (auto simp: separated_def dest: notin_set_remove1)

lemma live_remove1:
  assumes "separated H ex xs" and "\<not> ex x"
  shows "live ex (remove1 x xs) = live ex xs - {x}"
  using assms
  by (induction xs) (auto simp: live_def separated_def weakExprRefEqual_def)

lemma live_le_queue:
  assumes "separated H ex s" and "live ex q = live ex s"
  shows "length (filter (\<lambda>x. \<not> ex x) s) \<le> length q"
proof -
  have "length (filter (\<lambda>x. \<not> ex x) s) = card (live ex s)"
    using distinct_card [OF separated_distinct [OF assms(1)]] by (simp add: live_def)
  also have "\<dots> = card (live ex q)"
    using assms(2) by simp
  also have "\<dots> \<le> card (set q)"
    by (rule card_mono) (auto simp: live_def)
  also have "\<dots> \<le> length q"
    by (rule card_length)
  finally show ?thesis .
qed

lemma shrink_inv:
  assumes q: "length (cache_queue c) \<le> cache_limit c + 1"
    and l: "live ex (cache_queue c) = live ex (cache_set c)"
    and s: "separated H ex (cache_set c)" "separated H ex (cache_queue c)"
  shows "cache_inv H ex (shrink H ex c)"
proof -
  have clean: "cache_inv H ex (if length (cache_set d) > cache_limit d * 16 then cleanup ex d else d)"
    if "length (cache_queue d) \<le> cache_limit d" "live ex (cache_queue d) = live ex (cache_set d)"
      "separated H ex (cache_set d)" "separated H ex (cache_queue d)" for d
    using that live_le_queue [OF that(3,2)]
    by (auto simp: cache_inv_def cleanup_def separated_filter live_def)
  show ?thesis
  proof (cases "length (cache_queue c) > cache_limit c")
    case False
    with assms clean [of c] show ?thesis
      by (simp add: shrink_def)
  next
    case True
    then obtain item its where c: "cache_queue c = item # its"
      by (cases "cache_queue c") auto
    have its: "separated H ex its"
      using separated_tl [OF s(2)] c by simp
    show ?thesis
    proof (cases "ex item")
      case dead: True
      then have "live ex its = live ex (cache_queue c)"
        using c by (auto simp: live_def)
      with dead clean [of "c\<lparr>cache_queue := its\<rparr>"] True assms c its show ?thesis
        by (simp add: shrink_def Let_def)
    next
      case alive: False
      with l c have "item \<in> set (cache_set c)"
        by (auto simp: live_def)
      with alive obtain it where it: "set_find H ex item (cache_set c) = Some it"
        by (cases "set_find H ex item (cache_set c)") (auto simp: set_find_None weakExprRefEqual_def)
      have "it = item"
        using set_find_SomeD [OF it] separated_unique [OF s(1)] \<open>item \<in> _\<close> alive by blast
      moreover have "item \<notin> live ex its"
        using s(2) alive c by (auto simp: live_def separated_def weakExprRefEqual_def)
      then have "live ex its = live ex (cache_queue c) - {item}"
        using alive c by (auto simp: live_def)
      ultimately show ?thesis
        using clean [of "c\<lparr>cache_set := remove1 item (cache_set c), cache_queue := its\<rparr>"]
          alive True assms c it its live_remove1 [OF s(1) alive]
        by (simp add: shrink_def Let_def separated_remove1)
    qed
  qed
qed

lemma insert_inv:
  assumes "cache_inv H ex c" and "\<not> ex e"
  shows "cache_inv H ex (insert H ex e c)"
proof (cases "set_find H ex e (cache_set c) = None")
  case False
  with assms have "cache_inv H ex (shrink H ex c)"
    by (intro shrink_inv) (simp_all add: cache_inv_def)
  with False show ?thesis
    by (auto simp: insert_def)
next
  case True
  then have n: "\<not> weakExprRefEqual H ex x e" if "x \<in> live ex (cache_set c)" for x
    using that by (auto simp: set_find_None live_def)
  have "\<not> weakExprRefEqual H ex x e" if "x \<in> set (cache_set c) \<or> x \<in> set (cache_queue c)" for x
  proof (cases "ex x")
    case False
    with that have "x \<in> live ex (cache_set c)"
      using assms(1) by (auto simp: cache_inv_def live_def)
    then show ?thesis
      by (rule n)
  qed (simp add: weakExprRefEqual_def)
  then have "cache_inv H ex
      (shrink H ex (c\<lparr>cache_set := cache_set c @ [e], cache_queue := cache_queue c @ [e]\<rparr>))"
    using assms by (intro shrink_inv) (auto simp: cache_inv_def live_def intro!: separated_snoc)
  with True show ?thesis
    by (simp add: insert_def)
qed

lemma shrink_queue:
  "cache_queue (shrink H ex c) =
     (if length (cache_queue c) > cache_limit c then tl (cache_queue c) else cache_queue c)"
  by (simp add: shrink_def Let_def cleanup_def)

text \<open>What was just inserted is found again, or an equal object that was there before.\<close>

lemma insert_find:
  assumes "cache_inv H ex c" and "\<not> ex e" and "0 < cache_limit c"
  shows "find H ex e (insert H ex e c) \<noteq> None"
proof -
  let ?c = "insert H ex e c"
  have inv: "live ex (cache_queue ?c) = live ex (cache_set ?c)"
    using insert_inv [OF assms(1,2)] by (simp add: cache_inv_def)
  have "\<exists>y \<in> live ex (cache_queue ?c). equalShallowly H y e"
  proof (cases "set_find H ex e (cache_set c)")
    case None
    then have "cache_queue ?c = cache_queue c @ [e] \<or>
        cache_queue ?c = tl (cache_queue c @ [e]) \<and> cache_queue c \<noteq> []"
      using assms by (auto simp: insert_def shrink_queue)
    then have "e \<in> live ex (cache_queue ?c)"
      using assms(2) by (auto simp: live_def)
    then show ?thesis
      using equalShallowly_refl by blast
  next
    case (Some y)
    then have "y \<in> live ex (cache_set c)" "equalShallowly H y e"
      using set_find_SomeD [OF Some] by (auto simp: live_def)
    moreover have "cache_queue ?c = cache_queue c"
      using Some assms(1) by (simp add: insert_def shrink_queue cache_inv_def)
    ultimately show ?thesis
      using assms(1) by (auto simp: cache_inv_def)
  qed
  then show ?thesis
    using inv assms(2) by (auto simp: find_def set_find_None live_def weakExprRefEqual_def)
qed

end
