(* ===== verification/CallStack.thy ===== *)
theory CallStack
  imports Prelude "HOL-Library.Word"
begin

unbundle bit_operations_syntax

section \<open>The call stack manager\<close>

text \<open>
  \<open>CallStackManager\<close> (\<open>call_stack_manager.cpp\<close>): the stack of call sites, the hash of that
  context, and the counters that decide whether an expression is still interesting at the
  current basic block. The XXH32 digest of a byte sequence is the parameter \<open>X\<close>.
\<close>

type_synonym addr = "64 word"
type_synonym xxh32 = "8 word list \<Rightarrow> 32 word"

definition kBitmapSize :: nat where
  "kBitmapSize = 65536"

definition kStride :: nat where
  "kStride = 8"

record call_stack_manager =
  call_stack :: "addr list"
  call_stack_hash :: "32 word"
  is_interesting :: bool
  bitmap :: "16 word list"
  last_index :: "32 word"
  pending :: bool
  last_pc :: addr

text \<open>
  The constructor. It leaves \<open>call_stack_hash_\<close> and the elements of the new array as they are in
  memory: both are arguments here.
\<close>

definition CallStackManager :: "32 word \<Rightarrow> 16 word list \<Rightarrow> call_stack_manager" where
  "CallStackManager h0 bm = \<lparr>call_stack = [], call_stack_hash = h0, is_interesting = True,
     bitmap = bm, last_index = 0, pending = False, last_pc = 0\<rparr>"

text \<open>The bytes of a value in memory, least significant first.\<close>

definition le_bytes :: "nat \<Rightarrow> nat \<Rightarrow> 8 word list" where
  "le_bytes n v = map (\<lambda>i. of_nat (v div 256 ^ i)) [0..<n]"

lemma length_le_bytes [simp]: "length (le_bytes n v) = n"
  by (simp add: le_bytes_def)

text \<open>
  \<open>isPowerOfTwo\<close>: the argument is promoted to \<open>int\<close>, so the difference is \<open>- 1\<close> for zero.
\<close>

definition isPowerOfTwo :: "16 word \<Rightarrow> bool" where
  "isPowerOfTwo x = ((uint x AND (uint x - 1)) = 0)"

definition computeHash :: "xxh32 \<Rightarrow> call_stack_manager \<Rightarrow> call_stack_manager" where
  "computeHash X m =
     m\<lparr>call_stack_hash := X (concat (map (\<lambda>pc. le_bytes 8 (unat pc)) (call_stack m)))\<rparr>"

definition visitCall :: "xxh32 \<Rightarrow> addr \<Rightarrow> call_stack_manager \<Rightarrow> call_stack_manager" where
  "visitCall X pc m = computeHash X (m\<lparr>call_stack := call_stack m @ [pc]\<rparr>)"

text \<open>
  \<open>visitRet\<close>: the first loop runs over the stack from the back (\<open>it\<close> is the list of elements
  that the iterator has still to visit) and stops when \<open>call_stack.back()\<close> is the address.
\<close>

fun count_elements_to_remove :: "addr list \<Rightarrow> addr \<Rightarrow> addr list \<Rightarrow> nat \<Rightarrow> nat" where
  "count_elements_to_remove stack pc [] n = n"
| "count_elements_to_remove stack pc (it # its) n =
     (if last stack = pc then n + 1 else count_elements_to_remove stack pc its (n + 1))"

definition visitRet :: "xxh32 \<Rightarrow> addr \<Rightarrow> call_stack_manager \<Rightarrow> call_stack_manager" where
  "visitRet X pc m =
     (let stack = call_stack m;
          num_elements_to_remove = count_elements_to_remove stack pc (rev stack) 0
      in computeHash X (m\<lparr>call_stack := (butlast ^^ num_elements_to_remove) stack\<rparr>))"

definition visitBasicBlock :: "addr \<Rightarrow> call_stack_manager \<Rightarrow> call_stack_manager" where
  "visitBasicBlock pc m = m\<lparr>last_pc := pc, pending := True\<rparr>"

definition bitmap_index :: "xxh32 \<Rightarrow> call_stack_manager \<Rightarrow> nat" where
  "bitmap_index X m =
     unat (X (le_bytes 8 (unat (last_pc m)) @ le_bytes 4 (unat (call_stack_hash m))))
       mod kBitmapSize"

definition updateBitmap :: "xxh32 \<Rightarrow> call_stack_manager \<Rightarrow> call_stack_manager" where
  "updateBitmap X m =
     (if pending m then
        let index = bitmap_index X m; count = bitmap m ! index
        in m\<lparr>pending := False,
             is_interesting := isPowerOfTwo (count div of_nat kStride),
             bitmap := (bitmap m)[index := count + 1]\<rparr>
      else m)"

definition isInteresting :: "call_stack_manager \<Rightarrow> bool" where
  "isInteresting m = is_interesting m"

subsection \<open>The stack\<close>

lemma call_stack_computeHash [simp]:
  "call_stack (computeHash X m) = call_stack m" "bitmap (computeHash X m) = bitmap m"
  by (simp_all add: computeHash_def)

lemma butlast_funpow: "(butlast ^^ n) xs = take (length xs - n) xs"
  by (induction n) (simp_all add: butlast_take)

lemma count_no_match:
  "last stack \<noteq> pc \<Longrightarrow> count_elements_to_remove stack pc its n = n + length its"
  by (induction its arbitrary: n) auto

text \<open>What \<open>visitRet\<close> does: one frame goes when the top one is the address, and otherwise all.\<close>

lemma visitRet_call_stack:
  "call_stack (visitRet X pc m) =
     (if call_stack m \<noteq> [] \<and> last (call_stack m) = pc then butlast (call_stack m) else [])"
proof (cases "call_stack m" rule: rev_cases)
  case Nil
  then show ?thesis
    by (simp add: visitRet_def)
next
  case (snoc ys y)
  then show ?thesis
    by (cases "y = pc")
      (simp_all add: visitRet_def Let_def count_no_match butlast_funpow)
qed

text \<open>
  What the loop is written for: to drop the frames above the most recent call from \<open>pc\<close>, and that
  frame with them. With such a frame on top the two agree.
\<close>

definition unwind_to :: "addr \<Rightarrow> addr list \<Rightarrow> addr list" where
  "unwind_to pc stack = rev (drop 1 (dropWhile (\<lambda>a. a \<noteq> pc) (rev stack)))"

lemma visitRet_unwind:
  "call_stack (visitRet X pc m) = unwind_to pc (call_stack m) \<longleftrightarrow>
     unwind_to pc (call_stack m) = [] \<or> last (call_stack m) = pc"
proof (cases "call_stack m" rule: rev_cases)
  case Nil
  then show ?thesis
    by (simp add: visitRet_call_stack unwind_to_def)
next
  case (snoc ys y)
  then show ?thesis
    by (cases "y = pc") (auto simp: visitRet_call_stack unwind_to_def)
qed

lemma visitCall_visitRet:
  "call_stack (visitRet X pc (visitCall X pc m)) = call_stack m"
  by (simp add: visitRet_call_stack visitCall_def)

subsection \<open>The bitmap\<close>

lemma and_pred_eq_0:
  "0 \<le> (n::int) \<Longrightarrow> n AND (n - 1) = 0 \<longleftrightarrow> n = 0 \<or> (\<exists>k. n = 2 ^ k)"
proof (induction "nat n" arbitrary: n rule: less_induct)
  case less
  consider "n = 0" | m where "n = 2 * m" "0 < m" | m where "n = 2 * m + 1" "0 \<le> m"
  proof (cases "even n")
    case True
    with less.prems that(1) that(2) [of "n div 2"] show ?thesis
      by fastforce
  next
    case False
    with less.prems that(3) [of "n div 2"] show ?thesis
      by simp
  qed
  then show ?case
  proof cases
    case 1
    then show ?thesis
      by simp
  next
    case (2 m)
    then have "(n - 1) div 2 = m - 1" "even n" "n div 2 = m"
      by simp_all
    then have "n AND (n - 1) = 2 * (m AND (m - 1))"
      by (simp add: and_rec [of n])
    moreover have "(\<exists>k. n = 2 ^ k) \<longleftrightarrow> (\<exists>k. m = 2 ^ k)"
    proof
      assume "\<exists>k. n = 2 ^ k"
      then obtain k where k: "n = 2 ^ k" ..
      with 2 have "k \<noteq> 0"
        by (metis even_mult_iff even_numeral odd_one power_0)
      with k 2 show "\<exists>k. m = 2 ^ k"
        by (cases k) auto
    next
      assume "\<exists>k. m = 2 ^ k"
      then obtain k where "m = 2 ^ k" ..
      with 2 have "n = 2 ^ Suc k"
        by simp
      then show "\<exists>k. n = 2 ^ k" ..
    qed
    ultimately show ?thesis
      using 2 less.hyps [of m] by simp
  next
    case (3 m)
    then have "(n - 1) div 2 = m" "odd n" "n div 2 = m"
      by simp_all
    then have "n AND (n - 1) = 2 * m"
      by (simp add: and_rec [of n])
    moreover have "(\<exists>k. n = 2 ^ k) \<longleftrightarrow> m = 0"
    proof
      assume "\<exists>k. n = 2 ^ k"
      then obtain k where "2 * m + 1 = 2 ^ k"
        using 3 by auto
      then show "m = 0"
        by (cases k) (simp_all, presburger)
    next
      assume "m = 0"
      with 3 have "n = 2 ^ 0"
        by simp
      then show "\<exists>k. n = 2 ^ k" ..
    qed
    ultimately show ?thesis
      using 3 by simp
  qed
qed

text \<open>The test of the code: zero counts as a power of two.\<close>

lemma isPowerOfTwo_iff: "isPowerOfTwo x \<longleftrightarrow> unat x = 0 \<or> (\<exists>k. unat x = 2 ^ k)"
proof -
  have "uint x = int (unat x)"
    by simp
  moreover have "int (unat x) = 2 ^ k \<longleftrightarrow> unat x = 2 ^ k" for k
    by (metis of_nat_eq_iff of_nat_numeral of_nat_power)
  ultimately show ?thesis
    unfolding isPowerOfTwo_def by (simp only: and_pred_eq_0 of_nat_0_le_iff of_nat_eq_0_iff)
qed

text \<open>
  The strided exponential backoff: the counter of the block decides, and every block counts its
  own visits modulo \<open>2 ^ 16\<close>.
\<close>

definition backoff :: "nat \<Rightarrow> bool" where
  "backoff count \<longleftrightarrow> count div 8 = 0 \<or> (\<exists>k. count div 8 = 2 ^ k)"

lemma updateBitmap_interesting:
  "pending m \<Longrightarrow> isInteresting (updateBitmap X m) \<longleftrightarrow> backoff (unat (bitmap m ! bitmap_index X m))"
  by (simp add: updateBitmap_def isInteresting_def Let_def isPowerOfTwo_iff backoff_def
      kStride_def unat_div)

lemma updateBitmap_idle: "\<not> pending m \<Longrightarrow> updateBitmap X m = m"
  by (simp add: updateBitmap_def)

lemma bitmap_index_less [simp]: "bitmap_index X m < kBitmapSize"
  by (simp add: bitmap_index_def kBitmapSize_def)

lemma updateBitmap_count:
  assumes "length (bitmap m) = kBitmapSize"
  shows "bitmap (updateBitmap X m) ! i =
    (if pending m \<and> i = bitmap_index X m then bitmap m ! i + 1 else bitmap m ! i)"
  using assms by (simp add: updateBitmap_def Let_def)

lemma updateBitmap_length [simp]: "length (bitmap (updateBitmap X m)) = length (bitmap m)"
  by (simp add: updateBitmap_def Let_def)

text \<open>The visits of one block in one context: \<open>n\<close> times entered, and lazily counted.\<close>

definition visits :: "xxh32 \<Rightarrow> addr \<Rightarrow> nat \<Rightarrow> call_stack_manager \<Rightarrow> call_stack_manager" where
  "visits X pc n = ((\<lambda>m. updateBitmap X (visitBasicBlock pc m)) ^^ n)"

lemma bitmap_index_visit [simp]:
  "bitmap_index X (visitBasicBlock pc (updateBitmap X m)) = bitmap_index X (visitBasicBlock pc m)"
  by (simp add: bitmap_index_def visitBasicBlock_def updateBitmap_def Let_def)

lemma visits_count:
  fixes X :: xxh32 and pc :: addr and m :: call_stack_manager
  assumes "length (bitmap m) = kBitmapSize"
  defines "i \<equiv> bitmap_index X (visitBasicBlock pc m)"
  shows "length (bitmap (visits X pc n m)) = kBitmapSize \<and>
    bitmap_index X (visitBasicBlock pc (visits X pc n m)) = i \<and>
    bitmap (visits X pc n m) ! i = bitmap m ! i + of_nat n"
proof (induction n)
  case 0
  show ?case
    using assms by (simp add: visits_def)
next
  case (Suc n)
  let ?m = "visits X pc n m"
  have "visits X pc (Suc n) m = updateBitmap X (visitBasicBlock pc ?m)"
    by (simp add: visits_def)
  moreover have "bitmap_index X (visitBasicBlock pc (visitBasicBlock pc ?m)) = i"
    using Suc by (simp add: visitBasicBlock_def)
  ultimately show ?case
    using Suc updateBitmap_count [of "visitBasicBlock pc ?m" X i]
    by (simp add: visitBasicBlock_def bitmap_index_def updateBitmap_def Let_def)
qed

lemma visits_any:
  assumes "length (bitmap m) = kBitmapSize"
  shows "isInteresting (visits X pc (Suc n) m) \<longleftrightarrow>
    backoff (unat (bitmap m ! bitmap_index X (visitBasicBlock pc m) + of_nat n))"
proof -
  let ?m = "visitBasicBlock pc (visits X pc n m)"
  have "bitmap ?m ! bitmap_index X ?m = bitmap m ! bitmap_index X (visitBasicBlock pc m) + of_nat n"
    using visits_count [OF assms, of X pc n] by (simp add: visitBasicBlock_def)
  moreover have "visits X pc (Suc n) m = updateBitmap X ?m" and "pending ?m"
    by (simp_all add: visits_def visitBasicBlock_def)
  ultimately show ?thesis
    by (simp add: updateBitmap_interesting)
qed

lemma visits_interesting:
  assumes "length (bitmap m) = kBitmapSize"
    and "bitmap m ! bitmap_index X (visitBasicBlock pc m) = 0"
  shows "isInteresting (visits X pc (Suc n) m) \<longleftrightarrow> backoff (n mod 2 ^ 16)"
  using visits_any [OF assms(1), of X pc n] assms(2) by (simp add: unat_of_nat)

text \<open>The counter comes round, so whatever it is, a block becomes interesting again.\<close>

lemma visits_again:
  assumes "length (bitmap m) = kBitmapSize"
  shows "\<exists>k > n. k \<le> n + 2 ^ 16 \<and> isInteresting (visits X pc k m)"
proof -
  define c where "c = bitmap m ! bitmap_index X (visitBasicBlock pc m) + of_nat n"
  define d where "d = unat (- c)"
  have d: "d < 2 ^ 16"
    using unsigned_less [of "- c"] by (simp add: d_def)
  have "c + of_nat d = 0"
    by (simp add: d_def)
  then have "isInteresting (visits X pc (Suc (n + d)) m)"
    unfolding visits_any [OF assms] by (simp add: c_def backoff_def add.assoc)
  then show ?thesis
    using d by (intro exI [of _ "Suc (n + d)"]) simp
qed

end
