(* ===== verification/Builder.thy ===== *)
theory Builder
  imports ExprCache CallStack
begin

section \<open>Expression builders\<close>

text \<open>
  The class \<open>ExprBuilder\<close> (\<open>expr_builder.h\<close>) and the two builders at the bottom of every stack,
  \<open>BaseExprBuilder\<close> and \<open>CacheExprBuilder\<close>. The bodies of these classes are what
  \<open>codegen/gen_expr_builder.py\<close> prints for each kind.

  A builder is the record of its virtual methods. The methods \<open>createAdd\<close>, \<open>createSub\<close>, ... for
  the 25 binary kinds are one field, \<open>createBinaryExpr\<close>, which takes the kind; it is also the
  dispatch function of that name, whose \<open>LOG_FATAL\<close> for other kinds is the outcome \<open>None\<close>.
  The same holds of the three unary kinds. A layer is a function from the builder below it
  (\<open>next_\<close>) to a builder: the methods that a class does not override go to \<open>next_\<close>, as the
  generated \<open>ExprBuilder::create*\<close> do, so a layer is a record update of the builder below.
\<close>

subsection \<open>State and environment\<close>

text \<open>
  The state that building expressions changes: the next identity of an object, the static vector
  of \<open>BaseExprBuilder::createRead\<close> (the identity of the object for an offset), the cache with a
  clock of its operations, the call stack manager, and the \<open>evaluation_\<close> fields.
\<close>

record bst =
  next_oid :: nat
  read_cache :: "nat \<Rightarrow> nat option"
  expr_cache :: expr_cache
  clock :: nat
  csm :: call_stack_manager
  evaluation :: "expr \<Rightarrow> expr option"

text \<open>
  What the builders use from outside: LLVM's \<open>APInt\<close>, the digests, and which objects have
  expired at a time of the clock.
\<close>

record env =
  apint :: apint_api
  expr_digest :: digest
  expired :: "nat \<Rightarrow> expr \<Rightarrow> bool"
  xxh :: xxh32

type_synonym 'a build = "bst \<Rightarrow> ('a \<times> bst) option"

record builder =
  createBool :: "bool \<Rightarrow> expr build"
  createConstant :: "nat \<Rightarrow> nat \<Rightarrow> expr build"
  createConstantAP :: "int \<Rightarrow> nat \<Rightarrow> expr build"
  createRead :: "nat \<Rightarrow> expr build"
  createConcat :: "expr \<Rightarrow> expr \<Rightarrow> expr build"
  createExtract :: "expr \<Rightarrow> nat \<Rightarrow> nat \<Rightarrow> expr build"
  createZExt :: "expr \<Rightarrow> nat \<Rightarrow> expr build"
  createSExt :: "expr \<Rightarrow> nat \<Rightarrow> expr build"
  createUnaryExpr :: "kind \<Rightarrow> expr \<Rightarrow> expr build"
  createBinaryExpr :: "kind \<Rightarrow> expr \<Rightarrow> expr \<Rightarrow> expr build"
  createIte :: "expr \<Rightarrow> expr \<Rightarrow> expr \<Rightarrow> expr build"

definition unaryKind :: "kind \<Rightarrow> bool" where
  "unaryKind k \<longleftrightarrow> k \<in> {Not, Neg, LNot}"

definition binaryKind :: "kind \<Rightarrow> bool" where
  "binaryKind k \<longleftrightarrow> k \<in> {Add, Sub, Mul, UDiv, SDiv, URem, SRem, And, Or, Xor, Shl, LShr, AShr,
     Equal, Distinct, Ult, Ule, Ugt, Uge, Slt, Sle, Sgt, Sge, LOr, LAnd}"

subsection \<open>BaseExprBuilder\<close>

text \<open>\<open>std::make_shared\<close>: an object with a new identity.\<close>

definition make_shared :: "(nat \<Rightarrow> expr) \<Rightarrow> expr build" where
  "make_shared mk s = Some (mk (next_oid s), s\<lparr>next_oid := next_oid s + 1\<rparr>)"

definition base_createRead :: "nat \<Rightarrow> expr build" where
  "base_createRead off s = (case read_cache s off of
     Some oid \<Rightarrow> Some (ReadExpr oid off, s)
   | None \<Rightarrow> Some (ReadExpr (next_oid s) off,
       s\<lparr>next_oid := next_oid s + 1, read_cache := (read_cache s)(off \<mapsto> next_oid s)\<rparr>))"

text \<open>The assertion is the one of the constructor of \<open>ExtractExpr\<close>.\<close>

definition base_createExtract :: "expr \<Rightarrow> nat \<Rightarrow> nat \<Rightarrow> expr build" where
  "base_createExtract e index n s =
     (if n = bits e then Some (e, s)
      else assert (n + index \<le> bits e) (make_shared (\<lambda>oid. ExtractExpr oid e index n) s))"

definition base_createUnaryExpr :: "kind \<Rightarrow> expr \<Rightarrow> expr build" where
  "base_createUnaryExpr k e s = assert (unaryKind k) (make_shared (\<lambda>oid. UnaryExpr oid k e) s)"

definition base_createBinaryExpr :: "kind \<Rightarrow> expr \<Rightarrow> expr \<Rightarrow> expr build" where
  "base_createBinaryExpr k l r s =
     assert (binaryKind k) (assert (bits l = bits r) (make_shared (\<lambda>oid. BinaryExpr oid k l r) s))"

definition base_createIte :: "expr \<Rightarrow> expr \<Rightarrow> expr \<Rightarrow> expr build" where
  "base_createIte c t f s = assert (bits t = bits f) (make_shared (\<lambda>oid. IteExpr oid c t f) s)"

text \<open>A constant from an \<open>ADDRINT\<close> is an \<open>APInt\<close> of the given width; an \<open>APInt\<close> is taken as it is.\<close>

definition base_builder :: builder where
  "base_builder = \<lparr>
     createBool = (\<lambda>b. make_shared (\<lambda>oid. BoolExpr oid b)),
     createConstant = (\<lambda>v n. make_shared (\<lambda>oid. ConstantExpr oid (take_bit n (int v)) n)),
     createConstantAP = (\<lambda>v n. make_shared (\<lambda>oid. ConstantExpr oid v n)),
     createRead = base_createRead,
     createConcat = (\<lambda>l r. make_shared (\<lambda>oid. ConcatExpr oid l r)),
     createExtract = base_createExtract,
     createZExt = (\<lambda>e n. make_shared (\<lambda>oid. ZExtExpr oid e n)),
     createSExt = (\<lambda>e n. make_shared (\<lambda>oid. SExtExpr oid e n)),
     createUnaryExpr = base_createUnaryExpr,
     createBinaryExpr = base_createBinaryExpr,
     createIte = base_createIte\<rparr>"

subsection \<open>CacheExprBuilder\<close>

text \<open>The expired objects at this moment; the argument of the call is owned by the caller.\<close>

definition expired_now :: "env \<Rightarrow> expr \<Rightarrow> bst \<Rightarrow> expr \<Rightarrow> bool" where
  "expired_now E e s x \<longleftrightarrow> expired E (clock s) x \<and> x \<noteq> e"

definition findInCache :: "env \<Rightarrow> expr \<Rightarrow> bst \<Rightarrow> expr option" where
  "findInCache E e s = find (expr_digest E) (expired_now E e s) e (expr_cache s)"

definition insertToCache :: "env \<Rightarrow> expr \<Rightarrow> bst \<Rightarrow> bst" where
  "insertToCache E e s =
     s\<lparr>expr_cache := insert (expr_digest E) (expired_now E e s) e (expr_cache s)\<rparr>"

definition findOrInsert :: "env \<Rightarrow> expr \<Rightarrow> expr build" where
  "findOrInsert E new_expr s =
     (let tick = (\<lambda>s. s\<lparr>clock := clock s + 1\<rparr>) in
      case findInCache E new_expr s of
        Some cached \<Rightarrow> Some (cached, tick s)
      | None \<Rightarrow> Some (new_expr, tick (insertToCache E new_expr s)))"

definition cache_builder :: "env \<Rightarrow> builder \<Rightarrow> builder" where
  "cache_builder E next = next\<lparr>
     createConcat := (\<lambda>l r s. do { (e, s) \<leftarrow> createConcat next l r s; findOrInsert E e s }),
     createExtract := (\<lambda>e i n s. do { (e, s) \<leftarrow> createExtract next e i n s; findOrInsert E e s }),
     createZExt := (\<lambda>e n s. do { (e, s) \<leftarrow> createZExt next e n s; findOrInsert E e s }),
     createSExt := (\<lambda>e n s. do { (e, s) \<leftarrow> createSExt next e n s; findOrInsert E e s }),
     createUnaryExpr := (\<lambda>k e s. do { (e, s) \<leftarrow> createUnaryExpr next k e s; findOrInsert E e s }),
     createBinaryExpr := (\<lambda>k l r s. do { (e, s) \<leftarrow> createBinaryExpr next k l r s; findOrInsert E e s }),
     createIte := (\<lambda>c t f s. do { (e, s) \<leftarrow> createIte next c t f s; findOrInsert E e s })\<rparr>"

subsection \<open>The utility functions of ExprBuilder\<close>

definition createTrue :: "builder \<Rightarrow> expr build" where
  "createTrue B = createBool B True"

definition createFalse :: "builder \<Rightarrow> expr build" where
  "createFalse B = createBool B False"

definition createMsb :: "builder \<Rightarrow> expr \<Rightarrow> expr build" where
  "createMsb B e = createExtract B e (bits e - 1) 1"

definition createLsb :: "builder \<Rightarrow> expr \<Rightarrow> expr build" where
  "createLsb B e = createExtract B e 0 1"

definition bitToBool :: "builder \<Rightarrow> expr \<Rightarrow> expr build" where
  "bitToBool B e s = assert (bits e = 1)
     (do { (one, s) \<leftarrow> createConstant B 1 (bits e) s; createBinaryExpr B Equal e one s })"

definition boolToBit :: "builder \<Rightarrow> expr \<Rightarrow> nat \<Rightarrow> expr build" where
  "boolToBit B e n s = do {
     (e1, s) \<leftarrow> createConstant B 1 n s;
     (e0, s) \<leftarrow> createConstant B 0 n s;
     createIte B e e1 e0 s }"

text \<open>\<open>createConcat\<close> and \<open>createLAnd\<close> of a list of expressions.\<close>

fun createConcat_loop :: "builder \<Rightarrow> expr \<Rightarrow> expr list \<Rightarrow> expr build" where
  "createConcat_loop B e [] s = Some (e, s)"
| "createConcat_loop B e (x # xs) s =
     do { (e, s) \<leftarrow> createConcat B e x s; createConcat_loop B e xs s }"

fun createConcat_list :: "builder \<Rightarrow> expr list \<Rightarrow> expr build" where
  "createConcat_list B [] s = None"
| "createConcat_list B (e # es) s = createConcat_loop B e es s"

fun createLAnd_loop :: "builder \<Rightarrow> expr \<Rightarrow> expr list \<Rightarrow> expr build" where
  "createLAnd_loop B e [] s = Some (e, s)"
| "createLAnd_loop B e (x # xs) s =
     do { (e, s) \<leftarrow> createBinaryExpr B LAnd e x s; createLAnd_loop B e xs s }"

fun createLAnd_list :: "builder \<Rightarrow> expr list \<Rightarrow> expr build" where
  "createLAnd_list B [] s = None"
| "createLAnd_list B (e # es) s = createLAnd_loop B e es s"

definition createTrunc :: "builder \<Rightarrow> expr \<Rightarrow> nat \<Rightarrow> expr build" where
  "createTrunc B e n = createExtract B e 0 n"

end
