(* ===== verification/BuilderLaws.thy ===== *)
theory BuilderLaws
  imports Builder
begin

declare One_nat_def [simp del]

section \<open>The contract of an expression builder\<close>

text \<open>
  What the clients of a builder rely on, as a locale: each method comes back with an expression
  that means what the operation means on the meanings of the operands. The contract is stated
  for one assignment \<open>\<rho>\<close> of the input bytes, for operands and a result that have a meaning there,
  and relative to an invariant \<open>I\<close> of the state. With \<open>t\<close> it includes that the method comes back;
  without \<open>dv\<close> it does not speak of expressions with quotients (see \<open>Expr\<close>).

  Each layer of the code keeps the contract of the builder below it, and the stacks that the
  code builds are interpretations of the locale.
\<close>

locale sound_builder =
  fixes t dv :: bool and \<rho> :: assignment and I :: "bst \<Rightarrow> bool" and B :: builder
  assumes bool_law: "I s \<Longrightarrow> runs t I (createBool B p s) (\<lambda>e. den dv \<rho> e = Some (BoolV p))"
    and const_law: "I s \<Longrightarrow> 0 < n \<Longrightarrow>
      runs t I (createConstant B v n s) (\<lambda>e. den dv \<rho> e = Some (BV n (take_bit n (int v))))"
    and constAP_law: "I s \<Longrightarrow> 0 < n \<Longrightarrow> in_range n z \<Longrightarrow>
      runs t I (createConstantAP B z n s) (\<lambda>e. den dv \<rho> e = Some (BV n z))"
    and read_law: "I s \<Longrightarrow>
      runs t I (createRead B off s) (\<lambda>e. den dv \<rho> e = Some (BV 8 (uint (\<rho> off))))"
    and concat_law: "I s \<Longrightarrow> den dv \<rho> l = Some a \<Longrightarrow> den dv \<rho> r = Some b \<Longrightarrow> sem_concat a b = Some c \<Longrightarrow>
      runs t I (createConcat B l r s) (\<lambda>e. den dv \<rho> e = Some c)"
    and extract_law: "I s \<Longrightarrow> den dv \<rho> x = Some a \<Longrightarrow> sem_extract i n a = Some c \<Longrightarrow>
      runs t I (createExtract B x i n s) (\<lambda>e. den dv \<rho> e = Some c)"
    and zext_law: "I s \<Longrightarrow> den dv \<rho> x = Some a \<Longrightarrow> sem_zext n a = Some c \<Longrightarrow>
      runs t I (createZExt B x n s) (\<lambda>e. den dv \<rho> e = Some c)"
    and sext_law: "I s \<Longrightarrow> den dv \<rho> x = Some a \<Longrightarrow> sem_sext n a = Some c \<Longrightarrow>
      runs t I (createSExt B x n s) (\<lambda>e. den dv \<rho> e = Some c)"
    and unary_law: "I s \<Longrightarrow> den dv \<rho> x = Some a \<Longrightarrow> sem_unary k a = Some c \<Longrightarrow>
      runs t I (createUnaryExpr B k x s) (\<lambda>e. den dv \<rho> e = Some c)"
    and binary_law: "I s \<Longrightarrow> den dv \<rho> l = Some a \<Longrightarrow> den dv \<rho> r = Some b \<Longrightarrow>
      sem_binary dv k a b = Some c \<Longrightarrow>
      runs t I (createBinaryExpr B k l r s) (\<lambda>e. den dv \<rho> e = Some c)"
    and ite_law: "I s \<Longrightarrow> den dv \<rho> g = Some a \<Longrightarrow> den dv \<rho> x = Some b \<Longrightarrow> den dv \<rho> y = Some d \<Longrightarrow>
      sem_ite a b d = Some f \<Longrightarrow>
      runs t I (createIte B g x y s) (\<lambda>e. den dv \<rho> e = Some f)"
begin

text \<open>The laws for bit vectors, one per operation.\<close>

lemma const_0:
  "I s \<Longrightarrow> 0 < n \<Longrightarrow> runs t I (createConstant B 0 n s) (\<lambda>e. den dv \<rho> e = Some (BV n 0))"
  using const_law [of s n 0] by simp

lemma const_1:
  "I s \<Longrightarrow> 0 < n \<Longrightarrow> runs t I (createConstant B 1 n s) (\<lambda>e. den dv \<rho> e = Some (BV n 1))"
  using const_law [of s n 1] by (simp add: take_bit_eq_mod one_less_power)

lemma concat_bv:
  "I s \<Longrightarrow> den dv \<rho> l = Some (BV n a) \<Longrightarrow> den dv \<rho> r = Some (BV m b) \<Longrightarrow>
   runs t I (createConcat B l r s) (\<lambda>e. den dv \<rho> e = Some (BV (n + m) (bv_concat m a b)))"
  by (rule concat_law) auto

lemma extract_bv:
  "I s \<Longrightarrow> den dv \<rho> x = Some (BV n a) \<Longrightarrow> 0 < k \<Longrightarrow> i + k \<le> n \<Longrightarrow>
   runs t I (createExtract B x i k s) (\<lambda>e. den dv \<rho> e = Some (BV k (bv_extract i k a)))"
  by (rule extract_law) auto

lemma zext_bv:
  "I s \<Longrightarrow> den dv \<rho> x = Some (BV n a) \<Longrightarrow> n \<le> k \<Longrightarrow>
   runs t I (createZExt B x k s) (\<lambda>e. den dv \<rho> e = Some (BV k a))"
  by (rule zext_law) auto

lemma sext_bv:
  "I s \<Longrightarrow> den dv \<rho> x = Some (BV n a) \<Longrightarrow> n \<le> k \<Longrightarrow>
   runs t I (createSExt B x k s) (\<lambda>e. den dv \<rho> e = Some (BV k (take_bit k (sval n a))))"
  by (rule sext_law) auto

lemma not_bv:
  "I s \<Longrightarrow> den dv \<rho> x = Some (BV n a) \<Longrightarrow>
   runs t I (createUnaryExpr B Not x s) (\<lambda>e. den dv \<rho> e = Some (BV n (take_bit n (not a))))"
  by (rule unary_law) auto

lemma neg_bv:
  "I s \<Longrightarrow> den dv \<rho> x = Some (BV n a) \<Longrightarrow>
   runs t I (createUnaryExpr B Neg x s) (\<lambda>e. den dv \<rho> e = Some (BV n (take_bit n (- a))))"
  by (rule unary_law) auto

lemma lnot_bool:
  "I s \<Longrightarrow> den dv \<rho> x = Some (BoolV p) \<Longrightarrow>
   runs t I (createUnaryExpr B LNot x s) (\<lambda>e. den dv \<rho> e = Some (BoolV (\<not> p)))"
  by (rule unary_law) auto

lemma arith_bv:
  "I s \<Longrightarrow> den dv \<rho> l = Some (BV n a) \<Longrightarrow> den dv \<rho> r = Some (BV n b) \<Longrightarrow>
   \<not> compareKind k \<Longrightarrow> (k = UDiv \<or> k = SDiv \<Longrightarrow> dv) \<Longrightarrow> bv_arith k n a b = Some c \<Longrightarrow>
   runs t I (createBinaryExpr B k l r s) (\<lambda>e. den dv \<rho> e = Some (BV n c))"
  by (rule binary_law) auto

lemma compare_bv:
  "I s \<Longrightarrow> den dv \<rho> l = Some (BV n a) \<Longrightarrow> den dv \<rho> r = Some (BV n b) \<Longrightarrow>
   compareKind k \<Longrightarrow> bv_compare k n a b = Some p \<Longrightarrow>
   runs t I (createBinaryExpr B k l r s) (\<lambda>e. den dv \<rho> e = Some (BoolV p))"
  by (rule binary_law) (auto simp: compareKind_def)

lemma connect_bool:
  "I s \<Longrightarrow> den dv \<rho> l = Some (BoolV p) \<Longrightarrow> den dv \<rho> r = Some (BoolV q) \<Longrightarrow>
   bool_connect k p q = Some b \<Longrightarrow>
   runs t I (createBinaryExpr B k l r s) (\<lambda>e. den dv \<rho> e = Some (BoolV b))"
  by (rule binary_law) auto

lemma ite_bv:
  "I s \<Longrightarrow> den dv \<rho> g = Some (BoolV p) \<Longrightarrow> den dv \<rho> x = Some (BV n a) \<Longrightarrow>
   den dv \<rho> y = Some (BV n b) \<Longrightarrow>
   runs t I (createIte B g x y s) (\<lambda>e. den dv \<rho> e = Some (BV n (if p then a else b)))"
  by (rule ite_law) auto

lemmas add_bv = arith_bv [where k = Add, simplified compareKind_def, simplified]
lemmas sub_bv = arith_bv [where k = Sub, simplified compareKind_def, simplified]
lemmas mul_bv = arith_bv [where k = Mul, simplified compareKind_def, simplified]
lemmas and_bv = arith_bv [where k = And, simplified compareKind_def, simplified]
lemmas or_bv = arith_bv [where k = Or, simplified compareKind_def, simplified]
lemmas xor_bv = arith_bv [where k = Xor, simplified compareKind_def, simplified]

text \<open>The contract of the utility functions of \<open>ExprBuilder\<close>.\<close>

lemma msb_law:
  "I s \<Longrightarrow> den dv \<rho> x = Some (BV n a) \<Longrightarrow>
   runs t I (createMsb B x s) (\<lambda>e. den dv \<rho> e = Some (BV 1 (of_bool (bit a (n - 1)))))"
  using extract_bv [of s x n a 1 "n - 1"] den_BV [of dv \<rho> x n a]
  by (simp add: createMsb_def bv_extract_bit)

lemma lsb_law:
  "I s \<Longrightarrow> den dv \<rho> x = Some (BV n a) \<Longrightarrow>
   runs t I (createLsb B x s) (\<lambda>e. den dv \<rho> e = Some (BV 1 (of_bool (odd a))))"
  using extract_bv [of s x n a 1 0] den_BV [of dv \<rho> x n a]
  by (simp add: createLsb_def bv_extract_bit bit_0)

lemma trunc_law:
  "I s \<Longrightarrow> den dv \<rho> x = Some (BV n a) \<Longrightarrow> 0 < k \<Longrightarrow> k \<le> n \<Longrightarrow>
   runs t I (createTrunc B x k s) (\<lambda>e. den dv \<rho> e = Some (BV k (take_bit k a)))"
  using extract_bv [of s x n a k 0] by (simp add: createTrunc_def bv_extract_def)

lemma bitToBool_law:
  assumes "I s" "den dv \<rho> x = Some (BV 1 a)"
  shows "runs t I (bitToBool B x s) (\<lambda>e. den dv \<rho> e = Some (BoolV (a = 1)))"
proof -
  have "bits x = 1"
    using assms den_BV by blast
  then show ?thesis
    unfolding bitToBool_def
    by (auto intro!: runs_bind_pair [OF const_1] compare_bv assms simp: compareKind_def)
qed

lemma boolToBit_law:
  assumes "I s" "den dv \<rho> x = Some (BoolV p)" "0 < n"
  shows "runs t I (boolToBit B x n s) (\<lambda>e. den dv \<rho> e = Some (BV n (of_bool p)))"
  unfolding boolToBit_def
  by (intro runs_bind_pair [OF const_1] runs_bind_pair [OF const_0] assms)
    (use assms in \<open>auto intro: runs_mono [OF ite_bv]\<close>)

end

subsection \<open>The bottom of the stacks\<close>

text \<open>The invariants that allocation and the cache cannot touch.\<close>

definition stable :: "(bst \<Rightarrow> bool) \<Rightarrow> bool" where
  "stable I \<longleftrightarrow> (\<forall>s a b c d. I s \<longrightarrow>
     I (s\<lparr>next_oid := a, read_cache := b, expr_cache := c, clock := d\<rparr>))"

lemma stable_True [simp]: "stable (\<lambda>_. True)"
  by (simp add: stable_def)

lemma stable_next_oid: "stable I \<Longrightarrow> I s \<Longrightarrow> I (s\<lparr>next_oid := a\<rparr>)"
proof -
  assume "stable I" "I s"
  then have "I (s\<lparr>next_oid := a, read_cache := read_cache s, expr_cache := expr_cache s,
      clock := clock s\<rparr>)"
    unfolding stable_def by blast
  then show ?thesis
    by simp
qed

lemma stable_read_cache: "stable I \<Longrightarrow> I s \<Longrightarrow> I (s\<lparr>next_oid := a, read_cache := b\<rparr>)"
proof -
  assume "stable I" "I s"
  then have "I (s\<lparr>next_oid := a, read_cache := b, expr_cache := expr_cache s, clock := clock s\<rparr>)"
    unfolding stable_def by blast
  then show ?thesis
    by simp
qed

lemma stable_expr_cache: "stable I \<Longrightarrow> I s \<Longrightarrow> I (s\<lparr>expr_cache := c, clock := d\<rparr>)"
proof -
  assume "stable I" "I s"
  then have "I (s\<lparr>next_oid := next_oid s, read_cache := read_cache s, expr_cache := c, clock := d\<rparr>)"
    unfolding stable_def by blast
  then show ?thesis
    by simp
qed

lemma stable_clock: "stable I \<Longrightarrow> I s \<Longrightarrow> I (s\<lparr>clock := d\<rparr>)"
  using stable_expr_cache [where I = I and s = s and c = "expr_cache s" and d = d] by simp

lemma runs_make_shared:
  "stable I \<Longrightarrow> I s \<Longrightarrow> P (mk (next_oid s)) \<Longrightarrow> runs t I (make_shared mk s) P"
  by (simp add: make_shared_def stable_next_oid)

lemma sem_binary_kind: "sem_binary dv k a b = Some c \<Longrightarrow> binaryKind k \<and> dbits a = dbits b"
proof (cases "binaryKind k")
  case False
  then have n: "bv_arith k n x y = None" "bv_compare k n x y = None" "bool_connect k p q = None"
    for n x y p q
    by (cases k; simp add: binaryKind_def)+
  assume "sem_binary dv k a b = Some c"
  with n show ?thesis
    by (cases a; cases b) (auto split: if_splits)
qed (cases a; cases b; auto split: if_splits)

lemma sem_unary_kind: "sem_unary k a = Some c \<Longrightarrow> unaryKind k"
  by (cases k; cases a) (auto simp: unaryKind_def)

lemma sem_ite_dbits: "sem_ite a b d = Some f \<Longrightarrow> dbits b = dbits d"
  by (cases a; cases b; cases d) (auto split: if_splits)

lemma den_dbits: "den dv \<rho> e = Some v \<Longrightarrow> dbits v = bits e"
  using den_ok by blast

lemma sem_extract_bits: "sem_extract i n a = Some c \<Longrightarrow> n + i \<le> dbits a \<and> 0 < n"
  by (cases a) (auto split: if_splits)

lemma sem_extract_self:
  "sem_extract i n a = Some c \<Longrightarrow> n = dbits a \<Longrightarrow> dval_ok a \<Longrightarrow> c = a"
  by (cases a) (auto simp: extract_all split: if_splits)

lemma base_extract_law:
  assumes "stable I" "I s" "den dv \<rho> x = Some a" "sem_extract i n a = Some c"
  shows "runs t I (base_createExtract x i n s) (\<lambda>e. den dv \<rho> e = Some c)"
proof -
  have "dbits a = bits x" "dval_ok a"
    using assms(3) den_ok by blast+
  with assms show ?thesis
    by (auto simp: base_createExtract_def dest: sem_extract_self sem_extract_bits
        intro!: run_rules runs_make_shared)
qed

lemma base_sound:
  assumes "stable I"
  shows "sound_builder t dv \<rho> I base_builder"
proof
  fix s off
  assume "I s"
  then show "runs t I (createRead base_builder off s) (\<lambda>e. den dv \<rho> e = Some (BV 8 (uint (\<rho> off))))"
    using assms
    by (auto simp: base_builder_def base_createRead_def stable_read_cache split: option.splits)
next
  fix s l r a b k c
  assume "I s" "den dv \<rho> l = Some a" "den dv \<rho> r = Some b" "sem_binary dv k a b = Some c"
  then show "runs t I (createBinaryExpr base_builder k l r s) (\<lambda>e. den dv \<rho> e = Some c)"
    using assms sem_binary_kind [of dv k a b c] den_dbits [of dv \<rho> l a] den_dbits [of dv \<rho> r b]
    by (auto simp: base_builder_def base_createBinaryExpr_def intro!: run_rules runs_make_shared)
next
  fix s x a k c
  assume "I s" "den dv \<rho> x = Some a" "sem_unary k a = Some c"
  then show "runs t I (createUnaryExpr base_builder k x s) (\<lambda>e. den dv \<rho> e = Some c)"
    using assms sem_unary_kind
    by (auto simp: base_builder_def base_createUnaryExpr_def intro!: run_rules runs_make_shared)
next
  fix s g x y a b d f
  assume "I s" "den dv \<rho> g = Some a" "den dv \<rho> x = Some b" "den dv \<rho> y = Some d"
    "sem_ite a b d = Some f"
  then show "runs t I (createIte base_builder g x y s) (\<lambda>e. den dv \<rho> e = Some f)"
    using assms sem_ite_dbits [of a b d f] den_dbits [of dv \<rho> x b] den_dbits [of dv \<rho> y d]
    by (auto simp: base_builder_def base_createIte_def intro!: run_rules runs_make_shared)
qed (use assms in \<open>auto simp: base_builder_def in_range_def
      intro!: runs_make_shared base_extract_law\<close>)

text \<open>The cache answers with an object of the same meaning, whatever it holds.\<close>

lemma findOrInsert_law:
  assumes "stable I" "I s" "den dv \<rho> x = Some v"
  shows "runs t I (findOrInsert E x s) (\<lambda>e. den dv \<rho> e = Some v)"
  using assms find_den [of "expr_digest E" "expired_now E x s" x "expr_cache s"]
  by (auto simp: findOrInsert_def findInCache_def insertToCache_def stable_clock stable_expr_cache
      split: option.splits)

lemma cache_sound:
  assumes "stable I" and "sound_builder t dv \<rho> I B"
  shows "sound_builder t dv \<rho> I (cache_builder E B)"
proof -
  note bind = runs_bind_pair [OF _ findOrInsert_law [OF assms(1)]]
  note B = assms(2)
  show ?thesis
    by unfold_locales
      (auto simp: cache_builder_def intro: sound_builder.bool_law [OF B]
        sound_builder.const_law [OF B] sound_builder.constAP_law [OF B]
        sound_builder.read_law [OF B] bind [OF sound_builder.concat_law [OF B]]
        bind [OF sound_builder.extract_law [OF B]] bind [OF sound_builder.zext_law [OF B]]
        bind [OF sound_builder.sext_law [OF B]] bind [OF sound_builder.unary_law [OF B]]
        bind [OF sound_builder.binary_law [OF B]] bind [OF sound_builder.ite_law [OF B]])
qed

end
