(* ===== verification/ConstFold.thy ===== *)
theory ConstFold
  imports BuilderLaws
begin

section \<open>Constant folding\<close>

text \<open>
  \<open>ConstantFoldingExprBuilder\<close>: the methods in \<open>codegen/expr_builder.cpp\<close> and those that
  \<open>gen_expr_builder.py\<close> prints for the arithmetic kinds (the table \<open>BINARY_ARITH\<close>). Operations
  on constants are computed with \<open>APInt\<close>, the parameter \<open>A\<close>.
\<close>

fun cf_arith :: "apint_api \<Rightarrow> kind \<Rightarrow> nat \<Rightarrow> int \<Rightarrow> int \<Rightarrow> int option" where
  "cf_arith A Add n x y = Some (ap_add A n x y)"
| "cf_arith A Sub n x y = Some (ap_sub A n x y)"
| "cf_arith A Mul n x y = Some (ap_mul A n x y)"
| "cf_arith A UDiv n x y = Some (ap_udiv A n x y)"
| "cf_arith A SDiv n x y = Some (ap_sdiv A n x y)"
| "cf_arith A URem n x y = Some (ap_urem A n x y)"
| "cf_arith A SRem n x y = Some (ap_srem A n x y)"
| "cf_arith A And n x y = Some (ap_and A n x y)"
| "cf_arith A Or n x y = Some (ap_or A n x y)"
| "cf_arith A Xor n x y = Some (ap_xor A n x y)"
| "cf_arith A Shl n x y = Some (ap_shl A n x y)"
| "cf_arith A LShr n x y = Some (ap_lshr A n x y)"
| "cf_arith A AShr n x y = Some (ap_ashr A n x y)"
| "cf_arith A _ n x y = None"

text \<open>\<open>APInt::ugt\<close> and its like are the negations of \<open>ule\<close> and its like.\<close>

fun cf_compare :: "apint_api \<Rightarrow> kind \<Rightarrow> nat \<Rightarrow> int \<Rightarrow> int \<Rightarrow> bool option" where
  "cf_compare A Equal n x y = Some (x = y)"
| "cf_compare A Distinct n x y = Some (x \<noteq> y)"
| "cf_compare A Ult n x y = Some (ap_ult A n x y)"
| "cf_compare A Ule n x y = Some (ap_ule A n x y)"
| "cf_compare A Ugt n x y = Some (\<not> ap_ule A n x y)"
| "cf_compare A Uge n x y = Some (\<not> ap_ult A n x y)"
| "cf_compare A Slt n x y = Some (ap_slt A n x y)"
| "cf_compare A Sle n x y = Some (ap_sle A n x y)"
| "cf_compare A Sgt n x y = Some (\<not> ap_sle A n x y)"
| "cf_compare A Sge n x y = Some (\<not> ap_slt A n x y)"
| "cf_compare A _ n x y = None"

fun cf_connect :: "kind \<Rightarrow> bool \<Rightarrow> bool \<Rightarrow> bool option" where
  "cf_connect Equal p q = Some (p = q)"
| "cf_connect Distinct p q = Some (p \<noteq> q)"
| "cf_connect LAnd p q = Some (p \<and> q)"
| "cf_connect LOr p q = Some (p \<or> q)"
| "cf_connect _ p q = None"

definition cf_createBinaryExpr :: "apint_api \<Rightarrow> builder \<Rightarrow> kind \<Rightarrow> expr \<Rightarrow> expr \<Rightarrow> expr build" where
  "cf_createBinaryExpr A next k l r s =
     (case (as_Constant l, as_Constant r) of
        (Some x, Some y) \<Rightarrow>
          (case cf_arith A k (bits l) x y of
             Some v \<Rightarrow> assert (bits l = bits r) (createConstantAP next v (bits l) s)
           | None \<Rightarrow>
             (case cf_compare A k (bits l) x y of
                Some b \<Rightarrow> assert (bits l = bits r) (createBool next b s)
              | None \<Rightarrow> createBinaryExpr next k l r s))
      | _ \<Rightarrow>
        (case (as_Bool l, as_Bool r) of
           (Some p, Some q) \<Rightarrow>
             (case cf_connect k p q of
                Some b \<Rightarrow> createBool next b s
              | None \<Rightarrow> createBinaryExpr next k l r s)
         | _ \<Rightarrow> createBinaryExpr next k l r s))"

definition cf_createUnaryExpr :: "apint_api \<Rightarrow> builder \<Rightarrow> kind \<Rightarrow> expr \<Rightarrow> expr build" where
  "cf_createUnaryExpr A next k e s =
     (case (k, as_Constant e, as_Bool e) of
        (Neg, Some x, _) \<Rightarrow> createConstantAP next (ap_neg A (bits e) x) (bits e) s
      | (Not, Some x, _) \<Rightarrow> createConstantAP next (ap_not A (bits e) x) (bits e) s
      | (LNot, _, Some p) \<Rightarrow> createBool next (\<not> p) s
      | _ \<Rightarrow> createUnaryExpr next k e s)"

definition cf_createConcat :: "apint_api \<Rightarrow> builder \<Rightarrow> expr \<Rightarrow> expr \<Rightarrow> expr build" where
  "cf_createConcat A next l r s =
     (case (as_Constant l, as_Constant r) of
        (Some x, Some y) \<Rightarrow>
          let n = bits l + bits r;
              lval = ap_zext A (bits l) n x;
              rval = ap_zext A (bits r) n y;
              res = ap_or A n (ap_shl A n lval (int (bits r))) rval
          in createConstantAP next res n s
      | _ \<Rightarrow> createConcat next l r s)"

definition cf_createExtract :: "apint_api \<Rightarrow> builder \<Rightarrow> expr \<Rightarrow> nat \<Rightarrow> nat \<Rightarrow> expr build" where
  "cf_createExtract A next e index n s =
     (case as_Constant e of
        Some x \<Rightarrow>
          let v = ap_lshr A (bits e) x (int index); v = ap_zextOrTrunc A (bits e) n v
          in createConstantAP next v n s
      | None \<Rightarrow> createExtract next e index n s)"

definition cf_createZExt :: "apint_api \<Rightarrow> builder \<Rightarrow> expr \<Rightarrow> nat \<Rightarrow> expr build" where
  "cf_createZExt A next e n s =
     (case as_Constant e of
        Some x \<Rightarrow> createConstantAP next (ap_zext A (bits e) n x) n s
      | None \<Rightarrow> createZExt next e n s)"

definition cf_createSExt :: "apint_api \<Rightarrow> builder \<Rightarrow> expr \<Rightarrow> nat \<Rightarrow> expr build" where
  "cf_createSExt A next e n s =
     (case as_Constant e of
        Some x \<Rightarrow> createConstantAP next (ap_sext A (bits e) n x) n s
      | None \<Rightarrow> createSExt next e n s)"

definition cf_createIte :: "builder \<Rightarrow> expr \<Rightarrow> expr \<Rightarrow> expr \<Rightarrow> expr build" where
  "cf_createIte next c t f s =
     (case as_Bool c of
        Some b \<Rightarrow> if b then Some (t, s) else Some (f, s)
      | None \<Rightarrow> createIte next c t f s)"

definition const_folding_builder :: "apint_api \<Rightarrow> builder \<Rightarrow> builder" where
  "const_folding_builder A next = next\<lparr>
     createConcat := cf_createConcat A next,
     createExtract := cf_createExtract A next,
     createZExt := cf_createZExt A next,
     createSExt := cf_createSExt A next,
     createUnaryExpr := cf_createUnaryExpr A next,
     createBinaryExpr := cf_createBinaryExpr A next,
     createIte := cf_createIte next\<rparr>"

subsection \<open>Folding computes the meaning\<close>

lemma den_Constant:
  "den dv \<rho> e = Some (BV n x) \<Longrightarrow> as_Constant e = Some v \<Longrightarrow> v = x \<and> bits e = n"
  by (cases e) (auto split: if_splits)

lemma den_Constant': "den dv \<rho> e = Some a \<Longrightarrow> as_Constant e = Some v \<Longrightarrow> a = BV (bits e) v"
  by (cases e) (auto split: if_splits)

lemma den_Bool: "den dv \<rho> e = Some a \<Longrightarrow> as_Bool e = Some b \<Longrightarrow> a = BoolV b"
  by (cases e) auto

lemma cf_arith_correct:
  assumes "apint_ok A" "0 < n" "in_range n x" "in_range n y" "bv_arith k n x y = Some z"
  shows "cf_arith A k n x y = Some z"
  using apint_okD [OF assms(1-4)] assms(5) by (cases k) (simp_all split: if_splits)

lemma cf_compare_correct:
  assumes "apint_ok A" "0 < n" "in_range n x" "in_range n y"
  shows "cf_compare A k n x y = bv_compare k n x y"
  using apint_okD [OF assms] by (cases k) (simp_all add: not_le not_less)

lemma cf_connect_correct: "cf_connect k p q = bool_connect k p q"
  by (cases k) auto

lemma cf_arith_compare: "compareKind k \<Longrightarrow> cf_arith A k n x y = None"
  by (auto simp: compareKind_def)

context sound_builder
begin

lemma cf_binary:
  assumes A: "apint_ok A" and s: "I s" and l: "den dv \<rho> l = Some a" and r: "den dv \<rho> r = Some b"
    and c: "sem_binary dv k a b = Some c"
  shows "runs t I (cf_createBinaryExpr A B k l r s) (\<lambda>e. den dv \<rho> e = Some c)"
proof (cases "as_Constant l \<noteq> None \<and> as_Constant r \<noteq> None")
  case True
  then obtain x y where xy: "as_Constant l = Some x" "as_Constant r = Some y"
    by auto
  with l r have ab: "a = BV (bits l) x" "b = BV (bits r) y"
    by (simp_all add: den_Constant')
  then have ok: "0 < bits l" "in_range (bits l) x" "in_range (bits r) y" "bits l = bits r"
    using den_BV [OF l [unfolded ab(1)]] den_BV [OF r [unfolded ab(2)]] c
    by (auto split: if_splits)
  show ?thesis
  proof (cases "compareKind k")
    case True
    with ab c ok obtain p where p: "bv_compare k (bits l) x y = Some p" "c = BoolV p"
      by (auto split: if_splits)
    with True ok xy A have "cf_createBinaryExpr A B k l r s = createBool B p s"
      by (simp add: cf_createBinaryExpr_def cf_arith_compare cf_compare_correct)
    with p bool_law [OF s] show ?thesis
      by simp
  next
    case False
    with ab c ok obtain z where z: "bv_arith k (bits l) x y = Some z" "c = BV (bits l) z"
      by (auto split: if_splits)
    have "cf_arith A k (bits l) x y = Some z"
      using cf_arith_correct [OF A ok(1,2)] ok(3,4) z(1) by simp
    with ok(4) xy have "cf_createBinaryExpr A B k l r s = createConstantAP B z (bits l) s"
      by (simp add: cf_createBinaryExpr_def)
    moreover have "in_range (bits l) z"
      using bv_arith_range [OF z(1) ok(2)] ok(3,4) by simp
    ultimately show ?thesis
      using constAP_law [OF s ok(1)] z(2) by simp
  qed
next
  case False
  have nxt: "runs t I (createBinaryExpr B k l r s) (\<lambda>e. den dv \<rho> e = Some c)"
    by (rule binary_law) fact+
  have "runs t I (createBool B v s) (\<lambda>e. den dv \<rho> e = Some c)"
    if "as_Bool l = Some p" "as_Bool r = Some q" "cf_connect k p q = Some v" for p q v
    using bool_law [OF s, of v] that c den_Bool [OF l that(1)] den_Bool [OF r that(2)]
    by (simp add: cf_connect_correct)
  with nxt False show ?thesis
    by (auto simp: cf_createBinaryExpr_def split: option.splits)
qed

lemma cf_unary:
  assumes A: "apint_ok A" and s: "I s" and x: "den dv \<rho> x = Some a" and c: "sem_unary k a = Some c"
  shows "runs t I (cf_createUnaryExpr A B k x s) (\<lambda>e. den dv \<rho> e = Some c)"
proof -
  have nxt: "runs t I (createUnaryExpr B k x s) (\<lambda>e. den dv \<rho> e = Some c)"
    by (rule unary_law) fact+
  have fold: "0 < bits x" "in_range (bits x) v" "ap_neg A (bits x) v = take_bit (bits x) (- v)"
    "ap_not A (bits x) v = take_bit (bits x) (not v)" "a = BV (bits x) v"
    if "as_Constant x = Some v" for v
  proof -
    show a: "a = BV (bits x) v"
      using den_Constant' [OF x that] .
    then show *: "0 < bits x" "in_range (bits x) v"
      using x den_BV by blast+
    show "ap_neg A (bits x) v = take_bit (bits x) (- v)"
      "ap_not A (bits x) v = take_bit (bits x) (not v)"
      using apint_okD [OF A * *(2)] by simp_all
  qed
  show ?thesis
  proof (cases "k = LNot")
    case True
    with nxt c s show ?thesis
      by (auto simp: cf_createUnaryExpr_def dest: den_Bool [OF x] split: option.splits
          intro!: bool_law)
  next
    case False
    show ?thesis
    proof (cases "as_Constant x")
      case None
      with False nxt show ?thesis
        by (auto simp: cf_createUnaryExpr_def split: kind.splits)
    next
      case (Some v)
      consider "k = Neg" | "k = Not"
        using sem_unary_kind [OF c] False by (auto simp: unaryKind_def)
      then show ?thesis
        using c fold [OF Some] s Some
        by cases (auto simp: cf_createUnaryExpr_def intro!: constAP_law)
    qed
  qed
qed

lemma cf_concat:
  assumes A: "apint_ok A" and s: "I s" and l: "den dv \<rho> l = Some a" and r: "den dv \<rho> r = Some b"
    and c: "sem_concat a b = Some c"
  shows "runs t I (cf_createConcat A B l r s) (\<lambda>e. den dv \<rho> e = Some c)"
proof (cases "as_Constant l \<noteq> None \<and> as_Constant r \<noteq> None")
  case True
  then obtain x y where xy: "as_Constant l = Some x" "as_Constant r = Some y"
    by auto
  let ?n = "bits l" and ?m = "bits r"
  have l': "den dv \<rho> l = Some (BV ?n x)" and r': "den dv \<rho> r = Some (BV ?m y)"
    using den_Constant' [OF l xy(1)] den_Constant' [OF r xy(2)] l r by simp_all
  then have x: "0 < ?n" "in_range ?n x" "0 < ?m" "in_range ?m y"
    using den_BV by blast+
  then have wide: "0 < ?n + ?m" "in_range (?n + ?m) x" "in_range (?n + ?m) y"
    by (auto intro: in_range_mono)
  have m: "in_range (?n + ?m) (int ?m)"
    using x by (simp add: in_range_int)
  have "ap_zext A ?n (?n + ?m) x = x" "ap_zext A ?m (?n + ?m) y = y"
    using apint_okD [OF A x(1,2,2)] apint_okD [OF A x(3,4,4)] by simp_all
  moreover have shl: "ap_shl A (?n + ?m) x (int ?m) = push_bit ?m x"
  proof -
    have "in_range (?n + ?m) (push_bit ?m x)"
      using in_range_concat [OF x(2), of ?m 0] by (simp add: concat_eq_or)
    then show ?thesis
      using apint_okD [OF A wide(1,2) m] x(1) by (simp add: bv_shl_def in_range_take_bit)
  qed
  moreover have "ap_or A (?n + ?m) (push_bit ?m x) y = bv_concat ?m x y"
  proof -
    have "in_range (?n + ?m) (push_bit ?m x)"
      using in_range_concat [OF x(2), of ?m 0] by (simp add: concat_eq_or)
    then show ?thesis
      using apint_okD [OF A wide(1) _ wide(3)] x(4) by (simp add: concat_eq_or)
  qed
  ultimately have "cf_createConcat A B l r s = createConstantAP B (bv_concat ?m x y) (?n + ?m) s"
    using xy by (simp add: cf_createConcat_def Let_def)
  moreover have "c = BV (?n + ?m) (bv_concat ?m x y)"
    using c den_Constant' [OF l xy(1)] den_Constant' [OF r xy(2)] by simp
  ultimately show ?thesis
    using constAP_law [OF s wide(1)] x(2) by simp
next
  case False
  with concat_law [OF s l r c] show ?thesis
    by (auto simp: cf_createConcat_def split: option.splits)
qed

lemma cf_extract:
  assumes A: "apint_ok A" and s: "I s" and x: "den dv \<rho> x = Some a" and c: "sem_extract i n a = Some c"
  shows "runs t I (cf_createExtract A B x i n s) (\<lambda>e. den dv \<rho> e = Some c)"
proof (cases "as_Constant x")
  case None
  with extract_law [OF s x c] show ?thesis
    by (simp add: cf_createExtract_def)
next
  case (Some v)
  let ?m = "bits x"
  have a: "a = BV ?m v"
    using den_Constant' [OF x Some] .
  then have v: "0 < ?m" "in_range ?m v"
    using x den_BV by blast+
  from a c have n: "0 < n" "i + n \<le> ?m" "c = BV n (bv_extract i n v)"
    by (auto split: if_splits)
  then have i: "in_range ?m (int i)" "int i < int ?m"
    by (simp_all add: in_range_int)
  have lshr: "ap_lshr A ?m v (int i) = drop_bit i v"
    using apint_okD [OF A v i(1)] i(2) by (simp add: bv_lshr_def)
  have d: "in_range ?m (drop_bit i v)"
    using in_range_lshr [OF v(2), of "int i"] i(2) by (simp add: bv_lshr_def)
  have "ap_zextOrTrunc A ?m n (drop_bit i v) = bv_extract i n v"
    using apint_okD [OF A v(1) d d] n(1) by (simp add: bv_extract_def)
  with lshr have "cf_createExtract A B x i n s = createConstantAP B (bv_extract i n v) n s"
    using Some by (simp add: cf_createExtract_def)
  with constAP_law [OF s n(1)] n(3) show ?thesis
    by simp
qed

lemma cf_zext:
  assumes A: "apint_ok A" and s: "I s" and x: "den dv \<rho> x = Some a" and c: "sem_zext n a = Some c"
  shows "runs t I (cf_createZExt A B x n s) (\<lambda>e. den dv \<rho> e = Some c)"
proof (cases "as_Constant x")
  case None
  with zext_law [OF s x c] show ?thesis
    by (simp add: cf_createZExt_def)
next
  case (Some v)
  have a: "a = BV (bits x) v"
    using den_Constant' [OF x Some] .
  then have v: "0 < bits x" "in_range (bits x) v"
    using x den_BV by blast+
  from a c have n: "bits x \<le> n" "c = BV n v"
    by (auto split: if_splits)
  with apint_okD [OF A v v(2)] Some have "cf_createZExt A B x n s = createConstantAP B v n s"
    by (simp add: cf_createZExt_def)
  with constAP_law [OF s, of n v] n v show ?thesis
    by (auto intro: in_range_mono)
qed

lemma cf_sext:
  assumes A: "apint_ok A" and s: "I s" and x: "den dv \<rho> x = Some a" and c: "sem_sext n a = Some c"
  shows "runs t I (cf_createSExt A B x n s) (\<lambda>e. den dv \<rho> e = Some c)"
proof (cases "as_Constant x")
  case None
  with sext_law [OF s x c] show ?thesis
    by (simp add: cf_createSExt_def)
next
  case (Some v)
  have a: "a = BV (bits x) v"
    using den_Constant' [OF x Some] .
  then have v: "0 < bits x" "in_range (bits x) v"
    using x den_BV by blast+
  from a c have n: "bits x \<le> n" "c = BV n (take_bit n (sval (bits x) v))"
    by (auto split: if_splits)
  with apint_okD [OF A v v(2)] Some
  have "cf_createSExt A B x n s = createConstantAP B (take_bit n (sval (bits x) v)) n s"
    by (simp add: cf_createSExt_def)
  with constAP_law [OF s, of n] n v show ?thesis
    by simp
qed

lemma cf_ite:
  assumes s: "I s" and g: "den dv \<rho> g = Some a" and x: "den dv \<rho> x = Some b"
    and y: "den dv \<rho> y = Some d" and f: "sem_ite a b d = Some f"
  shows "runs t I (cf_createIte B g x y s) (\<lambda>e. den dv \<rho> e = Some f)"
proof (cases "as_Bool g")
  case None
  with ite_law [OF assms] show ?thesis
    by (simp add: cf_createIte_def)
next
  case (Some p)
  with f den_Bool [OF g Some] have "f = (if p then b else d)"
    by (cases b; cases d) (auto split: if_splits)
  with Some s x y show ?thesis
    by (simp add: cf_createIte_def)
qed

end

lemma const_folding_sound:
  assumes "apint_ok A" and "sound_builder t dv \<rho> I B"
  shows "sound_builder t dv \<rho> I (const_folding_builder A B)"
  using assms
  by (auto simp: sound_builder_def const_folding_builder_def
      intro!: sound_builder.cf_binary sound_builder.cf_unary sound_builder.cf_concat
        sound_builder.cf_extract sound_builder.cf_zext sound_builder.cf_sext sound_builder.cf_ite)

end
