(* ===== verification/CommonSimplify.thy ===== *)
theory CommonSimplify
  imports ConstFold
begin

section \<open>Common simplifications\<close>

text \<open>
  \<open>CommonSimplifyExprBuilder\<close> (\<open>codegen/expr_builder.cpp\<close>). A method that the class calls on
  itself is virtual: \<open>this\<close> is the builder on which the call is made, \<open>next\<close> the one below. The
  arguments of a call are evaluated from left to right, an order that C++ leaves open and that
  matters for the identities of the objects only.
\<close>

subsection \<open>Methods\<close>

text \<open>The two rules of \<open>createConcat\<close>: what they extract from, or \<open>None\<close> if they do not apply.\<close>

definition concat_adjacent :: "expr \<Rightarrow> expr \<Rightarrow> (expr \<times> nat \<times> nat) option" where
  "concat_adjacent l r = (case (as_Extract l, as_Extract r) of
     (Some (e_l, i_l, n_l), Some (e_r, i_r, n_r)) \<Rightarrow>
       if e_l = e_r \<and> i_r + n_r = i_l then Some (e_l, i_r, n_r + n_l) else None
   | _ \<Rightarrow> None)"

definition concat_extended :: "digest \<Rightarrow> expr \<Rightarrow> expr \<Rightarrow> (expr \<times> nat) option" where
  "concat_extended H l r = (case as_Extract l of
     Some (e_l, i_l, n_l) \<Rightarrow>
       (case as_Ext e_l of
          Some x \<Rightarrow> if i_l = bits r \<and> equalShallowly H x r then Some (e_l, n_l + bits r) else None
        | None \<Rightarrow> None)
   | None \<Rightarrow> None)"

definition common_createConcat :: "digest \<Rightarrow> builder \<Rightarrow> builder \<Rightarrow> expr \<Rightarrow> expr \<Rightarrow> expr build" where
  "common_createConcat H this next l r s = (case concat_adjacent l r of
     Some (e, i, n) \<Rightarrow> createExtract this e i n s
   | None \<Rightarrow>
     (case concat_extended H l r of
        Some (e, n) \<Rightarrow> createExtract this e 0 n s
      | None \<Rightarrow> createConcat next l r s))"

definition common_createExtract :: "builder \<Rightarrow> builder \<Rightarrow> expr \<Rightarrow> nat \<Rightarrow> nat \<Rightarrow> expr build" where
  "common_createExtract this next e index n s =
     (let rest = (if index = 0 \<and> bits e = n then Some (e, s) else createExtract next e index n s) in
      case as_Concat e of
        Some (l, r) \<Rightarrow>
          if index \<ge> bits r then createExtract this l (index - bits r) n s
          else if index + n \<le> bits r then createExtract this r index n s
          else if isConstant l then do {
            (e_l, s) \<leftarrow> createExtract this l 0 (n + index - bits r) s;
            (e_r, s) \<leftarrow> createExtract this r index (bits r - index) s;
            createConcat this e_l e_r s }
          else rest
      | None \<Rightarrow>
        (case as_Ext e of
           Some x \<Rightarrow>
             if bits x \<ge> index + n then createExtract this x index n s
             else if kind_of e = ZExt \<and> index \<ge> bits x then createConstant this 0 n s
             else rest
         | None \<Rightarrow>
           (case as_Extract e of
              Some (x, i, _) \<Rightarrow> createExtract this x (i + index) n s
            | None \<Rightarrow> rest)))"

definition common_createZExt :: "builder \<Rightarrow> builder \<Rightarrow> expr \<Rightarrow> nat \<Rightarrow> expr build" where
  "common_createZExt this next e n s =
     (if bits e > n then createExtract this e 0 n s
      else if bits e = n then Some (e, s)
      else createZExt next e n s)"

definition common_createAdd :: "builder \<Rightarrow> expr \<Rightarrow> expr \<Rightarrow> expr build" where
  "common_createAdd next l r s =
     (if isZero l then Some (r, s) else createBinaryExpr next Add l r s)"

definition common_createMul :: "builder \<Rightarrow> expr \<Rightarrow> expr \<Rightarrow> expr build" where
  "common_createMul next l r s =
     (if isZero l then Some (l, s)
      else if isOne l then Some (r, s)
      else createBinaryExpr next Mul l r s)"

definition simplifyAnd :: "expr \<Rightarrow> expr \<Rightarrow> expr option" where
  "simplifyAnd l r = (if isZero l then Some l else if isAllOnes l then Some r else None)"

definition simplifyOr :: "expr \<Rightarrow> expr \<Rightarrow> expr option" where
  "simplifyOr l r = (if isZero l then Some r else if isAllOnes l then Some l else None)"

definition simplifyXor :: "expr \<Rightarrow> expr \<Rightarrow> expr option" where
  "simplifyXor l r = (if isZero l then Some r else None)"

text \<open>\<open>createAnd\<close>, \<open>createOr\<close> and \<open>createXor\<close> have one body, with the rules of their \<open>simplify*\<close>.\<close>

definition common_createBitwise ::
  "kind \<Rightarrow> (expr \<Rightarrow> expr \<Rightarrow> expr option) \<Rightarrow> builder \<Rightarrow> builder \<Rightarrow> expr \<Rightarrow> expr \<Rightarrow> expr build" where
  "common_createBitwise k simplify this next l r s =
     (case simplify l r of
        Some simplified \<Rightarrow> Some (simplified, s)
      | None \<Rightarrow>
        (case (as_Constant l, as_Concat r) of
           (Some _, Some (r_left, r_right)) \<Rightarrow> do {
             (l_left, s) \<leftarrow> createExtract this l (bits r_right) (bits r_left) s;
             (case simplify l_left r_left of
                Some and_left \<Rightarrow> do {
                  (l_right, s) \<leftarrow> createExtract this l 0 (bits r_right) s;
                  (and_right, s) \<leftarrow> createBinaryExpr this k l_right r_right s;
                  createConcat this and_left and_right s }
              | None \<Rightarrow> createBinaryExpr next k l r s) }
         | _ \<Rightarrow> createBinaryExpr next k l r s))"

text \<open>\<open>APInt::getLimitedValue\<close>, with the largest 64-bit number as limit.\<close>

definition getLimitedValue :: "int \<Rightarrow> nat" where
  "getLimitedValue v = min (nat v) (2 ^ 64 - 1)"

definition common_createShl :: "builder \<Rightarrow> builder \<Rightarrow> expr \<Rightarrow> expr \<Rightarrow> expr build" where
  "common_createShl this next l r s =
     (if isZero l then Some (l, s) else
      case as_Constant r of
        Some v \<Rightarrow>
          let rval = getLimitedValue v in
          if rval = 0 then Some (l, s)
          else if rval \<ge> bits l then createConstant this 0 (bits l) s
          else if rval mod 8 = 0 then do {
            (zero, s) \<leftarrow> createConstant this 0 rval s;
            (partial, s) \<leftarrow> createExtract this l 0 (bits l - rval) s;
            createConcat this partial zero s }
          else createBinaryExpr next Shl l r s
      | None \<Rightarrow> createBinaryExpr next Shl l r s)"

definition common_createLShr :: "builder \<Rightarrow> builder \<Rightarrow> expr \<Rightarrow> expr \<Rightarrow> expr build" where
  "common_createLShr this next l r s =
     (if isZero l then Some (l, s) else
      case as_Constant r of
        Some v \<Rightarrow>
          let rval = getLimitedValue v in
          if rval = 0 then Some (l, s)
          else if rval \<ge> bits l then createConstant this 0 (bits l) s
          else if rval mod 8 = 0 then do {
            (zero, s) \<leftarrow> createConstant this 0 rval s;
            (partial, s) \<leftarrow> createExtract this l rval (bits l - rval) s;
            createConcat this zero partial s }
          else createBinaryExpr next LShr l r s
      | None \<Rightarrow> createBinaryExpr next LShr l r s)"

definition common_createAShr :: "builder \<Rightarrow> expr \<Rightarrow> expr \<Rightarrow> expr build" where
  "common_createAShr next l r s =
     (case as_Constant r of
        Some v \<Rightarrow> if getLimitedValue v = 0 then Some (l, s) else createBinaryExpr next AShr l r s
      | None \<Rightarrow> createBinaryExpr next AShr l r s)"

definition common_createEqual :: "builder \<Rightarrow> builder \<Rightarrow> expr \<Rightarrow> expr \<Rightarrow> expr build" where
  "common_createEqual this next l r s =
     (case as_Bool l of
        Some b \<Rightarrow> if b then Some (r, s) else createUnaryExpr this LNot r s
      | None \<Rightarrow> createBinaryExpr next Equal l r s)"

definition common_createBinaryExpr :: "builder \<Rightarrow> builder \<Rightarrow> kind \<Rightarrow> expr \<Rightarrow> expr \<Rightarrow> expr build" where
  "common_createBinaryExpr this next k = (case k of
     Add \<Rightarrow> common_createAdd next
   | Mul \<Rightarrow> common_createMul next
   | And \<Rightarrow> common_createBitwise And simplifyAnd this next
   | Or \<Rightarrow> common_createBitwise Or simplifyOr this next
   | Xor \<Rightarrow> common_createBitwise Xor simplifyXor this next
   | Shl \<Rightarrow> common_createShl this next
   | LShr \<Rightarrow> common_createLShr this next
   | AShr \<Rightarrow> common_createAShr next
   | Equal \<Rightarrow> common_createEqual this next
   | _ \<Rightarrow> createBinaryExpr next k)"

definition common_layer :: "digest \<Rightarrow> builder \<Rightarrow> builder \<Rightarrow> builder" where
  "common_layer H this next = next\<lparr>
     createConcat := common_createConcat H this next,
     createExtract := common_createExtract this next,
     createZExt := common_createZExt this next,
     createBinaryExpr := common_createBinaryExpr this next\<rparr>"

text \<open>
  The builder itself: \<open>this\<close> is the layer again, to a bounded depth of calls. \<open>no_builder\<close> is the
  builder whose calls run out of depth.
\<close>

definition no_builder :: builder where
  "no_builder = \<lparr>createBool = (\<lambda>_ _. None), createConstant = (\<lambda>_ _ _. None),
     createConstantAP = (\<lambda>_ _ _. None), createRead = (\<lambda>_ _. None), createConcat = (\<lambda>_ _ _. None),
     createExtract = (\<lambda>_ _ _ _. None), createZExt = (\<lambda>_ _ _. None), createSExt = (\<lambda>_ _ _. None),
     createUnaryExpr = (\<lambda>_ _ _. None), createBinaryExpr = (\<lambda>_ _ _ _. None),
     createIte = (\<lambda>_ _ _ _. None)\<rparr>"

fun common_builder :: "digest \<Rightarrow> nat \<Rightarrow> builder \<Rightarrow> builder" where
  "common_builder H 0 next = no_builder"
| "common_builder H (Suc n) next = common_layer H (common_builder H n next) next"

lemma no_builder_sound: "sound_builder False dv \<rho> I no_builder"
  by unfold_locales (simp_all add: no_builder_def)

subsection \<open>The simplifications keep the meaning\<close>

lemma as_Concat_Some: "as_Concat e = Some (l, r) \<longleftrightarrow> (\<exists>i. e = ConcatExpr i l r)"
  by (cases e) auto

lemma as_Extract_Some: "as_Extract e = Some (x, i, n) \<longleftrightarrow> (\<exists>j. e = ExtractExpr j x i n)"
  by (cases e) auto

lemma as_Ext_Some: "as_Ext e = Some x \<longleftrightarrow> (\<exists>j n. e = ZExtExpr j x n \<or> e = SExtExpr j x n)"
  by (cases e) auto

lemma den_ExtractE:
  assumes "den dv \<rho> e = Some a" and "as_Extract e = Some (x, i, n)"
  obtains m v where "den dv \<rho> x = Some (BV m v)" "a = BV n (bv_extract i n v)" "0 < n" "i + n \<le> m"
    "bits x = m" "in_range m v"
proof -
  from assms obtain w where "den dv \<rho> x = Some w" "sem_extract i n w = Some a"
    by (auto simp: as_Extract_Some bind_eq_Some_conv)
  with that den_BV show ?thesis
    by (cases w) (auto split: if_splits)
qed

lemma den_asConcatE:
  assumes "den dv \<rho> e = Some v" and "as_Concat e = Some (l, r)"
  obtains n x m y where "den dv \<rho> l = Some (BV n x)" "den dv \<rho> r = Some (BV m y)"
    "v = BV (n + m) (bv_concat m x y)" "bits l = n" "bits r = m" "in_range n x" "in_range m y"
    "0 < n" "0 < m"
  using assms by (auto simp: as_Concat_Some elim: den_ConcatE)

text \<open>Of an extended value the code uses only the low part, and zeros above a zero extension.\<close>

lemma den_ExtE:
  assumes "den dv \<rho> e = Some a" and "as_Ext e = Some x"
  obtains m v k w where "den dv \<rho> x = Some (BV m v)" "a = BV k w" "m \<le> k" "0 < m"
    "bits x = m" "in_range m v" "in_range k w" "bits e = k"
    "\<And>i n. i + n \<le> m \<Longrightarrow> bv_extract i n w = bv_extract i n v" "kind_of e = ZExt \<Longrightarrow> w = v"
proof (cases e)
  case (ZExtExpr j y k)
  with assms obtain b where b: "den dv \<rho> x = Some b" "sem_zext k b = Some a"
    by (auto simp: bind_eq_Some_conv)
  then obtain m v where mv: "b = BV m v" "m \<le> k" "a = BV k v"
    by (cases b) (auto split: if_splits)
  with that [of m v k v] b(1) den_BV [of dv \<rho> x m v] ZExtExpr show ?thesis
    by (auto intro: in_range_mono)
next
  case (SExtExpr j y k)
  with assms obtain b where b: "den dv \<rho> x = Some b" "sem_sext k b = Some a"
    by (auto simp: bind_eq_Some_conv)
  then obtain m v where mv: "b = BV m v" "m \<le> k" "a = BV k (take_bit k (sval m v))"
    by (cases b) (auto split: if_splits)
  moreover have "bv_extract i n (take_bit k (sval m v)) = bv_extract i n v" if "i + n \<le> m" for i n
    using that mv(2) by (simp add: extract_take_bit extract_sval)
  ultimately show ?thesis
    using that [of m v k "take_bit k (sval m v)"] b(1) den_BV [of dv \<rho> x m v] SExtExpr
    by auto
qed (use assms in auto)

lemma isZero_den: "isZero e \<Longrightarrow> den dv \<rho> e = Some (BV n x) \<Longrightarrow> x = 0"
  by (auto simp: isZero_def dest: den_Constant)

lemma isOne_den: "isOne e \<Longrightarrow> den dv \<rho> e = Some (BV n x) \<Longrightarrow> x = 1"
  by (auto simp: isOne_def dest: den_Constant)

lemma isAllOnes_den: "isAllOnes e \<Longrightarrow> den dv \<rho> e = Some (BV n x) \<Longrightarrow> x = mask n"
  by (auto simp: isAllOnes_def mask_eq_exp_minus_1 dest: den_Constant)

lemma and_mask: "in_range n y \<Longrightarrow> and (mask n) y = y"
  by (metis and.commute in_range_take_bit take_bit_eq_mask)

lemma or_mask: "in_range n y \<Longrightarrow> or (mask n) y = mask n"
  by (rule bit_eqI) (auto simp: bit_simps dest: in_range_bit)

text \<open>What \<open>simplifyAnd\<close> and its like have to do.\<close>

definition simplifies :: "kind \<Rightarrow> (expr \<Rightarrow> expr \<Rightarrow> expr option) \<Rightarrow> bool" where
  "simplifies k f \<longleftrightarrow> (\<forall>dv \<rho> l r e n x y z. f l r = Some e \<longrightarrow>
     den dv \<rho> l = Some (BV n x) \<longrightarrow> den dv \<rho> r = Some (BV n y) \<longrightarrow> bv_arith k n x y = Some z \<longrightarrow>
     den dv \<rho> e = Some (BV n z))"

lemma simplifiesD:
  "simplifies k f \<Longrightarrow> f l r = Some e \<Longrightarrow> den dv \<rho> l = Some (BV n x) \<Longrightarrow> den dv \<rho> r = Some (BV n y) \<Longrightarrow>
   bv_arith k n x y = Some z \<Longrightarrow> den dv \<rho> e = Some (BV n z)"
  unfolding simplifies_def by blast

lemma simplifyAnd_correct: "simplifies And simplifyAnd"
  unfolding simplifies_def simplifyAnd_def
proof (intro allI impI)
  fix dv \<rho> l r e n x y z
  assume l: "den dv \<rho> l = Some (BV n x)" and r: "den dv \<rho> r = Some (BV n y)"
    and *: "(if isZero l then Some l else if isAllOnes l then Some r else None) = Some e"
    "bv_arith And n x y = Some z"
  show "den dv \<rho> e = Some (BV n z)"
    using * l r den_BV [OF r] isZero_den [OF _ l] isAllOnes_den [OF _ l]
    by (auto split: if_splits simp: and_mask)
qed

lemma simplifyOr_correct: "simplifies Or simplifyOr"
  unfolding simplifies_def simplifyOr_def
proof (intro allI impI)
  fix dv \<rho> l r e n x y z
  assume l: "den dv \<rho> l = Some (BV n x)" and r: "den dv \<rho> r = Some (BV n y)"
    and *: "(if isZero l then Some r else if isAllOnes l then Some l else None) = Some e"
    "bv_arith Or n x y = Some z"
  show "den dv \<rho> e = Some (BV n z)"
    using * l r den_BV [OF r] isZero_den [OF _ l] isAllOnes_den [OF _ l]
    by (auto split: if_splits simp: or_mask)
qed

lemma simplifyXor_correct: "simplifies Xor simplifyXor"
  unfolding simplifies_def simplifyXor_def
  by (auto split: if_splits dest: isZero_den)

lemma sem_arithE:
  assumes "sem_binary dv k a b = Some c" and "bool_connect k True True = None" and "\<not> compareKind k"
  obtains n x y z where "a = BV n x" "b = BV n y" "c = BV n z" "bv_arith k n x y = Some z"
    "k = UDiv \<or> k = SDiv \<Longrightarrow> dv"
proof -
  have no_bool: "bool_connect k p q = None" for p q
    using assms(2) by (cases k) auto
  with assms that show ?thesis
    by (cases a; cases b) (auto split: if_splits)
qed

lemma getLimitedValue_0: "0 \<le> v \<Longrightarrow> getLimitedValue v = 0 \<longleftrightarrow> v = 0"
  by (auto simp: getLimitedValue_def)

lemma getLimitedValue_le: "0 \<le> v \<Longrightarrow> int (getLimitedValue v) \<le> v"
  by (simp add: getLimitedValue_def of_nat_min)

lemma getLimitedValue_exact: "0 \<le> v \<Longrightarrow> getLimitedValue v mod 8 = 0 \<Longrightarrow> v = int (getLimitedValue v)"
  by (auto simp: getLimitedValue_def min_def split: if_splits)

text \<open>A layer: the builder that calls itself, and the builder below it, both with the contract.\<close>

locale layer = self: sound_builder t dv \<rho> I this + below: sound_builder t dv \<rho> I nxt
  for t dv :: bool and \<rho> :: assignment and I :: "bst \<Rightarrow> bool" and this nxt :: builder
begin

lemma common_concat:
  assumes s: "I s" and l: "den dv \<rho> l = Some a" and r: "den dv \<rho> r = Some b"
    and c: "sem_concat a b = Some c"
  shows "runs t I (common_createConcat H this nxt l r s) (\<lambda>e. den dv \<rho> e = Some c)"
proof (cases "concat_adjacent l r")
  case (Some p)
  then obtain e i_l n_l i_r n_r where x: "as_Extract l = Some (e, i_l, n_l)"
    "as_Extract r = Some (e, i_r, n_r)" "i_r + n_r = i_l" "p = (e, i_r, n_r + n_l)"
    by (auto simp: concat_adjacent_def split: option.splits if_splits)
  from den_ExtractE [OF l x(1)] obtain m v where v: "den dv \<rho> e = Some (BV m v)"
    "a = BV n_l (bv_extract i_l n_l v)" "0 < n_l" "i_l + n_l \<le> m" by metis
  from den_ExtractE [OF r x(2)] v(1) have "b = BV n_r (bv_extract i_r n_r v)" "0 < n_r"
    by auto
  with c v x(3) have "c = BV (n_r + n_l) (bv_extract i_r (n_r + n_l) v)"
    using concat_extract_extract [of n_r i_r n_l v] by (auto simp: add.commute)
  with self.extract_bv [OF s v(1), of "n_r + n_l" i_r] v(3,4) x(3) show ?thesis
    by (simp add: common_createConcat_def Some x(4) add.assoc)
next
  case None
  note no_adjacent = None
  show ?thesis
  proof (cases "concat_extended H l r")
    case None
    with no_adjacent below.concat_law [OF s l r c] show ?thesis
      by (simp add: common_createConcat_def)
  next
    case (Some p)
    then obtain e n_l x where x: "as_Extract l = Some (e, bits r, n_l)" "as_Ext e = Some x"
      "equalShallowly H x r" "p = (e, n_l + bits r)"
      by (auto simp: concat_extended_def split: option.splits if_splits)
    from den_ExtractE [OF l x(1)] obtain m v where v: "den dv \<rho> e = Some (BV m v)"
      "a = BV n_l (bv_extract (bits r) n_l v)" "0 < n_l" "bits r + n_l \<le> m" by metis
    from den_ExtE [OF v(1) x(2)] obtain k w where w: "den dv \<rho> x = Some (BV k w)" "bits x = k"
      "in_range k w" "bv_extract 0 k v = bv_extract 0 k w"
      by (metis add_0 dval.inject(2) order_refl)
    have b: "b = BV (bits r) w" "k = bits r"
      using equalShallowly_den [OF x(3), of dv \<rho>] equalShallowly_bits [OF x(3)] w r by auto
    have "take_bit (bits r) v = w"
      using w(3,4) b(2) by (simp add: bv_extract_def in_range_take_bit)
    then have "c = BV (n_l + bits r) (bv_extract 0 (n_l + bits r) v)"
      using c v(2) b concat_extract_low [of "bits r" v w n_l] by (simp add: add.commute)
    with self.extract_bv [OF s v(1), of "n_l + bits r" 0] v(3,4) show ?thesis
      by (simp add: common_createConcat_def no_adjacent Some x(4))
  qed
qed

lemma common_extract:
  assumes s: "I s" and e: "den dv \<rho> e = Some a" and c: "sem_extract i n a = Some c"
  shows "runs t I (common_createExtract this nxt e i n s) (\<lambda>x. den dv \<rho> x = Some c)"
proof -
  obtain m v where a: "a = BV m v" and n: "0 < n" "i + n \<le> m" and c': "c = BV n (bv_extract i n v)"
    using c by (cases a) (auto split: if_splits)
  note v = den_BV [OF e [unfolded a]]
  have rest: "runs t I (if i = 0 \<and> bits e = n then Some (e, s) else createExtract nxt e i n s)
      (\<lambda>x. den dv \<rho> x = Some c)"
    using below.extract_law [OF s e c] e s a c' v by (auto simp: extract_all)
  consider (concat) l r where "as_Concat e = Some (l, r)"
    | (ext) x where "as_Concat e = None" "as_Ext e = Some x"
    | (extraction) x j k where "as_Concat e = None" "as_Ext e = None" "as_Extract e = Some (x, j, k)"
    | (other) "as_Concat e = None" "as_Ext e = None" "as_Extract e = None"
    by (metis not_Some_eq prod_cases3 surj_pair)
  then show ?thesis
  proof cases
    case concat
    from den_asConcatE [OF e concat] a obtain n1 x m1 y where d:
      "den dv \<rho> l = Some (BV n1 x)" "den dv \<rho> r = Some (BV m1 y)" "bits r = m1" "bits l = n1"
      "v = bv_concat m1 x y" "m = n1 + m1" "0 < n1"
      by (metis dval.inject(2))
    consider "m1 \<le> i" | "i < m1" "i + n \<le> m1" | "i < m1" "m1 < i + n"
      by linarith
    then show ?thesis
    proof cases
      case 1
      with self.extract_bv [OF s d(1) n(1), of "i - m1"] n d c' concat show ?thesis
        by (simp add: common_createExtract_def extract_concat_high)
    next
      case 2
      with self.extract_bv [OF s d(2) n(1), of i] d c' concat show ?thesis
        by (simp add: common_createExtract_def extract_concat_low)
    next
      case 3
      have "runs t I (do { (e_l, s) \<leftarrow> createExtract this l 0 (n + i - m1) s;
          (e_r, s) \<leftarrow> createExtract this r i (m1 - i) s;
          createConcat this e_l e_r s }) (\<lambda>x. den dv \<rho> x = Some c)"
      proof (rule runs_bind_pair [OF self.extract_bv [OF s d(1)]])
        show "0 < n + i - m1" "0 + (n + i - m1) \<le> n1"
          using 3 n d by simp_all
        fix e_l s1
        assume l: "den dv \<rho> e_l = Some (BV (n + i - m1) (bv_extract 0 (n + i - m1) x))" "I s1"
        show "runs t I (do { (e_r, s) \<leftarrow> createExtract this r i (m1 - i) s1;
          createConcat this e_l e_r s }) (\<lambda>x. den dv \<rho> x = Some c)"
        proof (rule runs_bind_pair [OF self.extract_bv [OF l(2) d(2)]])
          show "0 < m1 - i" "i + (m1 - i) \<le> m1"
            using 3 by simp_all
          fix e_r s2
          assume r: "den dv \<rho> e_r = Some (BV (m1 - i) (bv_extract i (m1 - i) y))" "I s2"
          have "BV (n + i - m1 + (m1 - i))
              (bv_concat (m1 - i) (bv_extract 0 (n + i - m1) x) (bv_extract i (m1 - i) y)) = c"
            using 3 c' d(5) by (simp add: extract_concat_split)
          with self.concat_bv [OF r(2) l(1) r(1)]
          show "runs t I (createConcat this e_l e_r s2) (\<lambda>x. den dv \<rho> x = Some c)"
            by simp
        qed
      qed
      with 3 rest d(3) concat show ?thesis
        by (simp add: common_createExtract_def)
    qed
  next
    case ext
    from den_ExtE [OF e ext(2)] a obtain k w where w: "den dv \<rho> x = Some (BV k w)" "bits x = k"
      "in_range k w" "\<And>i n. i + n \<le> k \<Longrightarrow> bv_extract i n v = bv_extract i n w"
      "kind_of e = ZExt \<Longrightarrow> v = w"
      by (metis dval.inject(2))
    show ?thesis
      using self.extract_bv [OF s w(1) n(1), of i] w ext c' rest self.const_0 [OF s n(1)]
      by (auto simp: common_createExtract_def extract_above)
  next
    case extraction
    from den_ExtractE [OF e extraction(3)] a obtain k w where w: "den dv \<rho> x = Some (BV k w)"
      "v = bv_extract j m w" "j + m \<le> k"
      by (metis dval.inject(2))
    have "bv_extract i n v = bv_extract (j + i) n w"
      using n(2) w(2) by (simp add: extract_extract)
    with self.extract_bv [OF s w(1) n(1), of "j + i"] n(2) w(3) extraction c' show ?thesis
      by (simp add: common_createExtract_def)
  next
    case other
    with rest show ?thesis
      by (simp add: common_createExtract_def)
  qed
qed

lemma common_zext:
  assumes s: "I s" and e: "den dv \<rho> e = Some a" and c: "sem_zext n a = Some c"
  shows "runs t I (common_createZExt this nxt e n s) (\<lambda>x. den dv \<rho> x = Some c)"
proof -
  obtain m v where a: "a = BV m v" "m \<le> n" "c = BV n v"
    using c by (cases a) (auto split: if_splits)
  with below.zext_law [OF s e c] e s den_BV [OF e [unfolded a(1)]] show ?thesis
    by (auto simp: common_createZExt_def)
qed

lemma common_add:
  assumes s: "I s" and l: "den dv \<rho> l = Some a" and r: "den dv \<rho> r = Some b"
    and c: "sem_binary dv Add a b = Some c"
  shows "runs t I (common_createAdd nxt l r s) (\<lambda>e. den dv \<rho> e = Some c)"
proof -
  obtain n x y where "a = BV n x" "b = BV n y" "c = BV n (take_bit n (x + y))"
    using c by (rule sem_arithE) (simp_all add: compareKind_def)
  with below.binary_law [OF s l r c] s l r isZero_den [of l dv \<rho> n x] den_BV [of dv \<rho> r n y]
  show ?thesis
    by (auto simp: common_createAdd_def in_range_take_bit)
qed

lemma common_mul:
  assumes s: "I s" and l: "den dv \<rho> l = Some a" and r: "den dv \<rho> r = Some b"
    and c: "sem_binary dv Mul a b = Some c"
  shows "runs t I (common_createMul nxt l r s) (\<lambda>e. den dv \<rho> e = Some c)"
proof -
  obtain n x y where "a = BV n x" "b = BV n y" "c = BV n (take_bit n (x * y))"
    using c by (rule sem_arithE) (simp_all add: compareKind_def)
  with below.binary_law [OF s l r c] s l r isZero_den [of l dv \<rho> n x] isOne_den [of l dv \<rho> n x]
    den_BV [of dv \<rho> r n y]
  show ?thesis
    by (auto simp: common_createMul_def in_range_take_bit)
qed

text \<open>The distribution over a concatenation, for any of the three bitwise operations.\<close>

lemma common_bitwise:
  assumes k: "k = And \<or> k = Or \<or> k = Xor" and f: "simplifies k f"
    and s: "I s" and l: "den dv \<rho> l = Some a" and r: "den dv \<rho> r = Some b"
    and c: "sem_binary dv k a b = Some c"
  shows "runs t I (common_createBitwise k f this nxt l r s) (\<lambda>e. den dv \<rho> e = Some c)"
proof -
  have k': "\<not> compareKind k" "k \<noteq> UDiv \<and> k \<noteq> SDiv" "bool_connect k True True = None"
    using k by (auto simp: compareKind_def)
  obtain n x y z where abc: "a = BV n x" "b = BV n y" "c = BV n z" "bv_arith k n x y = Some z"
    using c k'(1,3) by (auto elim!: sem_arithE)
  note l' = l [unfolded abc(1)] and r' = r [unfolded abc(2)]
  have below: "runs t I (createBinaryExpr nxt k l r s') (\<lambda>e. den dv \<rho> e = Some c)" if "I s'" for s'
    using below.binary_law [OF that l r c] .
  show ?thesis
  proof (cases "f l r")
    case (Some e)
    with simplifiesD [OF f Some l' r' abc(4)] s abc(3) show ?thesis
      by (simp add: common_createBitwise_def)
  next
    case None
    show ?thesis
    proof (cases "as_Constant l \<noteq> None \<and> as_Concat r \<noteq> None")
      case False
      with None below [OF s] show ?thesis
        by (auto simp: common_createBitwise_def split: option.splits)
    next
      case True
      then obtain v r_left r_right where cr: "as_Constant l = Some v" "as_Concat r = Some (r_left, r_right)"
        by auto
      from den_asConcatE [OF r' cr(2)] obtain n1 x1 m1 y1 where d:
        "den dv \<rho> r_left = Some (BV n1 x1)" "den dv \<rho> r_right = Some (BV m1 y1)"
        "y = bv_concat m1 x1 y1" "n = n1 + m1" "bits r_left = n1" "bits r_right = m1"
        "0 < n1" "0 < m1" "in_range n1 x1"
        by (metis dval.inject(2))
      obtain z1 z2 where z: "bv_arith k n1 (bv_extract m1 n1 x) x1 = Some z1"
        "bv_arith k m1 (bv_extract 0 m1 x) y1 = Some z2" "z = bv_concat m1 z1 z2"
        using k abc(4) d den_BV [OF l'] by (auto simp: and_concat or_concat xor_concat)
      have "runs t I (do {
            (l_left, s) \<leftarrow> createExtract this l m1 n1 s;
            (case f l_left r_left of
               Some and_left \<Rightarrow> do {
                 (l_right, s) \<leftarrow> createExtract this l 0 m1 s;
                 (and_right, s) \<leftarrow> createBinaryExpr this k l_right r_right s;
                 createConcat this and_left and_right s }
             | None \<Rightarrow> createBinaryExpr nxt k l r s) }) (\<lambda>e. den dv \<rho> e = Some c)"
      proof (rule runs_bind_pair [OF self.extract_bv [OF s l']])
        show "0 < n1" "m1 + n1 \<le> n"
          using d by simp_all
        fix l_left s1
        assume ll: "den dv \<rho> l_left = Some (BV n1 (bv_extract m1 n1 x))" "I s1"
        show "runs t I (case f l_left r_left of
               Some and_left \<Rightarrow> do {
                 (l_right, s) \<leftarrow> createExtract this l 0 m1 s1;
                 (and_right, s) \<leftarrow> createBinaryExpr this k l_right r_right s;
                 createConcat this and_left and_right s }
             | None \<Rightarrow> createBinaryExpr nxt k l r s1) (\<lambda>e. den dv \<rho> e = Some c)"
        proof (rule runs_option)
          fix and_left
          assume "f l_left r_left = Some and_left"
          then have al: "den dv \<rho> and_left = Some (BV n1 z1)"
            using simplifiesD [OF f _ ll(1) d(1) z(1)] by simp
          show "runs t I (do {
                 (l_right, s) \<leftarrow> createExtract this l 0 m1 s1;
                 (and_right, s) \<leftarrow> createBinaryExpr this k l_right r_right s;
                 createConcat this and_left and_right s }) (\<lambda>e. den dv \<rho> e = Some c)"
            using d(4,8) self.concat_bv [OF _ al] abc(3) z(3) k'
            by (auto intro!: runs_bind_pair [OF self.extract_bv [OF ll(2) l', of m1 0]]
                runs_bind_pair [OF self.arith_bv [OF _ _ d(2) _ _ z(2)]])
        qed (rule below [OF ll(2)])
      qed
      then show ?thesis
        unfolding common_createBitwise_def None cr option.case prod.case d(5,6) .
    qed
  qed
qed

lemma common_shl:
  assumes s: "I s" and l: "den dv \<rho> l = Some a" and r: "den dv \<rho> r = Some b"
    and c: "sem_binary dv Shl a b = Some c"
  shows "runs t I (common_createShl this nxt l r s) (\<lambda>e. den dv \<rho> e = Some c)"
proof -
  obtain n x y where abc: "a = BV n x" "b = BV n y" "c = BV n (bv_shl n x y)"
    using c by (rule sem_arithE) (simp_all add: compareKind_def)
  note l' = l [unfolded abc(1)] and r' = r [unfolded abc(2)]
  note lx = den_BV [OF l'] and ry = den_BV [OF r']
  note below = below.binary_law [OF s l r c]
  show ?thesis
  proof (cases "isZero l \<or> as_Constant r = None")
    case True
    with below l' s abc isZero_den [OF _ l'] show ?thesis
      by (auto simp: common_createShl_def)
  next
    case False
    then obtain w where "as_Constant r = Some w"
      by auto
    with den_Constant [OF r' this] have w: "as_Constant r = Some y"
      by simp
    let ?v = "getLimitedValue y"
    have y: "0 \<le> y"
      using ry by (simp add: in_range_def)
    consider "?v = 0" | "0 < ?v" "n \<le> ?v" | "0 < ?v" "?v < n" "?v mod 8 = 0" | "0 < ?v" "?v < n" "?v mod 8 \<noteq> 0"
      by linarith
    then show ?thesis
    proof cases
      case 1
      with getLimitedValue_0 [OF y] w False l' s abc lx show ?thesis
        by (simp add: common_createShl_def Let_def)
    next
      case 2
      then have "c = BV n 0"
        using abc getLimitedValue_le [OF y] by simp
      with 2 w False self.const_0 [OF s, of n] lx show ?thesis
        by (simp add: common_createShl_def Let_def)
    next
      case 3
      have "runs t I (createConcat this p z s') (\<lambda>e. den dv \<rho> e = Some c)"
        if "I s'" "den dv \<rho> p = Some (BV (n - ?v) (bv_extract 0 (n - ?v) x))"
          "den dv \<rho> z = Some (BV ?v 0)" for p z s'
        using self.concat_bv [OF that] 3 abc getLimitedValue_exact [OF y] shl_concat [of ?v n x]
        by simp
      moreover have "0 < n - ?v" "0 + (n - ?v) \<le> n"
        using 3 by simp_all
      ultimately have "runs t I (do {
          (zero, s) \<leftarrow> createConstant this 0 ?v s;
          (partial, s) \<leftarrow> createExtract this l 0 (n - ?v) s;
          createConcat this partial zero s }) (\<lambda>e. den dv \<rho> e = Some c)"
        using 3(1) by (auto intro!: runs_bind_pair [OF self.const_0 [OF s]]
            runs_bind_pair [OF self.extract_bv [OF _ l']])
      with 3 w False lx show ?thesis
        by (simp add: common_createShl_def Let_def)
    next
      case 4
      with below w False lx show ?thesis
        by (simp add: common_createShl_def Let_def)
    qed
  qed
qed

lemma common_lshr:
  assumes s: "I s" and l: "den dv \<rho> l = Some a" and r: "den dv \<rho> r = Some b"
    and c: "sem_binary dv LShr a b = Some c"
  shows "runs t I (common_createLShr this nxt l r s) (\<lambda>e. den dv \<rho> e = Some c)"
proof -
  obtain n x y where abc: "a = BV n x" "b = BV n y" "c = BV n (bv_lshr n x y)"
    using c by (rule sem_arithE) (simp_all add: compareKind_def)
  note l' = l [unfolded abc(1)] and r' = r [unfolded abc(2)]
  note lx = den_BV [OF l'] and ry = den_BV [OF r']
  note below = below.binary_law [OF s l r c]
  show ?thesis
  proof (cases "isZero l \<or> as_Constant r = None")
    case True
    with below l' s abc isZero_den [OF _ l'] show ?thesis
      by (auto simp: common_createLShr_def)
  next
    case False
    then obtain w where "as_Constant r = Some w"
      by auto
    with den_Constant [OF r' this] have w: "as_Constant r = Some y"
      by simp
    let ?v = "getLimitedValue y"
    have y: "0 \<le> y"
      using ry by (simp add: in_range_def)
    consider "?v = 0" | "0 < ?v" "n \<le> ?v" | "0 < ?v" "?v < n" "?v mod 8 = 0" | "0 < ?v" "?v < n" "?v mod 8 \<noteq> 0"
      by linarith
    then show ?thesis
    proof cases
      case 1
      with getLimitedValue_0 [OF y] w False l' s abc lx show ?thesis
        by (simp add: common_createLShr_def Let_def)
    next
      case 2
      then have "c = BV n 0"
        using abc getLimitedValue_le [OF y] by simp
      with 2 w False self.const_0 [OF s, of n] lx show ?thesis
        by (simp add: common_createLShr_def Let_def)
    next
      case 3
      have "runs t I (createConcat this z p s') (\<lambda>e. den dv \<rho> e = Some c)"
        if "I s'" "den dv \<rho> z = Some (BV ?v 0)"
          "den dv \<rho> p = Some (BV (n - ?v) (bv_extract ?v (n - ?v) x))" for p z s'
        using self.concat_bv [OF that] 3 abc getLimitedValue_exact [OF y] lshr_concat [of ?v n x] lx
        by simp
      moreover have "0 < n - ?v" "?v + (n - ?v) \<le> n"
        using 3 by simp_all
      ultimately have "runs t I (do {
          (zero, s) \<leftarrow> createConstant this 0 ?v s;
          (partial, s) \<leftarrow> createExtract this l ?v (n - ?v) s;
          createConcat this zero partial s }) (\<lambda>e. den dv \<rho> e = Some c)"
        using 3(1) by (auto intro!: runs_bind_pair [OF self.const_0 [OF s]]
            runs_bind_pair [OF self.extract_bv [OF _ l']])
      with 3 w False lx show ?thesis
        by (simp add: common_createLShr_def Let_def)
    next
      case 4
      with below w False lx show ?thesis
        by (simp add: common_createLShr_def Let_def)
    qed
  qed
qed

lemma common_ashr:
  assumes s: "I s" and l: "den dv \<rho> l = Some a" and r: "den dv \<rho> r = Some b"
    and c: "sem_binary dv AShr a b = Some c"
  shows "runs t I (common_createAShr nxt l r s) (\<lambda>e. den dv \<rho> e = Some c)"
proof -
  obtain n x y where abc: "a = BV n x" "b = BV n y" "c = BV n (bv_ashr n x y)"
    using c by (rule sem_arithE) (simp_all add: compareKind_def)
  note l' = l [unfolded abc(1)] and r' = r [unfolded abc(2)]
  have "0 \<le> y"
    using den_BV [OF r'] by (simp add: in_range_def)
  with below.binary_law [OF s l r c] s l' abc den_BV [OF l'] den_Constant [OF r']
    getLimitedValue_0 [of y] show ?thesis
    by (auto simp: common_createAShr_def split: option.splits)
qed

lemma common_equal:
  assumes s: "I s" and l: "den dv \<rho> l = Some a" and r: "den dv \<rho> r = Some b"
    and c: "sem_binary dv Equal a b = Some c"
  shows "runs t I (common_createEqual this nxt l r s) (\<lambda>e. den dv \<rho> e = Some c)"
proof (cases "as_Bool l")
  case None
  with below.binary_law [OF s l r c] show ?thesis
    by (simp add: common_createEqual_def)
next
  case (Some p)
  have a: "a = BoolV p"
    by (rule den_Bool [OF l Some])
  with c obtain q where "b = BoolV q" "c = BoolV (p = q)"
    by (cases b) auto
  with Some s r self.lnot_bool [OF s, of r q] show ?thesis
    by (simp add: common_createEqual_def)
qed

lemma common_binary:
  assumes s: "I s" and l: "den dv \<rho> l = Some a" and r: "den dv \<rho> r = Some b"
    and c: "sem_binary dv k a b = Some c"
  shows "runs t I (common_createBinaryExpr this nxt k l r s) (\<lambda>e. den dv \<rho> e = Some c)"
  using assms below.binary_law [OF assms] simplifyAnd_correct simplifyOr_correct simplifyXor_correct
  by (cases k) (simp_all add: common_createBinaryExpr_def common_add common_mul common_bitwise
      common_shl common_lshr common_ashr common_equal)

lemma common_layer_sound: "sound_builder t dv \<rho> I (common_layer H this nxt)"
  using below.sound_builder_axioms
  by (auto simp: sound_builder_def common_layer_def
      intro!: common_concat common_extract common_zext common_binary)

end

text \<open>The builder keeps the contract of the one below at every depth of calls.\<close>

lemma common_sound:
  assumes "sound_builder False dv \<rho> I B"
  shows "sound_builder False dv \<rho> I (common_builder H n B)"
proof (induction n)
  case 0
  show ?case
    by (simp add: no_builder_sound)
next
  case (Suc n)
  then show ?case
    using layer.common_layer_sound layer.intro assms by fastforce
qed

end
