(* ===== verification/Symbolic.thy ===== *)
theory Symbolic
  imports CommonSimplify
begin

section \<open>Symbolic simplifications\<close>

text \<open>
  \<open>SymbolicExprBuilder\<close> (\<open>codegen/expr_builder.cpp\<close>): the rewriting of sums, differences,
  products, quotients, bitwise operations and connectives. As in \<open>CommonSimplify\<close>, \<open>this\<close> is the
  builder on which a method calls further methods and \<open>next\<close> the builder below.
\<close>

subsection \<open>Concatenation and extraction\<close>

definition symbolic_createConcat :: "builder \<Rightarrow> builder \<Rightarrow> expr \<Rightarrow> expr \<Rightarrow> expr build" where
  "symbolic_createConcat this next l r s =
     (let rest = (case as_Concat l of
          Some (x, y) \<Rightarrow> do { (yr, s) \<leftarrow> createConcat this y r s; createConcat this x yr s }
        | None \<Rightarrow> createConcat next l r s)
      in case as_Concat r of
           Some (x, y) \<Rightarrow>
             if isConstant l \<and> isConstant x
             then do { (lx, s) \<leftarrow> createConcat this l x s; createConcat this lx y s }
             else rest
         | None \<Rightarrow> rest)"

text \<open>
  \<open>canEvaluateTruncated(e, bits, depth = 0)\<close>. The recursive calls pass \<open>depth + 1\<close> as the second
  argument, which is the width, and leave the depth at its default.
\<close>

fun canEvaluateTruncated :: "expr \<Rightarrow> nat \<Rightarrow> nat \<Rightarrow> bool" where
  "canEvaluateTruncated (BinaryExpr i k l r) n dep =
     (if dep > 1 then False
      else if k = Mul then canEvaluateTruncated l (dep + 1) 0 \<and> canEvaluateTruncated r (dep + 1) 0
      else if k = UDiv \<or> k = URem then
        (let high_bits = bits (BinaryExpr i k l r) - n in
         if countLeadingZeros l \<ge> high_bits \<and> countLeadingZeros r \<ge> high_bits
         then canEvaluateTruncated l (dep + 1) 0 \<and> canEvaluateTruncated r (dep + 1) 0
         else False)
      else False)"
| "canEvaluateTruncated e n dep =
     (if dep > 1 then False else kind_of e \<in> {ZExt, SExt, Constant, Concat})"

text \<open>\<open>evaluateInDifferentType\<close>: the first two extractions are made and not used.\<close>

definition evaluateInDifferentType :: "builder \<Rightarrow> expr \<Rightarrow> nat \<Rightarrow> nat \<Rightarrow> expr option build" where
  "evaluateInDifferentType this op index n s =
     (case op of
        BinaryExpr _ k l r \<Rightarrow>
          if k \<in> {Mul, UDiv, URem} then do {
            (e1, s) \<leftarrow> createExtract this l index n s;
            (e2, s) \<leftarrow> createExtract this r index n s;
            (e3, s) \<leftarrow> createExtract this l index n s;
            (e4, s) \<leftarrow> createExtract this r index n s;
            (e, s) \<leftarrow> createBinaryExpr this k e3 e4 s;
            Some (Some e, s) }
          else Some (None, s)
      | _ \<Rightarrow> Some (None, s))"

definition symbolic_createExtract :: "builder \<Rightarrow> builder \<Rightarrow> expr \<Rightarrow> nat \<Rightarrow> nat \<Rightarrow> expr build" where
  "symbolic_createExtract this next op index n s =
     (if index = 0 \<and> n mod 8 = 0 \<and> canEvaluateTruncated op n 0 then do {
        (e, s) \<leftarrow> evaluateInDifferentType this op index n s;
        (case e of Some e \<Rightarrow> Some (e, s) | None \<Rightarrow> createExtract next op index n s) }
      else createExtract next op index n s)"

subsection \<open>Operands without common bits\<close>

text \<open>
  \<open>simplifyExclusiveExpr\<close>. The inner loops skip the bits that are known to be zero.
  The outer loop makes progress in every round when no position is known in neither operand
  and the widths agree; its fuel is the number of bits.
\<close>

function zero_run :: "expr \<Rightarrow> nat \<Rightarrow> nat \<Rightarrow> nat" where
  "zero_run e n i = (if i < n \<and> isZeroBit e i then zero_run e n (i + 1) else i)"
  by pat_completeness auto
termination
  by (relation "measure (\<lambda>(e, n, i). n - i)") auto

declare zero_run.simps [simp del]

fun exclusive_loop ::
  "builder \<Rightarrow> expr \<Rightarrow> expr \<Rightarrow> nat \<Rightarrow> nat \<Rightarrow> expr list \<Rightarrow> expr list build" where
  "exclusive_loop this l r fuel i exprs s =
     (if i < bits l then
        (case fuel of
           0 \<Rightarrow> None
         | Suc fuel \<Rightarrow>
             (let prev = i; i = zero_run l (bits l) i in do {
                (exprs, s) \<leftarrow> (if i \<noteq> prev then do {
                   (e, s) \<leftarrow> createExtract this r prev (i - prev) s; Some (e # exprs, s) }
                   else Some (exprs, s));
                (let prev = i; i = zero_run r (bits r) i in do {
                   (exprs, s) \<leftarrow> (if i \<noteq> prev then do {
                      (e, s) \<leftarrow> createExtract this l prev (i - prev) s; Some (e # exprs, s) }
                      else Some (exprs, s));
                   exclusive_loop this l r fuel i exprs s }) }))
      else Some (exprs, s))"

declare exclusive_loop.simps [simp del]

definition exclusive :: "expr \<Rightarrow> expr \<Rightarrow> bool" where
  "exclusive l r \<longleftrightarrow> list_all (\<lambda>i. isZeroBit l i \<or> isZeroBit r i) [0..<bits l]"

definition simplifyExclusiveExpr :: "builder \<Rightarrow> expr \<Rightarrow> expr \<Rightarrow> expr option build" where
  "simplifyExclusiveExpr this l r s =
     (if \<not> exclusive l r then Some (None, s)
      else do {
        (exprs, s) \<leftarrow> exclusive_loop this l r (bits l) 0 [] s;
        (e, s) \<leftarrow> createConcat_list this exprs s;
        Some (Some e, s) })"

subsection \<open>Nested calls\<close>

text \<open>The shapes of the right-hand sides: \<open>k2(k1(a, b), c)\<close>, \<open>k2(c, k1(a, b))\<close> and so on.\<close>

definition call_left :: "builder \<Rightarrow> kind \<Rightarrow> kind \<Rightarrow> expr \<Rightarrow> expr \<Rightarrow> expr \<Rightarrow> expr build" where
  "call_left B k2 k1 a b c s = do { (e, s) \<leftarrow> createBinaryExpr B k1 a b s; createBinaryExpr B k2 e c s }"

definition call_right :: "builder \<Rightarrow> kind \<Rightarrow> expr \<Rightarrow> kind \<Rightarrow> expr \<Rightarrow> expr \<Rightarrow> expr build" where
  "call_right B k2 c k1 a b s = do { (e, s) \<leftarrow> createBinaryExpr B k1 a b s; createBinaryExpr B k2 c e s }"

definition call_neg :: "builder \<Rightarrow> kind \<Rightarrow> expr \<Rightarrow> kind \<Rightarrow> expr \<Rightarrow> expr \<Rightarrow> expr build" where
  "call_neg B k2 c k1 a b s = do {
     (m, s) \<leftarrow> createUnaryExpr B Neg c s;
     (e, s) \<leftarrow> createBinaryExpr B k1 a b s;
     createBinaryExpr B k2 m e s }"

definition call_both ::
  "builder \<Rightarrow> kind \<Rightarrow> kind \<Rightarrow> expr \<Rightarrow> expr \<Rightarrow> kind \<Rightarrow> expr \<Rightarrow> expr \<Rightarrow> expr build" where
  "call_both B k2 k1 a b k1' c d s = do {
     (e, s) \<leftarrow> createBinaryExpr B k1 a b s;
     (f, s) \<leftarrow> createBinaryExpr B k1' c d s;
     createBinaryExpr B k2 e f s }"

text \<open>The binary expression of a kind one of whose operands is a constant.\<close>

definition const_first :: "kind \<Rightarrow> expr \<Rightarrow> (expr \<times> expr) option" where
  "const_first k e = (case as_Binary k e of
     Some (x, y) \<Rightarrow> if isConstant x then Some (x, y) else None | None \<Rightarrow> None)"

definition const_second :: "kind \<Rightarrow> expr \<Rightarrow> (expr \<times> expr) option" where
  "const_second k e = (case as_Binary k e of
     Some (x, y) \<Rightarrow> if isConstant y then Some (x, y) else None | None \<Rightarrow> None)"

subsection \<open>Sums and differences\<close>

definition createAdd_const :: "builder \<Rightarrow> builder \<Rightarrow> expr \<Rightarrow> expr \<Rightarrow> expr build" where
  "createAdd_const this next l r = (case const_first Add r of
     Some (c, x) \<Rightarrow> call_left this Add Add l c x
   | None \<Rightarrow> (case const_second Add r of
     Some (x, c) \<Rightarrow> call_left this Add Add l c x
   | None \<Rightarrow> (case const_first Sub r of
     Some (c, x) \<Rightarrow> call_left this Sub Add l c x
   | None \<Rightarrow> (case const_second Sub r of
     Some (x, c) \<Rightarrow> call_left this Add Sub l c x
   | None \<Rightarrow> createBinaryExpr next Add l r))))"

text \<open>A sum or a difference on the left is exchanged with the right operand.\<close>

definition createAdd_nonconst :: "builder \<Rightarrow> builder \<Rightarrow> expr \<Rightarrow> expr \<Rightarrow> expr build" where
  "createAdd_nonconst this next l r s =
     (if l = r then do { (two, s) \<leftarrow> createConstant this 2 (bits l) s; createBinaryExpr this Mul two l s }
      else
        let (l, r) = (if kind_of l = Add \<or> kind_of l = Sub then (r, l) else (l, r)) in
        (case const_first Add r of
           Some (c, y) \<Rightarrow> call_right this Add c Add l y
         | None \<Rightarrow> (case const_second Add r of
           Some (y, c) \<Rightarrow> call_right this Add c Add l y
         | None \<Rightarrow> (case const_first Sub r of
           Some (c, y) \<Rightarrow> call_right this Add c Sub l y
         | None \<Rightarrow> (case const_second Sub r of
           Some (y, c) \<Rightarrow> call_neg this Add c Add l y
         | None \<Rightarrow> createBinaryExpr next Add l r)))) s)"

definition symbolic_createAdd :: "builder \<Rightarrow> builder \<Rightarrow> expr \<Rightarrow> expr \<Rightarrow> expr build" where
  "symbolic_createAdd this next l r s = do {
     (e, s) \<leftarrow> simplifyExclusiveExpr this l r s;
     (case e of
        Some e \<Rightarrow> Some (e, s)
      | None \<Rightarrow>
        if isConstant r then createBinaryExpr next Add l r s
        else if isConstant l then createAdd_const this next l r s
        else createAdd_nonconst this next l r s) }"

definition createSub_const :: "builder \<Rightarrow> builder \<Rightarrow> expr \<Rightarrow> expr \<Rightarrow> expr build" where
  "createSub_const this next l r = (case const_first Add r of
     Some (c, x) \<Rightarrow> call_left this Sub Sub l c x
   | None \<Rightarrow> (case const_second Add r of
     Some (x, c) \<Rightarrow> call_left this Sub Sub l c x
   | None \<Rightarrow> (case const_first Sub r of
     Some (c, x) \<Rightarrow> call_left this Add Sub l c x
   | None \<Rightarrow> (case const_second Sub r of
     Some (x, c) \<Rightarrow> call_left this Sub Add l c x
   | None \<Rightarrow> createBinaryExpr next Sub l r))))"

text \<open>
  The case for sums on the left falls through into the one for differences, where the same test
  of the first operand fails again.
\<close>

definition createSub_nonconst :: "builder \<Rightarrow> builder \<Rightarrow> expr \<Rightarrow> expr \<Rightarrow> expr build" where
  "createSub_nonconst this next l r =
     (if l = r then createConstant this 0 (bits l)
      else (case const_first Add l of
        Some (c, y) \<Rightarrow> call_right this Add c Sub y r
      | None \<Rightarrow> (case const_first Sub l of
        Some (c, y) \<Rightarrow> call_right this Sub c Add y r
      | None \<Rightarrow> (case const_first Add r of
        Some (c, y) \<Rightarrow> call_neg this Add c Sub l y
      | None \<Rightarrow> (case const_second Add r of
        Some (y, c) \<Rightarrow> call_neg this Add c Sub l y
      | None \<Rightarrow> (case const_first Sub r of
        Some (c, y) \<Rightarrow> call_neg this Add c Add l y
      | None \<Rightarrow> (case const_second Sub r of
        Some (y, c) \<Rightarrow> call_right this Add c Sub l y
      | None \<Rightarrow> createBinaryExpr next Sub l r)))))))"

definition symbolic_createSub :: "builder \<Rightarrow> builder \<Rightarrow> expr \<Rightarrow> expr \<Rightarrow> expr build" where
  "symbolic_createSub this next l r =
     (if isConstant r then createBinaryExpr next Sub l r
      else if isConstant l then createSub_const this next l r
      else createSub_nonconst this next l r)"

subsection \<open>Products and quotients\<close>

definition symbolic_createMul :: "builder \<Rightarrow> builder \<Rightarrow> expr \<Rightarrow> expr \<Rightarrow> expr build" where
  "symbolic_createMul this next l r =
     (if \<not> isConstant r \<and> isConstant l then
        (case const_first Mul r of
           Some (c, x) \<Rightarrow> call_left this Mul Mul l c x
         | None \<Rightarrow> (case const_first Add r of
           Some (c, x) \<Rightarrow> call_both this Add Mul l c Mul l x
         | None \<Rightarrow> createBinaryExpr next Mul l r))
      else createBinaryExpr next Mul l r)"

text \<open>\<open>ConstantExpr::getActiveBits\<close>.\<close>

definition getActiveBits :: "expr \<Rightarrow> nat" where
  "getActiveBits e = (case as_Constant e of Some v \<Rightarrow> active_bits v | None \<Rightarrow> 0)"

definition createSDiv_const :: "builder \<Rightarrow> builder \<Rightarrow> expr \<Rightarrow> expr \<Rightarrow> expr build" where
  "createSDiv_const this next l r s =
     (let rest = (case const_second SDiv l of
          Some (x, c) \<Rightarrow> call_right this SDiv x Mul c r s
        | None \<Rightarrow> createBinaryExpr next SDiv l r s)
      in if isAllOnes r then createUnaryExpr this Neg l s
         else (case as_SExt l of
           Some x \<Rightarrow>
             if bits x \<ge> getActiveBits r then do {
               (e, s) \<leftarrow> createExtract this r 0 (bits x) s;
               (e, s) \<leftarrow> createBinaryExpr this SDiv x e s;
               createSExt this e (bits l) s }
             else rest
         | None \<Rightarrow> rest))"

definition symbolic_createSDiv :: "builder \<Rightarrow> builder \<Rightarrow> expr \<Rightarrow> expr \<Rightarrow> expr build" where
  "symbolic_createSDiv this next l r =
     (if \<not> isConstant l \<and> isConstant r then createSDiv_const this next l r
      else createBinaryExpr next SDiv l r)"

definition createUDiv_const :: "builder \<Rightarrow> builder \<Rightarrow> expr \<Rightarrow> expr \<Rightarrow> expr build" where
  "createUDiv_const this next l r s =
     (let rest = (case const_second UDiv l of
          Some (x, c) \<Rightarrow> call_right this UDiv x Mul c r s
        | None \<Rightarrow> createBinaryExpr next UDiv l r s)
      in case as_Concat l of
           Some (ce_l, ce_r) \<Rightarrow>
             if isZero ce_l \<and> getActiveBits r \<le> bits ce_r then do {
               (e, s) \<leftarrow> createExtract this r 0 (bits ce_r) s;
               (e, s) \<leftarrow> createBinaryExpr this UDiv ce_r e s;
               createConcat this ce_l e s }
             else rest
         | None \<Rightarrow> rest)"

definition symbolic_createUDiv :: "builder \<Rightarrow> builder \<Rightarrow> expr \<Rightarrow> expr \<Rightarrow> expr build" where
  "symbolic_createUDiv this next l r =
     (if \<not> isConstant l \<and> isConstant r then createUDiv_const this next l r
      else createBinaryExpr next UDiv l r)"

subsection \<open>Bitwise operations\<close>

text \<open>Two concatenations that are split at the same position.\<close>

definition same_split :: "expr \<Rightarrow> expr \<Rightarrow> (expr \<times> expr \<times> expr \<times> expr) option" where
  "same_split l r = (case (as_Concat l, as_Concat r) of
     (Some (x, y), Some (w, v)) \<Rightarrow> if bits x = bits w then Some (x, y, w, v) else None
   | _ \<Rightarrow> None)"

definition bitwise_nonconst :: "kind \<Rightarrow> builder \<Rightarrow> builder \<Rightarrow> expr \<Rightarrow> expr \<Rightarrow> expr build" where
  "bitwise_nonconst k this next l r s =
     (if l = r then Some (l, s)
      else (case same_split l r of
        Some (x, y, w, v) \<Rightarrow> do {
          (h, s) \<leftarrow> createBinaryExpr this k x w s;
          (g, s) \<leftarrow> createBinaryExpr this k y v s;
          createConcat this h g s }
      | None \<Rightarrow> createBinaryExpr next k l r s))"

definition symbolic_createAnd :: "builder \<Rightarrow> builder \<Rightarrow> expr \<Rightarrow> expr \<Rightarrow> expr build" where
  "symbolic_createAnd this next l r =
     (if isConstant r \<or> isConstant l then createBinaryExpr next And l r
      else bitwise_nonconst And this next l r)"

definition createOr_const :: "builder \<Rightarrow> builder \<Rightarrow> expr \<Rightarrow> expr \<Rightarrow> expr build" where
  "createOr_const this next l r s = (case as_Concat r of
     Some (x, y) \<Rightarrow> do {
       (e, s) \<leftarrow> createExtract this l (bits y) (bits x) s;
       (h, s) \<leftarrow> createBinaryExpr this Or e x s;
       (e, s) \<leftarrow> createExtract this l 0 (bits y) s;
       (g, s) \<leftarrow> createBinaryExpr this Or e y s;
       createConcat this h g s }
   | None \<Rightarrow> createBinaryExpr next Or l r s)"

definition symbolic_createOr :: "builder \<Rightarrow> builder \<Rightarrow> expr \<Rightarrow> expr \<Rightarrow> expr build" where
  "symbolic_createOr this next l r s = do {
     (e, s) \<leftarrow> simplifyExclusiveExpr this l r s;
     (case e of
        Some e \<Rightarrow> Some (e, s)
      | None \<Rightarrow>
        if isConstant r then createBinaryExpr next Or l r s
        else if isConstant l then createOr_const this next l r s
        else bitwise_nonconst Or this next l r s) }"

definition symbolic_createXor :: "builder \<Rightarrow> builder \<Rightarrow> expr \<Rightarrow> expr \<Rightarrow> expr build" where
  "symbolic_createXor this next l r =
     (if \<not> isConstant r \<and> \<not> isConstant l \<and> l = r then createConstant this 0 (bits l)
      else createBinaryExpr next Xor l r)"

subsection \<open>Comparisons and connectives\<close>

definition symbolic_createEqual :: "builder \<Rightarrow> builder \<Rightarrow> expr \<Rightarrow> expr \<Rightarrow> expr build" where
  "symbolic_createEqual this next l r =
     (if l = r then createTrue this else createBinaryExpr next Equal l r)"

definition symbolic_createDistinct :: "builder \<Rightarrow> expr \<Rightarrow> expr \<Rightarrow> expr build" where
  "symbolic_createDistinct this l r s = do {
     (e, s) \<leftarrow> createBinaryExpr this Equal l r s; createUnaryExpr this LNot e s }"

definition symbolic_createLOr :: "builder \<Rightarrow> builder \<Rightarrow> expr \<Rightarrow> expr \<Rightarrow> expr build" where
  "symbolic_createLOr this next l r s = (case as_Bool l of
     Some b \<Rightarrow> if b then createTrue this s else Some (r, s)
   | None \<Rightarrow> (case as_Bool r of
     Some b \<Rightarrow> if b then createTrue this s else Some (l, s)
   | None \<Rightarrow> createBinaryExpr next LOr l r s))"

definition symbolic_createLAnd :: "builder \<Rightarrow> builder \<Rightarrow> expr \<Rightarrow> expr \<Rightarrow> expr build" where
  "symbolic_createLAnd this next l r s = (case as_Bool l of
     Some b \<Rightarrow> if b then Some (r, s) else createFalse this s
   | None \<Rightarrow> (case as_Bool r of
     Some b \<Rightarrow> if b then Some (l, s) else createFalse this s
   | None \<Rightarrow> createBinaryExpr next LAnd l r s))"

definition symbolic_createLNot :: "builder \<Rightarrow> builder \<Rightarrow> expr \<Rightarrow> expr build" where
  "symbolic_createLNot this next e s = (case as_Bool e of
     Some b \<Rightarrow> createBool this (\<not> b) s
   | None \<Rightarrow> (case as_LNot e of
     Some x \<Rightarrow> Some (x, s)
   | None \<Rightarrow> createUnaryExpr next LNot e s))"

definition symbolic_createIte :: "builder \<Rightarrow> builder \<Rightarrow> expr \<Rightarrow> expr \<Rightarrow> expr \<Rightarrow> expr build" where
  "symbolic_createIte this next c t f s = (case as_Bool c of
     Some b \<Rightarrow> if b then Some (t, s) else Some (f, s)
   | None \<Rightarrow> (case as_LNot c of
     Some x \<Rightarrow> createIte this x f t s
   | None \<Rightarrow> createIte next c t f s))"

subsection \<open>The builder\<close>

definition symbolic_createBinaryExpr :: "builder \<Rightarrow> builder \<Rightarrow> kind \<Rightarrow> expr \<Rightarrow> expr \<Rightarrow> expr build" where
  "symbolic_createBinaryExpr this next k = (case k of
     Add \<Rightarrow> symbolic_createAdd this next
   | Sub \<Rightarrow> symbolic_createSub this next
   | Mul \<Rightarrow> symbolic_createMul this next
   | SDiv \<Rightarrow> symbolic_createSDiv this next
   | UDiv \<Rightarrow> symbolic_createUDiv this next
   | And \<Rightarrow> symbolic_createAnd this next
   | Or \<Rightarrow> symbolic_createOr this next
   | Xor \<Rightarrow> symbolic_createXor this next
   | Equal \<Rightarrow> symbolic_createEqual this next
   | Distinct \<Rightarrow> symbolic_createDistinct this
   | LOr \<Rightarrow> symbolic_createLOr this next
   | LAnd \<Rightarrow> symbolic_createLAnd this next
   | _ \<Rightarrow> createBinaryExpr next k)"

definition symbolic_createUnaryExpr :: "builder \<Rightarrow> builder \<Rightarrow> kind \<Rightarrow> expr \<Rightarrow> expr build" where
  "symbolic_createUnaryExpr this next k =
     (if k = LNot then symbolic_createLNot this next else createUnaryExpr next k)"

definition symbolic_layer :: "builder \<Rightarrow> builder \<Rightarrow> builder" where
  "symbolic_layer this next = next\<lparr>
     createConcat := symbolic_createConcat this next,
     createExtract := symbolic_createExtract this next,
     createUnaryExpr := symbolic_createUnaryExpr this next,
     createBinaryExpr := symbolic_createBinaryExpr this next,
     createIte := symbolic_createIte this next\<rparr>"

text \<open>The builder calls itself to a bounded depth, like \<open>common_builder\<close>.\<close>

fun symbolic_builder :: "nat \<Rightarrow> builder \<Rightarrow> builder" where
  "symbolic_builder 0 next = no_builder"
| "symbolic_builder (Suc n) next = symbolic_layer (symbolic_builder n next) next"

end
