(* ===== verification/SymbolicSound.thy ===== *)
theory SymbolicSound
  imports Symbolic
begin

section \<open>The symbolic simplifications keep the meaning\<close>

text \<open>
  Each method of \<open>SymbolicExprBuilder\<close> meets the contract of a builder when the builder it calls
  itself on and the one below do. Quotients are outside: their rewritings are not equivalences
  (see \<open>BuilderStacks\<close>), so the last step is stated without \<open>dv\<close>.
\<close>

subsection \<open>Lists of pieces\<close>

text \<open>The width and the value of a list of expressions, the most significant first.\<close>

fun cat_val :: "bool \<Rightarrow> assignment \<Rightarrow> expr list \<Rightarrow> (nat \<times> int) option" where
  "cat_val dv \<rho> [] = Some (0, 0)"
| "cat_val dv \<rho> (e # es) = (case (den dv \<rho> e, cat_val dv \<rho> es) of
     (Some (BV n a), Some (m, b)) \<Rightarrow> Some (n + m, bv_concat m a b)
   | _ \<Rightarrow> None)"

lemma bv_concat_0_right [simp]: "bv_concat 0 a 0 = a"
  by (rule bit_eqI) (simp add: bit_simps)

lemma cat_val_Cons:
  "cat_val dv \<rho> (e # es) = Some (k, c) \<longleftrightarrow> (\<exists>n a m b. den dv \<rho> e = Some (BV n a) \<and>
     cat_val dv \<rho> es = Some (m, b) \<and> k = n + m \<and> c = bv_concat m a b)"
  by (auto split: option.splits dval.splits)

context sound_builder
begin

lemma concat_loop_law:
  "I s \<Longrightarrow> den dv \<rho> e = Some (BV n a) \<Longrightarrow> cat_val dv \<rho> es = Some (m, b) \<Longrightarrow>
   runs t I (createConcat_loop B e es s) (\<lambda>x. den dv \<rho> x = Some (BV (n + m) (bv_concat m a b)))"
proof (induction es arbitrary: e n a m b s)
  case Nil
  then show ?case
    by simp
next
  case (Cons f es)
  then obtain k c m' b' where f: "den dv \<rho> f = Some (BV k c)" "cat_val dv \<rho> es = Some (m', b')"
    "m = k + m'" "b = bv_concat m' c b'"
    by (auto simp: cat_val_Cons simp del: cat_val.simps)
  show ?case
    unfolding createConcat_loop.simps
  proof (rule runs_bind_pair [OF concat_bv [OF Cons.prems(1,2) f(1)]])
    fix g s'
    assume "den dv \<rho> g = Some (BV (n + k) (bv_concat k a c))" "I s'"
    from Cons.IH [OF this(2,1) f(2)]
    show "runs t I (createConcat_loop B g es s') (\<lambda>x. den dv \<rho> x = Some (BV (n + m) (bv_concat m a b)))"
      using f(3,4) concat_concat [of m' k a c b'] by (simp add: add.assoc)
  qed
qed

lemma concat_list_law:
  assumes "I s" and "cat_val dv \<rho> es = Some (n, a)" and "0 < n"
  shows "runs t I (createConcat_list B es s) (\<lambda>x. den dv \<rho> x = Some (BV n a))"
proof (cases es)
  case Nil
  with assms show ?thesis
    by simp
next
  case (Cons e es')
  with assms show ?thesis
    by (auto simp: cat_val_Cons simp del: cat_val.simps intro: concat_loop_law)
qed

end

subsection \<open>Operands without common bits\<close>

lemma zero_run_bounds: "i \<le> zero_run e n i \<and> (i \<le> n \<longrightarrow> zero_run e n i \<le> n)"
proof (induction e n i rule: zero_run.induct)
  case (1 e n i)
  then show ?case
    by (subst (1 2) zero_run.simps) auto
qed

lemma zero_run_zero: "i \<le> j \<Longrightarrow> j < zero_run e n i \<Longrightarrow> isZeroBit e j"
proof (induction e n i rule: zero_run.induct)
  case (1 e n i)
  show ?case
  proof (cases "i < n \<and> isZeroBit e i")
    case True
    then have "zero_run e n i = zero_run e n (i + 1)"
      by (subst zero_run.simps) simp
    with 1 True show ?thesis
      by (cases "i = j") auto
  next
    case False
    then have "zero_run e n i = i"
      by (subst zero_run.simps) auto
    with 1 show ?thesis
      by simp
  qed
qed

lemma zero_run_progress: "i < n \<Longrightarrow> isZeroBit e i \<Longrightarrow> i < zero_run e n i"
  using zero_run_bounds [of "i + 1" e n] by (subst zero_run.simps) simp

lemma exclusive_iff: "exclusive l r \<longleftrightarrow> (\<forall>i < bits l. isZeroBit l i \<or> isZeroBit r i)"
  by (auto simp: exclusive_def list_all_iff)

text \<open>One piece more: the bits from \<open>i\<close> to \<open>j\<close> in front of the bits below \<open>i\<close>.\<close>

lemma cat_val_piece:
  assumes "cat_val dv \<rho> es = Some (i, take_bit i w)"
    and "den dv \<rho> e = Some (BV (j - i) (bv_extract i (j - i) w))" and "i \<le> j"
  shows "cat_val dv \<rho> (e # es) = Some (j, take_bit j w)"
  using assms concat_extract_low [of i w "take_bit i w" "j - i"]
  by (simp add: bv_extract_def)

lemma piece_of_or:
  assumes "\<And>k. i \<le> k \<Longrightarrow> k < j \<Longrightarrow> \<not> bit x k"
  shows "bv_extract i (j - i) y = bv_extract i (j - i) (or x y)"
    and "bv_extract i (j - i) y = bv_extract i (j - i) (or y x)"
proof -
  have "\<not> bit x (i + k)" if "k < j - i" for k
    using that assms [of "i + k"] by simp
  then show "bv_extract i (j - i) y = bv_extract i (j - i) (or x y)"
    "bv_extract i (j - i) y = bv_extract i (j - i) (or y x)"
    by (auto simp: bit_eq_iff bit_simps)
qed

context sound_builder
begin

text \<open>Half a round: the bits where one operand is zero are taken from the other.\<close>

lemma exclusive_half:
  assumes "I s" and l: "den dv \<rho> l = Some (BV n x)" and r: "den dv \<rho> r = Some (BV n y)"
    and w: "w = or x y \<or> w = or y x" and i: "i \<le> n" and c: "cat_val dv \<rho> es = Some (i, take_bit i w)"
  shows "runs t I (if zero_run l n i \<noteq> i
      then do { (e, s) \<leftarrow> createExtract B r i (zero_run l n i - i) s; Some (e # es, s) }
      else Some (es, s)) (\<lambda>es. cat_val dv \<rho> es = Some (zero_run l n i, take_bit (zero_run l n i) w))"
proof (cases "zero_run l n i = i")
  case True
  with assms show ?thesis
    by simp
next
  case False
  let ?j = "zero_run l n i"
  have j: "i < ?j" "?j \<le> n"
    using False zero_run_bounds [of i l n] i by auto
  have "\<not> bit x k" if "i \<le> k" "k < ?j" for k
    using zero_run_zero [OF that] isZeroBit_sound l by blast
  then have p: "bv_extract i (?j - i) y = bv_extract i (?j - i) w"
    using piece_of_or [of i ?j x y] w by auto
  have "runs t I (do { (e, s) \<leftarrow> createExtract B r i (?j - i) s; Some (e # es, s) })
      (\<lambda>es. cat_val dv \<rho> es = Some (?j, take_bit ?j w))"
  proof (rule runs_bind_pair [OF extract_bv [OF assms(1) r]])
    show "0 < ?j - i" "i + (?j - i) \<le> n"
      using j by simp_all
    fix e s'
    assume "den dv \<rho> e = Some (BV (?j - i) (bv_extract i (?j - i) y))" "I s'"
    with cat_val_piece [OF c] p j(1)
    show "runs t I (Some (e # es, s')) (\<lambda>es. cat_val dv \<rho> es = Some (?j, take_bit ?j w))"
      by simp
  qed
  with False show ?thesis
    by simp
qed

lemma exclusive_loop_law:
  assumes l: "den dv \<rho> l = Some (BV n x)" and r: "den dv \<rho> r = Some (BV n y)"
    and ex: "\<And>i. i < n \<Longrightarrow> isZeroBit l i \<or> isZeroBit r i"
  shows "I s \<Longrightarrow> i \<le> n \<Longrightarrow> n - i \<le> fuel \<Longrightarrow> cat_val dv \<rho> es = Some (i, take_bit i (or x y)) \<Longrightarrow>
    runs t I (exclusive_loop B l r fuel i es s) (\<lambda>es. cat_val dv \<rho> es = Some (n, take_bit n (or x y)))"
proof (induction fuel arbitrary: i es s)
  case 0
  then show ?case
    using den_BV [OF l] by (simp add: exclusive_loop.simps)
next
  case (Suc fuel)
  have b: "bits l = n" "bits r = n"
    using den_BV [OF l] den_BV [OF r] by simp_all
  show ?case
  proof (cases "i < n")
    case False
    with Suc.prems b show ?thesis
      by (simp add: exclusive_loop.simps)
  next
    case True
    let ?i = "zero_run l n i"
    let ?j = "zero_run r n ?i"
    have le: "i \<le> ?i" "?i \<le> n" "?i \<le> ?j" "?j \<le> n"
      using zero_run_bounds [of i l n] zero_run_bounds [of ?i r n] True by auto
    have "i < ?j"
    proof (cases "isZeroBit l i")
      case False
      then have "?i = i"
        by (simp add: zero_run.simps)
      with False ex [OF True] zero_run_progress [OF True, of r] show ?thesis
        by simp
    qed (use zero_run_progress [OF True, of l] le in simp)
    then have fuel: "n - ?j \<le> fuel"
      using Suc.prems(3) le by simp
    have "runs t I (exclusive_loop B l r (Suc fuel) i es s)
        (\<lambda>es. cat_val dv \<rho> es = Some (n, take_bit n (or x y)))"
      unfolding exclusive_loop.simps [of B l r "Suc fuel"] b Let_def nat.case
      by (simp only: True if_True,
          rule runs_bind_pair [OF exclusive_half [where w = "or x y", OF Suc.prems(1) l r _ Suc.prems(2,4)]],
          simp,
          rule runs_bind_pair [OF exclusive_half [where w = "or x y", OF _ r l _ le(2)]],
          assumption, simp, assumption, rule Suc.IH [OF _ le(4) fuel])
    then show ?thesis .
  qed
qed

lemma exclusive_law:
  assumes s: "I s" and l: "den dv \<rho> l = Some (BV n x)" and r: "den dv \<rho> r = Some (BV n y)"
  shows "runs t I (simplifyExclusiveExpr B l r s)
    (\<lambda>o'. \<forall>e. o' = Some e \<longrightarrow> den dv \<rho> e = Some (BV n (or x y)) \<and> take_bit n (x + y) = or x y)"
proof (cases "exclusive l r")
  case False
  with s show ?thesis
    by (simp add: simplifyExclusiveExpr_def)
next
  case True
  have b: "bits l = n" "0 < n" "in_range n x" "in_range n y"
    using den_BV [OF l] den_BV [OF r] by simp_all
  have ex: "isZeroBit l i \<or> isZeroBit r i" if "i < n" for i
    using True that b by (simp add: exclusive_iff)
  have "\<not> bit x i \<or> \<not> bit y i" for i
    using ex [of i] isZeroBit_sound [OF _ l] isZeroBit_sound [OF _ r] in_range_bit b by blast
  then have "and x y = 0"
    by (auto simp: bit_eq_iff bit_simps)
  then have sum: "x + y = or x y"
    by (rule disjunctive_add_eq_or)
  have or: "take_bit n (or x y) = or x y"
    using in_range_or [OF b(3,4)] by (simp only: in_range_take_bit)
  have "runs t I (do {
      (exprs, s) \<leftarrow> exclusive_loop B l r n 0 [] s;
      (e, s) \<leftarrow> createConcat_list B exprs s;
      Some (Some e, s) }) (\<lambda>o'. o' \<noteq> None \<and> (\<forall>e. o' = Some e \<longrightarrow> den dv \<rho> e = Some (BV n (or x y))))"
    using b or by (auto intro!: runs_bind_pair [OF exclusive_loop_law [OF l r ex s]]
        runs_bind_pair [OF concat_list_law])
  with True b sum or show ?thesis
    by (auto simp: simplifyExclusiveExpr_def elim: runs_mono)
qed

end

subsection \<open>Nested calls\<close>

text \<open>The kinds of ring operations, and their value.\<close>

fun ring_op :: "kind \<Rightarrow> int \<Rightarrow> int \<Rightarrow> int" where
  "ring_op Add x y = x + y"
| "ring_op Sub x y = x - y"
| "ring_op Mul x y = x * y"
| "ring_op _ x y = 0"

definition ring_kind :: "kind \<Rightarrow> bool" where
  "ring_kind k \<longleftrightarrow> k = Add \<or> k = Sub \<or> k = Mul"

lemma ring_kind_simps [simp]: "ring_kind Add" "ring_kind Sub" "ring_kind Mul"
  by (simp_all add: ring_kind_def)

lemma ring_arith: "ring_kind k \<Longrightarrow> bv_arith k n x y = Some (take_bit n (ring_op k x y))"
  by (auto simp: ring_kind_def)

lemma ring_sem: "ring_kind k \<Longrightarrow> \<not> compareKind k \<and> bool_connect k p q = None \<and> k \<noteq> UDiv \<and> k \<noteq> SDiv"
  by (auto simp: ring_kind_def compareKind_def)

lemma den_as_Binary:
  assumes "as_Binary k e = Some (x, y)" and "den dv \<rho> e = Some (BV n z)" and "ring_kind k"
  shows "\<exists>a b. den dv \<rho> x = Some (BV n a) \<and> den dv \<rho> y = Some (BV n b) \<and> z = take_bit n (ring_op k a b)"
proof -
  from assms(1) obtain i where e: "e = BinaryExpr i k x y"
    by (cases e) (auto split: if_splits)
  with assms(2) obtain a b where ab: "den dv \<rho> x = Some a" "den dv \<rho> y = Some b"
    "sem_binary dv k a b = Some (BV n z)"
    by (auto simp: bind_eq_Some_conv)
  then show ?thesis
    using ring_sem [OF assms(3), of True True] ring_arith [OF assms(3)]
    by (cases a; cases b) (auto split: if_splits simp: ring_sem [OF assms(3)])
qed

lemma den_const_first:
  "const_first k e = Some (x, y) \<Longrightarrow> den dv \<rho> e = Some (BV n z) \<Longrightarrow> ring_kind k \<Longrightarrow>
   \<exists>a b. den dv \<rho> x = Some (BV n a) \<and> den dv \<rho> y = Some (BV n b) \<and> z = take_bit n (ring_op k a b)"
  by (rule den_as_Binary) (auto simp: const_first_def split: option.splits if_splits)

lemma den_const_second:
  "const_second k e = Some (x, y) \<Longrightarrow> den dv \<rho> e = Some (BV n z) \<Longrightarrow> ring_kind k \<Longrightarrow>
   \<exists>a b. den dv \<rho> x = Some (BV n a) \<and> den dv \<rho> y = Some (BV n b) \<and> z = take_bit n (ring_op k a b)"
  by (rule den_as_Binary) (auto simp: const_second_def split: option.splits if_splits)

context sound_builder
begin

lemma runs_den:
  "runs t I m (\<lambda>e. den dv \<rho> e = Some u) \<Longrightarrow> u = v \<Longrightarrow> runs t I m (\<lambda>e. den dv \<rho> e = Some v)"
  by simp

lemma runs_value:
  "runs t I m (\<lambda>e. den dv \<rho> e = Some (BV n u)) \<Longrightarrow> u = v \<Longrightarrow>
   runs t I m (\<lambda>e. den dv \<rho> e = Some (BV n v))"
  by simp

lemma ring_law:
  assumes "I s" "den dv \<rho> l = Some (BV n x)" "den dv \<rho> r = Some (BV n y)" "ring_kind k"
  shows "runs t I (createBinaryExpr B k l r s) (\<lambda>e. den dv \<rho> e = Some (BV n (take_bit n (ring_op k x y))))"
  using assms ring_sem [OF assms(4)] by (intro arith_bv) (simp_all add: ring_arith)

lemma call_left_law:
  assumes "I s" "den dv \<rho> a = Some (BV n x)" "den dv \<rho> b = Some (BV n y)" "den dv \<rho> c = Some (BV n z)"
    "ring_kind k1" "ring_kind k2"
  shows "runs t I (call_left B k2 k1 a b c s) (\<lambda>e. den dv \<rho> e =
    Some (BV n (take_bit n (ring_op k2 (take_bit n (ring_op k1 x y)) z))))"
  unfolding call_left_def
  by (rule runs_bind_pair [OF ring_law [OF assms(1,2,3,5)]]) (rule ring_law [OF _ _ assms(4,6)])

lemma call_right_law:
  assumes "I s" "den dv \<rho> a = Some (BV n x)" "den dv \<rho> b = Some (BV n y)" "den dv \<rho> c = Some (BV n z)"
    "ring_kind k1" "ring_kind k2"
  shows "runs t I (call_right B k2 c k1 a b s) (\<lambda>e. den dv \<rho> e =
    Some (BV n (take_bit n (ring_op k2 z (take_bit n (ring_op k1 x y))))))"
  unfolding call_right_def
  by (rule runs_bind_pair [OF ring_law [OF assms(1,2,3,5)]]) (rule ring_law [OF _ assms(4) _ assms(6)])

lemma call_neg_law:
  assumes "I s" "den dv \<rho> a = Some (BV n x)" "den dv \<rho> b = Some (BV n y)" "den dv \<rho> c = Some (BV n z)"
    "ring_kind k1" "ring_kind k2"
  shows "runs t I (call_neg B k2 c k1 a b s) (\<lambda>e. den dv \<rho> e =
    Some (BV n (take_bit n (ring_op k2 (take_bit n (- z)) (take_bit n (ring_op k1 x y))))))"
  unfolding call_neg_def
  by (rule runs_bind_pair [OF neg_bv [OF assms(1,4)]],
      rule runs_bind_pair [OF ring_law [OF _ assms(2,3,5)]], assumption)
    (rule ring_law [OF _ _ _ assms(6)])

lemma call_both_law:
  assumes "I s" "den dv \<rho> a = Some (BV n x)" "den dv \<rho> b = Some (BV n y)" "den dv \<rho> c = Some (BV n z)"
    "den dv \<rho> d = Some (BV n w)" "ring_kind k1" "ring_kind k1'" "ring_kind k2"
  shows "runs t I (call_both B k2 k1 a b k1' c d s) (\<lambda>e. den dv \<rho> e =
    Some (BV n (take_bit n (ring_op k2 (take_bit n (ring_op k1 x y)) (take_bit n (ring_op k1' z w))))))"
  unfolding call_both_def
  by (rule runs_bind_pair [OF ring_law [OF assms(1-3,6)]],
      rule runs_bind_pair [OF ring_law [OF _ assms(4,5,7)]], assumption)
    (rule ring_law [OF _ _ _ assms(8)])

end

subsection \<open>Sums and differences\<close>

context layer
begin

text \<open>One rule after the other: a rule that fits and keeps the value, or the rest.\<close>

lemma first_rule:
  assumes "I s" and r: "den dv \<rho> r = Some (BV n y)" and k: "ring_kind k"
    and rule: "\<And>c x a b. den dv \<rho> c = Some (BV n a) \<Longrightarrow> den dv \<rho> x = Some (BV n b) \<Longrightarrow>
      y = take_bit n (ring_op k a b) \<Longrightarrow> runs t I (f c x s) P"
    and rest: "runs t I (m s) P"
  shows "runs t I ((case const_first k r of Some (c, x) \<Rightarrow> f c x | None \<Rightarrow> m) s) P"
proof (cases "const_first k r")
  case (Some p)
  then show ?thesis
    using den_const_first [OF _ r k] rule by (cases p) auto
qed (simp add: rest)

lemma second_rule:
  assumes "I s" and r: "den dv \<rho> r = Some (BV n y)" and k: "ring_kind k"
    and rule: "\<And>c x a b. den dv \<rho> c = Some (BV n a) \<Longrightarrow> den dv \<rho> x = Some (BV n b) \<Longrightarrow>
      y = take_bit n (ring_op k a b) \<Longrightarrow> runs t I (f c x s) P"
    and rest: "runs t I (m s) P"
  shows "runs t I ((case const_second k r of Some (c, x) \<Rightarrow> f c x | None \<Rightarrow> m) s) P"
proof (cases "const_second k r")
  case (Some p)
  then show ?thesis
    using den_const_second [OF _ r k] rule by (cases p) auto
qed (simp add: rest)

lemma createAdd_const_law:
  assumes s: "I s" and l: "den dv \<rho> l = Some (BV n x)" and r: "den dv \<rho> r = Some (BV n y)"
  shows "runs t I (createAdd_const this nxt l r s) (\<lambda>e. den dv \<rho> e = Some (BV n (take_bit n (x + y))))"
  unfolding createAdd_const_def
  by (intro first_rule [OF s r] second_rule [OF s r] ring_kind_simps below.add_bv [OF s l r]
      self.runs_value [OF self.call_left_law [OF s l]]; (assumption)?)
    ((simp_all only: ring_op.simps modular)?, (simp_all add: algebra_simps)?)

lemma createAdd_nonconst_law:
  assumes s: "I s" and l: "den dv \<rho> l = Some (BV n x)" and r: "den dv \<rho> r = Some (BV n y)"
  shows "runs t I (createAdd_nonconst this nxt l r s) (\<lambda>e. den dv \<rho> e = Some (BV n (take_bit n (x + y))))"
proof (cases "l = r")
  case True
  have "runs t I (createConstant this 2 n s) (\<lambda>e. den dv \<rho> e = Some (BV n (take_bit n (int 2))))"
    using den_BV [OF l] by (intro self.const_law [OF s]) simp
  then have "runs t I (do { (two, s) \<leftarrow> createConstant this 2 n s; createBinaryExpr this Mul two l s })
      (\<lambda>e. den dv \<rho> e = Some (BV n (take_bit n (take_bit n (int 2) * x))))"
    by (rule runs_bind_pair) (rule self.mul_bv [OF _ _ l refl])
  moreover have "take_bit n (take_bit n (int 2) * x) = take_bit n (x + y)"
    unfolding modular(5) using l r True by simp
  ultimately have "runs t I (do { (two, s) \<leftarrow> createConstant this 2 (bits l) s;
      createBinaryExpr this Mul two l s }) (\<lambda>e. den dv \<rho> e = Some (BV n (take_bit n (x + y))))"
    using den_BV [OF l] by (simp only:)
  then show ?thesis
    unfolding createAdd_nonconst_def if_P [OF True] .
next
  case False
  have *: "runs t I ((case const_first Add r of
           Some (c, y) \<Rightarrow> call_right this Add c Add l y
         | None \<Rightarrow> (case const_second Add r of
           Some (y, c) \<Rightarrow> call_right this Add c Add l y
         | None \<Rightarrow> (case const_first Sub r of
           Some (c, y) \<Rightarrow> call_right this Add c Sub l y
         | None \<Rightarrow> (case const_second Sub r of
           Some (y, c) \<Rightarrow> call_neg this Add c Add l y
         | None \<Rightarrow> createBinaryExpr nxt Add l r)))) s)
       (\<lambda>e. den dv \<rho> e = Some (BV n (take_bit n (x + y))))"
    if l: "den dv \<rho> l = Some (BV n x)" and r: "den dv \<rho> r = Some (BV n y)" for l r x y
    by (intro first_rule [OF s r] second_rule [OF s r] ring_kind_simps below.add_bv [OF s l r]
        self.runs_value [OF self.call_right_law [OF s l]]
        self.runs_value [OF self.call_neg_law [OF s l]];
        (assumption)?)
    ((simp_all only: ring_op.simps modular)?, (simp_all add: algebra_simps)?)
  show ?thesis
  proof (cases "kind_of l = Add \<or> kind_of l = Sub")
    case True
    show ?thesis
      unfolding createAdd_nonconst_def if_not_P [OF False] if_P [OF True] Let_def prod.case
      by (rule *[OF r l, unfolded add.commute [of y x]])
  next
    case swap: False
    show ?thesis
      unfolding createAdd_nonconst_def if_not_P [OF False] if_not_P [OF swap] Let_def prod.case
      by (rule *[OF l r])
  qed
qed

lemma symbolic_add:
  assumes s: "I s" and l: "den dv \<rho> l = Some a" and r: "den dv \<rho> r = Some b"
    and c: "sem_binary dv Add a b = Some c"
  shows "runs t I (symbolic_createAdd this nxt l r s) (\<lambda>e. den dv \<rho> e = Some c)"
proof -
  obtain n x y where abc: "a = BV n x" "b = BV n y" "c = BV n (take_bit n (x + y))"
    using c by (rule sem_arithE) (simp_all add: compareKind_def)
  note l' = l [unfolded abc(1)] and r' = r [unfolded abc(2)]
  show ?thesis
    unfolding symbolic_createAdd_def abc(3)
    by (rule runs_bind_pair [OF self.exclusive_law [OF s l' r']])
      (auto split: option.splits intro: below.add_bv [OF _ l' r'] createAdd_const_law [OF _ l' r']
        createAdd_nonconst_law [OF _ l' r'])
qed

lemma createSub_const_law:
  assumes s: "I s" and l: "den dv \<rho> l = Some (BV n x)" and r: "den dv \<rho> r = Some (BV n y)"
  shows "runs t I (createSub_const this nxt l r s) (\<lambda>e. den dv \<rho> e = Some (BV n (take_bit n (x - y))))"
  unfolding createSub_const_def
  by (intro first_rule [OF s r] second_rule [OF s r] ring_kind_simps below.sub_bv [OF s l r]
      self.runs_value [OF self.call_left_law [OF s l]];
      (assumption)?)
    ((simp_all only: ring_op.simps modular)?, (simp_all add: algebra_simps)?)

lemma createSub_nonconst_law:
  assumes s: "I s" and l: "den dv \<rho> l = Some (BV n x)" and r: "den dv \<rho> r = Some (BV n y)"
  shows "runs t I (createSub_nonconst this nxt l r s) (\<lambda>e. den dv \<rho> e = Some (BV n (take_bit n (x - y))))"
proof (cases "l = r")
  case True
  with l r den_BV [OF l] self.const_0 [OF s] show ?thesis
    by (simp add: createSub_nonconst_def)
next
  case False
  then show ?thesis
    unfolding createSub_nonconst_def if_not_P [OF False]
    by (intro first_rule [OF s l] first_rule [OF s r] second_rule [OF s r] ring_kind_simps
        below.sub_bv [OF s l r]
        self.runs_value [OF self.call_right_law [OF s l]]
        self.runs_value [OF self.call_right_law [OF s _ r]]
        self.runs_value [OF self.call_neg_law [OF s l]];
        (assumption)?)
    ((simp_all only: ring_op.simps modular)?, (simp_all add: algebra_simps)?)
qed

lemma symbolic_sub:
  assumes s: "I s" and l: "den dv \<rho> l = Some a" and r: "den dv \<rho> r = Some b"
    and c: "sem_binary dv Sub a b = Some c"
  shows "runs t I (symbolic_createSub this nxt l r s) (\<lambda>e. den dv \<rho> e = Some c)"
proof -
  obtain n x y where abc: "a = BV n x" "b = BV n y" "c = BV n (take_bit n (x - y))"
    using c by (rule sem_arithE) (simp_all add: compareKind_def)
  note l' = l [unfolded abc(1)] and r' = r [unfolded abc(2)]
  show ?thesis
    unfolding symbolic_createSub_def abc(3)
    using below.sub_bv [OF s l' r'] createSub_const_law [OF s l' r'] createSub_nonconst_law [OF s l' r']
    by simp
qed

lemma symbolic_mul:
  assumes s: "I s" and l: "den dv \<rho> l = Some a" and r: "den dv \<rho> r = Some b"
    and c: "sem_binary dv Mul a b = Some c"
  shows "runs t I (symbolic_createMul this nxt l r s) (\<lambda>e. den dv \<rho> e = Some c)"
proof -
  obtain n x y where abc: "a = BV n x" "b = BV n y" "c = BV n (take_bit n (x * y))"
    using c by (rule sem_arithE) (simp_all add: compareKind_def)
  note l' = l [unfolded abc(1)] and r' = r [unfolded abc(2)]
  have "runs t I ((case const_first Mul r of
           Some (c, x) \<Rightarrow> call_left this Mul Mul l c x
         | None \<Rightarrow> (case const_first Add r of
           Some (c, x) \<Rightarrow> call_both this Add Mul l c Mul l x
         | None \<Rightarrow> createBinaryExpr nxt Mul l r)) s) (\<lambda>e. den dv \<rho> e = Some (BV n (take_bit n (x * y))))"
    by (intro first_rule [OF s r'] ring_kind_simps below.mul_bv [OF s l' r']
        self.runs_value [OF self.call_left_law [OF s l']]
        self.runs_value [OF self.call_both_law [OF s l' _ l']];
        (assumption)?)
    ((simp_all only: ring_op.simps modular)?, (simp_all add: algebra_simps)?)
  with below.mul_bv [OF s l' r'] show ?thesis
    unfolding symbolic_createMul_def abc(3) by simp
qed

end

subsection \<open>Concatenation and extraction\<close>

text \<open>When an operation may be computed in fewer bits, its operands fit into them.\<close>

lemma truncated_operands:
  assumes "canEvaluateTruncated (BinaryExpr i k l r) n 0" and "k = UDiv \<or> k = URem"
    and l: "den dv \<rho> l = Some (BV m x)" and r: "den dv \<rho> r = Some (BV m y)" and "n \<le> m"
  shows "in_range n x \<and> in_range n y"
proof -
  have "bits (BinaryExpr i k l r) = m"
    using den_BV [OF l] assms(2) by (auto simp: compareKind_def)
  then have "m - n \<le> countLeadingZeros l" "m - n \<le> countLeadingZeros r"
    using assms(1,2) by (auto simp: Let_def split: if_splits)
  then have "m - countLeadingZeros l \<le> n" "m - countLeadingZeros r \<le> n"
    using assms(5) by linarith+
  then show ?thesis
    using countLeadingZeros_sound [OF l] countLeadingZeros_sound [OF r] in_range_mono by blast
qed

context layer
begin

lemma symbolic_concat:
  assumes s: "I s" and l: "den dv \<rho> l = Some a" and r: "den dv \<rho> r = Some b"
    and c: "sem_concat a b = Some c"
  shows "runs t I (symbolic_createConcat this nxt l r s) (\<lambda>e. den dv \<rho> e = Some c)"
proof -
  obtain n x m y where abc: "a = BV n x" "b = BV m y" "c = BV (n + m) (bv_concat m x y)"
    using c by (cases a; cases b) auto
  note l' = l [unfolded abc(1)] and r' = r [unfolded abc(2)]
  have left: "runs t I (do { (fr, s) \<leftarrow> createConcat this f r s; createConcat this e fr s })
      (\<lambda>e. den dv \<rho> e = Some c)" if "as_Concat l = Some (e, f)" for e f
  proof -
    from den_asConcatE [OF l' that] obtain n1 x1 m1 y1 where d: "den dv \<rho> e = Some (BV n1 x1)"
      "den dv \<rho> f = Some (BV m1 y1)" "x = bv_concat m1 x1 y1" "n = n1 + m1"
      by (metis dval.inject(2))
    show ?thesis
      using self.concat_bv [OF _ d(1)] concat_concat [of m m1 x1 y1 y] d abc
      by (intro runs_bind_pair [OF self.concat_bv [OF s d(2) r']]) (simp add: add.assoc)
  qed
  have right: "runs t I (do { (le, s) \<leftarrow> createConcat this l e s; createConcat this le f s })
      (\<lambda>e. den dv \<rho> e = Some c)" if "as_Concat r = Some (e, f)" for e f
  proof -
    from den_asConcatE [OF r' that] obtain n1 x1 m1 y1 where d: "den dv \<rho> e = Some (BV n1 x1)"
      "den dv \<rho> f = Some (BV m1 y1)" "y = bv_concat m1 x1 y1" "m = n1 + m1"
      by (metis dval.inject(2))
    show ?thesis
      by (intro runs_bind_pair [OF self.concat_bv [OF s l' d(1)]]
          self.runs_den [OF self.concat_bv [OF _ _ d(2)]]; (assumption)?)
        (simp only: concat_concat d abc add.assoc add.commute [of m1 n1])
  qed
  show ?thesis
    using left right below.concat_law [OF s l r c]
    by (simp add: symbolic_createConcat_def Let_def split: option.splits)
qed

lemma evaluateInDifferentType_law:
  assumes s: "I s" and op: "den dv \<rho> op = Some (BV m v)" and n: "0 < n" "n \<le> m"
    and trunc: "canEvaluateTruncated op n 0"
  shows "runs t I (evaluateInDifferentType this op 0 n s)
    (\<lambda>o'. \<forall>e. o' = Some e \<longrightarrow> den dv \<rho> e = Some (BV n (take_bit n v)))"
proof (cases "is_BinaryExpr op \<and> kind_of op \<in> {Mul, UDiv, URem}")
  case False
  with s show ?thesis
    by (cases op) (auto simp: evaluateInDifferentType_def)
next
  case True
  then obtain i k l r where o': "op = BinaryExpr i k l r" and k: "k \<in> {Mul, UDiv, URem}"
    by (cases op) auto
  from op o' obtain a b where ab: "den dv \<rho> l = Some a" "den dv \<rho> r = Some b"
    "sem_binary dv k a b = Some (BV m v)"
    by (auto simp: bind_eq_Some_conv)
  have "bool_connect k True True = None" "\<not> compareKind k"
    using k by (auto simp: compareKind_def)
  then obtain x y where xy: "a = BV m x" "b = BV m y" "bv_arith k m x y = Some v"
    "k = UDiv \<or> k = SDiv \<Longrightarrow> dv"
    using ab(3) by (elim sem_arithE) auto
  note l = ab(1) [unfolded xy(1)] and r = ab(2) [unfolded xy(2)]
  have small: "bv_arith k n (take_bit n x) (take_bit n y) = Some (take_bit n v)"
  proof (cases "k = Mul")
    case True
    with xy(3) have "v = take_bit m (x * y)"
      by simp
    with True n show ?thesis
      by (simp add: modular min_def)
  next
    case False
    with k have k': "k = UDiv \<or> k = URem"
      by auto
    have xy': "in_range n x" "in_range n y"
      using truncated_operands [OF trunc [unfolded o'] k' l r n(2)] by simp_all
    then have "in_range n v"
      using bv_arith_range [of k n x y v] xy(3) k' by auto
    with xy' xy(3) k' show ?thesis
      by (auto simp: in_range_take_bit split: if_splits)
  qed
  have extracted: "runs t I (createExtract this l 0 n s) (\<lambda>e. den dv \<rho> e = Some (BV n (take_bit n x)))"
    "runs t I (createExtract this r 0 n s) (\<lambda>e. den dv \<rho> e = Some (BV n (take_bit n y)))"
    if "I s" for s
    using self.extract_bv [OF that l n(1), of 0] self.extract_bv [OF that r n(1), of 0] n
    by (simp_all add: bv_extract_def)
  show ?thesis
    unfolding evaluateInDifferentType_def o' expr.case if_P [OF k]
    using k xy(4) small
    by (intro runs_bind_pair [OF extracted(1)] runs_bind_pair [OF extracted(2)]
        runs_bind_pair [OF self.arith_bv [where c = "take_bit n v"]] s)
      (auto simp: compareKind_def)
qed

lemma symbolic_extract:
  assumes s: "I s" and e: "den dv \<rho> e = Some a" and c: "sem_extract i n a = Some c"
  shows "runs t I (symbolic_createExtract this nxt e i n s) (\<lambda>x. den dv \<rho> x = Some c)"
proof -
  obtain m v where a: "a = BV m v" and n: "0 < n" "i + n \<le> m" and c': "c = BV n (bv_extract i n v)"
    using c by (cases a) (auto split: if_splits)
  have below: "runs t I (createExtract nxt e i n s') (\<lambda>x. den dv \<rho> x = Some c)" if "I s'" for s'
    using below.extract_law [OF that e c] .
  show ?thesis
  proof (cases "i = 0 \<and> n mod 8 = 0 \<and> canEvaluateTruncated e n 0")
    case False
    show ?thesis
      unfolding symbolic_createExtract_def if_not_P [OF False] by (rule below [OF s])
  next
    case True
    have "c = BV n (take_bit n v)"
      using c' True by (simp add: bv_extract_def)
    then show ?thesis
      unfolding symbolic_createExtract_def if_P [OF True]
      unfolding conjunct1 [OF True]
      using True n below
      by (intro runs_bind_pair [OF evaluateInDifferentType_law [OF s e [unfolded a]]])
        (auto split: option.splits)
  qed
qed

end

subsection \<open>Bitwise operations and connectives\<close>

context layer
begin

lemma bitwise_nonconst_law:
  assumes k: "k = And \<or> k = Or" and s: "I s" and l: "den dv \<rho> l = Some (BV n x)"
    and r: "den dv \<rho> r = Some (BV n y)" and z: "bv_arith k n x y = Some z"
  shows "runs t I (bitwise_nonconst k this nxt l r s) (\<lambda>e. den dv \<rho> e = Some (BV n z))"
proof -
  have k': "\<not> compareKind k" "k \<noteq> UDiv" "k \<noteq> SDiv"
    using k by (auto simp: compareKind_def)
  show ?thesis
  proof (cases "l = r")
    case True
    with k l r z s show ?thesis
      by (auto simp: bitwise_nonconst_def)
  next
    case False
    show ?thesis
    proof (cases "same_split l r")
      case None
      with False below.arith_bv [OF s l r k'(1) _ z] k' show ?thesis
        by (simp add: bitwise_nonconst_def)
    next
      case (Some p)
      then obtain e f g h where p: "p = (e, f, g, h)" "as_Concat l = Some (e, f)"
        "as_Concat r = Some (g, h)" "bits e = bits g"
        by (auto simp: same_split_def split: option.splits if_splits)
      from den_asConcatE [OF l p(2)] obtain n1 x1 m1 y1 where d: "den dv \<rho> e = Some (BV n1 x1)"
        "den dv \<rho> f = Some (BV m1 y1)" "x = bv_concat m1 x1 y1" "n = n1 + m1" "bits e = n1"
        by (metis dval.inject(2))
      from den_asConcatE [OF r p(3)] obtain n2 x2 m2 y2 where d2: "den dv \<rho> g = Some (BV n2 x2)"
        "den dv \<rho> h = Some (BV m2 y2)" "y = bv_concat m2 x2 y2" "n = n2 + m2" "bits g = n2"
        by (metis dval.inject(2))
      have same: "n2 = n1" "m2 = m1"
        using d d2 p(4) by simp_all
      obtain z1 z2 where zz: "bv_arith k n1 x1 x2 = Some z1" "bv_arith k m1 y1 y2 = Some z2"
        "z = bv_concat m1 z1 z2"
        using k z d(3) d2(3) same by (auto simp: bitwise_concat)
      have "runs t I (do {
          (h', s) \<leftarrow> createBinaryExpr this k e g s;
          (g', s) \<leftarrow> createBinaryExpr this k f h s;
          createConcat this h' g' s }) (\<lambda>e. den dv \<rho> e = Some (BV n z))"
        using k' unfolding d(4) zz(3)
        by (intro runs_bind_pair [OF self.arith_bv [OF s d(1) d2(1) [unfolded same] _ _ zz(1)]]
            runs_bind_pair [OF self.arith_bv [OF _ d(2) d2(2) [unfolded same] _ _ zz(2)]]
            self.concat_bv) auto
      with False Some p(1) show ?thesis
        by (simp add: bitwise_nonconst_def)
    qed
  qed
qed

lemma symbolic_and:
  assumes s: "I s" and l: "den dv \<rho> l = Some a" and r: "den dv \<rho> r = Some b"
    and c: "sem_binary dv And a b = Some c"
  shows "runs t I (symbolic_createAnd this nxt l r s) (\<lambda>e. den dv \<rho> e = Some c)"
proof -
  obtain n x y where abc: "a = BV n x" "b = BV n y" "c = BV n (and x y)"
    using c by (rule sem_arithE) (simp_all add: compareKind_def)
  with below.binary_law [OF s l r c] bitwise_nonconst_law [of And s l n x r y] s l r show ?thesis
    by (simp add: symbolic_createAnd_def)
qed

lemma createOr_const_law:
  assumes s: "I s" and l: "den dv \<rho> l = Some (BV n x)" and r: "den dv \<rho> r = Some (BV n y)"
  shows "runs t I (createOr_const this nxt l r s) (\<lambda>e. den dv \<rho> e = Some (BV n (or x y)))"
proof (cases "as_Concat r")
  case None
  with below.or_bv [OF s l r refl] show ?thesis
    by (simp add: createOr_const_def)
next
  case (Some p)
  then obtain e f where ef: "as_Concat r = Some (e, f)" "p = (e, f)"
    by (cases p) auto
  from den_asConcatE [OF r ef(1)] obtain n1 x1 m1 y1 where d: "den dv \<rho> e = Some (BV n1 x1)"
    "den dv \<rho> f = Some (BV m1 y1)" "y = bv_concat m1 x1 y1" "n = n1 + m1" "bits e = n1" "bits f = m1"
    "0 < n1" "0 < m1"
    by (metis dval.inject(2))
  have "or x y = bv_concat m1 (or (bv_extract m1 n1 x) x1) (or (bv_extract 0 m1 x) y1)"
    using den_BV [OF l] d(3,4) by (simp add: or_concat)
  then have "runs t I (do {
       (g, s) \<leftarrow> createExtract this l m1 n1 s;
       (h, s) \<leftarrow> createBinaryExpr this Or g e s;
       (g, s) \<leftarrow> createExtract this l 0 m1 s;
       (k, s) \<leftarrow> createBinaryExpr this Or g f s;
       createConcat this h k s }) (\<lambda>e. den dv \<rho> e = Some (BV (n1 + m1) (or x y)))"
    using d(4,7,8)
    by (auto intro!: runs_bind_pair [OF self.extract_bv [OF _ l]] s
        runs_bind_pair [OF self.or_bv [OF _ _ d(1) refl]]
        runs_bind_pair [OF self.or_bv [OF _ _ d(2) refl]] self.concat_bv)
  with d(4-6) ef show ?thesis
    by (simp add: createOr_const_def)
qed

lemma symbolic_or:
  assumes s: "I s" and l: "den dv \<rho> l = Some a" and r: "den dv \<rho> r = Some b"
    and c: "sem_binary dv Or a b = Some c"
  shows "runs t I (symbolic_createOr this nxt l r s) (\<lambda>e. den dv \<rho> e = Some c)"
proof -
  obtain n x y where abc: "a = BV n x" "b = BV n y" "c = BV n (or x y)"
    using c by (rule sem_arithE) (simp_all add: compareKind_def)
  note l' = l [unfolded abc(1)] and r' = r [unfolded abc(2)]
  show ?thesis
    unfolding symbolic_createOr_def abc(3)
    by (rule runs_bind_pair [OF self.exclusive_law [OF s l' r']])
      (auto split: option.splits intro: below.or_bv [OF _ l' r' refl] createOr_const_law [OF _ l' r']
        bitwise_nonconst_law [OF _ _ l' r'])
qed

lemma symbolic_xor:
  assumes s: "I s" and l: "den dv \<rho> l = Some a" and r: "den dv \<rho> r = Some b"
    and c: "sem_binary dv Xor a b = Some c"
  shows "runs t I (symbolic_createXor this nxt l r s) (\<lambda>e. den dv \<rho> e = Some c)"
proof -
  obtain n x y where abc: "a = BV n x" "b = BV n y" "c = BV n (xor x y)"
    using c by (rule sem_arithE) (simp_all add: compareKind_def)
  note l' = l [unfolded abc(1)] and r' = r [unfolded abc(2)]
  show ?thesis
  proof (cases "l = r")
    case True
    with l' r' have "xor x y = 0"
      by simp
    with True self.const_0 [OF s] below.binary_law [OF s l r c] den_BV [OF l'] abc show ?thesis
      by (simp add: symbolic_createXor_def)
  qed (use below.binary_law [OF s l r c] in \<open>simp add: symbolic_createXor_def\<close>)
qed

lemma symbolic_equal:
  assumes s: "I s" and l: "den dv \<rho> l = Some a" and r: "den dv \<rho> r = Some b"
    and c: "sem_binary dv Equal a b = Some c"
  shows "runs t I (symbolic_createEqual this nxt l r s) (\<lambda>e. den dv \<rho> e = Some c)"
proof (cases "l = r")
  case True
  with l r c have "c = BoolV True"
    by (cases a) (auto simp: compareKind_def)
  with True self.bool_law [OF s, of True] show ?thesis
    by (simp add: symbolic_createEqual_def createTrue_def)
qed (use below.binary_law [OF s l r c] in \<open>simp add: symbolic_createEqual_def\<close>)

lemma symbolic_distinct:
  assumes s: "I s" and l: "den dv \<rho> l = Some a" and r: "den dv \<rho> r = Some b"
    and c: "sem_binary dv Distinct a b = Some c"
  shows "runs t I (symbolic_createDistinct this l r s) (\<lambda>e. den dv \<rho> e = Some c)"
proof -
  obtain p where p: "sem_binary dv Equal a b = Some (BoolV p)" "c = BoolV (\<not> p)"
    using c by (cases a; cases b) (auto simp: compareKind_def split: if_splits)
  show ?thesis
    unfolding symbolic_createDistinct_def p(2)
    by (rule runs_bind_pair [OF self.binary_law [OF s l r p(1)]]) (rule self.lnot_bool)
qed

lemma symbolic_connect:
  assumes s: "I s" and l: "den dv \<rho> l = Some a" and r: "den dv \<rho> r = Some b"
  shows "sem_binary dv LOr a b = Some c \<Longrightarrow>
      runs t I (symbolic_createLOr this nxt l r s) (\<lambda>e. den dv \<rho> e = Some c)"
    and "sem_binary dv LAnd a b = Some c \<Longrightarrow>
      runs t I (symbolic_createLAnd this nxt l r s) (\<lambda>e. den dv \<rho> e = Some c)"
proof -
  have bools: "\<exists>p q. a = BoolV p \<and> b = BoolV q" if "sem_binary dv k a b = Some c" "k = LOr \<or> k = LAnd" for k
    using that by (cases a; cases b) (auto simp: compareKind_def split: if_splits)
  show "runs t I (symbolic_createLOr this nxt l r s) (\<lambda>e. den dv \<rho> e = Some c)"
    if c: "sem_binary dv LOr a b = Some c"
    using bools [OF c] c below.binary_law [OF s l r c] self.bool_law [OF s, of True] s l r
      den_Bool [OF l] den_Bool [OF r]
    by (auto simp: symbolic_createLOr_def createTrue_def split: option.splits)
  show "runs t I (symbolic_createLAnd this nxt l r s) (\<lambda>e. den dv \<rho> e = Some c)"
    if c: "sem_binary dv LAnd a b = Some c"
    using bools [OF c] c below.binary_law [OF s l r c] self.bool_law [OF s, of False] s l r
      den_Bool [OF l] den_Bool [OF r]
    by (auto simp: symbolic_createLAnd_def createFalse_def split: option.splits)
qed

lemma den_LNot:
  assumes "as_LNot e = Some x" and "den dv \<rho> e = Some v"
  obtains p where "den dv \<rho> x = Some (BoolV p)" "v = BoolV (\<not> p)"
proof -
  from assms obtain a where "den dv \<rho> x = Some a" "sem_unary LNot a = Some v"
    by (cases e) (auto simp: bind_eq_Some_conv split: if_splits)
  with that show ?thesis
    by (cases a) auto
qed

lemma symbolic_lnot:
  assumes s: "I s" and x: "den dv \<rho> x = Some a" and c: "sem_unary LNot a = Some c"
  shows "runs t I (symbolic_createLNot this nxt x s) (\<lambda>e. den dv \<rho> e = Some c)"
proof -
  obtain p where p: "a = BoolV p" "c = BoolV (\<not> p)"
    using c by (cases a) auto
  show ?thesis
  proof (cases "as_Bool x")
    case (Some b)
    with den_Bool [OF x Some] p self.bool_law [OF s] show ?thesis
      by (simp add: symbolic_createLNot_def)
  next
    case None
    with below.unary_law [OF s x c] s p x show ?thesis
      by (auto simp: symbolic_createLNot_def split: option.splits elim: den_LNot)
  qed
qed

lemma symbolic_ite:
  assumes s: "I s" and g: "den dv \<rho> g = Some a" and x: "den dv \<rho> x = Some b"
    and y: "den dv \<rho> y = Some d" and f: "sem_ite a b d = Some f"
  shows "runs t I (symbolic_createIte this nxt g x y s) (\<lambda>e. den dv \<rho> e = Some f)"
proof (cases "as_Bool g")
  case (Some p)
  with f den_Bool [OF g Some] have "f = (if p then b else d)"
    by (cases b; cases d) (auto split: if_splits)
  with Some s x y show ?thesis
    by (simp add: symbolic_createIte_def)
next
  case None
  show ?thesis
  proof (cases "as_LNot g")
    case None
    with \<open>as_Bool g = None\<close> below.ite_law [OF assms] show ?thesis
      by (simp add: symbolic_createIte_def)
  next
    case (Some h)
    from den_LNot [OF Some g] obtain p where p: "den dv \<rho> h = Some (BoolV p)" "a = BoolV (\<not> p)" .
    then have "sem_ite (BoolV p) d b = Some f"
      using f by (cases b; cases d) (auto split: if_splits)
    with self.ite_law [OF s p(1) y x] Some None show ?thesis
      by (simp add: symbolic_createIte_def)
  qed
qed

text \<open>The whole layer, for expressions without quotients.\<close>

lemma symbolic_binary:
  assumes no_div: "\<not> dv" and s: "I s" and l: "den dv \<rho> l = Some a" and r: "den dv \<rho> r = Some b"
    and c: "sem_binary dv k a b = Some c"
  shows "runs t I (symbolic_createBinaryExpr this nxt k l r s) (\<lambda>e. den dv \<rho> e = Some c)"
proof -
  have "k \<noteq> UDiv" "k \<noteq> SDiv"
    using no_div c by (cases a; cases b; auto split: if_splits)+
  with s l r c below.binary_law [OF s l r c] show ?thesis
    by (cases k) (simp_all add: symbolic_createBinaryExpr_def symbolic_add symbolic_sub symbolic_mul
        symbolic_and symbolic_or symbolic_xor symbolic_equal symbolic_distinct symbolic_connect)
qed

lemma symbolic_layer_sound:
  assumes "\<not> dv"
  shows "sound_builder t dv \<rho> I (symbolic_layer this nxt)"
  using below.sound_builder_axioms
  by (auto simp: sound_builder_def symbolic_layer_def symbolic_createUnaryExpr_def
      intro!: symbolic_concat symbolic_extract symbolic_binary [OF assms] symbolic_lnot symbolic_ite)

end

text \<open>The builder keeps the contract of the one below at every depth of calls.\<close>

lemma symbolic_sound:
  assumes "sound_builder False False \<rho> I B"
  shows "sound_builder False False \<rho> I (symbolic_builder n B)"
proof (induction n)
  case 0
  show ?case
    by (simp add: no_builder_sound)
next
  case (Suc n)
  then show ?case
    using layer.symbolic_layer_sound layer.intro assms by fastforce
qed

end
