(* ===== verification/Evaluate.thy ===== *)
theory Evaluate
  imports ConstFold
begin

section \<open>Concrete evaluation\<close>

text \<open>
  \<open>expr_evaluate.cpp\<close>: the value of an expression for the input of the run, computed with a
  builder that folds constants (\<open>CEB\<close>), each result kept in the \<open>evaluation_\<close> field of the
  object. The field is the map \<open>evaluation\<close> of the state. The bytes of the input are the vector
  \<open>inputs_\<close> of the solver (\<open>Solver::getInput\<close>).
\<close>

definition CEB :: "env \<Rightarrow> builder" where
  "CEB E = const_folding_builder (apint E) base_builder"

definition checkExpr :: "expr \<Rightarrow> expr build" where
  "checkExpr e s = assert (kind_of e = Constant \<or> kind_of e = Bool) (Some (e, s))"

definition getInput :: "8 word list \<Rightarrow> nat \<Rightarrow> 8 word option" where
  "getInput inputs index = assert (index < length inputs) (Some (inputs ! index))"

text \<open>\<open>Expr::evaluate\<close>, around the \<open>evaluateImpl\<close> of the class.\<close>

definition evaluate_memo :: "expr \<Rightarrow> expr build \<Rightarrow> expr build" where
  "evaluate_memo e impl s = (case evaluation s e of
     Some v \<Rightarrow> Some (v, s)
   | None \<Rightarrow> do { (v, s) \<leftarrow> impl s; Some (v, s\<lparr>evaluation := (evaluation s)(e \<mapsto> v)\<rparr>) })"

fun evaluateImpl :: "env \<Rightarrow> 8 word list \<Rightarrow> expr \<Rightarrow> expr build" where
  "evaluateImpl E inp (ConcatExpr i l r) s = do {
     (c0, s) \<leftarrow> evaluate_memo l (evaluateImpl E inp l) s;
     (c1, s) \<leftarrow> evaluate_memo r (evaluateImpl E inp r) s;
     (e, s) \<leftarrow> createConcat (CEB E) c0 c1 s;
     checkExpr e s }"
| "evaluateImpl E inp (UnaryExpr i k x) s = do {
     (c0, s) \<leftarrow> evaluate_memo x (evaluateImpl E inp x) s;
     (e, s) \<leftarrow> createUnaryExpr (CEB E) k c0 s;
     checkExpr e s }"
| "evaluateImpl E inp (ReadExpr i index) s = do {
     b \<leftarrow> getInput inp index;
     make_shared (\<lambda>oid. ConstantExpr oid (uint b) 8) s }"
| "evaluateImpl E inp (ConstantExpr i v n) s = make_shared (\<lambda>oid. ConstantExpr oid v n) s"
| "evaluateImpl E inp (BoolExpr i b) s = make_shared (\<lambda>oid. BoolExpr oid b) s"
| "evaluateImpl E inp (BinaryExpr i k l r) s = do {
     (c0, s) \<leftarrow> evaluate_memo l (evaluateImpl E inp l) s;
     (c1, s) \<leftarrow> evaluate_memo r (evaluateImpl E inp r) s;
     (e, s) \<leftarrow> createBinaryExpr (CEB E) k c0 c1 s;
     checkExpr e s }"
| "evaluateImpl E inp (ExtractExpr i x index n) s = do {
     (c0, s) \<leftarrow> evaluate_memo x (evaluateImpl E inp x) s;
     (e, s) \<leftarrow> createExtract (CEB E) c0 index n s;
     checkExpr e s }"
| "evaluateImpl E inp (ZExtExpr i x n) s = do {
     (c0, s) \<leftarrow> evaluate_memo x (evaluateImpl E inp x) s;
     (e, s) \<leftarrow> createZExt (CEB E) c0 n s;
     checkExpr e s }"
| "evaluateImpl E inp (SExtExpr i x n) s = do {
     (c0, s) \<leftarrow> evaluate_memo x (evaluateImpl E inp x) s;
     (e, s) \<leftarrow> createSExt (CEB E) c0 n s;
     checkExpr e s }"
| "evaluateImpl E inp (IteExpr i c t f) s = do {
     (c0, s) \<leftarrow> evaluate_memo c (evaluateImpl E inp c) s;
     (c1, s) \<leftarrow> evaluate_memo t (evaluateImpl E inp t) s;
     (c2, s) \<leftarrow> evaluate_memo f (evaluateImpl E inp f) s;
     (e, s) \<leftarrow> createIte (CEB E) c0 c1 c2 s;
     checkExpr e s }"

definition evaluate :: "env \<Rightarrow> 8 word list \<Rightarrow> expr \<Rightarrow> expr build" where
  "evaluate E inp e = evaluate_memo e (evaluateImpl E inp e)"

subsection \<open>Values\<close>

definition value_of :: "expr \<Rightarrow> dval option" where
  "value_of e = (case e of
     BoolExpr _ b \<Rightarrow> Some (BoolV b)
   | ConstantExpr _ v n \<Rightarrow> Some (BV n v)
   | _ \<Rightarrow> None)"

definition input_of :: "8 word list \<Rightarrow> assignment" where
  "input_of inp i = inp ! i"

definition is_value :: "expr \<Rightarrow> bool" where
  "is_value e \<longleftrightarrow> kind_of e = Constant \<or> kind_of e = Bool"

lemma value_of_den: "den dv \<rho> e = Some v \<Longrightarrow> value_of e = Some v \<longleftrightarrow> value_of e \<noteq> None"
  by (cases e) (auto simp: value_of_def split: if_splits)

lemma value_of_BV: "value_of e = Some (BV n x) \<longleftrightarrow> as_Constant e = Some x \<and> bits e = n"
  by (cases e) (auto simp: value_of_def)

lemma value_of_BoolV: "value_of e = Some (BoolV p) \<longleftrightarrow> as_Bool e = Some p"
  by (cases e) (auto simp: value_of_def)

lemma value_of_kind: "value_of e = Some v \<Longrightarrow> kind_of e = Constant \<or> kind_of e = Bool"
  by (cases e) (auto simp: value_of_def)

lemma value_of_ok_den:
  "value_of e = Some v \<Longrightarrow> dval_ok v \<Longrightarrow> den dv \<rho> e = Some v"
  by (cases e) (auto simp: value_of_def in_range_def)

lemma as_Constant_Bool: "as_Bool e = Some b \<Longrightarrow> as_Constant e = None"
  by (cases e) auto

text \<open>Folding on values gives values: the methods come down to \<open>createConstant\<close> or \<open>createBool\<close>.\<close>

definition gives_value :: "(expr \<times> bst) option \<Rightarrow> bool" where
  "gives_value m \<longleftrightarrow> (\<forall>e s. m = Some (e, s) \<longrightarrow> value_of e \<noteq> None)"

lemma gives_value_make [simp]:
  "gives_value (make_shared (\<lambda>oid. ConstantExpr oid v n) s)"
  "gives_value (make_shared (\<lambda>oid. BoolExpr oid b) s)"
  by (simp_all add: gives_value_def make_shared_def value_of_def)

lemma gives_value_assert [simp]: "gives_value m \<Longrightarrow> gives_value (assert c m)"
  by (simp add: gives_value_def)

lemma cf_total_arith: "bv_arith k n x y \<noteq> None \<Longrightarrow> cf_arith A k n' x' y' \<noteq> None"
  by (cases k) auto

lemma cf_total_compare: "bv_compare k n x y \<noteq> None \<Longrightarrow> cf_compare A k n' x' y' \<noteq> None"
  by (cases k) auto

lemma CEB_binary_value:
  assumes "value_of l = Some a" "value_of r = Some b" "sem_binary dv k a b = Some c"
  shows "gives_value (createBinaryExpr (CEB E) k l r s)"
proof (cases a)
  case (BoolV p)
  with assms(3) obtain q where q: "b = BoolV q" "bool_connect k p q \<noteq> None"
    by (cases b) auto
  with BoolV assms(1,2) have "as_Bool l = Some p" "as_Bool r = Some q" "as_Constant l = None"
    by (simp_all add: value_of_BoolV as_Constant_Bool)
  with q show ?thesis
    by (auto simp: CEB_def const_folding_builder_def cf_createBinaryExpr_def cf_connect_correct
        base_builder_def)
next
  case (BV n x)
  with assms(3) obtain y where y: "b = BV n y" "bv_arith k n x y \<noteq> None \<or> bv_compare k n x y \<noteq> None"
    by (cases b) (auto split: if_splits)
  with BV assms(1,2) have "as_Constant l = Some x" "as_Constant r = Some y"
    by (auto simp: value_of_BV)
  with y(2) show ?thesis
    using cf_total_arith [of k n x y "apint E" "bits l" x y]
      cf_total_compare [of k n x y "apint E" "bits l" x y]
    by (auto simp: CEB_def const_folding_builder_def cf_createBinaryExpr_def base_builder_def
        split: option.splits)
qed

lemma CEB_unary_value:
  assumes "value_of x = Some a" "sem_unary k a = Some c"
  shows "gives_value (createUnaryExpr (CEB E) k x s)"
  using assms
  by (cases k; cases a)
    (auto simp: CEB_def const_folding_builder_def cf_createUnaryExpr_def base_builder_def
      value_of_BV value_of_BoolV)

lemma CEB_concat_value:
  assumes "value_of l = Some a" "value_of r = Some b" "sem_concat a b = Some c"
  shows "gives_value (createConcat (CEB E) l r s)"
  using assms
  by (cases a; cases b)
    (auto simp: CEB_def const_folding_builder_def cf_createConcat_def base_builder_def value_of_BV Let_def)

lemma CEB_extract_value:
  assumes "value_of x = Some a" "sem_extract i n a = Some c"
  shows "gives_value (createExtract (CEB E) x i n s)"
  using assms
  by (cases a)
    (auto simp: CEB_def const_folding_builder_def cf_createExtract_def base_builder_def value_of_BV Let_def)

lemma CEB_ext_value:
  assumes "value_of x = Some a" "sem_zext n a = Some c \<or> sem_sext n a = Some c"
  shows "gives_value (createZExt (CEB E) x n s)" "gives_value (createSExt (CEB E) x n s)"
  using assms
  by (cases a; auto simp: CEB_def const_folding_builder_def cf_createZExt_def cf_createSExt_def
      base_builder_def value_of_BV)+

lemma CEB_ite_value:
  assumes "value_of g = Some a" "value_of x = Some b" "value_of y = Some d" "sem_ite a b d = Some c"
  shows "gives_value (createIte (CEB E) g x y s)"
  using assms
  by (cases a)
    (auto simp: CEB_def const_folding_builder_def cf_createIte_def value_of_BoolV gives_value_def)

subsection \<open>Evaluation computes the meaning\<close>

definition evaluations_ok :: "8 word list \<Rightarrow> bst \<Rightarrow> bool" where
  "evaluations_ok inp s \<longleftrightarrow> (\<forall>e w v. evaluation s e = Some w \<longrightarrow>
     den True (input_of inp) e = Some v \<longrightarrow> value_of w = Some v)"

lemma evaluations_ok_stable [simp]: "stable (evaluations_ok inp)"
  by (simp add: stable_def evaluations_ok_def)

lemma evaluations_ok_empty: "evaluation s = (\<lambda>_. None) \<Longrightarrow> evaluations_ok inp s"
  by (simp add: evaluations_ok_def)

lemma evaluations_ok_oid: "evaluations_ok inp s \<Longrightarrow> evaluations_ok inp (s\<lparr>next_oid := n\<rparr>)"
  by (simp add: evaluations_ok_def)

lemma CEB_sound: "apint_ok (apint E) \<Longrightarrow> stable I \<Longrightarrow> sound_builder t dv \<rho> I (CEB E)"
  unfolding CEB_def by (intro const_folding_sound base_sound)

text \<open>With \<open>t\<close> the laws include that the evaluation comes back; then the input has to be long enough.\<close>

lemma memo_law:
  assumes "\<And>s. evaluations_ok inp s \<Longrightarrow>
      runs t (evaluations_ok inp) (impl s) (\<lambda>r. value_of r = Some v)"
    and "den True (input_of inp) e = Some v" and "evaluations_ok inp s"
  shows "runs t (evaluations_ok inp) (evaluate_memo e impl s) (\<lambda>r. value_of r = Some v)"
proof (cases "evaluation s e")
  case None
  have "runs t (evaluations_ok inp)
      (do { (r, s) \<leftarrow> impl s; Some (r, s\<lparr>evaluation := (evaluation s)(e \<mapsto> r)\<rparr>) })
      (\<lambda>r. value_of r = Some v)"
    using assms(2) by (intro runs_bind_pair [OF assms(1) [OF assms(3)]]) (simp add: evaluations_ok_def)
  with None show ?thesis
    by (simp add: evaluate_memo_def)
next
  case (Some w)
  with assms show ?thesis
    by (auto simp: evaluate_memo_def evaluations_ok_def)
qed

lemma check_law:
  assumes "runs t I m (\<lambda>e. den dv \<rho> e = Some v)" and "gives_value m"
  shows "runs t I (do { (e, s) \<leftarrow> m; checkExpr e s }) (\<lambda>e. value_of e = Some v)"
proof (cases m)
  case None
  with assms(1) show ?thesis
    by simp
next
  case (Some p)
  then obtain e s where e: "m = Some (e, s)"
    by (cases p) auto
  with assms have d: "den dv \<rho> e = Some v" "I s" and "value_of e \<noteq> None"
    by (simp_all add: gives_value_def)
  then have "value_of e = Some v"
    using value_of_den [OF d(1)] by blast
  with e d(2) value_of_kind show ?thesis
    by (auto simp: checkExpr_def)
qed

lemma value_of_input_den:
  "den True (input_of inp) e = Some v \<Longrightarrow> value_of r = Some v \<Longrightarrow> den True (input_of inp) r = Some v"
  using den_ok value_of_ok_den by blast

lemma evaluateImpl_law:
  assumes A: "apint_ok (apint E)"
  shows "den True (input_of inp) e = Some v \<Longrightarrow> (t \<Longrightarrow> \<forall>i \<in> getDeps e. i < length inp) \<Longrightarrow>
    evaluations_ok inp s \<Longrightarrow>
    runs t (evaluations_ok inp) (evaluateImpl E inp e s) (\<lambda>r. value_of r = Some v)"
proof (induction e arbitrary: v s)
  case (BoolExpr i b)
  then show ?case
    by (simp add: make_shared_def value_of_def evaluations_ok_oid)
next
  case (ConstantExpr i x n)
  then show ?case
    by (simp add: make_shared_def value_of_def evaluations_ok_oid split: if_splits)
next
  case (ReadExpr i index)
  then show ?case
    by (auto simp: make_shared_def value_of_def evaluations_ok_oid getInput_def input_of_def assert_def)
next
  case (ConcatExpr i l r)
  from ConcatExpr.prems(1) obtain a b where ab: "den True (input_of inp) l = Some a"
    "den True (input_of inp) r = Some b" "sem_concat a b = Some v"
    by (auto simp: bind_eq_Some_conv)
  with ConcatExpr show ?case
    by (auto intro!: runs_bind_pair [OF memo_law] check_law
        sound_builder.concat_law [OF CEB_sound [OF A]] CEB_concat_value intro: value_of_input_den)
next
  case (ExtractExpr i x index n)
  from ExtractExpr.prems(1) obtain a where a: "den True (input_of inp) x = Some a"
    "sem_extract index n a = Some v"
    by (auto simp: bind_eq_Some_conv)
  with ExtractExpr show ?case
    by (auto intro!: runs_bind_pair [OF memo_law] check_law
        sound_builder.extract_law [OF CEB_sound [OF A]] CEB_extract_value intro: value_of_input_den)
next
  case (ZExtExpr i x n)
  from ZExtExpr.prems(1) obtain a where a: "den True (input_of inp) x = Some a"
    "sem_zext n a = Some v"
    by (auto simp: bind_eq_Some_conv)
  with ZExtExpr show ?case
    by (auto intro!: runs_bind_pair [OF memo_law] check_law
        sound_builder.zext_law [OF CEB_sound [OF A]] CEB_ext_value intro: value_of_input_den)
next
  case (SExtExpr i x n)
  from SExtExpr.prems(1) obtain a where a: "den True (input_of inp) x = Some a"
    "sem_sext n a = Some v"
    by (auto simp: bind_eq_Some_conv)
  with SExtExpr show ?case
    by (auto intro!: runs_bind_pair [OF memo_law] check_law
        sound_builder.sext_law [OF CEB_sound [OF A]] CEB_ext_value intro: value_of_input_den)
next
  case (UnaryExpr i k x)
  from UnaryExpr.prems(1) obtain a where a: "den True (input_of inp) x = Some a"
    "sem_unary k a = Some v"
    by (auto simp: bind_eq_Some_conv)
  with UnaryExpr show ?case
    by (auto intro!: runs_bind_pair [OF memo_law] check_law
        sound_builder.unary_law [OF CEB_sound [OF A]] CEB_unary_value intro: value_of_input_den)
next
  case (BinaryExpr i k l r)
  from BinaryExpr.prems(1) obtain a b where ab: "den True (input_of inp) l = Some a"
    "den True (input_of inp) r = Some b" "sem_binary True k a b = Some v"
    by (auto simp: bind_eq_Some_conv)
  with BinaryExpr show ?case
    by (auto intro!: runs_bind_pair [OF memo_law] check_law
        sound_builder.binary_law [OF CEB_sound [OF A]] CEB_binary_value intro: value_of_input_den)
next
  case (IteExpr i c x y)
  from IteExpr.prems(1) obtain a b d where abd: "den True (input_of inp) c = Some a"
    "den True (input_of inp) x = Some b" "den True (input_of inp) y = Some d" "sem_ite a b d = Some v"
    by (auto simp: bind_eq_Some_conv)
  with IteExpr show ?case
    by (auto intro!: runs_bind_pair [OF memo_law] check_law
        sound_builder.ite_law [OF CEB_sound [OF A]] CEB_ite_value intro: value_of_input_den)
qed

lemma evaluate_law:
  assumes "apint_ok (apint E)" "den True (input_of inp) e = Some v"
    "t \<Longrightarrow> \<forall>i \<in> getDeps e. i < length inp" "evaluations_ok inp s"
  shows "runs t (evaluations_ok inp) (evaluate E inp e s) (\<lambda>r. value_of r = Some v)"
  unfolding evaluate_def using assms by (intro memo_law evaluateImpl_law) auto

end
