(* ===== verification/BuilderStacks.thy ===== *)
theory BuilderStacks
  imports SymbolicSound Evaluate
begin

section \<open>The stacks of builders\<close>

text \<open>
  The remaining layers, \<open>CommutativeExprBuilder\<close> and \<open>PruneExprBuilder\<close> (both printed by
  \<open>gen_expr_builder.py\<close>), the stacks that \<open>SymbolicExprBuilder::create\<close>, \<open>PruneExprBuilder::create\<close>
  and \<open>ConstantFoldingExprBuilder::create\<close> put together, and what the contract gives for them.
\<close>

subsection \<open>CommutativeExprBuilder\<close>

text \<open>
  The overridden kinds with the kind of the exchanged call (\<open>commutative_mapping\<close>). A constant
  on the right moves to the left.
\<close>

fun commutative_mapping :: "kind \<Rightarrow> kind option" where
  "commutative_mapping Ult = Some Ugt"
| "commutative_mapping Ule = Some Uge"
| "commutative_mapping Ugt = Some Ult"
| "commutative_mapping Uge = Some Ule"
| "commutative_mapping Slt = Some Sgt"
| "commutative_mapping Sle = Some Sge"
| "commutative_mapping Sgt = Some Slt"
| "commutative_mapping Sge = Some Sle"
| "commutative_mapping k =
     (if k \<in> {Add, Mul, And, Or, Xor, Equal, Distinct, LAnd, LOr} then Some k else None)"

definition commutative_createBinaryExpr ::
  "builder \<Rightarrow> builder \<Rightarrow> kind \<Rightarrow> expr \<Rightarrow> expr \<Rightarrow> expr build" where
  "commutative_createBinaryExpr this next k l r s =
     (if \<not> isConstant l \<and> isConstant r then
        if k = Sub then do {
          (m, s) \<leftarrow> createUnaryExpr this Neg r s;
          createBinaryExpr this Add m l s }
        else (case commutative_mapping k of
          Some k' \<Rightarrow> createBinaryExpr this k' r l s
        | None \<Rightarrow> createBinaryExpr next k l r s)
      else createBinaryExpr next k l r s)"

definition commutative_layer :: "builder \<Rightarrow> builder \<Rightarrow> builder" where
  "commutative_layer this next = next\<lparr>
     createBinaryExpr := commutative_createBinaryExpr this next\<rparr>"

text \<open>Two levels of calls are all there are.\<close>

definition commutative_builder :: "builder \<Rightarrow> builder" where
  "commutative_builder next = commutative_layer (commutative_layer no_builder next) next"

lemma commutative_no_swap:
  "isConstant l \<or> \<not> isConstant r \<Longrightarrow>
   createBinaryExpr (commutative_layer B next) k l r s = createBinaryExpr next k l r s"
  by (auto simp: commutative_layer_def commutative_createBinaryExpr_def)

lemma commutative_unary [simp]: "createUnaryExpr (commutative_layer B next) = createUnaryExpr next"
  by (simp add: commutative_layer_def)

lemma commutative_layer_binary:
  "createBinaryExpr (commutative_layer B next) = commutative_createBinaryExpr B next"
  by (simp add: commutative_layer_def)

text \<open>What a method comes down to below, whatever the builder of the second level calls.\<close>

lemma commutative_binary:
  "createBinaryExpr (commutative_layer (commutative_layer B next) next) k l r s =
     (if \<not> isConstant l \<and> isConstant r then
        if k = Sub then do { (m, s) \<leftarrow> createUnaryExpr next Neg r s; createBinaryExpr next Add m l s }
        else createBinaryExpr next (case commutative_mapping k of Some k' \<Rightarrow> k' | None \<Rightarrow> k)
          (if commutative_mapping k = None then l else r) (if commutative_mapping k = None then r else l) s
      else createBinaryExpr next k l r s)"
proof (cases "\<not> isConstant l \<and> isConstant r")
  case True
  then have "createBinaryExpr (commutative_layer B next) Add m l = createBinaryExpr next Add m l"
    "createBinaryExpr (commutative_layer B next) k' r l = createBinaryExpr next k' r l" for m k'
    by (auto simp: commutative_no_swap)
  with True show ?thesis
    unfolding commutative_layer_binary [of "commutative_layer B next"]
    by (simp add: commutative_createBinaryExpr_def split: option.splits)
next
  case False
  then show ?thesis
    by (auto simp: commutative_no_swap)
qed

text \<open>Two levels are a fixed point: a third one would behave the same.\<close>

lemma commutative_fixpoint: "commutative_layer (commutative_builder next) next = commutative_builder next"
proof -
  have "createBinaryExpr (commutative_layer (commutative_builder next) next) =
      createBinaryExpr (commutative_builder next)"
    by (intro ext) (simp add: commutative_builder_def commutative_binary)
  then show ?thesis
    by (simp add: commutative_layer_def commutative_builder_def)
qed

text \<open>
  The kinds whose operands it exchanges, and the calls that it leaves as they are. What a builder
  answers to other calls does not matter to the layer above: it never makes them.
\<close>

definition exchanges :: "kind \<Rightarrow> bool" where
  "exchanges k \<longleftrightarrow> k \<in> {Add, Sub, Mul, And, Or, Xor, LAnd, LOr, Equal, Distinct, Ult, Ule, Ugt, Uge, Slt, Sle, Sgt, Sge}"

lemma commutative_normal_form:
  assumes "createUnaryExpr B' = createUnaryExpr B"
    and "\<forall>k x y. exchanges k \<and> \<not> isConstant x \<and> isConstant y \<or> createBinaryExpr B' k x y = createBinaryExpr B k x y"
  shows "createBinaryExpr (commutative_builder B') = createBinaryExpr (commutative_builder B)"
proof (intro ext)
  fix k l r s
  have same: "createBinaryExpr B' k x y = createBinaryExpr B k x y"
    if "\<not> exchanges k \<or> isConstant x \<or> \<not> isConstant y" for k x y
    using assms(2) that by blast
  have keeps: "\<not> exchanges k \<longleftrightarrow> commutative_mapping k = None \<and> k \<noteq> Sub"
    by (cases k) (simp_all add: exchanges_def)
  show "createBinaryExpr (commutative_builder B') k l r s = createBinaryExpr (commutative_builder B) k l r s"
  proof (cases "\<not> isConstant l \<and> isConstant r")
    case True
    then have "createBinaryExpr B' Add m l = createBinaryExpr B Add m l" "createBinaryExpr B' k' r l = createBinaryExpr B k' r l" for m k'
      by (simp_all add: same)
    moreover have "commutative_mapping k = None \<Longrightarrow> k \<noteq> Sub \<Longrightarrow> createBinaryExpr B' k l r = createBinaryExpr B k l r"
      using same keeps by blast
    ultimately show ?thesis
      using True by (simp add: commutative_builder_def commutative_binary assms(1) split: option.split)
  next
    case False
    then have "createBinaryExpr B' k l r = createBinaryExpr B k l r"
      by (intro same) blast
    with False show ?thesis
      unfolding commutative_builder_def commutative_binary by (simp only: if_False)
  qed
qed

lemma commutative_mapping_sem:
  "commutative_mapping k = Some k' \<Longrightarrow> sem_binary dv k' b a = sem_binary dv k a b"
  by (cases a; cases b; cases k)
    (auto simp: compareKind_def add.commute mult.commute and.commute or.commute xor.commute)

lemma commutative_sound:
  assumes B: "sound_builder t dv \<rho> I B"
  shows "sound_builder t dv \<rho> I (commutative_builder B)"
proof -
  have binary: "runs t I (createBinaryExpr (commutative_builder B) k l r s) (\<lambda>e. den dv \<rho> e = Some c)"
    if s: "I s" and l: "den dv \<rho> l = Some a" and r: "den dv \<rho> r = Some b"
      and c: "sem_binary dv k a b = Some c" for s l r a b c k
  proof (cases "\<not> isConstant l \<and> isConstant r")
    case False
    with sound_builder.binary_law [OF B s l r c] show ?thesis
      by (auto simp: commutative_builder_def commutative_binary)
  next
    case swap: True
    show ?thesis
    proof (cases "k = Sub")
      case True
      obtain n x y where abc: "a = BV n x" "b = BV n y" "c = BV n (take_bit n (x - y))"
        using c unfolding True by (rule sem_arithE) (simp_all add: compareKind_def)
      have "runs t I (do { (m, s) \<leftarrow> createUnaryExpr B Neg r s; createBinaryExpr B Add m l s })
          (\<lambda>e. den dv \<rho> e = Some (BV n (take_bit n (take_bit n (- y) + x))))"
        using l r abc s
        by (intro runs_bind_pair [OF sound_builder.neg_bv [OF B]]
            sound_builder.add_bv [OF B _ _ _ refl]) auto
      with swap True abc show ?thesis
        by (simp add: commutative_builder_def commutative_binary modular algebra_simps)
    next
      case False
      show ?thesis
      proof (cases "commutative_mapping k")
        case None
        with swap False sound_builder.binary_law [OF B s l r c] show ?thesis
          by (simp add: commutative_builder_def commutative_binary)
      next
        case (Some k')
        with swap False sound_builder.binary_law [OF B s r l, of k' c] commutative_mapping_sem [OF Some] c
        show ?thesis
          by (simp add: commutative_builder_def commutative_binary)
      qed
    qed
  qed
  have same: "createBool (commutative_builder B) = createBool B"
    "createConstant (commutative_builder B) = createConstant B"
    "createConstantAP (commutative_builder B) = createConstantAP B"
    "createRead (commutative_builder B) = createRead B"
    "createConcat (commutative_builder B) = createConcat B"
    "createExtract (commutative_builder B) = createExtract B"
    "createZExt (commutative_builder B) = createZExt B"
    "createSExt (commutative_builder B) = createSExt B"
    "createUnaryExpr (commutative_builder B) = createUnaryExpr B"
    "createIte (commutative_builder B) = createIte B"
    by (simp_all add: commutative_builder_def commutative_layer_def)
  show ?thesis
    by unfold_locales (auto simp: same intro: binary sound_builder.bool_law [OF B]
        sound_builder.const_law [OF B] sound_builder.constAP_law [OF B] sound_builder.read_law [OF B]
        sound_builder.concat_law [OF B] sound_builder.extract_law [OF B] sound_builder.zext_law [OF B]
        sound_builder.sext_law [OF B] sound_builder.unary_law [OF B] sound_builder.ite_law [OF B])
qed

subsection \<open>PruneExprBuilder\<close>

text \<open>
  Every overridden method builds the expression, tells the call stack manager, and gives the
  concrete value when the expression is not interesting at the current block any more.
\<close>

definition pruneKind :: "kind \<Rightarrow> bool" where
  "pruneKind k \<longleftrightarrow> k \<in> {Add, Sub, Mul, UDiv, SDiv, URem, SRem, Neg, Not, And, Or, Xor, Shl, LShr, AShr,
     LOr, LAnd, LNot}"

definition prune :: "env \<Rightarrow> 8 word list \<Rightarrow> expr build \<Rightarrow> expr build" where
  "prune E inp create s = do {
     (ref, s) \<leftarrow> create s;
     let m = updateBitmap (xxh E) (csm s);
     let s = s\<lparr>csm := m\<rparr>;
     if isInteresting m then Some (ref, s) else evaluate E inp ref s }"

definition prune_builder :: "env \<Rightarrow> 8 word list \<Rightarrow> builder \<Rightarrow> builder" where
  "prune_builder E inp next = next\<lparr>
     createZExt := (\<lambda>e n. prune E inp (createZExt next e n)),
     createSExt := (\<lambda>e n. prune E inp (createSExt next e n)),
     createUnaryExpr := (\<lambda>k e. if pruneKind k then prune E inp (createUnaryExpr next k e)
                               else createUnaryExpr next k e),
     createBinaryExpr := (\<lambda>k l r. if pruneKind k then prune E inp (createBinaryExpr next k l r)
                               else createBinaryExpr next k l r),
     createIte := (\<lambda>c t f. prune E inp (createIte next c t f))\<rparr>"

text \<open>A pruned expression means the same for the input of the run; for other inputs it may not.\<close>

lemma prune_law:
  assumes A: "apint_ok (apint E)"
    and create: "runs False (evaluations_ok inp) (create s) (\<lambda>e. den dv (input_of inp) e = Some v)"
  shows "runs False (evaluations_ok inp) (prune E inp create s) (\<lambda>e. den dv (input_of inp) e = Some v)"
  unfolding prune_def Let_def
proof (rule runs_bind_pair [OF create])
  fix ref s'
  assume ref: "den dv (input_of inp) ref = Some v" and s': "evaluations_ok inp s'"
  let ?m = "updateBitmap (xxh E) (csm s')"
  have s'': "evaluations_ok inp (s'\<lparr>csm := ?m\<rparr>)"
    using s' by (simp add: evaluations_ok_def)
  have "den True (input_of inp) ref = Some v"
    using ref by (cases dv) (simp_all add: den_False_True)
  then have "runs False (evaluations_ok inp) (evaluate E inp ref (s'\<lparr>csm := ?m\<rparr>))
      (\<lambda>r. value_of r = Some v)"
    by (intro evaluate_law [OF A _ _ s'']) simp_all
  then have "runs False (evaluations_ok inp) (evaluate E inp ref (s'\<lparr>csm := ?m\<rparr>))
      (\<lambda>r. den dv (input_of inp) r = Some v)"
    using conjunct1 [OF den_ok [OF ref]] by (elim runs_mono) (simp add: value_of_ok_den)
  with ref s'' show "runs False (evaluations_ok inp)
      (if isInteresting ?m then Some (ref, s'\<lparr>csm := ?m\<rparr>) else evaluate E inp ref (s'\<lparr>csm := ?m\<rparr>))
      (\<lambda>e. den dv (input_of inp) e = Some v)"
    by simp
qed

lemma prune_sound:
  assumes A: "apint_ok (apint E)" and B: "sound_builder False dv (input_of inp) (evaluations_ok inp) B"
  shows "sound_builder False dv (input_of inp) (evaluations_ok inp) (prune_builder E inp B)"
  by unfold_locales (auto simp: prune_builder_def intro: prune_law [OF A] sound_builder.bool_law [OF B]
      sound_builder.const_law [OF B] sound_builder.constAP_law [OF B] sound_builder.read_law [OF B]
      sound_builder.concat_law [OF B] sound_builder.extract_law [OF B] sound_builder.zext_law [OF B]
      sound_builder.sext_law [OF B] sound_builder.unary_law [OF B] sound_builder.binary_law [OF B]
      sound_builder.ite_law [OF B])

subsection \<open>The stacks\<close>

text \<open>
  \<open>m\<close> and \<open>n\<close> bound the depth of the calls that \<open>CommonSimplifyExprBuilder\<close> and
  \<open>SymbolicExprBuilder\<close> make on themselves.
\<close>

definition cached_base :: "env \<Rightarrow> builder" where
  "cached_base E = cache_builder E base_builder"

definition SymbolicExprBuilder_create :: "env \<Rightarrow> nat \<Rightarrow> nat \<Rightarrow> builder" where
  "SymbolicExprBuilder_create E m n =
     commutative_builder (symbolic_builder n (common_builder (expr_digest E) m
       (const_folding_builder (apint E) (cached_base E))))"

definition PruneExprBuilder_create :: "env \<Rightarrow> 8 word list \<Rightarrow> nat \<Rightarrow> nat \<Rightarrow> builder" where
  "PruneExprBuilder_create E inp m n =
     commutative_builder (symbolic_builder n (common_builder (expr_digest E) m
       (const_folding_builder (apint E) (prune_builder E inp (cached_base E)))))"

lemma folding_stack_sound:
  "apint_ok (apint E) \<Longrightarrow> stable I \<Longrightarrow>
   sound_builder t dv \<rho> I (const_folding_builder (apint E) (cached_base E))"
  unfolding cached_base_def by (intro const_folding_sound cache_sound base_sound)

lemma symbolic_stack_sound:
  "apint_ok (apint E) \<Longrightarrow>
   sound_builder False False \<rho> (\<lambda>_. True) (SymbolicExprBuilder_create E m n)"
  unfolding SymbolicExprBuilder_create_def
  by (intro commutative_sound symbolic_sound common_sound folding_stack_sound) simp_all

lemma prune_stack_sound:
  "apint_ok (apint E) \<Longrightarrow>
   sound_builder False False (input_of inp) (evaluations_ok inp) (PruneExprBuilder_create E inp m n)"
  unfolding PruneExprBuilder_create_def cached_base_def
  by (intro commutative_sound symbolic_sound common_sound const_folding_sound prune_sound cache_sound
      base_sound) simp_all

end
