(* ===== verification/RangeSet.thy ===== *)
theory RangeSet
  imports BuilderLaws
begin

section \<open>Range sets\<close>

text \<open>
  \<open>third_party/llvm/range.h\<close>, \<open>range.cpp\<close> and the part of \<open>codegen/expr.cpp\<close> that records a
  comparison with a constant in the range set of an expression.

  An \<open>APSInt\<close> is modelled by its documented abstract value, the integer that its bits stand for
  under its signedness; comparisons read that value, and arithmetic goes through the
  operations \<open>A\<close> of LLVM's \<open>APInt\<close> on the bits. A \<open>std::set<Range>\<close> is the list of its
  elements in the order of the set, which is the order of pairs.
\<close>

record bit_vector_factory =
  is_unsigned :: bool
  bit_width :: nat

type_synonym apsint = int
type_synonym range = "apsint \<times> apsint"

text \<open>The integer that \<open>bit_width\<close> bits stand for, and the bits of an integer.\<close>

definition aps_read :: "bit_vector_factory \<Rightarrow> int \<Rightarrow> apsint" where
  "aps_read V x = (if is_unsigned V then x else sval (bit_width V) x)"

definition aps_bits :: "bit_vector_factory \<Rightarrow> apsint \<Rightarrow> int" where
  "aps_bits V v = take_bit (bit_width V) v"

definition getValue :: "bit_vector_factory \<Rightarrow> nat \<Rightarrow> int \<Rightarrow> apsint option" where
  "getValue V n x = assert (bit_width V = n) (Some (aps_read V x))"

definition GetMaxValue :: "bit_vector_factory \<Rightarrow> apsint" where
  "GetMaxValue V = (if is_unsigned V then 2 ^ bit_width V - 1 else 2 ^ (bit_width V - 1) - 1)"

definition GetMinValue :: "bit_vector_factory \<Rightarrow> apsint" where
  "GetMinValue V = (if is_unsigned V then 0 else - (2 ^ (bit_width V - 1)))"

text \<open>\<open>operator-\<close>, \<open>++\<close> and \<open>--\<close> of \<open>APSInt\<close>.\<close>

definition aps_sub :: "apint_api \<Rightarrow> bit_vector_factory \<Rightarrow> apsint \<Rightarrow> apsint \<Rightarrow> apsint" where
  "aps_sub A V x y = aps_read V (ap_sub A (bit_width V) (aps_bits V x) (aps_bits V y))"

definition aps_inc :: "apint_api \<Rightarrow> bit_vector_factory \<Rightarrow> apsint \<Rightarrow> apsint" where
  "aps_inc A V x = aps_read V (ap_add A (bit_width V) (aps_bits V x) 1)"

definition aps_dec :: "apint_api \<Rightarrow> bit_vector_factory \<Rightarrow> apsint \<Rightarrow> apsint" where
  "aps_dec A V x = aps_read V (ap_sub A (bit_width V) (aps_bits V x) 1)"

subsection \<open>Intersection with an interval\<close>

text \<open>The constructor of \<open>Range\<close>, with its assertion, and its method \<open>includes\<close>.\<close>

definition Range :: "apsint \<Rightarrow> apsint \<Rightarrow> range option" where
  "Range f t = assert (f \<le> t) (Some (f, t))"

definition range_includes :: "range \<Rightarrow> apsint \<Rightarrow> bool" where
  "range_includes r v \<longleftrightarrow> fst r \<le> v \<and> v \<le> snd r"

fun set_insert :: "range \<Rightarrow> range list \<Rightarrow> range list" where
  "set_insert r [] = [r]"
| "set_insert r (q # rs) =
     (if fst r < fst q \<or> fst r = fst q \<and> snd r < snd q then r # q # rs
      else if r = q then q # rs else q # set_insert r rs)"

record range_set =
  BV_ranges :: bit_vector_factory
  ranges :: "range list"

definition RangeSet :: "bool \<Rightarrow> nat \<Rightarrow> range_set option" where
  "RangeSet u n = (let V = \<lparr>is_unsigned = u, bit_width = n\<rparr> in
     do { r \<leftarrow> Range (GetMinValue V) (GetMaxValue V);
          Some \<lparr>BV_ranges = V, ranges = set_insert r []\<rparr> })"

text \<open>
  \<open>intersectInRange\<close>: the loop over the ranges from the iterator on. It returns the new ranges
  and what the iterator has left, since the caller goes on from there.
\<close>

fun intersectInRange ::
  "apsint \<Rightarrow> apsint \<Rightarrow> range list \<Rightarrow> range list \<Rightarrow> (range list \<times> range list) option" where
  "intersectInRange lower upper new [] = Some (new, [])"
| "intersectInRange lower upper new (i # e) =
     (if snd i < lower then intersectInRange lower upper new e
      else if fst i > upper then Some (new, i # e)
      else if range_includes i lower then
        if range_includes i upper then
          do { r \<leftarrow> Range lower upper; Some (set_insert r new, i # e) }
        else
          do { r \<leftarrow> Range lower (snd i); intersectInRange lower upper (set_insert r new) e }
      else
        if range_includes i upper then
          do { r \<leftarrow> Range (fst i) upper; Some (set_insert r new, i # e) }
        else intersectInRange lower upper (set_insert i new) e)"

definition intersect :: "range_set \<Rightarrow> apsint \<Rightarrow> apsint \<Rightarrow> range_set option" where
  "intersect S lower upper =
     do { new \<leftarrow>
            (if lower \<le> upper then
               do { (new, i) \<leftarrow> intersectInRange lower upper [] (ranges S); Some new }
             else
               do { (new, i) \<leftarrow> intersectInRange (GetMinValue (BV_ranges S)) upper [] (ranges S);
                    (new, i) \<leftarrow> intersectInRange lower (GetMaxValue (BV_ranges S)) new i;
                    Some new });
          Some (S\<lparr>ranges := new\<rparr>) }"

subsection \<open>The six relations\<close>

text \<open>
  \<open>intersectLT\<close> and its five siblings: the values \<open>v\<close> with \<open>v + adjustment rel value\<close>, where the
  sum wraps around. Both bit vectors are given with their width.
\<close>

definition intersectLT :: "apint_api \<Rightarrow> range_set \<Rightarrow> nat \<times> int \<Rightarrow> nat \<times> int \<Rightarrow> range_set option" where
  "intersectLT A S value adjustment = (let V = BV_ranges S in
     do { adj \<leftarrow> getValue V (fst adjustment) (snd adjustment);
          val \<leftarrow> getValue V (fst value) (snd value);
          let min = GetMinValue V;
          let lower = aps_sub A V min adj;
          let upper = aps_sub A V val adj;
          let upper = aps_dec A V upper;
          intersect S lower upper })"

definition intersectLE :: "apint_api \<Rightarrow> range_set \<Rightarrow> nat \<times> int \<Rightarrow> nat \<times> int \<Rightarrow> range_set option" where
  "intersectLE A S value adjustment = (let V = BV_ranges S in
     do { adj \<leftarrow> getValue V (fst adjustment) (snd adjustment);
          val \<leftarrow> getValue V (fst value) (snd value);
          let min = GetMinValue V;
          let lower = aps_sub A V min adj;
          let upper = aps_sub A V val adj;
          intersect S lower upper })"

definition intersectGT :: "apint_api \<Rightarrow> range_set \<Rightarrow> nat \<times> int \<Rightarrow> nat \<times> int \<Rightarrow> range_set option" where
  "intersectGT A S value adjustment = (let V = BV_ranges S in
     do { adj \<leftarrow> getValue V (fst adjustment) (snd adjustment);
          val \<leftarrow> getValue V (fst value) (snd value);
          let max = GetMaxValue V;
          let lower = aps_sub A V val adj;
          let lower = aps_inc A V lower;
          let upper = aps_sub A V max adj;
          intersect S lower upper })"

definition intersectGE :: "apint_api \<Rightarrow> range_set \<Rightarrow> nat \<times> int \<Rightarrow> nat \<times> int \<Rightarrow> range_set option" where
  "intersectGE A S value adjustment = (let V = BV_ranges S in
     do { adj \<leftarrow> getValue V (fst adjustment) (snd adjustment);
          val \<leftarrow> getValue V (fst value) (snd value);
          let max = GetMaxValue V;
          let lower = aps_sub A V val adj;
          let upper = aps_sub A V max adj;
          intersect S lower upper })"

definition intersectEQ :: "apint_api \<Rightarrow> range_set \<Rightarrow> nat \<times> int \<Rightarrow> nat \<times> int \<Rightarrow> range_set option" where
  "intersectEQ A S value adjustment = (let V = BV_ranges S in
     do { adj \<leftarrow> getValue V (fst adjustment) (snd adjustment);
          val \<leftarrow> getValue V (fst value) (snd value);
          let lower = aps_sub A V val adj;
          let upper = aps_sub A V val adj;
          intersect S lower upper })"

definition intersectNE :: "apint_api \<Rightarrow> range_set \<Rightarrow> nat \<times> int \<Rightarrow> nat \<times> int \<Rightarrow> range_set option" where
  "intersectNE A S value adjustment = (let V = BV_ranges S in
     do { adj \<leftarrow> getValue V (fst adjustment) (snd adjustment);
          val \<leftarrow> getValue V (fst value) (snd value);
          let lower = aps_sub A V val adj;
          let lower = aps_inc A V lower;
          let upper = aps_sub A V val adj;
          let upper = aps_dec A V upper;
          intersect S lower upper })"

text \<open>\<open>size\<close>, in 32-bit arithmetic, where a 64-bit difference is cut to 32 bits.\<close>

definition range_set_size :: "apint_api \<Rightarrow> range_set \<Rightarrow> 32 word" where
  "range_set_size A S = (let V = BV_ranges S in
     if bit_width V > 64 then 1073741823
     else fold (\<lambda>r res. res + (word_of_int (aps_bits V (aps_sub A V (snd r) (fst r))) + 1)) (ranges S) 0)"

definition num_intervals :: "range_set \<Rightarrow> nat" where
  "num_intervals S = length (ranges S)"

subsection \<open>Range sets of an expression\<close>

text \<open>
  \<open>range_sets[2]\<close> of an expression: the set of the signed constraints and that of the unsigned
  ones, each absent until it is needed.
\<close>

record range_sets =
  signed_set :: "range_set option"
  unsigned_set :: "range_set option"

definition no_range_sets :: range_sets where
  "no_range_sets = \<lparr>signed_set = None, unsigned_set = None\<rparr>"

definition getRangeSet :: "bool \<Rightarrow> range_sets \<Rightarrow> range_set option" where
  "getRangeSet u R = (if u then unsigned_set R else signed_set R)"

definition setRangeSet :: "bool \<Rightarrow> range_set \<Rightarrow> range_sets \<Rightarrow> range_sets" where
  "setRangeSet u S R = (if u then R\<lparr>unsigned_set := Some S\<rparr> else R\<lparr>signed_set := Some S\<rparr>)"

text \<open>\<open>Expr::addConstraint(RangeSet&, ...)\<close>; other kinds are \<open>UNREACHABLE()\<close>.\<close>

fun addConstraint_kind ::
  "apint_api \<Rightarrow> range_set \<Rightarrow> kind \<Rightarrow> nat \<times> int \<Rightarrow> nat \<times> int \<Rightarrow> range_set option" where
  "addConstraint_kind A S Slt rhs adj = intersectLT A S rhs adj"
| "addConstraint_kind A S Ult rhs adj = intersectLT A S rhs adj"
| "addConstraint_kind A S Sle rhs adj = intersectLE A S rhs adj"
| "addConstraint_kind A S Ule rhs adj = intersectLE A S rhs adj"
| "addConstraint_kind A S Sgt rhs adj = intersectGT A S rhs adj"
| "addConstraint_kind A S Ugt rhs adj = intersectGT A S rhs adj"
| "addConstraint_kind A S Sge rhs adj = intersectGE A S rhs adj"
| "addConstraint_kind A S Uge rhs adj = intersectGE A S rhs adj"
| "addConstraint_kind A S Equal rhs adj = intersectEQ A S rhs adj"
| "addConstraint_kind A S Distinct rhs adj = intersectNE A S rhs adj"
| "addConstraint_kind A S _ rhs adj = None"

text \<open>\<open>Expr::addConstraint(bool, ...)\<close> of an expression of \<open>n\<close> bits.\<close>

definition addConstraint_set ::
  "apint_api \<Rightarrow> nat \<Rightarrow> bool \<Rightarrow> kind \<Rightarrow> nat \<times> int \<Rightarrow> nat \<times> int \<Rightarrow> range_sets \<Rightarrow> range_sets option" where
  "addConstraint_set A n u k rhs adj R =
     do { rs \<leftarrow> (case getRangeSet u R of None \<Rightarrow> RangeSet u n | Some rs \<Rightarrow> Some rs);
          rs \<leftarrow> addConstraint_kind A rs k rhs adj;
          Some (setRangeSet u rs R) }"

text \<open>\<open>Expr::addConstraint(Kind, ...)\<close>: unsigned comparisons go to the unsigned set, all others to the signed one.\<close>

definition addConstraint ::
  "apint_api \<Rightarrow> nat \<Rightarrow> kind \<Rightarrow> nat \<times> int \<Rightarrow> nat \<times> int \<Rightarrow> range_sets \<Rightarrow> range_sets option" where
  "addConstraint A n k rhs adj R =
     (if k \<in> {Slt, Sle, Sgt, Sge} then addConstraint_set A n False k rhs adj R
      else if k \<in> {Ult, Ule, Ugt, Uge} then addConstraint_set A n True k rhs adj R
      else if k \<in> {Equal, Distinct} then addConstraint_set A n False k rhs adj R
      else Some R)"

subsection \<open>The values of a range set\<close>

definition V_ok :: "bit_vector_factory \<Rightarrow> bool" where
  "V_ok V \<longleftrightarrow> 0 < bit_width V"

definition in_factory :: "bit_vector_factory \<Rightarrow> apsint \<Rightarrow> bool" where
  "in_factory V v \<longleftrightarrow> GetMinValue V \<le> v \<and> v \<le> GetMaxValue V"

lemma max_min: "V_ok V \<Longrightarrow> GetMaxValue V = GetMinValue V + 2 ^ bit_width V - 1"
  by (cases "bit_width V") (auto simp: V_ok_def GetMaxValue_def GetMinValue_def)

lemma aps_read_range: "V_ok V \<Longrightarrow> in_range (bit_width V) x \<Longrightarrow> in_factory V (aps_read V x)"
  using sval_range [of "bit_width V" x]
  by (auto simp: V_ok_def in_factory_def aps_read_def GetMinValue_def GetMaxValue_def in_range_def)

lemma aps_bits_in_range [simp]: "in_range (bit_width V) (aps_bits V v)"
  by (simp add: aps_bits_def)

lemma aps_bits_read: "V_ok V \<Longrightarrow> in_range (bit_width V) x \<Longrightarrow> aps_bits V (aps_read V x) = x"
  by (simp add: V_ok_def aps_bits_def aps_read_def take_bit_sval in_range_take_bit)

text \<open>A value of the factory is determined by its residue.\<close>

lemma in_factory_eqI:
  assumes "V_ok V" "in_factory V v" "in_factory V w" "v mod 2 ^ bit_width V = w mod 2 ^ bit_width V"
  shows "v = w"
proof -
  let ?N = "2 ^ bit_width V :: int"
  from assms(4) have "(v - w) mod ?N = 0"
    by (simp add: mod_eq_dvd_iff)
  moreover have "\<bar>v - w\<bar> < ?N"
    using assms(1-3) by (simp add: in_factory_def max_min abs_less_iff)
  ultimately show ?thesis
    by (metis dvd_imp_le_int eq_iff_diff_eq_0 linorder_not_le mod_0_imp_dvd abs_of_nonneg zero_le_power zero_le_numeral)
qed

lemma aps_read_mod: "V_ok V \<Longrightarrow> aps_read V x mod 2 ^ bit_width V = x mod 2 ^ bit_width V"
  using take_bit_sval [of "bit_width V" x] by (simp add: V_ok_def aps_read_def take_bit_eq_mod)

lemma aps_read_bits:
  assumes "V_ok V" "in_factory V v" shows "aps_read V (aps_bits V v) = v"
proof (rule in_factory_eqI [OF assms(1)])
  show "in_factory V (aps_read V (aps_bits V v))"
    using assms(1) by (simp add: aps_read_range)
  show "aps_read V (aps_bits V v) mod 2 ^ bit_width V = v mod 2 ^ bit_width V"
    using assms(1) by (simp add: aps_read_mod) (simp add: aps_bits_def take_bit_eq_mod)
qed (rule assms(2))

lemma aps_arith:
  assumes "apint_ok A" "V_ok V"
  shows "in_factory V (aps_sub A V x y)" "in_factory V (aps_inc A V x)" "in_factory V (aps_dec A V x)"
    and "aps_sub A V x y mod 2 ^ bit_width V = (x - y) mod 2 ^ bit_width V"
    and "aps_inc A V x mod 2 ^ bit_width V = (x + 1) mod 2 ^ bit_width V"
    and "aps_dec A V x mod 2 ^ bit_width V = (x - 1) mod 2 ^ bit_width V"
proof -
  let ?n = "bit_width V"
  have n: "0 < ?n"
    using assms(2) by (simp add: V_ok_def)
  note ok = apint_okD [OF assms(1) n aps_bits_in_range]
  have "ap_sub A ?n (aps_bits V x) (aps_bits V y) = take_bit ?n (aps_bits V x - aps_bits V y)"
    using ok [OF aps_bits_in_range] by blast
  then have sub: "ap_sub A ?n (aps_bits V x) (aps_bits V y) = take_bit ?n (x - y)"
    by (simp add: aps_bits_def modular)
  have "ap_sub A ?n (aps_bits V x) 1 = take_bit ?n (aps_bits V x - 1)"
    "ap_add A ?n (aps_bits V x) 1 = take_bit ?n (aps_bits V x + 1)"
    using ok [OF in_range_1 [OF n]] by blast+
  then have one: "ap_sub A ?n (aps_bits V x) 1 = take_bit ?n (x - 1)"
    "ap_add A ?n (aps_bits V x) 1 = take_bit ?n (x + 1)"
    by (simp_all add: aps_bits_def modular)
  show "in_factory V (aps_sub A V x y)" "in_factory V (aps_inc A V x)" "in_factory V (aps_dec A V x)"
    using assms(2) by (simp_all add: aps_sub_def aps_inc_def aps_dec_def sub one aps_read_range)
  show "aps_sub A V x y mod 2 ^ ?n = (x - y) mod 2 ^ ?n"
    "aps_inc A V x mod 2 ^ ?n = (x + 1) mod 2 ^ ?n" "aps_dec A V x mod 2 ^ ?n = (x - 1) mod 2 ^ ?n"
    using assms(2) by (simp_all add: aps_sub_def aps_inc_def aps_dec_def sub one aps_read_mod)
      (simp_all add: take_bit_eq_mod)
qed

text \<open>
  \<open>ranges_ok\<close>: the intervals are in order, they do not overlap, and their bounds are values of
  the factory. \<open>members\<close> is the set of integers they stand for.
\<close>

definition before :: "range \<Rightarrow> range \<Rightarrow> bool" where
  "before p q \<longleftrightarrow> snd p < fst q"

definition ranges_ok :: "bit_vector_factory \<Rightarrow> range list \<Rightarrow> bool" where
  "ranges_ok V rs \<longleftrightarrow> sorted_wrt before rs \<and>
     (\<forall>r \<in> set rs. GetMinValue V \<le> fst r \<and> fst r \<le> snd r \<and> snd r \<le> GetMaxValue V)"

definition members :: "range list \<Rightarrow> int set" where
  "members rs = (\<Union>r \<in> set rs. {fst r..snd r})"

lemma members_simps [simp]:
  "members [] = {}" "members (r # rs) = {fst r..snd r} \<union> members rs"
  "members (rs @ qs) = members rs \<union> members qs"
  by (auto simp: members_def)

text \<open>An insertion after all others appends.\<close>

lemma set_insert_last:
  "(\<And>q. q \<in> set rs \<Longrightarrow> fst q \<le> snd q \<and> before q r) \<Longrightarrow> set_insert r rs = rs @ [r]"
proof (induction rs)
  case (Cons q rs)
  have "fst q < fst r"
    using Cons.prems [of q] by (simp add: before_def)
  with Cons show ?case
    by auto
qed simp

text \<open>The reference for the loop: every range cut to the interval, and the empty ones dropped.\<close>

definition clip :: "int \<Rightarrow> int \<Rightarrow> range list \<Rightarrow> range list" where
  "clip lower upper rs =
     map (\<lambda>(f, t). (max f lower, min t upper)) (filter (\<lambda>(f, t). f \<le> upper \<and> lower \<le> t) rs)"

definition proper :: "range list \<Rightarrow> bool" where
  "proper rs \<longleftrightarrow> sorted_wrt before rs \<and> (\<forall>r \<in> set rs. fst r \<le> snd r)"

lemma clip_later: "(\<And>r. r \<in> set rs \<Longrightarrow> upper < fst r) \<Longrightarrow> clip lower upper rs = []"
  by (fastforce simp: clip_def filter_empty_conv)

lemma clip_earlier: "(\<And>r. r \<in> set rs \<Longrightarrow> snd r < lower) \<Longrightarrow> clip lower upper rs = []"
  by (fastforce simp: clip_def filter_empty_conv)

lemma clip_Cons:
  "clip lower upper (r # rs) =
     (if fst r \<le> upper \<and> lower \<le> snd r then [(max (fst r) lower, min (snd r) upper)] else [])
     @ clip lower upper rs"
  by (cases r) (simp add: clip_def)

lemma clip_Nil [simp]: "clip lower upper [] = []"
  by (simp add: clip_def)

lemma members_clip: "members (clip lower upper rs) = members rs \<inter> {lower..upper}"
proof (induction rs)
  case (Cons r rs)
  have "{max (fst r) lower..min (snd r) upper} = {fst r..snd r} \<inter> {lower..upper}"
    by (simp add: max_def min_def)
  moreover have "{fst r..snd r} \<inter> {lower..upper} = {}" if "\<not> (fst r \<le> upper \<and> lower \<le> snd r)"
    using that by fastforce
  ultimately show ?case
    using Cons.IH by (simp add: clip_Cons Int_Un_distrib2)
qed simp

lemma proper_Cons:
  "proper (r # rs) \<longleftrightarrow> proper rs \<and> fst r \<le> snd r \<and> (\<forall>q \<in> set rs. before r q)"
  by (auto simp: proper_def)

lemma proper_append:
  "proper (rs @ qs) \<longleftrightarrow> proper rs \<and> proper qs \<and> (\<forall>r \<in> set rs. \<forall>q \<in> set qs. before r q)"
  by (auto simp: proper_def sorted_wrt_append)

lemma set_insert_proper: "proper (rs @ [r]) \<Longrightarrow> set_insert r rs = rs @ [r]"
  by (rule set_insert_last) (auto simp: proper_def sorted_wrt_append)

lemma proper_clip: "proper rs \<Longrightarrow> lower \<le> upper \<Longrightarrow> proper (clip lower upper rs)"
proof (induction rs)
  case (Cons r rs)
  have "snd r < fst q" if "q \<in> set (clip lower upper rs)" for q
    using Cons.prems(1) that by (fastforce simp: clip_def proper_Cons before_def)
  moreover have "proper rs" "fst r \<le> snd r"
    using Cons.prems(1) by (auto simp: proper_Cons)
  ultimately show ?case
    using Cons.IH Cons.prems(2) by (fastforce simp: clip_Cons proper_Cons before_def)
qed (simp add: clip_def proper_def)

lemma intersectInRange_clip:
  assumes "proper i" "lower \<le> upper" "proper (new @ clip lower upper i)"
  shows "\<exists>skipped rest. i = skipped @ rest \<and> (\<forall>r \<in> set skipped. snd r < upper) \<and>
    intersectInRange lower upper new i = Some (new @ clip lower upper i, rest)"
  using assms
proof (induction i arbitrary: new)
  case (Cons r e)
  have r: "fst r \<le> snd r" and e: "proper e" "\<And>q. q \<in> set e \<Longrightarrow> snd r < fst q"
    using Cons.prems(1) by (auto simp: proper_Cons before_def)
  consider "snd r < lower" | "lower \<le> snd r" "upper < fst r"
    | "lower \<le> snd r" "fst r \<le> upper" "upper \<le> snd r"
    | "lower \<le> snd r" "fst r \<le> upper" "snd r < upper"
    by linarith
  then show ?case
  proof cases
    case 1
    then have "clip lower upper (r # e) = clip lower upper e"
      by (simp add: clip_Cons)
    with 1 Cons.IH [of new] Cons.prems e(1) show ?thesis
      by (fastforce intro: exI [of _ "r # _"] simp: Cons_eq_append_conv)
  next
    case 2
    then have "clip lower upper (r # e) = []"
      using e(2) r by (intro clip_later) fastforce
    with 2 r have "intersectInRange lower upper new (r # e) = Some (new @ clip lower upper (r # e), r # e)"
      by simp
    then show ?thesis
      by fastforce
  next
    case 3
    then have "clip lower upper e = []"
      using e(2) by (intro clip_later) fastforce
    then have c: "clip lower upper (r # e) = [(max (fst r) lower, upper)]"
      using 3 by (simp add: clip_Cons)
    have "set_insert (max (fst r) lower, upper) new = new @ clip lower upper (r # e)"
      using Cons.prems(3) by (simp add: c set_insert_proper)
    with 3 Cons.prems(2)
    have "intersectInRange lower upper new (r # e) = Some (new @ clip lower upper (r # e), r # e)"
      by (auto simp: range_includes_def Range_def max_def)
    then show ?thesis
      by fastforce
  next
    case 4
    then have c: "clip lower upper (r # e) = (max (fst r) lower, snd r) # clip lower upper e"
      by (simp add: clip_Cons)
    have p: "proper ((new @ [(max (fst r) lower, snd r)]) @ clip lower upper e)"
      using Cons.prems(3) by (simp add: c)
    then have ins: "set_insert (max (fst r) lower, snd r) new = new @ [(max (fst r) lower, snd r)]"
      by (metis proper_append set_insert_proper)
    have "intersectInRange lower upper new (r # e) =
        intersectInRange lower upper (new @ [(max (fst r) lower, snd r)]) e"
      using 4 r ins by (auto simp: range_includes_def Range_def max_def)
    with Cons.IH [OF e(1) Cons.prems(2) p] 4 c show ?thesis
      by (fastforce intro: exI [of _ "r # _"] simp: Cons_eq_append_conv)
  qed
qed (simp add: clip_def)

text \<open>
  \<open>intersect\<close> never aborts on an ordered set, keeps it ordered, and cuts it to the interval; with
  \<open>upper < lower\<close> the interval wraps around, and the shared iterator loses nothing.
\<close>

lemma intersect_members:
  assumes ok: "ranges_ok (BV_ranges S) (ranges S)"
    and l: "in_factory (BV_ranges S) lower" and u: "in_factory (BV_ranges S) upper"
  shows "\<exists>rs. intersect S lower upper = Some (S\<lparr>ranges := rs\<rparr>) \<and> ranges_ok (BV_ranges S) rs \<and>
    members rs = members (ranges S) \<inter>
      (if lower \<le> upper then {lower..upper} else {..upper} \<union> {lower..})"
proof -
  let ?V = "BV_ranges S" and ?i = "ranges S"
  have i: "proper ?i" and bound: "\<And>r. r \<in> set ?i \<Longrightarrow> GetMinValue ?V \<le> fst r \<and> snd r \<le> GetMaxValue ?V"
    using ok by (auto simp: ranges_ok_def proper_def)
  have okI: "ranges_ok ?V rs" if "proper rs" "\<And>r. r \<in> set rs \<Longrightarrow> in_factory ?V (fst r) \<and> in_factory ?V (snd r)" for rs
    using that by (auto simp: ranges_ok_def proper_def in_factory_def)
  have clip_bound: "in_factory ?V (fst r) \<and> in_factory ?V (snd r)"
    if "r \<in> set (clip a b ?i)" "in_factory ?V a" "in_factory ?V b" for r a b
    using that bound by (fastforce simp: clip_def in_factory_def max_def min_def)
  show ?thesis
  proof (cases "lower \<le> upper")
    case True
    let ?c = "clip lower upper ?i"
    have c: "proper ?c"
      by (rule proper_clip [OF i True])
    with intersectInRange_clip [OF i True, of "[]"]
    have "intersect S lower upper = Some (S\<lparr>ranges := ?c\<rparr>)"
      using True by (auto simp: intersect_def)
    with True c show ?thesis
      using clip_bound [OF _ l u] by (auto intro!: okI simp: members_clip)
  next
    case False
    let ?a = "clip (GetMinValue ?V) upper ?i" and ?b = "clip lower (GetMaxValue ?V) ?i"
    have mu: "GetMinValue ?V \<le> upper" "lower \<le> GetMaxValue ?V"
      using l u by (auto simp: in_factory_def)
    have ab: "proper ?a" "proper ?b"
      using proper_clip [OF i] mu by auto
    have ab_ok: "proper (?a @ ?b)"
      using ab False by (auto simp: proper_append clip_def before_def)
    obtain skipped rest where rest: "?i = skipped @ rest" "\<forall>r \<in> set skipped. snd r < upper"
      and first: "intersectInRange (GetMinValue ?V) upper [] ?i = Some (?a, rest)"
      using intersectInRange_clip [OF i mu(1), of "[]"] ab(1) by auto
    have "clip lower (GetMaxValue ?V) skipped = []"
      using rest(2) False by (intro clip_earlier) fastforce
    then have b: "?b = clip lower (GetMaxValue ?V) rest"
      by (simp add: rest(1) clip_def)
    have "proper rest"
      using i by (simp add: rest(1) proper_append)
    from intersectInRange_clip [OF this mu(2), of ?a] ab_ok
    obtain rest' where "intersectInRange lower (GetMaxValue ?V) ?a rest = Some (?a @ ?b, rest')"
      by (auto simp: b)
    with first False have res: "intersect S lower upper = Some (S\<lparr>ranges := ?a @ ?b\<rparr>)"
      by (simp add: intersect_def)
    have "in_factory ?V (GetMinValue ?V)" "in_factory ?V (GetMaxValue ?V)"
      using l by (auto simp: in_factory_def)
    then have "ranges_ok ?V (?a @ ?b)"
      using ab_ok clip_bound [OF _ _ u] clip_bound [OF _ l] by (intro okI) auto
    moreover have "members ?i \<subseteq> {GetMinValue ?V..GetMaxValue ?V}"
      using bound by (force simp: members_def)
    then have "members (?a @ ?b) = members ?i \<inter> ({..upper} \<union> {lower..})"
      unfolding members_simps members_clip by fastforce
    ultimately show ?thesis
      using res False by (intro exI [of _ "?a @ ?b"]) simp
  qed
qed

text \<open>The same with residues: what is left lies on the arc from \<open>lower\<close> to \<open>upper\<close>.\<close>

definition on_arc :: "bit_vector_factory \<Rightarrow> int \<Rightarrow> int \<Rightarrow> int \<Rightarrow> bool" where
  "on_arc V lower upper v \<longleftrightarrow>
     (v - lower) mod 2 ^ bit_width V \<le> (upper - lower) mod 2 ^ bit_width V"

lemma mod_shift:
  fixes a N :: int assumes "- N \<le> a" "a < N" shows "a mod N = (if 0 \<le> a then a else a + N)"
proof (cases "0 \<le> a")
  case False
  then have "(a + N) mod N = a + N"
    using assms by (intro mod_pos_pos_trivial) auto
  with False show ?thesis
    by simp
qed (use assms in simp)

lemma on_arc_iff:
  assumes "V_ok V" "in_factory V lower" "in_factory V upper" "in_factory V v"
  shows "on_arc V lower upper v \<longleftrightarrow>
    v \<in> (if lower \<le> upper then {lower..upper} else {..upper} \<union> {lower..})"
proof -
  let ?N = "2 ^ bit_width V :: int"
  have d: "- ?N < a - b" "a - b < ?N" if "in_factory V a" "in_factory V b" for a b
    using that assms(1) by (auto simp: in_factory_def max_min)
  show ?thesis
    using d [OF assms(3,2)] d [OF assms(4,2)] d [OF assms(4,3)]
    by (auto simp: on_arc_def mod_shift)
qed

text \<open>Both bounds of the arc moved by the adjustment.\<close>

lemma on_arc_shift:
  assumes "V_ok V" "lower mod 2 ^ bit_width V = (L - a) mod 2 ^ bit_width V"
    "upper mod 2 ^ bit_width V = (U - a) mod 2 ^ bit_width V"
    "y mod 2 ^ bit_width V = (v + a) mod 2 ^ bit_width V"
  shows "on_arc V lower upper v \<longleftrightarrow> on_arc V L U y"
proof -
  let ?N = "2 ^ bit_width V :: int"
  have "(v - lower) mod ?N = (y - L) mod ?N"
    using assms(2,4) by (metis (no_types, opaque_lifting) add_diff_cancel_right diff_add_cancel mod_diff_eq)
  moreover have "(upper - lower) mod ?N = (U - L) mod ?N"
    using assms(2,3) by (metis (no_types, opaque_lifting) diff_diff_eq2 diff_add_cancel mod_diff_eq)
  ultimately show ?thesis
    by (simp add: on_arc_def)
qed

text \<open>What each interval says of a value of the factory.\<close>

lemma arc_relations:
  assumes "V_ok V" "in_factory V y" "in_factory V c"
  shows "on_arc V (GetMinValue V) (c - 1) y \<longleftrightarrow> y < c \<or> c = GetMinValue V"
    and "on_arc V (GetMinValue V) c y \<longleftrightarrow> y \<le> c"
    and "on_arc V (c + 1) (GetMaxValue V) y \<longleftrightarrow> c < y \<or> c = GetMaxValue V"
    and "on_arc V c (GetMaxValue V) y \<longleftrightarrow> c \<le> y"
    and "on_arc V c c y \<longleftrightarrow> y = c"
    and "on_arc V (c + 1) (c - 1) y \<longleftrightarrow> y \<noteq> c"
proof -
  have "(2 :: int) ^ 1 \<le> 2 ^ bit_width V"
    using assms(1) by (intro power_increasing) (auto simp: V_ok_def Suc_le_eq)
  then have N: "2 \<le> (2 :: int) ^ bit_width V"
    by simp
  show "on_arc V (GetMinValue V) (c - 1) y \<longleftrightarrow> y < c \<or> c = GetMinValue V"
    "on_arc V (GetMinValue V) c y \<longleftrightarrow> y \<le> c"
    "on_arc V (c + 1) (GetMaxValue V) y \<longleftrightarrow> c < y \<or> c = GetMaxValue V"
    "on_arc V c (GetMaxValue V) y \<longleftrightarrow> c \<le> y"
    "on_arc V c c y \<longleftrightarrow> y = c"
    "on_arc V (c + 1) (c - 1) y \<longleftrightarrow> y \<noteq> c"
    using assms(2,3) N by (auto simp: on_arc_def in_factory_def max_min [OF assms(1)] mod_shift)
qed

subsection \<open>Recording a comparison\<close>

text \<open>
  \<open>fits u k\<close>: the sets that the code chooses for a comparison. \<open>vacuous\<close>: the comparisons that no
  value satisfies but whose interval wraps around to the whole range, \<open>v < min\<close> and \<open>max < v\<close>.
\<close>

definition fits :: "bool \<Rightarrow> kind \<Rightarrow> bool" where
  "fits u k \<longleftrightarrow> k \<in> {Equal, Distinct} \<or> k \<in> (if u then {Ult, Ule, Ugt, Uge} else {Slt, Sle, Sgt, Sge})"

definition vacuous :: "bit_vector_factory \<Rightarrow> kind \<Rightarrow> int \<Rightarrow> bool" where
  "vacuous V k c \<longleftrightarrow> k \<in> {Slt, Ult} \<and> aps_read V c = GetMinValue V \<or>
     k \<in> {Sgt, Ugt} \<and> aps_read V c = GetMaxValue V"

definition relation_holds :: "kind \<Rightarrow> nat \<Rightarrow> int \<Rightarrow> int \<Rightarrow> bool" where
  "relation_holds k n x y \<longleftrightarrow> bv_compare k n x y = Some True"

lemma getValue_ok [simp]: "getValue V (bit_width V) x = Some (aps_read V x)"
  by (simp add: getValue_def)

text \<open>\<open>cuts S L U a m\<close>: the run \<open>m\<close> leaves of \<open>S\<close> the values that \<open>a\<close> moves onto an arc.\<close>

definition cuts :: "range_set \<Rightarrow> int \<Rightarrow> int \<Rightarrow> int \<Rightarrow> range_set option \<Rightarrow> bool" where
  "cuts S L U a m \<longleftrightarrow> (\<exists>rs. m = Some (S\<lparr>ranges := rs\<rparr>) \<and> ranges_ok (BV_ranges S) rs \<and>
    (\<forall>v y. in_factory (BV_ranges S) v \<longrightarrow>
       y mod 2 ^ bit_width (BV_ranges S) = (v + a) mod 2 ^ bit_width (BV_ranges S) \<longrightarrow>
       (v \<in> members rs \<longleftrightarrow> v \<in> members (ranges S) \<and> on_arc (BV_ranges S) L U y)))"

lemma intersect_step:
  assumes ok: "ranges_ok (BV_ranges S) (ranges S)" and V: "V_ok (BV_ranges S)"
    and l: "in_factory (BV_ranges S) lower"
      "lower mod 2 ^ bit_width (BV_ranges S) = (L - a) mod 2 ^ bit_width (BV_ranges S)"
    and u: "in_factory (BV_ranges S) upper"
      "upper mod 2 ^ bit_width (BV_ranges S) = (U - a) mod 2 ^ bit_width (BV_ranges S)"
  shows "cuts S L U a (intersect S lower upper)"
proof -
  have "on_arc (BV_ranges S) L U y \<longleftrightarrow> v \<in> (if lower \<le> upper then {lower..upper} else {..upper} \<union> {lower..})"
    if "in_factory (BV_ranges S) v" "y mod 2 ^ bit_width (BV_ranges S) = (v + a) mod 2 ^ bit_width (BV_ranges S)" for v y
    using on_arc_iff [OF V l(1) u(1) that(1)] on_arc_shift [OF V l(2) u(2) that(2)] by simp
  with intersect_members [OF ok l(1) u(1)] show ?thesis
    unfolding cuts_def by blast
qed

lemma sub_then:
  assumes "apint_ok A" "V_ok V"
  shows "aps_sub A V x y mod 2 ^ bit_width V = (x - y) mod 2 ^ bit_width V"
    and "aps_inc A V (aps_sub A V x y) mod 2 ^ bit_width V = (x + 1 - y) mod 2 ^ bit_width V"
    and "aps_dec A V (aps_sub A V x y) mod 2 ^ bit_width V = (x - 1 - y) mod 2 ^ bit_width V"
proof -
  note ar = aps_arith(4-6) [OF assms]
  show "aps_sub A V x y mod 2 ^ bit_width V = (x - y) mod 2 ^ bit_width V"
    by (rule ar)
  show "aps_inc A V (aps_sub A V x y) mod 2 ^ bit_width V = (x + 1 - y) mod 2 ^ bit_width V"
    using ar(1) [of x y] ar(2) [of "aps_sub A V x y"] by (metis add_diff_eq add.commute mod_add_left_eq)
  show "aps_dec A V (aps_sub A V x y) mod 2 ^ bit_width V = (x - 1 - y) mod 2 ^ bit_width V"
    using ar(1) [of x y] ar(3) [of "aps_sub A V x y"] by (metis diff_right_commute mod_diff_left_eq)
qed

text \<open>The interval of each kind, before the adjustment.\<close>

definition relation_arc :: "bit_vector_factory \<Rightarrow> kind \<Rightarrow> int \<Rightarrow> int \<times> int" where
  "relation_arc V k c =
     (if k \<in> {Slt, Ult} then (GetMinValue V, c - 1)
      else if k \<in> {Sle, Ule} then (GetMinValue V, c)
      else if k \<in> {Sgt, Ugt} then (c + 1, GetMaxValue V)
      else if k \<in> {Sge, Uge} then (c, GetMaxValue V)
      else if k = Equal then (c, c) else (c + 1, c - 1))"

lemma relation_arc_holds:
  assumes V: "V_ok V" and k: "fits (is_unsigned V) k"
    and x: "in_range (bit_width V) x" and c: "in_range (bit_width V) c"
  shows "on_arc V (fst (relation_arc V k (aps_read V c))) (snd (relation_arc V k (aps_read V c))) (aps_read V x)
    \<longleftrightarrow> relation_holds k (bit_width V) x c \<or> vacuous V k c"
proof -
  note arcs = arc_relations [OF V aps_read_range [OF V x] aps_read_range [OF V c]]
  have inj: "aps_read V x = aps_read V c \<longleftrightarrow> x = c"
    using V x c by (metis aps_bits_read)
  show ?thesis
  proof (cases "is_unsigned V")
    case True
    then have "relation_holds k (bit_width V) x c = relation_holds k (bit_width V) (aps_read V x) (aps_read V c)"
      by (simp add: aps_read_def)
    with k True show ?thesis
      unfolding fits_def
      by (simp, elim disjE; simp add: relation_arc_def relation_holds_def vacuous_def arcs inj)
  next
    case False
    then have "sval (bit_width V) x = aps_read V x" "sval (bit_width V) c = aps_read V c"
      by (simp_all add: aps_read_def)
    with k False show ?thesis
      unfolding fits_def
      by (simp, elim disjE; simp add: relation_arc_def relation_holds_def vacuous_def arcs inj)
  qed
qed

lemma addConstraint_kind_arc:
  assumes A: "apint_ok A" and V: "V_ok (BV_ranges S)" and ok: "ranges_ok (BV_ranges S) (ranges S)"
    and k: "fits (is_unsigned (BV_ranges S)) k" and n: "n = bit_width (BV_ranges S)"
    and LU: "relation_arc (BV_ranges S) k (aps_read (BV_ranges S) c) = (L, U)"
  shows "cuts S L U (aps_read (BV_ranges S) a) (addConstraint_kind A S k (n, c) (n, a))"
proof -
  note sub = sub_then [OF A V] and arith = aps_arith(1-3) [OF A V]
  note step = intersect_step [OF ok V arith(1) sub(1) arith(1) sub(1)]
    intersect_step [OF ok V arith(1) sub(1) arith(3) sub(3)]
    intersect_step [OF ok V arith(2) sub(2) arith(1) sub(1)]
    intersect_step [OF ok V arith(2) sub(2) arith(3) sub(3)]
  have LU': "L = fst (relation_arc (BV_ranges S) k (aps_read (BV_ranges S) c))"
    "U = snd (relation_arc (BV_ranges S) k (aps_read (BV_ranges S) c))"
    by (simp_all add: LU)
  show ?thesis
    using k step unfolding LU'
    by (cases k) (simp_all add: fits_def relation_arc_def Let_def n intersectLT_def intersectLE_def
        intersectGT_def intersectGE_def intersectEQ_def intersectNE_def split: if_splits)
qed

lemma addConstraint_kind_members:
  assumes A: "apint_ok A" and V: "V_ok (BV_ranges S)" and ok: "ranges_ok (BV_ranges S) (ranges S)"
    and k: "fits (is_unsigned (BV_ranges S)) k" and n: "n = bit_width (BV_ranges S)"
    and c: "in_range n c"
  shows "\<exists>rs. addConstraint_kind A S k (n, c) (n, a) = Some (S\<lparr>ranges := rs\<rparr>) \<and>
    ranges_ok (BV_ranges S) rs \<and>
    (\<forall>x. in_range n x \<longrightarrow>
      (aps_read (BV_ranges S) x \<in> members rs \<longleftrightarrow>
         aps_read (BV_ranges S) x \<in> members (ranges S) \<and>
         (relation_holds k n (take_bit n (x + a)) c \<or> vacuous (BV_ranges S) k c)))"
proof -
  let ?V = "BV_ranges S" and ?r = "aps_read (BV_ranges S)"
  obtain L U where LU: "relation_arc ?V k (?r c) = (L, U)"
    by force
  have "?r (take_bit n (x + a)) mod 2 ^ n = (?r x + ?r a) mod 2 ^ n" for x
  proof -
    have "?r (take_bit n (x + a)) mod 2 ^ n = (x + a) mod 2 ^ n"
      by (simp add: aps_read_mod [OF V] n) (simp add: take_bit_eq_mod)
    then show ?thesis
      using aps_read_mod [OF V] by (metis n mod_add_eq)
  qed
  moreover have "on_arc ?V L U (?r (take_bit n (x + a))) \<longleftrightarrow>
      relation_holds k n (take_bit n (x + a)) c \<or> vacuous ?V k c" for x
    using relation_arc_holds [OF V k, of "take_bit n (x + a)" c] c by (simp add: n LU)
  ultimately show ?thesis
    using addConstraint_kind_arc [OF A V ok k n LU, of a] aps_read_range [OF V]
    unfolding n cuts_def by blast
qed

text \<open>A new set holds every value.\<close>

lemma RangeSet_members:
  assumes "0 < n"
  shows "\<exists>S. RangeSet u n = Some S \<and> BV_ranges S = \<lparr>is_unsigned = u, bit_width = n\<rparr> \<and>
    ranges_ok (BV_ranges S) (ranges S) \<and> (\<forall>v. in_factory (BV_ranges S) v \<longrightarrow> v \<in> members (ranges S))"
proof -
  let ?V = "\<lparr>is_unsigned = u, bit_width = n\<rparr>"
  have "GetMinValue ?V \<le> GetMaxValue ?V"
    using max_min [of ?V] assms by (simp add: V_ok_def)
  then show ?thesis
    by (simp add: RangeSet_def Range_def Let_def ranges_ok_def before_def in_factory_def)
qed

text \<open>
  The invariant of the two sets of an expression of \<open>n\<close> bits, and the bit vectors that they allow.
\<close>

definition factory :: "bool \<Rightarrow> nat \<Rightarrow> bit_vector_factory" where
  "factory u n = \<lparr>is_unsigned = u, bit_width = n\<rparr>"

lemma factory_simps [simp]: "is_unsigned (factory u n) = u" "bit_width (factory u n) = n"
  by (simp_all add: factory_def)

lemma V_ok_factory [simp]: "V_ok (factory u n) \<longleftrightarrow> 0 < n"
  by (simp add: V_ok_def)

definition range_sets_ok :: "nat \<Rightarrow> range_sets \<Rightarrow> bool" where
  "range_sets_ok n R \<longleftrightarrow>
     (\<forall>u S. getRangeSet u R = Some S \<longrightarrow> BV_ranges S = factory u n \<and> ranges_ok (factory u n) (ranges S))"

definition allows :: "nat \<Rightarrow> range_sets \<Rightarrow> int \<Rightarrow> bool" where
  "allows n R x \<longleftrightarrow>
     (\<forall>u S. getRangeSet u R = Some S \<longrightarrow> aps_read (factory u n) x \<in> members (ranges S))"

lemma no_range_sets_ok [simp]: "range_sets_ok n no_range_sets" "allows n no_range_sets x"
  by (simp_all add: range_sets_ok_def allows_def getRangeSet_def no_range_sets_def)

lemma getRangeSet_set [simp]:
  "getRangeSet w (setRangeSet u S R) = (if w = u then Some S else getRangeSet w R)"
  by (simp add: getRangeSet_def setRangeSet_def)

lemma allows_both:
  "allows n R x \<longleftrightarrow>
     (\<forall>S. getRangeSet u R = Some S \<longrightarrow> aps_read (factory u n) x \<in> members (ranges S)) \<and>
     (\<forall>S. getRangeSet (\<not> u) R = Some S \<longrightarrow> aps_read (factory (\<not> u) n) x \<in> members (ranges S))"
  by (cases u) (auto simp: allows_def all_bool_eq)

definition recorded_unsigned :: "kind \<Rightarrow> bool" where
  "recorded_unsigned k \<longleftrightarrow> k \<in> {Ult, Ule, Ugt, Uge}"

lemma addConstraint_set_step:
  assumes A: "apint_ok A" and n: "0 < n" and R: "range_sets_ok n R" and k: "fits u k" and c: "in_range n c"
  shows "\<exists>R'. addConstraint_set A n u k (n, c) (n, a) R = Some R' \<and> range_sets_ok n R' \<and>
    (\<forall>x. in_range n x \<longrightarrow> (allows n R' x \<longleftrightarrow> allows n R x \<and>
       (relation_holds k n (take_bit n (x + a)) c \<or> vacuous (factory u n) k c)))"
proof -
  obtain S where S: "(case getRangeSet u R of None \<Rightarrow> RangeSet u n | Some rs \<Rightarrow> Some rs) = Some S"
    and V: "BV_ranges S = factory u n" "ranges_ok (factory u n) (ranges S)"
    and old: "\<And>x. in_range n x \<Longrightarrow> allows n R x \<longleftrightarrow> aps_read (factory u n) x \<in> members (ranges S) \<and>
       (\<forall>S. getRangeSet (\<not> u) R = Some S \<longrightarrow> aps_read (factory (\<not> u) n) x \<in> members (ranges S))"
  proof (cases "getRangeSet u R")
    case None
    obtain S where S: "RangeSet u n = Some S" "BV_ranges S = factory u n"
      "ranges_ok (BV_ranges S) (ranges S)" "\<forall>v. in_factory (BV_ranges S) v \<longrightarrow> v \<in> members (ranges S)"
      using RangeSet_members [OF n, of u] by (auto simp: factory_def)
    have "aps_read (factory u n) x \<in> members (ranges S)" if "in_range n x" for x
      using S aps_read_range [of "factory u n" x] that n by auto
    then show ?thesis
      using that [of S] None S allows_both [of n R _ u] by simp
  next
    case (Some S)
    with that [of S] R allows_both [of n R _ u] show ?thesis
      by (simp add: range_sets_ok_def)
  qed
  have "V_ok (BV_ranges S)" "ranges_ok (BV_ranges S) (ranges S)" "fits (is_unsigned (BV_ranges S)) k"
    "n = bit_width (BV_ranges S)"
    using V n k by simp_all
  from addConstraint_kind_members [OF A this c, of a]
  obtain rs where rs: "addConstraint_kind A S k (n, c) (n, a) = Some (S\<lparr>ranges := rs\<rparr>)"
    "ranges_ok (factory u n) rs"
    "\<And>x. in_range n x \<Longrightarrow> aps_read (factory u n) x \<in> members rs \<longleftrightarrow>
       aps_read (factory u n) x \<in> members (ranges S) \<and>
       (relation_holds k n (take_bit n (x + a)) c \<or> vacuous (factory u n) k c)"
    by (auto simp: V)
  let ?R = "setRangeSet u (S\<lparr>ranges := rs\<rparr>) R"
  have "range_sets_ok n ?R"
    using R rs(2) V by (simp add: range_sets_ok_def)
  moreover have "addConstraint_set A n u k (n, c) (n, a) R = Some ?R"
    using S rs(1) by (simp add: addConstraint_set_def)
  ultimately show ?thesis
    using rs(3) old by (intro exI [of _ ?R]) (auto simp: allows_both [of n _ _ u])
qed

lemma addConstraint_step:
  assumes "apint_ok A" "0 < n" "range_sets_ok n R" "compareKind k" "in_range n c"
  shows "\<exists>R'. addConstraint A n k (n, c) (n, a) R = Some R' \<and> range_sets_ok n R' \<and>
    (\<forall>x. in_range n x \<longrightarrow> (allows n R' x \<longleftrightarrow> allows n R x \<and>
       (relation_holds k n (take_bit n (x + a)) c \<or> vacuous (factory (recorded_unsigned k) n) k c)))"
proof -
  have f: "fits (recorded_unsigned k) k"
    using assms(4) by (auto simp: fits_def recorded_unsigned_def compareKind_def)
  have "addConstraint A n k (n, c) (n, a) R = addConstraint_set A n (recorded_unsigned k) k (n, c) (n, a) R"
    using assms(4) by (auto simp: addConstraint_def recorded_unsigned_def compareKind_def)
  with addConstraint_set_step [OF assms(1-3) f assms(5), of a] show ?thesis
    by simp
qed

text \<open>The size is the number of values, modulo \<open>2 ^ 32\<close>.\<close>

lemma card_members:
  "proper rs \<Longrightarrow> finite (members rs) \<and> int (card (members rs)) = (\<Sum>r\<leftarrow>rs. snd r - fst r + 1)"
proof (induction rs)
  case (Cons r rs)
  then have r: "fst r \<le> snd r" and fin: "finite (members rs)"
    and IH: "int (card (members rs)) = (\<Sum>r\<leftarrow>rs. snd r - fst r + 1)"
    by (auto simp: proper_Cons)
  have "{fst r..snd r} \<inter> members rs = {}"
    using Cons.prems by (fastforce simp: proper_Cons before_def members_def)
  then have "card (members (r # rs)) = card {fst r..snd r} + card (members rs)"
    using fin by (simp add: card_Un_disjoint)
  then show ?case
    using fin r by (simp add: IH)
qed simp

lemma range_set_size_card:
  assumes A: "apint_ok A" and V: "V_ok (BV_ranges S)" and ok: "ranges_ok (BV_ranges S) (ranges S)"
    and w: "bit_width (BV_ranges S) \<le> 64"
  shows "range_set_size A S = of_nat (card (members (ranges S)))"
proof -
  let ?V = "BV_ranges S"
  have bits: "aps_bits ?V (aps_sub A ?V (snd r) (fst r)) = snd r - fst r" if "r \<in> set (ranges S)" for r
  proof -
    have "0 \<le> snd r - fst r" "snd r - fst r < 2 ^ bit_width ?V"
      using that ok by (auto simp: ranges_ok_def max_min [OF V])
    then show ?thesis
      using aps_arith(4) [OF A V, of "snd r" "fst r"] by (simp add: aps_bits_def take_bit_eq_mod)
  qed
  have "fold (\<lambda>r res. res + (word_of_int (aps_bits ?V (aps_sub A ?V (snd r) (fst r))) + 1)) rs w =
      w + word_of_int (\<Sum>r\<leftarrow>rs. snd r - fst r + 1)" if "set rs \<subseteq> set (ranges S)" for rs and w :: "32 word"
    using that by (induction rs arbitrary: w) (auto simp: bits algebra_simps)
  moreover have "proper (ranges S)"
    using ok by (auto simp: ranges_ok_def proper_def)
  then have "(\<Sum>r\<leftarrow>ranges S. snd r - fst r + 1) = int (card (members (ranges S)))"
    using card_members by simp
  ultimately show ?thesis
    using w by (simp add: range_set_size_def Let_def)
qed

end
