(* ===== verification/Dependency.thy ===== *)
theory Dependency
  imports BuilderLaws "HOL-Library.Multiset"
begin

declare One_nat_def [simp del]

section \<open>The dependency forest\<close>

text \<open>
  \<open>dependency.h\<close>: the solver keeps the constraints it has seen in trees, one for every set of
  constraints that share input bytes. The vector \<open>forest_\<close> maps an input byte to its tree by a
  shared pointer, so several slots point to one tree, and merging two trees has to redirect the
  slots of one of them. The model keeps the pointers: the trees live in a store, their address is
  their index, and a slot holds an address or nothing.

  A node is an expression; the functions take its set of dependencies as the parameter \<open>D\<close>
  (\<open>getDependencies\<close> computes it once and keeps it).
\<close>

record 'a tree =
  nodes_ids :: "'a list"
  tree_deps :: "nat set"

record 'a dependency_forest =
  store :: "'a tree list"
  forest :: "nat option list"

definition empty_tree :: "'a tree" where
  "empty_tree = \<lparr>nodes_ids = [], tree_deps = {}\<rparr>"

definition empty_forest :: "'a dependency_forest" where
  "empty_forest = \<lparr>store = [], forest = []\<rparr>"

definition DependencyTree_addNode :: "('a \<Rightarrow> nat set) \<Rightarrow> 'a \<Rightarrow> 'a tree \<Rightarrow> 'a tree" where
  "DependencyTree_addNode D node t =
     \<lparr>nodes_ids = nodes_ids t @ [node], tree_deps = tree_deps t \<union> D node\<rparr>"

definition merge :: "'a tree \<Rightarrow> 'a tree \<Rightarrow> 'a tree" where
  "merge t other =
     \<lparr>nodes_ids = nodes_ids t @ nodes_ids other, tree_deps = tree_deps t \<union> tree_deps other\<rparr>"

text \<open>\<open>find\<close> grows the vector, allocates a tree for an empty slot and returns its address.\<close>

definition forest_find :: "nat \<Rightarrow> 'a dependency_forest \<Rightarrow> nat \<times> 'a dependency_forest" where
  "forest_find index F =
     (let f = (if length (forest F) \<le> index
               then forest F @ replicate (index + 1 - length (forest F)) None else forest F)
      in case f ! index of
           None \<Rightarrow> (length (store F),
                    \<lparr>store = store F @ [empty_tree], forest = f[index := Some (length (store F))]\<rparr>)
         | Some t \<Rightarrow> (t, F\<lparr>forest := f\<rparr>))"

text \<open>
  \<open>forest_[index] = tree\<close>; an index behind the end of the vector would be undefined behaviour.
\<close>

definition set_slot :: "nat \<Rightarrow> nat \<Rightarrow> 'a dependency_forest \<Rightarrow> 'a dependency_forest option" where
  "set_slot index t F = assert (index < length (forest F)) (Some (F\<lparr>forest := (forest F)[index := Some t]\<rparr>))"

fun set_slots :: "nat list \<Rightarrow> nat \<Rightarrow> 'a dependency_forest \<Rightarrow> 'a dependency_forest option" where
  "set_slots [] t F = Some F"
| "set_slots (i # is) t F = do { F \<leftarrow> set_slot i t F; set_slots is t F }"

text \<open>
  The loop of \<open>DependencyForest::addNode\<close> over the dependencies of the node, in the order of the
  \<open>std::set\<close>, with the tree found so far; \<open>store ! t\<close> is the tree behind the pointer \<open>t\<close>.
\<close>

fun addNode_loop ::
  "nat list \<Rightarrow> nat option \<Rightarrow> 'a dependency_forest \<Rightarrow> (nat option \<times> 'a dependency_forest) option" where
  "addNode_loop [] tree F = Some (tree, F)"
| "addNode_loop (index # is) tree F =
     (let (other_tree, F) = forest_find index F in
      case tree of
        None \<Rightarrow> do { F \<leftarrow> set_slot index other_tree F; addNode_loop is (Some other_tree) F }
      | Some t \<Rightarrow>
          if t \<noteq> other_tree then
            do { let F = F\<lparr>store := (store F)[t := merge (store F ! t) (store F ! other_tree)]\<rparr>;
                 F \<leftarrow> set_slots (sorted_list_of_set (tree_deps (store F ! other_tree))) t F;
                 F \<leftarrow> set_slot index t F;
                 addNode_loop is (Some t) F }
          else do { F \<leftarrow> set_slot index t F; addNode_loop is (Some t) F })"

text \<open>\<open>addNode\<close>; a node without dependencies would leave the pointer \<open>tree\<close> null.\<close>

definition forest_addNode :: "('a \<Rightarrow> nat set) \<Rightarrow> 'a \<Rightarrow> 'a dependency_forest \<Rightarrow> 'a dependency_forest option" where
  "forest_addNode D node F =
     do { (tree, F) \<leftarrow> addNode_loop (sorted_list_of_set (D node)) None F;
          t \<leftarrow> tree;
          Some (F\<lparr>store := (store F)[t := DependencyTree_addNode D node (store F ! t)]\<rparr>) }"

subsection \<open>What the forest keeps\<close>

definition slot :: "'a dependency_forest \<Rightarrow> nat \<Rightarrow> nat option" where
  "slot F i = (if i < length (forest F) then forest F ! i else None)"

abbreviation deps_at :: "'a dependency_forest \<Rightarrow> nat \<Rightarrow> nat set" where
  "deps_at F t \<equiv> tree_deps (store F ! t)"

abbreviation nodes_at :: "'a dependency_forest \<Rightarrow> nat \<Rightarrow> 'a list" where
  "nodes_at F t \<equiv> nodes_ids (store F ! t)"

text \<open>Two input bytes are linked when one of the nodes depends on both.\<close>

definition link :: "('a \<Rightarrow> nat set) \<Rightarrow> 'a list \<Rightarrow> (nat \<times> nat) set" where
  "link D ns = {(a, b). \<exists>n \<in> set ns. a \<in> D n \<and> b \<in> D n}"

text \<open>
  The invariant of a forest into which the nodes \<open>ns\<close> have been added, in terms of its slots
  \<open>sl\<close>, and the nodes \<open>nd\<close> and dependencies \<open>dp\<close> of its trees; with \<open>P\<close> and \<open>t0\<close>, that of
  the loop of \<open>addNode\<close> that has already put the slots \<open>P\<close> to the tree \<open>t0\<close>. \<open>ls\<close> are the
  nodes whose links count: \<open>ns\<close>, and in the loop the node that is being added, too.
\<close>

definition forest_inv where
  "forest_inv D ns ls P t0 sl nd dp \<longleftrightarrow>
     (\<forall>i t d. sl i = Some t \<longrightarrow> d \<in> dp t \<longrightarrow> sl d = Some t) \<and>
     (\<forall>i t. sl i = Some t \<longrightarrow> i \<notin> dp t \<longrightarrow> i \<notin> P \<longrightarrow> dp t = {} \<and> nd t = [] \<and> (\<forall>j. sl j = Some t \<longrightarrow> j = i)) \<and>
     (\<forall>i \<in> P. sl i = t0) \<and> (t0 = None \<longleftrightarrow> P = {}) \<and>
     (\<forall>n \<in> set ns. \<exists>t. \<forall>d \<in> D n. sl d = Some t \<and> d \<in> dp t) \<and>
     (\<forall>i t. sl i = Some t \<longrightarrow> mset (nd t) = filter_mset (\<lambda>n. D n \<inter> dp t \<noteq> {}) (mset ns)) \<and>
     (\<forall>i t a b. sl i = Some t \<longrightarrow> a \<in> dp t \<longrightarrow> b \<in> dp t \<longrightarrow> (a, b) \<in> (link D ls)\<^sup>*) \<and>
     (\<forall>p \<in> P. \<forall>t a. t0 = Some t \<longrightarrow> a \<in> dp t \<longrightarrow> (a, p) \<in> (link D ls)\<^sup>*)"

definition valid_slots :: "'a dependency_forest \<Rightarrow> bool" where
  "valid_slots F \<longleftrightarrow>
     (\<forall>i t. slot F i = Some t \<longrightarrow> t < length (store F)) \<and> (\<forall>t < length (store F). finite (deps_at F t))"

abbreviation finv where
  "finv D ns ls P t0 F \<equiv> valid_slots F \<and> forest_inv D ns ls P t0 (slot F) (nodes_at F) (deps_at F)"

definition forest_ok :: "('a \<Rightarrow> nat set) \<Rightarrow> 'a list \<Rightarrow> 'a dependency_forest \<Rightarrow> bool" where
  "forest_ok D ns F \<longleftrightarrow> finv D ns ns {} None F \<and> (\<forall>n \<in> set ns. finite (D n) \<and> D n \<noteq> {})"

lemma forest_ok_empty [simp]: "forest_ok D [] empty_forest"
  by (simp add: forest_ok_def forest_inv_def valid_slots_def slot_def empty_forest_def)

lemma link_sym: "(a, b) \<in> (link D ls)\<^sup>* \<Longrightarrow> (b, a) \<in> (link D ls)\<^sup>*"
proof -
  have "sym (link D ls)"
    by (auto simp: link_def sym_def)
  then show "(a, b) \<in> (link D ls)\<^sup>* \<Longrightarrow> (b, a) \<in> (link D ls)\<^sup>*"
    by (metis sym_rtrancl symD)
qed

text \<open>What \<open>find\<close> does to the slots.\<close>

lemma find_slot:
  assumes "forest_find i F = (t, F')"
  shows "slot F' i = Some t" "i < length (forest F')"
    and "slot F i = Some u \<Longrightarrow> t = u \<and> slot F' = slot F \<and> store F' = store F"
    and "slot F i = None \<Longrightarrow>
      t = length (store F) \<and> slot F' = (slot F)(i := Some t) \<and> store F' = store F @ [empty_tree]"
proof -
  define f where "f = (if length (forest F) \<le> i
               then forest F @ replicate (i + 1 - length (forest F)) None else forest F)"
  have len: "i < length f"
    by (simp add: f_def)
  have f: "(if j < length f then f ! j else None) = slot F j" for j
    by (auto simp: f_def slot_def nth_append)
  have i: "f ! i = slot F i"
    using f [of i] len by simp
  have F: "forest_find i F = (case f ! i of
      None \<Rightarrow> (length (store F), \<lparr>store = store F @ [empty_tree], forest = f[i := Some (length (store F))]\<rparr>)
    | Some t \<Rightarrow> (t, F\<lparr>forest := f\<rparr>))"
    by (simp only: forest_find_def f_def Let_def)
  have upd: "slot \<lparr>store = st, forest = f[i := Some u]\<rparr> = (slot F)(i := Some u)" for st :: "'a tree list" and u
  proof
    fix j
    show "slot \<lparr>store = st, forest = f[i := Some u]\<rparr> j = ((slot F)(i := Some u)) j"
      unfolding fun_upd_apply f [of j, symmetric] using len by (simp add: slot_def)
  qed
  have same: "slot (F\<lparr>forest := f\<rparr>) = slot F"
  proof
    fix j
    show "slot (F\<lparr>forest := f\<rparr>) j = slot F j"
      unfolding f [of j, symmetric] by (simp add: slot_def)
  qed
  show "slot F' i = Some t" "i < length (forest F')"
    using assms len unfolding F by (auto simp: upd same i split: option.splits)
  show "slot F i = Some u \<Longrightarrow> t = u \<and> slot F' = slot F \<and> store F' = store F"
    using assms unfolding F by (auto simp: same i)
  show "slot F i = None \<Longrightarrow>
      t = length (store F) \<and> slot F' = (slot F)(i := Some t) \<and> store F' = store F @ [empty_tree]"
    using assms unfolding F by (auto simp: upd i)
qed

lemma set_slot_slot:
  assumes "i < length (forest F)"
  shows "set_slot i t F = Some (F\<lparr>forest := (forest F)[i := Some t]\<rparr>)"
    and "slot (F\<lparr>forest := (forest F)[i := Some t]\<rparr>) = (slot F)(i := Some t)"
  using assms by (auto simp: set_slot_def slot_def fun_eq_iff)

lemma set_slots_slot:
  "set is \<subseteq> {..<length (forest F)} \<Longrightarrow>
   \<exists>F'. set_slots is t F = Some F' \<and> store F' = store F \<and> length (forest F') = length (forest F) \<and>
     slot F' = (\<lambda>j. if j \<in> set is then Some t else slot F j)"
proof (induction "is" arbitrary: F)
  case (Cons i "is")
  let ?F = "F\<lparr>forest := (forest F)[i := Some t]\<rparr>"
  have i: "i < length (forest F)" and "set is \<subseteq> {..<length (forest ?F)}"
    using Cons.prems by auto
  from Cons.IH [OF this(2)] obtain F' where F': "set_slots is t ?F = Some F'" "store F' = store F"
    "length (forest F') = length (forest F)" "slot F' = (\<lambda>j. if j \<in> set is then Some t else slot ?F j)"
    by auto
  with set_slot_slot [OF i, of t] show ?case
    by (auto simp: fun_eq_iff)
qed (simp add: fun_eq_iff)

lemma slot_length: "slot F i = Some t \<Longrightarrow> i < length (forest F)"
  by (simp add: slot_def split: if_splits)

text \<open>The clauses of the invariant.\<close>

lemma forest_invD:
  assumes "forest_inv D ns ls P t0 sl nd dp"
  shows "sl i = Some t \<Longrightarrow> d \<in> dp t \<Longrightarrow> sl d = Some t"
    and "sl i = Some t \<Longrightarrow> i \<notin> dp t \<Longrightarrow> i \<notin> P \<Longrightarrow> dp t = {} \<and> nd t = [] \<and> (\<forall>j. sl j = Some t \<longrightarrow> j = i)"
    and "i \<in> P \<Longrightarrow> sl i = t0" and "t0 = None \<longleftrightarrow> P = {}"
    and "n \<in> set ns \<Longrightarrow> \<exists>t. \<forall>d \<in> D n. sl d = Some t \<and> d \<in> dp t"
    and "sl i = Some t \<Longrightarrow> mset (nd t) = filter_mset (\<lambda>n. D n \<inter> dp t \<noteq> {}) (mset ns)"
    and "sl i = Some t \<Longrightarrow> a \<in> dp t \<Longrightarrow> b \<in> dp t \<Longrightarrow> (a, b) \<in> (link D ls)\<^sup>*"
    and "p \<in> P \<Longrightarrow> t0 = Some t \<Longrightarrow> a \<in> dp t \<Longrightarrow> (a, p) \<in> (link D ls)\<^sup>*"
proof -
  note c = assms [unfolded forest_inv_def]
  show "sl i = Some t \<Longrightarrow> d \<in> dp t \<Longrightarrow> sl d = Some t"
    using c [THEN conjunct1] by blast
  show "sl i = Some t \<Longrightarrow> i \<notin> dp t \<Longrightarrow> i \<notin> P \<Longrightarrow> dp t = {} \<and> nd t = [] \<and> (\<forall>j. sl j = Some t \<longrightarrow> j = i)"
    using c [THEN conjunct2, THEN conjunct1] by blast
  show "i \<in> P \<Longrightarrow> sl i = t0"
    using c [THEN conjunct2, THEN conjunct2, THEN conjunct1] by blast
  show "t0 = None \<longleftrightarrow> P = {}"
    using c [THEN conjunct2, THEN conjunct2, THEN conjunct2, THEN conjunct1] by blast
  show "n \<in> set ns \<Longrightarrow> \<exists>t. \<forall>d \<in> D n. sl d = Some t \<and> d \<in> dp t"
    using c [THEN conjunct2, THEN conjunct2, THEN conjunct2, THEN conjunct2, THEN conjunct1] by blast
  show "sl i = Some t \<Longrightarrow> mset (nd t) = filter_mset (\<lambda>n. D n \<inter> dp t \<noteq> {}) (mset ns)"
    using c [THEN conjunct2, THEN conjunct2, THEN conjunct2, THEN conjunct2, THEN conjunct2, THEN conjunct1] by blast
  show "sl i = Some t \<Longrightarrow> a \<in> dp t \<Longrightarrow> b \<in> dp t \<Longrightarrow> (a, b) \<in> (link D ls)\<^sup>*"
    using c [THEN conjunct2, THEN conjunct2, THEN conjunct2, THEN conjunct2, THEN conjunct2, THEN conjunct2, THEN conjunct1] by blast
  show "p \<in> P \<Longrightarrow> t0 = Some t \<Longrightarrow> a \<in> dp t \<Longrightarrow> (a, p) \<in> (link D ls)\<^sup>*"
    using c [THEN conjunct2, THEN conjunct2, THEN conjunct2, THEN conjunct2, THEN conjunct2, THEN conjunct2, THEN conjunct2] by blast
qed

lemma inv_fresh:
  assumes inv: "forest_inv D ns ls P t0 sl nd dp" and i: "sl i = None" and t: "\<And>j. sl j \<noteq> Some t"
    and new: "nd' t = []" "dp' t = {}"
    and old: "\<And>j u. sl j = Some u \<Longrightarrow> nd' u = nd u \<and> dp' u = dp u"
  shows "forest_inv D ns ls P t0 (sl(i := Some t)) nd' dp'"
proof -
  note D = forest_invD [OF inv]
  have P: "i \<notin> P"
    using D(3) [of i] D(4) i by auto
  have t0: "t0 \<noteq> Some t" "\<And>u. t0 = Some u \<Longrightarrow> dp' u = dp u"
    using D(3,4) t old by (metis ex_in_conv option.distinct(1))+
  show ?thesis
    unfolding forest_inv_def
  proof (intro conjI)
    show "\<forall>j u d. (sl(i := Some t)) j = Some u \<longrightarrow> d \<in> dp' u \<longrightarrow> (sl(i := Some t)) d = Some u"
      using D(1) i new old by (metis empty_iff fun_upd_apply option.inject option.distinct(1))
    show "\<forall>j u. (sl(i := Some t)) j = Some u \<longrightarrow> j \<notin> dp' u \<longrightarrow> j \<notin> P \<longrightarrow>
        dp' u = {} \<and> nd' u = [] \<and> (\<forall>k. (sl(i := Some t)) k = Some u \<longrightarrow> k = j)"
      using D(2) i t new old by auto
    show "\<forall>j \<in> P. (sl(i := Some t)) j = t0"
      using D(3) P by auto
    show "t0 = None \<longleftrightarrow> P = {}"
      by (rule D)
    show "\<forall>n \<in> set ns. \<exists>u. \<forall>d \<in> D n. (sl(i := Some t)) d = Some u \<and> d \<in> dp' u"
      using D(5) i old by (metis fun_upd_apply option.distinct(1))
    show "\<forall>j u. (sl(i := Some t)) j = Some u \<longrightarrow> mset (nd' u) = {#n \<in># mset ns. D n \<inter> dp' u \<noteq> {}#}"
      using D(6) new old by auto
    show "\<forall>j u a b. (sl(i := Some t)) j = Some u \<longrightarrow> a \<in> dp' u \<longrightarrow> b \<in> dp' u \<longrightarrow> (a, b) \<in> (link D ls)\<^sup>*"
      using D(7) new old by auto
    show "\<forall>p \<in> P. \<forall>u a. t0 = Some u \<longrightarrow> a \<in> dp' u \<longrightarrow> (a, p) \<in> (link D ls)\<^sup>*"
      using D(8) t0 by auto
  qed
qed

text \<open>\<open>find\<close> keeps the invariant.\<close>

lemma find_inv:
  assumes F: "finv D ns ls P t0 F" and find: "forest_find i F = (t, F')"
  shows "finv D ns ls P t0 F'"
proof (cases "slot F i")
  case (Some u)
  with find_slot(3) [OF find] F show ?thesis
    by (simp add: valid_slots_def)
next
  case None
  note new = find_slot(4) [OF find None]
  have valid: "u < t" if "slot F j = Some u" for j u
    using F that new by (auto simp: valid_slots_def)
  then have fresh: "slot F j \<noteq> Some t" for j
    by blast
  have st: "store F' ! u = (if u = t then empty_tree else store F ! u)" if "u \<le> t" for u
    using new that by (auto simp: nth_append)
  have "forest_inv D ns ls P t0 ((slot F)(i := Some t)) (nodes_at F') (deps_at F')"
  proof (rule inv_fresh [where nd = "nodes_at F" and dp = "deps_at F"])
    show "nodes_at F' u = nodes_at F u \<and> deps_at F' u = deps_at F u" if "slot F j = Some u" for j u
      using valid [OF that] st [of u] by simp
  qed (use F None fresh st [of t] in \<open>simp_all add: empty_tree_def\<close>)
  moreover have "u < length (store F')" if "slot F' j = Some u" for j u
    using that new valid [of j u] by (auto split: if_splits)
  moreover have "finite (deps_at F' u)" if "u < length (store F')" for u
    using that new st [of u] F by (auto simp: valid_slots_def empty_tree_def)
  ultimately show ?thesis
    using new by (simp add: valid_slots_def)
qed

lemma inv_weaken:
  assumes inv: "forest_inv D ns ls P t0 sl nd dp" and P: "P \<subseteq> P'" "\<And>i. i \<in> P' \<Longrightarrow> sl i = t1" "t1 = None \<longleftrightarrow> P' = {}"
    and l: "\<And>p t a. p \<in> P' \<Longrightarrow> t1 = Some t \<Longrightarrow> a \<in> dp t \<Longrightarrow> (a, p) \<in> (link D ls)\<^sup>*"
  shows "forest_inv D ns ls P' t1 sl nd dp"
proof -
  note D = forest_invD [OF inv]
  show ?thesis
    unfolding forest_inv_def
    apply (intro conjI)
    subgoal using D(1) by blast
    subgoal using D(2) P(1) by blast
    subgoal using P(2) by blast
    subgoal by (rule P(3))
    subgoal using D(5) by blast
    subgoal using D(6) by blast
    subgoal using D(7) by blast
    subgoal using l by blast
    done
qed

text \<open>One round of the loop: the first tree, the same tree again, and another tree to merge.\<close>

lemma inv_first:
  assumes "forest_inv D ns ls {} None sl nd dp" and i: "sl i = Some t"
  shows "forest_inv D ns ls {i} (Some t) sl nd dp"
proof (rule inv_weaken [OF assms(1)])
  note D = forest_invD [OF assms(1)]
  show "(a, p) \<in> (link D ls)\<^sup>*" if "p \<in> {i}" "Some t = Some u" "a \<in> dp u" for p u a
    using D(2,7) [OF i] that by blast
qed (use i in simp_all)

lemma inv_same:
  assumes inv: "forest_inv D ns ls P (Some t) sl nd dp" and i: "sl i = Some t"
    and n: "n \<in> set ls" "P \<subseteq> D n" "i \<in> D n"
  shows "forest_inv D ns ls (P \<union> {i}) (Some t) sl nd dp"
proof (rule inv_weaken [OF inv])
  note D = forest_invD [OF inv]
  obtain p where p: "p \<in> P"
    using D(4) by auto
  then have "(p, i) \<in> link D ls"
    using n by (auto simp: link_def)
  then have "(a, i) \<in> (link D ls)\<^sup>*" if "a \<in> dp t" for a
    using D(8) [OF p refl that] by (rule rtrancl_into_rtrancl [rotated])
  then show "(a, q) \<in> (link D ls)\<^sup>*" if "q \<in> P \<union> {i}" "Some t = Some u" "a \<in> dp u" for q u a
    using D(8) that by auto
  show "sl j = Some t" if "j \<in> P \<union> {i}" for j
    using D(3) i that by auto
qed auto

lemma filter_disjoint:
  assumes "\<And>m. m \<in> set ns \<Longrightarrow> D m \<inter> X = {} \<or> D m \<inter> Y = {}"
  shows "{#m \<in># mset ns. D m \<inter> (X \<union> Y) \<noteq> {}#} =
    {#m \<in># mset ns. D m \<inter> X \<noteq> {}#} + {#m \<in># mset ns. D m \<inter> Y \<noteq> {}#}"
  using assms by (induction ns) (auto simp: Int_Un_distrib)

lemma inv_merge:
  assumes inv: "forest_inv D ns ls P (Some t) sl nd dp" and i: "sl i = Some u" "i \<notin> P" and u: "u \<noteq> t"
    and n: "n \<in> set ls" "P \<subseteq> D n" "i \<in> D n"
    and t: "mset (nd' t) = mset (nd t) + mset (nd u)" "dp' t = dp t \<union> dp u"
    and old: "\<And>v. v \<noteq> t \<Longrightarrow> nd' v = nd v \<and> dp' v = dp v"
  shows "forest_inv D ns ls (P \<union> {i}) (Some t) (\<lambda>j. if j \<in> dp u \<or> j = i then Some t else sl j) nd' dp'"
    (is "forest_inv D ns ls ?P _ ?sl nd' dp'")
proof -
  note D = forest_invD [OF inv]
  obtain p where p: "p \<in> P"
    using D(4) by blast
  have i_dp: "i \<in> dp u \<or> dp u = {} \<and> nd u = []" and only: "i \<notin> dp u \<Longrightarrow> sl j = Some u \<Longrightarrow> j = i" for j
    using D(2) [OF i(1)] i(2) by blast+
  have sl_t: "sl p = Some t"
    by (rule D(3) [OF p])
  have keep: "sl j = Some v" if "?sl j = Some v" "v \<noteq> t" for j v
    using that by (simp split: if_splits)
  have gone: "?sl j \<noteq> Some u" for j
  proof
    assume j: "?sl j = Some u"
    note slj = keep [OF j u]
    have "j \<notin> dp u" "j \<noteq> i"
      using j u by (auto split: if_splits)
    moreover have "j \<notin> P"
      using D(3) slj u by fastforce
    ultimately show False
      using D(2) [OF slj] i(1) by blast
  qed
  have keep': "?sl j = Some v" if "sl j = Some v" "v \<noteq> u" for j v
  proof -
    have "j \<notin> dp u"
      using D(1) [OF i(1), of j] that by fastforce
    then show ?thesis
      using that i(1) by auto
  qed
  have disj: "D m \<inter> dp t = {} \<or> D m \<inter> dp u = {}" if m: "m \<in> set ns" for m
  proof (rule ccontr)
    assume "\<not> ?thesis"
    then obtain a b where ab: "a \<in> D m" "a \<in> dp t" "b \<in> D m" "b \<in> dp u"
      by blast
    have "sl a = Some t" "sl b = Some u"
      using D(1) [OF sl_t ab(2)] D(1) [OF i(1) ab(4)] by blast+
    moreover obtain v where "\<forall>d \<in> D m. sl d = Some v \<and> d \<in> dp v"
      using D(5) [OF m] by blast
    ultimately show False
      using ab u by auto
  qed
  have linked: "(a, b) \<in> (link D ls)\<^sup>*" if "a \<in> dp t" "b \<in> dp u \<union> {i}" for a b
  proof -
    have "(a, p) \<in> (link D ls)\<^sup>*"
      by (rule D(8) [OF p refl that(1)])
    also have "(p, i) \<in> link D ls"
      using p n by (auto simp: link_def)
    also have "(i, b) \<in> (link D ls)\<^sup>*"
      using D(7) [OF i(1), of i b] i_dp that(2) by blast
    finally show ?thesis .
  qed
  have at_t: "d \<in> dp t \<or> d \<in> dp u \<Longrightarrow> ?sl d = Some t" for d
    using D(1) [OF sl_t, of d] by auto
  show ?thesis
    unfolding forest_inv_def
  proof (intro conjI allI impI ballI)
    fix j v d
    assume j: "?sl j = Some v" "d \<in> dp' v"
    show "?sl d = Some v"
    proof (cases "v = t")
      case True
      with j(2) t(2) at_t [of d] show ?thesis
        by simp
    next
      case False
      have "d \<in> dp v" "v \<noteq> u"
        using j(2) old [OF False] j(1) gone by auto
      then show ?thesis
        using D(1) [OF keep [OF j(1) False]] keep' by blast
    qed
  next
    fix j v
    assume j: "?sl j = Some v" "j \<notin> dp' v" "j \<notin> ?P"
    have slt: "v \<noteq> t"
    proof
      assume v: "v = t"
      then have "sl j = Some t" "j \<notin> dp t"
        using j t(2) by (auto split: if_splits)
      from D(2) [OF this] j(3) have "\<forall>k. sl k = Some t \<longrightarrow> k = j"
        by blast
      with sl_t p j(3) show False
        by blast
    qed
    have "sl j = Some v" "j \<notin> dp v"
      using keep [OF j(1) slt] j(2) old [OF slt] by auto
    from D(2) [OF this] j(3) have v: "dp v = {}" "nd v = []" "\<And>k. sl k = Some v \<Longrightarrow> k = j"
      by blast+
    then show "dp' v = {}" "nd' v = []"
      using old [OF slt] by auto
    show "k = j" if "?sl k = Some v" for k
      by (rule v(3)) (rule keep [OF that slt])
  next
    show "?sl j = Some t" if "j \<in> ?P" for j
      using D(3) [of j] that by auto
    show "Some t = None \<longleftrightarrow> ?P = {}"
      by simp
  next
    fix m
    assume "m \<in> set ns"
    from D(5) [OF this] obtain v where v: "\<forall>d \<in> D m. sl d = Some v \<and> d \<in> dp v"
      by blast
    show "\<exists>v. \<forall>d \<in> D m. ?sl d = Some v \<and> d \<in> dp' v"
    proof (cases "v = u \<or> v = t")
      case True
      with v t(2) at_t show ?thesis
        by (intro exI [of _ t]) auto
    next
      case False
      with v old [of v] keep' show ?thesis
        by (intro exI [of _ v]) simp
    qed
  next
    fix j v
    assume j: "?sl j = Some v"
    show "mset (nd' v) = {#n \<in># mset ns. D n \<inter> dp' v \<noteq> {}#}"
    proof (cases "v = t")
      case True
      have "{#m \<in># mset ns. D m \<inter> (dp t \<union> dp u) \<noteq> {}#} =
          {#m \<in># mset ns. D m \<inter> dp t \<noteq> {}#} + {#m \<in># mset ns. D m \<inter> dp u \<noteq> {}#}"
        using disj by (rule filter_disjoint)
      with True D(6) [OF sl_t] D(6) [OF i(1)] t show ?thesis
        by simp
    next
      case False
      with D(6) [OF keep [OF j]] old show ?thesis
        by simp
    qed
  next
    fix j v a b
    assume j: "?sl j = Some v" "a \<in> dp' v" "b \<in> dp' v"
    show "(a, b) \<in> (link D ls)\<^sup>*"
    proof (cases "v = t")
      case True
      then consider "a \<in> dp t" "b \<in> dp t" | "a \<in> dp t" "b \<in> dp u" | "a \<in> dp u" "b \<in> dp t" | "a \<in> dp u" "b \<in> dp u"
        using j(2,3) t(2) by blast
      then show ?thesis
        using D(7) [OF sl_t] D(7) [OF i(1)] linked link_sym by cases blast+
    next
      case False
      with j(2,3) old D(7) [OF keep [OF j(1) False]] show ?thesis
        by blast
    qed
  next
    fix q v a
    assume q: "q \<in> ?P" "Some t = Some v" "a \<in> dp' v"
    then consider "a \<in> dp t" "q \<in> P" | "a \<in> dp t" "q = i" | "a \<in> dp u" "q = i" | "a \<in> dp u" "q \<in> P"
      using t(2) by blast
    then show "(a, q) \<in> (link D ls)\<^sup>*"
    proof cases
      case 3
      with i_dp show ?thesis
        using D(7) [OF i(1)] by blast
    next
      case 4
      with i_dp have "(a, i) \<in> (link D ls)\<^sup>*"
        using D(7) [OF i(1)] by blast
      moreover have "(i, q) \<in> link D ls"
        using 4 n by (auto simp: link_def)
      ultimately show ?thesis
        by (rule rtrancl_into_rtrancl)
    qed (use D(8) linked in blast)+
  qed
qed

lemma finv_merge:
  assumes F: "finv D ns ls P (Some t) F" and i: "slot F i = Some u" "i \<notin> P" "u \<noteq> t"
    and n: "n \<in> set ls" "P \<subseteq> D n" "i \<in> D n"
  shows "\<exists>F1 F2. set_slots (sorted_list_of_set (deps_at F u)) t
        (F\<lparr>store := (store F)[t := merge (store F ! t) (store F ! u)]\<rparr>) = Some F1 \<and>
      set_slot i t F1 = Some F2 \<and> finv D ns ls (P \<union> {i}) (Some t) F2"
proof -
  let ?F = "F\<lparr>store := (store F)[t := merge (store F ! t) (store F ! u)]\<rparr>"
  have v: "valid_slots F" and inv: "forest_inv D ns ls P (Some t) (slot F) (nodes_at F) (deps_at F)"
    using F by blast+
  obtain p where "p \<in> P"
    using forest_invD(4) [OF inv] by blast
  then have "slot F p = Some t"
    by (rule forest_invD(3) [OF inv])
  then have t: "t < length (store F)" "finite (deps_at F t)"
    using v by (auto simp: valid_slots_def)
  have u: "u < length (store F)" "finite (deps_at F u)"
    using v i(1) by (auto simp: valid_slots_def)
  have sl: "slot ?F = slot F"
    by (simp add: slot_def fun_eq_iff)
  have "deps_at F u \<subseteq> {..<length (forest ?F)}"
    using forest_invD(1) [OF inv i(1)] slot_length by fastforce
  then obtain F1 where F1: "set_slots (sorted_list_of_set (deps_at F u)) t ?F = Some F1"
    "store F1 = store ?F" "length (forest F1) = length (forest F)"
    "slot F1 = (\<lambda>j. if j \<in> deps_at F u then Some t else slot F j)"
    using set_slots_slot [of "sorted_list_of_set (deps_at F u)" ?F t, unfolded sl] u(2) by auto
  have "i < length (forest F1)"
    using slot_length [OF i(1)] F1(3) by simp
  note last = set_slot_slot [OF this, of t]
  define F2 where "F2 = F1\<lparr>forest := (forest F1)[i := Some t]\<rparr>"
  have sl2: "slot F2 = (\<lambda>j. if j \<in> deps_at F u \<or> j = i then Some t else slot F j)"
    using last(2) F1(4) by (auto simp: F2_def fun_eq_iff)
  have st: "store F2 = (store F)[t := merge (store F ! t) (store F ! u)]"
    using F1(2) by (simp add: F2_def)
  have "forest_inv D ns ls (P \<union> {i}) (Some t) (slot F2) (nodes_at F2) (deps_at F2)"
    unfolding sl2
  proof (rule inv_merge [where nd = "nodes_at F" and dp = "deps_at F", OF inv i n])
    show "mset (nodes_at F2 t) = mset (nodes_at F t) + mset (nodes_at F u)"
      "deps_at F2 t = deps_at F t \<union> deps_at F u"
      using t by (simp_all add: st merge_def)
    show "nodes_at F2 v = nodes_at F v \<and> deps_at F2 v = deps_at F v" if "v \<noteq> t" for v
      using that by (simp add: st)
  qed
  moreover have "valid_slots F2"
    using v t u by (auto simp: valid_slots_def sl2 st nth_list_update merge_def split: if_splits)
  ultimately show ?thesis
    using F1(1) last(1) by (intro exI [of _ F1] exI [of _ F2]) (simp add: F2_def)
qed

text \<open>Putting a slot to the tree it already has changes nothing.\<close>

lemma set_slot_same: "slot F i = Some t \<Longrightarrow> set_slot i t F = Some F"
  by (auto simp: slot_def set_slot_def split: if_splits) (metis dependency_forest.surjective dependency_forest.update_convs(2) list_update_id)

lemma addNode_loop_inv:
  assumes "finv D ns ls P t0 F" "n \<in> set ls" "P \<union> set is \<subseteq> D n" "distinct is" "P \<inter> set is = {}"
  shows "\<exists>t F'. addNode_loop is t0 F = Some (t, F') \<and> finv D ns ls (P \<union> set is) t F'"
  using assms
proof (induction "is" arbitrary: P t0 F)
  case (Cons i "is")
  obtain u F1 where find: "forest_find i F = (u, F1)"
    by force
  have F1: "finv D ns ls P t0 F1" and i: "slot F1 i = Some u"
    using find_inv [OF Cons.prems(1) find] find_slot(1) [OF find] by blast+
  have n: "n \<in> set ls" "P \<subseteq> D n" "i \<in> D n" "i \<notin> P"
    using Cons.prems by auto
  have IH: "\<exists>t F'. addNode_loop is (Some t1) F2 = Some (t, F') \<and> finv D ns ls (P \<union> set (i # is)) t F'"
    if "finv D ns ls (P \<union> {i}) (Some t1) F2" for t1 F2
    using Cons.IH [OF that n(1)] Cons.prems(3-5) by auto
  note same = set_slot_same [OF i]
  show ?case
  proof (cases t0)
    case None
    then have "P = {}"
      using F1 forest_invD(4) by blast
    with F1 None i have "finv D ns ls (P \<union> {i}) (Some u) F1"
      using inv_first by fastforce
    from IH [OF this] None show ?thesis
      by (simp add: find same)
  next
    case (Some t)
    show ?thesis
    proof (cases "t = u")
      case True
      have "finv D ns ls (P \<union> {i}) (Some u) F1"
        using F1 Some True inv_same [where sl = "slot F1" and D = D and n = n and i = i] i n by blast
      from IH [OF this] Some True show ?thesis
        by (simp add: find same)
    next
      case False
      then have "u \<noteq> t"
        by simp
      with F1 Some obtain F2 F3 where F2: "set_slots (sorted_list_of_set (deps_at F1 u)) t
          (F1\<lparr>store := (store F1)[t := merge (store F1 ! t) (store F1 ! u)]\<rparr>) = Some F2"
        "set_slot i t F2 = Some F3" and F3: "finv D ns ls (P \<union> {i}) (Some t) F3"
        using finv_merge [where D = D and F = F1 and i = i and n = n and u = u] i n by blast
      from IH [OF F3] show ?thesis
        using False by (simp add: Some find Let_def F2)
    qed
  qed
qed auto

subsection \<open>The operations keep the forest in order\<close>

lemma forest_ok_find:
  assumes "forest_ok D ns F" "forest_find i F = (t, F')"
  shows "forest_ok D ns F'"
  using assms find_inv unfolding forest_ok_def by blast

lemma link_mono: "set ls \<subseteq> set ls' \<Longrightarrow> (link D ls)\<^sup>* \<subseteq> (link D ls')\<^sup>*"
  by (rule rtrancl_mono) (auto simp: link_def)

lemma inv_start:
  assumes inv: "forest_inv D ns ns {} None sl nd dp"
  shows "forest_inv D ns (ns @ [n]) {} None sl nd dp"
proof -
  note D = forest_invD [OF inv]
  have l: "(link D ns)\<^sup>* \<subseteq> (link D (ns @ [n]))\<^sup>*"
    by (rule link_mono) auto
  show ?thesis
    unfolding forest_inv_def
    apply (intro conjI)
    subgoal using D(1) by blast
    subgoal using D(2) by blast
    subgoal by blast
    subgoal by blast
    subgoal using D(5) by blast
    subgoal using D(6) by blast
    subgoal using D(7) l by blast
    subgoal by blast
    done
qed

lemma inv_finish:
  assumes inv: "forest_inv D ns (ns @ [n]) (D n) (Some t) sl nd dp"
    and nd: "nd' = nd(t := nd t @ [n])" and dp: "dp' = dp(t := dp t \<union> D n)"
  shows "forest_inv D (ns @ [n]) (ns @ [n]) {} None sl nd' dp'"
proof -
  note D = forest_invD [OF inv]
  obtain p where p: "p \<in> D n"
    using D(4) by blast
  have sl_t: "sl j = Some t" if "j \<in> D n \<or> j \<in> dp t" for j
    using D(1) [OF D(3) [OF p], of j] D(3) [of j] that by blast
  have other: "dp v \<inter> D n = {}" if v: "sl j = Some v" "v \<noteq> t" for j v
  proof (rule ccontr)
    assume "dp v \<inter> D n \<noteq> {}"
    then obtain d where d: "d \<in> dp v" "d \<in> D n"
      by blast
    from D(1) [OF v(1) d(1)] D(3) [OF d(2)] v(2) show False
      by simp
  qed
  have meets: "D m \<inter> D n \<noteq> {} \<Longrightarrow> D m \<inter> dp t \<noteq> {}" if m: "m \<in> set ns" for m
  proof -
    assume "D m \<inter> D n \<noteq> {}"
    then obtain d where d: "d \<in> D m" "d \<in> D n"
      by blast
    obtain v where "\<forall>d \<in> D m. sl d = Some v \<and> d \<in> dp v"
      using D(5) [OF m] by blast
    with d sl_t [of d] show "D m \<inter> dp t \<noteq> {}"
      by auto
  qed
  have linked: "(a, b) \<in> (link D (ns @ [n]))\<^sup>*" if "a \<in> dp t \<union> D n" "b \<in> D n" for a b
  proof (cases "a \<in> dp t")
    case True
    then show ?thesis
      by (rule D(8) [OF that(2) refl])
  next
    case False
    then have "(a, b) \<in> link D (ns @ [n])"
      using that by (auto simp: link_def)
    then show ?thesis ..
  qed
  show ?thesis
    unfolding forest_inv_def
  proof (intro conjI allI impI ballI)
    show "sl d = Some v" if "sl j = Some v" "d \<in> dp' v" for j v d
      using that D(1) [OF that(1), of d] sl_t [of d] by (auto simp: dp split: if_splits)
  next
    fix j v
    assume j: "sl j = Some v" "j \<notin> dp' v"
    have v: "v \<noteq> t"
    proof
      assume v: "v = t"
      with j have nj: "j \<notin> dp t" "j \<notin> D n"
        by (auto simp: dp)
      have "sl j = Some t"
        using j(1) v by simp
      from D(2) [OF this nj] sl_t [of p] p nj(2) show False
        by blast
    qed
    have "j \<notin> D n"
      using sl_t [of j] j v by auto
    moreover have "j \<notin> dp v"
      using j(2) v by (simp add: dp)
    ultimately have "dp v = {} \<and> nd v = [] \<and> (\<forall>k. sl k = Some v \<longrightarrow> k = j)"
      using D(2) [OF j(1)] by blast
    then show "dp' v = {}" "nd' v = []" "\<And>k. sl k = Some v \<Longrightarrow> k = j"
      using v by (simp_all add: dp nd)
  next
    fix m
    assume "m \<in> set (ns @ [n])"
    then consider "m = n" | "m \<in> set ns"
      by auto
    then show "\<exists>v. \<forall>d \<in> D m. sl d = Some v \<and> d \<in> dp' v"
    proof cases
      case 1
      then show ?thesis
        using sl_t by (intro exI [of _ t]) (simp add: dp)
    next
      case 2
      from D(5) [OF this] obtain v where "\<forall>d \<in> D m. sl d = Some v \<and> d \<in> dp v"
        by blast
      then show ?thesis
        by (intro exI [of _ v]) (auto simp: dp)
    qed
  next
    fix j v
    assume j: "sl j = Some v"
    show "mset (nd' v) = {#m \<in># mset (ns @ [n]). D m \<inter> dp' v \<noteq> {}#}"
    proof (cases "v = t")
      case True
      have "{#m \<in># mset ns. D m \<inter> (dp t \<union> D n) \<noteq> {}#} = {#m \<in># mset ns. D m \<inter> dp t \<noteq> {}#}"
        using meets by (intro filter_mset_cong refl) (auto simp: Int_Un_distrib)
      with True D(6) [OF j] p show ?thesis
        by (auto simp: nd dp)
    next
      case False
      with D(6) [OF j] other [OF j] show ?thesis
        by (auto simp: nd dp Int_commute)
    qed
  next
    fix j v a b
    assume j: "sl j = Some v" "a \<in> dp' v" "b \<in> dp' v"
    show "(a, b) \<in> (link D (ns @ [n]))\<^sup>*"
    proof (cases "v = t")
      case True
      with j(2,3) have ab: "a \<in> dp t \<union> D n" "b \<in> dp t \<union> D n"
        by (auto simp: dp)
      from linked [OF ab(1) p] link_sym [OF linked [OF ab(2) p]] show ?thesis
        by (rule rtrancl_trans)
    next
      case False
      with j D(7) [OF j(1), of a b] show ?thesis
        by (simp add: dp)
    qed
  qed auto
qed

text \<open>\<open>addNode\<close> of a node with dependencies always returns, and the node is in the forest.\<close>

lemma forest_ok_addNode:
  assumes ok: "forest_ok D ns F" and n: "finite (D n)" "D n \<noteq> {}"
  shows "\<exists>F'. forest_addNode D n F = Some F' \<and> forest_ok D (ns @ [n]) F'"
proof -
  have "finv D ns (ns @ [n]) {} None F"
    using ok inv_start [where D = D and ns = ns and n = n] unfolding forest_ok_def by fast
  then have "\<exists>t F'. addNode_loop (sorted_list_of_set (D n)) None F = Some (t, F') \<and>
      finv D ns (ns @ [n]) ({} \<union> set (sorted_list_of_set (D n))) t F'"
    by (rule addNode_loop_inv [where n = n]) (use n in auto)
  then obtain t0 F1 where F1: "addNode_loop (sorted_list_of_set (D n)) None F = Some (t0, F1)"
    and v: "valid_slots F1" and inv: "forest_inv D ns (ns @ [n]) (D n) t0 (slot F1) (nodes_at F1) (deps_at F1)"
    using n by auto
  obtain t where t: "t0 = Some t"
    using forest_invD(4) [OF inv] n by auto
  obtain p where "p \<in> D n"
    using n by blast
  from forest_invD(3) [OF inv this] v have len: "t < length (store F1)"
    by (simp add: t valid_slots_def)
  define F' where "F' = F1\<lparr>store := (store F1)[t := DependencyTree_addNode D n (store F1 ! t)]\<rparr>"
  have sl: "slot F' = slot F1"
    by (simp add: F'_def slot_def fun_eq_iff)
  have "nodes_at F' = (nodes_at F1)(t := nodes_at F1 t @ [n])" "deps_at F' = (deps_at F1)(t := deps_at F1 t \<union> D n)"
    using len by (auto simp: F'_def DependencyTree_addNode_def fun_eq_iff nth_list_update)
  from inv_finish [OF inv [unfolded t] this] have "forest_inv D (ns @ [n]) (ns @ [n]) {} None (slot F') (nodes_at F') (deps_at F')"
    by (simp only: sl)
  moreover have "valid_slots F'"
    using v n len unfolding valid_slots_def sl
    by (auto simp: F'_def DependencyTree_addNode_def nth_list_update)
  ultimately have "forest_ok D (ns @ [n]) F'"
    using ok n unfolding forest_ok_def by auto
  moreover have "forest_addNode D n F = Some F'"
    by (simp add: forest_addNode_def F1 t F'_def)
  ultimately show ?thesis
    by blast
qed

subsection \<open>The contract of the forest\<close>

text \<open>
  What the solver relies on: an index from input bytes to lists of nodes that finds every node
  under each of its bytes, invents none, and lists the same nodes under all the bytes of a
  listed node. The first argument of the invariant is the list of the nodes added so far.
\<close>

locale dependency_index =
  fixes D :: "'a \<Rightarrow> nat set" and J :: "'a list \<Rightarrow> 's \<Rightarrow> bool" and look :: "'s \<Rightarrow> nat \<Rightarrow> 'a list"
  assumes look_complete: "J ns s \<Longrightarrow> n \<in> set ns \<Longrightarrow> d \<in> D n \<Longrightarrow> n \<in> set (look s d)"
    and look_sound: "J ns s \<Longrightarrow> set (look s d) \<subseteq> set ns"
    and look_closed: "J ns s \<Longrightarrow> n \<in> set (look s d) \<Longrightarrow> x \<in> D n \<Longrightarrow> look s x = look s d"
begin

text \<open>
  The slice of a set of bytes: a node outside it shares no byte with the set or with a node of
  the slice. So a solution of the slice can be completed outside the bytes of the slice.
\<close>

definition slice :: "'s \<Rightarrow> nat set \<Rightarrow> 'a set" where
  "slice s E = (\<Union>d \<in> E. set (look s d))"

definition slice_bytes :: "'s \<Rightarrow> nat set \<Rightarrow> nat set" where
  "slice_bytes s E = E \<union> (\<Union>n \<in> slice s E. D n)"

lemma slice_separate:
  assumes "J ns s" "n \<in> set ns" "n \<notin> slice s E"
  shows "D n \<inter> slice_bytes s E = {}"
proof (rule ccontr)
  assume "D n \<inter> slice_bytes s E \<noteq> {}"
  then obtain d where d: "d \<in> D n" "d \<in> slice_bytes s E"
    by blast
  have n: "n \<in> set (look s d)"
    by (rule look_complete [OF assms(1,2) d(1)])
  from d(2) consider "d \<in> E" | m e where "e \<in> E" "m \<in> set (look s e)" "d \<in> D m"
    by (auto simp: slice_bytes_def slice_def)
  then show False
  proof cases
    case 1
    with n assms(3) show False
      by (auto simp: slice_def)
  next
    case 2
    with look_closed [OF assms(1) 2(2,3)] n assms(3) show False
      by (auto simp: slice_def)
  qed
qed

text \<open>
  If the truth of a node depends on its bytes only, an assignment that satisfies the slice and
  agrees elsewhere with one that satisfies all nodes satisfies all nodes.
\<close>

lemma slice_complete:
  assumes J: "J ns s"
    and local: "\<And>n r r'. n \<in> set ns \<Longrightarrow> (\<forall>i \<in> D n. r i = r' i) \<Longrightarrow> sat r n \<Longrightarrow> sat r' n"
    and seed: "\<forall>n \<in> set ns. sat r0 n"
    and sol: "\<forall>n \<in> slice s E. sat r n"
    and agree: "\<forall>i. i \<notin> slice_bytes s E \<longrightarrow> r i = r0 i"
  shows "\<forall>n \<in> set ns. sat r n"
proof
  fix n
  assume n: "n \<in> set ns"
  show "sat r n"
  proof (cases "n \<in> slice s E")
    case False
    from slice_separate [OF J n this] agree have "\<forall>i \<in> D n. r0 i = r i"
      by fastforce
    then show ?thesis
      using local [OF n] seed n by blast
  qed (use sol in blast)
qed

end

text \<open>The nodes below a slot of the forest; an empty slot has none.\<close>

definition tree_nodes :: "'a dependency_forest \<Rightarrow> nat \<Rightarrow> 'a list" where
  "tree_nodes F i = (case slot F i of None \<Rightarrow> [] | Some t \<Rightarrow> nodes_at F t)"

lemma tree_nodes_deps:
  assumes ok: "forest_ok D ns F" and n: "n \<in> set (tree_nodes F i)"
  shows "n \<in> set ns" and "x \<in> D n \<Longrightarrow> slot F x = slot F i"
    and "\<exists>d \<in> D n. (i, d) \<in> (link D ns)\<^sup>*"
proof -
  have inv: "forest_inv D ns ns {} None (slot F) (nodes_at F) (deps_at F)"
    using ok by (simp add: forest_ok_def)
  note I = forest_invD [OF inv]
  obtain t where t: "slot F i = Some t" "n \<in> set (nodes_at F t)"
    using n by (cases "slot F i") (auto simp: tree_nodes_def)
  have "n \<in># {#m \<in># mset ns. D m \<inter> deps_at F t \<noteq> {}#}"
    using t(2) I(6) [OF t(1)] by (metis set_mset_mset)
  then have ns: "n \<in> set ns" and "D n \<inter> deps_at F t \<noteq> {}"
    by auto
  then obtain d where d: "d \<in> D n" "d \<in> deps_at F t"
    by blast
  show "n \<in> set ns"
    by (rule ns)
  show "slot F x = slot F i" if "x \<in> D n"
    using I(5) [OF ns] I(1) [OF t(1) d(2)] d(1) that t(1) by auto
  have "i \<in> deps_at F t"
    using I(2) [OF t(1)] d(2) by blast
  with I(7) [OF t(1) _ d(2)] d(1) show "\<exists>d \<in> D n. (i, d) \<in> (link D ns)\<^sup>*"
    by blast
qed

lemma link_slot:
  assumes ok: "forest_ok D ns F" and "(a, b) \<in> (link D ns)\<^sup>*"
  shows "slot F a = slot F b"
  using assms(2)
proof (induction rule: rtrancl_induct)
  case (step b c)
  then obtain m where m: "m \<in> set ns" "b \<in> D m" "c \<in> D m"
    by (auto simp: link_def)
  have inv: "forest_inv D ns ns {} None (slot F) (nodes_at F) (deps_at F)"
    using ok by (simp add: forest_ok_def)
  from forest_invD(5) [OF inv m(1)] m(2,3) step.IH show ?case
    by auto
qed simp

text \<open>
  The functional specification: below a slot are exactly the nodes that are connected with its
  byte through nodes added before, as often as they have been added.
\<close>

lemma tree_nodes_member:
  assumes ok: "forest_ok D ns F"
  shows "n \<in> set (tree_nodes F i) \<longleftrightarrow> n \<in> set ns \<and> (\<exists>d \<in> D n. (i, d) \<in> (link D ns)\<^sup>*)"
proof
  assume "n \<in> set ns \<and> (\<exists>d \<in> D n. (i, d) \<in> (link D ns)\<^sup>*)"
  then obtain d where n: "n \<in> set ns" and d: "d \<in> D n" "(i, d) \<in> (link D ns)\<^sup>*"
    by blast
  have inv: "forest_inv D ns ns {} None (slot F) (nodes_at F) (deps_at F)"
    using ok by (simp add: forest_ok_def)
  note I = forest_invD [OF inv]
  obtain v where v: "slot F d = Some v" "d \<in> deps_at F v"
    using I(5) [OF n] d(1) by blast
  then have "n \<in># {#m \<in># mset ns. D m \<inter> deps_at F v \<noteq> {}#}"
    using n d(1) by auto
  then have "n \<in> set (nodes_at F v)"
    using I(6) [OF v(1)] by (metis set_mset_mset)
  then show "n \<in> set (tree_nodes F i)"
    using link_slot [OF ok d(2)] v(1) by (simp add: tree_nodes_def)
qed (use tree_nodes_deps [OF ok] in blast)

lemma tree_nodes_count:
  assumes ok: "forest_ok D ns F" and n: "n \<in> set (tree_nodes F i)"
  shows "count (mset (tree_nodes F i)) n = count (mset ns) n"
proof -
  have inv: "forest_inv D ns ns {} None (slot F) (nodes_at F) (deps_at F)"
    using ok by (simp add: forest_ok_def)
  obtain t where t: "slot F i = Some t" "tree_nodes F i = nodes_at F t"
    using n by (cases "slot F i") (auto simp: tree_nodes_def)
  note eq = forest_invD(6) [OF inv t(1)]
  have "n \<in># mset (tree_nodes F i)"
    using n by simp
  then have "D n \<inter> deps_at F t \<noteq> {}"
    unfolding t(2) eq by simp
  then show ?thesis
    unfolding t(2) eq by simp
qed

interpretation forest: dependency_index D "forest_ok D" tree_nodes for D :: "'a \<Rightarrow> nat set"
proof
  fix ns :: "'a list" and F n d x
  assume ok: "forest_ok D ns F"
  show "n \<in> set ns \<Longrightarrow> d \<in> D n \<Longrightarrow> n \<in> set (tree_nodes F d)"
    using tree_nodes_member [OF ok] by blast
  show "set (tree_nodes F d) \<subseteq> set ns"
    using tree_nodes_deps(1) [OF ok] by blast
  show "tree_nodes F x = tree_nodes F d" if "n \<in> set (tree_nodes F d)" "x \<in> D n"
    using tree_nodes_deps(2) [OF ok that] by (simp add: tree_nodes_def)
qed

text \<open>\<open>find\<close> returns a tree with just these nodes.\<close>

lemma find_tree_nodes:
  assumes ok: "forest_ok D ns F" and find: "forest_find i F = (t, F')"
  shows "nodes_at F' t = tree_nodes F i" "tree_nodes F' = tree_nodes F"
proof -
  have v: "valid_slots F"
    using ok by (simp add: forest_ok_def)
  show "nodes_at F' t = tree_nodes F i"
    using find_slot(3,4) [OF find] by (cases "slot F i") (simp_all add: tree_nodes_def empty_tree_def)
  show "tree_nodes F' = tree_nodes F"
  proof (cases "slot F i")
    case (Some u)
    with find_slot(3) [OF find] have "slot F' = slot F" "store F' = store F"
      by blast+
    then show ?thesis
      by (intro ext) (simp add: tree_nodes_def split: option.split)
  next
    case None
    note new = find_slot(4) [OF find None]
    have "nodes_at F' u = nodes_at F u" if "slot F j = Some u" for j u
      using that v new by (simp add: valid_slots_def nth_append)
    then show ?thesis
      using new None by (auto simp: tree_nodes_def fun_eq_iff empty_tree_def split: option.splits)
  qed
qed

subsection \<open>Runs of the forest\<close>

text \<open>
  A forest as the solver builds it: nodes are added one after the other. And what \<open>find\<close> gives for
  a byte: the nodes of the tree that it returns.
\<close>

fun forest_addNodes :: "('a \<Rightarrow> nat set) \<Rightarrow> 'a list \<Rightarrow> 'a dependency_forest \<Rightarrow> 'a dependency_forest option" where
  "forest_addNodes D [] F = Some F"
| "forest_addNodes D (n # ns) F = do { F \<leftarrow> forest_addNode D n F; forest_addNodes D ns F }"

definition found_nodes :: "'a dependency_forest \<Rightarrow> nat \<Rightarrow> 'a list" where
  "found_nodes F i = (let (t, F') = forest_find i F in nodes_ids (store F' ! t))"

lemma forest_addNodes_ok:
  assumes "forest_ok D ms F" and "\<forall>n \<in> set ns. finite (D n) \<and> D n \<noteq> {}"
  shows "\<exists>F'. forest_addNodes D ns F = Some F' \<and> forest_ok D (ms @ ns) F'"
  using assms
proof (induction ns arbitrary: ms F)
  case (Cons n ns)
  obtain F1 where F1: "forest_addNode D n F = Some F1" "forest_ok D (ms @ [n]) F1"
    using forest_ok_addNode [OF Cons.prems(1)] Cons.prems(2) by force
  with Cons.IH [OF F1(2)] Cons.prems(2) show ?case
    by auto
qed simp

lemma forest_addNodes_empty:
  "\<forall>n \<in> set ns. finite (D n) \<and> D n \<noteq> {} \<Longrightarrow> \<exists>F. forest_addNodes D ns empty_forest = Some F \<and> forest_ok D ns F"
  using forest_addNodes_ok [OF forest_ok_empty] by fastforce

lemma found_tree_nodes: "forest_ok D ns F \<Longrightarrow> found_nodes F i = tree_nodes F i"
  using find_tree_nodes(1) by (fastforce simp: found_nodes_def Let_def split: prod.split)

lemma found_component:
  assumes "forest_ok D ns F"
  shows "mset (found_nodes F i) = {#n \<in># mset ns. \<exists>d \<in> D n. (i, d) \<in> (link D ns)\<^sup>*#}"
proof (rule multiset_eqI)
  fix n
  show "count (mset (found_nodes F i)) n = count {#n \<in># mset ns. \<exists>d \<in> D n. (i, d) \<in> (link D ns)\<^sup>*#} n"
    using tree_nodes_member [OF assms, of n i] tree_nodes_count [OF assms, of n i]
    unfolding found_tree_nodes [OF assms] by (cases "n \<in> set (tree_nodes F i)") (auto simp: count_eq_zero_iff, metis count_mset_0_iff)
qed

text \<open>Connected bytes share their tree.\<close>

lemma found_shared:
  assumes ok: "forest_ok D ns F" and ij: "(i, j) \<in> (link D ns)\<^sup>+"
  shows "fst (forest_find i F) = fst (forest_find j F)"
proof -
  obtain k where "(i, k) \<in> link D ns"
    using ij by (meson tranclD)
  then obtain n where n: "n \<in> set ns" "i \<in> D n"
    by (auto simp: link_def)
  have inv: "forest_inv D ns ns {} None (slot F) (nodes_at F) (deps_at F)"
    using ok by (simp add: forest_ok_def)
  obtain t where t: "slot F i = Some t"
    using forest_invD(5) [OF inv n(1)] n(2) by blast
  then have "slot F j = Some t"
    using link_slot [OF ok trancl_into_rtrancl [OF ij]] by simp
  with t show ?thesis
    using find_slot(3) [of i F] find_slot(3) [of j F] by (metis prod.collapse)
qed

lemma found_solution:
  assumes ok: "forest_ok D ns F"
    and "\<And>n r r'. n \<in> set ns \<Longrightarrow> (\<forall>i \<in> D n. r i = r' i) \<Longrightarrow> holds r n \<Longrightarrow> holds r' n"
    and "\<forall>n \<in> set ns. holds r0 n" and "\<forall>i \<in> X. \<forall>n \<in> set (found_nodes F i). holds r n"
    and "\<forall>j. j \<notin> X \<union> (\<Union>i \<in> X. \<Union>n \<in> set (found_nodes F i). D n) \<longrightarrow> r j = r0 j"
  shows "\<forall>n \<in> set ns. holds r n"
proof (rule forest.slice_complete [where sat = holds, OF ok assms(2,3)])
  show "\<forall>n \<in> forest.slice F X. holds r n"
    using assms(4) by (simp add: dependency_index.slice_def [OF forest.dependency_index_axioms] found_tree_nodes [OF ok])
  show "\<forall>j. j \<notin> forest.slice_bytes D F X \<longrightarrow> r j = r0 j"
    using assms(5) by (simp add: dependency_index.slice_bytes_def [OF forest.dependency_index_axioms]
        dependency_index.slice_def [OF forest.dependency_index_axioms] found_tree_nodes [OF ok])
qed

end
