(* ===== verification/XXHash.thy ===== *)
theory XXHash
  imports Prelude "HOL-Library.Word"
begin

unbundle bit_operations_syntax

section \<open>The 32-bit hash\<close>

text \<open>
  \<open>third_party/xxhash/xxhash.cpp\<close>, the 32-bit part, with which QSYM hashes expressions, program
  counters and call stacks: the one-shot function \<open>XXH32\<close> and the streaming interface
  \<open>XXH32_reset\<close>, \<open>XXH32_update\<close>, \<open>XXH32_digest\<close>, and the proof that they agree however the
  data is cut into pieces. The tool runs on x86-64, so \<open>XXH_CPU_LITTLE_ENDIAN\<close> is 1 and
  the alignment check is off (\<open>XXH_FORCE_ALIGN_CHECK\<close> is 0).
\<close>

type_synonym byte = "8 word"
type_synonym U32 = "32 word"

definition PRIME32_1 :: U32 where "PRIME32_1 = 2654435761"
definition PRIME32_2 :: U32 where "PRIME32_2 = 2246822519"
definition PRIME32_3 :: U32 where "PRIME32_3 = 3266489917"
definition PRIME32_4 :: U32 where "PRIME32_4 = 668265263"
definition PRIME32_5 :: U32 where "PRIME32_5 = 374761393"

text \<open>\<open>XXH_readLE32\<close>: four bytes, the least significant one first.\<close>

fun XXH_readLE32 :: "byte list \<Rightarrow> U32" where
  "XXH_readLE32 [] = 0"
| "XXH_readLE32 (b # bs) = (ucast b OR push_bit 8 (XXH_readLE32 bs))"

definition XXH_rotl32 :: "U32 \<Rightarrow> nat \<Rightarrow> U32" where
  "XXH_rotl32 x r = (push_bit r x OR drop_bit (32 - r) x)"

definition XXH_swap32 :: "U32 \<Rightarrow> U32" where
  "XXH_swap32 x =
     (push_bit 24 x AND 0xff000000) OR (push_bit 8 x AND 0x00ff0000) OR
     (drop_bit 8 x AND 0x0000ff00) OR (drop_bit 24 x AND 0x000000ff)"

definition XXH32_round :: "U32 \<Rightarrow> U32 \<Rightarrow> U32" where
  "XXH32_round seed input = XXH_rotl32 (seed + input * PRIME32_2) 13 * PRIME32_1"

text \<open>The four accumulators.\<close>

type_synonym accs = "U32 \<times> U32 \<times> U32 \<times> U32"

definition init_accs :: "U32 \<Rightarrow> accs" where
  "init_accs seed = (seed + PRIME32_1 + PRIME32_2, seed + PRIME32_2, seed + 0, seed - PRIME32_1)"

text \<open>One stripe of 16 bytes, and the loop over all whole stripes; it returns what is left.\<close>

definition XXH32_stripe :: "accs \<Rightarrow> byte list \<Rightarrow> accs" where
  "XXH32_stripe v p = (case v of (v1, v2, v3, v4) \<Rightarrow>
     (XXH32_round v1 (XXH_readLE32 (take 4 p)),
      XXH32_round v2 (XXH_readLE32 (take 4 (drop 4 p))),
      XXH32_round v3 (XXH_readLE32 (take 4 (drop 8 p))),
      XXH32_round v4 (XXH_readLE32 (take 4 (drop 12 p)))))"

fun XXH32_stripes :: "accs \<Rightarrow> byte list \<Rightarrow> accs \<times> byte list" where
  "XXH32_stripes v p =
     (if 16 \<le> length p then XXH32_stripes (XXH32_stripe v p) (drop 16 p) else (v, p))"

declare XXH32_stripes.simps [simp del]

definition converge :: "accs \<Rightarrow> U32" where
  "converge v = (case v of (v1, v2, v3, v4) \<Rightarrow>
     XXH_rotl32 v1 1 + XXH_rotl32 v2 7 + XXH_rotl32 v3 12 + XXH_rotl32 v4 18)"

text \<open>The rest of the data: words of four bytes, then single bytes, then the final mix.\<close>

fun XXH32_words :: "U32 \<Rightarrow> byte list \<Rightarrow> U32 \<times> byte list" where
  "XXH32_words h p =
     (if 4 \<le> length p
      then XXH32_words (XXH_rotl32 (h + XXH_readLE32 (take 4 p) * PRIME32_3) 17 * PRIME32_4) (drop 4 p)
      else (h, p))"

declare XXH32_words.simps [simp del]

fun XXH32_bytes :: "U32 \<Rightarrow> byte list \<Rightarrow> U32" where
  "XXH32_bytes h [] = h"
| "XXH32_bytes h (b # p) = XXH32_bytes (XXH_rotl32 (h + ucast b * PRIME32_5) 11 * PRIME32_1) p"

definition XXH32_finish :: "U32 \<Rightarrow> byte list \<Rightarrow> U32" where
  "XXH32_finish h p =
     (let (h, p) = XXH32_words h p;
          h = XXH32_bytes h p;
          h = h XOR drop_bit 15 h;
          h = h * PRIME32_2;
          h = h XOR drop_bit 13 h;
          h = h * PRIME32_3
      in h XOR drop_bit 16 h)"

definition XXH32 :: "byte list \<Rightarrow> U32 \<Rightarrow> U32" where
  "XXH32 input seed =
     (let (h32, p) =
        (if 16 \<le> length input
         then let (v, p) = XXH32_stripes (init_accs seed) input in (converge v, p)
         else (seed + PRIME32_5, input))
      in XXH32_finish (h32 + of_nat (length input)) p)"

subsection \<open>Streaming\<close>

text \<open>
  \<open>XXH32_state_t\<close>: the buffer \<open>mem32\<close> of 16 bytes holds \<open>memsize\<close> bytes that wait for a stripe
  to become whole.
\<close>

record XXH32_state =
  total_len_32 :: U32
  large_len :: bool
  accs :: accs
  mem32 :: "byte list"
  memsize :: nat

definition XXH32_reset :: "U32 \<Rightarrow> XXH32_state" where
  "XXH32_reset seed = \<lparr>total_len_32 = 0, large_len = False, accs = init_accs seed,
     mem32 = replicate 16 0, memsize = 0\<rparr>"

text \<open>\<open>memcpy\<close> into the buffer at an offset.\<close>

definition copy_at :: "nat \<Rightarrow> byte list \<Rightarrow> byte list \<Rightarrow> byte list" where
  "copy_at i src dest = take i dest @ src @ drop (i + length src) dest"

text \<open>Data left from the previous update is completed to a stripe; the rest of the input follows.\<close>

definition XXH32_fill :: "byte list \<Rightarrow> XXH32_state \<Rightarrow> XXH32_state \<times> byte list" where
  "XXH32_fill input st =
     (if memsize st \<noteq> 0
      then let k = 16 - memsize st;
               m = copy_at (memsize st) (take k input) (mem32 st)
           in (st\<lparr>mem32 := m, accs := XXH32_stripe (accs st) m, memsize := 0\<rparr>, drop k input)
      else (st, input))"

text \<open>The whole stripes of the input are consumed; what is left goes to the buffer.\<close>

definition XXH32_consume :: "byte list \<Rightarrow> XXH32_state \<Rightarrow> XXH32_state" where
  "XXH32_consume p st =
     (let (v, p) = XXH32_stripes (accs st) p;
          st = st\<lparr>accs := v\<rparr>
      in if p \<noteq> [] then st\<lparr>mem32 := copy_at 0 p (mem32 st), memsize := length p\<rparr> else st)"

definition XXH32_count :: "byte list \<Rightarrow> XXH32_state \<Rightarrow> XXH32_state" where
  "XXH32_count input st =
     (let total = total_len_32 st + of_nat (length input)
      in st\<lparr>total_len_32 := total, large_len := large_len st \<or> 16 \<le> length input \<or> 16 \<le> total\<rparr>)"

definition XXH32_update :: "byte list \<Rightarrow> XXH32_state \<Rightarrow> XXH32_state" where
  "XXH32_update input st =
     (let st = XXH32_count input st
      in if memsize st + length input < 16
         then st\<lparr>mem32 := copy_at (memsize st) input (mem32 st), memsize := memsize st + length input\<rparr>
         else let (st, p) = XXH32_fill input st in XXH32_consume p st)"

definition XXH32_digest :: "XXH32_state \<Rightarrow> U32" where
  "XXH32_digest st =
     (let h32 = (if large_len st then converge (accs st) else fst (snd (snd (accs st))) + PRIME32_5)
      in XXH32_finish (h32 + total_len_32 st) (take (memsize st) (mem32 st)))"

subsection \<open>The canonical form of a hash value\<close>

text \<open>\<open>XXH32_canonicalFromHash\<close> swaps the value and stores it; \<open>XXH32_hashFromCanonical\<close> reads and swaps.\<close>

definition bytes_of :: "U32 \<Rightarrow> byte list" where
  "bytes_of x = map (\<lambda>i. ucast (drop_bit (8 * i) x)) [0, 1, 2, 3]"

definition XXH32_canonicalFromHash :: "U32 \<Rightarrow> byte list" where
  "XXH32_canonicalFromHash h = bytes_of (XXH_swap32 h)"

definition XXH32_hashFromCanonical :: "byte list \<Rightarrow> U32" where
  "XXH32_hashFromCanonical p = XXH_swap32 (XXH_readLE32 p)"

subsection \<open>Streaming computes the one-shot hash\<close>

lemma stripes_short: "length p < 16 \<Longrightarrow> XXH32_stripes v p = (v, p)"
  by (subst XXH32_stripes.simps) simp

lemma stripes_step: "16 \<le> length p \<Longrightarrow> XXH32_stripes v p = XXH32_stripes (XXH32_stripe v p) (drop 16 p)"
  by (subst XXH32_stripes.simps) simp

lemma stripe_take: "XXH32_stripe v (take 16 p) = XXH32_stripe v p"
  by (simp add: XXH32_stripe_def drop_take min_def)

text \<open>The stripes of data in two pieces: the first piece's stripes, then those of its rest and the second.\<close>

lemma stripes_append:
  "XXH32_stripes v (p @ q) = (let (v', r) = XXH32_stripes v p in XXH32_stripes v' (r @ q))"
proof (induction v p rule: XXH32_stripes.induct)
  case (1 v p)
  show ?case
  proof (cases "16 \<le> length p")
    case True
    have "XXH32_stripe v (p @ q) = XXH32_stripe v p"
      using True stripe_take [of v "p @ q"] stripe_take [of v p] by simp
    moreover have "XXH32_stripes v (p @ q) = XXH32_stripes (XXH32_stripe v (p @ q)) (drop 16 p @ q)"
      using True stripes_step [of "p @ q" v] by simp
    ultimately show ?thesis
      using 1 [OF True] by (simp only: stripes_step [OF True])
  next
    case False
    then show ?thesis
      by (simp add: stripes_short)
  qed
qed

lemma stripes_cont: "XXH32_stripes v p = (v', r) \<Longrightarrow> XXH32_stripes v (p @ q) = XXH32_stripes v' (r @ q)"
  by (subst stripes_append) simp

lemma stripes_rest:
  "XXH32_stripes v p = (v', r) \<Longrightarrow> r = drop (length p - length p mod 16) p \<and> length r = length p mod 16"
proof (induction v p arbitrary: v' r rule: XXH32_stripes.induct)
  case (1 v p)
  show ?case
  proof (cases "16 \<le> length p")
    case True
    then have "length p mod 16 = (length p - 16) mod 16"
      by (simp add: le_mod_geq)
    moreover have "XXH32_stripes (XXH32_stripe v p) (drop 16 p) = (v', r)"
      using 1(2) by (simp only: stripes_step [OF True])
    moreover have "drop (length p - 16 - k) (drop 16 p) = drop (length p - k) p" if "k \<le> length p - 16" for k
      using that True by simp
    ultimately show ?thesis
      using 1(1) [OF True] by simp
  next
    case False
    with 1(2) show ?thesis
      by (simp add: stripes_short)
  qed
qed

text \<open>What the state knows of the data it has seen.\<close>

definition seen :: "U32 \<Rightarrow> byte list \<Rightarrow> XXH32_state \<Rightarrow> bool" where
  "seen seed d st \<longleftrightarrow>
     total_len_32 st = of_nat (length d) \<and> (large_len st \<longleftrightarrow> 16 \<le> length d) \<and>
     length (mem32 st) = 16 \<and> memsize st < 16 \<and>
     XXH32_stripes (init_accs seed) d = (accs st, take (memsize st) (mem32 st))"

lemma seen_reset: "seen seed [] (XXH32_reset seed)"
  by (simp add: seen_def XXH32_reset_def stripes_short)

lemma length_copy_at: "i + length src \<le> length dest \<Longrightarrow> length (copy_at i src dest) = length dest"
  by (simp add: copy_at_def)

lemma take_copy_at:
  "i \<le> length dest \<Longrightarrow> take (i + length src) (copy_at i src dest) = take i dest @ src"
  by (simp add: copy_at_def)

text \<open>The part of the invariant that the counters do not touch.\<close>

definition buffered :: "U32 \<Rightarrow> byte list \<Rightarrow> XXH32_state \<Rightarrow> bool" where
  "buffered seed d st \<longleftrightarrow> length (mem32 st) = 16 \<and> memsize st < 16 \<and>
     XXH32_stripes (init_accs seed) d = (accs st, take (memsize st) (mem32 st))"

lemma fill_buffered:
  assumes b: "buffered seed d st" and le: "16 \<le> memsize st + length input"
    and fill: "XXH32_fill input st = (st', p)"
  shows "buffered seed (d @ take (length input - length p) input) st'" "memsize st' = 0"
    "drop (length input - length p) input = p"
    "total_len_32 st' = total_len_32 st" "large_len st' = large_len st"
proof -
  let ?k = "memsize st"
  have k: "?k < 16" "length (mem32 st) = 16"
    and st: "XXH32_stripes (init_accs seed) d = (accs st, take ?k (mem32 st))"
    using b by (auto simp: buffered_def)
  show "memsize st' = 0" "drop (length input - length p) input = p"
    "total_len_32 st' = total_len_32 st" "large_len st' = large_len st"
    using fill le by (auto simp: XXH32_fill_def Let_def split: if_splits)
  show "buffered seed (d @ take (length input - length p) input) st'"
  proof (cases "?k = 0")
    case True
    with fill b show ?thesis
      by (simp add: XXH32_fill_def)
  next
    case False
    define m where "m = copy_at ?k (take (16 - ?k) input) (mem32 st)"
    have m: "m = take ?k (mem32 st) @ take (16 - ?k) input" "length m = 16"
      using le k by (auto simp: m_def copy_at_def)
    have st': "st' = st\<lparr>mem32 := m, accs := XXH32_stripe (accs st) m, memsize := 0\<rparr>" "p = drop (16 - ?k) input"
      using fill False by (auto simp: XXH32_fill_def Let_def m_def)
    have "XXH32_stripes (init_accs seed) (d @ take (16 - ?k) input) = XXH32_stripes (accs st) m"
      unfolding m(1) by (rule stripes_cont [OF st])
    also have "\<dots> = (XXH32_stripe (accs st) m, [])"
      using m(2) by (simp add: stripes_step stripes_short)
    finally show ?thesis
      using m(2) le by (simp add: buffered_def st')
  qed
qed

lemma consume_buffered:
  assumes "buffered seed d st" "memsize st = 0"
  shows "buffered seed (d @ p) (XXH32_consume p st)"
    "total_len_32 (XXH32_consume p st) = total_len_32 st" "large_len (XXH32_consume p st) = large_len st"
proof -
  obtain v r where vr: "XXH32_stripes (accs st) p = (v, r)"
    by (rule prod.exhaust)
  have "XXH32_stripes (init_accs seed) (d @ p) = (v, r)"
    using stripes_cont [of "init_accs seed" d "accs st" "[]" p] assms vr by (simp add: buffered_def)
  moreover have "length r < 16"
    using stripes_rest [OF vr] by simp
  moreover have "length (mem32 st) = 16"
    using assms by (simp add: buffered_def)
  ultimately show "buffered seed (d @ p) (XXH32_consume p st)"
    using length_copy_at [of 0 r "mem32 st"] take_copy_at [of 0 "mem32 st" r] assms(2)
    by (simp add: XXH32_consume_def vr buffered_def Let_def)
  show "total_len_32 (XXH32_consume p st) = total_len_32 st" "large_len (XXH32_consume p st) = large_len st"
    by (simp_all add: XXH32_consume_def vr Let_def)
qed

text \<open>The flag is the length, although the counter wraps around at \<open>2 ^ 32\<close>.\<close>

lemma count_large:
  "(16 \<le> n \<or> 16 \<le> m \<or> 16 \<le> (of_nat (n + m) :: U32)) \<longleftrightarrow> 16 \<le> n + m"
proof (cases "16 \<le> n \<or> 16 \<le> m")
  case False
  then have "n + m < 2 ^ 32"
    by simp
  then have "unat (of_nat (n + m) :: U32) = n + m"
    by (simp add: unat_of_nat take_bit_nat_eq_self flip: of_nat_add)
  with False show ?thesis
    by (simp add: word_le_nat_alt)
qed auto

lemma seen_update:
  assumes seen: "seen seed d st"
  shows "seen seed (d @ input) (XXH32_update input st)"
proof -
  let ?c = "XXH32_count input st"
  have b: "buffered seed d ?c"
    using seen by (simp add: seen_def buffered_def XXH32_count_def Let_def)
  have c: "total_len_32 ?c = of_nat (length (d @ input))" "large_len ?c \<longleftrightarrow> 16 \<le> length (d @ input)"
    using seen count_large [of "length d" "length input"] by (auto simp: seen_def XXH32_count_def Let_def)
  have goal: "seen seed (d @ input) st'"
    if "total_len_32 st' = total_len_32 ?c" "large_len st' = large_len ?c" "buffered seed (d @ input) st'" for st'
    using that c by (simp add: seen_def buffered_def)
  show ?thesis
  proof (cases "memsize ?c + length input < 16")
    case True
    with b stripes_cont [of "init_accs seed" d "accs ?c" "take (memsize ?c) (mem32 ?c)" input]
    have "buffered seed (d @ input) (?c\<lparr>mem32 := copy_at (memsize ?c) input (mem32 ?c), memsize := memsize ?c + length input\<rparr>)"
      by (simp add: buffered_def length_copy_at take_copy_at stripes_short)
    with True show ?thesis
      by (intro goal) (simp_all add: XXH32_update_def Let_def)
  next
    case False
    obtain st2 p where fill: "XXH32_fill input ?c = (st2, p)"
      by (rule prod.exhaust)
    note f = fill_buffered [OF b _ fill]
    have "d @ input = (d @ take (length input - length p) input) @ p"
      using f(3) False by (metis append.assoc append_take_drop_id linorder_not_less)
    then have "buffered seed (d @ input) (XXH32_consume p st2)"
      using consume_buffered(1) [OF f(1,2), of p] False by simp
    with False fill f show ?thesis
      by (intro goal) (simp_all add: XXH32_update_def Let_def consume_buffered)
  qed
qed

lemma seen_updates: "seen seed d st \<Longrightarrow> seen seed (d @ concat chunks) (fold XXH32_update chunks st)"
proof (induction chunks arbitrary: d st)
  case (Cons c chunks)
  show ?case
    using Cons.IH [OF seen_update [OF Cons.prems, of c]] by simp
qed simp

lemma accs_third: "fst (snd (snd (init_accs seed))) = seed"
  by (simp add: init_accs_def)

lemma digest_seen:
  assumes "seen seed d st" shows "XXH32_digest st = XXH32 d seed"
proof (cases "16 \<le> length d")
  case True
  with assms show ?thesis
    by (simp add: XXH32_digest_def XXH32_def seen_def)
next
  case False
  with assms stripes_short [of d "init_accs seed"] have "accs st = init_accs seed" "take (memsize st) (mem32 st) = d"
    by (simp_all add: seen_def)
  with False assms show ?thesis
    by (simp add: XXH32_digest_def XXH32_def seen_def accs_third)
qed

lemma streaming_digest: "XXH32_digest (fold XXH32_update chunks (XXH32_reset seed)) = XXH32 (concat chunks) seed"
  using digest_seen [OF seen_updates [OF seen_reset, of seed chunks]] by simp

text \<open>The canonical form is the big-endian one, and reading it gives the value back.\<close>

lemma byte_masks:
  "(0xff000000 :: U32) = push_bit 24 (mask 8)" "(0x00ff0000 :: U32) = push_bit 16 (mask 8)"
  "(0x0000ff00 :: U32) = push_bit 8 (mask 8)" "(0x000000ff :: U32) = mask 8"
  by (simp_all add: mask_eq_exp_minus_1 push_bit_eq_mult)

lemma bit_swap32:
  "bit (XXH_swap32 x) n \<longleftrightarrow> n < 32 \<and>
     bit x (if 24 \<le> n then n - 24 else if 16 \<le> n then n - 8 else if 8 \<le> n then n + 8 else n + 24)"
  unfolding XXH_swap32_def byte_masks by (auto simp: bit_simps add.commute)

lemma byte_cases [consumes 1]:
  assumes "n < (32 :: nat)"
  obtains "n < 8" | k where "n = 8 + k" "k < 8" | k where "n = 16 + k" "k < 8" | k where "n = 24 + k" "k < 8"
proof -
  consider "n < 8" | "8 \<le> n" "n < 16" | "16 \<le> n" "n < 24" | "24 \<le> n" "n < 32"
    using assms by linarith
  then show thesis
    using that by cases (auto simp: nat_le_iff_add)
qed

lemma swap_swap: "XXH_swap32 (XXH_swap32 x) = x"
proof (rule bit_word_eqI)
  fix n
  assume "n < LENGTH(32)"
  then have n: "n < 32"
    by simp
  then show "bit (XXH_swap32 (XXH_swap32 x)) n \<longleftrightarrow> bit x n"
    by (rule byte_cases) (simp_all add: bit_swap32 add.commute)
qed

lemma read_bytes_of: "XXH_readLE32 (bytes_of x) = x"
proof (rule bit_word_eqI)
  fix n
  assume "n < LENGTH(32)"
  then have "n < 32"
    by simp
  then show "bit (XXH_readLE32 (bytes_of x)) n \<longleftrightarrow> bit x n"
    by (rule byte_cases) (auto simp: bytes_of_def bit_simps)
qed

lemma canonical_roundtrip: "XXH32_hashFromCanonical (XXH32_canonicalFromHash h) = h"
  by (simp add: XXH32_hashFromCanonical_def XXH32_canonicalFromHash_def read_bytes_of swap_swap)

end
