(* ===== verification/AflTraceMap.thy ===== *)
theory AflTraceMap
  imports CallStack XXHash
begin

unbundle bit_operations_syntax

section \<open>The branch map\<close>

text \<open>
  \<open>AflTraceMap\<close> (\<open>afl_trace_map.cpp\<close>): which branches are worth a new test case. The map counts
  the branches of this run (\<open>virgin_map\<close>), remembers which count bits any run has seen
  (\<open>trace_map\<close>), and which pairs of branches (\<open>context_map\<close>); the last two are kept in a file
  between the runs.

  Pin is not part of the repository: the image lookup is a parameter, and so are the knob
  \<open>context_sensitive\<close> and whether the bitmap file can be written. The content of that file is a
  component of the state.
\<close>

record afl_env =
  find_image :: "addr \<Rightarrow> (addr \<times> 32 word) option"
  context_sensitive :: bool
  writable :: bool

definition kMapSize :: nat where
  "kMapSize = 65536"

record afl_trace_map =
  path :: string
  bitmap_file :: "byte list option"
  prev_loc :: addr
  trace_map :: "byte list"
  virgin_map :: "byte list"
  context_map :: "byte list"
  visited :: "addr set"

definition isPowerOfTwoOrZero :: "addr \<Rightarrow> bool" where
  "isPowerOfTwoOrZero x \<longleftrightarrow> (x AND (x - 1)) = 0"

text \<open>A digest of data fed in pieces, with seed 0.\<close>

definition hash_bytes :: "byte list list \<Rightarrow> U32" where
  "hash_bytes parts = XXH32_digest (fold XXH32_update parts (XXH32_reset 0))"

definition hashPc :: "afl_env \<Rightarrow> addr \<Rightarrow> bool \<Rightarrow> addr option" where
  "hashPc E pc taken =
     do { (low, img_id) \<leftarrow> find_image E pc;
          let pc = pc - low;
          Some (ucast (hash_bytes [le_bytes 8 (unat pc), le_bytes 4 (unat img_id), [of_bool taken]]
                  mod of_nat kMapSize)) }"

definition setDefault :: "afl_trace_map \<Rightarrow> afl_trace_map" where
  "setDefault m = m\<lparr>trace_map := replicate kMapSize 0, context_map := replicate kMapSize 0\<rparr>"

text \<open>\<open>import\<close>: a file that is too short for both maps is not used.\<close>

definition afl_import :: "afl_trace_map \<Rightarrow> afl_trace_map" where
  "afl_import m =
     (case bitmap_file m of
        None \<Rightarrow> setDefault m
      | Some bytes \<Rightarrow>
          if length bytes < 2 * kMapSize then setDefault m
          else m\<lparr>trace_map := take kMapSize bytes, context_map := take kMapSize (drop kMapSize bytes)\<rparr>)"

text \<open>The constructor, on a file system where the file of that name holds \<open>bytes\<close>.\<close>

definition AflTraceMap :: "string \<Rightarrow> byte list option \<Rightarrow> afl_trace_map" where
  "AflTraceMap p bytes =
     (let m = \<lparr>path = p, bitmap_file = bytes, prev_loc = 0, trace_map = [],
               virgin_map = replicate kMapSize 0, context_map = [], visited = {}\<rparr>
      in if p = [] then setDefault m else afl_import m)"

definition getIndex :: "afl_trace_map \<Rightarrow> addr \<Rightarrow> nat" where
  "getIndex m h = unat ((drop_bit 1 (prev_loc m) XOR h) mod of_nat kMapSize)"

text \<open>The index of the byte and the msk of the bit that stand for two branches in a row.\<close>

definition context_bit :: "addr \<Rightarrow> addr \<Rightarrow> nat \<times> byte" where
  "context_bit prev_h h =
     (let hash = unat (hash_bytes [le_bytes 8 (unat prev_h), le_bytes 8 (unat h)]) mod (kMapSize * 8)
      in (hash div 8, push_bit (hash mod 8) 1))"

fun context_loop :: "addr \<Rightarrow> addr list \<Rightarrow> byte list \<Rightarrow> bool \<Rightarrow> byte list \<times> bool" where
  "context_loop h [] ctx interesting = (ctx, interesting)"
| "context_loop h (prev_h # it) ctx interesting =
     (let (idx, msk) = context_bit prev_h h
      in if ctx ! idx AND msk = 0 then context_loop h it (ctx[idx := ctx ! idx OR msk]) True
         else context_loop h it ctx interesting)"

definition isInterestingContext :: "afl_env \<Rightarrow> addr \<Rightarrow> addr \<Rightarrow> afl_trace_map \<Rightarrow> bool \<times> afl_trace_map" where
  "isInterestingContext E h bits m =
     (if \<not> context_sensitive E then (False, m)
      else if \<not> isPowerOfTwoOrZero bits then (False, m)
      else
        let (ctx, interesting) = context_loop h (sorted_list_of_set (visited m)) (context_map m) False;
            m = m\<lparr>context_map := ctx\<rparr>;
            m = (if bits = 0 then m\<lparr>visited := visited m \<union> {h}\<rparr> else m)
        in (interesting, m))"

definition commit :: "afl_env \<Rightarrow> afl_trace_map \<Rightarrow> afl_trace_map option" where
  "commit E m =
     (if path m \<noteq> [] then assert (writable E) (Some (m\<lparr>bitmap_file := Some (trace_map m @ context_map m)\<rparr>))
      else Some m)"

text \<open>\<open>map_[i] op= ...\<close> on one element of an array.\<close>

definition at :: "nat \<Rightarrow> (byte \<Rightarrow> byte) \<Rightarrow> byte list \<Rightarrow> byte list" where
  "at i f xs = xs[i := f (xs ! i)]"

definition isInterestingBranch :: "afl_env \<Rightarrow> addr \<Rightarrow> bool \<Rightarrow> afl_trace_map \<Rightarrow> (bool \<times> afl_trace_map) option" where
  "isInterestingBranch E pc taken m =
     do { h \<leftarrow> hashPc E pc taken;
          let idx = getIndex m h;
          let (new_context, m) = isInterestingContext E h (ucast (virgin_map m ! idx)) m;
          let m = m\<lparr>virgin_map := at idx (\<lambda>x. x + 1) (virgin_map m)\<rparr>;
          (ret, m) \<leftarrow>
            (if (virgin_map m ! idx OR trace_map m ! idx) \<noteq> trace_map m ! idx then
               do { inv_h \<leftarrow> hashPc E pc (\<not> taken);
                    let inv_idx = getIndex m inv_h;
                    let m = m\<lparr>trace_map := at idx (\<lambda>x. x OR virgin_map m ! idx) (trace_map m)\<rparr>;
                    let m = m\<lparr>virgin_map := at inv_idx (\<lambda>x. x + 1) (virgin_map m)\<rparr>;
                    let m = m\<lparr>trace_map := at inv_idx (\<lambda>x. x OR virgin_map m ! inv_idx) (trace_map m)\<rparr>;
                    m \<leftarrow> commit E m;
                    let m = m\<lparr>virgin_map := at inv_idx (\<lambda>x. x - 1) (virgin_map m)\<rparr>;
                    Some (True, m) }
             else if new_context then do { m \<leftarrow> commit E m; Some (True, m) }
             else Some (False, m));
          Some (ret, m\<lparr>prev_loc := h\<rparr>) }"

subsection \<open>The maps keep their size\<close>

definition afl_ok :: "afl_trace_map \<Rightarrow> bool" where
  "afl_ok m \<longleftrightarrow> length (trace_map m) = kMapSize \<and> length (virgin_map m) = kMapSize \<and>
     length (context_map m) = kMapSize"

lemma AflTraceMap_ok: "afl_ok (AflTraceMap p bytes)"
  by (auto simp: afl_ok_def AflTraceMap_def setDefault_def afl_import_def Let_def split: option.splits)

lemma getIndex_less [simp]: "getIndex m h < kMapSize"
proof -
  have "unat (x mod (of_nat kMapSize :: addr)) = unat x mod kMapSize" for x :: addr
    by (simp add: unat_mod_distrib kMapSize_def)
  then show ?thesis
    by (simp add: getIndex_def) (simp add: kMapSize_def)
qed

lemma length_at [simp]: "length (at i f xs) = length xs"
  by (simp add: at_def)

lemma nth_at: "i < length xs \<Longrightarrow> at i f xs ! j = (if j = i then f (xs ! i) else xs ! j)"
  by (simp add: at_def)

text \<open>A map of bits only grows.\<close>

definition grows :: "byte list \<Rightarrow> byte list \<Rightarrow> bool" where
  "grows xs ys \<longleftrightarrow> length ys = length xs \<and> (\<forall>i < length xs. xs ! i OR ys ! i = ys ! i)"

lemma grows_refl [simp]: "grows xs xs"
  by (simp add: grows_def)

lemma or_trans:
  fixes a b c :: byte
  assumes "a OR b = b" "b OR c = c" shows "a OR c = c"
proof -
  have "a OR (b OR c) = b OR c"
    unfolding or.assoc [symmetric] assms(1) ..
  then show ?thesis
    unfolding assms(2) .
qed

lemma grows_trans: "grows xs ys \<Longrightarrow> grows ys zs \<Longrightarrow> grows xs zs"
  by (auto simp: grows_def intro: or_trans)

lemma grows_length: "grows xs ys \<Longrightarrow> length ys = length xs"
  by (simp add: grows_def)

lemma grows_or: "grows xs (at i (\<lambda>x. x OR b) xs)"
  by (cases "i < length xs") (auto simp: grows_def at_def nth_list_update simp flip: or.assoc)

text \<open>The loop over the visited branches sets bits; it is interested just when it set one.\<close>

lemma context_loop_grows: "grows ctx (fst (context_loop h it ctx b))"
proof (induction it arbitrary: ctx b)
  case (Cons prev_h it)
  obtain idx msk where c: "context_bit prev_h h = (idx, msk)"
    by (rule prod.exhaust)
  have "grows ctx (ctx[idx := ctx ! idx OR msk])"
    using grows_or [of ctx idx] by (simp add: at_def)
  then show ?case
    using Cons.IH grows_trans by (simp add: c)
qed simp

lemma context_loop_True: "snd (context_loop h it ctx True)"
  by (induction it arbitrary: ctx) (simp_all add: Let_def split: prod.split)

lemma context_loop_False:
  "\<not> snd (context_loop h it ctx b) \<Longrightarrow> fst (context_loop h it ctx b) = ctx"
  by (induction it arbitrary: b) (auto simp: context_loop_True split: if_splits prod.splits)

text \<open>
  The loop exactly: after it every visited branch has its bit, and it is interested just when one of
  them did not have it before.
\<close>

lemma context_bit_shape:
  "\<exists>j k. context_bit p h = (j, push_bit k 1) \<and> j < kMapSize \<and> k < 8"
proof -
  define n where "n = unat (hash_bytes [le_bytes 8 (unat p), le_bytes 8 (unat h)]) mod (kMapSize * 8)"
  have "n div 8 < kMapSize"
    by (simp add: n_def kMapSize_def less_mult_imp_div_less)
  moreover have "context_bit p h = (n div 8, push_bit (n mod 8) 1)"
    by (simp add: context_bit_def Let_def n_def)
  ultimately show ?thesis
    by (metis mod_less_divisor zero_less_numeral)
qed

lemma bit_one_bit: "bit (push_bit k 1 :: byte) n \<longleftrightarrow> n = k \<and> k < 8"
  by (auto simp: bit_simps)

lemma one_bit_and: "x AND push_bit k 1 = 0 \<longleftrightarrow> \<not> (k < 8 \<and> bit x k)" for x :: byte
  using and_exp_eq_0_iff_not_bit [of x k] bit_imp_le_length [of x k] by auto

lemma one_bit_eq: "k < 8 \<Longrightarrow> push_bit k 1 = (push_bit m 1 :: byte) \<longleftrightarrow> k = m"
  using bit_one_bit [of k k] bit_one_bit [of m k] by auto

lemma one_bit_or: "bit x k \<Longrightarrow> x OR push_bit k 1 = x" for x :: byte
  by (rule bit_word_eqI) (auto simp only: bit_or_iff bit_one_bit)

text \<open>Whether the pair of branches has its bit.\<close>

definition pair_known :: "byte list \<Rightarrow> addr \<Rightarrow> addr \<Rightarrow> bool" where
  "pair_known ctx prev_h h = (case context_bit prev_h h of (idx, msk) \<Rightarrow> ctx ! idx AND msk \<noteq> 0)"

lemma pair_known_bit: "context_bit p h = (j, push_bit k 1) \<Longrightarrow> k < 8 \<Longrightarrow> pair_known ctx p h \<longleftrightarrow> bit (ctx ! j) k"
  unfolding pair_known_def by (simp only: prod.case one_bit_and) simp

lemma context_loop_step:
  assumes "context_bit p h = (j, push_bit k 1)" "j < length ctx" "k < 8"
  shows "context_loop h (p # ps) ctx b =
    context_loop h ps (ctx[j := ctx ! j OR push_bit k 1]) (b \<or> \<not> pair_known ctx p h)"
proof (cases "pair_known ctx p h")
  case True
  then have "bit (ctx ! j) k"
    using pair_known_bit assms by blast
  then have "ctx ! j OR push_bit k 1 = ctx ! j"
    by (rule one_bit_or)
  with True show ?thesis
    using assms by (simp add: pair_known_def)
qed (use assms in \<open>simp add: pair_known_def\<close>)

lemma pair_known_update:
  assumes "i < length ctx" "context_bit p h = (i, push_bit m 1)" "m < 8"
  shows "pair_known (ctx[i := ctx ! i OR push_bit m 1]) q h \<longleftrightarrow> pair_known ctx q h \<or> context_bit q h = context_bit p h"
proof -
  obtain i' m' where q: "context_bit q h = (i', push_bit m' 1)" "m' < 8"
    using context_bit_shape by blast
  with assms one_bit_eq [OF q(2), of m] show ?thesis
    unfolding pair_known_bit [OF q] by (auto simp only: nth_list_update bit_or_iff bit_one_bit prod.inject split: if_splits)
qed

lemma pair_known_cong: "context_bit q h = context_bit p h \<Longrightarrow> pair_known ctx q h = pair_known ctx p h"
  by (simp add: pair_known_def)

lemma context_loop_exact:
  "length ctx = kMapSize \<Longrightarrow>
   (snd (context_loop h ps ctx b) \<longleftrightarrow> b \<or> (\<exists>p \<in> set ps. \<not> pair_known ctx p h)) \<and>
   (\<forall>j < kMapSize. \<forall>k. bit (fst (context_loop h ps ctx b) ! j) k \<longleftrightarrow>
      bit (ctx ! j) k \<or> (\<exists>p \<in> set ps. context_bit p h = (j, push_bit k 1)))"
proof (induction ps arbitrary: ctx b)
  case (Cons p ps)
  obtain i m where c: "context_bit p h = (i, push_bit m 1)" "i < kMapSize" "m < 8"
    using context_bit_shape by blast
  let ?ctx = "ctx[i := ctx ! i OR push_bit m 1]"
  have len: "length ?ctx = kMapSize" and i: "i < length ctx"
    using Cons.prems c(2) by simp_all
  note step = context_loop_step [OF c(1) i c(3)] and IH = Cons.IH [OF len]
  have place: "context_bit p h = (j, push_bit k 1) \<longleftrightarrow> j = i \<and> k = m" for j k
    using one_bit_eq [OF c(3), of k] by (auto simp only: c(1) prod.inject)
  have "snd (context_loop h (p # ps) ctx b) \<longleftrightarrow> b \<or> (\<exists>p \<in> set (p # ps). \<not> pair_known ctx p h)"
    unfolding step IH [THEN conjunct1] pair_known_update [OF i c(1,3)]
    using pair_known_cong [of _ h p ctx] by (metis list.set_intros set_ConsD)
  moreover have "bit (?ctx ! j) k \<longleftrightarrow> bit (ctx ! j) k \<or> context_bit p h = (j, push_bit k 1)" for j k
    unfolding place by (cases "j = i") (use i c(3) in \<open>auto simp: nth_list_update bit_or_iff bit_one_bit simp del: push_bit_of_1\<close>)
  then have "\<forall>j < kMapSize. \<forall>k. bit (fst (context_loop h (p # ps) ctx b) ! j) k \<longleftrightarrow>
      bit (ctx ! j) k \<or> (\<exists>p \<in> set (p # ps). context_bit p h = (j, push_bit k 1))"
    unfolding step using IH [THEN conjunct2] by (simp only: list.set bex_simps) blast
  ultimately show ?case
    by blast
qed simp

text \<open>Only counts that are zero or a power of two are looked at.\<close>

definition examined :: "afl_env \<Rightarrow> byte \<Rightarrow> bool" where
  "examined E c \<longleftrightarrow> context_sensitive E \<and> isPowerOfTwoOrZero (ucast c)"

lemma isInterestingContext_exact:
  assumes "length (context_map m) = kMapSize" "finite (visited m)"
    and "isInterestingContext E h (ucast c) m = (b, m')"
  shows "b \<longleftrightarrow> examined E c \<and> (\<exists>p \<in> visited m. \<not> pair_known (context_map m) p h)"
    and "visited m' = (if examined E c \<and> c = 0 then visited m \<union> {h} else visited m)"
    and "j < kMapSize \<Longrightarrow> bit (context_map m' ! j) k \<longleftrightarrow>
      bit (context_map m ! j) k \<or> examined E c \<and> (\<exists>p \<in> visited m. context_bit p h = (j, push_bit k 1))"
proof -
  note law = context_loop_exact [OF assms(1), of h "sorted_list_of_set (visited m)" False]
  have z: "(ucast c :: addr) = 0 \<longleftrightarrow> c = 0"
    by (auto simp: bit_eq_iff bit_simps) (use bit_imp_le_length [of c] in force)
  show "b \<longleftrightarrow> examined E c \<and> (\<exists>p \<in> visited m. \<not> pair_known (context_map m) p h)"
    using assms(2,3) law by (auto simp: isInterestingContext_def examined_def Let_def split: if_splits prod.splits)
  show "visited m' = (if examined E c \<and> c = 0 then visited m \<union> {h} else visited m)"
    using assms(3) by (auto simp: isInterestingContext_def examined_def Let_def z split: if_splits prod.splits)
  show "j < kMapSize \<Longrightarrow> bit (context_map m' ! j) k \<longleftrightarrow>
      bit (context_map m ! j) k \<or> examined E c \<and> (\<exists>p \<in> visited m. context_bit p h = (j, push_bit k 1))"
    using assms(2,3) law by (auto simp: isInterestingContext_def examined_def Let_def split: if_splits prod.splits)
qed

lemma isInterestingContext_frame:
  assumes "isInterestingContext E h bits m = (b, m')"
  shows "trace_map m' = trace_map m" "virgin_map m' = virgin_map m" "prev_loc m' = prev_loc m"
    "path m' = path m" "bitmap_file m' = bitmap_file m" "grows (context_map m) (context_map m')"
    "\<not> b \<Longrightarrow> context_map m' = context_map m"
proof -
  show "trace_map m' = trace_map m" "virgin_map m' = virgin_map m" "prev_loc m' = prev_loc m"
    "path m' = path m" "bitmap_file m' = bitmap_file m"
    using assms by (auto simp: isInterestingContext_def Let_def split: if_splits prod.splits)
  show "grows (context_map m) (context_map m')"
    using assms context_loop_grows [of "context_map m" h "sorted_list_of_set (visited m)" False]
    by (auto simp: isInterestingContext_def Let_def split: if_splits prod.splits)
  show "context_map m' = context_map m" if "\<not> b"
    using assms context_loop_False [of h "sorted_list_of_set (visited m)" "context_map m" False] that
    by (auto simp: isInterestingContext_def Let_def split: if_splits prod.splits)
qed

text \<open>What a branch does to the map, on every path through the function.\<close>

lemma commit_frame:
  assumes "commit E m = Some m'"
  shows "trace_map m' = trace_map m" "virgin_map m' = virgin_map m" "context_map m' = context_map m"
    "path m' = path m" "prev_loc m' = prev_loc m" "visited m' = visited m"
    "path m \<noteq> [] \<Longrightarrow> bitmap_file m' = Some (trace_map m @ context_map m)"
  using assms by (auto simp: commit_def split: if_splits)

lemma byte_add_sub: "x + 1 - 1 = (x :: byte)"
  by simp

text \<open>The result in terms of the maps before: new count bits at the index, or a new context.\<close>

definition new_bits :: "afl_trace_map \<Rightarrow> nat \<Rightarrow> bool" where
  "new_bits m i \<longleftrightarrow> (virgin_map m ! i + 1) OR trace_map m ! i \<noteq> trace_map m ! i"

lemma isInterestingBranch_old:
  assumes ok: "afl_ok m" and h: "hashPc E pc taken = Some h"
    and ctx: "isInterestingContext E h (ucast (virgin_map m ! getIndex m h)) m = (b, m1)"
    and old: "\<not> new_bits m (getIndex m h)" "\<not> b"
  shows "isInterestingBranch E pc taken m =
    Some (False, m1\<lparr>virgin_map := at (getIndex m h) (\<lambda>x. x + 1) (virgin_map m), prev_loc := h\<rparr>)"
  using old ok isInterestingContext_frame [OF ctx]
  by (simp add: isInterestingBranch_def h ctx new_bits_def afl_ok_def nth_at Let_def)

lemma isInterestingBranch_context:
  assumes ok: "afl_ok m" and h: "hashPc E pc taken = Some h"
    and ctx: "isInterestingContext E h (ucast (virgin_map m ! getIndex m h)) m = (b, m1)"
    and old: "\<not> new_bits m (getIndex m h)" "b"
  shows "isInterestingBranch E pc taken m =
    map_option (\<lambda>m. (True, m\<lparr>prev_loc := h\<rparr>)) (commit E (m1\<lparr>virgin_map := at (getIndex m h) (\<lambda>x. x + 1) (virgin_map m)\<rparr>))"
  using old ok isInterestingContext_frame [OF ctx]
  by (simp add: isInterestingBranch_def h ctx new_bits_def afl_ok_def nth_at Let_def map_option_case
      split: option.split)

lemma hashPc_other: "hashPc E pc taken = Some h \<Longrightarrow> \<exists>i. hashPc E pc (\<not> taken) = Some i"
  by (auto simp: hashPc_def Option.bind_eq_Some_conv Let_def)

lemma getIndex_cong: "prev_loc m' = prev_loc m \<Longrightarrow> getIndex m' h = getIndex m h"
  by (simp add: getIndex_def)

lemma at_cancel: "at i (\<lambda>x. x - 1) (at i (\<lambda>x. x + 1) xs) = xs"
  by (cases "i < length xs") (auto simp: at_def intro: nth_equalityI)

text \<open>The trace map after new count bits: those of the branch, and those of one visit of its inverse.\<close>

definition traced :: "nat \<Rightarrow> nat \<Rightarrow> afl_trace_map \<Rightarrow> byte list" where
  "traced idx ni m =
     (let v = at idx (\<lambda>x. x + 1) (virgin_map m)
      in at ni (\<lambda>x. x OR (v ! ni + 1)) (at idx (\<lambda>x. x OR v ! idx) (trace_map m)))"

lemma isInterestingBranch_new:
  assumes ok: "afl_ok m" and h: "hashPc E pc taken = Some h" and inv: "hashPc E pc (\<not> taken) = Some inv_h"
    and ctx: "isInterestingContext E h (ucast (virgin_map m ! getIndex m h)) m = (b, m1)"
    and new: "new_bits m (getIndex m h)"
  shows "isInterestingBranch E pc taken m =
    map_option (\<lambda>m2. (True, m2\<lparr>virgin_map := at (getIndex m h) (\<lambda>x. x + 1) (virgin_map m), prev_loc := h\<rparr>))
      (commit E (m1\<lparr>trace_map := traced (getIndex m h) (getIndex m inv_h) m,
         virgin_map := at (getIndex m inv_h) (\<lambda>x. x + 1) (at (getIndex m h) (\<lambda>x. x + 1) (virgin_map m))\<rparr>))"
proof -
  note f = isInterestingContext_frame [OF ctx]
  let ?idx = "getIndex m h" and ?inv = "getIndex m inv_h" and ?v = "at (getIndex m h) (\<lambda>x. x + 1) (virgin_map m)"
  let ?m2 = "m1\<lparr>virgin_map := ?v\<rparr>"
  have idx: "?idx < length (virgin_map m)" "?inv < length (virgin_map m)"
    using ok by (simp_all add: afl_ok_def)
  have g: "getIndex (m1\<lparr>virgin_map := v\<rparr>) inv_h = ?inv" for v
    using f(3) by (simp add: getIndex_def)
  have v1: "at ?idx (\<lambda>x. x + 1) (virgin_map m1) = ?v"
    using f by simp
  have n: "(?v ! ?idx OR trace_map m1 ! ?idx) \<noteq> trace_map m1 ! ?idx"
    using new f idx by (simp add: new_bits_def nth_at)
  have t: "at ?inv (\<lambda>x. x OR at ?inv (\<lambda>x. x + 1) ?v ! ?inv) (at ?idx (\<lambda>x. x OR ?v ! ?idx) (trace_map m1)) =
      traced ?idx ?inv m"
    using f idx by (simp add: traced_def nth_at Let_def)
  show ?thesis
    by (simp add: isInterestingBranch_def h ctx Let_def v1 n g inv t)
      (auto simp: commit_def assert_def at_cancel)
qed

lemma traced_grows: "grows (trace_map m) (traced i j m)"
  unfolding traced_def Let_def by (rule grows_trans [OF grows_or grows_or])

lemma traced_covers:
  assumes "afl_ok m" "i < kMapSize"
  shows "(virgin_map m ! i + 1) OR traced i j m ! i = traced i j m ! i"
proof -
  let ?w = "virgin_map m ! i + 1" and ?t = "at i (\<lambda>x. x OR (virgin_map m ! i + 1)) (trace_map m)"
  have "?w OR ?t ! i = ?t ! i"
    using assms by (simp add: afl_ok_def nth_at or.commute or.left_commute)
  moreover have "grows ?t (traced i j m)"
    using assms by (simp add: traced_def Let_def nth_at afl_ok_def grows_or)
  then have "?t ! i OR traced i j m ! i = traced i j m ! i"
    using assms by (simp add: grows_def afl_ok_def)
  ultimately show ?thesis
    by (rule or_trans)
qed

text \<open>The contract of \<open>isInterestingBranch\<close>.\<close>

lemma isInterestingBranch_spec:
  assumes ok: "afl_ok m" and r: "isInterestingBranch E pc taken m = Some (r, m')"
  obtains h b m1 where "hashPc E pc taken = Some h"
    and "isInterestingContext E h (ucast (virgin_map m ! getIndex m h)) m = (b, m1)"
    and "r \<longleftrightarrow> new_bits m (getIndex m h) \<or> b"
    and "afl_ok m'" "prev_loc m' = h" "path m' = path m"
    and "virgin_map m' = at (getIndex m h) (\<lambda>x. x + 1) (virgin_map m)"
    and "context_map m' = context_map m1" and "visited m' = visited m1"
    and "trace_map m' = (if new_bits m (getIndex m h)
      then traced (getIndex m h) (getIndex m (the (hashPc E pc (\<not> taken)))) m else trace_map m)"
    and "bitmap_file m' = (if r \<and> path m \<noteq> [] then Some (trace_map m' @ context_map m') else bitmap_file m)"
proof -
  obtain h where h: "hashPc E pc taken = Some h"
    using r by (auto simp: isInterestingBranch_def Option.bind_eq_Some_conv)
  obtain inv_h where inv: "hashPc E pc (\<not> taken) = Some inv_h"
    using hashPc_other [OF h] by blast
  obtain b m1 where ctx: "isInterestingContext E h (ucast (virgin_map m ! getIndex m h)) m = (b, m1)"
    by (rule prod.exhaust)
  note f = isInterestingContext_frame [OF ctx]
  note len = grows_length [OF f(6)] grows_length [OF traced_grows]
  consider "new_bits m (getIndex m h)" | "\<not> new_bits m (getIndex m h)" "b" | "\<not> new_bits m (getIndex m h)" "\<not> b"
    by blast
  then show thesis
  proof cases
    case 1
    show thesis
      by (rule that [OF h ctx])
        (use r 1 ok f len in \<open>auto simp: isInterestingBranch_new [OF ok h inv ctx 1] inv afl_ok_def commit_def split: if_splits\<close>)
  next
    case 2
    show thesis
      by (rule that [OF h ctx])
        (use r 2 ok f len in \<open>auto simp: isInterestingBranch_context [OF ok h ctx 2] afl_ok_def commit_def split: if_splits\<close>)
  next
    case 3
    show thesis
      by (rule that [OF h ctx])
        (use r 3 ok f len in \<open>auto simp: isInterestingBranch_old [OF ok h ctx 3] afl_ok_def\<close>)
  qed
qed

text \<open>The function returns whenever the image is known and the file can be written.\<close>

lemma isInterestingBranch_total:
  assumes ok: "afl_ok m" and img: "find_image E pc \<noteq> None" and w: "path m = [] \<or> writable E"
  shows "isInterestingBranch E pc taken m \<noteq> None"
proof -
  obtain h where h: "hashPc E pc taken = Some h"
    using img by (auto simp: hashPc_def)
  obtain i where i: "hashPc E pc (\<not> taken) = Some i"
    using hashPc_other [OF h] by blast
  obtain b m1 where ctx: "isInterestingContext E h (ucast (virgin_map m ! getIndex m h)) m = (b, m1)"
    by (rule prod.exhaust)
  have "path m1 = path m"
    by (rule isInterestingContext_frame [OF ctx])
  then show ?thesis
    using w isInterestingBranch_new [OF ok h i ctx] isInterestingBranch_context [OF ok h ctx]
      isInterestingBranch_old [OF ok h ctx]
    by (cases "new_bits m (getIndex m h)"; cases b) (auto simp: commit_def assert_def)
qed

text \<open>What a run has learnt is there in the next run: \<open>commit\<close> and the constructor are inverse.\<close>

lemma commit_import:
  assumes "afl_ok m" "commit E m = Some m'" "path m \<noteq> []"
  shows "trace_map (AflTraceMap (path m') (bitmap_file m')) = trace_map m"
    and "context_map (AflTraceMap (path m') (bitmap_file m')) = context_map m"
proof -
  note f = commit_frame [OF assms(2)]
  have "bitmap_file m' = Some (trace_map m @ context_map m)" "path m' = path m"
    using f assms(3) by blast+
  then show "trace_map (AflTraceMap (path m') (bitmap_file m')) = trace_map m"
    and "context_map (AflTraceMap (path m') (bitmap_file m')) = context_map m"
    using assms(1,3) by (simp_all add: AflTraceMap_def afl_import_def afl_ok_def)
qed

end
