(* ===== verification/Solver.thy ===== *)
theory Solver
  imports BuilderStacks RangeSet Dependency AflTraceMap
begin

declare One_nat_def [simp del]

section \<open>The solver\<close>

text \<open>
  \<open>Solver\<close> (\<open>solver.cpp\<close>): it records the constraints of the path that the run has taken, and at
  an interesting branch asks Z3 for an input that follows the path up to the branch and then
  goes the other way.

  Z3 is not part of the repository. A term that goes to it is one of the five forms below, with
  the meaning of its expression as \<open>toZ3Expr\<close> gives it (\<open>den\<close>); \<open>z3_check\<close> is the answer to the
  assertions at the k-th call of \<open>check\<close> (an exception or a timeout is \<open>unknown\<close>), and \<open>z3_eval\<close>
  the value of a term in a model. A model lists the input bytes that it fixes.
\<close>

datatype zconstraint =
    Holds expr
  | Value_eq expr int
  | Value_ne expr int
  | Value_ult expr int
  | Value_ugt expr int

datatype check_result = sat "(nat \<times> int) list" | unsat | unknown

record solver_env =
  g_expr_builder :: builder
  solver_apint :: apint_api
  z3_check :: "nat \<Rightarrow> zconstraint list \<Rightarrow> check_result"
  z3_eval :: "(nat \<times> int) list \<Rightarrow> expr \<Rightarrow> int"
  afl :: afl_env
  inputs :: "byte list"
  out_dir :: string
  can_open :: "string \<Rightarrow> bool"

text \<open>
  The state: that of the builders, the range sets of the expression objects, the dependency
  forest, the frames of assertions of the Z3 solver (the innermost first), the number of checks,
  the branch map, and the test cases with their file names (or none, when they are printed). The
  counter \<open>num_generated\<close>, an \<open>INT32\<close> in the code, is a number here: fewer than \<open>2 ^ 31\<close> test cases.
\<close>

record solver =
  bs :: bst
  rsets :: "expr \<Rightarrow> range_sets"
  dep_forest :: "expr dependency_forest"
  frames :: "zconstraint list list"
  checks :: nat
  trace :: afl_trace_map
  last_interested :: bool
  last_jcc :: addr
  num_generated :: nat
  testcases :: "(string option \<times> byte list) list"

type_synonym 'a run = "solver \<Rightarrow> ('a \<times> solver) option"

text \<open>\<open>toString6digit\<close>: \<open>snprintf\<close> with \<open>%06d\<close> into a buffer of seven bytes.\<close>

fun decimal :: "nat \<Rightarrow> string" where
  "decimal n = (if n < 10 then [char_of (48 + n)] else decimal (n div 10) @ [char_of (48 + n mod 10)])"

declare decimal.simps [simp del]

definition toString6digit :: "nat \<Rightarrow> string" where
  "toString6digit val =
     (let d = decimal val in take 6 (replicate (6 - length d) (CHR ''0'') @ d))"

fun parseConstSym :: "expr \<Rightarrow> (kind \<times> expr \<times> expr) option" where
  "parseConstSym e =
     (case children e of
        [c0, c1] \<Rightarrow>
          if \<not> isConstant c0 \<and> isConstant c1 then Some (kind_of e, c0, c1)
          else if \<not> isConstant c1 \<and> isConstant c0 then
            do { k \<leftarrow> swapKind (kind_of e); Some (k, c1, c0) }
          else None
      | _ \<Rightarrow> None)"

text \<open>A builder's method as a step of the solver.\<close>

definition build :: "'a build \<Rightarrow> 'a run" where
  "build f s = (case f (bs s) of None \<Rightarrow> None | Some (x, b) \<Rightarrow> Some (x, s\<lparr>bs := b\<rparr>))"

text \<open>
  \<open>getCanonicalExpr\<close>: the symbolic part of \<open>C + x\<close> or \<open>C - x\<close> and the constant, with its width. The
  \<open>case Sub\<close> label stands inside the \<open>if\<close> of \<open>case Add\<close>, where only the jump reaches it.
\<close>

definition getCanonicalExpr :: "solver_env \<Rightarrow> expr \<Rightarrow> (expr \<times> nat \<times> int) run" where
  "getCanonicalExpr E e s =
     (let other = Some ((e, bits e, 0), s) in
      case as_Binary Add e of
        Some (first, second) \<Rightarrow>
          (case as_Constant first of
             Some v \<Rightarrow> Some ((second, bits first, v), s)
           | None \<Rightarrow> other)
      | None \<Rightarrow>
          (case as_Binary Sub e of
             Some (first, second) \<Rightarrow>
               (case as_Constant first of
                  Some v \<Rightarrow>
                    do { (m, s) \<leftarrow> build (createUnaryExpr (g_expr_builder E) Neg second) s;
                         Some ((m, bits first, v), s) }
                | None \<Rightarrow> other)
           | None \<Rightarrow> other))"

definition isEqual :: "expr \<Rightarrow> bool \<Rightarrow> bool" where
  "isEqual e taken \<longleftrightarrow> kind_of e = Equal \<and> taken \<or> kind_of e = Distinct \<and> \<not> taken"

subsection \<open>The Z3 solver object\<close>

definition push :: "solver \<Rightarrow> solver" where
  "push s = s\<lparr>frames := [] # frames s\<rparr>"

definition pop :: "solver \<Rightarrow> solver" where
  "pop s = s\<lparr>frames := tl (frames s)\<rparr>"

definition reset :: "solver \<Rightarrow> solver" where
  "reset s = s\<lparr>frames := [[]]\<rparr>"

text \<open>\<open>solver_.add\<close>.\<close>

definition z3_add :: "zconstraint \<Rightarrow> solver \<Rightarrow> solver" where
  "z3_add c s = s\<lparr>frames := (case frames s of [] \<Rightarrow> [[c]] | f # fs \<Rightarrow> (f @ [c]) # fs)\<rparr>"

text \<open>\<open>Solver::add\<close> skips the terms \<open>true\<close> and \<open>false\<close>, which are constants to Z3.\<close>

definition add :: "zconstraint \<Rightarrow> solver \<Rightarrow> solver" where
  "add c s = (case c of Holds (BoolExpr _ _) \<Rightarrow> s | _ \<Rightarrow> z3_add c s)"

definition asserted :: "solver \<Rightarrow> zconstraint list" where
  "asserted s = concat (rev (frames s))"

definition check :: "solver_env \<Rightarrow> solver \<Rightarrow> check_result \<times> solver" where
  "check E s = (z3_check E (checks s) (asserted s), s\<lparr>checks := checks s + 1\<rparr>)"

text \<open>\<open>getConcreteValues\<close>: the input with the bytes of the model; an index behind the input is undefined behaviour.\<close>

fun store_values :: "(nat \<times> int) list \<Rightarrow> byte list \<Rightarrow> byte list option" where
  "store_values [] values = Some values"
| "store_values ((i, v) # m) values =
     assert (i < length values) (store_values m (values[i := word_of_int v]))"

definition getConcreteValues :: "solver_env \<Rightarrow> (nat \<times> int) list \<Rightarrow> byte list option" where
  "getConcreteValues E m = store_values m (inputs E)"

definition saveValues :: "solver_env \<Rightarrow> (nat \<times> int) list \<Rightarrow> string \<Rightarrow> solver \<Rightarrow> solver option" where
  "saveValues E m postfix s =
     do { values \<leftarrow> getConcreteValues E m;
          if out_dir E = [] then Some (s\<lparr>testcases := testcases s @ [(None, values)]\<rparr>)
          else
            let fname = out_dir E @ ''/'' @ toString6digit (num_generated s);
                fname = (if postfix \<noteq> [] then fname @ ''-'' @ postfix else fname)
            in assert (can_open E fname)
                 (Some (s\<lparr>testcases := testcases s @ [(Some fname, values)],
                         num_generated := num_generated s + 1\<rparr>)) }"

text \<open>\<open>checkAndSave\<close>; the model is what \<open>get_model\<close> gives afterwards.\<close>

definition checkAndSave :: "solver_env \<Rightarrow> string \<Rightarrow> (nat \<times> int) list option run" where
  "checkAndSave E postfix s =
     (case check E s of
        (sat m, s) \<Rightarrow> do { s \<leftarrow> saveValues E m postfix s; Some (Some m, s) }
      | (_, s) \<Rightarrow> Some (None, s))"

definition addToSolver :: "solver_env \<Rightarrow> expr \<Rightarrow> bool \<Rightarrow> solver \<Rightarrow> solver option" where
  "addToSolver E e taken s =
     (if taken then Some (add (Holds e) s)
      else do { (e, s) \<leftarrow> build (createUnaryExpr (g_expr_builder E) LNot e) s;
                Some (add (Holds e) s) })"

subsection \<open>Range constraints\<close>

text \<open>The loop of \<open>getRangeConstraint\<close> over the ranges of a set, with the expression so far.\<close>

definition range_bound :: "solver_env \<Rightarrow> bool \<Rightarrow> expr \<Rightarrow> bit_vector_factory \<Rightarrow> range \<Rightarrow> expr run" where
  "range_bound E u e V i s =
     (let B = g_expr_builder E in
      if fst i = snd i then
        do { (imm, s) \<leftarrow> build (createConstantAP B (aps_bits V (fst i)) (bits e)) s;
             build (createBinaryExpr B Equal e imm) s }
      else
        do { (lb_imm, s) \<leftarrow> build (createConstantAP B (aps_bits V (fst i)) (bits e)) s;
             (ub_imm, s) \<leftarrow> build (createConstantAP B (aps_bits V (snd i)) (bits e)) s;
             (lb, s) \<leftarrow> build (createBinaryExpr B (if u then Uge else Sge) e lb_imm) s;
             (ub, s) \<leftarrow> build (createBinaryExpr B (if u then Ule else Sle) e ub_imm) s;
             build (createBinaryExpr B LAnd lb ub) s })"

fun range_loop :: "solver_env \<Rightarrow> bool \<Rightarrow> expr \<Rightarrow> bit_vector_factory \<Rightarrow> range list \<Rightarrow> expr option \<Rightarrow> expr option run" where
  "range_loop E u e V [] acc s = Some (acc, s)"
| "range_loop E u e V (i # is) acc s =
     do { (bound, s) \<leftarrow> range_bound E u e V i s;
          (new, s) \<leftarrow> (case acc of None \<Rightarrow> Some (bound, s)
            | Some x \<Rightarrow> build (createBinaryExpr (g_expr_builder E) LOr x bound) s);
          range_loop E u e V is (Some new) s }"

definition getRangeConstraint :: "solver_env \<Rightarrow> expr \<Rightarrow> bool \<Rightarrow> expr option run" where
  "getRangeConstraint E e u s =
     (case getRangeSet u (rsets s e) of
        None \<Rightarrow> Some (None, s)
      | Some rs \<Rightarrow> range_loop E u e (BV_ranges rs) (ranges rs) None s)"

subsection \<open>The slice of an expression\<close>

text \<open>
  \<open>syncConstraints\<close>: the trees of the bytes of the expression, and the assertions of their nodes:
  the node itself when it is relational, else its range constraints, signed and unsigned.
\<close>

fun find_trees :: "nat list \<Rightarrow> solver \<Rightarrow> nat list \<times> solver" where
  "find_trees [] s = ([], s)"
| "find_trees (i # is) s =
     (let (t, F) = forest_find i (dep_forest s);
          (ts, s) = find_trees is (s\<lparr>dep_forest := F\<rparr>)
      in (t # ts, s))"

definition sync_range :: "solver_env \<Rightarrow> expr \<Rightarrow> bool \<Rightarrow> solver \<Rightarrow> solver option" where
  "sync_range E node u s =
     do { (expr_range, s) \<leftarrow> getRangeConstraint E node u s;
          case expr_range of None \<Rightarrow> Some s | Some r \<Rightarrow> addToSolver E r True s }"

definition sync_node :: "solver_env \<Rightarrow> expr \<Rightarrow> solver \<Rightarrow> solver option" where
  "sync_node E node s =
     (if isRelational node then addToSolver E node True s
      else do { s \<leftarrow> sync_range E node False s; sync_range E node True s })"

fun sync_nodes :: "solver_env \<Rightarrow> expr list \<Rightarrow> solver \<Rightarrow> solver option" where
  "sync_nodes E [] s = Some s"
| "sync_nodes E (n # ns) s = do { s \<leftarrow> sync_node E n s; sync_nodes E ns s }"

text \<open>
  The \<open>std::set\<close> of shared pointers visits every tree once; the order of the addresses is that
  of the model's store.
\<close>

definition syncConstraints :: "solver_env \<Rightarrow> expr \<Rightarrow> solver \<Rightarrow> solver option" where
  "syncConstraints E e s =
     (let (ts, s) = find_trees (sorted_list_of_set (getDeps e)) s
      in sync_nodes E (concat (map (\<lambda>t. nodes_at (dep_forest s) t) (sort (remdups ts)))) s)"

subsection \<open>Recording constraints\<close>

text \<open>\<open>Solver::addConstraint(ExprRef)\<close>.\<close>

definition addConstraint_node :: "expr \<Rightarrow> solver \<Rightarrow> solver option" where
  "addConstraint_node e s =
     (case e of
        BoolExpr _ b \<Rightarrow> assert b (Some s)
      | _ \<Rightarrow> if isConcrete e then Some s
             else do { F \<leftarrow> forest_addNode getDeps e (dep_forest s); Some (s\<lparr>dep_forest := F\<rparr>) })"

definition addRangeConstraint :: "solver_env \<Rightarrow> expr \<Rightarrow> bool \<Rightarrow> bool run" where
  "addRangeConstraint E e taken s =
     (if \<not> isConstSym e then Some (False, s)
      else
        do { (k, expr_sym, expr_const) \<leftarrow> parseConstSym e;
             ((canonical, adjustment), s) \<leftarrow> getCanonicalExpr E expr_sym s;
             value \<leftarrow> as_Constant expr_const;
             k \<leftarrow> (if taken then Some k else negateKind k);
             R \<leftarrow> addConstraint (solver_apint E) (bits canonical) k (bits expr_const, value) adjustment
                   (rsets s canonical);
             s \<leftarrow> addConstraint_node canonical (s\<lparr>rsets := (rsets s)(canonical := R)\<rparr>);
             Some (True, s) })"

definition addNormalConstraint :: "solver_env \<Rightarrow> expr \<Rightarrow> bool \<Rightarrow> solver \<Rightarrow> solver option" where
  "addNormalConstraint E e taken s =
     (if taken then addConstraint_node e s
      else do { (e, s) \<leftarrow> build (createUnaryExpr (g_expr_builder E) LNot e) s;
                addConstraint_node e s })"

text \<open>\<open>Solver::addConstraint(ExprRef, bool, bool)\<close>, which looks through negations.\<close>

lemma as_LNot_size [termination_simp]: "as_LNot e = Some x \<Longrightarrow> size x < size e"
  by (cases e) (auto split: if_splits)

fun addConstraint_path :: "solver_env \<Rightarrow> expr \<Rightarrow> bool \<Rightarrow> solver \<Rightarrow> solver option" where
  "addConstraint_path E e taken s =
     (case as_LNot e of
        Some x \<Rightarrow> addConstraint_path E x (\<not> taken) s
      | None \<Rightarrow>
          do { (recorded, s) \<leftarrow> addRangeConstraint E e taken s;
               if recorded then Some s else addNormalConstraint E e taken s })"

subsection \<open>Branches, addresses and values\<close>

definition isInterestingJcc :: "solver_env \<Rightarrow> bool \<Rightarrow> addr \<Rightarrow> bool run" where
  "isInterestingJcc E taken pc s =
     do { (interesting, m) \<leftarrow> isInterestingBranch (afl E) pc taken (trace s);
          Some (interesting, s\<lparr>trace := m, last_interested := interesting\<rparr>) }"

text \<open>\<open>negatePath\<close>: first with the constraints of the path, then, if that fails, without them.\<close>

definition negatePath :: "solver_env \<Rightarrow> expr \<Rightarrow> bool \<Rightarrow> solver \<Rightarrow> solver option" where
  "negatePath E e taken s =
     do { let s = reset s;
          s \<leftarrow> syncConstraints E e s;
          s \<leftarrow> addToSolver E e (\<not> taken) s;
          (solved, s) \<leftarrow> checkAndSave E [] s;
          if solved \<noteq> None then Some s
          else
            do { let s = reset s;
                 s \<leftarrow> addToSolver E e (\<not> taken) s;
                 (_, s) \<leftarrow> checkAndSave E ''optimistic'' s;
                 Some s } }"

definition addJcc :: "solver_env \<Rightarrow> expr \<Rightarrow> bool \<Rightarrow> addr \<Rightarrow> solver \<Rightarrow> solver option" where
  "addJcc E e taken pc s =
     (let s = s\<lparr>last_jcc := pc\<rparr> in
      if isConcrete e then Some s
      else case as_Bool e of
        Some v \<Rightarrow> assert (v = taken) (Some s)
      | None \<Rightarrow>
          assert (isRelational e)
            (do { (is_interesting, s) \<leftarrow>
                    (if pc = 0 then Some (last_interested s, s) else isInterestingJcc E taken pc s);
                  s \<leftarrow> (if is_interesting then negatePath E e taken s else Some s);
                  addConstraint_path E e taken s }))"

definition addValue :: "solver_env \<Rightarrow> expr \<Rightarrow> int \<Rightarrow> solver \<Rightarrow> solver option" where
  "addValue E e val s =
     (if isConcrete e then Some s
      else do { (expr_val, s) \<leftarrow> build (createConstantAP (g_expr_builder E) val (bits e)) s;
                (expr_concrete, s) \<leftarrow> build (createBinaryExpr (g_expr_builder E) Equal e expr_val) s;
                addConstraint_path E expr_concrete True s })"

text \<open>
  The loops that ask for ever smaller or larger values run until Z3 has no beyond; \<open>fuel\<close> bounds the
  rounds. The result is the last value, or none when there was no model at all.
\<close>

fun value_loop :: "nat \<Rightarrow> solver_env \<Rightarrow> (expr \<Rightarrow> int \<Rightarrow> zconstraint) \<Rightarrow> expr \<Rightarrow> int option \<Rightarrow> int option run" where
  "value_loop 0 E beyond e value s = None"
| "value_loop (Suc fuel) E beyond e value s =
     do { (m, s) \<leftarrow> checkAndSave E [] s;
          case m of
            None \<Rightarrow> Some (value, s)
          | Some m \<Rightarrow>
              let v = z3_eval E m e
              in value_loop fuel E beyond e (Some v) (z3_add (beyond e v) s) }"

definition getMinValue :: "nat \<Rightarrow> solver_env \<Rightarrow> expr \<Rightarrow> int option run" where
  "getMinValue fuel E e s =
     do { (v, s) \<leftarrow> value_loop fuel E Value_ult e None (push s); Some (v, pop s) }"

definition getMaxValue :: "nat \<Rightarrow> solver_env \<Rightarrow> expr \<Rightarrow> int option run" where
  "getMaxValue fuel E e s =
     do { (v, s) \<leftarrow> value_loop fuel E Value_ugt e None (push s); Some (v, pop s) }"

definition solveOne :: "solver_env \<Rightarrow> zconstraint \<Rightarrow> solver \<Rightarrow> solver option" where
  "solveOne E c s =
     do { (_, s) \<leftarrow> checkAndSave E [] (add c (push s)); Some (pop s) }"

text \<open>\<open>addAddr\<close>; a comparison with a value that was never found would use a null term.\<close>

definition addAddr :: "nat \<Rightarrow> solver_env \<Rightarrow> expr \<Rightarrow> int \<Rightarrow> solver \<Rightarrow> solver option" where
  "addAddr fuel E e a s =
     (if isConcrete e then Some s
      else if last_interested s then
        do { s \<leftarrow> syncConstraints E e (reset s);
             let (r, s) = check E s;
             case r of
               sat m \<Rightarrow>
                 do { (min_value, s) \<leftarrow> getMinValue fuel E e s;
                      (max_value, s) \<leftarrow> getMaxValue fuel E e s;
                      v \<leftarrow> min_value;
                      s \<leftarrow> solveOne E (Value_eq e v) s;
                      w \<leftarrow> max_value;
                      s \<leftarrow> solveOne E (Value_eq e w) s;
                      addValue E e a s }
             | _ \<Rightarrow> Some s }
      else addValue E e a s)"

fun solve_loop :: "nat \<Rightarrow> solver_env \<Rightarrow> string \<Rightarrow> expr \<Rightarrow> solver \<Rightarrow> solver option" where
  "solve_loop 0 E postfix e s = None"
| "solve_loop (Suc fuel) E postfix e s =
     do { (m, s) \<leftarrow> checkAndSave E postfix s;
          case m of
            None \<Rightarrow> Some s
          | Some m \<Rightarrow> solve_loop fuel E postfix e (add (Value_ne e (z3_eval E m e)) s) }"

definition solveAll :: "nat \<Rightarrow> solver_env \<Rightarrow> expr \<Rightarrow> int \<Rightarrow> solver \<Rightarrow> solver option" where
  "solveAll fuel E e val s =
     do { s \<leftarrow>
            (if last_interested s then
               do { (expr_val, s) \<leftarrow> build (createConstantAP (g_expr_builder E) val (bits e)) s;
                    (expr_concrete, s) \<leftarrow> build (createBinaryExpr (g_expr_builder E) Equal e expr_val) s;
                    s \<leftarrow> syncConstraints E e (reset s);
                    s \<leftarrow> addToSolver E expr_concrete False s;
                    let (r, s) = check E s;
                    (postfix, s) \<leftarrow>
                      (case r of
                         sat m \<Rightarrow> Some ([], s)
                       | _ \<Rightarrow> do { s \<leftarrow> addToSolver E expr_concrete False (reset s); Some (''optimistic'', s) });
                    solve_loop fuel E postfix e s }
             else Some s);
          addValue E e val s }"

declare addConstraint_path.simps [simp del]

end
