(* ===== verification/SolverSound.thy ===== *)
theory SolverSound
  imports Solver
begin

section \<open>What the solver's constraints mean\<close>

text \<open>
  The solver keeps a path condition in three places: nodes of the dependency forest, range sets
  of expression objects, and constraints it does not need to keep. This theory shows that
  together they say just what the recorded branches say, that the slice that is sent to Z3 is
  closed, and so that a model of it gives an input that follows the whole path.
\<close>

definition builder_ok :: "bool \<Rightarrow> builder \<Rightarrow> bool" where
  "builder_ok dv B \<longleftrightarrow> (\<forall>\<rho>. sound_builder False dv \<rho> (\<lambda>_. True) B)"

lemma build_frame: "build f s = Some (x, s') \<Longrightarrow> \<exists>b. f (bs s) = Some (x, b) \<and> s' = s\<lparr>bs := b\<rparr>"
  by (auto simp: build_def split: option.splits)

lemma build_runs: "build f s = Some (x, s') \<Longrightarrow> runs False (\<lambda>_. True) (f (bs s)) P \<Longrightarrow> P x"
  using build_frame runsD by fastforce

lemma built_unary:
  assumes "builder_ok dv B" "build (createUnaryExpr B k x) s = Some (e, s')"
    "den dv \<rho> x = Some a" "sem_unary k a = Some c"
  shows "den dv \<rho> e = Some c"
  by (rule build_runs [OF assms(2)]) (use assms in \<open>auto simp: builder_ok_def intro: sound_builder.unary_law\<close>)

lemma built_binary:
  assumes "builder_ok dv B" "build (createBinaryExpr B k x y) s = Some (e, s')"
    "den dv \<rho> x = Some a" "den dv \<rho> y = Some b" "sem_binary dv k a b = Some c"
  shows "den dv \<rho> e = Some c"
  by (rule build_runs [OF assms(2)]) (use assms in \<open>auto simp: builder_ok_def intro: sound_builder.binary_law\<close>)

lemma built_constAP:
  assumes "builder_ok dv B" "build (createConstantAP B z n) s = Some (e, s')" "0 < n" "in_range n z"
  shows "den dv \<rho> e = Some (BV n z)"
  by (rule build_runs [OF assms(2)]) (use assms in \<open>auto simp: builder_ok_def intro: sound_builder.constAP_law\<close>)

text \<open>Steps that only build expressions change nothing else.\<close>

definition only_bs :: "solver \<Rightarrow> solver \<Rightarrow> bool" where
  "only_bs s s' \<longleftrightarrow> (\<exists>b. s' = s\<lparr>bs := b\<rparr>)"

lemma only_bs_refl [simp]: "only_bs s s"
  unfolding only_bs_def by (rule exI [of _ "bs s"]) simp

lemma only_bs_trans: "only_bs s s' \<Longrightarrow> only_bs s' s'' \<Longrightarrow> only_bs s s''"
  by (auto simp: only_bs_def)

lemma build_only_bs: "build f s = Some (x, s') \<Longrightarrow> only_bs s s'"
  using build_frame by (fastforce simp: only_bs_def)

lemma only_bs_same:
  "only_bs s s' \<Longrightarrow> rsets s' = rsets s \<and> dep_forest s' = dep_forest s \<and> frames s' = frames s \<and>
     testcases s' = testcases s \<and> checks s' = checks s \<and> num_generated s' = num_generated s \<and>
     trace s' = trace s \<and> last_interested s' = last_interested s"
  by (auto simp: only_bs_def)

subsection \<open>Range constraints\<close>

lemma range_bound_law:
  assumes B: "builder_ok dv (g_expr_builder E)" and V: "V = factory u (bits e)" "0 < bits e"
    and i: "in_factory V (fst i)" "in_factory V (snd i)"
    and run: "range_bound E u e V i s = Some (x, s')"
  shows "only_bs s s'"
    and "den dv \<rho> e = Some (BV (bits e) v) \<Longrightarrow>
      den dv \<rho> x = Some (BoolV (fst i \<le> aps_read V v \<and> aps_read V v \<le> snd i))"
proof -
  have Vok: "V_ok V" and n: "bit_width V = bits e"
    using V by simp_all
  have r: "in_range (bits e) (aps_bits V z)" for z
    using aps_bits_in_range [of V z] by (simp add: n)
  show "only_bs s s'"
    using run by (auto simp: range_bound_def Let_def Option.bind_eq_Some_conv split: if_splits
        dest!: build_only_bs intro: only_bs_trans) (blast intro: only_bs_trans)+
  assume e: "den dv \<rho> e = Some (BV (bits e) v)"
  then have v: "in_range (bits e) v"
    using den_BV by blast
  show "den dv \<rho> x = Some (BoolV (fst i \<le> aps_read V v \<and> aps_read V v \<le> snd i))"
  proof (cases "fst i = snd i")
    case True
    obtain imm s1 where imm: "build (createConstantAP (g_expr_builder E) (aps_bits V (fst i)) (bits e)) s = Some (imm, s1)"
      and x: "build (createBinaryExpr (g_expr_builder E) Equal e imm) s1 = Some (x, s')"
      using run True by (auto simp: range_bound_def Let_def Option.bind_eq_Some_conv)
    have "den dv \<rho> x = Some (BoolV (v = aps_bits V (fst i)))"
      by (rule built_binary [OF B x e built_constAP [OF B imm V(2) r]]) (simp add: compareKind_def)
    moreover have "v = aps_bits V (fst i) \<longleftrightarrow> aps_read V v = fst i"
      using aps_bits_read [OF Vok, of v] aps_read_bits [OF Vok i(1)] v n by metis
    ultimately show ?thesis
      using True by auto
  next
    case False
    obtain l u' lb ub s1 s2 s3 s4
      where l: "build (createConstantAP (g_expr_builder E) (aps_bits V (fst i)) (bits e)) s = Some (l, s1)"
      and u': "build (createConstantAP (g_expr_builder E) (aps_bits V (snd i)) (bits e)) s1 = Some (u', s2)"
      and lb: "build (createBinaryExpr (g_expr_builder E) (if u then Uge else Sge) e l) s2 = Some (lb, s3)"
      and ub: "build (createBinaryExpr (g_expr_builder E) (if u then Ule else Sle) e u') s3 = Some (ub, s4)"
      and x: "build (createBinaryExpr (g_expr_builder E) LAnd lb ub) s4 = Some (x, s')"
      using run False by (auto simp: range_bound_def Let_def Option.bind_eq_Some_conv)
    have read: "aps_read V (aps_bits V (fst i)) = fst i" "aps_read V (aps_bits V (snd i)) = snd i"
      using aps_read_bits [OF Vok] i by auto
    have "den dv \<rho> lb = Some (BoolV (fst i \<le> aps_read V v))"
      by (rule built_binary [OF B lb e built_constAP [OF B l V(2) r]])
        (use read V in \<open>auto simp: compareKind_def aps_read_def\<close>)
    moreover have "den dv \<rho> ub = Some (BoolV (aps_read V v \<le> snd i))"
      by (rule built_binary [OF B ub e built_constAP [OF B u' V(2) r]])
        (use read V in \<open>auto simp: compareKind_def aps_read_def\<close>)
    ultimately show ?thesis
      by (rule built_binary [OF B x]) simp
  qed
qed

lemma range_loop_law:
  assumes B: "builder_ok dv (g_expr_builder E)" and V: "V = factory u (bits e)" "0 < bits e"
    and "\<forall>r \<in> set is. in_factory V (fst r) \<and> in_factory V (snd r)"
    and "range_loop E u e V is acc s = Some (res, s')"
    and "\<And>\<rho> v x. acc = Some x \<Longrightarrow> den dv \<rho> e = Some (BV (bits e) v) \<Longrightarrow> den dv \<rho> x = Some (BoolV (p (aps_read V v)))"
    and "acc = None \<Longrightarrow> \<forall>v. \<not> p v"
  shows "only_bs s s' \<and> (res = None \<longleftrightarrow> acc = None \<and> is = []) \<and>
    (\<forall>\<rho> v x. res = Some x \<longrightarrow> den dv \<rho> e = Some (BV (bits e) v) \<longrightarrow>
       den dv \<rho> x = Some (BoolV (p (aps_read V v) \<or> aps_read V v \<in> members is)))"
  using assms(4-7)
proof (induction "is" arbitrary: acc s p)
  case (Cons i "is")
  obtain b s1 new s2 where b: "range_bound E u e V i s = Some (b, s1)"
    and new: "(case acc of None \<Rightarrow> Some (b, s1)
      | Some x \<Rightarrow> build (createBinaryExpr (g_expr_builder E) LOr x b) s1) = Some (new, s2)"
    and rest: "range_loop E u e V is (Some new) s2 = Some (res, s')"
    using Cons.prems(2) by (auto simp: Option.bind_eq_Some_conv)
  have i: "in_factory V (fst i)" "in_factory V (snd i)"
    using Cons.prems(1) by auto
  note bound = range_bound_law [OF B V i b]
  let ?p = "\<lambda>v. p v \<or> fst i \<le> v \<and> v \<le> snd i"
  have "only_bs s1 s2"
    using new by (cases acc) (auto dest: build_only_bs)
  moreover have den: "den dv \<rho> x = Some (BoolV (?p (aps_read V v)))"
    if "Some new = Some x" "den dv \<rho> e = Some (BV (bits e) v)" for \<rho> v x
  proof (cases acc)
    case None
    then show ?thesis
      using new that bound(2) [OF that(2)] Cons.prems(4) by auto
  next
    case (Some y)
    then have "build (createBinaryExpr (g_expr_builder E) LOr y b) s1 = Some (new, s2)"
      using new by simp
    from built_binary [OF B this Cons.prems(3) [OF Some that(2)] bound(2) [OF that(2)]] that(1)
    show ?thesis
      by simp
  qed
  moreover have tail: "\<forall>r \<in> set is. in_factory V (fst r) \<and> in_factory V (snd r)"
    using Cons.prems(1) by simp
  note IH = Cons.IH [where acc = "Some new" and p = ?p, OF tail rest den]
  ultimately show ?case
    using bound(1) IH only_bs_trans [of s s1 s2] only_bs_trans [of s s2 s'] by auto
qed auto

lemma getRangeConstraint_law:
  assumes B: "builder_ok dv (g_expr_builder E)" and ok: "range_sets_ok (bits e) (rsets s e)" and n: "0 < bits e"
    and run: "getRangeConstraint E e u s = Some (res, s')"
  shows "only_bs s s'"
    and "res = None \<longleftrightarrow> (\<forall>S. getRangeSet u (rsets s e) = Some S \<longrightarrow> ranges S = [])"
    and "res = Some x \<Longrightarrow> den dv \<rho> e = Some (BV (bits e) v) \<Longrightarrow> getRangeSet u (rsets s e) = Some S \<Longrightarrow>
      den dv \<rho> x = Some (BoolV (aps_read (factory u (bits e)) v \<in> members (ranges S)))"
proof -
  consider "getRangeSet u (rsets s e) = None" "res = None" "s' = s"
    | S where "getRangeSet u (rsets s e) = Some S" "range_loop E u e (BV_ranges S) (ranges S) None s = Some (res, s')"
    using run by (auto simp: getRangeConstraint_def split: option.splits)
  then have "only_bs s s' \<and> (res = None \<longleftrightarrow> (\<forall>S. getRangeSet u (rsets s e) = Some S \<longrightarrow> ranges S = [])) \<and>
    (\<forall>S x \<rho> v. res = Some x \<longrightarrow> den dv \<rho> e = Some (BV (bits e) v) \<longrightarrow> getRangeSet u (rsets s e) = Some S \<longrightarrow>
      den dv \<rho> x = Some (BoolV (aps_read (factory u (bits e)) v \<in> members (ranges S))))"
  proof cases
    case 2
    have V: "BV_ranges S = factory u (bits e)" and r: "ranges_ok (factory u (bits e)) (ranges S)"
      using ok 2(1) by (auto simp: range_sets_ok_def)
    have "\<forall>r \<in> set (ranges S). in_factory (BV_ranges S) (fst r) \<and> in_factory (BV_ranges S) (snd r)"
      using r by (auto simp: ranges_ok_def in_factory_def V)
    from range_loop_law [where p = "\<lambda>_. False", OF B V n this 2(2)] show ?thesis
      by (simp add: 2(1) V)
  qed simp
  then show "only_bs s s'"
    and "res = None \<longleftrightarrow> (\<forall>S. getRangeSet u (rsets s e) = Some S \<longrightarrow> ranges S = [])"
    and "res = Some x \<Longrightarrow> den dv \<rho> e = Some (BV (bits e) v) \<Longrightarrow> getRangeSet u (rsets s e) = Some S \<Longrightarrow>
      den dv \<rho> x = Some (BoolV (aps_read (factory u (bits e)) v \<in> members (ranges S)))"
    by blast+
qed

subsection \<open>The path condition\<close>

text \<open>
  The branches recorded so far are pairs of an expression and the direction. \<open>meaningful\<close>: their
  expressions have a meaning (no division by zero on the way).
\<close>

definition satisfies :: "bool \<Rightarrow> assignment \<Rightarrow> (expr \<times> bool) list \<Rightarrow> bool" where
  "satisfies dv \<rho> cs \<longleftrightarrow> (\<forall>(e, t) \<in> set cs. den dv \<rho> e = Some (BoolV t))"

definition meaningful :: "bool \<Rightarrow> assignment \<Rightarrow> (expr \<times> bool) list \<Rightarrow> bool" where
  "meaningful dv \<rho> cs \<longleftrightarrow> (\<forall>(e, t) \<in> set cs. den dv \<rho> e \<noteq> None)"

text \<open>What the state says of an assignment, given the nodes of the forest.\<close>

definition ranges_hold :: "bool \<Rightarrow> assignment \<Rightarrow> (expr \<Rightarrow> range_sets) \<Rightarrow> bool" where
  "ranges_hold dv \<rho> R \<longleftrightarrow> (\<forall>n x. den dv \<rho> n = Some (BV (bits n) x) \<longrightarrow> allows (bits n) (R n) x)"

definition nodes_hold :: "bool \<Rightarrow> assignment \<Rightarrow> expr list \<Rightarrow> bool" where
  "nodes_hold dv \<rho> ns \<longleftrightarrow> (\<forall>n \<in> set ns. isRelational n \<longrightarrow> den dv \<rho> n = Some (BoolV True))"

text \<open>A node that is neither relational nor a bit vector is one that \<open>syncConstraints\<close> complains about.\<close>

definition constrainable :: "bool \<Rightarrow> assignment \<Rightarrow> expr \<Rightarrow> bool" where
  "constrainable dv \<rho> n \<longleftrightarrow> isRelational n \<or> (\<exists>x. den dv \<rho> n = Some (BV (bits n) x))"

definition path_inv :: "bool \<Rightarrow> assignment \<Rightarrow> (expr \<times> bool) list \<Rightarrow> expr list \<Rightarrow> solver \<Rightarrow> bool" where
  "path_inv dv \<rho>0 cs ns s \<longleftrightarrow>
     forest_ok getDeps ns (dep_forest s) \<and>
     (\<forall>n. range_sets_ok (bits n) (rsets s n)) \<and>
     (\<forall>n. rsets s n \<noteq> no_range_sets \<longrightarrow> n \<in> set ns \<or> isConcrete n) \<and>
     satisfies dv \<rho>0 cs \<and> nodes_hold dv \<rho>0 ns \<and> ranges_hold dv \<rho>0 (rsets s) \<and>
     (\<forall>\<rho>. meaningful dv \<rho> cs \<longrightarrow> (\<forall>n \<in> set ns. den dv \<rho> n \<noteq> None)) \<and>
     ((\<forall>n \<in> set ns. constrainable dv \<rho>0 n) \<longrightarrow>
        (\<forall>\<rho>. meaningful dv \<rho> cs \<longrightarrow> (nodes_hold dv \<rho> ns \<and> ranges_hold dv \<rho> (rsets s) \<longleftrightarrow> satisfies dv \<rho> cs)))"

lemma path_inv_init:
  "dep_forest s = empty_forest \<Longrightarrow> rsets s = (\<lambda>_. no_range_sets) \<Longrightarrow> path_inv dv \<rho>0 [] [] s"
  by (simp add: path_inv_def satisfies_def meaningful_def nodes_hold_def ranges_hold_def)

lemma path_inv_only_bs: "only_bs s s' \<Longrightarrow> path_inv dv \<rho>0 cs ns s \<Longrightarrow> path_inv dv \<rho>0 cs ns s'"
  using only_bs_same [of s s'] by (simp add: path_inv_def)

lemma path_invD:
  assumes "path_inv dv \<rho>0 cs ns s"
  shows "forest_ok getDeps ns (dep_forest s)" and "range_sets_ok (bits n) (rsets s n)"
    and "rsets s n \<noteq> no_range_sets \<Longrightarrow> n \<in> set ns \<or> isConcrete n"
    and "satisfies dv \<rho>0 cs" and "nodes_hold dv \<rho>0 ns" and "ranges_hold dv \<rho>0 (rsets s)"
    and "meaningful dv \<rho> cs \<Longrightarrow> n \<in> set ns \<Longrightarrow> den dv \<rho> n \<noteq> None"
    and "(\<And>n. n \<in> set ns \<Longrightarrow> constrainable dv \<rho>0 n) \<Longrightarrow> meaningful dv \<rho> cs \<Longrightarrow>
      nodes_hold dv \<rho> ns \<and> ranges_hold dv \<rho> (rsets s) \<longleftrightarrow> satisfies dv \<rho> cs"
proof -
  note c = assms [unfolded path_inv_def]
  show "forest_ok getDeps ns (dep_forest s)" "satisfies dv \<rho>0 cs" "nodes_hold dv \<rho>0 ns" "ranges_hold dv \<rho>0 (rsets s)"
    by (simp_all only: c)
  show "range_sets_ok (bits n) (rsets s n)"
    using c [THEN conjunct2, THEN conjunct1] by blast
  show "rsets s n \<noteq> no_range_sets \<Longrightarrow> n \<in> set ns \<or> isConcrete n"
    using c [THEN conjunct2, THEN conjunct2, THEN conjunct1] by blast
  have d: "(\<forall>\<rho>. meaningful dv \<rho> cs \<longrightarrow> (\<forall>n \<in> set ns. den dv \<rho> n \<noteq> None)) \<and>
     ((\<forall>n \<in> set ns. constrainable dv \<rho>0 n) \<longrightarrow>
        (\<forall>\<rho>. meaningful dv \<rho> cs \<longrightarrow> (nodes_hold dv \<rho> ns \<and> ranges_hold dv \<rho> (rsets s) \<longleftrightarrow> satisfies dv \<rho> cs)))"
    by (rule c [THEN conjunct2, THEN conjunct2, THEN conjunct2, THEN conjunct2, THEN conjunct2, THEN conjunct2])
  show "meaningful dv \<rho> cs \<Longrightarrow> n \<in> set ns \<Longrightarrow> den dv \<rho> n \<noteq> None"
    using d [THEN conjunct1] by blast
  show "(\<And>n. n \<in> set ns \<Longrightarrow> constrainable dv \<rho>0 n) \<Longrightarrow> meaningful dv \<rho> cs \<Longrightarrow>
      nodes_hold dv \<rho> ns \<and> ranges_hold dv \<rho> (rsets s) \<longleftrightarrow> satisfies dv \<rho> cs"
    using d [THEN conjunct2] by blast
qed

lemma path_invI:
  assumes "forest_ok getDeps ns (dep_forest s)" and "\<And>n. range_sets_ok (bits n) (rsets s n)"
    and "\<And>n. rsets s n \<noteq> no_range_sets \<Longrightarrow> n \<in> set ns \<or> isConcrete n"
    and "satisfies dv \<rho>0 cs" and "nodes_hold dv \<rho>0 ns" and "ranges_hold dv \<rho>0 (rsets s)"
    and "\<And>\<rho> n. meaningful dv \<rho> cs \<Longrightarrow> n \<in> set ns \<Longrightarrow> den dv \<rho> n \<noteq> None"
    and "\<And>\<rho>. (\<And>n. n \<in> set ns \<Longrightarrow> constrainable dv \<rho>0 n) \<Longrightarrow> meaningful dv \<rho> cs \<Longrightarrow>
      nodes_hold dv \<rho> ns \<and> ranges_hold dv \<rho> (rsets s) \<longleftrightarrow> satisfies dv \<rho> cs"
  shows "path_inv dv \<rho>0 cs ns s"
  unfolding path_inv_def using assms by (intro conjI allI impI ballI) blast+

text \<open>A branch may be replaced by one that says the same.\<close>

lemma path_inv_replace:
  assumes inv: "path_inv dv \<rho>0 (cs @ [(x, t')]) ns s" and e: "den dv \<rho>0 e = Some (BoolV t)"
    and same: "\<And>\<rho> p. den dv \<rho> e = Some p \<Longrightarrow>
      den dv \<rho> x \<noteq> None \<and> (den dv \<rho> x = Some (BoolV t') \<longleftrightarrow> den dv \<rho> e = Some (BoolV t))"
  shows "path_inv dv \<rho>0 (cs @ [(e, t)]) ns s"
proof -
  note I = path_invD [OF inv]
  have m: "meaningful dv \<rho> (cs @ [(x, t')])" if "meaningful dv \<rho> (cs @ [(e, t)])" for \<rho>
    using same [of \<rho>] that by (auto simp: meaningful_def)
  have sat: "satisfies dv \<rho> (cs @ [(e, t)]) \<longleftrightarrow> satisfies dv \<rho> (cs @ [(x, t')])"
    if "meaningful dv \<rho> (cs @ [(e, t)])" for \<rho>
    using same [of \<rho>] that by (auto simp: satisfies_def meaningful_def)
  have sat0: "satisfies dv \<rho>0 (cs @ [(e, t)])"
    using I(4) e by (simp add: satisfies_def)
  show ?thesis
  proof (rule path_invI [OF I(1,2,3) sat0 I(5,6)])
    show "den dv \<rho> n \<noteq> None" if "meaningful dv \<rho> (cs @ [(e, t)])" "n \<in> set ns" for \<rho> n
      using I(7) [OF m] that by blast
    show "nodes_hold dv \<rho> ns \<and> ranges_hold dv \<rho> (rsets s) \<longleftrightarrow> satisfies dv \<rho> (cs @ [(e, t)])"
      if "\<And>n. n \<in> set ns \<Longrightarrow> constrainable dv \<rho>0 n" "meaningful dv \<rho> (cs @ [(e, t)])" for \<rho>
      using I(8) [OF that(1) m [OF that(2)]] sat [OF that(2)] by blast
  qed
qed

subsection \<open>One more node, one more range\<close>

lemma relational_BoolV:
  assumes "isRelational n" "den dv \<rho> n = Some v" shows "\<exists>p. v = BoolV p"
proof (cases n)
  case (UnaryExpr i k e)
  with assms obtain a where "sem_unary k a = Some v" "k \<notin> {Not, Neg}"
    by (auto simp: Option.bind_eq_Some_conv)
  then show ?thesis
    by (cases a; cases k) auto
next
  case (BinaryExpr i k l r)
  with assms obtain a b where "sem_binary dv k a b = Some v"
    and "compareKind k \<or> k \<in> {LAnd, LOr, LNot}"
    by (auto simp: Option.bind_eq_Some_conv compareKind_def)
  then show ?thesis
    by (cases a; cases b) (auto split: if_splits)
qed (use assms in auto)

declare isRelational.simps [simp del]

lemma concrete_den: "isConcrete n \<Longrightarrow> den dv \<rho> n = den dv \<sigma> n"
  using isConcrete_getDeps den_getDeps by (metis empty_iff)

lemma addConstraint_node_add:
  "\<not> isConcrete n \<Longrightarrow> addConstraint_node n s =
     do { F \<leftarrow> forest_addNode getDeps n (dep_forest s); Some (s\<lparr>dep_forest := F\<rparr>) }"
  by (cases n) (auto simp: addConstraint_node_def)

lemma addConstraint_node_skip: "isConcrete n \<Longrightarrow> addConstraint_node n s = Some s' \<Longrightarrow> s' = s"
  by (cases n) (simp_all add: addConstraint_node_def)

lemma addConstraint_node_cases:
  assumes "addConstraint_node n s = Some s'"
  obtains (skip) "s' = s" "isConcrete n"
    | (add) F where "\<not> isConcrete n" "forest_addNode getDeps n (dep_forest s) = Some F" "s' = s\<lparr>dep_forest := F\<rparr>"
proof (cases "isConcrete n")
  case False
  with assms obtain F where "forest_addNode getDeps n (dep_forest s) = Some F" "s' = s\<lparr>dep_forest := F\<rparr>"
    by (auto simp: addConstraint_node_add Option.bind_eq_Some_conv)
  with False show thesis
    by (rule add)
next
  case True
  then show thesis
    using addConstraint_node_skip [OF True assms] skip by blast
qed

lemma forest_add:
  assumes "forest_ok getDeps ns F" "\<not> isConcrete n" "forest_addNode getDeps n F = Some F'"
  shows "forest_ok getDeps (ns @ [n]) F'"
proof -
  have "getDeps n \<noteq> {}"
    using assms(2) by (simp add: isConcrete_getDeps)
  from forest_ok_addNode [where D = getDeps and n = n, OF assms(1) finite_getDeps this] assms(3)
  show ?thesis
    by simp
qed

lemma satisfies_snoc: "satisfies dv \<rho> (cs @ [(e, t)]) \<longleftrightarrow> satisfies dv \<rho> cs \<and> den dv \<rho> e = Some (BoolV t)"
  by (auto simp: satisfies_def)

lemma meaningful_snoc: "meaningful dv \<rho> (cs @ [(e, t)]) \<longleftrightarrow> meaningful dv \<rho> cs \<and> den dv \<rho> e \<noteq> None"
  by (auto simp: meaningful_def)

lemma nodes_hold_snoc:
  "nodes_hold dv \<rho> (ns @ [n]) \<longleftrightarrow> nodes_hold dv \<rho> ns \<and> (isRelational n \<longrightarrow> den dv \<rho> n = Some (BoolV True))"
  by (auto simp: nodes_hold_def)

lemma path_inv_add_node:
  assumes inv: "path_inv dv \<rho>0 cs ns s" and x: "den dv \<rho>0 x = Some (BoolV True)"
    and run: "addConstraint_node x s = Some s'"
  shows "\<exists>ns'. path_inv dv \<rho>0 (cs @ [(x, True)]) ns' s'"
proof -
  note I = path_invD [OF inv]
  have sat0: "satisfies dv \<rho>0 (cs @ [(x, True)])"
    using I(4) x by (simp add: satisfies_snoc)
  from run show ?thesis
  proof (cases rule: addConstraint_node_cases)
    case skip
    then have x: "den dv \<rho> x = Some (BoolV True)" for \<rho>
      using concrete_den [OF skip(2), of dv \<rho> \<rho>0] x by simp
    have "path_inv dv \<rho>0 (cs @ [(x, True)]) ns s"
    proof (rule path_invI [OF I(1,2,3) sat0 I(5,6)])
      show "den dv \<rho> n \<noteq> None" if "meaningful dv \<rho> (cs @ [(x, True)])" "n \<in> set ns" for \<rho> n
        using I(7) that by (simp add: meaningful_snoc)
      show "nodes_hold dv \<rho> ns \<and> ranges_hold dv \<rho> (rsets s) \<longleftrightarrow> satisfies dv \<rho> (cs @ [(x, True)])"
        if "\<And>n. n \<in> set ns \<Longrightarrow> constrainable dv \<rho>0 n" "meaningful dv \<rho> (cs @ [(x, True)])" for \<rho>
        using I(8) [OF that(1), of \<rho>] that(2) x by (simp add: meaningful_snoc satisfies_snoc)
    qed
    then show ?thesis
      using skip by blast
  next
    case (add F)
    have "path_inv dv \<rho>0 (cs @ [(x, True)]) (ns @ [x]) s'"
    proof (rule path_invI)
      show "forest_ok getDeps (ns @ [x]) (dep_forest s')"
        using forest_add [OF I(1) add(1,2)] add(3) by simp
      show "nodes_hold dv \<rho>0 (ns @ [x])"
        using I(5) x by (simp add: nodes_hold_snoc)
      show "den dv \<rho> n \<noteq> None" if "meaningful dv \<rho> (cs @ [(x, True)])" "n \<in> set (ns @ [x])" for \<rho> n
        using I(7) that by (auto simp: meaningful_snoc)
      show "nodes_hold dv \<rho> (ns @ [x]) \<and> ranges_hold dv \<rho> (rsets s') \<longleftrightarrow> satisfies dv \<rho> (cs @ [(x, True)])"
        if c: "\<And>n. n \<in> set (ns @ [x]) \<Longrightarrow> constrainable dv \<rho>0 n" and "meaningful dv \<rho> (cs @ [(x, True)])" for \<rho>
      proof -
        have "isRelational x"
          using c [of x] x by (auto simp: constrainable_def)
        moreover have "nodes_hold dv \<rho> ns \<and> ranges_hold dv \<rho> (rsets s) \<longleftrightarrow> satisfies dv \<rho> cs"
          using I(8) [of \<rho>] that by (simp add: meaningful_snoc)
        ultimately show ?thesis
          using add(3) by (auto simp: nodes_hold_snoc satisfies_snoc)
      qed
      show "range_sets_ok (bits n) (rsets s' n)" for n
        using I(2) add(3) by simp
      show "n \<in> set (ns @ [x]) \<or> isConcrete n" if "rsets s' n \<noteq> no_range_sets" for n
        using I(3) [of n] that add(3) by auto
      show "ranges_hold dv \<rho>0 (rsets s')"
        using I(6) add(3) by simp
    qed (rule sat0)
    then show ?thesis
      by blast
  qed
qed

text \<open>The comparisons that no value satisfies are not on the path of the run.\<close>

lemma vacuous_fails:
  assumes "vacuous (factory u n) k c" "0 < n" "in_range n c" "in_range n x" "fits u k"
  shows "\<not> relation_holds k n x c"
proof -
  have "in_factory (factory u n) (aps_read (factory u n) x)"
    using assms(2,4) by (simp add: aps_read_range)
  with assms(1,5) show ?thesis
    by (cases u) (auto simp: vacuous_def relation_holds_def in_factory_def fits_def aps_read_def)
qed

lemma fits_recorded: "compareKind k \<Longrightarrow> fits (recorded_unsigned k) k"
  by (auto simp: fits_def recorded_unsigned_def compareKind_def)

lemma ranges_hold_upd:
  assumes "den dv \<rho> n = Some (BV (bits n) y)" "allows (bits n) R y \<longleftrightarrow> allows (bits n) (rsets s n) y \<and> P"
  shows "ranges_hold dv \<rho> ((rsets s)(n := R)) \<longleftrightarrow> ranges_hold dv \<rho> (rsets s) \<and> P"
proof
  assume l: "ranges_hold dv \<rho> ((rsets s)(n := R))"
  then have "allows (bits n) (((rsets s)(n := R)) n) y"
    using assms(1) unfolding ranges_hold_def by blast
  then have "allows (bits n) R y"
    by simp
  with assms(2) have P: "allows (bits n) (rsets s n) y" "P"
    by blast+
  have "allows (bits m) (rsets s m) x" if "den dv \<rho> m = Some (BV (bits m) x)" for m x
  proof (cases "m = n")
    case False
    have "allows (bits m) (((rsets s)(n := R)) m) x"
      using l that unfolding ranges_hold_def by blast
    with False show ?thesis
      by simp
  qed (use that P(1) assms(1) in simp)
  with P(2) show "ranges_hold dv \<rho> (rsets s) \<and> P"
    by (simp add: ranges_hold_def)
qed (use assms in \<open>auto simp: ranges_hold_def\<close>)

lemma path_inv_add_range:
  assumes A: "apint_ok A" and inv: "path_inv dv \<rho>0 cs ns s"
    and k: "compareKind k" and c: "in_range (bits n) c"
    and e: "den dv \<rho>0 e = Some (BoolV t)"
    and means: "\<And>\<rho> v. den dv \<rho> e = Some v \<Longrightarrow> \<exists>y. den dv \<rho> n = Some (BV (bits n) y) \<and>
      (v = BoolV t \<longleftrightarrow> relation_holds k (bits n) (take_bit (bits n) (y + a)) c)"
    and R: "addConstraint A (bits n) k (bits n, c) (bits n, a) (rsets s n) = Some R"
    and run: "addConstraint_node n (s\<lparr>rsets := (rsets s)(n := R)\<rparr>) = Some s'"
  shows "\<exists>ns'. path_inv dv \<rho>0 (cs @ [(e, t)]) ns' s'"
proof -
  note I = path_invD [OF inv]
  let ?n = "bits n" and ?s = "s\<lparr>rsets := (rsets s)(n := R)\<rparr>"
  obtain y0 where y0: "den dv \<rho>0 n = Some (BV ?n y0)" and "relation_holds k ?n (take_bit ?n (y0 + a)) c"
    using means [OF e] by blast
  moreover have n: "0 < ?n"
    using den_BV [OF y0] by simp
  ultimately have nv: "\<not> vacuous (factory (recorded_unsigned k) ?n) k c"
    using vacuous_fails [OF _ n c _ fits_recorded [OF k]] in_range_take by blast
  obtain R' where R': "addConstraint A ?n k (?n, c) (?n, a) (rsets s n) = Some R'" "range_sets_ok ?n R'"
    "\<And>x. in_range ?n x \<Longrightarrow> allows ?n R' x \<longleftrightarrow> allows ?n (rsets s n) x \<and> relation_holds k ?n (take_bit ?n (x + a)) c"
    using addConstraint_step [OF A n I(2) k c, of a] nv by auto
  have [simp]: "R' = R"
    using R R'(1) by simp
  have ranges: "ranges_hold dv \<rho> ((rsets s)(n := R)) \<longleftrightarrow> ranges_hold dv \<rho> (rsets s) \<and> den dv \<rho> e = Some (BoolV t)"
    if v: "den dv \<rho> e = Some v" for \<rho> v
  proof -
    obtain y where y: "den dv \<rho> n = Some (BV ?n y)"
      "v = BoolV t \<longleftrightarrow> relation_holds k ?n (take_bit ?n (y + a)) c"
      using means [OF v] by blast
    show ?thesis
      by (rule ranges_hold_upd [OF y(1)]) (use R'(3) [of y] den_BV [OF y(1)] y(2) v in auto)
  qed
  have "\<not> isRelational n"
    using relational_BoolV [OF _ y0] by blast
  then have hold: "nodes_hold dv \<rho> (ns @ [n]) = nodes_hold dv \<rho> ns" for \<rho>
    by (simp add: nodes_hold_snoc)
  have inv': "path_inv dv \<rho>0 (cs @ [(e, t)]) ns' s'"
    if ns': "forest_ok getDeps ns' (dep_forest s')" "rsets s' = (rsets s)(n := R)"
      "set ns \<subseteq> set ns'" "set ns' \<subseteq> set ns \<union> {n}" "n \<in> set ns' \<or> isConcrete n"
      "\<And>\<rho>. nodes_hold dv \<rho> ns' = nodes_hold dv \<rho> ns" for ns'
  proof (rule path_invI [OF ns'(1)])
    show "range_sets_ok (bits m) (rsets s' m)" for m
      using I(2) R'(2) ns'(2) by simp
    show "m \<in> set ns' \<or> isConcrete m" if "rsets s' m \<noteq> no_range_sets" for m
      using I(3) [of m] that ns'(2,3,5) by (auto split: if_splits)
    show "satisfies dv \<rho>0 (cs @ [(e, t)])"
      using I(4) e by (simp add: satisfies_snoc)
    show "nodes_hold dv \<rho>0 ns'"
      using I(5) ns'(6) by simp
    show "ranges_hold dv \<rho>0 (rsets s')"
      using I(6) ranges [OF e] e ns'(2) by simp
    show "den dv \<rho> m \<noteq> None" if "meaningful dv \<rho> (cs @ [(e, t)])" "m \<in> set ns'" for \<rho> m
    proof (cases "m = n")
      case True
      then show ?thesis
        using means [of \<rho>] that(1) by (auto simp: meaningful_snoc)
    next
      case False
      then show ?thesis
        using I(7) [of \<rho> m] that ns'(4) by (auto simp: meaningful_snoc)
    qed
    show "nodes_hold dv \<rho> ns' \<and> ranges_hold dv \<rho> (rsets s') \<longleftrightarrow> satisfies dv \<rho> (cs @ [(e, t)])"
      if con: "\<And>m. m \<in> set ns' \<Longrightarrow> constrainable dv \<rho>0 m" and m: "meaningful dv \<rho> (cs @ [(e, t)])" for \<rho>
    proof -
      have "nodes_hold dv \<rho> ns \<and> ranges_hold dv \<rho> (rsets s) \<longleftrightarrow> satisfies dv \<rho> cs"
        by (rule I(8)) (use con ns'(3) m in \<open>auto simp: meaningful_snoc\<close>)
      moreover obtain v where "den dv \<rho> e = Some v"
        using m by (auto simp: meaningful_snoc)
      ultimately show ?thesis
        using ranges ns'(2,6) by (auto simp: satisfies_snoc)
    qed
  qed
  from run show ?thesis
  proof (cases rule: addConstraint_node_cases)
    case skip
    show ?thesis
      by (rule exI [of _ ns], rule inv') (use skip I(1) in auto)
  next
    case (add F)
    have "forest_ok getDeps (ns @ [n]) F"
      using forest_add [OF I(1) add(1)] add(2) by simp
    then show ?thesis
      by (intro exI [of _ "ns @ [n]"] inv') (use add hold in auto)
  qed
qed

subsection \<open>Recording a branch\<close>

lemma as_Binary_Some: "as_Binary k e = Some (l, r) \<Longrightarrow> \<exists>i. e = BinaryExpr i k l r"
  by (cases e) (auto split: if_splits)

lemma as_Constant_Some: "as_Constant e = Some v \<Longrightarrow> \<exists>i n. e = ConstantExpr i v n"
  by (cases e) auto

lemma canonical_cases:
  assumes "getCanonicalExpr E x s = Some ((canonical, w, a), s')"
  obtains (add) i j where "x = BinaryExpr i Add (ConstantExpr j a w) canonical" "s' = s"
    | (sub) i j z where "x = BinaryExpr i Sub (ConstantExpr j a w) z"
        "build (createUnaryExpr (g_expr_builder E) Neg z) s = Some (canonical, s')"
    | (other) "canonical = x" "w = bits x" "a = 0" "s' = s"
proof (cases "as_Binary Add x")
  case (Some p)
  obtain l r where p: "p = (l, r)"
    by (cases p)
  show thesis
  proof (cases "as_Constant l")
    case None
    show thesis
      by (rule other) (use assms Some p None in \<open>auto simp: getCanonicalExpr_def\<close>)
  next
    case (Some v)
    obtain j n where l: "l = ConstantExpr j v n"
      using as_Constant_Some [OF Some] by blast
    obtain i where x: "x = BinaryExpr i Add l r"
      using as_Binary_Some \<open>as_Binary Add x = Some p\<close> p by blast
    show thesis
      by (rule add [of i j]) (use assms x l in \<open>simp_all add: getCanonicalExpr_def\<close>)
  qed
next
  case None
  show thesis
  proof (cases "as_Binary Sub x")
    case sN: None
    show thesis
      by (rule other) (use assms None sN in \<open>auto simp: getCanonicalExpr_def\<close>)
  next
    case sS: (Some p)
    obtain l r where p: "p = (l, r)"
      by (cases p)
    obtain i where x: "x = BinaryExpr i Sub l r"
      using as_Binary_Some sS p by blast
    show thesis
    proof (cases "as_Constant l")
      case cN: None
      show thesis
        by (rule other) (use assms None sS p cN in \<open>auto simp: getCanonicalExpr_def\<close>)
    next
      case (Some v)
      obtain j n where l: "l = ConstantExpr j v n"
        using as_Constant_Some [OF Some] by blast
      obtain m t where m: "build (createUnaryExpr (g_expr_builder E) Neg r) s = Some (m, t)"
        and eq: "m = canonical" "n = w" "v = a" "t = s'"
        using assms None x l by (auto simp: getCanonicalExpr_def Option.bind_eq_Some_conv)
      show thesis
        by (rule sub [of i j r]) (use x l m eq in simp_all)
    qed
  qed
qed

lemma binary_BV_const:
  assumes "den dv \<rho> (BinaryExpr i k (ConstantExpr j a w) z) = Some (BV n v)" "k \<in> {Add, Sub}"
  obtains y where "w = n" "den dv \<rho> z = Some (BV n y)" "in_range n a"
    "v = take_bit n (if k = Add then a + y else a - y)"
proof -
  obtain b where b: "den dv \<rho> z = Some b" "0 < w" "0 \<le> a" "a < 2 ^ w"
    and sem: "sem_binary dv k (BV w a) b = Some (BV n v)"
    using assms(1) by (auto simp: Option.bind_eq_Some_conv split: if_splits)
  obtain y where "b = BV n y" "w = n" "v = take_bit n (if k = Add then a + y else a - y)"
    using sem assms(2) by (cases b) (auto simp: compareKind_def split: if_splits)
  with b that [of y] show thesis
    by (simp add: in_range_def)
qed

lemma canonical_law:
  assumes B: "builder_ok dv (g_expr_builder E)"
    and run: "getCanonicalExpr E x s = Some ((canonical, w, a), s')"
  shows "only_bs s s'"
    and "den dv \<rho> x = Some (BV n v) \<Longrightarrow>
      w = n \<and> bits canonical = n \<and> (\<exists>y. den dv \<rho> canonical = Some (BV n y) \<and> take_bit n (y + a) = v)"
proof -
  show "only_bs s s'"
    using run by (cases rule: canonical_cases) (simp_all add: build_only_bs)
  assume x: "den dv \<rho> x = Some (BV n v)"
  from run show "w = n \<and> bits canonical = n \<and>
      (\<exists>y. den dv \<rho> canonical = Some (BV n y) \<and> take_bit n (y + a) = v)"
  proof (cases rule: canonical_cases)
    case (add i j)
    obtain y where y: "w = n" "den dv \<rho> canonical = Some (BV n y)" "v = take_bit n (a + y)"
      using binary_BV_const [OF x [unfolded add(1)]] by auto
    then show ?thesis
      using den_BV [OF y(2)] by (simp add: add.commute)
  next
    case (sub i j z)
    obtain y where y: "w = n" "den dv \<rho> z = Some (BV n y)" "v = take_bit n (a - y)"
      using binary_BV_const [OF x [unfolded sub(1)]] by auto
    have c: "den dv \<rho> canonical = Some (BV n (take_bit n (- y)))"
      by (rule built_unary [OF B sub(2) y(2)]) simp
    have "take_bit n (take_bit n (- y) + a) = v"
      using y(3) by (simp add: take_bit_eq_mod mod_simps)
    then show ?thesis
      using y(1) c den_BV [OF c] by blast
  next
    case other
    then show ?thesis
      using x den_BV [OF x] by (auto simp: in_range_def take_bit_int_eq_self)
  qed
qed

lemma constant_BV:
  assumes "isConstant x" "den dv \<rho> x = Some b"
  obtains i n v where "b = BV n v" "x = ConstantExpr i v n" "in_range n v" "0 < n"
proof -
  have "sem_unary Constant a = None" "sem_binary dv Constant a c = None" for a c
    by (cases a; cases c; simp add: compareKind_def)+
  with assms have "\<exists>i n v. x = ConstantExpr i v n \<and> b = BV n v \<and> in_range n v \<and> 0 < n"
    by (cases x) (auto simp: isConstant_def Option.bind_eq_Some_conv in_range_def split: if_splits)
  with that show thesis
    by blast
qed

lemma binary_const_BoolV:
  assumes "den dv \<rho> (BinaryExpr i k l r) = Some (BoolV p)" "isConstant l \<or> isConstant r"
  shows "compareKind k"
proof -
  obtain a b where ab: "den dv \<rho> l = Some a" "den dv \<rho> r = Some b" "sem_binary dv k a b = Some (BoolV p)"
    using assms(1) by (auto simp: Option.bind_eq_Some_conv)
  then have "(\<exists>n v. a = BV n v) \<or> (\<exists>n v. b = BV n v)"
    using constant_BV assms(2) by metis
  with ab(3) show ?thesis
    by (cases a; cases b; cases k) (auto simp: compareKind_def split: if_splits)
qed

lemma isConstSym_BoolV:
  assumes "isConstSym e" "den dv \<rho> e = Some (BoolV p)"
  obtains i k l r where "e = BinaryExpr i k l r" "compareKind k" "isConstant l \<noteq> isConstant r"
proof -
  obtain l r where lr: "children e = [l, r]" "isConstant l \<noteq> isConstant r"
    using assms(1) by (auto simp: isConstSym_def split: list.splits)
  with assms(2) obtain i k where "e = BinaryExpr i k l r"
    by (cases e) (auto simp: Option.bind_eq_Some_conv elim!: sem_concat.elims split: if_splits)
  with lr(2) that binary_const_BoolV assms(2) show thesis
    by metis
qed

lemma parseConstSym_law:
  assumes sym: "isConstSym e" and parse: "parseConstSym e = Some (k, x, c)" and e: "den dv \<rho> e = Some (BoolV p)"
  obtains i v n where "c = ConstantExpr i v n" "in_range n v" "0 < n" "compareKind k"
    "\<And>\<sigma> q. den dv \<sigma> e = Some q \<Longrightarrow> \<exists>y. den dv \<sigma> x = Some (BV n y) \<and> sem_binary dv k (BV n y) (BV n v) = Some q"
proof -
  note finish = that
  obtain i k' l r where eq: "e = BinaryExpr i k' l r" and k': "compareKind k'" "isConstant l \<noteq> isConstant r"
    using isConstSym_BoolV [OF sym e] by blast
  obtain a b where ab: "den dv \<rho> l = Some a" "den dv \<rho> r = Some b"
    using e eq by (auto simp: Option.bind_eq_Some_conv)
  have half: thesis
    if C: "isConstant c" "den dv \<rho> c = Some d" and k: "compareKind k"
      and sem: "\<And>u w. sem_binary dv k u w = (if c = r then sem_binary dv k' u w else sem_binary dv k' w u)"
      and sides: "c = r \<and> x = l \<or> c = l \<and> x = r \<and> c \<noteq> r" for d
  proof -
    obtain j n v where c: "c = ConstantExpr j v n" "in_range n v" "0 < n"
      using constant_BV [OF C] by metis
    have cden: "den dv \<sigma> c = Some (BV n v)" for \<sigma>
      using c by (simp add: in_range_def)
    have "\<exists>y. den dv \<sigma> x = Some (BV n y) \<and> sem_binary dv k (BV n y) (BV n v) = Some q" if q: "den dv \<sigma> e = Some q" for \<sigma> q
    proof -
      obtain u where u: "den dv \<sigma> x = Some u" "sem_binary dv k u (BV n v) = Some q"
        using q eq sides cden [of \<sigma>] sem by (auto simp: Option.bind_eq_Some_conv)
      then obtain y where "u = BV n y"
        by (cases u) (auto split: if_splits)
      with u show ?thesis
        by simp
    qed
    with finish [OF c k] show thesis
      by blast
  qed
  show thesis
  proof (cases "isConstant r")
    case True
    with parse eq k'(2) have "k = k'" "x = l" "c = r"
      by simp_all
    then show thesis
      by (intro half [OF _ _ k'(1) [folded \<open>k = k'\<close>]]) (use True ab(2) in auto)
  next
    case False
    with parse eq k'(2) have sw: "swapKind k' = Some k" "x = r" "c = l"
      by (auto simp: Option.bind_eq_Some_conv)
    have "compareKind k"
      using sw(1) k'(1) by (cases k') (auto simp: compareKind_def)
    then show thesis
      by (intro half) (use sw False ab k'(2) swapKind_sem [OF sw(1)] in auto)
  qed
qed

lemma path_inv_range:
  assumes B: "builder_ok dv (g_expr_builder E)" and A: "apint_ok (solver_apint E)"
    and inv: "path_inv dv \<rho>0 cs ns s" and e: "den dv \<rho>0 e = Some (BoolV t)"
    and run: "addRangeConstraint E e t s = Some (r, s')"
  shows "if r then \<exists>ns'. path_inv dv \<rho>0 (cs @ [(e, t)]) ns' s' else s' = s"
proof (cases "isConstSym e")
  case False
  with run show ?thesis
    by (auto simp: addRangeConstraint_def)
next
  case True
  from run True obtain k x c n w a s1 v k' R where
    parse: "parseConstSym e = Some (k, x, c)" and canon: "getCanonicalExpr E x s = Some ((n, w, a), s1)"
    and v: "as_Constant c = Some v" and k': "(if t then Some k else negateKind k) = Some k'"
    and R: "addConstraint (solver_apint E) (bits n) k' (bits c, v) (w, a) (rsets s1 n) = Some R"
    and node: "addConstraint_node n (s1\<lparr>rsets := (rsets s1)(n := R)\<rparr>) = Some s'" and r
    by (auto simp: addRangeConstraint_def Option.bind_eq_Some_conv)
  obtain i m where c: "c = ConstantExpr i v m" "in_range m v" "0 < m" "compareKind k"
    and sem: "\<And>\<sigma> q. den dv \<sigma> e = Some q \<Longrightarrow> \<exists>y. den dv \<sigma> x = Some (BV m y) \<and> sem_binary dv k (BV m y) (BV m v) = Some q"
    using parseConstSym_law [OF True parse e] v by (metis as_Constant.simps(1) option.inject)
  note canonical = canonical_law [OF B canon]
  obtain y0 where "den dv \<rho>0 x = Some (BV m y0)"
    using sem [OF e] by blast
  from canonical(2) [OF this] have w: "w = m" "bits n = m"
    by blast+
  have k'c: "compareKind k'"
    using k' c(4) by (cases t; cases k) (auto simp: compareKind_def)
  have means: "\<exists>y. den dv \<sigma> n = Some (BV (bits n) y) \<and>
      (q = BoolV t \<longleftrightarrow> relation_holds k' (bits n) (take_bit (bits n) (y + a)) v)" if q: "den dv \<sigma> e = Some q" for \<sigma> q
  proof -
    obtain z where z: "den dv \<sigma> x = Some (BV m z)" "sem_binary dv k (BV m z) (BV m v) = Some q"
      using sem [OF q] by blast
    obtain y where y: "den dv \<sigma> n = Some (BV m y)" "take_bit m (y + a) = z"
      using canonical(2) [OF z(1)] by blast
    obtain p where p: "q = BoolV p"
      using compare_BoolV [OF c(4) z(2)] by blast
    have "sem_binary dv k' (BV m z) (BV m v) = Some (BoolV (p = t))"
    proof (cases t)
      case False
      then show ?thesis
        using negateKind_sem [OF _ z(2) [unfolded p], of k'] k' by simp
    qed (use k' z p in simp)
    then have "bv_compare k' m z v = Some (p = t)"
      using k'c by (auto split: if_splits)
    then show ?thesis
      using y w p by (auto simp: relation_holds_def)
  qed
  have "path_inv dv \<rho>0 cs ns s1"
    by (rule path_inv_only_bs [OF canonical(1) inv])
  from path_inv_add_range [OF A this k'c _ e means R [unfolded c(1) w(1), simplified, folded w(2)] node] c(2) w(2) \<open>r\<close>
  show ?thesis
    by simp
qed

text \<open>Whether an expression is a truth value does not depend on the assignment.\<close>

fun is_BoolV :: "dval \<Rightarrow> bool" where
  "is_BoolV (BoolV _) = True"
| "is_BoolV (BV _ _) = False"

lemma sem_sort:
  "sem_unary k a = Some v \<Longrightarrow> is_BoolV v = is_BoolV a"
  "sem_concat a b = Some v \<Longrightarrow> \<not> is_BoolV v"
  "sem_extract i n a = Some v \<Longrightarrow> \<not> is_BoolV v"
  "sem_zext n a = Some v \<Longrightarrow> \<not> is_BoolV v"
  "sem_sext n a = Some v \<Longrightarrow> \<not> is_BoolV v"
  "sem_ite c a b = Some v \<Longrightarrow> is_BoolV v = is_BoolV a"
  by (auto elim!: sem_unary.elims sem_concat.elims sem_extract.elims sem_zext.elims
      sem_sext.elims sem_ite.elims split: if_splits)

lemma sem_binary_sort:
  "sem_binary dv k a b = Some v \<Longrightarrow> is_BoolV v = (is_BoolV a \<or> compareKind k)"
  by (cases a; cases b) (auto split: if_splits)

lemma den_sort:
  assumes "den dv \<rho> e = Some v" "den dv \<sigma> e = Some w"
  shows "is_BoolV v = is_BoolV w"
  using assms
proof (induction e arbitrary: v w)
  case (UnaryExpr i k e)
  then show ?case 
   by (auto simp: Option.bind_eq_Some_conv dest!: sem_sort(1) split: if_splits)
next
  case (BinaryExpr i k l r)
  then show ?case 
   by (auto simp: Option.bind_eq_Some_conv dest!: sem_binary_sort split: if_splits)
next
  case (IteExpr i c l r)
  then show ?case 
   by (auto simp: Option.bind_eq_Some_conv dest!: sem_sort(6) split: if_splits)
qed (auto simp: Option.bind_eq_Some_conv dest: sem_sort split: if_splits)
lemma path_inv_normal:
  assumes B: "builder_ok dv (g_expr_builder E)"
    and inv: "path_inv dv \<rho>0 cs ns s" and e: "den dv \<rho>0 e = Some (BoolV t)"
    and run: "addNormalConstraint E e t s = Some s'"
  shows "\<exists>ns'. path_inv dv \<rho>0 (cs @ [(e, t)]) ns' s'"
proof (cases t)
  case True
  then show ?thesis
    using path_inv_add_node [OF inv, of e] e run by (simp add: addNormalConstraint_def)
next
  case False
  then obtain x s1 where x: "build (createUnaryExpr (g_expr_builder E) LNot e) s = Some (x, s1)"
    and add: "addConstraint_node x s1 = Some s'"
    using run by (auto simp: addNormalConstraint_def Option.bind_eq_Some_conv)
  have neg: "den dv \<rho> x = Some (BoolV (\<not> p))" if "den dv \<rho> e = Some (BoolV p)" for \<rho> p
    by (rule built_unary [OF B x that]) simp
  have rel: "\<exists>p. q = BoolV p" if "den dv \<rho> e = Some q" for \<rho> q
    using den_sort [OF that e] by (cases q) auto
  have "path_inv dv \<rho>0 cs ns s1"
    by (rule path_inv_only_bs [OF build_only_bs [OF x] inv])
  then obtain ns' where "path_inv dv \<rho>0 (cs @ [(x, True)]) ns' s'"
    using path_inv_add_node [OF _ _ add] neg [OF e] False by fastforce
  then have "path_inv dv \<rho>0 (cs @ [(e, t)]) ns' s'"
  proof (rule path_inv_replace)
    show "den dv \<rho> x \<noteq> None \<and> (den dv \<rho> x = Some (BoolV True) \<longleftrightarrow> den dv \<rho> e = Some (BoolV t))"
      if q: "den dv \<rho> e = Some q" for \<rho> q
    proof -
      obtain p where "q = BoolV p"
        using rel [OF q] by blast
      with q neg [of \<rho> p] False show ?thesis
        by simp
    qed
  qed (rule e)
  then show ?thesis
    by blast
qed

lemma as_LNot_Some: "as_LNot e = Some x \<Longrightarrow> \<exists>i. e = UnaryExpr i LNot x"
  by (cases e) (auto split: if_splits)

lemma path_inv_path:
  assumes B: "builder_ok dv (g_expr_builder E)" and A: "apint_ok (solver_apint E)"
    and inv: "path_inv dv \<rho>0 cs ns s" and e: "den dv \<rho>0 e = Some (BoolV t)"
    and run: "addConstraint_path E e t s = Some s'"
  shows "\<exists>ns'. path_inv dv \<rho>0 (cs @ [(e, t)]) ns' s'"
  using inv e run
proof (induction "size e" arbitrary: e t rule: less_induct)
  case less
  note e = less.prems(2) and run = less.prems(3)
  show ?case
  proof (cases "as_LNot e")
    case (Some x)
    obtain i where eq: "e = UnaryExpr i LNot x"
      using as_LNot_Some [OF Some] by blast
    have neg: "\<exists>p. den dv \<rho> x = Some (BoolV p) \<and> q = BoolV (\<not> p)" if "den dv \<rho> e = Some q" for \<rho> q
      using that eq by (auto simp: Option.bind_eq_Some_conv elim!: sem_unary.elims)
    have x: "den dv \<rho>0 x = Some (BoolV (\<not> t))"
      using neg [OF e] by auto
    have "addConstraint_path E x (\<not> t) s = Some s'"
      using run Some by (simp add: addConstraint_path.simps [of E e])
    from less.hyps [OF as_LNot_size [OF Some] less.prems(1) x this]
    obtain ns' where "path_inv dv \<rho>0 (cs @ [(x, \<not> t)]) ns' s'"
      by blast
    then have "path_inv dv \<rho>0 (cs @ [(e, t)]) ns' s'"
      by (rule path_inv_replace [OF _ e]) (use neg in fastforce)
    then show ?thesis
      by blast
  next
    case None
    obtain r s1 where r: "addRangeConstraint E e t s = Some (r, s1)"
      and rest: "(if r then Some s1 else addNormalConstraint E e t s1) = Some s'"
      using run None by (auto simp: addConstraint_path.simps [of E e] Option.bind_eq_Some_conv)
    note range = path_inv_range [OF B A less.prems(1) e r]
    show ?thesis
    proof (cases r)
      case True
      with range rest show ?thesis
        by simp
    next
      case False
      with range rest show ?thesis
        using path_inv_normal [OF B less.prems(1) e] by simp
    qed
  qed
qed

end
