(* ===== verification/BuilderDeps.thy ===== *)
theory BuilderDeps
  imports BuilderStacks
begin

section \<open>The bytes an expression depends on\<close>

text \<open>
  No builder brings in input bytes: what a method returns depends on bytes of its operands only.
  The solver needs this of \<open>g_expr_builder\<close>, since a constraint that is rewritten on its way to
  Z3 must not mention bytes outside the slice that is being solved.
\<close>

definition within :: "nat set \<Rightarrow> expr \<Rightarrow> bool" where
  "within D e \<longleftrightarrow> getDeps e \<subseteq> D"

lemma within_simps [simp]:
  "within D (BoolExpr i b)" "within D (ConstantExpr i v n)"
  "within D (ReadExpr i j) \<longleftrightarrow> j \<in> D"
  "within D (ConcatExpr i l r) \<longleftrightarrow> within D l \<and> within D r"
  "within D (ExtractExpr i x j n) \<longleftrightarrow> within D x"
  "within D (ZExtExpr i x n) \<longleftrightarrow> within D x"
  "within D (SExtExpr i x n) \<longleftrightarrow> within D x"
  "within D (UnaryExpr i k x) \<longleftrightarrow> within D x"
  "within D (BinaryExpr i k l r) \<longleftrightarrow> within D l \<and> within D r"
  "within D (IteExpr i c x y) \<longleftrightarrow> within D c \<and> within D x \<and> within D y"
  by (auto simp: within_def)

lemma within_parts:
  "as_Concat e = Some (l, r) \<Longrightarrow> within D e \<Longrightarrow> within D l \<and> within D r"
  "as_Extract e = Some (x, i, n) \<Longrightarrow> within D e \<Longrightarrow> within D x"
  "as_Ext e = Some x \<Longrightarrow> within D e \<Longrightarrow> within D x"
  "as_SExt e = Some x \<Longrightarrow> within D e \<Longrightarrow> within D x"
  "as_LNot e = Some x \<Longrightarrow> within D e \<Longrightarrow> within D x"
  "as_Binary k e = Some (l, r) \<Longrightarrow> within D e \<Longrightarrow> within D l \<and> within D r"
  by (cases e; auto split: if_splits)+

lemma within_const:
  "const_first k e = Some (l, r) \<Longrightarrow> within D e \<Longrightarrow> within D l \<and> within D r"
  "const_second k e = Some (l, r) \<Longrightarrow> within D e \<Longrightarrow> within D l \<and> within D r"
  "same_split e f = Some (x, y, w, v) \<Longrightarrow> within D e \<Longrightarrow> within D f \<Longrightarrow>
     within D x \<and> within D y \<and> within D w \<and> within D v"
  using within_parts(6) [of k e l r D] within_parts(1) [of e x y D] within_parts(1) [of f w v D]
  by (auto simp: const_first_def const_second_def same_split_def split: option.splits if_splits)

lemma within_equal: "equalShallowly H a b \<Longrightarrow> within D a = within D b"
  by (cases a; cases b) (auto simp: equalShallowly_iff equalAux_def)

locale frugal_builder =
  fixes I :: "bst \<Rightarrow> bool" and D :: "nat set" and B :: builder
  assumes bool_deps: "I s \<Longrightarrow> runs False I (createBool B p s) (within D)"
    and const_deps: "I s \<Longrightarrow> runs False I (createConstant B v n s) (within D)"
    and constAP_deps: "I s \<Longrightarrow> runs False I (createConstantAP B z n s) (within D)"
    and read_deps: "I s \<Longrightarrow> i \<in> D \<Longrightarrow> runs False I (createRead B i s) (within D)"
    and concat_deps: "I s \<Longrightarrow> within D l \<Longrightarrow> within D r \<Longrightarrow> runs False I (createConcat B l r s) (within D)"
    and extract_deps: "I s \<Longrightarrow> within D x \<Longrightarrow> runs False I (createExtract B x i n s) (within D)"
    and zext_deps: "I s \<Longrightarrow> within D x \<Longrightarrow> runs False I (createZExt B x n s) (within D)"
    and sext_deps: "I s \<Longrightarrow> within D x \<Longrightarrow> runs False I (createSExt B x n s) (within D)"
    and unary_deps: "I s \<Longrightarrow> within D x \<Longrightarrow> runs False I (createUnaryExpr B k x s) (within D)"
    and binary_deps: "I s \<Longrightarrow> within D l \<Longrightarrow> within D r \<Longrightarrow> runs False I (createBinaryExpr B k l r s) (within D)"
    and ite_deps: "I s \<Longrightarrow> within D c \<Longrightarrow> within D x \<Longrightarrow> within D y \<Longrightarrow> runs False I (createIte B c x y s) (within D)"
begin

lemmas deps = bool_deps const_deps constAP_deps read_deps concat_deps extract_deps zext_deps sext_deps
  unary_deps binary_deps ite_deps

lemma call_deps:
  assumes "I s" "within D a" "within D b" "within D c"
  shows "runs False I (call_left B k2 k1 a b c s) (within D)"
    and "runs False I (call_right B k2 c k1 a b s) (within D)"
    and "runs False I (call_neg B k2 c k1 a b s) (within D)"
  using assms by (auto simp: call_left_def call_right_def call_neg_def intro!: runs_bind_pair [OF unary_deps]
      runs_bind_pair [OF binary_deps] binary_deps)

lemma call_both_deps:
  assumes "I s" "within D a" "within D b" "within D c" "within D d"
  shows "runs False I (call_both B k2 k1 a b k1' c d s) (within D)"
  using assms by (auto simp: call_both_def intro!: runs_bind_pair [OF binary_deps] binary_deps)

lemma concat_list_deps: "I s \<Longrightarrow> list_all (within D) es \<Longrightarrow> runs False I (createConcat_list B es s) (within D)"
proof (cases es)
  case (Cons e es')
  have "I s \<Longrightarrow> within D e \<Longrightarrow> list_all (within D) es' \<Longrightarrow> runs False I (createConcat_loop B e es' s) (within D)" for s
    by (induction es' arbitrary: e s) (auto intro!: runs_bind_pair [OF concat_deps])
  then show "I s \<Longrightarrow> list_all (within D) es \<Longrightarrow> runs False I (createConcat_list B es s) (within D)"
    using Cons by simp
qed simp

end

subsection \<open>The bottom of the stack\<close>

lemma base_frugal: "stable I \<Longrightarrow> frugal_builder I D base_builder"
  by unfold_locales
    (auto simp: base_builder_def base_createRead_def base_createExtract_def base_createUnaryExpr_def
      base_createBinaryExpr_def base_createIte_def stable_read_cache
      intro!: run_rules runs_make_shared split: option.splits)

lemma findOrInsert_deps:
  assumes "stable I" "I s" "within D x"
  shows "runs False I (findOrInsert E x s) (within D)"
proof -
  have "within D y" if "findInCache E x s = Some y" for y
    using find_sound [OF that [unfolded findInCache_def]] within_equal assms(3) by blast
  with assms show ?thesis
    by (simp add: findOrInsert_def Let_def insertToCache_def stable_clock stable_expr_cache split: option.split)
qed

lemma cache_frugal:
  assumes "stable I" "frugal_builder I D B"
  shows "frugal_builder I D (cache_builder E B)"
proof -
  note B = frugal_builder.deps [OF assms(2)]
  have bind: "runs False I (do { (e, s) \<leftarrow> m; findOrInsert E e s }) (within D)" if "runs False I m (within D)" for m
    using that by (rule runs_bind_pair) (rule findOrInsert_deps [OF assms(1)])
  show ?thesis
    by unfold_locales (simp_all add: cache_builder_def B bind)
qed

lemma cf_frugal:
  assumes "frugal_builder I D B"
  shows "frugal_builder I D (const_folding_builder A B)"
proof -
  note B = frugal_builder.deps [OF assms]
  have binary: "runs False I (cf_createBinaryExpr A B k l r s) (within D)"
    if "I s" "within D l" "within D r" for k l r s
    using B(1,3) [OF that(1)] B(10) [OF that]
    by (auto simp: cf_createBinaryExpr_def intro!: run_rules split: option.split)
  have unary: "runs False I (cf_createUnaryExpr A B k x s) (within D)" if "I s" "within D x" for k x s
    using B(1,3) [OF that(1)] B(9) [OF that]
    by (cases k; cases "as_Constant x"; cases "as_Bool x") (simp_all add: cf_createUnaryExpr_def)
  show ?thesis
    by unfold_locales (auto simp: const_folding_builder_def cf_createConcat_def cf_createExtract_def
        cf_createZExt_def cf_createSExt_def cf_createIte_def Let_def
        intro: B binary unary split: option.split)
qed

subsection \<open>The layers that call themselves\<close>

lemma no_builder_frugal: "frugal_builder I D no_builder"
  by unfold_locales (simp_all add: no_builder_def)

locale frugal_layer = self: frugal_builder I D this + below: frugal_builder I D nxt
  for I :: "bst \<Rightarrow> bool" and D :: "nat set" and this nxt :: builder
begin

lemma common_concat_deps:
  assumes "I s" "within D l" "within D r"
  shows "runs False I (common_createConcat H this nxt l r s) (within D)"
proof -
  have "within D e" if "concat_adjacent l r = Some (e, i, n)" for e i n
    using that within_parts(2) [of l _ _ _ D] assms(2)
    by (auto simp: concat_adjacent_def split: option.splits if_splits)
  moreover have "within D e" if "concat_extended H l r = Some (e, n)" for e n
    using that within_parts(2) [of l _ _ _ D] assms(2)
    by (auto simp: concat_extended_def split: option.splits if_splits)
  ultimately show ?thesis
    using assms by (auto simp: common_createConcat_def intro: self.extract_deps below.concat_deps split: option.split)
qed

lemma common_extract_deps:
  assumes "I s" "within D e"
  shows "runs False I (common_createExtract this nxt e i n s) (within D)"
proof -
  define rest where "rest = (if i = 0 \<and> bits e = n then Some (e, s) else createExtract nxt e i n s)"
  have rest: "runs False I rest (within D)"
    using assms by (simp add: rest_def below.extract_deps)
  note def = common_createExtract_def [of this nxt e i n s, unfolded Let_def, folded rest_def]
  show ?thesis
  proof (cases "as_Concat e")
    case (Some p)
    then obtain l r where lr: "as_Concat e = Some (l, r)" "within D l" "within D r"
      using within_parts(1) assms(2) by (cases p) blast
    then show ?thesis
      using assms(1) rest
      by (auto simp: def intro!: runs_bind_pair [OF self.extract_deps] self.concat_deps self.extract_deps)
  next
    case cN: None
    show ?thesis
    proof (cases "as_Ext e")
      case (Some x)
      then show ?thesis
        using assms rest within_parts(3) [OF Some] cN by (simp add: def self.extract_deps self.const_deps)
    next
      case None
      then show ?thesis
        using assms rest within_parts(2) [of e _ _ _ D] cN
        by (auto simp: def self.extract_deps split: option.split)
    qed
  qed
qed

lemma common_bitwise_deps:
  assumes "I s" "within D l" "within D r"
    and simplify: "\<And>l r e. simplify l r = Some e \<Longrightarrow> e = l \<or> e = r"
  shows "runs False I (common_createBitwise k simplify this nxt l r s) (within D)"
proof -
  have simple: "within D e" if "simplify x y = Some e" "within D x" "within D y" for x y e
    using simplify that by blast
  show ?thesis
    using assms(1-3) within_parts(1) [of r _ _ D]
    by (auto simp: common_createBitwise_def intro!: runs_bind_pair [OF self.extract_deps]
        runs_bind_pair [OF self.binary_deps] self.concat_deps below.binary_deps
        intro: simple split: option.split)
qed

lemma common_shift_deps:
  assumes "I s" "within D l" "within D r"
  shows "runs False I (common_createShl this nxt l r s) (within D)"
    and "runs False I (common_createLShr this nxt l r s) (within D)"
    and "runs False I (common_createAShr nxt l r s) (within D)"
  using assms by (auto simp: common_createShl_def common_createLShr_def common_createAShr_def Let_def
      intro!: runs_bind_pair [OF self.extract_deps] runs_bind_pair [OF self.const_deps] self.const_deps
        self.concat_deps below.binary_deps split: option.split)

lemma common_binary_deps:
  assumes "I s" "within D l" "within D r"
  shows "runs False I (common_createBinaryExpr this nxt k l r s) (within D)"
proof -
  have "runs False I (common_createAdd nxt l r s) (within D)" "runs False I (common_createMul nxt l r s) (within D)"
    "runs False I (common_createEqual this nxt l r s) (within D)"
    using assms by (auto simp: common_createAdd_def common_createMul_def common_createEqual_def
        intro: below.binary_deps self.unary_deps split: option.split)
  moreover have "runs False I (common_createBitwise k simplifyAnd this nxt l r s) (within D)"
    "runs False I (common_createBitwise k simplifyOr this nxt l r s) (within D)"
    "runs False I (common_createBitwise k simplifyXor this nxt l r s) (within D)" for k
    using assms by (auto simp: simplifyAnd_def simplifyOr_def simplifyXor_def
        intro!: common_bitwise_deps split: if_splits)
  ultimately show ?thesis
    using common_shift_deps [OF assms] below.binary_deps [OF assms]
    by (cases k) (simp_all add: common_createBinaryExpr_def)
qed

end

lemma common_frugal:
  assumes "frugal_builder I D B"
  shows "frugal_builder I D (common_builder H n B)"
proof (induction n)
  case 0
  show ?case
    by (simp add: no_builder_frugal)
next
  case (Suc n)
  have L: "frugal_layer I D (common_builder H n B) B"
    using Suc assms by (simp add: frugal_layer_def)
  note B = frugal_builder.deps [OF assms] and laws = frugal_layer.common_concat_deps [OF L]
    frugal_layer.common_extract_deps [OF L] frugal_layer.common_binary_deps [OF L]
  have zext: "runs False I (common_createZExt (common_builder H n B) B x k s) (within D)"
    if "I s" "within D x" for x k s
    using that by (auto simp: common_createZExt_def intro: B frugal_builder.extract_deps [OF Suc])
  show ?case
    by unfold_locales (simp_all add: common_layer_def B laws zext)
qed

subsection \<open>Symbolic simplifications\<close>

context frugal_layer
begin

lemma symbolic_concat_deps:
  assumes "I s" "within D l" "within D r"
  shows "runs False I (symbolic_createConcat this nxt l r s) (within D)"
proof -
  define rest where "rest = (case as_Concat l of
          Some (x, y) \<Rightarrow> do { (yr, s) \<leftarrow> createConcat this y r s; createConcat this x yr s }
        | None \<Rightarrow> createConcat nxt l r s)"
  have "runs False I rest (within D)"
    using assms within_parts(1) [of l _ _ D]
    by (auto simp: rest_def intro!: runs_bind_pair [OF self.concat_deps] self.concat_deps below.concat_deps
        split: option.split)
  then show ?thesis
    using assms within_parts(1) [of r _ _ D]
    unfolding symbolic_createConcat_def Let_def rest_def [symmetric]
    by (auto intro!: runs_bind_pair [OF self.concat_deps] self.concat_deps split: option.split)
qed

lemma evaluate_deps:
  assumes "I s" "within D e"
  shows "runs False I (evaluateInDifferentType this e i n s) (\<lambda>x. x = None \<or> (\<exists>y. x = Some y \<and> within D y))"
  using assms by (cases e) (auto simp: evaluateInDifferentType_def intro!: run_rules
      runs_bind_pair [OF self.extract_deps] runs_bind_pair [OF self.binary_deps])

lemma symbolic_extract_deps:
  assumes "I s" "within D e"
  shows "runs False I (symbolic_createExtract this nxt e i n s) (within D)"
  unfolding symbolic_createExtract_def using assms
  by (auto intro!: run_rules runs_bind_pair [OF evaluate_deps] below.extract_deps)

lemma exclusive_loop_deps:
  "I s \<Longrightarrow> within D l \<Longrightarrow> within D r \<Longrightarrow> list_all (within D) es \<Longrightarrow>
   runs False I (exclusive_loop this l r fuel i es s) (list_all (within D))"
proof (induction fuel arbitrary: i es s)
  case 0
  then show ?case
    by (simp add: exclusive_loop.simps)
next
  case (Suc fuel)
  have half: "runs False I (if b then do { (e, s) \<leftarrow> createExtract this x i k s; Some (e # es, s) }
      else Some (es, s)) (list_all (within D))" if "I s" "within D x" "list_all (within D) es" for x i k s es b
    using that by (auto intro!: runs_bind_pair [OF self.extract_deps])
  show ?case
    apply (subst exclusive_loop.simps)
    apply (simp only: Let_def nat.case)
    apply (intro runs_if runs_bind_pair [OF half] Suc.IH)
    apply (use Suc.prems in simp_all)
    done
qed

lemma exclusive_deps:
  assumes "I s" "within D l" "within D r"
  shows "runs False I (simplifyExclusiveExpr this l r s) (\<lambda>x. x = None \<or> (\<exists>y. x = Some y \<and> within D y))"
  unfolding simplifyExclusiveExpr_def using assms
  by (auto intro!: run_rules runs_bind_pair [OF exclusive_loop_deps] runs_bind_pair [OF self.concat_list_deps])

text \<open>The nested calls of the rules.\<close>

lemma symbolic_add_deps:
  assumes "I s" "within D l" "within D r"
  shows "runs False I (createAdd_const this nxt l r s) (within D)"
    and "runs False I (createAdd_nonconst this nxt l r s) (within D)"
proof -
  note c = within_const(1,2) [where D = D]
  show "runs False I (createAdd_const this nxt l r s) (within D)"
    using assms c [of _ r]
    by (auto simp: createAdd_const_def intro!: self.call_deps below.binary_deps split: option.split)
  have shape: "runs False I ((case const_first Add r of
           Some (c, y) \<Rightarrow> call_right this Add c Add l y
         | None \<Rightarrow> (case const_second Add r of
           Some (y, c) \<Rightarrow> call_right this Add c Add l y
         | None \<Rightarrow> (case const_first Sub r of
           Some (c, y) \<Rightarrow> call_right this Add c Sub l y
         | None \<Rightarrow> (case const_second Sub r of
           Some (y, c) \<Rightarrow> call_neg this Add c Add l y
         | None \<Rightarrow> createBinaryExpr nxt Add l r)))) s) (within D)" if "within D l" "within D r" for l r
    using that assms(1) c [of _ r]
    by (auto intro!: self.call_deps below.binary_deps split: option.split)
  show "runs False I (createAdd_nonconst this nxt l r s) (within D)"
    using shape [OF assms(2,3)] shape [OF assms(3,2)] assms
    by (auto simp: createAdd_nonconst_def Let_def intro!: runs_bind_pair [OF self.const_deps] self.binary_deps)
qed

lemma symbolic_sub_deps:
  assumes "I s" "within D l" "within D r"
  shows "runs False I (symbolic_createSub this nxt l r s) (within D)"
proof -
  note c = within_const(1,2) [where D = D]
  have "runs False I (createSub_const this nxt l r s) (within D)"
    using assms c [of _ r]
    by (auto simp: createSub_const_def intro!: self.call_deps below.binary_deps split: option.split)
  moreover have "runs False I (createSub_nonconst this nxt l r s) (within D)"
    using assms c [of _ r] c [of _ l]
    by (auto simp: createSub_nonconst_def intro!: self.call_deps self.const_deps below.binary_deps split: option.split)
  ultimately show ?thesis
    using below.binary_deps [OF assms] by (simp add: symbolic_createSub_def)
qed

lemma symbolic_mul_deps:
  assumes "I s" "within D l" "within D r"
  shows "runs False I (symbolic_createMul this nxt l r s) (within D)"
  using assms within_const(1) [where D = D and e = r]
  by (auto simp: symbolic_createMul_def intro!: self.call_deps self.call_both_deps below.binary_deps split: option.split)

lemma symbolic_div_deps:
  assumes "I s" "within D l" "within D r"
  shows "runs False I (symbolic_createSDiv this nxt l r s) (within D)"
    and "runs False I (symbolic_createUDiv this nxt l r s) (within D)"
proof -
  have rest: "runs False I (case const_second k l of
          Some (x, c) \<Rightarrow> call_right this k x Mul c r s | None \<Rightarrow> createBinaryExpr nxt k l r s) (within D)" for k
    using assms within_const(2) [where D = D and e = l]
    by (auto intro!: self.call_deps below.binary_deps split: option.split)
  show "runs False I (symbolic_createSDiv this nxt l r s) (within D)"
    using assms rest [of SDiv] within_parts(4) [of l _ D] below.binary_deps [OF assms]
    unfolding symbolic_createSDiv_def createSDiv_const_def Let_def
    by (auto intro!: runs_bind_pair [OF self.extract_deps] runs_bind_pair [OF self.binary_deps] self.sext_deps
        self.unary_deps split: option.split)
  show "runs False I (symbolic_createUDiv this nxt l r s) (within D)"
    using assms rest [of UDiv] within_parts(1) [of l _ _ D] below.binary_deps [OF assms]
    unfolding symbolic_createUDiv_def createUDiv_const_def Let_def
    by (auto intro!: runs_bind_pair [OF self.extract_deps] runs_bind_pair [OF self.binary_deps] self.concat_deps
        split: option.split)
qed

lemma symbolic_bitwise_deps:
  assumes "I s" "within D l" "within D r"
  shows "runs False I (bitwise_nonconst k this nxt l r s) (within D)"
    and "runs False I (createOr_const this nxt l r s) (within D)"
  using assms within_const(3) [of l r _ _ _ _ D] within_parts(1) [of r _ _ D]
  by (auto simp: bitwise_nonconst_def createOr_const_def intro!: runs_bind_pair [OF self.extract_deps]
      runs_bind_pair [OF self.binary_deps] self.concat_deps below.binary_deps split: option.split)

lemma symbolic_or_deps:
  assumes "I s" "within D l" "within D r"
  shows "runs False I (symbolic_createAdd this nxt l r s) (within D)"
    and "runs False I (symbolic_createOr this nxt l r s) (within D)"
  unfolding symbolic_createAdd_def symbolic_createOr_def using assms
  by (auto intro!: run_rules runs_bind_pair [OF exclusive_deps] symbolic_add_deps symbolic_bitwise_deps below.binary_deps)

lemma symbolic_binary_deps:
  assumes "I s" "within D l" "within D r"
  shows "runs False I (symbolic_createBinaryExpr this nxt k l r s) (within D)"
proof -
  have "runs False I (symbolic_createAnd this nxt l r s) (within D)"
    "runs False I (symbolic_createXor this nxt l r s) (within D)"
    "runs False I (symbolic_createEqual this nxt l r s) (within D)"
    using assms by (auto simp: symbolic_createAnd_def symbolic_createXor_def symbolic_createEqual_def createTrue_def
        intro: symbolic_bitwise_deps below.binary_deps self.const_deps self.bool_deps)
  moreover have "runs False I (symbolic_createLOr this nxt l r s) (within D)"
    "runs False I (symbolic_createLAnd this nxt l r s) (within D)"
    using assms by (auto simp: symbolic_createLOr_def symbolic_createLAnd_def createTrue_def createFalse_def
        intro: below.binary_deps self.bool_deps split: option.split)
  moreover have "runs False I (symbolic_createDistinct this l r s) (within D)"
    using assms by (auto simp: symbolic_createDistinct_def intro!: runs_bind_pair [OF self.binary_deps] self.unary_deps)
  ultimately show ?thesis
    using symbolic_or_deps [OF assms] symbolic_sub_deps [OF assms] symbolic_mul_deps [OF assms]
      symbolic_div_deps [OF assms] below.binary_deps [OF assms]
    by (cases k) (simp_all add: symbolic_createBinaryExpr_def)
qed

lemma symbolic_unary_deps:
  assumes "I s" "within D x"
  shows "runs False I (symbolic_createUnaryExpr this nxt k x s) (within D)"
  using assms within_parts(5) [of x _ D]
  by (auto simp: symbolic_createUnaryExpr_def symbolic_createLNot_def intro: below.unary_deps self.bool_deps split: option.split)

lemma symbolic_ite_deps:
  assumes "I s" "within D c" "within D x" "within D y"
  shows "runs False I (symbolic_createIte this nxt c x y s) (within D)"
  using assms within_parts(5) [of c _ D]
  by (auto simp: symbolic_createIte_def intro: below.ite_deps self.ite_deps split: option.split)

end

lemma symbolic_frugal:
  assumes "frugal_builder I D B"
  shows "frugal_builder I D (symbolic_builder n B)"
proof (induction n)
  case 0
  show ?case
    by (simp add: no_builder_frugal)
next
  case (Suc n)
  have L: "frugal_layer I D (symbolic_builder n B) B"
    using Suc assms by (simp add: frugal_layer_def)
  note B = frugal_builder.deps [OF assms] and laws = frugal_layer.symbolic_concat_deps [OF L]
    frugal_layer.symbolic_extract_deps [OF L] frugal_layer.symbolic_unary_deps [OF L]
    frugal_layer.symbolic_binary_deps [OF L] frugal_layer.symbolic_ite_deps [OF L]
  show ?case
    by unfold_locales (simp_all add: symbolic_layer_def B laws)
qed

lemma commutative_frugal:
  assumes "frugal_builder I D B"
  shows "frugal_builder I D (commutative_builder B)"
proof -
  note B = frugal_builder.deps [OF assms]
  have binary: "runs False I (createBinaryExpr (commutative_builder B) k l r s) (within D)"
    if "I s" "within D l" "within D r" for k l r s
    using that
    by (auto simp: commutative_builder_def commutative_binary intro!: runs_bind_pair [OF B(9)] B(10))
  show ?thesis
    by unfold_locales (simp_all add: binary, simp_all add: commutative_builder_def commutative_layer_def B)
qed

lemma symbolic_stack_frugal: "frugal_builder (\<lambda>_. True) D (SymbolicExprBuilder_create E m n)"
  unfolding SymbolicExprBuilder_create_def cached_base_def
  by (intro commutative_frugal symbolic_frugal common_frugal cf_frugal cache_frugal base_frugal) simp_all

subsection \<open>The stacks meet their contracts\<close>

text \<open>
  \<open>apint_ok\<close> is what LLVM documents; \<open>bv_api\<close> computes it. Below the two builders that call
  themselves stands the folding stack.
\<close>

definition below_symbolic :: "env \<Rightarrow> nat \<Rightarrow> builder" where
  "below_symbolic E m = common_builder (expr_digest E) m (const_folding_builder (apint E) (cached_base E))"

interpretation symbolic: sound_builder False False \<rho> "\<lambda>_. True"
  "SymbolicExprBuilder_create (E\<lparr>apint := bv_api\<rparr>) m n" for \<rho> E m n
  by (rule symbolic_stack_sound) (simp add: bv_api_ok)

interpretation symbolic_deps: frugal_builder "\<lambda>_. True" D "SymbolicExprBuilder_create E m n" for D E m n
  by (rule symbolic_stack_frugal)

interpretation symbolic_layer: layer False False \<rho> "\<lambda>_. True"
  "symbolic_builder n (below_symbolic (E\<lparr>apint := bv_api\<rparr>) m)" "below_symbolic (E\<lparr>apint := bv_api\<rparr>) m" for \<rho> E m n
  unfolding layer_def below_symbolic_def
  by (intro conjI symbolic_sound common_sound folding_stack_sound) (simp_all add: bv_api_ok)

interpretation symbolic_deps_layer: frugal_layer "\<lambda>_. True" D
  "symbolic_builder n (below_symbolic E m)" "below_symbolic E m" for D E m n
  unfolding frugal_layer_def below_symbolic_def cached_base_def
  by (intro conjI symbolic_frugal common_frugal cf_frugal cache_frugal base_frugal) simp_all

subsection \<open>A quotient that changes\<close>

text \<open>
  \<open>symbolic_createUDiv\<close> turns \<open>(x / a) / b\<close> into \<open>x / (a * b)\<close>. The product of the constants is
  taken in their width; when it overflows the quotient is another one.
\<close>

definition quotient_state :: bst where
  "quotient_state = \<lparr>next_oid = 10, read_cache = (\<lambda>_. None), expr_cache = ExprCache, clock = 0,
     csm = CallStackManager 0 [], evaluation = (\<lambda>_. None)\<rparr>"

definition quotient_env :: env where
  "quotient_env = \<lparr>apint = bv_api, expr_digest = (\<lambda>_. 0), expired = (\<lambda>_ _. False), xxh = (\<lambda>_. 0)\<rparr>"

lemma symbolic_binary_Suc:
  "createBinaryExpr (symbolic_builder (Suc n) B) = symbolic_createBinaryExpr (symbolic_builder n B) B"
  by (simp add: symbolic_layer_def)

lemma common_binary_Suc:
  "createBinaryExpr (common_builder H (Suc n) B) = common_createBinaryExpr (common_builder H n B) B"
  by (simp add: common_layer_def)

lemma folding_binary: "createBinaryExpr (const_folding_builder A B) = cf_createBinaryExpr A B"
  by (simp add: const_folding_builder_def)

lemma quotient_product:
  fixes m n :: nat
  defines "C \<equiv> const_folding_builder (apint quotient_env) (cached_base quotient_env)"
  defines "M \<equiv> common_builder (expr_digest quotient_env) (Suc m) C"
  shows "\<exists>s. createBinaryExpr (SymbolicExprBuilder_create quotient_env (Suc m) (Suc (Suc n))) UDiv
     (BinaryExpr 2 UDiv (ReadExpr 0 0) (ConstantExpr 1 16 8)) (ConstantExpr 3 17 8) quotient_state =
   Some (BinaryExpr 11 UDiv (ReadExpr 0 0) (ConstantExpr 10 16 8), s)"
proof -
  let ?x = "ReadExpr 0 0" and ?c = "ConstantExpr 1 16 8" and ?d = "ConstantExpr 3 17 8" and ?p = "ConstantExpr 10 16 8"
  let ?s1 = "quotient_state\<lparr>next_oid := 11\<rparr>"
  have "createBinaryExpr C Mul ?c ?d quotient_state = Some (?p, ?s1)"
    by (simp add: C_def folding_binary cf_createBinaryExpr_def quotient_env_def bv_api_def cached_base_def cache_builder_def
        base_builder_def make_shared_def quotient_state_def take_bit_eq_mod)
  then have "createBinaryExpr M Mul ?c ?d quotient_state = Some (?p, ?s1)"
    by (simp add: M_def common_binary_Suc common_createBinaryExpr_def common_createMul_def isZero_def isOne_def del: common_builder.simps)
  then have mul: "createBinaryExpr (symbolic_builder (Suc n) M) Mul ?c ?d quotient_state = Some (?p, ?s1)"
    by (simp add: symbolic_binary_Suc symbolic_createBinaryExpr_def symbolic_createMul_def isConstant_def del: symbolic_builder.simps)
  have "createBinaryExpr C UDiv ?x ?p ?s1 =
      do { (e, s) \<leftarrow> base_createBinaryExpr UDiv ?x ?p ?s1; findOrInsert quotient_env e s }"
    by (simp add: C_def folding_binary cf_createBinaryExpr_def cached_base_def cache_builder_def base_builder_def)
  moreover have "\<exists>s. (do { (e, s) \<leftarrow> base_createBinaryExpr UDiv ?x ?p ?s1; findOrInsert quotient_env e s }) =
      Some (BinaryExpr 11 UDiv ?x ?p, s)"
    by (simp add: base_createBinaryExpr_def binaryKind_def make_shared_def quotient_state_def findOrInsert_def
        findInCache_def find_def set_find_def ExprCache_def)
  moreover have "createBinaryExpr M UDiv ?x ?p ?s1 = createBinaryExpr C UDiv ?x ?p ?s1"
    by (simp add: M_def common_binary_Suc common_createBinaryExpr_def del: common_builder.simps)
  moreover have "createBinaryExpr (symbolic_builder (Suc n) M) UDiv ?x ?p ?s1 = createBinaryExpr M UDiv ?x ?p ?s1"
    by (simp add: symbolic_binary_Suc symbolic_createBinaryExpr_def symbolic_createUDiv_def createUDiv_const_def const_second_def
        isConstant_def Let_def del: symbolic_builder.simps)
  ultimately have udiv: "\<exists>s. createBinaryExpr (symbolic_builder (Suc n) M) UDiv ?x ?p ?s1 = Some (BinaryExpr 11 UDiv ?x ?p, s)"
    by simp
  have "createBinaryExpr (symbolic_builder (Suc (Suc n)) M) UDiv (BinaryExpr 2 UDiv ?x ?c) ?d quotient_state =
      call_right (symbolic_builder (Suc n) M) UDiv ?x Mul ?c ?d quotient_state"
    by (simp add: symbolic_binary_Suc symbolic_createBinaryExpr_def symbolic_createUDiv_def createUDiv_const_def const_second_def
        isConstant_def Let_def del: symbolic_builder.simps)
  then have "\<exists>s. createBinaryExpr (symbolic_builder (Suc (Suc n)) M) UDiv (BinaryExpr 2 UDiv ?x ?c) ?d quotient_state =
      Some (BinaryExpr 11 UDiv ?x ?p, s)"
    using mul udiv by (simp add: call_right_def)
  then show ?thesis
    by (simp add: SymbolicExprBuilder_create_def commutative_builder_def commutative_binary isConstant_def
        M_def [symmetric] C_def [symmetric] del: symbolic_builder.simps common_builder.simps)
qed

lemma quotient_differs:
  "den True (\<lambda>_. 255) (BinaryExpr 11 UDiv (ReadExpr 0 0) (ConstantExpr 10 16 8)) = Some (BV 8 15)"
  "den True (\<lambda>_. 255) (BinaryExpr 2 UDiv (ReadExpr 0 0) (ConstantExpr 1 16 8)) = Some (BV 8 15)"
  "sem_binary True UDiv (BV 8 15) (BV 8 17) = Some (BV 8 0)"
proof -
  have "uint (255 :: 8 word) = 255"
    by code_simp
  then show "den True (\<lambda>_. 255) (BinaryExpr 11 UDiv (ReadExpr 0 0) (ConstantExpr 10 16 8)) = Some (BV 8 15)"
    "den True (\<lambda>_. 255) (BinaryExpr 2 UDiv (ReadExpr 0 0) (ConstantExpr 1 16 8)) = Some (BV 8 15)"
    by (simp_all only: den.simps Option.bind.simps sem_const.simps) (simp_all add: compareKind_def)
qed (simp add: compareKind_def)

end
