(* ===== verification/SolverFlip.thy ===== *)
theory SolverFlip
  imports SolverSound BuilderDeps
begin

section \<open>Test cases follow the path\<close>

text \<open>
  What the assertions of \<open>syncConstraints\<close> say, and what a model that Z3 finds for them means: an
  input that takes every recorded branch in the recorded direction and the branch that is
  negated in the other. The model fixes bytes of the slice only; the branches outside the slice
  do not depend on them.
\<close>

subsection \<open>Assertions and models\<close>

text \<open>The answer of a term, when it has a meaning under the assignment.\<close>

definition zsem :: "bool \<Rightarrow> assignment \<Rightarrow> zconstraint \<Rightarrow> bool option" where
  "zsem dv \<rho> c = (case c of
     Holds x \<Rightarrow> (case den dv \<rho> x of Some (BoolV p) \<Rightarrow> Some p | _ \<Rightarrow> None)
   | Value_eq x v \<Rightarrow> (case den dv \<rho> x of Some (BV n y) \<Rightarrow> Some (y = v) | _ \<Rightarrow> None)
   | Value_ne x v \<Rightarrow> (case den dv \<rho> x of Some (BV n y) \<Rightarrow> Some (y \<noteq> v) | _ \<Rightarrow> None)
   | Value_ult x v \<Rightarrow> (case den dv \<rho> x of Some (BV n y) \<Rightarrow> Some (y < v) | _ \<Rightarrow> None)
   | Value_ugt x v \<Rightarrow> (case den dv \<rho> x of Some (BV n y) \<Rightarrow> Some (v < y) | _ \<Rightarrow> None))"

fun zterm :: "zconstraint \<Rightarrow> expr" where
  "zterm (Holds x) = x"
| "zterm (Value_eq x v) = x"
| "zterm (Value_ne x v) = x"
| "zterm (Value_ult x v) = x"
| "zterm (Value_ugt x v) = x"

lemma zsem_Holds: "den dv \<rho> x = Some (BoolV p) \<Longrightarrow> zsem dv \<rho> (Holds x) = Some p"
  by (simp add: zsem_def)

text \<open>
  What Z3 documents of a model: it gives a value to each of some constants of the assertions,
  and however the other bytes are chosen, the assertions hold. It is only asked of assignments
  under which all terms have a meaning here, since Z3 gives a meaning to a division by zero, too.
\<close>

definition agrees :: "(nat \<times> int) list \<Rightarrow> assignment \<Rightarrow> bool" where
  "agrees m \<rho> \<longleftrightarrow> (\<forall>(i, v) \<in> set m. \<rho> i = word_of_int v)"

definition z3_ok :: "bool \<Rightarrow> solver_env \<Rightarrow> bool" where
  "z3_ok dv E \<longleftrightarrow> (\<forall>k cs m. z3_check E k cs = sat m \<longrightarrow>
     distinct (map fst m) \<and> fst ` set m \<subseteq> (\<Union>c \<in> set cs. getDeps (zterm c)) \<and>
     (\<forall>\<rho>. agrees m \<rho> \<longrightarrow> (\<forall>c \<in> set cs. zsem dv \<rho> c \<noteq> None) \<longrightarrow> (\<forall>c \<in> set cs. zsem dv \<rho> c = Some True)))"

lemma store_values_spec:
  "store_values m inp = Some vals \<Longrightarrow> distinct (map fst m) \<Longrightarrow>
   length vals = length inp \<and> agrees m (input_of vals) \<and> (\<forall>i. i \<notin> fst ` set m \<longrightarrow> vals ! i = inp ! i)"
proof (induction m arbitrary: inp)
  case (Cons p m)
  obtain i v where p: "p = (i, v)"
    by (cases p)
  have "i < length inp" and "store_values m (inp[i := word_of_int v]) = Some vals"
    using Cons.prems(1) p by (simp_all add: assert_def split: if_splits)
  moreover from Cons.IH [OF this(2)] Cons.prems(2) have IH: "length vals = length inp"
    "agrees m (input_of vals)" "\<And>j. j \<notin> fst ` set m \<Longrightarrow> vals ! j = inp[i := word_of_int v] ! j"
    by simp_all
  moreover have "i \<notin> fst ` set m"
    using Cons.prems(2) p by simp
  ultimately show ?case
    using p by (auto simp: agrees_def input_of_def)
qed (simp add: agrees_def)

text \<open>
  A step that only builds expressions and asserts: what it asserts depends on bytes of \<open>D\<close>, and
  under an assignment with \<open>M\<close> it has a meaning, and holds just if \<open>Q\<close>.
\<close>

definition asserts ::
  "bool \<Rightarrow> nat set \<Rightarrow> (assignment \<Rightarrow> bool) \<Rightarrow> (assignment \<Rightarrow> bool) \<Rightarrow> solver \<Rightarrow> solver \<Rightarrow> bool" where
  "asserts dv D M Q s s' \<longleftrightarrow> (\<exists>zs b fs. s' = s\<lparr>bs := b, frames := fs\<rparr> \<and> asserted s' = asserted s @ zs \<and>
     (\<forall>z \<in> set zs. within D (zterm z)) \<and>
     (\<forall>\<rho>. M \<rho> \<longrightarrow> (\<forall>z \<in> set zs. zsem dv \<rho> z \<noteq> None) \<and> ((\<forall>z \<in> set zs. zsem dv \<rho> z = Some True) \<longleftrightarrow> Q \<rho>)))"

lemma asserts_nothing: "only_bs s s' \<Longrightarrow> (\<And>\<rho>. M \<rho> \<Longrightarrow> Q \<rho>) \<Longrightarrow> asserts dv D M Q s s'"
proof -
  assume "only_bs s s'" and Q: "\<And>\<rho>. M \<rho> \<Longrightarrow> Q \<rho>"
  then obtain b where "s' = s\<lparr>bs := b\<rparr>"
    unfolding only_bs_def by blast
  then have "s' = s\<lparr>bs := b, frames := frames s\<rparr>" "asserted s' = asserted s @ []"
    by (simp_all add: asserted_def)
  with Q show "asserts dv D M Q s s'"
    unfolding asserts_def by (metis empty_iff list.set(1))
qed

lemma asserts_trans:
  assumes "asserts dv D M Q s s'" "asserts dv D' M' Q' s' s''"
  shows "asserts dv (D \<union> D') (\<lambda>\<rho>. M \<rho> \<and> M' \<rho>) (\<lambda>\<rho>. Q \<rho> \<and> Q' \<rho>) s s''"
proof -
  obtain zs b fs where 1: "s' = s\<lparr>bs := b, frames := fs\<rparr>" "asserted s' = asserted s @ zs"
    "\<And>z. z \<in> set zs \<Longrightarrow> within D (zterm z)"
    "\<And>\<rho>. M \<rho> \<Longrightarrow> (\<forall>z \<in> set zs. zsem dv \<rho> z \<noteq> None) \<and> ((\<forall>z \<in> set zs. zsem dv \<rho> z = Some True) \<longleftrightarrow> Q \<rho>)"
    using assms(1) unfolding asserts_def by blast
  obtain zs' b' fs' where 2: "s'' = s'\<lparr>bs := b', frames := fs'\<rparr>" "asserted s'' = asserted s' @ zs'"
    "\<And>z. z \<in> set zs' \<Longrightarrow> within D' (zterm z)"
    "\<And>\<rho>. M' \<rho> \<Longrightarrow> (\<forall>z \<in> set zs'. zsem dv \<rho> z \<noteq> None) \<and> ((\<forall>z \<in> set zs'. zsem dv \<rho> z = Some True) \<longleftrightarrow> Q' \<rho>)"
    using assms(2) unfolding asserts_def by blast
  have "within (D \<union> D') (zterm z)" if "z \<in> set (zs @ zs')" for z
    using 1(3) [of z] 2(3) [of z] that by (auto simp: within_def)
  moreover have "(\<forall>z \<in> set (zs @ zs'). zsem dv \<rho> z \<noteq> None) \<and>
      ((\<forall>z \<in> set (zs @ zs'). zsem dv \<rho> z = Some True) \<longleftrightarrow> Q \<rho> \<and> Q' \<rho>)" if "M \<rho> \<and> M' \<rho>" for \<rho>
    using 1(4) [of \<rho>] 2(4) [of \<rho>] that by auto
  ultimately show ?thesis
    unfolding asserts_def
    by (intro exI [of _ "zs @ zs'"] exI [of _ b'] exI [of _ fs']) (simp add: 1(1) 2(1), use 1(1,2) 2(1,2) in simp)
qed

lemma asserts_mono:
  "asserts dv D M Q s s' \<Longrightarrow> D \<subseteq> D' \<Longrightarrow> (\<And>\<rho>. M' \<rho> \<Longrightarrow> M \<rho> \<and> (Q \<rho> \<longleftrightarrow> Q' \<rho>)) \<Longrightarrow> asserts dv D' M' Q' s s'"
  unfolding asserts_def within_def by (elim ex_forward conj_forward all_forward) blast+

lemma asserts_same:
  "asserts dv D M Q s s' \<Longrightarrow> rsets s' = rsets s \<and> dep_forest s' = dep_forest s \<and> testcases s' = testcases s \<and>
     checks s' = checks s \<and> num_generated s' = num_generated s \<and> trace s' = trace s"
  by (auto simp: asserts_def)

subsection \<open>One assertion\<close>

lemma asserted_z3_add: "asserted (z3_add c s) = asserted s @ [c]"
  by (cases "frames s") (simp_all add: z3_add_def asserted_def)

text \<open>\<open>add\<close> leaves out a term that is \<open>true\<close> or \<open>false\<close>; the second is a constraint that is lost.\<close>

lemma add_asserts:
  assumes "within D x" and M: "\<And>\<rho>. M \<rho> \<Longrightarrow> den dv \<rho> x = Some (BoolV (Q \<rho>))" and "M \<sigma>" "Q \<sigma>"
  shows "asserts dv D M Q s (add (Holds x) s)"
proof (cases "\<exists>i b. x = BoolExpr i b")
  case True
  then obtain i b where x: "x = BoolExpr i b"
    by blast
  have Q: "M \<rho> \<Longrightarrow> Q \<rho> = b" for \<rho>
    using M [of \<rho>] x by simp
  with assms(3,4) have "M \<rho> \<Longrightarrow> Q \<rho>" for \<rho>
    by blast
  then show ?thesis
    using x by (auto simp: add_def intro: asserts_nothing)
next
  case False
  then have "add (Holds x) s = z3_add (Holds x) s"
    by (cases x) (simp_all add: add_def)
  moreover have "z3_add (Holds x) s = s\<lparr>bs := bs s, frames := frames (z3_add (Holds x) s)\<rparr>"
    by (simp add: z3_add_def)
  moreover have "M \<rho> \<Longrightarrow> zsem dv \<rho> (Holds x) = Some (Q \<rho>)" for \<rho>
    using M zsem_Holds by blast
  ultimately show ?thesis
    unfolding asserts_def using assms(1)
    by (intro exI [of _ "[Holds x]"] exI [of _ "bs s"] exI [of _ "frames (z3_add (Holds x) s)"])
      (simp add: asserted_z3_add)
qed

definition frugal :: "builder \<Rightarrow> bool" where
  "frugal B \<longleftrightarrow> (\<forall>D. frugal_builder (\<lambda>_. True) D B)"

lemma frugal_unary:
  "frugal B \<Longrightarrow> build (createUnaryExpr B k x) s = Some (e, s') \<Longrightarrow> within D x \<Longrightarrow> within D e"
  using frugal_builder.unary_deps build_runs unfolding frugal_def by metis

lemma frugal_binary:
  "frugal B \<Longrightarrow> build (createBinaryExpr B k x y) s = Some (e, s') \<Longrightarrow> within D x \<Longrightarrow> within D y \<Longrightarrow> within D e"
  using frugal_builder.binary_deps build_runs unfolding frugal_def by metis

lemma frugal_constAP: "frugal B \<Longrightarrow> build (createConstantAP B z n) s = Some (e, s') \<Longrightarrow> within D e"
  using frugal_builder.constAP_deps build_runs unfolding frugal_def by metis

lemma addToSolver_asserts:
  assumes B: "builder_ok dv (g_expr_builder E)" and F: "frugal (g_expr_builder E)" and D: "within D x"
    and M: "\<And>\<rho>. M \<rho> \<Longrightarrow> den dv \<rho> x = Some (BoolV (Q \<rho>))" and "M \<sigma>" "Q \<sigma> = t"
    and run: "addToSolver E x t s = Some s'"
  shows "asserts dv D M (\<lambda>\<rho>. Q \<rho> = t) s s'"
proof (cases t)
  case True
  then show ?thesis
    using run add_asserts [OF D, of M dv Q \<sigma> s] M assms(5,6) by (auto simp: addToSolver_def)
next
  case False
  then obtain y s1 where y: "build (createUnaryExpr (g_expr_builder E) LNot x) s = Some (y, s1)"
    and s': "s' = add (Holds y) s1"
    using run by (auto simp: addToSolver_def Option.bind_eq_Some_conv)
  have y_den: "den dv \<rho> y = Some (BoolV (\<not> Q \<rho>))" if "M \<rho>" for \<rho>
    by (rule built_unary [OF B y M [OF that]]) simp
  have "asserts dv D M (\<lambda>\<rho>. \<not> Q \<rho>) s1 s'"
    unfolding s' by (rule add_asserts [where \<sigma> = \<sigma>]) (use frugal_unary [OF F y D] y_den assms(5,6) False in simp_all)
  moreover have "asserts dv {} (\<lambda>_. True) (\<lambda>_. True) s s1"
    by (rule asserts_nothing [OF build_only_bs [OF y]]) simp
  ultimately show ?thesis
    using asserts_trans [of dv "{}" "\<lambda>_. True" "\<lambda>_. True" s s1] False by simp
qed

subsection \<open>The assertions of a node\<close>

text \<open>What \<open>syncConstraints\<close> asserts of a node: that it holds, or that its value is in its ranges.\<close>

definition node_holds :: "bool \<Rightarrow> (expr \<Rightarrow> range_sets) \<Rightarrow> assignment \<Rightarrow> expr \<Rightarrow> bool" where
  "node_holds dv R \<rho> n \<longleftrightarrow> (isRelational n \<longrightarrow> den dv \<rho> n = Some (BoolV True)) \<and>
     (\<forall>x. den dv \<rho> n = Some (BV (bits n) x) \<longrightarrow> allows (bits n) (R n) x)"

lemma range_bound_within:
  assumes F: "frugal (g_expr_builder E)" and e: "within D e" and run: "range_bound E u e V i s = Some (x, s')"
  shows "within D x"
proof (cases "fst i = snd i")
  case True
  with run obtain imm s1 where "build (createConstantAP (g_expr_builder E) (aps_bits V (fst i)) (bits e)) s = Some (imm, s1)"
    and "build (createBinaryExpr (g_expr_builder E) Equal e imm) s1 = Some (x, s')"
    by (auto simp: range_bound_def Let_def Option.bind_eq_Some_conv)
  then show ?thesis
    using frugal_constAP [OF F] frugal_binary [OF F] e by blast
next
  case False
  with run obtain l u' lb ub s1 s2 s3 s4
    where *: "build (createConstantAP (g_expr_builder E) (aps_bits V (fst i)) (bits e)) s = Some (l, s1)"
      "build (createConstantAP (g_expr_builder E) (aps_bits V (snd i)) (bits e)) s1 = Some (u', s2)"
      "build (createBinaryExpr (g_expr_builder E) (if u then Uge else Sge) e l) s2 = Some (lb, s3)"
      "build (createBinaryExpr (g_expr_builder E) (if u then Ule else Sle) e u') s3 = Some (ub, s4)"
      "build (createBinaryExpr (g_expr_builder E) LAnd lb ub) s4 = Some (x, s')"
    by (auto simp: range_bound_def Let_def Option.bind_eq_Some_conv)
  have "within D lb" "within D ub"
    using frugal_binary [OF F *(3) e frugal_constAP [OF F *(1)]]
      frugal_binary [OF F *(4) e frugal_constAP [OF F *(2)]] by blast+
  then show ?thesis
    by (rule frugal_binary [OF F *(5)])
qed

lemma range_loop_within:
  assumes F: "frugal (g_expr_builder E)" and e: "within D e"
  shows "range_loop E u e V is acc s = Some (Some x, s') \<Longrightarrow> (\<And>y. acc = Some y \<Longrightarrow> within D y) \<Longrightarrow> within D x"
proof (induction "is" arbitrary: acc s)
  case (Cons i "is")
  obtain b s1 new s2 where b: "range_bound E u e V i s = Some (b, s1)"
    and new: "(case acc of None \<Rightarrow> Some (b, s1)
      | Some x \<Rightarrow> build (createBinaryExpr (g_expr_builder E) LOr x b) s1) = Some (new, s2)"
    and rest: "range_loop E u e V is (Some new) s2 = Some (Some x, s')"
    using Cons.prems(1) by (auto simp: Option.bind_eq_Some_conv)
  have "within D new"
    using new range_bound_within [OF F e b] Cons.prems(2) frugal_binary [OF F] by (cases acc) auto
  then show ?case
    using Cons.IH [OF rest] by simp
qed simp

lemma getRangeConstraint_within:
  "frugal (g_expr_builder E) \<Longrightarrow> within D e \<Longrightarrow> getRangeConstraint E e u s = Some (Some x, s') \<Longrightarrow> within D x"
  by (auto simp: getRangeConstraint_def dest: range_loop_within split: option.splits)

lemma sync_range_law:
  assumes B: "builder_ok dv (g_expr_builder E)" and F: "frugal (g_expr_builder E)"
    and ok: "range_sets_ok (bits n) (rsets s n)" and n: "den dv \<rho>0 n = Some (BV (bits n) x0)"
    and x0: "allows (bits n) (rsets s n) x0" and D: "within D n" and run: "sync_range E n u s = Some s'"
  shows "asserts dv D (\<lambda>\<rho>. \<exists>x. den dv \<rho> n = Some (BV (bits n) x))
    (\<lambda>\<rho>. \<forall>x S. den dv \<rho> n = Some (BV (bits n) x) \<longrightarrow> getRangeSet u (rsets s n) = Some S \<longrightarrow>
       aps_read (factory u (bits n)) x \<in> members (ranges S)) s s'" (is "asserts dv D ?M ?Q s s'")
proof -
  obtain r s1 where r: "getRangeConstraint E n u s = Some (r, s1)"
    and rest: "(case r of None \<Rightarrow> Some s1 | Some r \<Rightarrow> addToSolver E r True s1) = Some s'"
    using run by (auto simp: sync_range_def Option.bind_eq_Some_conv)
  have pos: "0 < bits n"
    using den_BV [OF n] by blast
  note law = getRangeConstraint_law [OF B ok pos r]
  show ?thesis
  proof (cases r)
    case None
    have "getRangeSet u (rsets s n) \<noteq> Some S" for S
      using law(2) None x0 unfolding allows_def by (metis empty_iff members_simps(1))
    with None rest law(1) show ?thesis
      by (auto intro: asserts_nothing)
  next
    case (Some c)
    then obtain S where S: "getRangeSet u (rsets s n) = Some S"
      using law(2) by blast
    have c: "den dv \<rho> c = Some (BoolV (?Q \<rho>))" if m: "?M \<rho>" for \<rho>
    proof -
      obtain x where x: "den dv \<rho> n = Some (BV (bits n) x)"
        using m by blast
      from law(3) [OF Some x S] show ?thesis
        using x S by simp
    qed
    have "?Q \<rho>0"
      using n x0 by (simp add: allows_def)
    then have "asserts dv D ?M (\<lambda>\<rho>. ?Q \<rho> = True) s1 s'"
      by (intro addToSolver_asserts [where \<sigma> = \<rho>0 and M = ?M and Q = ?Q and x = c and E = E])
        (use B F c n rest Some getRangeConstraint_within [OF F D r [unfolded Some]] in simp_all)
    moreover have "asserts dv {} (\<lambda>_. True) (\<lambda>_. True) s s1"
      by (rule asserts_nothing [OF law(1)]) simp
    ultimately show ?thesis
      using asserts_trans [of dv "{}" "\<lambda>_. True" "\<lambda>_. True" s s1] by simp
  qed
qed

lemma sync_node_law:
  assumes B: "builder_ok dv (g_expr_builder E)" and F: "frugal (g_expr_builder E)"
    and ok: "range_sets_ok (bits n) (rsets s n)" and n: "den dv \<rho>0 n \<noteq> None" "constrainable dv \<rho>0 n"
    and holds: "node_holds dv (rsets s) \<rho>0 n" and D: "within D n" and run: "sync_node E n s = Some s'"
  shows "asserts dv D (\<lambda>\<rho>. den dv \<rho> n \<noteq> None) (\<lambda>\<rho>. node_holds dv (rsets s) \<rho> n) s s'"
proof (cases "isRelational n")
  case True
  have b: "\<exists>p. den dv \<rho> n = Some (BoolV p)" if "den dv \<rho> n \<noteq> None" for \<rho>
    using relational_BoolV [OF True] that by blast
  have M: "den dv \<rho> n = Some (BoolV (node_holds dv (rsets s) \<rho> n))" if "den dv \<rho> n \<noteq> None" for \<rho>
    using b [OF that] True by (auto simp: node_holds_def)
  have "asserts dv D (\<lambda>\<rho>. den dv \<rho> n \<noteq> None) (\<lambda>\<rho>. node_holds dv (rsets s) \<rho> n = True) s s'"
    by (rule addToSolver_asserts [where \<sigma> = \<rho>0])
      (use B F D M n(1) holds run True in \<open>simp_all add: sync_node_def\<close>)
  then show ?thesis
    by simp
next
  case False
  then obtain x0 where x0: "den dv \<rho>0 n = Some (BV (bits n) x0)"
    using n(2) by (auto simp: constrainable_def)
  obtain s1 where s1: "sync_range E n False s = Some s1" "sync_range E n True s1 = Some s'"
    using run False by (auto simp: sync_node_def Option.bind_eq_Some_conv)
  have a: "allows (bits n) (rsets s n) x0"
    using holds x0 by (simp add: node_holds_def)
  note 1 = sync_range_law [OF B F ok x0 a D s1(1)]
  have eq: "rsets s1 = rsets s"
    using asserts_same [OF 1] by blast
  note 2 = sync_range_law [OF B F ok [folded eq] x0 a [folded eq] D s1(2)]
  have M: "\<exists>x. den dv \<rho> n = Some (BV (bits n) x)" if "den dv \<rho> n \<noteq> None" for \<rho>
    using that den_sort [OF _ x0, of \<rho>] den_BV by (metis is_BoolV.elims(1) is_BoolV.simps(2) option.exhaust)
  show ?thesis
  proof (rule asserts_mono [OF asserts_trans [OF 1 2]])
    fix \<rho>
    assume "den dv \<rho> n \<noteq> None"
    then obtain x where "den dv \<rho> n = Some (BV (bits n) x)"
      using M by blast
    then show "((\<exists>x. den dv \<rho> n = Some (BV (bits n) x)) \<and> (\<exists>x. den dv \<rho> n = Some (BV (bits n) x))) \<and>
      ((\<forall>x S. den dv \<rho> n = Some (BV (bits n) x) \<longrightarrow> getRangeSet False (rsets s n) = Some S \<longrightarrow>
          aps_read (factory False (bits n)) x \<in> members (ranges S)) \<and>
       (\<forall>x S. den dv \<rho> n = Some (BV (bits n) x) \<longrightarrow> getRangeSet True (rsets s1 n) = Some S \<longrightarrow>
          aps_read (factory True (bits n)) x \<in> members (ranges S)) \<longleftrightarrow> node_holds dv (rsets s) \<rho> n)"
      using False eq by (auto simp: node_holds_def allows_def all_bool_eq)
  qed simp
qed

subsection \<open>The slice\<close>

lemma sync_nodes_law:
  assumes B: "builder_ok dv (g_expr_builder E)" and F: "frugal (g_expr_builder E)"
  shows "(\<And>n. n \<in> set ms \<Longrightarrow> range_sets_ok (bits n) (rsets s n) \<and> den dv \<rho>0 n \<noteq> None \<and> constrainable dv \<rho>0 n \<and>
      node_holds dv (rsets s) \<rho>0 n \<and> within D n) \<Longrightarrow> sync_nodes E ms s = Some s' \<Longrightarrow>
    asserts dv D (\<lambda>\<rho>. \<forall>n \<in> set ms. den dv \<rho> n \<noteq> None) (\<lambda>\<rho>. \<forall>n \<in> set ms. node_holds dv (rsets s) \<rho> n) s s'"
proof (induction ms arbitrary: s)
  case Nil
  then show ?case
    by (auto intro: asserts_nothing)
next
  case (Cons n ms)
  obtain s1 where s1: "sync_node E n s = Some s1" "sync_nodes E ms s1 = Some s'"
    using Cons.prems(2) by (auto simp: Option.bind_eq_Some_conv)
  have 1: "asserts dv D (\<lambda>\<rho>. den dv \<rho> n \<noteq> None) (\<lambda>\<rho>. node_holds dv (rsets s) \<rho> n) s s1"
    by (rule sync_node_law [where ?\<rho>0.0 = \<rho>0, OF B F _ _ _ _ _ s1(1)]) (use Cons.prems(1) [of n] in simp_all)
  then have "rsets s1 = rsets s"
    using asserts_same by blast
  then have 2: "asserts dv D (\<lambda>\<rho>. \<forall>n \<in> set ms. den dv \<rho> n \<noteq> None)
      (\<lambda>\<rho>. \<forall>n \<in> set ms. node_holds dv (rsets s) \<rho> n) s1 s'"
    using Cons.IH [OF _ s1(2)] Cons.prems(1) by simp
  show ?case
    by (rule asserts_mono [OF asserts_trans [OF 1 2]]) simp_all
qed

text \<open>Looking up trees may allocate empty ones, and changes nothing that is looked up.\<close>

lemma find_trees_law:
  "forest_ok getDeps ns (dep_forest s) \<Longrightarrow> find_trees is s = (ts, s') \<Longrightarrow>
   \<exists>F'. s' = s\<lparr>dep_forest := F'\<rparr> \<and> forest_ok getDeps ns F' \<and> tree_nodes F' = tree_nodes (dep_forest s) \<and>
     (\<forall>i t. slot (dep_forest s) i = Some t \<longrightarrow> slot F' i = Some t) \<and>
     list_all2 (\<lambda>i t. slot F' i = Some t) is ts"
proof (induction "is" arbitrary: s ts)
  case (Cons i "is")
  obtain t F1 where F1: "forest_find i (dep_forest s) = (t, F1)"
    by force
  obtain us s2 where us: "find_trees is (s\<lparr>dep_forest := F1\<rparr>) = (us, s2)"
    by force
  have eq: "ts = t # us" "s2 = s'"
    using Cons.prems(2) F1 us by simp_all
  note ok = forest_ok_find [OF Cons.prems(1) F1] and nodes = find_tree_nodes [OF Cons.prems(1) F1]
  have keep: "slot F1 j = Some u" if "slot (dep_forest s) j = Some u" for j u
    using find_slot(3,4) [OF F1] that by (cases "slot (dep_forest s) i") (auto split: if_splits)
  obtain F' where F': "s' = s\<lparr>dep_forest := F'\<rparr>" "forest_ok getDeps ns F'" "tree_nodes F' = tree_nodes F1"
    "\<And>i t. slot F1 i = Some t \<Longrightarrow> slot F' i = Some t" "list_all2 (\<lambda>i t. slot F' i = Some t) is us"
    using Cons.IH [OF _ us [unfolded eq(2)]] ok by auto
  then show ?case
    using eq nodes(2) keep find_slot(1) [OF F1] by (intro exI [of _ F']) simp
next
  case Nil
  then show ?case
    by (intro exI [of _ "dep_forest s"]) simp
qed

abbreviation slice_of :: "expr \<Rightarrow> solver \<Rightarrow> expr set" where
  "slice_of e s \<equiv> forest.slice (dep_forest s) (getDeps e)"

abbreviation bytes_of_slice :: "expr \<Rightarrow> solver \<Rightarrow> nat set" where
  "bytes_of_slice e s \<equiv> forest.slice_bytes getDeps (dep_forest s) (getDeps e)"

lemma syncConstraints_law:
  assumes B: "builder_ok dv (g_expr_builder E)" and F: "frugal (g_expr_builder E)"
    and inv: "path_inv dv \<rho>0 cs ns s" and con: "\<And>n. n \<in> set ns \<Longrightarrow> constrainable dv \<rho>0 n"
    and run: "syncConstraints E e s = Some s'"
  obtains s1 where "\<exists>F'. s1 = s\<lparr>dep_forest := F'\<rparr>" "path_inv dv \<rho>0 cs ns s'"
    "testcases s' = testcases s \<and> num_generated s' = num_generated s"
    "asserts dv (bytes_of_slice e s) (\<lambda>\<rho>. \<forall>n \<in> slice_of e s. den dv \<rho> n \<noteq> None)
       (\<lambda>\<rho>. \<forall>n \<in> slice_of e s. node_holds dv (rsets s) \<rho> n) s1 s'"
proof -
  note I = path_invD [OF inv]
  let ?is = "sorted_list_of_set (getDeps e)"
  obtain ts s1 where ts: "find_trees ?is s = (ts, s1)"
    by force
  obtain F' where F': "s1 = s\<lparr>dep_forest := F'\<rparr>" "forest_ok getDeps ns F'"
    "tree_nodes F' = tree_nodes (dep_forest s)" "list_all2 (\<lambda>i t. slot F' i = Some t) ?is ts"
    using find_trees_law [OF I(1) ts] by blast
  let ?ms = "concat (map (\<lambda>t. nodes_at F' t) (sort (remdups ts)))"
  have run': "sync_nodes E ?ms s1 = Some s'"
    using run ts F'(1) by (simp add: syncConstraints_def)
  have "map (nodes_at F') us = map (tree_nodes F') js" if "list_all2 (\<lambda>i t. slot F' i = Some t) js us" for js us
    using that by (induction js us rule: list_all2_induct) (simp_all add: tree_nodes_def)
  from this [OF F'(4)] have "set (map (nodes_at F') ts) = set (map (tree_nodes F') ?is)"
    by (simp only:)
  then have ms: "set ?ms = slice_of e s"
    by (simp add: dependency_index.slice_def [OF forest.dependency_index_axioms] F'(3))
  have sub: "slice_of e s \<subseteq> set ns"
    using tree_nodes_deps(1) [OF I(1)] by (auto simp: dependency_index.slice_def [OF forest.dependency_index_axioms])
  have "asserts dv (bytes_of_slice e s) (\<lambda>\<rho>. \<forall>n \<in> set ?ms. den dv \<rho> n \<noteq> None)
      (\<lambda>\<rho>. \<forall>n \<in> set ?ms. node_holds dv (rsets s1) \<rho> n) s1 s'"
  proof (rule sync_nodes_law [OF B F _ run'])
    fix n
    assume "n \<in> set ?ms"
    then have n: "n \<in> slice_of e s" "n \<in> set ns"
      using ms sub by blast+
    have m0: "meaningful dv \<rho>0 cs"
      using I(4) by (auto simp: satisfies_def meaningful_def)
    show "range_sets_ok (bits n) (rsets s1 n) \<and> den dv \<rho>0 n \<noteq> None \<and> constrainable dv \<rho>0 n \<and>
      node_holds dv (rsets s1) \<rho>0 n \<and> within (bytes_of_slice e s) n"
      using I(2) [of n] I(5,6) I(7) [OF m0 n(2)] con [OF n(2)] n F'(1)
      by (auto simp: node_holds_def nodes_hold_def ranges_hold_def within_def
          dependency_index.slice_bytes_def [OF forest.dependency_index_axioms])
  qed
  moreover have "rsets s1 = rsets s"
    using F'(1) by simp
  ultimately have a: "asserts dv (bytes_of_slice e s) (\<lambda>\<rho>. \<forall>n \<in> slice_of e s. den dv \<rho> n \<noteq> None)
       (\<lambda>\<rho>. \<forall>n \<in> slice_of e s. node_holds dv (rsets s) \<rho> n) s1 s'"
    unfolding ms by simp
  moreover have "path_inv dv \<rho>0 cs ns s'" "testcases s' = testcases s \<and> num_generated s' = num_generated s"
    using asserts_same [OF a] inv F'(1,2) by (simp_all add: path_inv_def)
  ultimately show thesis
    using that [of s1] F'(1) by blast
qed

subsection \<open>Saving a test case\<close>

text \<open>The name under which \<open>saveValues\<close> writes the test case number \<open>k\<close>.\<close>

definition test_name :: "solver_env \<Rightarrow> string \<Rightarrow> nat \<Rightarrow> string option" where
  "test_name E postfix k =
     (if out_dir E = [] then None
      else Some (out_dir E @ ''/'' @ toString6digit k @ (if postfix = [] then [] else ''-'' @ postfix)))"

lemma saveValues_Some:
  assumes "saveValues E m postfix s = Some s'"
  obtains vals where "store_values m (inputs E) = Some vals"
    "testcases s' = testcases s @ [(test_name E postfix (num_generated s), vals)]"
    "rsets s' = rsets s" "dep_forest s' = dep_forest s"
proof -
  obtain w where w: "store_values m (inputs E) = Some w"
    using assms by (auto simp: saveValues_def getConcreteValues_def Option.bind_eq_Some_conv)
  show thesis
  proof (cases "out_dir E = []")
    case True
    then show ?thesis
      using that [OF w] assms w by (auto simp: saveValues_def getConcreteValues_def test_name_def)
  next
    case False
    then have "s' = s\<lparr>testcases := testcases s @ [(test_name E postfix (num_generated s), w)],
        num_generated := num_generated s + 1\<rparr>"
      using assms w
      by (simp add: saveValues_def getConcreteValues_def test_name_def assert_def Let_def split: if_splits)
    then show ?thesis
      using that [OF w] by simp
  qed
qed

lemma checkAndSave_cases:
  assumes "checkAndSave E postfix s = Some (r, s')"
  obtains (sat) m vals where "r = Some m" "z3_check E (checks s) (asserted s) = sat m"
      "store_values m (inputs E) = Some vals"
      "testcases s' = testcases s @ [(test_name E postfix (num_generated s), vals)]"
      "rsets s' = rsets s" "dep_forest s' = dep_forest s"
    | (none) "r = None" "s' = s\<lparr>checks := checks s + 1\<rparr>"
proof (cases "z3_check E (checks s) (asserted s)")
  case (sat m)
  then obtain s1 where s1: "saveValues E m postfix (s\<lparr>checks := checks s + 1\<rparr>) = Some s1" "r = Some m" "s' = s1"
    using assms by (auto simp: checkAndSave_def check_def Option.bind_eq_Some_conv)
  from saveValues_Some [OF s1(1)] show thesis
    using that(1) [OF s1(2) sat] s1(3) by auto
qed (use assms that(2) in \<open>simp_all add: checkAndSave_def check_def\<close>)

text \<open>A model of what was asserted since the last reset.\<close>

lemma model_law:
  assumes z3: "z3_ok dv E" and sat: "z3_check E k (asserted s') = sat m"
    and store: "store_values m (inputs E) = Some vals"
    and "asserted s = []" and asserts: "asserts dv D M Q s s'"
  shows "M (input_of vals) \<Longrightarrow> Q (input_of vals)"
    and "i \<notin> D \<Longrightarrow> input_of vals i = input_of (inputs E) i"
proof -
  obtain zs where zs: "asserted s' = zs" "\<And>z. z \<in> set zs \<Longrightarrow> within D (zterm z)"
    "\<And>\<rho>. M \<rho> \<Longrightarrow> (\<forall>z \<in> set zs. zsem dv \<rho> z \<noteq> None) \<and> ((\<forall>z \<in> set zs. zsem dv \<rho> z = Some True) \<longleftrightarrow> Q \<rho>)"
    using asserts assms(4) unfolding asserts_def by auto
  have m: "distinct (map fst m)" "fst ` set m \<subseteq> (\<Union>c \<in> set zs. getDeps (zterm c))"
    "\<And>\<rho>. agrees m \<rho> \<Longrightarrow> (\<forall>c \<in> set zs. zsem dv \<rho> c \<noteq> None) \<Longrightarrow> (\<forall>c \<in> set zs. zsem dv \<rho> c = Some True)"
    using z3 sat zs(1) unfolding z3_ok_def by blast+
  note got = store_values_spec [OF store m(1)]
  show "M (input_of vals) \<Longrightarrow> Q (input_of vals)"
    using zs(3) m(3) got by blast
  have "fst ` set m \<subseteq> D"
    using m(2) zs(2) by (fastforce simp: within_def)
  then show "i \<notin> D \<Longrightarrow> input_of vals i = input_of (inputs E) i"
    using got by (metis input_of_def subsetD)
qed

subsection \<open>Negating a branch\<close>

lemma asserted_reset [simp]: "asserted (reset s) = []"
  by (simp add: asserted_def reset_def)

lemma reset_same [simp]:
  "rsets (reset s) = rsets s" "dep_forest (reset s) = dep_forest s" "testcases (reset s) = testcases s"
  "num_generated (reset s) = num_generated s"
  by (simp_all add: reset_def)

lemma path_inv_reset [simp]: "path_inv dv \<rho>0 cs ns (reset s) = path_inv dv \<rho>0 cs ns s"
  by (simp add: path_inv_def)

lemma negate_asserts:
  assumes "builder_ok dv (g_expr_builder E)" "frugal (g_expr_builder E)"
    and "den dv \<sigma> e = Some (BoolV (\<not> t))" and run: "addToSolver E e (\<not> t) s = Some s'"
  shows "asserts dv (getDeps e) (\<lambda>\<rho>. den dv \<rho> e \<noteq> None) (\<lambda>\<rho>. den dv \<rho> e = Some (BoolV (\<not> t))) s s'"
proof -
  have b: "\<exists>p. den dv \<rho> e = Some (BoolV p)" if "den dv \<rho> e \<noteq> None" for \<rho>
    using that den_sort [OF _ assms(3), of \<rho>] by (metis is_BoolV.elims(1) is_BoolV.simps(1) option.exhaust)
  have "asserts dv (getDeps e) (\<lambda>\<rho>. den dv \<rho> e \<noteq> None) (\<lambda>\<rho>. (den dv \<rho> e = Some (BoolV True)) = (\<not> t)) s s'"
    by (rule addToSolver_asserts [where \<sigma> = \<sigma>]) (use assms b in \<open>force simp: within_def\<close>)+
  then show ?thesis
    by (rule asserts_mono) (use b in force)+
qed

text \<open>A model of the slice and the negated branch follows the whole path.\<close>

lemma slice_model:
  assumes inv: "path_inv dv \<rho>0 cs ns s" and con: "\<And>n. n \<in> set ns \<Longrightarrow> constrainable dv \<rho>0 n"
    and sol: "\<And>n. n \<in> slice_of e s \<Longrightarrow> node_holds dv (rsets s) \<rho> n"
    and agree: "\<And>i. i \<notin> bytes_of_slice e s \<Longrightarrow> \<rho> i = \<rho>0 i" and m: "meaningful dv \<rho> cs"
  shows "satisfies dv \<rho> cs"
proof -
  note I = path_invD [OF inv]
  have local: "node_holds dv (rsets s) \<sigma>' n" if "\<forall>i \<in> getDeps n. \<sigma> i = \<sigma>' i" "node_holds dv (rsets s) \<sigma> n" for n \<sigma> \<sigma>'
    using den_getDeps [of n \<sigma> \<sigma>' dv] that by (simp add: node_holds_def)
  have seed: "\<forall>n \<in> set ns. node_holds dv (rsets s) \<rho>0 n"
    using I(5,6) by (auto simp: node_holds_def nodes_hold_def ranges_hold_def)
  have all: "\<forall>n \<in> set ns. node_holds dv (rsets s) \<rho> n"
    by (rule forest.slice_complete [where sat = "\<lambda>\<rho>. node_holds dv (rsets s) \<rho>" and ?r0.0 = \<rho>0, OF I(1)])
      (use local seed sol agree in blast)+
  have "allows (bits n) (rsets s n) x" if x: "den dv \<rho> n = Some (BV (bits n) x)" for n x
  proof -
    consider "rsets s n = no_range_sets" | "n \<in> set ns" | "isConcrete n"
      using I(3) by blast
    then show ?thesis
    proof cases
      case 2
      then show ?thesis
        using all x by (auto simp: node_holds_def)
    next
      case 3
      then show ?thesis
        using I(6) concrete_den [OF 3, of dv \<rho> \<rho>0] x by (auto simp: ranges_hold_def)
    qed simp
  qed
  then have "nodes_hold dv \<rho> ns \<and> ranges_hold dv \<rho> (rsets s)"
    using all by (auto simp: node_holds_def nodes_hold_def ranges_hold_def)
  then show ?thesis
    using I(8) [OF con m] by blast
qed

text \<open>
  What a test case has to do: to follow the path and to take the other direction at its end; an
  optimistic one, the second only.
\<close>

definition flips :: "bool \<Rightarrow> (expr \<times> bool) list \<Rightarrow> expr \<Rightarrow> bool \<Rightarrow> string \<Rightarrow> byte list \<Rightarrow> bool" where
  "flips dv cs e t postfix vals \<longleftrightarrow>
     (meaningful dv (input_of vals) (cs @ [(e, t)]) \<longrightarrow>
        satisfies dv (input_of vals) ((if postfix = [] then cs else []) @ [(e, \<not> t)]))"

lemma first_check_flips:
  assumes B: "builder_ok dv (g_expr_builder E)" and F: "frugal (g_expr_builder E)" and z3: "z3_ok dv E"
    and inv: "path_inv dv (input_of (inputs E)) cs ns s"
    and con: "\<And>n. n \<in> set ns \<Longrightarrow> constrainable dv (input_of (inputs E)) n"
    and e: "den dv \<sigma> e = Some (BoolV (\<not> t))"
    and sync: "syncConstraints E e (reset s) = Some s1" and neg: "addToSolver E e (\<not> t) s1 = Some s2"
    and sat: "z3_check E k (asserted s2) = sat m" and store: "store_values m (inputs E) = Some vals"
  shows "flips dv cs e t postfix vals"
proof -
  let ?\<rho> = "input_of vals" and ?r0 = "input_of (inputs E)"
  have inv': "path_inv dv ?r0 cs ns (reset s)"
    using inv by simp
  obtain s0 where ex: "\<exists>F'. s0 = (reset s)\<lparr>dep_forest := F'\<rparr>"
    and r: "asserts dv (bytes_of_slice e (reset s)) (\<lambda>\<rho>. \<forall>n \<in> slice_of e (reset s). den dv \<rho> n \<noteq> None)
       (\<lambda>\<rho>. \<forall>n \<in> slice_of e (reset s). node_holds dv (rsets (reset s)) \<rho> n) s0 s1"
    by (rule syncConstraints_law [OF B F inv' con sync])
  have s0: "asserts dv (bytes_of_slice e s) (\<lambda>\<rho>. \<forall>n \<in> slice_of e s. den dv \<rho> n \<noteq> None)
       (\<lambda>\<rho>. \<forall>n \<in> slice_of e s. node_holds dv (rsets s) \<rho> n) s0 s1"
    using r by (simp only: reset_same)
  have "getDeps e \<subseteq> bytes_of_slice e s"
    by (simp add: dependency_index.slice_bytes_def [OF forest.dependency_index_axioms])
  then have 2: "asserts dv (bytes_of_slice e s \<union> getDeps e)
      (\<lambda>\<rho>. (\<forall>n \<in> slice_of e s. den dv \<rho> n \<noteq> None) \<and> den dv \<rho> e \<noteq> None)
      (\<lambda>\<rho>. (\<forall>n \<in> slice_of e s. node_holds dv (rsets s) \<rho> n) \<and> den dv \<rho> e = Some (BoolV (\<not> t))) s0 s2"
    and sub: "bytes_of_slice e s \<union> getDeps e = bytes_of_slice e s"
    using asserts_trans [OF s0 negate_asserts [OF B F e neg]] by auto
  have start: "asserted s0 = []"
    using ex by (auto simp: asserted_def reset_def)
  note model = model_law [OF z3 sat store start 2 [unfolded sub]]
  have "satisfies dv ?\<rho> (cs @ [(e, \<not> t)])" if m: "meaningful dv ?\<rho> (cs @ [(e, t)])"
  proof -
    have m': "meaningful dv ?\<rho> cs" "den dv ?\<rho> e \<noteq> None"
      using m by (simp_all add: meaningful_snoc)
    have sub: "slice_of e s \<subseteq> set ns"
      using tree_nodes_deps(1) [OF path_invD(1) [OF inv]]
      by (auto simp: dependency_index.slice_def [OF forest.dependency_index_axioms])
    have Q: "(\<forall>n \<in> slice_of e s. node_holds dv (rsets s) ?\<rho> n) \<and> den dv ?\<rho> e = Some (BoolV (\<not> t))"
      by (rule model(1)) (use m' sub path_invD(7) [OF inv m'(1)] in blast)
    have "satisfies dv ?\<rho> cs"
      by (rule slice_model [OF inv con _ _ m'(1)]) (use Q model(2) in blast)+
    with Q show ?thesis
      by (simp add: satisfies_snoc)
  qed
  then show ?thesis
    by (auto simp: flips_def satisfies_def)
qed

lemma optimistic_check_flips:
  assumes B: "builder_ok dv (g_expr_builder E)" and F: "frugal (g_expr_builder E)" and z3: "z3_ok dv E"
    and e: "den dv \<sigma> e = Some (BoolV (\<not> t))" and neg: "addToSolver E e (\<not> t) (reset s) = Some s1"
    and sat: "z3_check E k (asserted s1) = sat m" and store: "store_values m (inputs E) = Some vals"
  shows "flips dv cs e t ''optimistic'' vals"
  using model_law(1) [OF z3 sat store asserted_reset negate_asserts [OF B F e neg]]
  by (simp add: flips_def satisfies_def meaningful_snoc)

lemma addToSolver_same:
  "addToSolver E e t s = Some s' \<Longrightarrow> rsets s' = rsets s \<and> dep_forest s' = dep_forest s \<and>
     testcases s' = testcases s \<and> num_generated s' = num_generated s"
  by (auto simp: addToSolver_def add_def z3_add_def Option.bind_eq_Some_conv split: if_splits zconstraint.split expr.split
      dest!: build_frame)

lemma path_inv_cong:
  "path_inv dv \<rho>0 cs ns s \<Longrightarrow> rsets s' = rsets s \<Longrightarrow> dep_forest s' = dep_forest s \<Longrightarrow> path_inv dv \<rho>0 cs ns s'"
  by (simp add: path_inv_def)

lemma negatePath_law:
  assumes B: "builder_ok dv (g_expr_builder E)" and F: "frugal (g_expr_builder E)" and z3: "z3_ok dv E"
    and inv: "path_inv dv (input_of (inputs E)) cs ns s"
    and con: "\<And>n. n \<in> set ns \<Longrightarrow> constrainable dv (input_of (inputs E)) n"
    and run: "negatePath E e t s = Some s'"
  shows "path_inv dv (input_of (inputs E)) cs ns s'"
    and "den dv \<sigma> e = Some (BoolV (\<not> t)) \<Longrightarrow> testcases s' = testcases s \<or> (\<exists>postfix vals.
      testcases s' = testcases s @ [(test_name E postfix (num_generated s), vals)] \<and>
      flips dv cs e t postfix vals)"
proof -
  obtain s1 s2 r s3 where sync: "syncConstraints E e (reset s) = Some s1"
    and neg: "addToSolver E e (\<not> t) s1 = Some s2" and first: "checkAndSave E [] s2 = Some (r, s3)"
    and rest: "(if r \<noteq> None then Some s3
      else do { let s = reset s3; s \<leftarrow> addToSolver E e (\<not> t) s;
                (_, s) \<leftarrow> checkAndSave E ''optimistic'' s; Some s }) = Some s'"
    using run unfolding negatePath_def Let_def [of "reset s"] by (auto simp: Option.bind_eq_Some_conv)
  have inv0: "path_inv dv (input_of (inputs E)) cs ns (reset s)"
    using inv by simp
  have inv1: "path_inv dv (input_of (inputs E)) cs ns s1"
    by (rule syncConstraints_law [OF B F inv0 con sync])
  have "testcases s1 = testcases (reset s) \<and> num_generated s1 = num_generated (reset s)"
    by (rule syncConstraints_law [OF B F inv0 con sync])
  then have same1: "testcases s1 = testcases s" "num_generated s1 = num_generated s"
    by simp_all
  have inv2: "path_inv dv (input_of (inputs E)) cs ns s2"
    using path_inv_cong [OF inv1] addToSolver_same [OF neg] by blast
  have same2: "testcases s2 = testcases s" "num_generated s2 = num_generated s"
    using addToSolver_same [OF neg] same1 by simp_all
  have "path_inv dv (input_of (inputs E)) cs ns s' \<and> (den dv \<sigma> e = Some (BoolV (\<not> t)) \<longrightarrow>
    testcases s' = testcases s \<or> (\<exists>postfix vals.
      testcases s' = testcases s @ [(test_name E postfix (num_generated s), vals)] \<and>
      flips dv cs e t postfix vals))"
    using first
  proof (cases rule: checkAndSave_cases)
    case (sat m vals)
    then have "flips dv cs e t [] vals" if "den dv \<sigma> e = Some (BoolV (\<not> t))"
      by (intro first_check_flips [OF B F z3 inv con that sync neg])
    then show ?thesis
      using sat rest same2 path_inv_cong [OF inv2] by auto
  next
    case none
    obtain s4 r' where neg': "addToSolver E e (\<not> t) (reset s3) = Some s4"
      and second: "checkAndSave E ''optimistic'' s4 = Some (r', s')"
      using rest none by (auto simp: Option.bind_eq_Some_conv Let_def)
    have same4: "testcases s4 = testcases s" "num_generated s4 = num_generated s" "rsets s4 = rsets s2"
      "dep_forest s4 = dep_forest s2"
      using addToSolver_same [OF neg'] same2 none by simp_all
    from second show ?thesis
    proof (cases rule: checkAndSave_cases)
      case (sat m vals)
      then have "flips dv cs e t ''optimistic'' vals" if "den dv \<sigma> e = Some (BoolV (\<not> t))"
        by (intro optimistic_check_flips [OF B F z3 that neg'])
      then show ?thesis
        using sat same4 path_inv_cong [OF inv2] by auto
    next
      case none
      then show ?thesis
        using same4 path_inv_cong [OF inv2] by auto
    qed
  qed
  then show "path_inv dv (input_of (inputs E)) cs ns s'"
    and "den dv \<sigma> e = Some (BoolV (\<not> t)) \<Longrightarrow> testcases s' = testcases s \<or> (\<exists>postfix vals.
      testcases s' = testcases s @ [(test_name E postfix (num_generated s), vals)] \<and>
      flips dv cs e t postfix vals)"
    by blast+
qed

subsection \<open>A branch of the run\<close>

lemma only_bs_testcases: "only_bs s s' \<Longrightarrow> testcases s' = testcases s"
  using only_bs_same by blast

lemma addConstraint_node_testcases: "addConstraint_node n s = Some s' \<Longrightarrow> testcases s' = testcases s"
  by (erule addConstraint_node_cases) simp_all

lemma addRangeConstraint_testcases:
  assumes B: "builder_ok dv (g_expr_builder E)" and run: "addRangeConstraint E e t s = Some (r, s')"
  shows "testcases s' = testcases s"
proof (cases "isConstSym e")
  case False
  with run show ?thesis
    by (simp add: addRangeConstraint_def)
next
  case True
  with run obtain x n w a s1 R where canon: "getCanonicalExpr E x s = Some ((n, w, a), s1)"
    and node: "addConstraint_node n (s1\<lparr>rsets := (rsets s1)(n := R)\<rparr>) = Some s'"
    by (auto simp: addRangeConstraint_def Option.bind_eq_Some_conv)
  show ?thesis
    using addConstraint_node_testcases [OF node] only_bs_testcases [OF canonical_law(1) [OF B canon]] by simp
qed

lemma addNormalConstraint_testcases:
  assumes "addNormalConstraint E e t s = Some s'"
  shows "testcases s' = testcases s"
proof (cases t)
  case True
  with assms show ?thesis
    by (simp add: addNormalConstraint_def addConstraint_node_testcases)
next
  case False
  with assms obtain x s1 where "build (createUnaryExpr (g_expr_builder E) LNot e) s = Some (x, s1)"
    "addConstraint_node x s1 = Some s'"
    by (auto simp: addNormalConstraint_def Option.bind_eq_Some_conv)
  then show ?thesis
    using only_bs_testcases [OF build_only_bs] addConstraint_node_testcases by metis
qed

lemma addConstraint_path_testcases:
  assumes B: "builder_ok dv (g_expr_builder E)"
  shows "addConstraint_path E e t s = Some s' \<Longrightarrow> testcases s' = testcases s"
proof (induction "size e" arbitrary: e t rule: less_induct)
  case less
  show ?case
  proof (cases "as_LNot e")
    case (Some x)
    then have "addConstraint_path E x (\<not> t) s = Some s'"
      using less.prems by (simp add: addConstraint_path.simps [of E e])
    then show ?thesis
      by (rule less.hyps [OF as_LNot_size [OF Some]])
  next
    case None
    then obtain r s1 where "addRangeConstraint E e t s = Some (r, s1)"
      "(if r then Some s1 else addNormalConstraint E e t s1) = Some s'"
      using less.prems by (auto simp: addConstraint_path.simps [of E e] Option.bind_eq_Some_conv)
    then show ?thesis
      using addRangeConstraint_testcases [OF B] addNormalConstraint_testcases by (cases r) auto
  qed
qed

text \<open>A branch on a value that is the same for all inputs adds nothing to the path condition.\<close>

lemma path_inv_constant:
  assumes inv: "path_inv dv \<rho>0 cs ns s" and e: "\<And>\<rho>. den dv \<rho> e = Some (BoolV t)"
  shows "path_inv dv \<rho>0 (cs @ [(e, t)]) ns s"
proof -
  note I = path_invD [OF inv]
  have sat0: "satisfies dv \<rho>0 (cs @ [(e, t)])"
    using I(4) e by (simp add: satisfies_snoc)
  show ?thesis
  proof (rule path_invI [OF I(1,2,3) sat0 I(5,6)])
    show "den dv \<rho> n \<noteq> None" if "meaningful dv \<rho> (cs @ [(e, t)])" "n \<in> set ns" for \<rho> n
      using I(7) that by (simp add: meaningful_snoc)
    show "nodes_hold dv \<rho> ns \<and> ranges_hold dv \<rho> (rsets s) \<longleftrightarrow> satisfies dv \<rho> (cs @ [(e, t)])"
      if "\<And>n. n \<in> set ns \<Longrightarrow> constrainable dv \<rho>0 n" "meaningful dv \<rho> (cs @ [(e, t)])" for \<rho>
      using I(8) [OF that(1), of \<rho>] that(2) e by (simp add: meaningful_snoc satisfies_snoc)
  qed
qed

lemma addJcc_cases:
  assumes "addJcc E e t pc s = Some s'" "den dv \<rho> e = Some (BoolV t)"
  obtains (skip) "\<And>\<sigma>. den dv \<sigma> e = Some (BoolV t)" "s' = s\<lparr>last_jcc := pc\<rparr>"
    | (branch) i s1 s2 where "rsets s1 = rsets s" "dep_forest s1 = dep_forest s" "testcases s1 = testcases s"
        "num_generated s1 = num_generated s" "(if i then negatePath E e t s1 else Some s1) = Some s2"
        "addConstraint_path E e t s2 = Some s'"
proof (cases "isConcrete e \<or> as_Bool e \<noteq> None")
  case True
  have "den dv \<sigma> e = Some (BoolV t)" for \<sigma>
  proof (cases "isConcrete e")
    case False
    with True obtain b where "as_Bool e = Some b"
      by blast
    then show ?thesis
      using assms(2) by (cases e) simp_all
  qed (use concrete_den assms(2) in metis)
  moreover have "s' = s\<lparr>last_jcc := pc\<rparr>"
    using assms(1) True by (auto simp: addJcc_def Let_def assert_def split: if_splits)
  ultimately show thesis
    by (rule skip)
next
  case False
  let ?s = "s\<lparr>last_jcc := pc\<rparr>"
  have "as_Bool e = None" "\<not> isConcrete e"
    using False by auto
  then have "assert (isRelational e)
      (do { (is_interesting, s) \<leftarrow> (if pc = 0 then Some (last_interested ?s, ?s) else isInterestingJcc E t pc ?s);
            s \<leftarrow> (if is_interesting then negatePath E e t s else Some s);
            addConstraint_path E e t s }) = Some s'"
    using assms(1) unfolding addJcc_def Let_def by (simp only: if_False option.case)
  then obtain i s1 s2 where
    j: "(if pc = 0 then Some (last_interested ?s, ?s) else isInterestingJcc E t pc ?s) = Some (i, s1)"
    and *: "(if i then negatePath E e t s1 else Some s1) = Some s2" "addConstraint_path E e t s2 = Some s'"
    by (auto simp: assert_def Option.bind_eq_Some_conv split: if_splits)
  have "rsets s1 = rsets s \<and> dep_forest s1 = dep_forest s \<and> testcases s1 = testcases s \<and> num_generated s1 = num_generated s"
    using j by (auto simp: isInterestingJcc_def Option.bind_eq_Some_conv split: if_splits)
  then show thesis
    using branch * by blast
qed

lemma addJcc_law:
  assumes B: "builder_ok dv (g_expr_builder E)" and F: "frugal (g_expr_builder E)" and A: "apint_ok (solver_apint E)"
    and z3: "z3_ok dv E" and inv: "path_inv dv (input_of (inputs E)) cs ns s"
    and con: "\<And>n. n \<in> set ns \<Longrightarrow> constrainable dv (input_of (inputs E)) n"
    and e: "den dv (input_of (inputs E)) e = Some (BoolV t)" and run: "addJcc E e t pc s = Some s'"
  shows "\<exists>ns'. path_inv dv (input_of (inputs E)) (cs @ [(e, t)]) ns' s'"
    and "den dv \<sigma> e = Some (BoolV (\<not> t)) \<Longrightarrow> testcases s' = testcases s \<or> (\<exists>postfix vals.
      testcases s' = testcases s @ [(test_name E postfix (num_generated s), vals)] \<and>
      flips dv cs e t postfix vals)"
proof -
  let ?P = "\<lambda>s'. den dv \<sigma> e = Some (BoolV (\<not> t)) \<longrightarrow> testcases s' = testcases s \<or> (\<exists>postfix vals.
      testcases s' = testcases s @ [(test_name E postfix (num_generated s), vals)] \<and> flips dv cs e t postfix vals)"
  from run e have "(\<exists>ns'. path_inv dv (input_of (inputs E)) (cs @ [(e, t)]) ns' s') \<and> ?P s'"
  proof (cases rule: addJcc_cases)
    case skip
    have "path_inv dv (input_of (inputs E)) cs ns s'"
      using path_inv_cong [OF inv] skip(2) by simp
    with path_inv_constant [OF this skip(1)] skip(2) show ?thesis
      by auto
  next
    case (branch i s1 s2)
    have inv1: "path_inv dv (input_of (inputs E)) cs ns s1"
      using path_inv_cong [OF inv] branch(1,2) by blast
    have 2: "path_inv dv (input_of (inputs E)) cs ns s2 \<and> ?P s2"
    proof (cases i)
      case True
      then have "negatePath E e t s1 = Some s2"
        using branch(5) by simp
      from negatePath_law [OF B F z3 inv1 con this] show ?thesis
        by (simp add: branch(3,4))
    qed (use branch inv1 in auto)
    then have "\<exists>ns'. path_inv dv (input_of (inputs E)) (cs @ [(e, t)]) ns' s'"
      using path_inv_path [OF B A _ e branch(6)] by blast
    then show ?thesis
      using 2 addConstraint_path_testcases [OF B branch(6)] by simp
  qed
  then show "\<exists>ns'. path_inv dv (input_of (inputs E)) (cs @ [(e, t)]) ns' s'"
    and "den dv \<sigma> e = Some (BoolV (\<not> t)) \<Longrightarrow> testcases s' = testcases s \<or> (\<exists>postfix vals.
      testcases s' = testcases s @ [(test_name E postfix (num_generated s), vals)] \<and>
      flips dv cs e t postfix vals)"
    by blast+
qed

subsection \<open>Names\<close>

definition digits_value :: "string \<Rightarrow> nat" where
  "digits_value cs = foldl (\<lambda>a c. 10 * a + (of_char c - 48)) 0 cs"

lemma decimal_char: "d < 10 \<Longrightarrow> of_char (char_of (48 + d) :: char) = 48 + (d :: nat)"
  by (simp add: of_char_of)

lemma decimal_value: "digits_value (decimal n) = n"
proof (induction n rule: decimal.induct)
  case (1 n)
  show ?case
  proof (cases "n < 10")
    case True
    then show ?thesis
      by (simp add: decimal.simps [of n] digits_value_def decimal_char)
  next
    case False
    have "of_char (char_of (48 + n mod 10) :: char) = 48 + n mod 10"
      by (rule decimal_char) simp
    with 1 False show ?thesis
      by (simp add: decimal.simps [of n] digits_value_def)
  qed
qed

lemma decimal_length: "n < 10 ^ Suc k \<Longrightarrow> length (decimal n) \<le> Suc k"
proof (induction k arbitrary: n)
  case 0
  then show ?case
    by (simp add: decimal.simps)
next
  case (Suc k)
  have "n div 10 < 10 ^ Suc k"
    using Suc.prems by (simp add: less_mult_imp_div_less mult.commute)
  with Suc.IH show ?case
    by (simp add: decimal.simps [of n])
qed

lemma padded_value: "digits_value (replicate k (CHR ''0'') @ d) = digits_value d"
proof -
  have "foldl (\<lambda>a c. 10 * a + (of_char c - 48)) 0 (replicate k (CHR ''0'')) = (0 :: nat)"
    by (induction k) (simp_all add: of_char_def)
  then show ?thesis
    by (simp add: digits_value_def)
qed

lemma toString6digit_small:
  assumes "n < 10 ^ 6"
  shows "length (toString6digit n) = 6" "digits_value (toString6digit n) = n"
proof -
  have "n < 10 ^ Suc 5"
    using assms by simp
  then have "length (decimal n) \<le> 6"
    using decimal_length [of n 5] by simp
  then have "toString6digit n = replicate (6 - length (decimal n)) (CHR ''0'') @ decimal n"
    and "length (toString6digit n) = 6"
    by (simp_all add: toString6digit_def Let_def)
  then show "length (toString6digit n) = 6" "digits_value (toString6digit n) = n"
    by (simp_all add: padded_value decimal_value)
qed

lemma toString6digit_collision: "10 ^ 6 \<le> n \<Longrightarrow> n < 10 ^ 7 \<Longrightarrow> toString6digit n = toString6digit (n div 10)"
proof -
  assume "10 ^ 6 \<le> n" "n < 10 ^ 7"
  then have "n div 10 < 10 ^ Suc 5" "10 ^ 5 \<le> n div 10"
    by (simp_all add: less_mult_imp_div_less)
  have len: "10 ^ k \<le> m \<Longrightarrow> Suc k \<le> length (decimal m)" for k m
  proof (induction k arbitrary: m)
    case 0
    then show ?case by (simp add: decimal.simps [of m])
  next
    case (Suc k)
    have "10 * 1 \<le> 10 * (10 :: nat) ^ k"
      by (rule mult_le_mono2) simp
    also have "\<dots> \<le> m"
      using Suc.prems by simp
    finally have "\<not> m < 10"
      by simp
    moreover have "10 ^ k \<le> m div 10"
      using Suc.prems by (simp add: less_eq_div_iff_mult_less_eq mult.commute)
    moreover note Suc.IH
    ultimately show ?case
      by (simp add: decimal.simps [of m])
  qed
  have "length (decimal (n div 10)) = 6"
    using decimal_length [OF \<open>n div 10 < 10 ^ Suc 5\<close>] len [OF \<open>10 ^ 5 \<le> n div 10\<close>] by simp
  moreover have "decimal n = decimal (n div 10) @ [char_of (48 + n mod 10)]"
    using \<open>10 ^ 6 \<le> n\<close> by (simp add: decimal.simps [of n])
  ultimately show ?thesis
    by (simp add: toString6digit_def Let_def)
qed

subsection \<open>A whole run\<close>

text \<open>
  The branches of a run with their directions and addresses, in the order of \<open>addJcc\<close>. The nodes
  of the forest are constrainable unless \<open>syncConstraints\<close> says that incorrect constraints were
  inserted.
\<close>

fun take_branches :: "solver_env \<Rightarrow> (expr \<times> bool \<times> addr) list \<Rightarrow> solver \<Rightarrow> solver option" where
  "take_branches E [] s = Some s"
| "take_branches E ((e, t, pc) # branches) s = do { s \<leftarrow> addJcc E e t pc s; take_branches E branches s }"

definition nodes_constrainable :: "bool \<Rightarrow> assignment \<Rightarrow> solver \<Rightarrow> bool" where
  "nodes_constrainable dv \<rho>0 s \<longleftrightarrow>
     (\<forall>tr \<in> set (store (dep_forest s)). \<forall>n \<in> set (nodes_ids tr). constrainable dv \<rho>0 n)"

abbreviation path_of :: "(expr \<times> bool \<times> addr) list \<Rightarrow> (expr \<times> bool) list" where
  "path_of branches \<equiv> map (\<lambda>(e, t, pc). (e, t)) branches"

definition follows :: "bool \<Rightarrow> solver_env \<Rightarrow> (expr \<times> bool \<times> addr) list \<Rightarrow> string option \<times> byte list \<Rightarrow> bool" where
  "follows dv E branches c \<longleftrightarrow> (\<exists>pre e t pc post postfix k.
     branches = pre @ (e, t, pc) # post \<and> fst c = test_name E postfix k \<and> flips dv (path_of pre) e t postfix (snd c))"

lemma follows_append: "follows dv E branches c \<Longrightarrow> follows dv E (branches @ more_branches) c"
  unfolding follows_def by (metis append.assoc append_Cons)

lemma take_branches_append:
  "take_branches E (xs @ ys) s = do { s \<leftarrow> take_branches E xs s; take_branches E ys s }"
  by (induction E xs s rule: take_branches.induct) (auto split: Option.bind_split)

lemma nodes_constrainableD:
  assumes "nodes_constrainable dv \<rho>0 s" "forest_ok getDeps ns (dep_forest s)" "n \<in> set ns"
  shows "constrainable dv \<rho>0 n"
proof -
  have "valid_slots (dep_forest s)" and "getDeps n \<noteq> {}"
    using assms(2,3) by (simp_all add: forest_ok_def)
  then obtain d where d: "d \<in> getDeps n"
    by blast
  have "n \<in> set (tree_nodes (dep_forest s) d)"
    using tree_nodes_member [OF assms(2)] assms(3) d by blast
  then obtain u where "slot (dep_forest s) d = Some u" "n \<in> set (nodes_at (dep_forest s) u)"
    by (cases "slot (dep_forest s) d") (auto simp: tree_nodes_def)
  moreover have "u < length (store (dep_forest s))"
    using \<open>valid_slots (dep_forest s)\<close> calculation(1) by (auto simp: valid_slots_def)
  ultimately show ?thesis
    using assms(1) unfolding nodes_constrainable_def by (meson nth_mem)
qed

lemma take_branches_law:
  assumes B: "builder_ok dv (g_expr_builder E)" and F: "frugal (g_expr_builder E)" and A: "apint_ok (solver_apint E)"
    and z3: "z3_ok dv E" and inv: "path_inv dv (input_of (inputs E)) [] [] s" and start: "testcases s = []"
  shows "take_branches E branches s = Some s' \<Longrightarrow>
    (\<And>e t pc. (e, t, pc) \<in> set branches \<Longrightarrow> den dv (input_of (inputs E)) e = Some (BoolV t) \<and>
       (isConcrete e \<or> (\<exists>\<sigma>. den dv \<sigma> e = Some (BoolV (\<not> t))))) \<Longrightarrow>
    (\<And>pre b post s1. branches = pre @ b # post \<Longrightarrow> take_branches E pre s = Some s1 \<Longrightarrow>
       nodes_constrainable dv (input_of (inputs E)) s1) \<Longrightarrow>
    (\<exists>ns. path_inv dv (input_of (inputs E)) (path_of branches) ns s') \<and>
    (\<forall>c \<in> set (testcases s'). follows dv E branches c)"
proof (induction branches arbitrary: s' rule: rev_induct)
  case Nil
  then show ?case
    using inv start by auto
next
  case (snoc b branches)
  obtain e t pc where b: "b = (e, t, pc)"
    by (cases b)
  obtain s1 where s1: "take_branches E branches s = Some s1" and run: "addJcc E e t pc s1 = Some s'"
    using snoc.prems(1) by (auto simp: take_branches_append b Option.bind_eq_Some_conv)
  have "(\<exists>ns. path_inv dv (input_of (inputs E)) (path_of branches) ns s1) \<and>
    (\<forall>c \<in> set (testcases s1). follows dv E branches c)"
  proof (rule snoc.IH [OF s1])
    show "den dv (input_of (inputs E)) e = Some (BoolV t) \<and> (isConcrete e \<or> (\<exists>\<sigma>. den dv \<sigma> e = Some (BoolV (\<not> t))))"
      if "(e, t, pc) \<in> set branches" for e t pc
      by (rule snoc.prems(2) [of e t pc]) (use that in simp)
    show "nodes_constrainable dv (input_of (inputs E)) s2"
      if "branches = pre @ b' # post" "take_branches E pre s = Some s2" for pre b' post s2
      using snoc.prems(3) [of pre b' "post @ [b]"] that by simp
  qed
  then obtain ns where ns: "path_inv dv (input_of (inputs E)) (path_of branches) ns s1"
    and old: "\<And>c. c \<in> set (testcases s1) \<Longrightarrow> follows dv E branches c"
    by blast
  have e: "den dv (input_of (inputs E)) e = Some (BoolV t)"
    and flip: "isConcrete e \<or> (\<exists>\<sigma>. den dv \<sigma> e = Some (BoolV (\<not> t)))"
    using snoc.prems(2) [of e t pc] b by simp_all
  have con: "constrainable dv (input_of (inputs E)) n" if "n \<in> set ns" for n
    by (rule nodes_constrainableD [OF snoc.prems(3) [of branches b "[]", OF refl s1] path_invD(1) [OF ns] that])
  note law = addJcc_law [OF B F A z3 ns con e run]
  have "follows dv E (branches @ [b]) c" if c: "c \<in> set (testcases s')" for c
  proof (cases "c \<in> set (testcases s1)")
    case True
    then show ?thesis
      using old follows_append by blast
  next
    case False
    have "\<not> isConcrete e"
    proof
      assume "isConcrete e"
      then have "testcases s' = testcases s1"
        using run by (auto simp: addJcc_def Let_def)
      with False c show False
        by simp
    qed
    then obtain \<sigma> where "den dv \<sigma> e = Some (BoolV (\<not> t))"
      using flip by blast
    from law(2) [OF _ this] c False obtain postfix vals where
      "c = (test_name E postfix (num_generated s1), vals)" "flips dv (path_of branches) e t postfix vals"
      by auto
    then have "branches @ [(e, t, pc)] = branches @ (e, t, pc) # [] \<and>
        fst c = test_name E postfix (num_generated s1) \<and> flips dv (path_of branches) e t postfix (snd c)"
      by simp
    then show ?thesis
      unfolding follows_def b by blast
  qed
  then show ?case
    using law(1) b by simp
qed

end
