(* ===== verification/ConcreteRun.thy ===== *)
theory ConcreteRun
  imports SolverFlip
begin

section \<open>A small run\<close>

text \<open>
  A run that reads one byte, 65, and compares it with 65: with the builders of
  \<open>SymbolicExprBuilder::create\<close>, a bit vector library, and a Z3 that answers the one question it is
  asked. It is the concrete input at which the properties of the solver are applied.
\<close>

definition demo_env :: env where
  "demo_env = \<lparr>apint = bv_api, expr_digest = (\<lambda>_. 0), expired = (\<lambda>_ _. False), xxh = (\<lambda>_. 0)\<rparr>"

definition demo_branch :: expr where
  "demo_branch = BinaryExpr 2 Equal (ConstantExpr 0 65 8) (ReadExpr 1 0)"

definition demo_bst :: bst where
  "demo_bst = \<lparr>next_oid = 3, read_cache = (\<lambda>_. None), expr_cache = ExprCache, clock = 0,
     csm = CallStackManager 0 [], evaluation = (\<lambda>_. None)\<rparr>"

definition demo_solver_env :: solver_env where
  "demo_solver_env = \<lparr>
     g_expr_builder = SymbolicExprBuilder_create demo_env (Suc 0) (Suc 0),
     solver_apint = bv_api,
     z3_check = (\<lambda>k cs. if cs = [Holds (UnaryExpr 3 LNot demo_branch)] then sat [(0, 66)] else unsat),
     z3_eval = (\<lambda>_ _. 0),
     afl = \<lparr>find_image = (\<lambda>_. None), context_sensitive = False, writable = False\<rparr>,
     inputs = [65], out_dir = ''out'', can_open = (\<lambda>_. True)\<rparr>"

definition demo_solver :: solver where
  "demo_solver = \<lparr>bs = demo_bst, rsets = (\<lambda>_. no_range_sets), dep_forest = empty_forest,
     frames = [[]], checks = 0,
     trace = \<lparr>path = [], bitmap_file = None, prev_loc = 0, trace_map = [], virgin_map = [],
       context_map = [], visited = {}\<rparr>,
     last_interested = True, last_jcc = 0, num_generated = 0, testcases = []\<rparr>"

lemma demo_solver_simps [simp]:
  "rsets demo_solver = (\<lambda>_. no_range_sets)" "testcases demo_solver = []" "checks demo_solver = 0"
  "num_generated demo_solver = 0" "dep_forest demo_solver = empty_forest" "last_interested demo_solver"
  "frames demo_solver = [[]]" "bs demo_solver = demo_bst"
  by (simp_all add: demo_solver_def)

lemma demo_branch_den: "den dv \<rho> demo_branch = Some (BoolV (\<rho> 0 = 65))"
  by (simp add: demo_branch_def compareKind_def word_uint_eq_iff)

lemma demo_z3: "z3_ok dv demo_solver_env"
  unfolding z3_ok_def
  by (auto simp: demo_solver_env_def agrees_def zsem_def demo_branch_den demo_branch_def split: if_splits)

lemma demo_lnot:
  "bs s = demo_bst \<Longrightarrow>
   \<exists>b. build (createUnaryExpr (SymbolicExprBuilder_create demo_env (Suc 0) (Suc 0)) LNot demo_branch) s =
     Some (UnaryExpr 3 LNot demo_branch, s\<lparr>bs := b\<rparr>)"
  by (simp add: build_def demo_bst_def demo_branch_def SymbolicExprBuilder_create_def commutative_builder_def
      symbolic_layer_def symbolic_createUnaryExpr_def symbolic_createLNot_def common_layer_def
      const_folding_builder_def cf_createUnaryExpr_def cached_base_def cache_builder_def base_builder_def
      base_createUnaryExpr_def unaryKind_def make_shared_def findOrInsert_def findInCache_def find_def
      set_find_def ExprCache_def) blast

lemma demo_sync:
  "syncConstraints demo_solver_env demo_branch (reset demo_solver) =
     Some ((reset demo_solver)\<lparr>dep_forest := \<lparr>store = [empty_tree], forest = [Some 0]\<rparr>\<rparr>)"
  by (simp add: syncConstraints_def demo_branch_def demo_solver_def reset_def forest_find_def
      empty_forest_def empty_tree_def One_nat_def)

lemma demo_name: "toString6digit 0 = ''000000''"
proof -
  have "char_of (48 :: nat) = CHR ''0''"
    by code_simp
  then show ?thesis
    by (simp add: toString6digit_def decimal.simps, simp add: numeral_eq_Suc)
qed

lemma demo_save:
  "saveValues demo_solver_env [(0, 66)] [] s =
     Some (s\<lparr>testcases := testcases s @ [(Some (''out/'' @ toString6digit (num_generated s)), [66])],
             num_generated := num_generated s + 1\<rparr>)"
  by (simp add: saveValues_def getConcreteValues_def demo_solver_env_def Let_def)

lemma demo_negate: "\<exists>s1. negatePath demo_solver_env demo_branch True demo_solver = Some s1 \<and> rsets s1 = (\<lambda>_. no_range_sets) \<and>
   dep_forest s1 = \<lparr>store = [empty_tree], forest = [Some 0]\<rparr> \<and> testcases s1 = [(Some ''out/000000'', [66])]"
proof -
  let ?s = "(reset demo_solver)\<lparr>dep_forest := \<lparr>store = [empty_tree], forest = [Some 0]\<rparr>\<rparr>"
  obtain b where "build (createUnaryExpr (g_expr_builder demo_solver_env) LNot demo_branch) ?s = Some (UnaryExpr 3 LNot demo_branch, ?s\<lparr>bs := b\<rparr>)"
    using demo_lnot [of ?s] by (auto simp: demo_solver_env_def reset_def)
  then have "addToSolver demo_solver_env demo_branch False ?s = Some (?s\<lparr>bs := b, frames := [[Holds (UnaryExpr 3 LNot demo_branch)]]\<rparr>)"
    by (simp add: addToSolver_def add_def z3_add_def reset_def)
  moreover have "z3_check demo_solver_env k [Holds (UnaryExpr 3 LNot demo_branch)] = sat [(0, 66)]" for k
    by (simp add: demo_solver_env_def)
  ultimately show ?thesis
    by (simp add: negatePath_def demo_sync checkAndSave_def check_def asserted_def demo_save demo_name)
qed

lemma demo_record:
  assumes "rsets s = (\<lambda>_. no_range_sets)" "forest_ok getDeps [] (dep_forest s)"
  shows "\<exists>s'. addConstraint_path demo_solver_env demo_branch True s = Some s' \<and> testcases s' = testcases s"
proof -
  let ?r = "ReadExpr 1 0"
  have "parseConstSym demo_branch = Some (Equal, ?r, ConstantExpr 0 65 8)"
    by (simp add: demo_branch_def isConstant_def)
  moreover have "getCanonicalExpr demo_solver_env ?r s = Some ((?r, 8, 0), s)"
    by (simp add: getCanonicalExpr_def)
  moreover obtain R where "addConstraint bv_api 8 Equal (8, 65) (8, 0) no_range_sets = Some R"
    using addConstraint_step [OF bv_api_ok, of 8 no_range_sets Equal 65 0]
    by (auto simp: compareKind_def in_range_def)
  moreover obtain F where "forest_addNode getDeps ?r (dep_forest s) = Some F"
    using forest_ok_addNode [where D = getDeps and n = ?r, OF assms(2)] by auto
  ultimately have "addRangeConstraint demo_solver_env demo_branch True s =
      Some (True, s\<lparr>rsets := (rsets s)(?r := R), dep_forest := F\<rparr>)"
    using assms(1) by (simp add: addRangeConstraint_def addConstraint_node_def demo_solver_env_def) (simp add: demo_branch_def isConstSym_def isConstant_def)
  then show ?thesis
    by (simp add: addConstraint_path.simps [of demo_solver_env demo_branch]) (simp add: demo_branch_def)
qed

lemma demo_forest: "forest_ok getDeps [] \<lparr>store = [empty_tree], forest = [Some 0]\<rparr>"
proof -
  have "forest_find 0 (empty_forest :: expr dependency_forest) = (0, \<lparr>store = [empty_tree], forest = [Some 0]\<rparr>)"
    by (simp add: forest_find_def empty_forest_def One_nat_def)
  then show ?thesis
    using forest_ok_find forest_ok_empty by blast
qed

lemma demo_run: "\<exists>s'. addJcc demo_solver_env demo_branch True 0 demo_solver = Some s' \<and> testcases s' = [(Some ''out/000000'', [66])]"
proof -
  have [simp]: "negatePath demo_solver_env demo_branch True (demo_solver\<lparr>last_jcc := 0\<rparr>) = negatePath demo_solver_env demo_branch True demo_solver"
    "as_Bool demo_branch = None" "\<not> isConcrete demo_branch" "kind_of demo_branch = Equal"
    by (simp_all add: demo_solver_def demo_branch_def)
  obtain s1 where s1: "negatePath demo_solver_env demo_branch True demo_solver = Some s1" "rsets s1 = (\<lambda>_. no_range_sets)"
    "dep_forest s1 = \<lparr>store = [empty_tree], forest = [Some 0]\<rparr>" "testcases s1 = [(Some ''out/000000'', [66])]"
    using demo_negate by blast
  then obtain s' where "addConstraint_path demo_solver_env demo_branch True s1 = Some s'" "testcases s' = testcases s1"
    using demo_record [of s1] demo_forest by auto
  with s1 show ?thesis
    by (simp add: addJcc_def Let_def)
qed

text \<open>
  The state after the branch has been recorded: the tree of byte 0 holds the byte, whose signed
  range set is down to 65. Its constraint is built and asserted when a later expression shares
  the byte.
\<close>

definition demo_range_sets :: range_sets where
  "demo_range_sets = \<lparr>signed_set = Some \<lparr>BV_ranges = factory False 8, ranges = [(65, 65)]\<rparr>, unsigned_set = None\<rparr>"

definition demo_recorded :: solver where
  "demo_recorded = demo_solver\<lparr>rsets := (\<lambda>_. no_range_sets)(ReadExpr 1 0 := demo_range_sets),
     dep_forest := \<lparr>store = [\<lparr>nodes_ids = [ReadExpr 1 0], tree_deps = {0}\<rparr>], forest = [Some 0]\<rparr>\<rparr>"

definition demo_asserted :: expr where
  "demo_asserted = BinaryExpr 4 Equal (ConstantExpr 3 65 8) (ReadExpr 1 0)"

lemma demo_asserted_den: "den dv \<rho> demo_asserted = Some (BoolV (\<rho> 0 = 65))"
  by (simp add: demo_asserted_def compareKind_def word_uint_eq_iff)

lemma demo_range_recorded: "addConstraint bv_api 8 Equal (8, 65) (8, 0) no_range_sets = Some demo_range_sets"
  by code_simp

lemma demo_constant:
  "createConstantAP (SymbolicExprBuilder_create demo_env (Suc 0) (Suc 0)) 65 8 demo_bst =
     Some (ConstantExpr 3 65 8, demo_bst\<lparr>next_oid := 4\<rparr>)"
  by (simp add: demo_bst_def SymbolicExprBuilder_create_def commutative_builder_def commutative_layer_def
      symbolic_layer_def common_layer_def const_folding_builder_def cached_base_def cache_builder_def base_builder_def
      make_shared_def)

lemma demo_equal: "\<exists>b. createBinaryExpr (SymbolicExprBuilder_create demo_env (Suc 0) (Suc 0)) Equal (ReadExpr 1 0) (ConstantExpr 3 65 8)
      (demo_bst\<lparr>next_oid := 4\<rparr>) = Some (demo_asserted, b)"
  by (simp add: demo_asserted_def demo_bst_def SymbolicExprBuilder_create_def commutative_builder_def commutative_binary
      isConstant_def symbolic_layer_def symbolic_createBinaryExpr_def symbolic_createEqual_def common_layer_def
      common_createBinaryExpr_def common_createEqual_def const_folding_builder_def cf_createBinaryExpr_def
      cached_base_def cache_builder_def base_builder_def base_createBinaryExpr_def binaryKind_def make_shared_def
      findOrInsert_def findInCache_def find_def set_find_def ExprCache_def)

lemma demo_range_constraint:
  assumes "bs s = demo_bst" "rsets s (ReadExpr 1 0) = demo_range_sets"
  shows "\<exists>b. getRangeConstraint demo_solver_env (ReadExpr 1 0) False s = Some (Some demo_asserted, s\<lparr>bs := b\<rparr>)"
proof -
  obtain b where "createBinaryExpr (SymbolicExprBuilder_create demo_env (Suc 0) (Suc 0)) Equal (ReadExpr 1 0)
      (ConstantExpr 3 65 8) (demo_bst\<lparr>next_oid := 4\<rparr>) = Some (demo_asserted, b)"
    using demo_equal by blast
  with assms show ?thesis
    by (intro exI [of _ b]) (simp add: getRangeConstraint_def demo_range_sets_def getRangeSet_def range_bound_def demo_solver_env_def
        build_def aps_bits_def factory_def demo_constant)
qed

lemma demo_recorded_run: "addConstraint_path demo_solver_env demo_branch True demo_solver = Some demo_recorded"
proof -
  let ?r = "ReadExpr 1 0"
  have "parseConstSym demo_branch = Some (Equal, ?r, ConstantExpr 0 65 8)"
    by (simp add: demo_branch_def isConstant_def)
  moreover have "getCanonicalExpr demo_solver_env ?r s = Some ((?r, 8, 0), s)" for s
    by (simp add: getCanonicalExpr_def)
  moreover have "forest_addNode getDeps ?r empty_forest =
      Some \<lparr>store = [\<lparr>nodes_ids = [?r], tree_deps = {0}\<rparr>], forest = [Some 0]\<rparr>"
    by (simp add: forest_addNode_def forest_find_def empty_forest_def empty_tree_def set_slot_def
        DependencyTree_addNode_def One_nat_def Let_def)
  ultimately have "addRangeConstraint demo_solver_env demo_branch True demo_solver = Some (True, demo_recorded)"
    by (simp add: addRangeConstraint_def addConstraint_node_def demo_solver_env_def demo_recorded_def demo_range_recorded)
      (simp add: demo_branch_def isConstSym_def isConstant_def)
  then show ?thesis
    by (simp add: addConstraint_path.simps [of demo_solver_env demo_branch]) (simp add: demo_branch_def)
qed

lemma demo_recorded_sync:
  "\<exists>b. syncConstraints demo_solver_env demo_branch (reset demo_recorded) =
     Some ((reset demo_recorded)\<lparr>bs := b, frames := [[Holds demo_asserted]]\<rparr>)"
proof -
  obtain b where "getRangeConstraint demo_solver_env (ReadExpr 1 0) False (reset demo_recorded) =
      Some (Some demo_asserted, (reset demo_recorded)\<lparr>bs := b\<rparr>)"
    using demo_range_constraint [of "reset demo_recorded"] by (auto simp: reset_def demo_recorded_def)
  then have "sync_node demo_solver_env (ReadExpr 1 0) (reset demo_recorded) =
      Some ((reset demo_recorded)\<lparr>bs := b, frames := [[Holds demo_asserted]]\<rparr>)"
    by (simp add: sync_node_def sync_range_def addToSolver_def add_def z3_add_def reset_def demo_asserted_def)
      (simp add: getRangeConstraint_def getRangeSet_def demo_recorded_def demo_range_sets_def)
  moreover have "find_trees [0] (reset demo_recorded) = ([0], reset demo_recorded)"
    by (simp add: forest_find_def reset_def demo_recorded_def)
  moreover have "getDeps demo_branch = {0}" "nodes_at (dep_forest (reset demo_recorded)) 0 = [ReadExpr 1 0]"
    by (simp_all add: demo_branch_def reset_def demo_recorded_def)
  ultimately show ?thesis
    by (intro exI [of _ b]) (simp add: syncConstraints_def)
qed

lemma demo_recorded_inv:
  "\<exists>ns. path_inv False (\<lambda>_. 65) [(demo_branch, True)] ns demo_recorded \<and> set ns = {ReadExpr 1 0}"
proof -
  have B: "builder_ok False (g_expr_builder demo_solver_env)"
    by (simp add: demo_solver_env_def demo_env_def builder_ok_def symbolic_stack_sound bv_api_ok)
  have "\<exists>ns. path_inv False (\<lambda>_. 65) ([] @ [(demo_branch, True)]) ns demo_recorded"
    by (rule path_inv_path [OF B _ _ _ demo_recorded_run, where ns = "[]"])
      (simp_all add: demo_solver_env_def bv_api_ok demo_branch_den path_inv_init)
  then obtain ns where inv: "path_inv False (\<lambda>_. 65) [(demo_branch, True)] ns demo_recorded"
    by auto
  note ok = path_invD(1) [OF inv]
  have nodes: "set (tree_nodes (dep_forest demo_recorded) i) = (if i = 0 then {ReadExpr 1 0} else {})" for i
    by (simp add: tree_nodes_def slot_def demo_recorded_def)
  have "n = ReadExpr 1 0" if "n \<in> set ns" for n
  proof -
    obtain d where "d \<in> getDeps n"
      using ok \<open>n \<in> set ns\<close> by (auto simp: forest_ok_def)
    then have "n \<in> set (tree_nodes (dep_forest demo_recorded) d)"
      using tree_nodes_member [OF ok, of n d] \<open>n \<in> set ns\<close> by blast
    then show ?thesis
      by (simp add: nodes split: if_splits)
  qed
  moreover have "ReadExpr 1 0 \<in> set ns"
    using tree_nodes_deps(1) [OF ok, of "ReadExpr 1 0" 0] by (simp add: nodes)
  ultimately show ?thesis
    using inv by blast
qed

text \<open>A state in which the signed range set of the byte is empty.\<close>

definition demo_ranged :: solver where
  "demo_ranged = demo_solver\<lparr>rsets := (\<lambda>_. no_range_sets)(ReadExpr 1 0 :=
     setRangeSet False \<lparr>BV_ranges = factory False 8, ranges = []\<rparr> no_range_sets)\<rparr>"

text \<open>An address space with one image at zero, and a bitmap that can be written.\<close>

definition demo_afl :: afl_env where
  "demo_afl = \<lparr>find_image = (\<lambda>_. Some (0, 1)), context_sensitive = True, writable = True\<rparr>"

end
