(* ===== verification/Memory.thy ===== *)
theory Memory
  imports Builder "HOL-Library.Word"
begin

unbundle bit_operations_syntax

section \<open>Symbolic memory\<close>

text \<open>
  \<open>memory.h\<close>, \<open>memory.cpp\<close>: for every byte of the program's memory a pointer to an expression, in
  pages of \<open>kPageSize\<close> pointers that the page table finds by the page number of the address.

  The pages live in areas, which \<open>allocPages\<close> (\<open>mmap\<close>) and \<open>safeRealloc\<close> (\<open>realloc\<close>) hand out and
  \<open>deallocPages\<close> (\<open>munmap\<close>) takes back. A pointer into an area is the number of the area and of the
  cell; \<open>None\<close> is the null pointer. An access that the processor refuses (a page without rights, a
  write to a read-only page, memory that is not mapped) and one that reads a cell which was never
  initialised are the outcome \<open>None\<close>, as \<open>LOG_FATAL\<close> is. An \<open>ExprRef\<close> has 16 bytes, so a page of
  the system holds 256 of them. Allocation succeeds if the size is not zero and fits into the
  address space. Sizes are numbers: one that would wrap around in \<open>size_t\<close>, for a range of \<open>2 ^ 60\<close>
  bytes, does not fit.
\<close>

subsection \<open>Areas of cells\<close>

datatype rights = PROT_NONE | PROT_READ | PROT_READ_WRITE | HEAP

datatype cell = Unmapped | Garbage | Cell "expr option"

record area =
  rights :: rights
  area_length :: nat
  cells :: "nat \<Rightarrow> cell"

datatype pointer = Ptr (area_of: nat) (cell_of: nat)

definition ptr_add :: "pointer \<Rightarrow> nat \<Rightarrow> pointer" where
  "ptr_add p n = Ptr (area_of p) (cell_of p + n)"

definition whole_pages :: "nat \<Rightarrow> nat" where
  "whole_pages n = (n + 255) div 256 * 256"

text \<open>\<open>x\<close> in \<open>*p\<close>, and \<open>*p = e\<close>.\<close>

definition read_cell :: "area list \<Rightarrow> pointer \<Rightarrow> expr option option" where
  "read_cell S p =
     (if area_of p < length S \<and> cell_of p < area_length (S ! area_of p) \<and> rights (S ! area_of p) \<noteq> PROT_NONE
      then case cells (S ! area_of p) (cell_of p) of Cell e \<Rightarrow> Some e | _ \<Rightarrow> None
      else None)"

definition write_cell :: "area list \<Rightarrow> pointer \<Rightarrow> expr option \<Rightarrow> area list option" where
  "write_cell S p e =
     (if area_of p < length S \<and> cell_of p < area_length (S ! area_of p) \<and>
         rights (S ! area_of p) \<in> {PROT_READ_WRITE, HEAP} \<and> cells (S ! area_of p) (cell_of p) \<noteq> Unmapped
      then Some (S[area_of p := (S ! area_of p)\<lparr>cells := (cells (S ! area_of p))(cell_of p := Cell e)\<rparr>])
      else None)"

text \<open>The sizes are numbers of cells; the kernel rounds up to its pages and refuses \<open>0\<close>.\<close>

definition allocPages :: "nat \<Rightarrow> rights \<Rightarrow> area list \<Rightarrow> (pointer \<times> area list) option" where
  "allocPages n r S =
     (if n = 0 \<or> 2 ^ 47 \<le> n * 16 then None
      else Some (Ptr (length S) 0, S @ [\<lparr>rights = r, area_length = whole_pages n, cells = (\<lambda>_. Cell None)\<rparr>]))"

definition allocRWPages :: "nat \<Rightarrow> area list \<Rightarrow> (pointer \<times> area list) option" where
  "allocRWPages n = allocPages n PROT_READ_WRITE"

text \<open>
  \<open>munmap\<close> fails for size \<open>0\<close> and an address that is not a page of the system, as those of the
  heap are. The null page is not mapped, so nothing happens there. A range that goes on behind the
  area hits what happens to be mapped there: no outcome.
\<close>

definition deallocPages :: "pointer option \<Rightarrow> nat \<Rightarrow> area list \<Rightarrow> area list option" where
  "deallocPages p n S =
     (if n = 0 then None
      else case p of
        None \<Rightarrow> Some S
      | Some (Ptr a k) \<Rightarrow>
          if k mod 256 = 0 \<and> a < length S \<and> rights (S ! a) \<noteq> HEAP \<and> k + whole_pages n \<le> area_length (S ! a)
          then Some (S[a := (S ! a)\<lparr>cells :=
            (\<lambda>i. if k \<le> i \<and> i < k + whole_pages n then Unmapped else cells (S ! a) i)\<rparr>])
          else None)"

text \<open>
  \<open>realloc\<close>: the cells move to a new place. \<open>fresh\<close> is what the new memory contains, null pointers
  or something else. Size \<open>0\<close> with a block frees it and gives null, which is fatal.
\<close>

definition safeRealloc ::
  "(nat \<Rightarrow> cell) \<Rightarrow> pointer option \<Rightarrow> nat \<Rightarrow> area list \<Rightarrow> (pointer \<times> area list) option" where
  "safeRealloc fresh p n S =
     (if 2 ^ 47 \<le> n * 16 then None
      else case p of
        None \<Rightarrow> Some (Ptr (length S) 0, S @ [\<lparr>rights = HEAP, area_length = n, cells = fresh\<rparr>])
      | Some (Ptr a k) \<Rightarrow>
          if n = 0 \<or> k \<noteq> 0 \<or> length S \<le> a \<or> rights (S ! a) \<noteq> HEAP then None
          else Some (Ptr (length S) 0,
            S[a := (S ! a)\<lparr>cells := (\<lambda>_. Unmapped)\<rparr>] @
            [\<lparr>rights = HEAP, area_length = n,
              cells = (\<lambda>i. if i < area_length (S ! a) then cells (S ! a) i else fresh i)\<rparr>]))"

text \<open>\<open>memcpy\<close> of \<open>n\<close> cells.\<close>

fun copy_cells :: "pointer \<Rightarrow> pointer \<Rightarrow> nat \<Rightarrow> area list \<Rightarrow> area list option" where
  "copy_cells dst src 0 S = Some S"
| "copy_cells dst src (Suc n) S = do {
     S \<leftarrow> copy_cells dst src n S;
     e \<leftarrow> read_cell S (ptr_add src n);
     write_cell S (ptr_add dst n) e }"

subsection \<open>Addresses\<close>

definition kPageShift :: nat where
  "kPageShift = 12"

definition kPageSize :: addr where
  "kPageSize = 2 ^ kPageShift"

definition kStackSize :: addr where
  "kStackSize = push_bit 11 kPageSize"

definition kPageMask :: addr where
  "kPageMask = kPageSize - 1"

definition addressToPageIndex :: "addr \<Rightarrow> addr" where
  "addressToPageIndex a = drop_bit kPageShift a"

definition pageIndexToAddress :: "addr \<Rightarrow> addr" where
  "pageIndexToAddress i = push_bit kPageShift i"

definition addressToOffset :: "addr \<Rightarrow> addr" where
  "addressToOffset a = a AND kPageMask"

definition roundUp :: "addr \<Rightarrow> addr \<Rightarrow> addr" where
  "roundUp num multiple =
     (let remainder = num mod multiple in
      if remainder = 0 then num else num + multiple - remainder)"

definition roundDown :: "addr \<Rightarrow> addr \<Rightarrow> addr" where
  "roundDown num multiple = num div multiple * multiple"

definition roundPageUp :: "addr \<Rightarrow> addr" where
  "roundPageUp num = roundUp num kPageSize"

definition roundPageDown :: "addr \<Rightarrow> addr" where
  "roundPageDown num = roundDown num kPageSize"

subsection \<open>The class Memory\<close>

text \<open>
  A page that is missing in the table and one that is mapped to the null pointer are the same to
  \<open>getPage\<close>, the only reader of the table. The members \<open>stack_page_\<close> and \<open>setupPageTable\<close> are not
  used.
\<close>

record memory =
  areas :: "area list"
  page_table :: "addr \<Rightarrow> pointer option"
  unmapped_page :: "pointer option"
  zero_page :: "pointer option"
  brk_page :: "pointer option"
  brk_start :: addr
  brk_end :: addr
  input_off :: addr

definition Memory :: memory where
  "Memory = \<lparr>areas = [], page_table = (\<lambda>_. None), unmapped_page = None, zero_page = None,
     brk_page = None, brk_start = 0, brk_end = 0, input_off = 0\<rparr>"

text \<open>The loops \<open>for (i = a, j = 0; i <= b; i++, j++) page_table_[i] = p j\<close>.\<close>

fun map_pages ::
  "(nat \<Rightarrow> pointer option) \<Rightarrow> nat \<Rightarrow> addr \<Rightarrow> nat \<Rightarrow> (addr \<Rightarrow> pointer option) \<Rightarrow> addr \<Rightarrow> pointer option" where
  "map_pages p 0 i j T = T"
| "map_pages p (Suc n) i j T = map_pages p n (i + 1) (Suc j) (T(i := p j))"

definition set_pages :: "(nat \<Rightarrow> pointer option) \<Rightarrow> addr \<Rightarrow> addr \<Rightarrow> memory \<Rightarrow> memory" where
  "set_pages p a b m =
     m\<lparr>page_table := map_pages p (Suc (unat b) - unat a) a 0 (page_table m)\<rparr>"

definition page_of :: "pointer \<Rightarrow> nat \<Rightarrow> pointer option" where
  "page_of p j = Some (ptr_add p (j * unat kPageSize))"

text \<open>\<open>getVdso\<close> reads the addresses of the vdso from the system; they are a parameter.\<close>

definition setupVdso :: "addr \<times> addr \<Rightarrow> memory \<Rightarrow> memory" where
  "setupVdso vdso m = (case vdso of (start_addr, end_addr) \<Rightarrow>
     if start_addr \<noteq> 0
     then set_pages (\<lambda>_. zero_page m) (addressToPageIndex start_addr) (addressToPageIndex end_addr) m
     else m)"

definition initialize :: "addr \<times> addr \<Rightarrow> memory \<Rightarrow> memory option" where
  "initialize vdso m = do {
     (u, S) \<leftarrow> allocPages (unat kPageSize) PROT_NONE (areas m);
     (z, S) \<leftarrow> allocPages (unat kPageSize) PROT_READ S;
     Some (setupVdso vdso (m\<lparr>areas := S, unmapped_page := Some u, zero_page := Some z\<rparr>)) }"

text \<open>The destructor gives back the unmapped page twice, and the zero page never.\<close>

definition destroy :: "memory \<Rightarrow> memory option" where
  "destroy m = do {
     S \<leftarrow> (if unmapped_page m \<noteq> None
       then deallocPages (unmapped_page m) (unat kPageSize) (areas m) else Some (areas m));
     S \<leftarrow> (if zero_page m \<noteq> None
       then deallocPages (unmapped_page m) (unat kPageSize) S else Some S);
     Some (m\<lparr>areas := S\<rparr>) }"

definition mmap :: "addr \<Rightarrow> addr \<Rightarrow> memory \<Rightarrow> memory option" where
  "mmap start end_addr m =
     (let start = roundPageDown start; end_addr = roundPageDown end_addr;
          n = end_addr - start + kPageSize in
      if n \<le> 0 then None
      else do {
        (page, S) \<leftarrow> allocRWPages (unat n) (areas m);
        Some (set_pages (page_of page) (addressToPageIndex start) (addressToPageIndex end_addr)
          (m\<lparr>areas := S\<rparr>)) })"

definition allocateStack :: "addr \<Rightarrow> memory \<Rightarrow> memory option" where
  "allocateStack stack_start m =
     (let stack_start = roundPageUp stack_start + kPageSize in
      mmap (stack_start - kStackSize) stack_start m)"

definition getPage :: "memory \<Rightarrow> addr \<Rightarrow> pointer option" where
  "getPage m a = page_table m (addressToPageIndex a)"

definition mremap :: "addr \<Rightarrow> addr \<Rightarrow> addr \<Rightarrow> addr \<Rightarrow> memory \<Rightarrow> memory option" where
  "mremap old_start old_size new_start new_size m =
     (let old_end = roundPageDown (old_start + old_size - 1);
          new_end = roundPageDown (new_start + new_size - 1) in do {
        (new_page, S) \<leftarrow> allocRWPages (unat new_size) (areas m);
        S \<leftarrow> (if old_size = 0 then Some S else do {
          old_page \<leftarrow> getPage m old_start;
          copy_cells new_page old_page (unat old_size) S });
        S \<leftarrow> deallocPages (getPage m old_start) (unat old_size) S;
        let m = set_pages (\<lambda>_. unmapped_page m) (addressToPageIndex old_start) (addressToPageIndex old_end)
          (m\<lparr>areas := S\<rparr>);
        Some (set_pages (\<lambda>_. Some new_page) (addressToPageIndex new_start) (addressToPageIndex new_end) m) })"

definition munmap :: "addr \<Rightarrow> addr \<Rightarrow> memory \<Rightarrow> memory option" where
  "munmap start sz m =
     (let end_addr = roundPageDown (start + sz - 1); start = roundPageUp start in do {
        S \<leftarrow> deallocPages (getPage m start) (unat sz) (areas m);
        Some (set_pages (\<lambda>_. unmapped_page m) (addressToPageIndex start) (addressToPageIndex end_addr)
          (m\<lparr>areas := S\<rparr>)) })"

definition initializeBrk :: "addr \<Rightarrow> memory \<Rightarrow> memory" where
  "initializeBrk a m =
     (if brk_start m = 0 then (let a = roundPageUp a in m\<lparr>brk_start := a, brk_end := a\<rparr>) else m)"

definition brk :: "(nat \<Rightarrow> cell) \<Rightarrow> addr \<Rightarrow> memory \<Rightarrow> memory option" where
  "brk fresh a m =
     (let start = brk_start m; end_addr = roundPageUp a in do {
        (page, S) \<leftarrow> safeRealloc fresh (brk_page m) (unat (end_addr - start)) (areas m);
        let m = set_pages (page_of page) (addressToPageIndex start) (addressToPageIndex (end_addr - 1))
          (m\<lparr>areas := S, brk_page := Some page\<rparr>);
        let m = set_pages (\<lambda>_. unmapped_page m) (addressToPageIndex end_addr) (addressToPageIndex (brk_end m)) m;
        Some (m\<lparr>brk_end := end_addr\<rparr>) })"

definition isUnmappedAddress :: "memory \<Rightarrow> addr \<Rightarrow> bool" where
  "isUnmappedAddress m vaddr \<longleftrightarrow> getPage m vaddr = unmapped_page m"

partial_function (option) isReadable_loop :: "memory \<Rightarrow> addr \<Rightarrow> addr \<Rightarrow> bool option" where
  "isReadable_loop m page end_addr =
     (if page > end_addr then Some True
      else if isUnmappedAddress m page then Some False
      else isReadable_loop m (page + kPageSize) end_addr)"

definition isReadable :: "memory \<Rightarrow> addr \<Rightarrow> nat \<Rightarrow> bool option" where
  "isReadable m vaddr n = isReadable_loop m (roundPageDown vaddr) (vaddr + of_nat n)"

subsection \<open>Expressions of bytes\<close>

definition getExprPtrFromMem :: "memory \<Rightarrow> addr \<Rightarrow> pointer option" where
  "getExprPtrFromMem m a =
     (case getPage m a of
        None \<Rightarrow> zero_page m
      | Some page \<Rightarrow> Some (ptr_add page (unat (addressToOffset a))))"

text \<open>The functions on one byte.\<close>

definition getExprFromMem :: "memory \<Rightarrow> addr \<Rightarrow> expr option option" where
  "getExprFromMem m a = do { p \<leftarrow> getExprPtrFromMem m a; read_cell (areas m) p }"

definition clearExprFromMem :: "addr \<Rightarrow> memory \<Rightarrow> memory option" where
  "clearExprFromMem a m = do {
     p \<leftarrow> getExprPtrFromMem m a;
     e \<leftarrow> read_cell (areas m) p;
     if e \<noteq> None then do { S \<leftarrow> write_cell (areas m) p None; Some (m\<lparr>areas := S\<rparr>) } else Some m }"

definition setExprToMem :: "addr \<Rightarrow> expr option \<Rightarrow> memory \<Rightarrow> memory option" where
  "setExprToMem a e m =
     (if e = None then clearExprFromMem a m
      else do {
        m \<leftarrow> clearExprFromMem a m;
        p \<leftarrow> getExprPtrFromMem m a;
        S \<leftarrow> write_cell (areas m) p e;
        Some (m\<lparr>areas := S\<rparr>) })"

text \<open>
  The functions on ranges also use the builder. The state holds the memory and the state of the
  builders; the state of a thread and of the whole tool extend it. \<open>B\<close> is \<open>g_expr_builder\<close>, and
  \<open>pm\<close> what \<open>PIN_SafeCopy\<close> reads of the program's memory. A range \<open>size\<close> is at least \<open>0\<close>.
\<close>

record expr_state =
  g_memory :: memory
  builder_state :: bst

type_synonym ('a, 'z) step = "'z expr_state_scheme \<Rightarrow> ('a \<times> 'z expr_state_scheme) option"
type_synonym 'z change = "'z expr_state_scheme \<Rightarrow> 'z expr_state_scheme option"
type_synonym pin_memory = "addr \<Rightarrow> 8 word"

definition building :: "'a build \<Rightarrow> ('a, 'z) step" where
  "building f s = (case f (builder_state s) of None \<Rightarrow> None | Some (x, b) \<Rightarrow> Some (x, s\<lparr>builder_state := b\<rparr>))"

definition on_memory :: "(memory \<Rightarrow> memory option) \<Rightarrow> 'z change" where
  "on_memory f s = do { m \<leftarrow> f (g_memory s); Some (s\<lparr>g_memory := m\<rparr>) }"

fun isSymbolicMem_loop :: "memory \<Rightarrow> addr \<Rightarrow> nat list \<Rightarrow> bool option" where
  "isSymbolicMem_loop m a [] = Some False"
| "isSymbolicMem_loop m a (i # is) = do {
     e \<leftarrow> getExprFromMem m (a + of_nat i);
     if e \<noteq> None then Some True else isSymbolicMem_loop m a is }"

definition isSymbolicMem :: "memory \<Rightarrow> addr \<Rightarrow> nat \<Rightarrow> bool option" where
  "isSymbolicMem m a n = isSymbolicMem_loop m a [0..<n]"

fun clearExprFromMem_loop :: "addr \<Rightarrow> nat list \<Rightarrow> memory \<Rightarrow> memory option" where
  "clearExprFromMem_loop a [] m = Some m"
| "clearExprFromMem_loop a (i # is) m = do {
     m \<leftarrow> clearExprFromMem (a + of_nat i) m; clearExprFromMem_loop a is m }"

definition clearExprFromMem_range :: "addr \<Rightarrow> nat \<Rightarrow> memory \<Rightarrow> memory option" where
  "clearExprFromMem_range a n = clearExprFromMem_loop a [0..<n]"

fun setExprToMem_loop :: "builder \<Rightarrow> addr \<Rightarrow> expr \<Rightarrow> nat list \<Rightarrow> 'z change" where
  "setExprToMem_loop B a e [] s = Some s"
| "setExprToMem_loop B a e (i # is) s = do {
     (new_expr, s) \<leftarrow> building (createExtract B e (i * 8) 8) s;
     s \<leftarrow> on_memory (setExprToMem (a + of_nat i) (Some new_expr)) s;
     setExprToMem_loop B a e is s }"

definition setExprToMem_range :: "builder \<Rightarrow> addr \<Rightarrow> nat \<Rightarrow> expr option \<Rightarrow> 'z change" where
  "setExprToMem_range B a n e s = (case e of
     None \<Rightarrow> on_memory (clearExprFromMem_range a n) s
   | Some e \<Rightarrow> setExprToMem_loop B a e [0..<n] s)"

text \<open>The bytes \<open>val\<close> and the list \<open>exprs\<close> of the parts, the part at the highest address first.\<close>

fun getExprFromMem_loop ::
  "builder \<Rightarrow> (nat \<Rightarrow> 8 word) \<Rightarrow> addr \<Rightarrow> nat list \<Rightarrow> expr list \<Rightarrow> (expr list, 'z) step" where
  "getExprFromMem_loop B val a [] exprs s = Some (exprs, s)"
| "getExprFromMem_loop B val a (i # is) exprs s = do {
     e_partial \<leftarrow> getExprFromMem (g_memory s) (a + of_nat i);
     (e, s) \<leftarrow> (case e_partial of
        Some e \<Rightarrow> Some (e, s)
      | None \<Rightarrow> building (createConstant B (unat (val i)) 8) s);
     getExprFromMem_loop B val a is (e # exprs) s }"

definition getExprFromMem_range ::
  "builder \<Rightarrow> pin_memory \<Rightarrow> addr \<Rightarrow> nat \<Rightarrow> (expr option, 'z) step" where
  "getExprFromMem_range B pm a n s = do {
     sym \<leftarrow> isSymbolicMem (g_memory s) a n;
     if \<not> sym then Some (None, s)
     else do {
       (exprs, s) \<leftarrow> getExprFromMem_loop B (\<lambda>i. pm (a + of_nat i)) a [0..<n] [] s;
       (e, s) \<leftarrow> building (createConcat_list B exprs) s;
       if isConcrete e then do { s \<leftarrow> on_memory (clearExprFromMem_range a n) s; Some (None, s) }
       else Some (Some e, s) } }"

text \<open>\<open>getMemValue\<close> with the lowest address last in the number, and its constant.\<close>

definition getMemValue :: "pin_memory \<Rightarrow> addr \<Rightarrow> nat \<Rightarrow> int" where
  "getMemValue pm a n = horner_sum uint (2 ^ 8) (map (\<lambda>i. pm (a + of_nat i)) [0..<n])"

definition getMemValueExpr :: "builder \<Rightarrow> pin_memory \<Rightarrow> addr \<Rightarrow> nat \<Rightarrow> (expr, 'z) step" where
  "getMemValueExpr B pm a n = building (createConstantAP B (getMemValue pm a n) (n * 8))"

text \<open>The input: \<open>makeExpr\<close> gives a byte of memory the expression of the next input byte.\<close>

definition makeExpr :: "builder \<Rightarrow> addr \<Rightarrow> 'z change" where
  "makeExpr B a s = (let o' = input_off (g_memory s) in do {
     (e, s) \<leftarrow> building (createRead B (unat o')) (s\<lparr>g_memory := (g_memory s)\<lparr>input_off := o' + 1\<rparr>\<rparr>);
     on_memory (setExprToMem a (Some e)) s })"

fun makeExpr_loop :: "builder \<Rightarrow> addr \<Rightarrow> nat list \<Rightarrow> 'z change" where
  "makeExpr_loop B a [] s = Some s"
| "makeExpr_loop B a (i # is) s = do { s \<leftarrow> makeExpr B (a + of_nat i) s; makeExpr_loop B a is s }"

definition makeExpr_range :: "builder \<Rightarrow> addr \<Rightarrow> nat \<Rightarrow> 'z change" where
  "makeExpr_range B a n = makeExpr_loop B a [0..<n]"

definition lseek :: "addr \<Rightarrow> memory \<Rightarrow> memory" where
  "lseek o' m = m\<lparr>input_off := o'\<rparr>"

definition tell :: "memory \<Rightarrow> addr" where
  "tell m = input_off m"

end
