(* ===== verification/Flags.thy ===== *)
theory Flags
  imports BuilderLaws "HOL-Library.Word"
begin

unbundle bit_operations_syntax


section \<open>Flags and conditions of jumps\<close>

text \<open>
  \<open>flags.h\<close>, \<open>flags.cpp\<close>: the flags of the processor are not kept as expressions. \<open>Eflags\<close> remembers
  for each kind of operation the last operands and result, and the order of the last twelve
  operations in a ring; the expression of a flag, or of the condition of a jump, is built when
  it is asked for. A null pointer is \<open>None\<close>; using it, a failed assertion or an index out of
  bounds is the outcome \<open>None\<close>. \<open>B\<close> is \<open>g_expr_builder\<close>. The argument \<open>ctx\<close> is not used by the code.
\<close>

subsection \<open>Kinds\<close>

datatype jcc_kind = JCC_B | JCC_BE | JCC_L | JCC_LE | JCC_O | JCC_S | JCC_P | JCC_Z

datatype op_kind =
    CC_OP_ADD | CC_OP_SUB | CC_OP_LOGIC | CC_OP_INC | CC_OP_DEC | CC_OP_SHL | CC_OP_SHR
  | CC_OP_ROR | CC_OP_ROL | CC_OP_SMUL | CC_OP_UMUL | CC_OP_BT

definition CC_OP_LAST :: nat where
  "CC_OP_LAST = 12"

datatype eflag = EFLAGS_CF | EFLAGS_PF | EFLAGS_AF | EFLAGS_ZF | EFLAGS_SF | EFLAGS_OF

fun eflag_bit :: "eflag \<Rightarrow> nat" where
  "eflag_bit EFLAGS_CF = 0"
| "eflag_bit EFLAGS_PF = 2"
| "eflag_bit EFLAGS_AF = 4"
| "eflag_bit EFLAGS_ZF = 6"
| "eflag_bit EFLAGS_SF = 7"
| "eflag_bit EFLAGS_OF = 11"

definition eflag :: "eflag \<Rightarrow> 32 word" where
  "eflag f = push_bit (eflag_bit f) 1"

fun getAffectedEflagsFromOpKind :: "op_kind \<Rightarrow> 32 word" where
  "getAffectedEflagsFromOpKind CC_OP_BT = eflag EFLAGS_CF"
| "getAffectedEflagsFromOpKind CC_OP_INC =
     (eflag EFLAGS_PF OR eflag EFLAGS_ZF OR eflag EFLAGS_SF OR eflag EFLAGS_OF)"
| "getAffectedEflagsFromOpKind CC_OP_DEC =
     (eflag EFLAGS_PF OR eflag EFLAGS_ZF OR eflag EFLAGS_SF OR eflag EFLAGS_OF)"
| "getAffectedEflagsFromOpKind CC_OP_ROR = (eflag EFLAGS_CF OR eflag EFLAGS_OF)"
| "getAffectedEflagsFromOpKind CC_OP_ROL = (eflag EFLAGS_CF OR eflag EFLAGS_OF)"
| "getAffectedEflagsFromOpKind _ =
     (eflag EFLAGS_CF OR eflag EFLAGS_PF OR eflag EFLAGS_ZF OR eflag EFLAGS_SF OR eflag EFLAGS_OF)"

fun getUndefinedEflagsFromOpKind :: "op_kind \<Rightarrow> 32 word" where
  "getUndefinedEflagsFromOpKind CC_OP_BT =
     (eflag EFLAGS_OF OR eflag EFLAGS_SF OR eflag EFLAGS_AF OR eflag EFLAGS_PF)"
| "getUndefinedEflagsFromOpKind _ = 0"

definition getEflagsFromOpKind :: "op_kind \<Rightarrow> 32 word" where
  "getEflagsFromOpKind k = (getAffectedEflagsFromOpKind k OR getUndefinedEflagsFromOpKind k)"

fun getEflagsFromJcc :: "jcc_kind \<Rightarrow> 32 word" where
  "getEflagsFromJcc JCC_B = eflag EFLAGS_CF"
| "getEflagsFromJcc JCC_BE = (eflag EFLAGS_CF OR eflag EFLAGS_ZF)"
| "getEflagsFromJcc JCC_L = (eflag EFLAGS_SF OR eflag EFLAGS_OF)"
| "getEflagsFromJcc JCC_LE = (eflag EFLAGS_SF OR eflag EFLAGS_OF OR eflag EFLAGS_ZF)"
| "getEflagsFromJcc JCC_S = eflag EFLAGS_SF"
| "getEflagsFromJcc JCC_Z = eflag EFLAGS_ZF"
| "getEflagsFromJcc JCC_O = eflag EFLAGS_OF"
| "getEflagsFromJcc JCC_P = eflag EFLAGS_PF"

subsection \<open>Operations\<close>

record flag_operation =
  op_kind :: "op_kind option"
  op_flags :: "32 word"
  op_timestamp :: nat
  op_result :: "expr option"
  op_dst :: "expr option"
  op_src :: "expr option"

definition FlagOperation :: flag_operation where
  "FlagOperation = \<lparr>op_kind = None, op_flags = 0, op_timestamp = 0,
     op_result = None, op_dst = None, op_src = None\<rparr>"

definition FlagOperation_set ::
  "nat \<Rightarrow> op_kind \<Rightarrow> expr option \<Rightarrow> expr option \<Rightarrow> expr option \<Rightarrow> flag_operation" where
  "FlagOperation_set now k r d x = \<lparr>op_kind = Some k, op_flags = getEflagsFromOpKind k,
     op_timestamp = now, op_result = r, op_dst = d, op_src = x\<rparr>"

text \<open>The methods of the base class.\<close>

fun computePF_loop :: "builder \<Rightarrow> expr \<Rightarrow> nat list \<Rightarrow> expr option \<Rightarrow> expr option build" where
  "computePF_loop B r [] res s = Some (res, s)"
| "computePF_loop B r (i # is) res s = do {
     (expr_bit, s) \<leftarrow> createExtract B r i 1 s;
     (e, s) \<leftarrow> (case res of None \<Rightarrow> Some (expr_bit, s)
       | Some x \<Rightarrow> createBinaryExpr B Xor expr_bit x s);
     computePF_loop B r is (Some e) s }"

definition computePF :: "builder \<Rightarrow> flag_operation \<Rightarrow> expr build" where
  "computePF B op s = do {
     (expr_bit_zero, s) \<leftarrow> createConstant B 0 1 s;
     r \<leftarrow> op_result op;
     (expr_res, s) \<leftarrow> computePF_loop B r [0..<8] None s;
     e \<leftarrow> expr_res;
     createBinaryExpr B Equal expr_bit_zero e s }"

definition computeSF :: "builder \<Rightarrow> flag_operation \<Rightarrow> expr build" where
  "computeSF B op s = do {
     r \<leftarrow> op_result op;
     (zero, s) \<leftarrow> createConstant B 0 (bits r) s;
     createBinaryExpr B Slt r zero s }"

definition computeZF :: "builder \<Rightarrow> flag_operation \<Rightarrow> expr build" where
  "computeZF B op s = do {
     r \<leftarrow> op_result op;
     (zero, s) \<leftarrow> createConstant B 0 (bits r) s;
     createBinaryExpr B Equal r zero s }"

text \<open>The overflow flag, one definition for each class that overrides it.\<close>

definition Add_computeOF :: "builder \<Rightarrow> flag_operation \<Rightarrow> expr build" where
  "Add_computeOF B op s = do {
     r \<leftarrow> op_result op; d \<leftarrow> op_dst op; x \<leftarrow> op_src op;
     (e, s) \<leftarrow> createBinaryExpr B Xor d x s;
     (e, s) \<leftarrow> createUnaryExpr B Not e s;
     (e, s) \<leftarrow> createMsb B e s;
     (e2, s) \<leftarrow> createBinaryExpr B Xor r d s;
     (e2, s) \<leftarrow> createMsb B e2 s;
     (e, s) \<leftarrow> createBinaryExpr B And e e2 s;
     bitToBool B e s }"

definition Sub_computeOF :: "builder \<Rightarrow> flag_operation \<Rightarrow> expr build" where
  "Sub_computeOF B op s = do {
     r \<leftarrow> op_result op; d \<leftarrow> op_dst op; x \<leftarrow> op_src op;
     (e, s) \<leftarrow> createBinaryExpr B Xor d x s;
     (e, s) \<leftarrow> createMsb B e s;
     (e2, s) \<leftarrow> createBinaryExpr B Xor r d s;
     (e2, s) \<leftarrow> createMsb B e2 s;
     (e, s) \<leftarrow> createBinaryExpr B And e e2 s;
     bitToBool B e s }"

definition Inc_computeOF :: "apint_api \<Rightarrow> builder \<Rightarrow> flag_operation \<Rightarrow> expr build" where
  "Inc_computeOF A B op s = do {
     r \<leftarrow> op_result op;
     let n = bits r;
     let v = ap_add A n 0 1;
     let v = ap_shl A n v (int (n - 1));
     (expr_imm, s) \<leftarrow> createConstantAP B v n s;
     createBinaryExpr B Equal r expr_imm s }"

definition Dec_computeOF :: "apint_api \<Rightarrow> builder \<Rightarrow> flag_operation \<Rightarrow> expr build" where
  "Dec_computeOF A B op s = do {
     r \<leftarrow> op_result op;
     let n = bits r;
     let v = ap_add A n 0 1;
     let v = ap_shl A n v (int (n - 1));
     let v = ap_sub A n v 1;
     (expr_imm, s) \<leftarrow> createConstantAP B v n s;
     createBinaryExpr B Equal r expr_imm s }"

definition Shift_computeOF :: "builder \<Rightarrow> flag_operation \<Rightarrow> expr build" where
  "Shift_computeOF B op s = do {
     r \<leftarrow> op_result op; d \<leftarrow> op_dst op;
     (e, s) \<leftarrow> createBinaryExpr B Xor r d s;
     (e, s) \<leftarrow> createMsb B e s;
     bitToBool B e s }"

definition Rol_computeOF :: "builder \<Rightarrow> flag_operation \<Rightarrow> expr build" where
  "Rol_computeOF B op s = do {
     r \<leftarrow> op_result op;
     (e, s) \<leftarrow> createMsb B r s;
     (e2, s) \<leftarrow> createLsb B r s;
     (e, s) \<leftarrow> createBinaryExpr B Xor e e2 s;
     bitToBool B e s }"

definition Ror_computeOF :: "builder \<Rightarrow> flag_operation \<Rightarrow> expr build" where
  "Ror_computeOF B op s = do {
     r \<leftarrow> op_result op;
     (e, s) \<leftarrow> createMsb B r s;
     (e2, s) \<leftarrow> createExtract B r (bits r - 2) 1 s;
     (e, s) \<leftarrow> createBinaryExpr B Xor e e2 s;
     bitToBool B e s }"

definition Mul_computeOF :: "builder \<Rightarrow> flag_operation \<Rightarrow> bool \<Rightarrow> expr build" where
  "Mul_computeOF B op sign s = do {
     r \<leftarrow> op_result op;
     (res, s) \<leftarrow> createExtract B r 0 (bits r div 2) s;
     (res, s) \<leftarrow> (if sign then createSExt B res (bits r) s else createZExt B res (bits r) s);
     createBinaryExpr B Equal res r s }"

text \<open>
  The virtual methods \<open>computeOF\<close> and \<open>computeCF\<close> of \<open>operations_[k]\<close>, whose class is the one that the
  constructor of \<open>Eflags\<close> creates for \<open>k\<close>. The base class asserts \<open>0\<close>.
\<close>

fun computeOF :: "apint_api \<Rightarrow> builder \<Rightarrow> op_kind \<Rightarrow> flag_operation \<Rightarrow> expr build" where
  "computeOF A B CC_OP_ADD op s = Add_computeOF B op s"
| "computeOF A B CC_OP_SUB op s = Sub_computeOF B op s"
| "computeOF A B CC_OP_LOGIC op s = createFalse B s"
| "computeOF A B CC_OP_INC op s = Inc_computeOF A B op s"
| "computeOF A B CC_OP_DEC op s = Dec_computeOF A B op s"
| "computeOF A B CC_OP_SHL op s = Shift_computeOF B op s"
| "computeOF A B CC_OP_SHR op s = Shift_computeOF B op s"
| "computeOF A B CC_OP_ROR op s = Ror_computeOF B op s"
| "computeOF A B CC_OP_ROL op s = Rol_computeOF B op s"
| "computeOF A B CC_OP_SMUL op s = Mul_computeOF B op True s"
| "computeOF A B CC_OP_UMUL op s = Mul_computeOF B op False s"
| "computeOF A B CC_OP_BT op s = None"

definition Add_computeCF :: "builder \<Rightarrow> flag_operation \<Rightarrow> expr build" where
  "Add_computeCF B op s = do { r \<leftarrow> op_result op; x \<leftarrow> op_src op; createBinaryExpr B Ult r x s }"

definition Sub_computeCF :: "builder \<Rightarrow> flag_operation \<Rightarrow> expr build" where
  "Sub_computeCF B op s = do { d \<leftarrow> op_dst op; x \<leftarrow> op_src op; createBinaryExpr B Ult d x s }"

definition Shl_computeCF :: "builder \<Rightarrow> flag_operation \<Rightarrow> expr build" where
  "Shl_computeCF B op s = do { d \<leftarrow> op_dst op; (e, s) \<leftarrow> createMsb B d s; bitToBool B e s }"

definition Shr_computeCF :: "builder \<Rightarrow> flag_operation \<Rightarrow> expr build" where
  "Shr_computeCF B op s = do { d \<leftarrow> op_dst op; (e, s) \<leftarrow> createLsb B d s; bitToBool B e s }"

definition Rol_computeCF :: "builder \<Rightarrow> flag_operation \<Rightarrow> expr build" where
  "Rol_computeCF B op s = do { r \<leftarrow> op_result op; (e, s) \<leftarrow> createLsb B r s; bitToBool B e s }"

definition Ror_computeCF :: "builder \<Rightarrow> flag_operation \<Rightarrow> expr build" where
  "Ror_computeCF B op s = do { r \<leftarrow> op_result op; (e, s) \<leftarrow> createMsb B r s; bitToBool B e s }"

fun computeCF :: "apint_api \<Rightarrow> builder \<Rightarrow> op_kind \<Rightarrow> flag_operation \<Rightarrow> expr option build" where
  "computeCF A B CC_OP_ADD op s = do { (e, s) \<leftarrow> Add_computeCF B op s; Some (Some e, s) }"
| "computeCF A B CC_OP_SUB op s = do { (e, s) \<leftarrow> Sub_computeCF B op s; Some (Some e, s) }"
| "computeCF A B CC_OP_LOGIC op s = do { (e, s) \<leftarrow> createFalse B s; Some (Some e, s) }"
| "computeCF A B CC_OP_INC op s = None"
| "computeCF A B CC_OP_DEC op s = None"
| "computeCF A B CC_OP_SHL op s = do { (e, s) \<leftarrow> Shl_computeCF B op s; Some (Some e, s) }"
| "computeCF A B CC_OP_SHR op s = do { (e, s) \<leftarrow> Shr_computeCF B op s; Some (Some e, s) }"
| "computeCF A B CC_OP_ROR op s = do { (e, s) \<leftarrow> Ror_computeCF B op s; Some (Some e, s) }"
| "computeCF A B CC_OP_ROL op s = do { (e, s) \<leftarrow> Rol_computeCF B op s; Some (Some e, s) }"
| "computeCF A B CC_OP_SMUL op s = do { (e, s) \<leftarrow> computeOF A B CC_OP_SMUL op s; Some (Some e, s) }"
| "computeCF A B CC_OP_UMUL op s = do { (e, s) \<leftarrow> computeOF A B CC_OP_UMUL op s; Some (Some e, s) }"
| "computeCF A B CC_OP_BT op s = Some (op_result op, s)"

subsection \<open>The class Eflags\<close>

text \<open>\<open>op_kinds_\<close> is filled with \<open>-1\<close> at first, the entries \<open>None\<close>.\<close>

record eflags =
  valid_set :: "32 word"
  operations :: "op_kind \<Rightarrow> flag_operation"
  op_kinds :: "op_kind option list"
  start :: "32 word"
  kTimeStampCounter :: nat

definition Eflags :: eflags where
  "Eflags = \<lparr>valid_set = 0, operations = (\<lambda>_. FlagOperation),
     op_kinds = replicate CC_OP_LAST None, start = 0, kTimeStampCounter = 0\<rparr>"

definition invalidate :: "op_kind \<Rightarrow> eflags \<Rightarrow> eflags" where
  "invalidate k E = E\<lparr>valid_set := valid_set E AND NOT (getEflagsFromOpKind k)\<rparr>"

definition validate :: "op_kind \<Rightarrow> eflags \<Rightarrow> eflags" where
  "validate k E = E\<lparr>valid_set :=
     (valid_set E AND NOT (getUndefinedEflagsFromOpKind k)) OR getAffectedEflagsFromOpKind k\<rparr>"

definition isValid :: "eflags \<Rightarrow> jcc_kind \<Rightarrow> bool" where
  "isValid E jcc = (let f = getEflagsFromJcc jcc in (valid_set E AND f) = f)"

definition Eflags_set :: "op_kind \<Rightarrow> expr option \<Rightarrow> expr option \<Rightarrow> expr option \<Rightarrow> eflags \<Rightarrow> eflags" where
  "Eflags_set k r d x E =
     (let next_start = (start E + 1) mod of_nat CC_OP_LAST;
          E = validate k E
      in E\<lparr>operations := (operations E)(k := FlagOperation_set (kTimeStampCounter E) k r d x),
           kTimeStampCounter := kTimeStampCounter E + 1,
           op_kinds := (op_kinds E)[unat next_start := Some k], start := next_start\<rparr>)"

text \<open>
  \<open>computeFlag\<close>: \<open>start_ - i\<close> is an unsigned difference, which wraps around modulo \<open>2 ^ 32\<close> before the
  remainder is taken.
\<close>

definition flag_of ::
  "apint_api \<Rightarrow> builder \<Rightarrow> op_kind \<Rightarrow> flag_operation \<Rightarrow> eflag \<Rightarrow> expr option build" where
  "flag_of A B k op f s = (case f of
     EFLAGS_CF \<Rightarrow> computeCF A B k op s
   | EFLAGS_PF \<Rightarrow> do { (e, s) \<leftarrow> computePF B op s; Some (Some e, s) }
   | EFLAGS_ZF \<Rightarrow> do { (e, s) \<leftarrow> computeZF B op s; Some (Some e, s) }
   | EFLAGS_SF \<Rightarrow> do { (e, s) \<leftarrow> computeSF B op s; Some (Some e, s) }
   | EFLAGS_OF \<Rightarrow> do { (e, s) \<leftarrow> computeOF A B k op s; Some (Some e, s) }
   | _ \<Rightarrow> Some (None, s))"

fun computeFlag_loop :: "apint_api \<Rightarrow> builder \<Rightarrow> eflags \<Rightarrow> eflag \<Rightarrow> nat list \<Rightarrow> expr option build" where
  "computeFlag_loop A B E f [] s = Some (None, s)"
| "computeFlag_loop A B E f (i # is) s =
     (let st = (start E - of_nat i) mod of_nat CC_OP_LAST in do {
        k \<leftarrow> op_kinds E ! unat st;
        let op = operations E k;
        if op_flags op AND eflag f \<noteq> 0 then flag_of A B k op f s
        else computeFlag_loop A B E f is s })"

definition computeFlag :: "apint_api \<Rightarrow> builder \<Rightarrow> eflags \<Rightarrow> eflag \<Rightarrow> expr option build" where
  "computeFlag A B E f = computeFlag_loop A B E f [0..<CC_OP_LAST]"

text \<open>
  \<open>computeFastJcc\<close>: the comparison that a subtraction decides directly, and the tests for zero and
  sign of the last result.
\<close>

fun sub_jcc :: "jcc_kind \<Rightarrow> kind option" where
  "sub_jcc JCC_B = Some Ult"
| "sub_jcc JCC_BE = Some Ule"
| "sub_jcc JCC_L = Some Slt"
| "sub_jcc JCC_LE = Some Sle"
| "sub_jcc JCC_Z = Some Equal"
| "sub_jcc _ = None"

definition fast_jcc_s :: "op_kind \<Rightarrow> jcc_kind \<Rightarrow> bool \<Rightarrow> kind option" where
  "fast_jcc_s k jcc neg =
     (if getEflagsFromOpKind k AND eflag EFLAGS_SF \<noteq> 0 \<and> jcc = JCC_S
      then Some (if neg then Sge else Slt)
      else if getEflagsFromOpKind k AND eflag EFLAGS_ZF \<noteq> 0 \<and> jcc = JCC_Z
      then Some (if neg then Distinct else Equal)
      else None)"

definition computeFastJcc :: "builder \<Rightarrow> eflags \<Rightarrow> jcc_kind \<Rightarrow> bool \<Rightarrow> expr option build" where
  "computeFastJcc B E jcc neg s = do {
     k \<leftarrow> op_kinds E ! unat (start E);
     let op = operations E k;
     if k = CC_OP_SUB \<and> jcc \<noteq> JCC_S then
       (case sub_jcc jcc of
          None \<Rightarrow> Some (None, s)
        | Some c \<Rightarrow> do {
            c \<leftarrow> (if neg then negateKind c else Some c);
            d \<leftarrow> op_dst op; x \<leftarrow> op_src op;
            (e, s) \<leftarrow> createBinaryExpr B c d x s;
            Some (Some e, s) })
     else
       (case fast_jcc_s k jcc neg of
          None \<Rightarrow> Some (None, s)
        | Some c \<Rightarrow> do {
            r \<leftarrow> op_result op;
            (expr_zero, s) \<leftarrow> createConstant B 0 (bits r) s;
            (e, s) \<leftarrow> createBinaryExpr B c r expr_zero s;
            Some (Some e, s) }) }"

text \<open>
  \<open>computeSlowJcc\<close>. The case of \<open>JCC_Z\<close> has no \<open>break\<close> and falls through to the one of \<open>JCC_O\<close>. The
  arguments of \<open>createDistinct\<close> and \<open>createLOr\<close> are used, so a null pointer ends the process;
  \<open>createLNot\<close> likewise.
\<close>

definition slow_base ::
  "apint_api \<Rightarrow> builder \<Rightarrow> eflags \<Rightarrow> jcc_kind \<Rightarrow> expr option build" where
  "slow_base A B E jcc s = (case jcc of
     JCC_BE \<Rightarrow> computeFlag A B E EFLAGS_CF s
   | JCC_B \<Rightarrow> computeFlag A B E EFLAGS_CF s
   | JCC_S \<Rightarrow> computeFlag A B E EFLAGS_SF s
   | JCC_Z \<Rightarrow> do { (e, s) \<leftarrow> computeFlag A B E EFLAGS_ZF s; computeFlag A B E EFLAGS_OF s }
   | JCC_O \<Rightarrow> computeFlag A B E EFLAGS_OF s
   | JCC_P \<Rightarrow> computeFlag A B E EFLAGS_PF s
   | _ \<Rightarrow> do {
       (sf, s) \<leftarrow> computeFlag A B E EFLAGS_SF s;
       (ovf, s) \<leftarrow> computeFlag A B E EFLAGS_OF s;
       x \<leftarrow> sf; y \<leftarrow> ovf;
       (e, s) \<leftarrow> createBinaryExpr B Distinct x y s;
       Some (Some e, s) })"

definition computeSlowJcc ::
  "apint_api \<Rightarrow> builder \<Rightarrow> eflags \<Rightarrow> jcc_kind \<Rightarrow> bool \<Rightarrow> expr option build" where
  "computeSlowJcc A B E jcc neg s = do {
     (e, s) \<leftarrow> slow_base A B E jcc s;
     (e, s) \<leftarrow> (if jcc = JCC_BE \<or> jcc = JCC_LE then do {
         (zf, s) \<leftarrow> computeFlag A B E EFLAGS_ZF s;
         x \<leftarrow> e; y \<leftarrow> zf;
         (e, s) \<leftarrow> createBinaryExpr B LOr x y s;
         Some (Some e, s) }
       else Some (e, s));
     if neg then do {
       x \<leftarrow> e;
       (e, s) \<leftarrow> createUnaryExpr B LNot x s;
       Some (Some e, s) }
     else Some (e, s) }"

definition computeJcc :: "apint_api \<Rightarrow> builder \<Rightarrow> eflags \<Rightarrow> jcc_kind \<Rightarrow> bool \<Rightarrow> expr option build" where
  "computeJcc A B E jcc neg s =
     (if \<not> isValid E jcc then Some (None, s)
      else do {
        (e, s) \<leftarrow> computeFastJcc B E jcc neg s;
        if e = None then computeSlowJcc A B E jcc neg s else Some (e, s) })"

definition computeJccAsBV ::
  "apint_api \<Rightarrow> builder \<Rightarrow> eflags \<Rightarrow> jcc_kind \<Rightarrow> bool \<Rightarrow> nat \<Rightarrow> expr option build" where
  "computeJccAsBV A B E jcc neg n s = do {
     (e, s) \<leftarrow> computeJcc A B E jcc neg s;
     case e of
       None \<Rightarrow> Some (None, s)
     | Some e \<Rightarrow> do { (v, s) \<leftarrow> boolToBit B e n s; Some (Some v, s) } }"

end
