(* ===== verification/ThreadContext.thy ===== *)
theory ThreadContext
  imports Memory Flags
begin

unbundle bit_operations_syntax

section \<open>Registers of a thread\<close>

text \<open>
  \<open>thread_context.h\<close>, \<open>thread_context.cpp\<close> and the functions on registers of \<open>common.h\<close>, as compiled
  for 64-bit machines: an array with a pointer to an expression for each byte of the registers of
  interest, and the flags.

  Pin's registers are a parameter: their numbers, sizes and classes (\<open>pin_api\<close>), and the values that
  a context holds (\<open>CONTEXT\<close>), which include what the program's memory contains and the arguments of
  system calls. The table of system calls and its hooks are a parameter, too.
\<close>

subsection \<open>Pin\<close>

type_synonym reg = nat

record pin_api =
  REG_Size :: "reg \<Rightarrow> nat"
  REG_FullRegName :: "reg \<Rightarrow> reg"
  REG_is_gr :: "reg \<Rightarrow> bool"
  REG_is_gr32 :: "reg \<Rightarrow> bool"
  REG_is_Upper8 :: "reg \<Rightarrow> bool"
  REG_is_xmm :: "reg \<Rightarrow> bool"
  REG_is_ymm :: "reg \<Rightarrow> bool"
  REG_INVALID :: reg
  REG_INST_PTR :: reg
  REG_GR_BASE :: reg
  REG_LAST :: reg
  REG_ax :: "nat \<Rightarrow> reg"
  REG_dx :: "nat \<Rightarrow> reg"

record CONTEXT =
  ctx_reg :: "reg \<Rightarrow> nat \<Rightarrow> 8 word"
  ctx_mem :: pin_memory
  syscall_number :: nat
  syscall_argument :: "nat \<Rightarrow> addr"
  syscall_return :: int

definition getAx :: "pin_api \<Rightarrow> nat \<Rightarrow> reg" where
  "getAx P n = (if n \<in> {1, 2, 4, 8} then REG_ax P n else REG_INVALID P)"

definition getDx :: "pin_api \<Rightarrow> nat \<Rightarrow> reg" where
  "getDx P n = (if n \<in> {1, 2, 4, 8} then REG_dx P n else REG_INVALID P)"

definition isInterestingReg :: "pin_api \<Rightarrow> reg \<Rightarrow> bool" where
  "isInterestingReg P r \<longleftrightarrow>
     (if REG_FullRegName P r \<noteq> r then False
      else REG_is_gr P r \<or> REG_is_xmm P r \<or> REG_is_ymm P r \<or> r = REG_INST_PTR P)"

definition toTruncValue :: "int \<Rightarrow> addr" where
  "toTruncValue v = word_of_int v"

definition getMask :: "nat \<Rightarrow> addr option" where
  "getMask n = (if n \<in> {1, 2, 4, 8} then Some (mask (8 * n)) else None)"

definition getRegValue :: "pin_api \<Rightarrow> CONTEXT \<Rightarrow> reg \<Rightarrow> int" where
  "getRegValue P ctx r = horner_sum uint (2 ^ 8) (map (ctx_reg ctx r) [0..<REG_Size P r])"

definition getRegValueExpr :: "builder \<Rightarrow> pin_api \<Rightarrow> CONTEXT \<Rightarrow> reg \<Rightarrow> (expr, 'z) step" where
  "getRegValueExpr B P ctx r = building (createConstantAP B (getRegValue P ctx r) (REG_Size P r * 8))"

subsection \<open>The state\<close>

text \<open>
  \<open>map_reg_to_addr\<close> is \<open>None\<close> where the code has \<open>-1\<close>; \<open>map_addr_to_reg\<close> is filled with \<open>0\<close>.
\<close>

record SyscallContext =
  nr :: "nat option"
  arg :: "nat \<Rightarrow> addr"
  ret :: int

record thread_context =
  syscall_ctx :: SyscallContext
  eflags_of :: eflags
  map_reg_to_addr :: "reg \<Rightarrow> nat option"
  map_addr_to_reg :: "nat \<Rightarrow> reg"
  reg_exprs :: "expr option list"

record thread_state = expr_state +
  thread :: thread_context

type_synonym ('a, 'z) tstep = "'z thread_state_scheme \<Rightarrow> ('a \<times> 'z thread_state_scheme) option"
type_synonym 'z tchange = "'z thread_state_scheme \<Rightarrow> 'z thread_state_scheme option"

definition on_thread :: "(thread_context \<Rightarrow> thread_context) \<Rightarrow> 'z tchange" where
  "on_thread f s = Some (s\<lparr>thread := f (thread s)\<rparr>)"

fun getMaxRegAddr_loop :: "pin_api \<Rightarrow> reg list \<Rightarrow> nat \<Rightarrow> nat" where
  "getMaxRegAddr_loop P [] idx = idx"
| "getMaxRegAddr_loop P (r # rs) idx =
     getMaxRegAddr_loop P rs (if isInterestingReg P r then idx + REG_Size P r else idx)"

definition getMaxRegAddr :: "pin_api \<Rightarrow> nat" where
  "getMaxRegAddr P = getMaxRegAddr_loop P [REG_GR_BASE P..<REG_LAST P] 0"

fun initializeMapRegToAddr_loop ::
  "pin_api \<Rightarrow> reg list \<Rightarrow> nat \<Rightarrow> thread_context \<Rightarrow> thread_context" where
  "initializeMapRegToAddr_loop P [] idx c = c"
| "initializeMapRegToAddr_loop P (r # rs) idx c =
     (if isInterestingReg P r
      then initializeMapRegToAddr_loop P rs (idx + REG_Size P r)
        (c\<lparr>map_reg_to_addr := (map_reg_to_addr c)(r := Some idx),
          map_addr_to_reg := (map_addr_to_reg c)(idx := r)\<rparr>)
      else initializeMapRegToAddr_loop P rs idx c)"

definition initializeMapRegToAddr :: "pin_api \<Rightarrow> thread_context \<Rightarrow> thread_context" where
  "initializeMapRegToAddr P c =
     initializeMapRegToAddr_loop P [REG_GR_BASE P..<REG_LAST P] 0
       (c\<lparr>map_reg_to_addr := (\<lambda>_. None), map_addr_to_reg := (\<lambda>_. 0),
         reg_exprs := replicate (getMaxRegAddr P) None\<rparr>)"

definition ThreadContext :: "pin_api \<Rightarrow> thread_context" where
  "ThreadContext P = initializeMapRegToAddr P
     \<lparr>syscall_ctx = \<lparr>nr = None, arg = (\<lambda>_. 0), ret = 0\<rparr>, eflags_of = Eflags,
       map_reg_to_addr = (\<lambda>_. None), map_addr_to_reg = (\<lambda>_. 0), reg_exprs = []\<rparr>"

definition regToRegAddr :: "pin_api \<Rightarrow> thread_context \<Rightarrow> reg \<Rightarrow> addr option" where
  "regToRegAddr P c r =
     (if REG_FullRegName P r \<le> REG_LAST P then do {
        a \<leftarrow> map_reg_to_addr c (REG_FullRegName P r);
        Some (of_nat (if REG_is_Upper8 P r then a + 1 else a)) }
      else None)"

definition regAddrToReg :: "pin_api \<Rightarrow> thread_context \<Rightarrow> addr \<Rightarrow> reg option" where
  "regAddrToReg P c a =
     (if unat a < length (reg_exprs c) \<and> map_addr_to_reg c (unat a) \<noteq> REG_INVALID P
      then Some (map_addr_to_reg c (unat a)) else None)"

subsection \<open>Expressions of bytes of registers\<close>

definition getExprFromRegAddr :: "thread_context \<Rightarrow> addr \<Rightarrow> expr option option" where
  "getExprFromRegAddr c a =
     (if unat a < length (reg_exprs c) then Some (reg_exprs c ! unat a) else None)"

definition clearExprFromRegAddr :: "addr \<Rightarrow> 'z tchange" where
  "clearExprFromRegAddr a s = do {
     e \<leftarrow> getExprFromRegAddr (thread s) a;
     if e \<noteq> None then Some (s\<lparr>thread := (thread s)\<lparr>reg_exprs := (reg_exprs (thread s))[unat a := None]\<rparr>\<rparr>)
     else Some s }"

fun clearExprFromRegAddr_loop :: "addr \<Rightarrow> nat list \<Rightarrow> 'z tchange" where
  "clearExprFromRegAddr_loop a [] s = Some s"
| "clearExprFromRegAddr_loop a (i # is) s = do {
     s \<leftarrow> clearExprFromRegAddr (a + of_nat i) s; clearExprFromRegAddr_loop a is s }"

definition clearExprFromRegAddr_range :: "addr \<Rightarrow> nat \<Rightarrow> 'z tchange" where
  "clearExprFromRegAddr_range a n = clearExprFromRegAddr_loop a [0..<n]"

definition setExprToRegAddr :: "addr \<Rightarrow> expr option \<Rightarrow> 'z tchange" where
  "setExprToRegAddr a e s =
     (if e = None then clearExprFromRegAddr a s
      else do {
        s \<leftarrow> clearExprFromRegAddr a s;
        if unat a < length (reg_exprs (thread s))
        then Some (s\<lparr>thread := (thread s)\<lparr>reg_exprs := (reg_exprs (thread s))[unat a := e]\<rparr>\<rparr>)
        else None })"

fun setExprToRegAddr_loop :: "builder \<Rightarrow> addr \<Rightarrow> expr \<Rightarrow> nat list \<Rightarrow> 'z tchange" where
  "setExprToRegAddr_loop B a e [] s = Some s"
| "setExprToRegAddr_loop B a e (i # is) s = do {
     (new_expr, s) \<leftarrow> building (createExtract B e (i * 8) 8) s;
     s \<leftarrow> setExprToRegAddr (a + of_nat i) (Some new_expr) s;
     setExprToRegAddr_loop B a e is s }"

definition setExprToRegAddr_range :: "builder \<Rightarrow> addr \<Rightarrow> nat \<Rightarrow> expr option \<Rightarrow> 'z tchange" where
  "setExprToRegAddr_range B a n e s = (case e of
     None \<Rightarrow> clearExprFromRegAddr_range a n s
   | Some e \<Rightarrow> setExprToRegAddr_loop B a e [0..<n] s)"

fun isSymbolicReg_loop :: "thread_context \<Rightarrow> addr \<Rightarrow> nat list \<Rightarrow> bool option" where
  "isSymbolicReg_loop c a [] = Some False"
| "isSymbolicReg_loop c a (i # is) = do {
     e \<leftarrow> getExprFromRegAddr c (a + of_nat i);
     if e \<noteq> None then Some True else isSymbolicReg_loop c a is }"

definition isSymbolicReg :: "thread_context \<Rightarrow> addr \<Rightarrow> nat \<Rightarrow> bool option" where
  "isSymbolicReg c a n = isSymbolicReg_loop c a [0..<n]"

fun getExprFromRegAddr_loop ::
  "builder \<Rightarrow> (nat \<Rightarrow> 8 word) \<Rightarrow> addr \<Rightarrow> nat list \<Rightarrow> expr list \<Rightarrow> (expr list, 'z) tstep" where
  "getExprFromRegAddr_loop B val a [] exprs s = Some (exprs, s)"
| "getExprFromRegAddr_loop B val a (i # is) exprs s = do {
     e_partial \<leftarrow> getExprFromRegAddr (thread s) (a + of_nat i);
     (e, s) \<leftarrow> (case e_partial of
        Some e \<Rightarrow> Some (e, s)
      | None \<Rightarrow> building (createConstant B (unat (val i)) 8) s);
     getExprFromRegAddr_loop B val a is (e # exprs) s }"

definition getExprFromRegAddr_range ::
  "builder \<Rightarrow> pin_api \<Rightarrow> CONTEXT \<Rightarrow> addr \<Rightarrow> nat \<Rightarrow> (expr option, 'z) tstep" where
  "getExprFromRegAddr_range B P ctx a n s = do {
     sym \<leftarrow> isSymbolicReg (thread s) a n;
     if \<not> sym then Some (None, s)
     else do {
       r \<leftarrow> regAddrToReg P (thread s) a;
       (exprs, s) \<leftarrow> getExprFromRegAddr_loop B (ctx_reg ctx r) a [0..<n] [] s;
       (e, s) \<leftarrow> building (createConcat_list B exprs) s;
       if isConcrete e then do { s \<leftarrow> clearExprFromRegAddr_range a n s; Some (None, s) }
       else Some (Some e, s) } }"

subsection \<open>Registers\<close>

text \<open>The default \<open>size = -1\<close> is \<open>None\<close>.\<close>

definition clearExprFromReg :: "pin_api \<Rightarrow> reg \<Rightarrow> nat \<Rightarrow> nat option \<Rightarrow> 'z tchange" where
  "clearExprFromReg P r off n s = do {
     a \<leftarrow> regToRegAddr P (thread s) r;
     let a = a + of_nat off;
     let n = (case n of None \<Rightarrow> REG_Size P r | Some n \<Rightarrow> n);
     let n = (if REG_is_gr32 P r \<and> off = 0 then REG_Size P (REG_FullRegName P r) else n);
     if n = 1 then clearExprFromRegAddr a s else clearExprFromRegAddr_range a n s }"

fun clear_upper :: "pin_api \<Rightarrow> reg \<Rightarrow> nat list \<Rightarrow> 'z tchange" where
  "clear_upper P full_reg [] s = Some s"
| "clear_upper P full_reg (i # is) s = do {
     s \<leftarrow> clearExprFromReg P full_reg i (Some 1) s; clear_upper P full_reg is s }"

definition setExprToReg_part :: "builder \<Rightarrow> pin_api \<Rightarrow> reg \<Rightarrow> expr option \<Rightarrow> nat \<Rightarrow> nat \<Rightarrow> 'z tchange" where
  "setExprToReg_part B P r e off n s = do {
     s \<leftarrow> (if REG_is_gr32 P r \<and> off = 0 then clear_upper P (REG_FullRegName P r) [4..<8] s else Some s);
     a \<leftarrow> regToRegAddr P (thread s) r;
     let a = a + of_nat off;
     if n = 1 then setExprToRegAddr a e s
     else if n \<in> {2, 4, 8, 16, 32} then setExprToRegAddr_range B a n e s
     else None }"

definition setExprToReg :: "builder \<Rightarrow> pin_api \<Rightarrow> reg \<Rightarrow> expr option \<Rightarrow> 'z tchange" where
  "setExprToReg B P r e = setExprToReg_part B P r e 0 (REG_Size P r)"

definition getExprFromRegAlways ::
  "builder \<Rightarrow> pin_api \<Rightarrow> CONTEXT \<Rightarrow> reg \<Rightarrow> nat \<Rightarrow> nat \<Rightarrow> (expr option, 'z) tstep" where
  "getExprFromRegAlways B P ctx r off n s = do {
     a \<leftarrow> regToRegAddr P (thread s) r;
     let a = a + of_nat off;
     if n = 1 then do { e \<leftarrow> getExprFromRegAddr (thread s) a; Some (e, s) }
     else if n \<in> {2, 4, 8, 16, 32} then getExprFromRegAddr_range B P ctx a n s
     else None }"

definition getExprFromReg_part ::
  "builder \<Rightarrow> pin_api \<Rightarrow> CONTEXT \<Rightarrow> reg \<Rightarrow> nat \<Rightarrow> nat \<Rightarrow> (expr option, 'z) tstep" where
  "getExprFromReg_part = getExprFromRegAlways"

definition getExprFromReg :: "builder \<Rightarrow> pin_api \<Rightarrow> CONTEXT \<Rightarrow> reg \<Rightarrow> (expr option, 'z) tstep" where
  "getExprFromReg B P ctx r = getExprFromReg_part B P ctx r 0 (REG_Size P r)"

subsection \<open>Symbolic addresses\<close>

text \<open>
  The expression of \<open>base + disp + index * scale\<close>; sizes and values of addresses are 64 bits.
  \<open>APInt::getZExtValue\<close> asserts that the value has no more.
\<close>

definition getZExtValue :: "int \<Rightarrow> addr option" where
  "getZExtValue v = assert (v < 2 ^ 64) (Some (word_of_int v))"

definition getBaseExpr ::
  "builder \<Rightarrow> pin_api \<Rightarrow> CONTEXT \<Rightarrow> reg \<Rightarrow> addr \<Rightarrow> expr option \<Rightarrow> expr option build" where
  "getBaseExpr B P ctx base disp e s = (case e of
     Some e \<Rightarrow>
       if disp \<noteq> 0 then do {
         (expr_disp, s) \<leftarrow> createConstant B (unat disp) (bits e) s;
         (e, s) \<leftarrow> createBinaryExpr B Add e expr_disp s;
         Some (Some e, s) }
       else Some (Some e, s)
   | None \<Rightarrow>
       if base \<noteq> REG_INVALID P then do {
         val_base \<leftarrow> getZExtValue (getRegValue P ctx base);
         (e, s) \<leftarrow> createConstant B (unat (val_base + disp)) 64 s;
         Some (Some e, s) }
       else if disp \<noteq> 0 then do {
         (e, s) \<leftarrow> createConstant B (unat disp) 64 s;
         Some (Some e, s) }
       else Some (None, s))"

definition getIndexExpr ::
  "builder \<Rightarrow> pin_api \<Rightarrow> CONTEXT \<Rightarrow> reg \<Rightarrow> 32 word \<Rightarrow> expr option \<Rightarrow> expr option build" where
  "getIndexExpr B P ctx idx scale e s = (case e of
     Some e \<Rightarrow>
       if scale \<noteq> 1 then do {
         (expr_scale, s) \<leftarrow> createConstant B (unat scale) (bits e) s;
         (e, s) \<leftarrow> createBinaryExpr B Mul e expr_scale s;
         Some (Some e, s) }
       else Some (Some e, s)
   | None \<Rightarrow>
       if idx \<noteq> REG_INVALID P then do {
         val_index \<leftarrow> getZExtValue (getRegValue P ctx idx);
         (e, s) \<leftarrow> createConstant B (unat (val_index * ucast scale)) 64 s;
         Some (Some e, s) }
       else Some (None, s))"

definition createAddrExpr :: "builder \<Rightarrow> expr option \<Rightarrow> expr option \<Rightarrow> expr build" where
  "createAddrExpr B expr_base expr_index s = (case (expr_base, expr_index) of
     (Some x, Some y) \<Rightarrow> createBinaryExpr B Add x y s
   | (None, Some y) \<Rightarrow> Some (y, s)
   | (Some x, None) \<Rightarrow> Some (x, s)
   | (None, None) \<Rightarrow> None)"

definition extend_addr :: "builder \<Rightarrow> expr option \<Rightarrow> expr option build" where
  "extend_addr B e s = (case e of
     None \<Rightarrow> Some (None, s)
   | Some e \<Rightarrow> assert (bits e \<le> 64) (do { (e, s) \<leftarrow> createZExt B e 64 s; Some (Some e, s) }))"

definition getAddrExpr ::
  "builder \<Rightarrow> pin_api \<Rightarrow> CONTEXT \<Rightarrow> reg \<Rightarrow> reg \<Rightarrow> addr \<Rightarrow> 32 word \<Rightarrow> (expr option, 'z) tstep" where
  "getAddrExpr B P ctx base idx disp scale s = do {
     (expr_base, s) \<leftarrow> (if base \<noteq> REG_INVALID P then getExprFromReg B P ctx base s else Some (None, s));
     (expr_index, s) \<leftarrow> (if idx \<noteq> REG_INVALID P then getExprFromReg B P ctx idx s else Some (None, s));
     if expr_base = None \<and> expr_index = None then Some (None, s)
     else do {
       (expr_base, s) \<leftarrow> building (extend_addr B expr_base) s;
       (expr_index, s) \<leftarrow> building (extend_addr B expr_index) s;
       (expr_base, s) \<leftarrow> building (getBaseExpr B P ctx base disp expr_base) s;
       (expr_index, s) \<leftarrow> building (getIndexExpr B P ctx idx scale expr_index) s;
       (e, s) \<leftarrow> building (createAddrExpr B expr_base expr_index) s;
       Some (Some e, s) } }"

subsection \<open>Flags\<close>

definition invalidateEflags :: "op_kind \<Rightarrow> 'z tchange" where
  "invalidateEflags k = on_thread (\<lambda>c. c\<lparr>eflags_of := invalidate k (eflags_of c)\<rparr>)"

definition setEflags :: "op_kind \<Rightarrow> expr option \<Rightarrow> expr option \<Rightarrow> expr option \<Rightarrow> 'z tchange" where
  "setEflags k r d x = on_thread (\<lambda>c. c\<lparr>eflags_of := Eflags_set k r d x (eflags_of c)\<rparr>)"

definition thread_computeJcc ::
  "apint_api \<Rightarrow> builder \<Rightarrow> jcc_kind \<Rightarrow> bool \<Rightarrow> (expr option, 'z) tstep" where
  "thread_computeJcc A B jcc neg s = building (computeJcc A B (eflags_of (thread s)) jcc neg) s"

definition thread_computeJccAsBV ::
  "apint_api \<Rightarrow> builder \<Rightarrow> jcc_kind \<Rightarrow> bool \<Rightarrow> nat \<Rightarrow> (expr option, 'z) tstep" where
  "thread_computeJccAsBV A B jcc neg n s = building (computeJccAsBV A B (eflags_of (thread s)) jcc neg n) s"

definition computeCfAsExpr :: "apint_api \<Rightarrow> builder \<Rightarrow> nat \<Rightarrow> (expr option, 'z) tstep" where
  "computeCfAsExpr A B n = thread_computeJccAsBV A B JCC_B False n"

subsection \<open>System calls\<close>

text \<open>
  \<open>kSyscallDesc\<close>: for each system call the numbers of its arguments and of the bytes that it writes
  through them, and hooks. Before the first call \<open>nr\<close> is whatever memory held, in the model no call.
\<close>

record 'z syscall_desc =
  nargs :: nat
  save_args :: nat
  retval_args :: nat
  map_args :: "nat \<Rightarrow> nat"
  pre :: "(SyscallContext \<Rightarrow> 'z tchange) option"
  post :: "(SyscallContext \<Rightarrow> 'z tchange) option"

definition on_syscall :: "(SyscallContext \<Rightarrow> SyscallContext) \<Rightarrow> 'z tchange" where
  "on_syscall f = on_thread (\<lambda>c. c\<lparr>syscall_ctx := f (syscall_ctx c)\<rparr>)"

fun copy_args :: "CONTEXT \<Rightarrow> nat list \<Rightarrow> SyscallContext \<Rightarrow> SyscallContext" where
  "copy_args ctx [] c = c"
| "copy_args ctx (i # is) c = copy_args ctx is (c\<lparr>arg := (arg c)(i := syscall_argument ctx i)\<rparr>)"

definition onSyscallEnter :: "'z syscall_desc list \<Rightarrow> CONTEXT \<Rightarrow> 'z tchange" where
  "onSyscallEnter kSyscallDesc ctx s =
     (let syscall_nr = syscall_number ctx in
      if length kSyscallDesc \<le> syscall_nr then on_syscall (\<lambda>c. c\<lparr>nr := None\<rparr>) s
      else let desc = kSyscallDesc ! syscall_nr in do {
        s \<leftarrow> on_syscall (\<lambda>c. c\<lparr>nr := Some syscall_nr\<rparr>) s;
        if save_args desc \<noteq> 0 \<or> retval_args desc \<noteq> 0 then do {
          s \<leftarrow> on_syscall (copy_args ctx [0..<nargs desc]) s;
          (case pre desc of None \<Rightarrow> Some s | Some hook \<Rightarrow> hook (syscall_ctx (thread s)) s) }
        else Some s })"

fun clearArgs :: "'z syscall_desc \<Rightarrow> nat list \<Rightarrow> 'z tchange" where
  "clearArgs desc [] s = Some s"
| "clearArgs desc (i # is) s = do {
     let a = arg (syscall_ctx (thread s)) i;
     s \<leftarrow> (if 0 < map_args desc i \<and> a \<noteq> 0
       then on_memory (clearExprFromMem_range a (map_args desc i)) s else Some s);
     clearArgs desc is s }"

definition onSyscallExit :: "'z syscall_desc list \<Rightarrow> CONTEXT \<Rightarrow> 'z tchange" where
  "onSyscallExit kSyscallDesc ctx s = (case nr (syscall_ctx (thread s)) of
     None \<Rightarrow> Some s
   | Some syscall_nr \<Rightarrow>
       let desc = kSyscallDesc ! syscall_nr in
       if length kSyscallDesc \<le> syscall_nr then Some s
       else if save_args desc \<noteq> 0 \<or> retval_args desc \<noteq> 0 then do {
         s \<leftarrow> on_syscall (\<lambda>c. c\<lparr>ret := syscall_return ctx\<rparr>) s;
         (case post desc of
            Some hook \<Rightarrow> hook (syscall_ctx (thread s)) s
          | None \<Rightarrow>
              if ret (syscall_ctx (thread s)) < 0 then Some s
              else clearArgs desc [0..<nargs desc] s) }
       else Some s)"

end
