(* ===== verification/Instrument.thy ===== *)
theory Instrument
  imports ThreadContext Solver
begin

unbundle bit_operations_syntax

section \<open>Operands of instructions\<close>

text \<open>
  The first part of \<open>instrument.cpp\<close>: how a handler concretizes a register, memory or an address, and
  how it gets the expressions of its operands. A handler is a function of the context \<open>ctx\<close> that Pin
  passes, the program's registers and memory before the instruction, and of the state: memory and
  builders (\<open>expr_state\<close>), the registers of the thread (\<open>thread_state\<close>), and the solver.

  \<open>E\<close> holds what does not change: the global builder and the solver's environment, Pin's registers,
  the numbers of the registers that the code names, and the bound on the loops of the solver. The
  log messages and traces have no part in the model.
\<close>

subsection \<open>State and environment\<close>

datatype pin_reg =
    REG_CL | REG_STACK_PTR | REG_GSI | REG_GDI | REG_GBX | REG_EFLAGS
  | REG_EAX | REG_EBX | REG_ECX | REG_EDX

record instr_env =
  solver_of :: solver_env
  pin :: pin_api
  reg_no :: "pin_reg \<Rightarrow> reg"
  fuel :: nat

record pin_state = thread_state +
  g_solver :: solver

type_synonym 'a pin_step = "pin_state \<Rightarrow> ('a \<times> pin_state) option"
type_synonym pin_change = "pin_state \<Rightarrow> pin_state option"

text \<open>\<open>MEM_ARG\<close>.\<close>

record mem_arg =
  m_base :: reg
  m_index :: reg
  m_addr :: addr
  m_size :: nat
  m_disp :: addr
  m_scale :: "32 word"

abbreviation builder_of :: "instr_env \<Rightarrow> builder" where
  "builder_of E \<equiv> g_expr_builder (solver_of E)"

abbreviation apint_of :: "instr_env \<Rightarrow> apint_api" where
  "apint_of E \<equiv> solver_apint (solver_of E)"

abbreviation invalid_reg :: "instr_env \<Rightarrow> reg" where
  "invalid_reg E \<equiv> REG_INVALID (pin E)"

abbreviation reg_bytes :: "instr_env \<Rightarrow> reg \<Rightarrow> nat" where
  "reg_bytes E r \<equiv> REG_Size (pin E) r"

abbreviation reg_bits :: "instr_env \<Rightarrow> reg \<Rightarrow> nat" where
  "reg_bits E r \<equiv> REG_Size (pin E) r * 8"

text \<open>The operations on registers and memory with the parameters that are the same everywhere.\<close>

abbreviation getReg :: "instr_env \<Rightarrow> CONTEXT \<Rightarrow> reg \<Rightarrow> (expr option, 'z) tstep" where
  "getReg E ctx r \<equiv> getExprFromReg (builder_of E) (pin E) ctx r"

abbreviation setReg :: "instr_env \<Rightarrow> reg \<Rightarrow> expr option \<Rightarrow> 'z tchange" where
  "setReg E r e \<equiv> setExprToReg (builder_of E) (pin E) r e"

abbreviation clearReg :: "instr_env \<Rightarrow> reg \<Rightarrow> 'z tchange" where
  "clearReg E r \<equiv> clearExprFromReg (pin E) r 0 None"

abbreviation getMem :: "instr_env \<Rightarrow> CONTEXT \<Rightarrow> addr \<Rightarrow> nat \<Rightarrow> (expr option, 'z) step" where
  "getMem E ctx a n \<equiv> getExprFromMem_range (builder_of E) (ctx_mem ctx) a n"

abbreviation setMem :: "instr_env \<Rightarrow> addr \<Rightarrow> nat \<Rightarrow> expr option \<Rightarrow> 'z change" where
  "setMem E a n e \<equiv> setExprToMem_range (builder_of E) a n e"

abbreviation clearMem :: "addr \<Rightarrow> nat \<Rightarrow> 'z change" where
  "clearMem a n \<equiv> on_memory (clearExprFromMem_range a n)"

text \<open>The solver works on the same builders.\<close>

definition on_solver :: "(solver \<Rightarrow> solver option) \<Rightarrow> pin_change" where
  "on_solver f s = do {
     v \<leftarrow> f ((g_solver s)\<lparr>bs := builder_state s\<rparr>);
     Some (s\<lparr>g_solver := v, builder_state := bs v\<rparr>) }"

definition on_csm :: "(call_stack_manager \<Rightarrow> call_stack_manager) \<Rightarrow> pin_change" where
  "on_csm f s = Some (s\<lparr>builder_state := (builder_state s)\<lparr>csm := f (csm (builder_state s))\<rparr>\<rparr>)"

definition reg_word :: "instr_env \<Rightarrow> CONTEXT \<Rightarrow> reg \<Rightarrow> addr" where
  "reg_word E ctx r = word_of_int (getRegValue (pin E) ctx r)"

definition instr_ptr :: "instr_env \<Rightarrow> CONTEXT \<Rightarrow> addr" where
  "instr_ptr E ctx = reg_word E ctx (REG_INST_PTR (pin E))"

definition instrumentBBL :: "instr_env \<Rightarrow> CONTEXT \<Rightarrow> pin_change" where
  "instrumentBBL E ctx = on_csm (visitBasicBlock (instr_ptr E ctx))"

subsection \<open>Concretization\<close>

text \<open>
  The three functions of the name \<open>concretizeReg\<close>: with the expression, without, and with a
  pointer to the expression, in the place of which comes the constant.
\<close>

definition concretizeReg_expr :: "instr_env \<Rightarrow> CONTEXT \<Rightarrow> reg \<Rightarrow> expr \<Rightarrow> pin_change" where
  "concretizeReg_expr E ctx r e s = do {
     let val = getRegValue (pin E) ctx r;
     s \<leftarrow> on_solver (addValue (solver_of E) e val) s;
     clearReg E r s }"

definition concretizeReg :: "instr_env \<Rightarrow> CONTEXT \<Rightarrow> reg \<Rightarrow> pin_change" where
  "concretizeReg E ctx r s = do {
     (e, s) \<leftarrow> getReg E ctx r s;
     case e of None \<Rightarrow> Some s | Some e \<Rightarrow> concretizeReg_expr E ctx r e s }"

definition concretizeReg_ptr :: "instr_env \<Rightarrow> CONTEXT \<Rightarrow> reg \<Rightarrow> expr option \<Rightarrow> expr pin_step" where
  "concretizeReg_ptr E ctx r ptr s = do {
     e \<leftarrow> ptr;
     s \<leftarrow> concretizeReg_expr E ctx r e s;
     getRegValueExpr (builder_of E) (pin E) ctx r s }"

definition concretizeMem_expr :: "instr_env \<Rightarrow> CONTEXT \<Rightarrow> addr \<Rightarrow> nat \<Rightarrow> expr \<Rightarrow> pin_change" where
  "concretizeMem_expr E ctx a n e s = do {
     let val = getMemValue (ctx_mem ctx) a n;
     s \<leftarrow> on_solver (addValue (solver_of E) e val) s;
     clearMem a n s }"

definition concretizeMem :: "instr_env \<Rightarrow> CONTEXT \<Rightarrow> addr \<Rightarrow> nat \<Rightarrow> pin_change" where
  "concretizeMem E ctx a n s = do {
     (e, s) \<leftarrow> getMem E ctx a n s;
     case e of None \<Rightarrow> Some s | Some e \<Rightarrow> concretizeMem_expr E ctx a n e s }"

definition concretizeMem_ptr :: "instr_env \<Rightarrow> CONTEXT \<Rightarrow> addr \<Rightarrow> nat \<Rightarrow> expr option \<Rightarrow> expr pin_step" where
  "concretizeMem_ptr E ctx a n ptr s = do {
     e \<leftarrow> ptr;
     s \<leftarrow> concretizeMem_expr E ctx a n e s;
     getMemValueExpr (builder_of E) (ctx_mem ctx) a n s }"

definition makeMemConcrete :: "instr_env \<Rightarrow> CONTEXT \<Rightarrow> expr option \<Rightarrow> addr \<Rightarrow> nat \<Rightarrow> expr option pin_step" where
  "makeMemConcrete E ctx ptr a n s = do {
     e \<leftarrow> ptr;
     s \<leftarrow> on_solver (addValue (solver_of E) e (getMemValue (ctx_mem ctx) a n)) s;
     s \<leftarrow> clearMem a n s;
     Some (None, s) }"

text \<open>The functions of the solver for an \<open>ADDRINT\<close>, which make an \<open>APInt\<close> of the width of the expression.\<close>

definition addValue_word :: "solver_env \<Rightarrow> expr \<Rightarrow> addr \<Rightarrow> solver \<Rightarrow> solver option" where
  "addValue_word V e v = addValue V e (take_bit (bits e) (uint v))"

definition addAddr_word :: "nat \<Rightarrow> solver_env \<Rightarrow> expr \<Rightarrow> addr \<Rightarrow> solver \<Rightarrow> solver option" where
  "addAddr_word n V e a = addAddr n V e (take_bit (bits e) (uint a))"

definition makeExprConcrete :: "instr_env \<Rightarrow> expr \<Rightarrow> addr \<Rightarrow> pin_change" where
  "makeExprConcrete E e v = on_solver (addValue_word (solver_of E) e v)"

text \<open>The two functions \<open>makeAddrConcrete\<close>.\<close>

definition makeAddrConcrete_expr :: "instr_env \<Rightarrow> expr \<Rightarrow> addr \<Rightarrow> pin_change" where
  "makeAddrConcrete_expr E e a = on_solver (addAddr_word (fuel E) (solver_of E) e a)"

definition makeAddrConcrete :: "instr_env \<Rightarrow> CONTEXT \<Rightarrow> mem_arg \<Rightarrow> pin_change" where
  "makeAddrConcrete E ctx m s = do {
     (e, s) \<leftarrow> getAddrExpr (builder_of E) (pin E) ctx (m_base m) (m_index m) (m_disp m) (m_scale m) s;
     case e of None \<Rightarrow> Some s | Some e \<Rightarrow> makeAddrConcrete_expr E e (m_addr m) s }"

definition getExprFromMemSrc :: "instr_env \<Rightarrow> CONTEXT \<Rightarrow> mem_arg \<Rightarrow> expr option pin_step" where
  "getExprFromMemSrc E ctx m s = do {
     s \<leftarrow> makeAddrConcrete E ctx m s;
     getMem E ctx (m_addr m) (m_size m) s }"

subsection \<open>Operands\<close>

text \<open>A null pointer is replaced by the constant with the concrete value.\<close>

definition fixRegExpr :: "instr_env \<Rightarrow> CONTEXT \<Rightarrow> reg \<Rightarrow> expr option \<Rightarrow> expr pin_step" where
  "fixRegExpr E ctx r ptr s = (case ptr of
     None \<Rightarrow> getRegValueExpr (builder_of E) (pin E) ctx r s | Some e \<Rightarrow> Some (e, s))"

definition fixMemExpr :: "instr_env \<Rightarrow> CONTEXT \<Rightarrow> addr \<Rightarrow> nat \<Rightarrow> expr option \<Rightarrow> expr pin_step" where
  "fixMemExpr E ctx a n ptr s = (case ptr of
     None \<Rightarrow> getMemValueExpr (builder_of E) (ctx_mem ctx) a n s | Some e \<Rightarrow> Some (e, s))"

text \<open>\<open>EFLAGS_CF\<close> is the mask \<open>1\<close> of the flag; the code uses it as the number of a bit.\<close>

definition fixCfExpr :: "instr_env \<Rightarrow> CONTEXT \<Rightarrow> nat \<Rightarrow> expr option \<Rightarrow> expr pin_step" where
  "fixCfExpr E ctx n ptr s = (case ptr of
     None \<Rightarrow>
       let cf = bit (getRegValue (pin E) ctx (reg_no E REG_EFLAGS)) (unat (eflag EFLAGS_CF)) in
       building (createConstant (builder_of E) (of_bool cf) n) s
   | Some e \<Rightarrow> Some (e, s))"

definition fixImmExpr :: "instr_env \<Rightarrow> addr \<Rightarrow> nat \<Rightarrow> expr option \<Rightarrow> expr pin_step" where
  "fixImmExpr E imm n ptr s = (case ptr of
     None \<Rightarrow> building (createConstant (builder_of E) (unat imm) n) s | Some e \<Rightarrow> Some (e, s))"

text \<open>
  The functions \<open>getExprFrom...\<close> return false, here \<open>None\<close>, when all operands are concrete; the
  pointers are null then.
\<close>

definition fix_both ::
  "(expr option \<Rightarrow> expr pin_step) \<Rightarrow> (expr option \<Rightarrow> expr pin_step) \<Rightarrow> expr option \<Rightarrow> expr option \<Rightarrow>
   (expr \<times> expr) option pin_step" where
  "fix_both fix_dst fix_src d x s =
     (if d = None \<and> x = None then Some (None, s)
      else do { (d, s) \<leftarrow> fix_dst d s; (x, s) \<leftarrow> fix_src x s; Some (Some (d, x), s) })"

definition getExprFromRegReg :: "instr_env \<Rightarrow> CONTEXT \<Rightarrow> reg \<Rightarrow> reg \<Rightarrow> (expr \<times> expr) option pin_step" where
  "getExprFromRegReg E ctx dst src s = do {
     (d, s) \<leftarrow> getReg E ctx dst s;
     (x, s) \<leftarrow> getReg E ctx src s;
     fix_both (fixRegExpr E ctx dst) (fixRegExpr E ctx src) d x s }"

definition getExprFromRegImm :: "instr_env \<Rightarrow> CONTEXT \<Rightarrow> reg \<Rightarrow> addr \<Rightarrow> (expr \<times> expr) option pin_step" where
  "getExprFromRegImm E ctx dst imm s = do {
     (d, s) \<leftarrow> getReg E ctx dst s;
     case d of None \<Rightarrow> Some (None, s)
     | Some d \<Rightarrow> do { (x, s) \<leftarrow> fixImmExpr E imm (bits d) None s; Some (Some (d, x), s) } }"

definition getExprFromRegMem :: "instr_env \<Rightarrow> CONTEXT \<Rightarrow> reg \<Rightarrow> mem_arg \<Rightarrow> (expr \<times> expr) option pin_step" where
  "getExprFromRegMem E ctx dst m s = do {
     (d, s) \<leftarrow> getReg E ctx dst s;
     (x, s) \<leftarrow> getExprFromMemSrc E ctx m s;
     fix_both (fixRegExpr E ctx dst) (fixMemExpr E ctx (m_addr m) (m_size m)) d x s }"

text \<open>The second function of this name, without the parts of the address.\<close>

definition getExprFromRegAddrMem ::
  "instr_env \<Rightarrow> CONTEXT \<Rightarrow> reg \<Rightarrow> addr \<Rightarrow> nat \<Rightarrow> (expr \<times> expr) option pin_step" where
  "getExprFromRegAddrMem E ctx dst a n s = do {
     (d, s) \<leftarrow> getReg E ctx dst s;
     (x, s) \<leftarrow> getMem E ctx a n s;
     fix_both (fixRegExpr E ctx dst) (fixMemExpr E ctx a n) d x s }"

definition getExprFromMemReg :: "instr_env \<Rightarrow> CONTEXT \<Rightarrow> mem_arg \<Rightarrow> reg \<Rightarrow> (expr \<times> expr) option pin_step" where
  "getExprFromMemReg E ctx m src s = do {
     s \<leftarrow> makeAddrConcrete E ctx m s;
     (d, s) \<leftarrow> getMem E ctx (m_addr m) (m_size m) s;
     (x, s) \<leftarrow> getReg E ctx src s;
     fix_both (fixMemExpr E ctx (m_addr m) (m_size m)) (fixRegExpr E ctx src) d x s }"

definition getExprFromMemImm :: "instr_env \<Rightarrow> CONTEXT \<Rightarrow> mem_arg \<Rightarrow> addr \<Rightarrow> (expr \<times> expr) option pin_step" where
  "getExprFromMemImm E ctx m imm s = do {
     s \<leftarrow> makeAddrConcrete E ctx m s;
     (d, s) \<leftarrow> getMem E ctx (m_addr m) (m_size m) s;
     case d of None \<Rightarrow> Some (None, s)
     | Some d \<Rightarrow> do { (x, s) \<leftarrow> fixImmExpr E imm (bits d) None s; Some (Some (d, x), s) } }"

definition getExprFromMemMem ::
  "instr_env \<Rightarrow> CONTEXT \<Rightarrow> addr \<Rightarrow> addr \<Rightarrow> nat \<Rightarrow> (expr \<times> expr) option pin_step" where
  "getExprFromMemMem E ctx dst_addr src_addr n s = do {
     (d, s) \<leftarrow> getMem E ctx dst_addr n s;
     (x, s) \<leftarrow> getMem E ctx src_addr n s;
     fix_both (fixMemExpr E ctx dst_addr n) (fixMemExpr E ctx src_addr n) d x s }"

text \<open>
  With a third operand, which is the carry, a register or an immediate value: \<open>got\<close> is what the
  function for the first two returned, \<open>c\<close> the third.
\<close>

definition fix_three ::
  "(expr option \<Rightarrow> expr pin_step) \<Rightarrow> (expr option \<Rightarrow> expr pin_step) \<Rightarrow> (expr option \<Rightarrow> expr pin_step) \<Rightarrow>
   (expr \<times> expr) option \<Rightarrow> expr option \<Rightarrow> (expr \<times> expr \<times> expr) option pin_step" where
  "fix_three fix_dst fix_src fix_third got c s =
     (if got = None \<and> c = None then Some (None, s)
      else do {
        (d, s) \<leftarrow> fix_dst (map_option fst got) s;
        (x, s) \<leftarrow> fix_src (map_option snd got) s;
        (c, s) \<leftarrow> fix_third c s;
        Some (Some (d, x, c), s) })"

definition getExprFromRegRegCf ::
  "instr_env \<Rightarrow> CONTEXT \<Rightarrow> reg \<Rightarrow> reg \<Rightarrow> (expr \<times> expr \<times> expr) option pin_step" where
  "getExprFromRegRegCf E ctx dst src s = do {
     let n = reg_bits E dst;
     (c, s) \<leftarrow> computeCfAsExpr (apint_of E) (builder_of E) n s;
     (got, s) \<leftarrow> getExprFromRegReg E ctx dst src s;
     fix_three (fixRegExpr E ctx dst) (fixRegExpr E ctx src) (fixCfExpr E ctx n) got c s }"

definition getExprFromRegImmCf ::
  "instr_env \<Rightarrow> CONTEXT \<Rightarrow> reg \<Rightarrow> addr \<Rightarrow> (expr \<times> expr \<times> expr) option pin_step" where
  "getExprFromRegImmCf E ctx dst imm s = do {
     let n = reg_bits E dst;
     (c, s) \<leftarrow> computeCfAsExpr (apint_of E) (builder_of E) n s;
     (got, s) \<leftarrow> getExprFromRegImm E ctx dst imm s;
     fix_three (fixRegExpr E ctx dst) (fixImmExpr E imm n) (fixCfExpr E ctx n) got c s }"

definition getExprFromRegMemCf ::
  "instr_env \<Rightarrow> CONTEXT \<Rightarrow> reg \<Rightarrow> mem_arg \<Rightarrow> (expr \<times> expr \<times> expr) option pin_step" where
  "getExprFromRegMemCf E ctx dst m s = do {
     let n = m_size m * 8;
     (c, s) \<leftarrow> computeCfAsExpr (apint_of E) (builder_of E) n s;
     (got, s) \<leftarrow> getExprFromRegMem E ctx dst m s;
     fix_three (fixRegExpr E ctx dst) (fixMemExpr E ctx (m_addr m) (m_size m)) (fixCfExpr E ctx n) got c s }"

definition getExprFromMemRegCf ::
  "instr_env \<Rightarrow> CONTEXT \<Rightarrow> mem_arg \<Rightarrow> reg \<Rightarrow> (expr \<times> expr \<times> expr) option pin_step" where
  "getExprFromMemRegCf E ctx m src s = do {
     let n = m_size m * 8;
     (c, s) \<leftarrow> computeCfAsExpr (apint_of E) (builder_of E) n s;
     (got, s) \<leftarrow> getExprFromMemReg E ctx m src s;
     fix_three (fixMemExpr E ctx (m_addr m) (m_size m)) (fixRegExpr E ctx src) (fixCfExpr E ctx n) got c s }"

definition getExprFromMemImmCf ::
  "instr_env \<Rightarrow> CONTEXT \<Rightarrow> mem_arg \<Rightarrow> addr \<Rightarrow> (expr \<times> expr \<times> expr) option pin_step" where
  "getExprFromMemImmCf E ctx m imm s = do {
     let n = m_size m * 8;
     (c, s) \<leftarrow> computeCfAsExpr (apint_of E) (builder_of E) n s;
     (got, s) \<leftarrow> getExprFromMemImm E ctx m imm s;
     fix_three (fixMemExpr E ctx (m_addr m) (m_size m)) (fixImmExpr E imm n) (fixCfExpr E ctx n) got c s }"

definition getExprFromRegRegReg ::
  "instr_env \<Rightarrow> CONTEXT \<Rightarrow> reg \<Rightarrow> reg \<Rightarrow> reg \<Rightarrow> (expr \<times> expr \<times> expr) option pin_step" where
  "getExprFromRegRegReg E ctx dst src1 src2 s = do {
     (c, s) \<leftarrow> getReg E ctx src2 s;
     (got, s) \<leftarrow> getExprFromRegReg E ctx dst src1 s;
     fix_three (fixRegExpr E ctx dst) (fixRegExpr E ctx src1) (fixRegExpr E ctx src2) got c s }"

definition getExprFromRegRegImm ::
  "instr_env \<Rightarrow> CONTEXT \<Rightarrow> reg \<Rightarrow> reg \<Rightarrow> addr \<Rightarrow> (expr \<times> expr \<times> expr) option pin_step" where
  "getExprFromRegRegImm E ctx dst src1 imm s = do {
     let n = reg_bits E dst;
     (got, s) \<leftarrow> getExprFromRegReg E ctx dst src1 s;
     fix_three (fixRegExpr E ctx dst) (fixRegExpr E ctx src1) (fixImmExpr E imm n) got None s }"

definition getExprFromMemRegImm ::
  "instr_env \<Rightarrow> CONTEXT \<Rightarrow> mem_arg \<Rightarrow> reg \<Rightarrow> addr \<Rightarrow> (expr \<times> expr \<times> expr) option pin_step" where
  "getExprFromMemRegImm E ctx m src1 imm s = do {
     let n = m_size m * 8;
     (got, s) \<leftarrow> getExprFromMemReg E ctx m src1 s;
     fix_three (fixMemExpr E ctx (m_addr m) (m_size m)) (fixRegExpr E ctx src1) (fixImmExpr E imm n) got None s }"

definition getExprFromMemRegReg ::
  "instr_env \<Rightarrow> CONTEXT \<Rightarrow> mem_arg \<Rightarrow> reg \<Rightarrow> reg \<Rightarrow> (expr \<times> expr \<times> expr) option pin_step" where
  "getExprFromMemRegReg E ctx m src1 src2 s = do {
     (c, s) \<leftarrow> getReg E ctx src2 s;
     (got, s) \<leftarrow> getExprFromMemReg E ctx m src1 s;
     fix_three (fixMemExpr E ctx (m_addr m) (m_size m)) (fixRegExpr E ctx src1) (fixRegExpr E ctx src2) got c s }"

end
