(* ===== verification/InstrumentArith.thy ===== *)
theory InstrumentArith
  imports Instrument
begin

unbundle bit_operations_syntax

section \<open>Handlers of arithmetic\<close>

text \<open>
  The handlers of \<open>instrument.cpp\<close> for products, shifts and integer operations, with carry too. A handler
  gets the expressions of its operands; if all are concrete it marks the flags as concrete and
  returns; otherwise it builds the result, records it for the flags, and stores it.
\<close>

subsection \<open>Products\<close>

definition extendToDouble :: "builder \<Rightarrow> expr \<Rightarrow> bool \<Rightarrow> expr build" where
  "extendToDouble B e sg = (if sg then createSExt B e (bits e * 2) else createZExt B e (bits e * 2))"

definition doMul_wide :: "instr_env \<Rightarrow> reg \<Rightarrow> reg \<Rightarrow> expr \<Rightarrow> expr \<Rightarrow> nat \<Rightarrow> bool \<Rightarrow> pin_change" where
  "doMul_wide E reg_l reg_h src l n sg s = do {
     (src, s) \<leftarrow> building (extendToDouble (builder_of E) src sg) s;
     (l, s) \<leftarrow> building (extendToDouble (builder_of E) l sg) s;
     (res, s) \<leftarrow> building (createBinaryExpr (builder_of E) Mul src l) s;
     s \<leftarrow> setEflags CC_OP_UMUL (Some res) (Some l) (Some src) s;
     (res_l, s) \<leftarrow> building (createExtract (builder_of E) res 0 n) s;
     s \<leftarrow> setReg E reg_l (Some res_l) s;
     if reg_h \<noteq> invalid_reg E then do {
       (res_h, s) \<leftarrow> building (createExtract (builder_of E) res n n) s;
       setReg E reg_h (Some res_h) s }
     else Some s }"

text \<open>When the operands are concrete, the registers of the result are cleared.\<close>

definition clearMul :: "instr_env \<Rightarrow> reg \<Rightarrow> reg \<Rightarrow> pin_change" where
  "clearMul E reg_l reg_h s = do {
     s \<leftarrow> invalidateEflags CC_OP_UMUL s;
     s \<leftarrow> clearReg E reg_l s;
     if reg_h \<noteq> invalid_reg E then clearReg E reg_h s else Some s }"

definition instrumentMulReg_signed :: "instr_env \<Rightarrow> CONTEXT \<Rightarrow> reg \<Rightarrow> reg \<Rightarrow> reg \<Rightarrow> bool \<Rightarrow> pin_change" where
  "instrumentMulReg_signed E ctx src reg_l reg_h sg s = do {
     (got, s) \<leftarrow> getExprFromRegReg E ctx src reg_l s;
     case got of
       None \<Rightarrow> clearMul E reg_l reg_h s
     | Some (x, l) \<Rightarrow> doMul_wide E reg_l reg_h x l (reg_bits E src) sg s }"

definition instrumentMulMem_signed :: "instr_env \<Rightarrow> CONTEXT \<Rightarrow> mem_arg \<Rightarrow> reg \<Rightarrow> reg \<Rightarrow> bool \<Rightarrow> pin_change" where
  "instrumentMulMem_signed E ctx m reg_l reg_h sg s = do {
     (got, s) \<leftarrow> getExprFromMemReg E ctx m reg_l s;
     case got of
       None \<Rightarrow> clearMul E reg_l reg_h s
     | Some (x, l) \<Rightarrow> doMul_wide E reg_l reg_h x l (m_size m * 8) sg s }"

definition instrumentMulReg :: "instr_env \<Rightarrow> CONTEXT \<Rightarrow> reg \<Rightarrow> reg \<Rightarrow> reg \<Rightarrow> pin_change" where
  "instrumentMulReg E ctx src reg_l reg_h = instrumentMulReg_signed E ctx src reg_l reg_h False"

definition instrumentMulMem :: "instr_env \<Rightarrow> CONTEXT \<Rightarrow> mem_arg \<Rightarrow> reg \<Rightarrow> reg \<Rightarrow> pin_change" where
  "instrumentMulMem E ctx m reg_l reg_h = instrumentMulMem_signed E ctx m reg_l reg_h False"

definition instrumentIMulReg :: "instr_env \<Rightarrow> CONTEXT \<Rightarrow> reg \<Rightarrow> pin_change" where
  "instrumentIMulReg E ctx src =
     instrumentMulReg_signed E ctx src (getAx (pin E) (reg_bytes E src)) (getDx (pin E) (reg_bytes E src)) True"

definition instrumentIMulMem :: "instr_env \<Rightarrow> CONTEXT \<Rightarrow> mem_arg \<Rightarrow> pin_change" where
  "instrumentIMulMem E ctx m =
     instrumentMulMem_signed E ctx m (getAx (pin E) (m_size m)) (getDx (pin E) (m_size m)) True"

definition instrumentIMulRegReg :: "instr_env \<Rightarrow> CONTEXT \<Rightarrow> reg \<Rightarrow> reg \<Rightarrow> pin_change" where
  "instrumentIMulRegReg E ctx dst src = instrumentMulReg_signed E ctx src dst (invalid_reg E) True"

definition instrumentIMulRegMem :: "instr_env \<Rightarrow> CONTEXT \<Rightarrow> reg \<Rightarrow> mem_arg \<Rightarrow> pin_change" where
  "instrumentIMulRegMem E ctx dst m = instrumentMulMem_signed E ctx m dst (invalid_reg E) True"

text \<open>The second function \<open>doMul\<close>, for a product with an immediate value.\<close>

definition doMul_imm :: "instr_env \<Rightarrow> expr \<Rightarrow> expr \<Rightarrow> reg \<Rightarrow> pin_change" where
  "doMul_imm E src imm dst s = do {
     (res, s) \<leftarrow> building (createBinaryExpr (builder_of E) Mul src imm) s;
     s \<leftarrow> setEflags CC_OP_SMUL (Some res) (Some src) (Some imm) s;
     setReg E dst (Some res) s }"

definition instrumentIMulRegRegImm :: "instr_env \<Rightarrow> CONTEXT \<Rightarrow> reg \<Rightarrow> reg \<Rightarrow> addr \<Rightarrow> pin_change" where
  "instrumentIMulRegRegImm E ctx dst src imm s = do {
     (got, s) \<leftarrow> getExprFromRegImm E ctx src imm s;
     case got of
       None \<Rightarrow> do { s \<leftarrow> clearReg E dst s; invalidateEflags CC_OP_SMUL s }
     | Some (x, i) \<Rightarrow> doMul_imm E x i dst s }"

definition instrumentIMulRegMemImm :: "instr_env \<Rightarrow> CONTEXT \<Rightarrow> reg \<Rightarrow> mem_arg \<Rightarrow> addr \<Rightarrow> pin_change" where
  "instrumentIMulRegMemImm E ctx dst m imm s = do {
     (got, s) \<leftarrow> getExprFromMemImm E ctx m imm s;
     case got of
       None \<Rightarrow> do { s \<leftarrow> clearReg E dst s; invalidateEflags CC_OP_SMUL s }
     | Some (x, i) \<Rightarrow> doMul_imm E x i dst s }"

subsection \<open>Shifts\<close>

fun getOpKindShift :: "kind \<Rightarrow> op_kind option" where
  "getOpKindShift Rol = Some CC_OP_ROL"
| "getOpKindShift Ror = Some CC_OP_ROR"
| "getOpKindShift AShr = Some CC_OP_SHR"
| "getOpKindShift LShr = Some CC_OP_SHR"
| "getOpKindShift Shl = Some CC_OP_SHL"
| "getOpKindShift _ = None"

definition normalizeShiftCount :: "builder \<Rightarrow> expr \<Rightarrow> nat \<Rightarrow> nat \<Rightarrow> expr build" where
  "normalizeShiftCount B cnt n m s = do {
     (expr_modulo, s) \<leftarrow> createConstant B m n s;
     (cnt, s) \<leftarrow> createZExt B cnt n s;
     createBinaryExpr B URem cnt expr_modulo s }"

text \<open>A rotation: \<open>(x << l) | (x >> (bits - l))\<close>.\<close>

definition shiftOrRotate :: "builder \<Rightarrow> kind \<Rightarrow> expr \<Rightarrow> expr \<Rightarrow> nat \<Rightarrow> expr build" where
  "shiftOrRotate B k d x n s =
     (if k \<noteq> Ror \<and> k \<noteq> Rol then createBinaryExpr B k d x s
      else do {
        (l, s) \<leftarrow> createConstant B n n s;
        (l, s) \<leftarrow> createBinaryExpr B Sub l x s;
        let (rshift, lshift) = (if k = Rol then (l, x) else (x, l));
        (r, s) \<leftarrow> createBinaryExpr B LShr d rshift s;
        (l, s) \<leftarrow> createBinaryExpr B Shl d lshift s;
        createBinaryExpr B Or r l s })"

definition doShift :: "instr_env \<Rightarrow> kind \<Rightarrow> op_kind \<Rightarrow> expr \<Rightarrow> expr \<Rightarrow> nat \<Rightarrow> expr pin_step" where
  "doShift E k op d x n s = do {
     (x, s) \<leftarrow> building (normalizeShiftCount (builder_of E) x n n) s;
     (res, s) \<leftarrow> building (shiftOrRotate (builder_of E) k d x n) s;
     s \<leftarrow> setEflags op (Some res) (Some d) (Some x) s;
     Some (res, s) }"

definition instrumentShiftRegImm :: "instr_env \<Rightarrow> CONTEXT \<Rightarrow> reg \<Rightarrow> addr \<Rightarrow> kind \<Rightarrow> pin_change" where
  "instrumentShiftRegImm E ctx dst imm k s = do {
     op \<leftarrow> getOpKindShift k;
     (got, s) \<leftarrow> getExprFromRegImm E ctx dst imm s;
     case got of
       None \<Rightarrow> invalidateEflags op s
     | Some (d, x) \<Rightarrow> do { (res, s) \<leftarrow> doShift E k op d x (reg_bits E dst) s; setReg E dst (Some res) s } }"

definition instrumentShiftRegCl :: "instr_env \<Rightarrow> CONTEXT \<Rightarrow> reg \<Rightarrow> kind \<Rightarrow> pin_change" where
  "instrumentShiftRegCl E ctx dst k s = do {
     op \<leftarrow> getOpKindShift k;
     (got, s) \<leftarrow> getExprFromRegReg E ctx dst (reg_no E REG_CL) s;
     case got of
       None \<Rightarrow> invalidateEflags op s
     | Some (d, x) \<Rightarrow> do { (res, s) \<leftarrow> doShift E k op d x (reg_bits E dst) s; setReg E dst (Some res) s } }"

definition instrumentShiftMemImm :: "instr_env \<Rightarrow> CONTEXT \<Rightarrow> mem_arg \<Rightarrow> addr \<Rightarrow> kind \<Rightarrow> pin_change" where
  "instrumentShiftMemImm E ctx m imm k s = do {
     op \<leftarrow> getOpKindShift k;
     (got, s) \<leftarrow> getExprFromMemImm E ctx m imm s;
     case got of
       None \<Rightarrow> invalidateEflags op s
     | Some (d, x) \<Rightarrow> do { (res, s) \<leftarrow> doShift E k op d x (m_size m * 8) s; setMem E (m_addr m) (m_size m) (Some res) s } }"

definition instrumentShiftMemCl :: "instr_env \<Rightarrow> CONTEXT \<Rightarrow> mem_arg \<Rightarrow> kind \<Rightarrow> pin_change" where
  "instrumentShiftMemCl E ctx m k s = do {
     op \<leftarrow> getOpKindShift k;
     (got, s) \<leftarrow> getExprFromMemReg E ctx m (reg_no E REG_CL) s;
     case got of
       None \<Rightarrow> invalidateEflags op s
     | Some (d, x) \<Rightarrow> do { (res, s) \<leftarrow> doShift E k op d x (m_size m * 8) s; setMem E (m_addr m) (m_size m) (Some res) s } }"

text \<open>The double shifts: the two operands are joined, and the count is taken modulo 32.\<close>

definition shiftDouble :: "builder \<Rightarrow> kind \<Rightarrow> expr \<Rightarrow> expr \<Rightarrow> expr \<Rightarrow> nat \<Rightarrow> expr build" where
  "shiftDouble B k d x cnt n s = do {
     (cnt, s) \<leftarrow> normalizeShiftCount B cnt (n * 2) 32 s;
     (res, s) \<leftarrow> (if k = Shl then createConcat B d x s else createConcat B x d s);
     (res, s) \<leftarrow> createBinaryExpr B k res cnt s;
     if k = Shl then createExtract B res n n s else createExtract B res 0 n s }"

definition doShiftd :: "instr_env \<Rightarrow> kind \<Rightarrow> op_kind \<Rightarrow> expr \<Rightarrow> expr \<Rightarrow> expr \<Rightarrow> nat \<Rightarrow> expr pin_step" where
  "doShiftd E k op d x cnt n s = do {
     (res, s) \<leftarrow> building (shiftDouble (builder_of E) k d x cnt n) s;
     s \<leftarrow> invalidateEflags op s;
     Some (res, s) }"

definition instrumentShiftdRegRegImm :: "instr_env \<Rightarrow> CONTEXT \<Rightarrow> reg \<Rightarrow> reg \<Rightarrow> addr \<Rightarrow> kind \<Rightarrow> pin_change" where
  "instrumentShiftdRegRegImm E ctx dst src imm k s = do {
     op \<leftarrow> getOpKindShift k;
     (got, s) \<leftarrow> getExprFromRegRegImm E ctx dst src imm s;
     case got of
       None \<Rightarrow> invalidateEflags op s
     | Some (d, x, c) \<Rightarrow> do { (res, s) \<leftarrow> doShiftd E k op d x c (reg_bits E dst) s; setReg E dst (Some res) s } }"

definition instrumentShiftdRegRegCl :: "instr_env \<Rightarrow> CONTEXT \<Rightarrow> reg \<Rightarrow> reg \<Rightarrow> kind \<Rightarrow> pin_change" where
  "instrumentShiftdRegRegCl E ctx dst src k s = do {
     op \<leftarrow> getOpKindShift k;
     (got, s) \<leftarrow> getExprFromRegRegReg E ctx dst src (reg_no E REG_CL) s;
     case got of
       None \<Rightarrow> invalidateEflags op s
     | Some (d, x, c) \<Rightarrow> do { (res, s) \<leftarrow> doShiftd E k op d x c (reg_bits E dst) s; setReg E dst (Some res) s } }"

definition instrumentShiftdMemRegImm :: "instr_env \<Rightarrow> CONTEXT \<Rightarrow> mem_arg \<Rightarrow> reg \<Rightarrow> addr \<Rightarrow> kind \<Rightarrow> pin_change" where
  "instrumentShiftdMemRegImm E ctx m src imm k s = do {
     op \<leftarrow> getOpKindShift k;
     (got, s) \<leftarrow> getExprFromMemRegImm E ctx m src imm s;
     case got of
       None \<Rightarrow> invalidateEflags op s
     | Some (d, x, c) \<Rightarrow> do {
         (res, s) \<leftarrow> doShiftd E k op d x c (m_size m * 8) s; setMem E (m_addr m) (m_size m) (Some res) s } }"

definition instrumentShiftdMemRegCl :: "instr_env \<Rightarrow> CONTEXT \<Rightarrow> mem_arg \<Rightarrow> reg \<Rightarrow> kind \<Rightarrow> pin_change" where
  "instrumentShiftdMemRegCl E ctx m src k s = do {
     op \<leftarrow> getOpKindShift k;
     (got, s) \<leftarrow> getExprFromMemRegReg E ctx m src (reg_no E REG_CL) s;
     case got of
       None \<Rightarrow> invalidateEflags op s
     | Some (d, x, c) \<Rightarrow> do {
         (res, s) \<leftarrow> doShiftd E k op d x c (m_size m * 8) s; setMem E (m_addr m) (m_size m) (Some res) s } }"

subsection \<open>Binary operations\<close>

fun getOpKindBinary :: "kind \<Rightarrow> op_kind option" where
  "getOpKindBinary Add = Some CC_OP_ADD"
| "getOpKindBinary Sub = Some CC_OP_SUB"
| "getOpKindBinary And = Some CC_OP_LOGIC"
| "getOpKindBinary Or = Some CC_OP_LOGIC"
| "getOpKindBinary Xor = Some CC_OP_LOGIC"
| "getOpKindBinary _ = None"

definition doBinary :: "instr_env \<Rightarrow> kind \<Rightarrow> op_kind \<Rightarrow> expr \<Rightarrow> expr \<Rightarrow> expr pin_step" where
  "doBinary E k op d x s = do {
     (res, s) \<leftarrow> building (createBinaryExpr (builder_of E) k d x) s;
     s \<leftarrow> setEflags op (Some res) (Some d) (Some x) s;
     Some (res, s) }"

text \<open>\<open>wr\<close>: whether the result is written, as it is not for a comparison.\<close>

definition instrumentBinaryRegReg :: "instr_env \<Rightarrow> CONTEXT \<Rightarrow> reg \<Rightarrow> reg \<Rightarrow> kind \<Rightarrow> bool \<Rightarrow> pin_change" where
  "instrumentBinaryRegReg E ctx dst src k wr s = do {
     op \<leftarrow> getOpKindBinary k;
     (got, s) \<leftarrow> getExprFromRegReg E ctx dst src s;
     case got of
       None \<Rightarrow> invalidateEflags op s
     | Some (d, x) \<Rightarrow> do {
         (res, s) \<leftarrow> doBinary E k op d x s; if wr then setReg E dst (Some res) s else Some s } }"

definition instrumentBinaryRegImm :: "instr_env \<Rightarrow> CONTEXT \<Rightarrow> reg \<Rightarrow> addr \<Rightarrow> kind \<Rightarrow> bool \<Rightarrow> pin_change" where
  "instrumentBinaryRegImm E ctx dst imm k wr s = do {
     op \<leftarrow> getOpKindBinary k;
     (got, s) \<leftarrow> getExprFromRegImm E ctx dst imm s;
     case got of
       None \<Rightarrow> invalidateEflags op s
     | Some (d, x) \<Rightarrow> do {
         (res, s) \<leftarrow> doBinary E k op d x s; if wr then setReg E dst (Some res) s else Some s } }"

definition instrumentBinaryRegMem :: "instr_env \<Rightarrow> CONTEXT \<Rightarrow> reg \<Rightarrow> mem_arg \<Rightarrow> kind \<Rightarrow> bool \<Rightarrow> pin_change" where
  "instrumentBinaryRegMem E ctx dst m k wr s = do {
     op \<leftarrow> getOpKindBinary k;
     (got, s) \<leftarrow> getExprFromRegMem E ctx dst m s;
     case got of
       None \<Rightarrow> invalidateEflags op s
     | Some (d, x) \<Rightarrow> do {
         (res, s) \<leftarrow> doBinary E k op d x s; if wr then setReg E dst (Some res) s else Some s } }"

definition instrumentBinaryMemReg :: "instr_env \<Rightarrow> CONTEXT \<Rightarrow> mem_arg \<Rightarrow> reg \<Rightarrow> kind \<Rightarrow> bool \<Rightarrow> pin_change" where
  "instrumentBinaryMemReg E ctx m src k wr s = do {
     op \<leftarrow> getOpKindBinary k;
     (got, s) \<leftarrow> getExprFromMemReg E ctx m src s;
     case got of
       None \<Rightarrow> invalidateEflags op s
     | Some (d, x) \<Rightarrow> do {
         (res, s) \<leftarrow> doBinary E k op d x s;
         if wr then setMem E (m_addr m) (m_size m) (Some res) s else Some s } }"

definition instrumentBinaryMemImm :: "instr_env \<Rightarrow> CONTEXT \<Rightarrow> mem_arg \<Rightarrow> addr \<Rightarrow> kind \<Rightarrow> bool \<Rightarrow> pin_change" where
  "instrumentBinaryMemImm E ctx m imm k wr s = do {
     op \<leftarrow> getOpKindBinary k;
     (got, s) \<leftarrow> getExprFromMemImm E ctx m imm s;
     case got of
       None \<Rightarrow> invalidateEflags op s
     | Some (d, x) \<Rightarrow> do {
         (res, s) \<leftarrow> doBinary E k op d x s;
         if wr then setMem E (m_addr m) (m_size m) (Some res) s else Some s } }"

text \<open>With carry: the carry goes to the first operand, which is also what the flags remember.\<close>

definition doCarry :: "instr_env \<Rightarrow> kind \<Rightarrow> op_kind \<Rightarrow> expr \<Rightarrow> expr \<Rightarrow> expr \<Rightarrow> expr pin_step" where
  "doCarry E k op d x c s = do {
     (d, s) \<leftarrow> building (createBinaryExpr (builder_of E) k d c) s;
     (res, s) \<leftarrow> building (createBinaryExpr (builder_of E) k d x) s;
     s \<leftarrow> setEflags op (Some res) (Some d) (Some x) s;
     Some (res, s) }"

definition instrumentCarryRegReg :: "instr_env \<Rightarrow> CONTEXT \<Rightarrow> reg \<Rightarrow> reg \<Rightarrow> kind \<Rightarrow> pin_change" where
  "instrumentCarryRegReg E ctx dst src k s = assert (k = Add \<or> k = Sub) (do {
     op \<leftarrow> getOpKindBinary k;
     (got, s) \<leftarrow> getExprFromRegRegCf E ctx dst src s;
     case got of
       None \<Rightarrow> invalidateEflags op s
     | Some (d, x, c) \<Rightarrow> do { (res, s) \<leftarrow> doCarry E k op d x c s; setReg E dst (Some res) s } })"

definition instrumentCarryRegImm :: "instr_env \<Rightarrow> CONTEXT \<Rightarrow> reg \<Rightarrow> addr \<Rightarrow> kind \<Rightarrow> pin_change" where
  "instrumentCarryRegImm E ctx dst imm k s = assert (k = Add \<or> k = Sub) (do {
     op \<leftarrow> getOpKindBinary k;
     (got, s) \<leftarrow> getExprFromRegImmCf E ctx dst imm s;
     case got of
       None \<Rightarrow> invalidateEflags op s
     | Some (d, x, c) \<Rightarrow> do { (res, s) \<leftarrow> doCarry E k op d x c s; setReg E dst (Some res) s } })"

definition instrumentCarryRegMem :: "instr_env \<Rightarrow> CONTEXT \<Rightarrow> reg \<Rightarrow> mem_arg \<Rightarrow> kind \<Rightarrow> pin_change" where
  "instrumentCarryRegMem E ctx dst m k s = assert (k = Add \<or> k = Sub) (do {
     op \<leftarrow> getOpKindBinary k;
     (got, s) \<leftarrow> getExprFromRegMemCf E ctx dst m s;
     case got of
       None \<Rightarrow> invalidateEflags op s
     | Some (d, x, c) \<Rightarrow> do { (res, s) \<leftarrow> doCarry E k op d x c s; setReg E dst (Some res) s } })"

definition instrumentCarryMemReg :: "instr_env \<Rightarrow> CONTEXT \<Rightarrow> mem_arg \<Rightarrow> reg \<Rightarrow> kind \<Rightarrow> pin_change" where
  "instrumentCarryMemReg E ctx m src k s = assert (k = Add \<or> k = Sub) (do {
     op \<leftarrow> getOpKindBinary k;
     (got, s) \<leftarrow> getExprFromMemRegCf E ctx m src s;
     case got of
       None \<Rightarrow> invalidateEflags op s
     | Some (d, x, c) \<Rightarrow> do {
         (res, s) \<leftarrow> doCarry E k op d x c s; setMem E (m_addr m) (m_size m) (Some res) s } })"

definition instrumentCarryMemImm :: "instr_env \<Rightarrow> CONTEXT \<Rightarrow> mem_arg \<Rightarrow> addr \<Rightarrow> kind \<Rightarrow> pin_change" where
  "instrumentCarryMemImm E ctx m imm k s = assert (k = Add \<or> k = Sub) (do {
     op \<leftarrow> getOpKindBinary k;
     (got, s) \<leftarrow> getExprFromMemImmCf E ctx m imm s;
     case got of
       None \<Rightarrow> invalidateEflags op s
     | Some (d, x, c) \<Rightarrow> do {
         (res, s) \<leftarrow> doCarry E k op d x c s; setMem E (m_addr m) (m_size m) (Some res) s } })"

end
