(* ===== verification/InstrumentBits.thy ===== *)
theory InstrumentBits
  imports InstrumentArith
begin

unbundle bit_operations_syntax

section \<open>Handlers of bit operations, quotients and conversions\<close>

text \<open>
  The handlers of \<open>instrument.cpp\<close> for conversions, bit scans and tests, increments, quotients,
  negation and effective addresses.
\<close>

subsection \<open>Conversions\<close>

definition instrumentCbw :: "instr_env \<Rightarrow> CONTEXT \<Rightarrow> reg \<Rightarrow> reg \<Rightarrow> pin_change" where
  "instrumentCbw E ctx to from s = do {
     (e, s) \<leftarrow> getReg E ctx from s;
     case e of
       None \<Rightarrow> clearReg E to s
     | Some e \<Rightarrow> do { (e, s) \<leftarrow> building (createSExt (builder_of E) e (reg_bits E to)) s; setReg E to (Some e) s } }"

definition instrumentCwd :: "instr_env \<Rightarrow> CONTEXT \<Rightarrow> reg \<Rightarrow> reg \<Rightarrow> pin_change" where
  "instrumentCwd E ctx dx ax s = do {
     let n = reg_bits E ax;
     (e, s) \<leftarrow> getReg E ctx ax s;
     case e of
       None \<Rightarrow> clearReg E dx s
     | Some e \<Rightarrow> do {
         (e, s) \<leftarrow> building (createSExt (builder_of E) e (n * 2)) s;
         (e, s) \<leftarrow> building (createExtract (builder_of E) e n n) s;
         setReg E dx (Some e) s } }"

subsection \<open>Bit scans\<close>

text \<open>The loops of \<open>doBsf\<close> and \<open>doBsr\<close> over the positions \<open>is\<close> of the bits.\<close>

fun scan_loop :: "builder \<Rightarrow> expr \<Rightarrow> expr \<Rightarrow> nat \<Rightarrow> nat list \<Rightarrow> expr \<Rightarrow> expr build" where
  "scan_loop B e one n [] res s = Some (res, s)"
| "scan_loop B e one n (i # is) res s = do {
     (expr_bit, s) \<leftarrow> createExtract B e i 1 s;
     (c, s) \<leftarrow> createBinaryExpr B Equal expr_bit one s;
     (t, s) \<leftarrow> createConstant B i n s;
     (res, s) \<leftarrow> createIte B c t res s;
     scan_loop B e one n is res s }"

definition doBsf :: "builder \<Rightarrow> expr \<Rightarrow> expr build" where
  "doBsf B e s = do {
     (one, s) \<leftarrow> createConstant B 1 1 s;
     let n = bits e;
     (res, s) \<leftarrow> createConstant B n n s;
     scan_loop B e one n (rev [0..<bits e - 1]) res s }"

definition doBsr :: "builder \<Rightarrow> expr \<Rightarrow> expr build" where
  "doBsr B e s = do {
     (one, s) \<leftarrow> createConstant B 1 1 s;
     let n = bits e;
     (_, s) \<leftarrow> createConstant B n n s;
     (res, s) \<leftarrow> createConstant B n n s;
     scan_loop B e one n [0..<bits e] res s }"

definition doBs :: "instr_env \<Rightarrow> reg \<Rightarrow> expr \<Rightarrow> bool \<Rightarrow> pin_change" where
  "doBs E dst x neg s = do {
     (zero, s) \<leftarrow> building (createConstant (builder_of E) 0 (bits x)) s;
     s \<leftarrow> setEflags CC_OP_SUB (Some x) (Some x) (Some zero) s;
     (res, s) \<leftarrow> building (if neg then doBsr (builder_of E) x else doBsf (builder_of E) x) s;
     setReg E dst (Some res) s }"

definition instrumentBsRegReg :: "instr_env \<Rightarrow> CONTEXT \<Rightarrow> reg \<Rightarrow> reg \<Rightarrow> bool \<Rightarrow> pin_change" where
  "instrumentBsRegReg E ctx dst src neg s = do {
     (x, s) \<leftarrow> getReg E ctx src s;
     case x of
       None \<Rightarrow> do { s \<leftarrow> clearReg E dst s; invalidateEflags CC_OP_SUB s }
     | Some x \<Rightarrow> doBs E dst x neg s }"

text \<open>Here the memory operand is cleared and not the register.\<close>

definition instrumentBsRegMem :: "instr_env \<Rightarrow> CONTEXT \<Rightarrow> reg \<Rightarrow> mem_arg \<Rightarrow> bool \<Rightarrow> pin_change" where
  "instrumentBsRegMem E ctx dst m neg s = do {
     s \<leftarrow> makeAddrConcrete E ctx m s;
     (x, s) \<leftarrow> getMem E ctx (m_addr m) (m_size m) s;
     case x of
       None \<Rightarrow> do { s \<leftarrow> clearMem (m_addr m) (m_size m) s; invalidateEflags CC_OP_SUB s }
     | Some x \<Rightarrow> doBs E dst x neg s }"

text \<open>The parts of \<open>e\<close> from the lowest, pushed to the back of the list.\<close>

fun bswap_loop :: "builder \<Rightarrow> expr \<Rightarrow> nat list \<Rightarrow> expr list \<Rightarrow> expr list build" where
  "bswap_loop B e [] exprs s = Some (exprs, s)"
| "bswap_loop B e (i # is) exprs s = do {
     (x, s) \<leftarrow> createExtract B e (i * 8) 8 s; bswap_loop B e is (exprs @ [x]) s }"

definition instrumentBswapReg :: "instr_env \<Rightarrow> CONTEXT \<Rightarrow> reg \<Rightarrow> pin_change" where
  "instrumentBswapReg E ctx dst s = do {
     (d, s) \<leftarrow> getReg E ctx dst s;
     case d of
       None \<Rightarrow> Some s
     | Some d \<Rightarrow> do {
         (exprs, s) \<leftarrow> building (bswap_loop (builder_of E) d [0..<bits d div 8] []) s;
         (res, s) \<leftarrow> building (createConcat_list (builder_of E) exprs) s;
         setReg E dst (Some res) s } }"

subsection \<open>Bit tests\<close>

text \<open>
  \<open>1 << imm\<close> is a shift of an \<open>int\<close>: for \<open>imm\<close> from 32 on it has no defined value, and for 31 its sign
  is extended to the 64 bits of the mask.
\<close>

definition bt_mask :: "kind \<Rightarrow> addr \<Rightarrow> addr option" where
  "bt_mask k imm =
     (let one = (push_bit (unat imm) 1 :: 32 word) in
      if k = Or \<or> k = Xor then assert (imm < 32) (Some (scast one))
      else if k = And then assert (imm < 32) (Some (scast (NOT one)))
      else if k = Invalid then Some 0
      else None)"

definition doBt :: "instr_env \<Rightarrow> expr \<Rightarrow> addr \<Rightarrow> nat \<Rightarrow> kind \<Rightarrow> expr option pin_step" where
  "doBt E d imm n k s = do {
     let imm = imm AND (of_nat n - 1);
     msk \<leftarrow> bt_mask k imm;
     (expr_bit, s) \<leftarrow> building (createExtract (builder_of E) d (unat imm) 1) s;
     (expr_bit, s) \<leftarrow> building (bitToBool (builder_of E) expr_bit) s;
     s \<leftarrow> setEflags CC_OP_BT (Some expr_bit) None None s;
     if k \<noteq> Invalid then do {
       (expr_mask, s) \<leftarrow> building (createConstant (builder_of E) (unat msk) n) s;
       (d, s) \<leftarrow> building (createBinaryExpr (builder_of E) k d expr_mask) s;
       Some (Some d, s) }
     else Some (None, s) }"

definition instrumentBtRegReg :: "instr_env \<Rightarrow> CONTEXT \<Rightarrow> reg \<Rightarrow> reg \<Rightarrow> kind \<Rightarrow> pin_change" where
  "instrumentBtRegReg E ctx dst src k s = do {
     (d, s) \<leftarrow> getReg E ctx dst s;
     s \<leftarrow> concretizeReg E ctx src s;
     case d of
       None \<Rightarrow> invalidateEflags CC_OP_BT s
     | Some d \<Rightarrow> do {
         (d, s) \<leftarrow> doBt E d (reg_word E ctx src) (reg_bits E dst) k s;
         if k \<noteq> Invalid then assert (d \<noteq> None) (setReg E dst d s) else Some s } }"

definition instrumentBtRegImm :: "instr_env \<Rightarrow> CONTEXT \<Rightarrow> reg \<Rightarrow> addr \<Rightarrow> kind \<Rightarrow> pin_change" where
  "instrumentBtRegImm E ctx dst imm k s = do {
     (d, s) \<leftarrow> getReg E ctx dst s;
     case d of
       None \<Rightarrow> invalidateEflags CC_OP_BT s
     | Some d \<Rightarrow> do {
         (d, s) \<leftarrow> doBt E d imm (reg_bits E dst) k s;
         if k \<noteq> Invalid then assert (d \<noteq> None) (setReg E dst d s) else Some s } }"

definition instrumentBtMemReg :: "instr_env \<Rightarrow> CONTEXT \<Rightarrow> mem_arg \<Rightarrow> reg \<Rightarrow> kind \<Rightarrow> pin_change" where
  "instrumentBtMemReg E ctx m src k s = do {
     s \<leftarrow> concretizeReg E ctx src s;
     let imm = reg_word E ctx src;
     (d, s) \<leftarrow> getMem E ctx (m_addr m) (m_size m) s;
     case d of
       None \<Rightarrow> invalidateEflags CC_OP_BT s
     | Some d \<Rightarrow> do {
         (d, s) \<leftarrow> doBt E d imm (m_size m * 8) k s;
         if k \<noteq> Invalid then assert (d \<noteq> None) (setMem E (m_addr m) (m_size m) d s) else Some s } }"

definition instrumentBtMemImm :: "instr_env \<Rightarrow> CONTEXT \<Rightarrow> mem_arg \<Rightarrow> addr \<Rightarrow> kind \<Rightarrow> pin_change" where
  "instrumentBtMemImm E ctx m imm k s = do {
     (d, s) \<leftarrow> getMem E ctx (m_addr m) (m_size m) s;
     case d of
       None \<Rightarrow> invalidateEflags CC_OP_BT s
     | Some d \<Rightarrow> do {
         (d, s) \<leftarrow> doBt E d imm (m_size m * 8) k s;
         if k \<noteq> Invalid then assert (d \<noteq> None) (setMem E (m_addr m) (m_size m) d s) else Some s } }"

subsection \<open>Increments, quotients and negation\<close>

fun getOpKindIncDec :: "kind \<Rightarrow> op_kind option" where
  "getOpKindIncDec Add = Some CC_OP_INC"
| "getOpKindIncDec Sub = Some CC_OP_DEC"
| "getOpKindIncDec _ = None"

definition doIncDec :: "instr_env \<Rightarrow> expr option \<Rightarrow> kind \<Rightarrow> op_kind \<Rightarrow> expr option pin_step" where
  "doIncDec E d k op s = (case d of
     None \<Rightarrow> do { s \<leftarrow> invalidateEflags op s; Some (None, s) }
   | Some d \<Rightarrow> do {
       (x, s) \<leftarrow> building (createConstant (builder_of E) 1 (bits d)) s;
       (res, s) \<leftarrow> building (createBinaryExpr (builder_of E) k d x) s;
       s \<leftarrow> setEflags op (Some res) (Some d) (Some x) s;
       Some (Some res, s) })"

definition instrumentIncDecReg :: "instr_env \<Rightarrow> CONTEXT \<Rightarrow> reg \<Rightarrow> kind \<Rightarrow> pin_change" where
  "instrumentIncDecReg E ctx dst k s = do {
     (d, s) \<leftarrow> getReg E ctx dst s;
     op \<leftarrow> getOpKindIncDec k;
     (res, s) \<leftarrow> doIncDec E d k op s;
     if res \<noteq> None then setReg E dst res s else Some s }"

definition instrumentIncDecMem :: "instr_env \<Rightarrow> CONTEXT \<Rightarrow> mem_arg \<Rightarrow> kind \<Rightarrow> pin_change" where
  "instrumentIncDecMem E ctx m k s = do {
     s \<leftarrow> makeAddrConcrete E ctx m s;
     (d, s) \<leftarrow> getMem E ctx (m_addr m) (m_size m) s;
     op \<leftarrow> getOpKindIncDec k;
     (res, s) \<leftarrow> doIncDec E d k op s;
     if res \<noteq> None then setMem E (m_addr m) (m_size m) res s else Some s }"

text \<open>Quotient and remainder, built in this order.\<close>

definition divide :: "builder \<Rightarrow> expr \<Rightarrow> expr \<Rightarrow> nat \<Rightarrow> bool \<Rightarrow> (expr \<times> expr) build" where
  "divide B x dividend n sg s = do {
     (x, s) \<leftarrow> extendToDouble B x sg s;
     assert (bits x = bits dividend) (do {
       (q, s) \<leftarrow> createBinaryExpr B (if sg then SDiv else UDiv) dividend x s;
       (q, s) \<leftarrow> createExtract B q 0 n s;
       (r, s) \<leftarrow> createBinaryExpr B (if sg then SRem else URem) dividend x s;
       (r, s) \<leftarrow> createExtract B r 0 n s;
       Some ((q, r), s) }) }"

definition doDiv :: "instr_env \<Rightarrow> reg \<Rightarrow> reg \<Rightarrow> expr \<Rightarrow> expr \<Rightarrow> bool \<Rightarrow> pin_change" where
  "doDiv E reg_h reg_l x dividend sg s = do {
     ((q, r), s) \<leftarrow> building (divide (builder_of E) x dividend (reg_bits E reg_h) sg) s;
     s \<leftarrow> setReg E reg_l (Some q) s;
     setReg E reg_h (Some r) s }"

definition instrumentDivReg :: "instr_env \<Rightarrow> CONTEXT \<Rightarrow> reg \<Rightarrow> bool \<Rightarrow> pin_change" where
  "instrumentDivReg E ctx src sg s = do {
     let reg_l = getAx (pin E) (reg_bytes E src);
     let reg_h = getDx (pin E) (reg_bytes E src);
     s \<leftarrow> invalidateEflags CC_OP_UMUL s;
     (got, s) \<leftarrow> getExprFromRegRegReg E ctx src reg_l reg_h s;
     case got of
       None \<Rightarrow> Some s
     | Some (x, l, h) \<Rightarrow> do {
         (d, s) \<leftarrow> building (createConcat (builder_of E) h l) s;
         doDiv E reg_h reg_l x d sg s } }"

definition instrumentDivMem :: "instr_env \<Rightarrow> CONTEXT \<Rightarrow> mem_arg \<Rightarrow> bool \<Rightarrow> pin_change" where
  "instrumentDivMem E ctx m sg s = do {
     let reg_l = getAx (pin E) (m_size m);
     let reg_h = getDx (pin E) (m_size m);
     s \<leftarrow> invalidateEflags CC_OP_UMUL s;
     (got, s) \<leftarrow> getExprFromMemRegReg E ctx m reg_l reg_h s;
     case got of
       None \<Rightarrow> Some s
     | Some (x, l, h) \<Rightarrow> do {
         (d, s) \<leftarrow> building (createConcat (builder_of E) h l) s;
         doDiv E reg_h reg_l x d sg s } }"

definition doNegNot :: "instr_env \<Rightarrow> expr option \<Rightarrow> kind \<Rightarrow> expr option pin_step" where
  "doNegNot E d k s = (case d of
     None \<Rightarrow> do { s \<leftarrow> invalidateEflags CC_OP_LOGIC s; Some (None, s) }
   | Some d \<Rightarrow> do {
       (res, s) \<leftarrow> building (createUnaryExpr (builder_of E) k d) s;
       s \<leftarrow> setEflags CC_OP_LOGIC (Some res) (Some d) None s;
       Some (Some res, s) })"

definition instrumentNegNotReg :: "instr_env \<Rightarrow> CONTEXT \<Rightarrow> reg \<Rightarrow> kind \<Rightarrow> pin_change" where
  "instrumentNegNotReg E ctx dst k s = do {
     (d, s) \<leftarrow> getReg E ctx dst s;
     (res, s) \<leftarrow> doNegNot E d k s;
     if res \<noteq> None then setReg E dst res s else Some s }"

definition instrumentNegNotMem :: "instr_env \<Rightarrow> CONTEXT \<Rightarrow> mem_arg \<Rightarrow> kind \<Rightarrow> pin_change" where
  "instrumentNegNotMem E ctx m k s = do {
     s \<leftarrow> makeAddrConcrete E ctx m s;
     (d, s) \<leftarrow> getMem E ctx (m_addr m) (m_size m) s;
     (res, s) \<leftarrow> doNegNot E d k s;
     if res \<noteq> None then setMem E (m_addr m) (m_size m) res s else Some s }"

definition instrumentLeaRegMem :: "instr_env \<Rightarrow> CONTEXT \<Rightarrow> reg \<Rightarrow> reg \<Rightarrow> reg \<Rightarrow> addr \<Rightarrow> 32 word \<Rightarrow> pin_change" where
  "instrumentLeaRegMem E ctx dst base idx disp scale s = do {
     (e, s) \<leftarrow> getAddrExpr (builder_of E) (pin E) ctx base idx disp scale s;
     setReg E dst e s }"

end
