(* ===== verification/InstrumentMove.thy ===== *)
theory InstrumentMove
  imports InstrumentBits
begin

unbundle bit_operations_syntax

section \<open>Handlers of jumps, moves and other instructions\<close>

text \<open>
  The handlers of \<open>instrument.cpp\<close> for conditional and indirect jumps, calls and returns, moves
  between registers and memory, the stack, exchanges and string instructions.
\<close>

subsection \<open>Jumps and calls\<close>

definition instrumentJcc :: "instr_env \<Rightarrow> CONTEXT \<Rightarrow> bool \<Rightarrow> addr \<Rightarrow> jcc_kind \<Rightarrow> bool \<Rightarrow> pin_change" where
  "instrumentJcc E ctx taken target jcc neg s = do {
     (e, s) \<leftarrow> thread_computeJcc (apint_of E) (builder_of E) jcc neg s;
     case e of
       None \<Rightarrow> Some s
     | Some e \<Rightarrow>
         let pc = instr_ptr E ctx in on_solver (addJcc (solver_of E) e taken pc) s }"

definition instrumentJmpReg :: "instr_env \<Rightarrow> CONTEXT \<Rightarrow> reg \<Rightarrow> pin_change" where
  "instrumentJmpReg E ctx r s = do {
     (e, s) \<leftarrow> getReg E ctx r s;
     case e of
       None \<Rightarrow> Some s
     | Some e \<Rightarrow> do {
         let val = getRegValue (pin E) ctx r;
         s \<leftarrow> on_solver (solveAll (fuel E) (solver_of E) e val) s;
         clearReg E r s } }"

definition instrumentJmpMem :: "instr_env \<Rightarrow> CONTEXT \<Rightarrow> mem_arg \<Rightarrow> pin_change" where
  "instrumentJmpMem E ctx m s = do {
     (e, s) \<leftarrow> getMem E ctx (m_addr m) (m_size m) s;
     case e of
       None \<Rightarrow> Some s
     | Some e \<Rightarrow> do {
         let val = getMemValue (ctx_mem ctx) (m_addr m) (m_size m);
         s \<leftarrow> on_solver (solveAll (fuel E) (solver_of E) e val) s;
         clearMem (m_addr m) (m_size m) s } }"

definition instrumentCall :: "instr_env \<Rightarrow> CONTEXT \<Rightarrow> addr \<Rightarrow> nat \<Rightarrow> pin_change" where
  "instrumentCall E ctx a n s = do {
     s \<leftarrow> concretizeReg E ctx (reg_no E REG_STACK_PTR) s;
     clearMem a n s }"

definition instrumentCallAfter :: "xxh32 \<Rightarrow> addr \<Rightarrow> pin_change" where
  "instrumentCallAfter X ret_addr = on_csm (visitCall X ret_addr)"

definition instrumentRet :: "xxh32 \<Rightarrow> addr \<Rightarrow> pin_change" where
  "instrumentRet X branch_addr = on_csm (visitRet X branch_addr)"

subsection \<open>Moves\<close>

text \<open>The loops that copy byte by byte: registers to registers, and from and to memory.\<close>

fun copy_reg_reg :: "instr_env \<Rightarrow> CONTEXT \<Rightarrow> reg \<Rightarrow> reg \<Rightarrow> nat \<Rightarrow> nat \<Rightarrow> nat list \<Rightarrow> pin_change" where
  "copy_reg_reg E ctx dst src dst_from src_from [] s = Some s"
| "copy_reg_reg E ctx dst src dst_from src_from (i # is) s = do {
     (e, s) \<leftarrow> getExprFromRegAlways (builder_of E) (pin E) ctx src (i + src_from) 1 s;
     s \<leftarrow> setExprToReg_part (builder_of E) (pin E) dst e (i + dst_from) 1 s;
     copy_reg_reg E ctx dst src dst_from src_from is s }"

fun copy_reg_mem :: "instr_env \<Rightarrow> reg \<Rightarrow> addr \<Rightarrow> nat \<Rightarrow> nat list \<Rightarrow> pin_change" where
  "copy_reg_mem E dst a dst_from [] s = Some s"
| "copy_reg_mem E dst a dst_from (i # is) s = do {
     e \<leftarrow> getExprFromMem (g_memory s) (a + of_nat i);
     s \<leftarrow> setExprToReg_part (builder_of E) (pin E) dst e (i + dst_from) 1 s;
     copy_reg_mem E dst a dst_from is s }"

fun copy_mem_reg :: "instr_env \<Rightarrow> CONTEXT \<Rightarrow> addr \<Rightarrow> reg \<Rightarrow> nat \<Rightarrow> nat list \<Rightarrow> pin_change" where
  "copy_mem_reg E ctx a src src_from [] s = Some s"
| "copy_mem_reg E ctx a src src_from (i # is) s = do {
     (e, s) \<leftarrow> getExprFromRegAlways (builder_of E) (pin E) ctx src (i + src_from) 1 s;
     s \<leftarrow> on_memory (setExprToMem (a + of_nat i) e) s;
     copy_mem_reg E ctx a src src_from is s }"

fun copy_mem_mem :: "addr \<Rightarrow> addr \<Rightarrow> nat list \<Rightarrow> pin_change" where
  "copy_mem_mem dst src [] s = Some s"
| "copy_mem_mem dst src (i # is) s = do {
     e \<leftarrow> getExprFromMem (g_memory s) (src + of_nat i);
     s \<leftarrow> on_memory (setExprToMem (dst + of_nat i) e) s;
     copy_mem_mem dst src is s }"

definition doMovRegReg :: "instr_env \<Rightarrow> CONTEXT \<Rightarrow> reg \<Rightarrow> reg \<Rightarrow> nat \<Rightarrow> nat \<Rightarrow> nat \<Rightarrow> pin_change" where
  "doMovRegReg E ctx dst src dst_from src_from n = copy_reg_reg E ctx dst src dst_from src_from [0..<n]"

definition doMovRegMem :: "instr_env \<Rightarrow> CONTEXT \<Rightarrow> reg \<Rightarrow> mem_arg \<Rightarrow> nat \<Rightarrow> pin_change" where
  "doMovRegMem E ctx dst m dst_from s = do {
     s \<leftarrow> makeAddrConcrete E ctx m s;
     copy_reg_mem E dst (m_addr m) dst_from [0..<m_size m] s }"

definition doMovMemReg :: "instr_env \<Rightarrow> CONTEXT \<Rightarrow> mem_arg \<Rightarrow> reg \<Rightarrow> nat \<Rightarrow> pin_change" where
  "doMovMemReg E ctx m src src_from s = do {
     s \<leftarrow> makeAddrConcrete E ctx m s;
     copy_mem_reg E ctx (m_addr m) src src_from [0..<m_size m] s }"

definition instrumentMovRegReg :: "instr_env \<Rightarrow> CONTEXT \<Rightarrow> reg \<Rightarrow> reg \<Rightarrow> pin_change" where
  "instrumentMovRegReg E ctx dst src = doMovRegReg E ctx dst src 0 0 (reg_bytes E dst)"

definition instrumentMovRegImm :: "instr_env \<Rightarrow> reg \<Rightarrow> addr \<Rightarrow> pin_change" where
  "instrumentMovRegImm E dst imm = clearReg E dst"

definition instrumentMovRegMem :: "instr_env \<Rightarrow> CONTEXT \<Rightarrow> reg \<Rightarrow> mem_arg \<Rightarrow> pin_change" where
  "instrumentMovRegMem E ctx dst m = doMovRegMem E ctx dst m 0"

definition instrumentMovMemImm :: "instr_env \<Rightarrow> CONTEXT \<Rightarrow> mem_arg \<Rightarrow> addr \<Rightarrow> pin_change" where
  "instrumentMovMemImm E ctx m imm s = do {
     s \<leftarrow> makeAddrConcrete E ctx m s;
     clearMem (m_addr m) (m_size m) s }"

definition instrumentMovMemReg :: "instr_env \<Rightarrow> CONTEXT \<Rightarrow> mem_arg \<Rightarrow> reg \<Rightarrow> pin_change" where
  "instrumentMovMemReg E ctx m src = doMovMemReg E ctx m src 0"

definition instrumentMovhRegMem :: "instr_env \<Rightarrow> CONTEXT \<Rightarrow> reg \<Rightarrow> mem_arg \<Rightarrow> pin_change" where
  "instrumentMovhRegMem E ctx dst m s = assert (reg_bytes E dst = 16) (doMovRegMem E ctx dst m 8 s)"

definition instrumentMovhMemReg :: "instr_env \<Rightarrow> CONTEXT \<Rightarrow> mem_arg \<Rightarrow> reg \<Rightarrow> pin_change" where
  "instrumentMovhMemReg E ctx m src s = assert (reg_bytes E src = 16) (doMovMemReg E ctx m src 8 s)"

definition instrumentVmovlRegRegMem :: "instr_env \<Rightarrow> CONTEXT \<Rightarrow> reg \<Rightarrow> reg \<Rightarrow> mem_arg \<Rightarrow> pin_change" where
  "instrumentVmovlRegRegMem E ctx dst src m s = assert (reg_bytes E dst = 16) (do {
     s \<leftarrow> doMovRegReg E ctx dst src 8 8 8 s;
     doMovRegMem E ctx dst m 0 s })"

text \<open>
  \<open>REG_Size(dst) - size\<close> is the default \<open>-1\<close> of \<open>clearExprFromReg\<close> when the destination is one byte
  smaller, and no byte is cleared when it is smaller by more.
\<close>

definition upper_bytes :: "nat \<Rightarrow> nat \<Rightarrow> nat option" where
  "upper_bytes n k = (if k = n + 1 then None else Some (n - k))"

definition instrumentMovlzRegReg :: "instr_env \<Rightarrow> CONTEXT \<Rightarrow> reg \<Rightarrow> reg \<Rightarrow> nat \<Rightarrow> pin_change" where
  "instrumentMovlzRegReg E ctx dst src width s = do {
     let n = reg_bytes E src;
     s \<leftarrow> doMovRegReg E ctx dst src 0 0 width s;
     clearExprFromReg (pin E) dst n (upper_bytes (reg_bytes E dst) n) s }"

definition instrumentMovlzRegMem :: "instr_env \<Rightarrow> CONTEXT \<Rightarrow> reg \<Rightarrow> mem_arg \<Rightarrow> nat \<Rightarrow> pin_change" where
  "instrumentMovlzRegMem E ctx dst m width s = do {
     s \<leftarrow> doMovRegMem E ctx dst m 0 s;
     assert (m_size m \<le> reg_bytes E dst)
       (clearExprFromReg (pin E) dst (m_size m) (upper_bytes (reg_bytes E dst) (m_size m)) s) }"

definition instrumentMovlzMemReg :: "instr_env \<Rightarrow> CONTEXT \<Rightarrow> mem_arg \<Rightarrow> reg \<Rightarrow> nat \<Rightarrow> pin_change" where
  "instrumentMovlzMemReg E ctx m src width = doMovMemReg E ctx m src 0"

definition instrumentMovs :: "instr_env \<Rightarrow> CONTEXT \<Rightarrow> addr \<Rightarrow> addr \<Rightarrow> nat \<Rightarrow> pin_change" where
  "instrumentMovs E ctx src_addr dst_addr n s = do {
     s \<leftarrow> concretizeReg E ctx (reg_no E REG_GSI) s;
     s \<leftarrow> concretizeReg E ctx (reg_no E REG_GDI) s;
     copy_mem_mem dst_addr src_addr [0..<n] s }"

text \<open>Moves with extension.\<close>

definition extend_opt :: "(expr \<Rightarrow> nat \<Rightarrow> expr build) \<Rightarrow> expr option \<Rightarrow> nat \<Rightarrow> expr option pin_step" where
  "extend_opt ext e n s = (case e of
     None \<Rightarrow> Some (None, s) | Some e \<Rightarrow> do { (e, s) \<leftarrow> building (ext e n) s; Some (Some e, s) })"

definition instrumentMovsxRegMem :: "instr_env \<Rightarrow> CONTEXT \<Rightarrow> reg \<Rightarrow> mem_arg \<Rightarrow> pin_change" where
  "instrumentMovsxRegMem E ctx dst m s = do {
     (e, s) \<leftarrow> getExprFromMemSrc E ctx m s;
     (e, s) \<leftarrow> extend_opt (createSExt (builder_of E)) e (reg_bits E dst) s;
     setReg E dst e s }"

definition instrumentMovsxRegReg :: "instr_env \<Rightarrow> CONTEXT \<Rightarrow> reg \<Rightarrow> reg \<Rightarrow> pin_change" where
  "instrumentMovsxRegReg E ctx dst src s = do {
     (e, s) \<leftarrow> getReg E ctx src s;
     (e, s) \<leftarrow> extend_opt (createSExt (builder_of E)) e (reg_bits E dst) s;
     setReg E dst e s }"

definition instrumentMovzxRegMem :: "instr_env \<Rightarrow> CONTEXT \<Rightarrow> reg \<Rightarrow> mem_arg \<Rightarrow> pin_change" where
  "instrumentMovzxRegMem E ctx dst m s = do {
     (e, s) \<leftarrow> getExprFromMemSrc E ctx m s;
     (e, s) \<leftarrow> extend_opt (createZExt (builder_of E)) e (reg_bits E dst) s;
     setReg E dst e s }"

definition instrumentMovzxRegReg :: "instr_env \<Rightarrow> CONTEXT \<Rightarrow> reg \<Rightarrow> reg \<Rightarrow> pin_change" where
  "instrumentMovzxRegReg E ctx dst src s = do {
     (e, s) \<leftarrow> getReg E ctx src s;
     (e, s) \<leftarrow> extend_opt (createZExt (builder_of E)) e (reg_bits E dst) s;
     setReg E dst e s }"

subsection \<open>Conditional moves and exchanges\<close>

definition instrumentCmovRegReg :: "instr_env \<Rightarrow> CONTEXT \<Rightarrow> bool \<Rightarrow> reg \<Rightarrow> reg \<Rightarrow> jcc_kind \<Rightarrow> bool \<Rightarrow> pin_change" where
  "instrumentCmovRegReg E ctx taken dst src jcc neg s = do {
     s \<leftarrow> instrumentJcc E ctx taken 0 jcc neg s;
     if taken then instrumentMovRegReg E ctx dst src s else Some s }"

definition instrumentCmovRegMem :: "instr_env \<Rightarrow> CONTEXT \<Rightarrow> bool \<Rightarrow> reg \<Rightarrow> mem_arg \<Rightarrow> jcc_kind \<Rightarrow> bool \<Rightarrow> pin_change" where
  "instrumentCmovRegMem E ctx taken dst m jcc neg s = do {
     s \<leftarrow> instrumentJcc E ctx taken 0 jcc neg s;
     if taken then instrumentMovRegMem E ctx dst m s else Some s }"

definition instrumentCmps :: "instr_env \<Rightarrow> CONTEXT \<Rightarrow> addr \<Rightarrow> addr \<Rightarrow> nat \<Rightarrow> pin_change" where
  "instrumentCmps E ctx dst_addr src_addr n s = do {
     s \<leftarrow> concretizeReg E ctx (reg_no E REG_GSI) s;
     s \<leftarrow> concretizeReg E ctx (reg_no E REG_GDI) s;
     (got, s) \<leftarrow> getExprFromMemMem E ctx dst_addr src_addr n s;
     case got of
       None \<Rightarrow> invalidateEflags CC_OP_SUB s
     | Some (d, x) \<Rightarrow> do {
         (res, s) \<leftarrow> building (createBinaryExpr (builder_of E) Sub d x) s;
         setEflags CC_OP_SUB (Some res) (Some d) (Some x) s } }"

definition instrumentCmpxchgRegReg :: "instr_env \<Rightarrow> CONTEXT \<Rightarrow> reg \<Rightarrow> reg \<Rightarrow> pin_change" where
  "instrumentCmpxchgRegReg E ctx dst src s = do {
     let ax = getAx (pin E) (reg_bytes E src);
     (d, s) \<leftarrow> getReg E ctx dst s;
     (x, s) \<leftarrow> getReg E ctx src s;
     (a, s) \<leftarrow> getReg E ctx ax s;
     if d = None \<and> x = None \<and> a = None then invalidateEflags CC_OP_SUB s
     else do {
       let val_dst = getRegValue (pin E) ctx dst;
       let val_ax = getRegValue (pin E) ctx ax;
       s \<leftarrow> instrumentBinaryRegReg E ctx dst ax Sub False s;
       s \<leftarrow> instrumentJcc E ctx True 0 JCC_Z (val_ax \<noteq> val_dst) s;
       if val_ax = val_dst then instrumentMovRegReg E ctx dst src s
       else instrumentMovRegReg E ctx ax dst s } }"

definition instrumentCmpxchgMemReg :: "instr_env \<Rightarrow> CONTEXT \<Rightarrow> mem_arg \<Rightarrow> reg \<Rightarrow> pin_change" where
  "instrumentCmpxchgMemReg E ctx m src s = do {
     let ax = getAx (pin E) (reg_bytes E src);
     (d, s) \<leftarrow> getMem E ctx (m_addr m) (m_size m) s;
     (x, s) \<leftarrow> getReg E ctx src s;
     (a, s) \<leftarrow> getReg E ctx ax s;
     if d = None \<and> x = None \<and> a = None then invalidateEflags CC_OP_SUB s
     else do {
       let val_dst = getMemValue (ctx_mem ctx) (m_addr m) (m_size m);
       let val_ax = getRegValue (pin E) ctx ax;
       s \<leftarrow> instrumentBinaryRegMem E ctx ax m Sub False s;
       s \<leftarrow> instrumentJcc E ctx True 0 JCC_Z (val_ax \<noteq> val_dst) s;
       if val_ax = val_dst then instrumentMovMemReg E ctx m src s
       else instrumentMovRegMem E ctx ax m s } }"

definition instrumentXaddRegReg :: "instr_env \<Rightarrow> CONTEXT \<Rightarrow> reg \<Rightarrow> reg \<Rightarrow> pin_change" where
  "instrumentXaddRegReg E ctx dst src s = do {
     (got, s) \<leftarrow> getExprFromRegReg E ctx dst src s;
     case got of
       None \<Rightarrow> Some s
     | Some (d, x) \<Rightarrow> do {
         (tmp, s) \<leftarrow> building (createBinaryExpr (builder_of E) Add x d) s;
         s \<leftarrow> setReg E dst (Some tmp) s;
         setReg E src (Some d) s } }"

definition instrumentXaddMemReg :: "instr_env \<Rightarrow> CONTEXT \<Rightarrow> mem_arg \<Rightarrow> reg \<Rightarrow> pin_change" where
  "instrumentXaddMemReg E ctx m src s = do {
     (got, s) \<leftarrow> getExprFromMemReg E ctx m src s;
     case got of
       None \<Rightarrow> Some s
     | Some (d, x) \<Rightarrow> do {
         (tmp, s) \<leftarrow> building (createBinaryExpr (builder_of E) Add x d) s;
         s \<leftarrow> setMem E (m_addr m) (m_size m) (Some tmp) s;
         setReg E src (Some d) s } }"

definition instrumentXchgRegReg :: "instr_env \<Rightarrow> CONTEXT \<Rightarrow> reg \<Rightarrow> reg \<Rightarrow> pin_change" where
  "instrumentXchgRegReg E ctx dst src s = do {
     (x, s) \<leftarrow> getReg E ctx src s;
     (d, s) \<leftarrow> getReg E ctx dst s;
     s \<leftarrow> setReg E dst x s;
     setReg E src d s }"

definition instrumentXchgRegMem :: "instr_env \<Rightarrow> CONTEXT \<Rightarrow> reg \<Rightarrow> mem_arg \<Rightarrow> pin_change" where
  "instrumentXchgRegMem E ctx dst m s = do {
     (x, s) \<leftarrow> getMem E ctx (m_addr m) (m_size m) s;
     (d, s) \<leftarrow> getReg E ctx dst s;
     s \<leftarrow> setMem E (m_addr m) (m_size m) d s;
     setReg E dst x s }"

definition instrumentXchgMemReg :: "instr_env \<Rightarrow> CONTEXT \<Rightarrow> mem_arg \<Rightarrow> reg \<Rightarrow> pin_change" where
  "instrumentXchgMemReg E ctx m src s = do {
     (d, s) \<leftarrow> getMem E ctx (m_addr m) (m_size m) s;
     (x, s) \<leftarrow> getReg E ctx src s;
     s \<leftarrow> setReg E src d s;
     setMem E (m_addr m) (m_size m) x s }"

subsection \<open>The stack and strings\<close>

text \<open>\<open>getExprFromReg\<close> of one byte is \<open>getExprFromRegAlways\<close>, so the loops are those of the moves.\<close>

definition instrumentPushReg :: "instr_env \<Rightarrow> CONTEXT \<Rightarrow> addr \<Rightarrow> nat \<Rightarrow> reg \<Rightarrow> pin_change" where
  "instrumentPushReg E ctx dst_addr dst_size src s = do {
     s \<leftarrow> concretizeReg E ctx (reg_no E REG_STACK_PTR) s;
     copy_mem_reg E ctx dst_addr src 0 [0..<dst_size] s }"

definition instrumentPushImm :: "instr_env \<Rightarrow> CONTEXT \<Rightarrow> addr \<Rightarrow> nat \<Rightarrow> pin_change" where
  "instrumentPushImm E ctx dst_addr dst_size s = do {
     s \<leftarrow> concretizeReg E ctx (reg_no E REG_STACK_PTR) s;
     clearMem dst_addr dst_size s }"

definition instrumentPushMem :: "instr_env \<Rightarrow> CONTEXT \<Rightarrow> addr \<Rightarrow> mem_arg \<Rightarrow> pin_change" where
  "instrumentPushMem E ctx dst_addr m s = do {
     s \<leftarrow> concretizeReg E ctx (reg_no E REG_STACK_PTR) s;
     s \<leftarrow> makeAddrConcrete E ctx m s;
     copy_mem_mem dst_addr (m_addr m) [0..<m_size m] s }"

definition instrumentPopReg :: "instr_env \<Rightarrow> CONTEXT \<Rightarrow> reg \<Rightarrow> addr \<Rightarrow> nat \<Rightarrow> pin_change" where
  "instrumentPopReg E ctx dst src_addr src_size s = do {
     s \<leftarrow> concretizeReg E ctx (reg_no E REG_STACK_PTR) s;
     copy_reg_mem E dst src_addr 0 [0..<src_size] s }"

definition instrumentPopMem :: "instr_env \<Rightarrow> CONTEXT \<Rightarrow> mem_arg \<Rightarrow> addr \<Rightarrow> pin_change" where
  "instrumentPopMem E ctx m src_addr s = do {
     s \<leftarrow> concretizeReg E ctx (reg_no E REG_STACK_PTR) s;
     s \<leftarrow> makeAddrConcrete E ctx m s;
     copy_mem_mem (m_addr m) src_addr [0..<m_size m] s }"

definition instrumentScas :: "instr_env \<Rightarrow> CONTEXT \<Rightarrow> addr \<Rightarrow> nat \<Rightarrow> pin_change" where
  "instrumentScas E ctx a n s = do {
     s \<leftarrow> concretizeReg E ctx (reg_no E REG_GDI) s;
     let ax = getAx (pin E) n;
     (got, s) \<leftarrow> getExprFromRegAddrMem E ctx ax a n s;
     case got of
       None \<Rightarrow> invalidateEflags CC_OP_SUB s
     | Some (d, x) \<Rightarrow> do {
         (res, s) \<leftarrow> building (createBinaryExpr (builder_of E) Sub d x) s;
         setEflags CC_OP_SUB (Some res) (Some d) (Some x) s } }"

definition instrumentStos :: "instr_env \<Rightarrow> CONTEXT \<Rightarrow> addr \<Rightarrow> reg \<Rightarrow> pin_change" where
  "instrumentStos E ctx dst_addr src s = do {
     s \<leftarrow> concretizeReg E ctx (reg_no E REG_GDI) s;
     copy_mem_reg E ctx dst_addr src 0 [0..<reg_bytes E src] s }"

subsection \<open>Other instructions\<close>

text \<open>The function also gives a false answer to \<open>cpuid\<close>: the changed context is part of the result.\<close>

definition instrumentCpuid :: "instr_env \<Rightarrow> CONTEXT \<Rightarrow> CONTEXT pin_step" where
  "instrumentCpuid E ctx s = do {
     s \<leftarrow> clearReg E (reg_no E REG_EAX) s;
     s \<leftarrow> clearReg E (reg_no E REG_EBX) s;
     s \<leftarrow> clearReg E (reg_no E REG_ECX) s;
     s \<leftarrow> clearReg E (reg_no E REG_EDX) s;
     Some (ctx\<lparr>ctx_reg := (ctx_reg ctx)(reg_no E REG_GBX :=
       (\<lambda>i. word_of_int (drop_bit (8 * i) 0x46414b45)))\<rparr>, s) }"

definition instrumentRdtsc :: "instr_env \<Rightarrow> pin_change" where
  "instrumentRdtsc E s = do {
     s \<leftarrow> clearReg E (reg_no E REG_EAX) s;
     clearReg E (reg_no E REG_EDX) s }"

definition instrumentRdtscp :: "instr_env \<Rightarrow> pin_change" where
  "instrumentRdtscp E s = do {
     s \<leftarrow> clearReg E (reg_no E REG_EAX) s;
     s \<leftarrow> clearReg E (reg_no E REG_EDX) s;
     clearReg E (reg_no E REG_ECX) s }"

definition doSet :: "instr_env \<Rightarrow> jcc_kind \<Rightarrow> bool \<Rightarrow> expr option pin_step" where
  "doSet E jcc neg = thread_computeJccAsBV (apint_of E) (builder_of E) jcc neg 8"

definition instrumentSetReg :: "instr_env \<Rightarrow> CONTEXT \<Rightarrow> reg \<Rightarrow> jcc_kind \<Rightarrow> bool \<Rightarrow> pin_change" where
  "instrumentSetReg E ctx dst jcc neg s = do {
     (res, s) \<leftarrow> doSet E jcc neg s;
     setReg E dst res s }"

definition instrumentSetMem :: "instr_env \<Rightarrow> CONTEXT \<Rightarrow> mem_arg \<Rightarrow> jcc_kind \<Rightarrow> bool \<Rightarrow> pin_change" where
  "instrumentSetMem E ctx m jcc neg s = do {
     s \<leftarrow> makeAddrConcrete E ctx m s;
     (res, s) \<leftarrow> doSet E jcc neg s;
     on_memory (setExprToMem (m_addr m) res) s }"

definition instrumentConcretizeReg :: "instr_env \<Rightarrow> CONTEXT \<Rightarrow> reg \<Rightarrow> pin_change" where
  "instrumentConcretizeReg = concretizeReg"

definition instrumentConcretizeMem :: "instr_env \<Rightarrow> CONTEXT \<Rightarrow> addr \<Rightarrow> nat \<Rightarrow> pin_change" where
  "instrumentConcretizeMem = concretizeMem"

definition instrumentConcretizeEflags :: pin_change where
  "instrumentConcretizeEflags = invalidateEflags CC_OP_ADD"

definition instrumentClrReg :: "instr_env \<Rightarrow> reg \<Rightarrow> pin_change" where
  "instrumentClrReg E r = clearReg E r"

definition instrumentClrMem :: "addr \<Rightarrow> nat \<Rightarrow> pin_change" where
  "instrumentClrMem a n = clearMem a n"

end
