(* ===== verification/InstrumentSimd.thy ===== *)
theory InstrumentSimd
  imports InstrumentBits
begin

unbundle bit_operations_syntax

section \<open>Handlers of vector instructions\<close>

text \<open>
  The handlers of \<open>instrument.cpp\<close> for SSE and AVX. Nearly all have a function \<open>do...\<close>, which takes the
  operands apart into lanes, computes each lane of the result, and joins the lanes. The loop is the
  same everywhere, \<open>lanes\<close>: \<open>f i\<close> builds the lane at \<open>i\<close>, which is pushed to the front of the list.
\<close>

fun lanes :: "(nat \<Rightarrow> expr build) \<Rightarrow> nat list \<Rightarrow> expr list \<Rightarrow> expr list build" where
  "lanes f [] exprs s = Some (exprs, s)"
| "lanes f (i # is) exprs s = do { (e, s) \<leftarrow> f i s; lanes f is (e # exprs) s }"

text \<open>\<open>for (i = 0; i < n; i += width)\<close>, which does not end when the width is \<open>0\<close>.\<close>

definition lane_starts :: "nat \<Rightarrow> nat \<Rightarrow> nat list option" where
  "lane_starts n width =
     (if width = 0 then None else Some (map (\<lambda>i. i * width) [0..<(n + width - 1) div width]))"

definition lanewise :: "builder \<Rightarrow> nat \<Rightarrow> nat \<Rightarrow> (nat \<Rightarrow> expr build) \<Rightarrow> expr build" where
  "lanewise B n width f s = do {
     is \<leftarrow> lane_starts n width;
     (exprs, s) \<leftarrow> lanes f is [] s;
     createConcat_list B exprs s }"

text \<open>The lane at \<open>i\<close> of both operands.\<close>

definition two_lanes ::
  "builder \<Rightarrow> expr \<Rightarrow> expr \<Rightarrow> nat \<Rightarrow> (expr \<Rightarrow> expr \<Rightarrow> expr build) \<Rightarrow> nat \<Rightarrow> expr build" where
  "two_lanes B d x width f i s = do {
     (sub_d, s) \<leftarrow> createExtract B d i width s;
     (sub_x, s) \<leftarrow> createExtract B x i width s;
     f sub_d sub_x s }"

definition set_built :: "instr_env \<Rightarrow> reg \<Rightarrow> expr build \<Rightarrow> pin_change" where
  "set_built E dst f s = do { (res, s) \<leftarrow> building f s; setReg E dst (Some res) s }"

text \<open>
  The handlers of the legacy forms, in which the first operand is also the destination and nothing
  happens when both are concrete, and those of the VEX forms, which clear the destination then.
\<close>

definition legacy :: "(expr \<times> expr) option pin_step \<Rightarrow> (expr \<Rightarrow> expr \<Rightarrow> pin_change) \<Rightarrow> pin_change" where
  "legacy operands f s = do {
     (got, s) \<leftarrow> operands s;
     case got of None \<Rightarrow> Some s | Some (d, x) \<Rightarrow> f d x s }"

definition vex :: "instr_env \<Rightarrow> reg \<Rightarrow> (expr \<times> expr) option pin_step \<Rightarrow> (expr \<Rightarrow> expr \<Rightarrow> pin_change) \<Rightarrow> pin_change" where
  "vex E dst operands f s = do {
     (got, s) \<leftarrow> operands s;
     case got of None \<Rightarrow> clearReg E dst s | Some (x, y) \<Rightarrow> f x y s }"

subsection \<open>Saturation and packing\<close>

definition saturate ::
  "builder \<Rightarrow> kind \<Rightarrow> kind \<Rightarrow> expr \<Rightarrow> expr \<Rightarrow> expr \<Rightarrow> expr \<Rightarrow> expr \<Rightarrow> nat \<Rightarrow> expr build" where
  "saturate B lt gt e min_from max_from min_to max_to to s = do {
     (c1, s) \<leftarrow> createBinaryExpr B lt e min_from s;
     (c2, s) \<leftarrow> createBinaryExpr B gt e max_from s;
     (x, s) \<leftarrow> createExtract B e 0 to s;
     (inner, s) \<leftarrow> createIte B c2 max_to x s;
     createIte B c1 min_to inner s }"

definition saturateIntToInt :: "builder \<Rightarrow> expr \<Rightarrow> nat \<Rightarrow> nat \<Rightarrow> expr build" where
  "saturateIntToInt B e from to s = assert (to \<le> from) (assert (bits e = from) (do {
     (max_from, s) \<leftarrow> createConstantAP B (2 ^ (to - 1) - 1) from s;
     (min_from, s) \<leftarrow> createConstantAP B (2 ^ from - 2 ^ (to - 1)) from s;
     (max_to, s) \<leftarrow> createConstantAP B (2 ^ (to - 1) - 1) to s;
     (min_to, s) \<leftarrow> createConstantAP B (2 ^ (to - 1)) to s;
     saturate B Slt Sgt e min_from max_from min_to max_to to s }))"

definition saturateIntToUint :: "builder \<Rightarrow> expr \<Rightarrow> nat \<Rightarrow> nat \<Rightarrow> expr build" where
  "saturateIntToUint B e from to s = assert (to \<le> from) (assert (bits e = from) (do {
     (max_from, s) \<leftarrow> createConstantAP B (2 ^ to - 1) from s;
     (min_from, s) \<leftarrow> createConstantAP B 0 from s;
     (max_to, s) \<leftarrow> createConstantAP B (2 ^ to - 1) to s;
     (min_to, s) \<leftarrow> createConstantAP B 0 to s;
     saturate B Ult Ugt e min_from max_from min_to max_to to s }))"

definition doPack :: "instr_env \<Rightarrow> reg \<Rightarrow> expr \<Rightarrow> expr \<Rightarrow> nat \<Rightarrow> bool \<Rightarrow> pin_change" where
  "doPack E dst d x width sg =
     (let B = builder_of E; width = width * 8 in
      set_built E dst (\<lambda>s. do {
        (both, s) \<leftarrow> createConcat B x d s;
        lanewise B (reg_bits E dst) width (\<lambda>i s. do {
          (sub, s) \<leftarrow> createExtract B both (i * 2) (width * 2) s;
          if sg then saturateIntToInt B sub (width * 2) width s
          else saturateIntToUint B sub (width * 2) width s }) s }))"

definition instrumentPackRegReg :: "instr_env \<Rightarrow> CONTEXT \<Rightarrow> reg \<Rightarrow> reg \<Rightarrow> nat \<Rightarrow> bool \<Rightarrow> pin_change" where
  "instrumentPackRegReg E ctx dst src width sg =
     legacy (getExprFromRegReg E ctx dst src) (\<lambda>d x. doPack E dst d x width sg)"

definition instrumentPackRegMem :: "instr_env \<Rightarrow> CONTEXT \<Rightarrow> reg \<Rightarrow> mem_arg \<Rightarrow> nat \<Rightarrow> bool \<Rightarrow> pin_change" where
  "instrumentPackRegMem E ctx dst m width sg =
     legacy (getExprFromRegMem E ctx dst m) (\<lambda>d x. doPack E dst d x width sg)"

definition instrumentVpackRegRegReg ::
  "instr_env \<Rightarrow> CONTEXT \<Rightarrow> reg \<Rightarrow> reg \<Rightarrow> reg \<Rightarrow> nat \<Rightarrow> bool \<Rightarrow> pin_change" where
  "instrumentVpackRegRegReg E ctx dst src1 src2 width sg =
     vex E dst (getExprFromRegReg E ctx src1 src2) (\<lambda>x y. doPack E dst x y width sg)"

definition instrumentVpackRegRegMem ::
  "instr_env \<Rightarrow> CONTEXT \<Rightarrow> reg \<Rightarrow> reg \<Rightarrow> mem_arg \<Rightarrow> nat \<Rightarrow> bool \<Rightarrow> pin_change" where
  "instrumentVpackRegRegMem E ctx dst src1 m width sg =
     vex E dst (getExprFromRegMem E ctx src1 m) (\<lambda>x y. doPack E dst x y width sg)"

subsection \<open>Alignment\<close>

text \<open>\<open>bits\<close> is an \<open>INT32\<close> and \<open>off\<close> an \<open>ADDRINT\<close>, whose product with 8 is passed as 32 bits.\<close>

definition palignr :: "instr_env \<Rightarrow> reg \<Rightarrow> nat \<Rightarrow> addr \<Rightarrow> expr \<Rightarrow> expr \<Rightarrow> pin_change" where
  "palignr E dst n off d x =
     set_built E dst (\<lambda>s. do {
       (e, s) \<leftarrow> createConcat (builder_of E) d x s;
       createExtract (builder_of E) e (unat (ucast (off * 8) :: 32 word)) n s })"

definition instrumentPalignrReg :: "instr_env \<Rightarrow> CONTEXT \<Rightarrow> reg \<Rightarrow> reg \<Rightarrow> addr \<Rightarrow> pin_change" where
  "instrumentPalignrReg E ctx dst src off s = do {
     let n = reg_bits E dst;
     (d, s) \<leftarrow> getReg E ctx dst s;
     (x, s) \<leftarrow> getReg E ctx src s;
     if x = None \<and> d = None then Some s
     else do {
       (x, s) \<leftarrow> fixRegExpr E ctx src x s;
       (d, s) \<leftarrow> fixRegExpr E ctx dst d s;
       palignr E dst n off d x s } }"

definition instrumentPalignrMem :: "instr_env \<Rightarrow> CONTEXT \<Rightarrow> reg \<Rightarrow> mem_arg \<Rightarrow> addr \<Rightarrow> pin_change" where
  "instrumentPalignrMem E ctx dst m off s = do {
     s \<leftarrow> makeAddrConcrete E ctx m s;
     let n = m_size m * 8;
     (x, s) \<leftarrow> getMem E ctx (m_addr m) (m_size m) s;
     (d, s) \<leftarrow> getReg E ctx dst s;
     if x = None \<and> d = None then Some s
     else do {
       (x, s) \<leftarrow> fixMemExpr E ctx (m_addr m) (m_size m) x s;
       (d, s) \<leftarrow> fixRegExpr E ctx dst d s;
       palignr E dst n off d x s } }"

subsection \<open>Arithmetic and comparisons of lanes\<close>

definition doParith :: "instr_env \<Rightarrow> reg \<Rightarrow> expr \<Rightarrow> expr \<Rightarrow> kind \<Rightarrow> nat \<Rightarrow> pin_change" where
  "doParith E dst d x k width =
     (let B = builder_of E; width = width * 8 in
      set_built E dst (lanewise B (reg_bits E dst) width (two_lanes B d x width (createBinaryExpr B k))))"

definition doPcmp :: "instr_env \<Rightarrow> reg \<Rightarrow> expr \<Rightarrow> expr \<Rightarrow> kind \<Rightarrow> nat \<Rightarrow> pin_change" where
  "doPcmp E dst d x k width =
     (let B = builder_of E; width = width * 8 in
      set_built E dst (\<lambda>s. do {
        (success, s) \<leftarrow> createConstantAP B (mask width) width s;
        (fail, s) \<leftarrow> createConstant B 0 width s;
        lanewise B (reg_bits E dst) width (two_lanes B d x width (\<lambda>l r s. do {
          (c, s) \<leftarrow> createBinaryExpr B k l r s; createIte B c success fail s })) s }))"

definition doPcmpxchg :: "instr_env \<Rightarrow> reg \<Rightarrow> expr \<Rightarrow> expr \<Rightarrow> kind \<Rightarrow> nat \<Rightarrow> pin_change" where
  "doPcmpxchg E dst d x k width =
     (let B = builder_of E; width = width * 8 in
      set_built E dst (lanewise B (reg_bits E dst) width (two_lanes B d x width (\<lambda>l r s. do {
        (c, s) \<leftarrow> createBinaryExpr B k l r s; createIte B c l r s }))))"

definition doPmul :: "instr_env \<Rightarrow> reg \<Rightarrow> expr \<Rightarrow> expr \<Rightarrow> nat \<Rightarrow> pin_change" where
  "doPmul E dst d x width =
     (let B = builder_of E; width = width * 8 in
      set_built E dst (lanewise B (reg_bits E dst) width (two_lanes B d x width (createBinaryExpr B Mul))))"

definition doPmulhw :: "instr_env \<Rightarrow> reg \<Rightarrow> expr \<Rightarrow> expr \<Rightarrow> bool \<Rightarrow> pin_change" where
  "doPmulhw E dst d x sg =
     (let B = builder_of E in
      set_built E dst (lanewise B (reg_bits E dst) 16 (two_lanes B d x 16 (\<lambda>l r s. do {
        (l, s) \<leftarrow> extendToDouble B l sg s;
        (r, s) \<leftarrow> extendToDouble B r sg s;
        (p, s) \<leftarrow> createBinaryExpr B Mul l r s;
        createExtract B p 16 16 s }))))"

definition instrumentParithRegReg :: "instr_env \<Rightarrow> CONTEXT \<Rightarrow> reg \<Rightarrow> reg \<Rightarrow> kind \<Rightarrow> nat \<Rightarrow> pin_change" where
  "instrumentParithRegReg E ctx dst src k width =
     legacy (getExprFromRegReg E ctx dst src) (\<lambda>d x. doParith E dst d x k width)"

definition instrumentParithRegMem :: "instr_env \<Rightarrow> CONTEXT \<Rightarrow> reg \<Rightarrow> mem_arg \<Rightarrow> kind \<Rightarrow> nat \<Rightarrow> pin_change" where
  "instrumentParithRegMem E ctx dst m k width =
     legacy (getExprFromRegMem E ctx dst m) (\<lambda>d x. doParith E dst d x k width)"

definition instrumentPcmpRegReg :: "instr_env \<Rightarrow> CONTEXT \<Rightarrow> reg \<Rightarrow> reg \<Rightarrow> kind \<Rightarrow> nat \<Rightarrow> pin_change" where
  "instrumentPcmpRegReg E ctx dst src k width =
     legacy (getExprFromRegReg E ctx dst src) (\<lambda>d x. doPcmp E dst d x k width)"

definition instrumentPcmpRegMem :: "instr_env \<Rightarrow> CONTEXT \<Rightarrow> reg \<Rightarrow> mem_arg \<Rightarrow> kind \<Rightarrow> nat \<Rightarrow> pin_change" where
  "instrumentPcmpRegMem E ctx dst m k width =
     legacy (getExprFromRegMem E ctx dst m) (\<lambda>d x. doPcmp E dst d x k width)"

definition instrumentPcmpxchgRegReg :: "instr_env \<Rightarrow> CONTEXT \<Rightarrow> reg \<Rightarrow> reg \<Rightarrow> kind \<Rightarrow> nat \<Rightarrow> pin_change" where
  "instrumentPcmpxchgRegReg E ctx dst src k width =
     legacy (getExprFromRegReg E ctx dst src) (\<lambda>d x. doPcmpxchg E dst d x k width)"

definition instrumentPcmpxchgRegMem :: "instr_env \<Rightarrow> CONTEXT \<Rightarrow> reg \<Rightarrow> mem_arg \<Rightarrow> kind \<Rightarrow> nat \<Rightarrow> pin_change" where
  "instrumentPcmpxchgRegMem E ctx dst m k width =
     legacy (getExprFromRegMem E ctx dst m) (\<lambda>d x. doPcmpxchg E dst d x k width)"

definition instrumentPmulRegReg :: "instr_env \<Rightarrow> CONTEXT \<Rightarrow> reg \<Rightarrow> reg \<Rightarrow> nat \<Rightarrow> pin_change" where
  "instrumentPmulRegReg E ctx dst src width =
     legacy (getExprFromRegReg E ctx dst src) (\<lambda>d x. doPmul E dst d x width)"

definition instrumentPmulRegMem :: "instr_env \<Rightarrow> CONTEXT \<Rightarrow> reg \<Rightarrow> mem_arg \<Rightarrow> nat \<Rightarrow> pin_change" where
  "instrumentPmulRegMem E ctx dst m width =
     legacy (getExprFromRegMem E ctx dst m) (\<lambda>d x. doPmul E dst d x width)"

definition instrumentPmulhwRegReg :: "instr_env \<Rightarrow> CONTEXT \<Rightarrow> reg \<Rightarrow> reg \<Rightarrow> bool \<Rightarrow> pin_change" where
  "instrumentPmulhwRegReg E ctx dst src sg =
     legacy (getExprFromRegReg E ctx dst src) (\<lambda>d x. doPmulhw E dst d x sg)"

definition instrumentPmulhwRegMem :: "instr_env \<Rightarrow> CONTEXT \<Rightarrow> reg \<Rightarrow> mem_arg \<Rightarrow> bool \<Rightarrow> pin_change" where
  "instrumentPmulhwRegMem E ctx dst m sg =
     legacy (getExprFromRegMem E ctx dst m) (\<lambda>d x. doPmulhw E dst d x sg)"

definition instrumentVparithRegRegReg ::
  "instr_env \<Rightarrow> CONTEXT \<Rightarrow> reg \<Rightarrow> reg \<Rightarrow> reg \<Rightarrow> kind \<Rightarrow> nat \<Rightarrow> pin_change" where
  "instrumentVparithRegRegReg E ctx dst src1 src2 k width =
     vex E dst (getExprFromRegReg E ctx src1 src2) (\<lambda>x y. doParith E dst x y k width)"

definition instrumentVparithRegRegMem ::
  "instr_env \<Rightarrow> CONTEXT \<Rightarrow> reg \<Rightarrow> reg \<Rightarrow> mem_arg \<Rightarrow> kind \<Rightarrow> nat \<Rightarrow> pin_change" where
  "instrumentVparithRegRegMem E ctx dst src1 m k width =
     vex E dst (getExprFromRegMem E ctx src1 m) (\<lambda>x y. doParith E dst x y k width)"

definition instrumentVpcmpRegRegReg ::
  "instr_env \<Rightarrow> CONTEXT \<Rightarrow> reg \<Rightarrow> reg \<Rightarrow> reg \<Rightarrow> kind \<Rightarrow> nat \<Rightarrow> pin_change" where
  "instrumentVpcmpRegRegReg E ctx dst src1 src2 k width =
     vex E dst (getExprFromRegReg E ctx src1 src2) (\<lambda>x y. doPcmp E dst x y k width)"

definition instrumentVpcmpRegRegMem ::
  "instr_env \<Rightarrow> CONTEXT \<Rightarrow> reg \<Rightarrow> reg \<Rightarrow> mem_arg \<Rightarrow> kind \<Rightarrow> nat \<Rightarrow> pin_change" where
  "instrumentVpcmpRegRegMem E ctx dst src1 m k width =
     vex E dst (getExprFromRegMem E ctx src1 m) (\<lambda>x y. doPcmp E dst x y k width)"

definition instrumentVpcmpxchgRegRegReg ::
  "instr_env \<Rightarrow> CONTEXT \<Rightarrow> reg \<Rightarrow> reg \<Rightarrow> reg \<Rightarrow> kind \<Rightarrow> nat \<Rightarrow> pin_change" where
  "instrumentVpcmpxchgRegRegReg E ctx dst src1 src2 k width =
     vex E dst (getExprFromRegReg E ctx src1 src2) (\<lambda>x y. doPcmpxchg E dst x y k width)"

definition instrumentVpcmpxchgRegRegMem ::
  "instr_env \<Rightarrow> CONTEXT \<Rightarrow> reg \<Rightarrow> reg \<Rightarrow> mem_arg \<Rightarrow> kind \<Rightarrow> nat \<Rightarrow> pin_change" where
  "instrumentVpcmpxchgRegRegMem E ctx dst src1 m k width =
     vex E dst (getExprFromRegMem E ctx src1 m) (\<lambda>x y. doPcmpxchg E dst x y k width)"

definition instrumentVpmulRegRegReg ::
  "instr_env \<Rightarrow> CONTEXT \<Rightarrow> reg \<Rightarrow> reg \<Rightarrow> reg \<Rightarrow> nat \<Rightarrow> pin_change" where
  "instrumentVpmulRegRegReg E ctx dst src1 src2 width =
     vex E dst (getExprFromRegReg E ctx src1 src2) (\<lambda>x y. doPmul E dst x y width)"

definition instrumentVpmulRegRegMem ::
  "instr_env \<Rightarrow> CONTEXT \<Rightarrow> reg \<Rightarrow> reg \<Rightarrow> mem_arg \<Rightarrow> nat \<Rightarrow> pin_change" where
  "instrumentVpmulRegRegMem E ctx dst src1 m width =
     vex E dst (getExprFromRegMem E ctx src1 m) (\<lambda>x y. doPmul E dst x y width)"

definition instrumentVpmulhwRegRegReg ::
  "instr_env \<Rightarrow> CONTEXT \<Rightarrow> reg \<Rightarrow> reg \<Rightarrow> reg \<Rightarrow> bool \<Rightarrow> pin_change" where
  "instrumentVpmulhwRegRegReg E ctx dst src1 src2 sg =
     vex E dst (getExprFromRegReg E ctx src1 src2) (\<lambda>x y. doPmulhw E dst x y sg)"

definition instrumentVpmulhwRegRegMem ::
  "instr_env \<Rightarrow> CONTEXT \<Rightarrow> reg \<Rightarrow> reg \<Rightarrow> mem_arg \<Rightarrow> bool \<Rightarrow> pin_change" where
  "instrumentVpmulhwRegRegMem E ctx dst src1 m sg =
     vex E dst (getExprFromRegMem E ctx src1 m) (\<lambda>x y. doPmulhw E dst x y sg)"

text \<open>Operations on whole registers with two sources.\<close>

definition instrumentTernaryRegRegReg ::
  "instr_env \<Rightarrow> CONTEXT \<Rightarrow> reg \<Rightarrow> reg \<Rightarrow> reg \<Rightarrow> kind \<Rightarrow> pin_change" where
  "instrumentTernaryRegRegReg E ctx dst src1 src2 k =
     vex E dst (getExprFromRegReg E ctx src1 src2) (\<lambda>x y. set_built E dst (createBinaryExpr (builder_of E) k x y))"

definition instrumentTernaryRegRegMem ::
  "instr_env \<Rightarrow> CONTEXT \<Rightarrow> reg \<Rightarrow> reg \<Rightarrow> mem_arg \<Rightarrow> kind \<Rightarrow> pin_change" where
  "instrumentTernaryRegRegMem E ctx dst src1 m k =
     vex E dst (getExprFromRegMem E ctx src1 m) (\<lambda>x y. set_built E dst (createBinaryExpr (builder_of E) k x y))"

end
