(* ===== verification/InstrumentShuffle.thy ===== *)
theory InstrumentShuffle
  imports InstrumentSimd
begin

unbundle bit_operations_syntax

section \<open>Handlers of shuffles and shifts of vectors\<close>

text \<open>
  The handlers of \<open>instrument.cpp\<close> for vector instructions that move lanes, shift them or combine
  neighbours.
\<close>

subsection \<open>Parts of registers\<close>

text \<open>The number of bits is taken apart in \<open>UINT\<close>; a width of \<open>0\<close> is a division by zero.\<close>

definition doPextr :: "builder \<Rightarrow> expr \<Rightarrow> addr \<Rightarrow> nat \<Rightarrow> nat \<Rightarrow> expr build" where
  "doPextr B x imm n width s =
     (let width = width * 8 in assert (width \<noteq> 0) (do {
        let imm = imm AND ucast ((of_nat (n div width) - 1) * of_nat width :: 32 word);
        (c, s) \<leftarrow> createConstant B (unat imm) n s;
        (e, s) \<leftarrow> createBinaryExpr B AShr x c s;
        (e, s) \<leftarrow> createExtract B e 0 width s;
        createZExt B e n s }))"

definition instrumentPextrRegRegImm :: "instr_env \<Rightarrow> CONTEXT \<Rightarrow> reg \<Rightarrow> reg \<Rightarrow> addr \<Rightarrow> nat \<Rightarrow> pin_change" where
  "instrumentPextrRegRegImm E ctx dst src imm width s = do {
     (x, s) \<leftarrow> getReg E ctx src s;
     case x of
       None \<Rightarrow> clearReg E dst s
     | Some x \<Rightarrow> set_built E dst (doPextr (builder_of E) x imm (reg_bits E dst) width) s }"

definition instrumentPextrMemRegImm :: "instr_env \<Rightarrow> CONTEXT \<Rightarrow> mem_arg \<Rightarrow> reg \<Rightarrow> addr \<Rightarrow> nat \<Rightarrow> pin_change" where
  "instrumentPextrMemRegImm E ctx m src imm width s = do {
     s \<leftarrow> makeAddrConcrete E ctx m s;
     (x, s) \<leftarrow> getReg E ctx src s;
     case x of
       None \<Rightarrow> clearMem (m_addr m) (m_size m) s
     | Some x \<Rightarrow> do {
         (res, s) \<leftarrow> building (doPextr (builder_of E) x imm (m_size m * 8) width) s;
         setMem E (m_addr m) (m_size m) (Some res) s } }"

definition instrumentPmovmskb :: "instr_env \<Rightarrow> CONTEXT \<Rightarrow> reg \<Rightarrow> reg \<Rightarrow> pin_change" where
  "instrumentPmovmskb E ctx dst src s = do {
     (x, s) \<leftarrow> getReg E ctx src s;
     case x of
       None \<Rightarrow> clearReg E dst s
     | Some x \<Rightarrow> set_built E dst (\<lambda>s. do {
         (exprs, s) \<leftarrow> lanes (\<lambda>i. createExtract (builder_of E) x (7 + i * 8) 1) [0..<reg_bytes E src] [] s;
         (e, s) \<leftarrow> createConcat_list (builder_of E) exprs s;
         createZExt (builder_of E) e (reg_bits E dst) s }) s }"

definition doVinsert128i :: "builder \<Rightarrow> expr \<Rightarrow> expr \<Rightarrow> addr \<Rightarrow> expr build" where
  "doVinsert128i B x y imm s = assert (bits x = 256 \<and> bits y = 128)
     (if imm AND 1 = 0 then do { (h, s) \<leftarrow> createExtract B x 128 128 s; createConcat B h y s }
      else do { (l, s) \<leftarrow> createExtract B x 0 128 s; createConcat B y l s })"

definition instrumentVinsert128iRegRegRegImm ::
  "instr_env \<Rightarrow> CONTEXT \<Rightarrow> reg \<Rightarrow> reg \<Rightarrow> reg \<Rightarrow> addr \<Rightarrow> pin_change" where
  "instrumentVinsert128iRegRegRegImm E ctx dst src1 src2 imm =
     vex E dst (getExprFromRegReg E ctx src1 src2) (\<lambda>x y. set_built E dst (doVinsert128i (builder_of E) x y imm))"

definition instrumentVinsert128iRegRegMemImm ::
  "instr_env \<Rightarrow> CONTEXT \<Rightarrow> reg \<Rightarrow> reg \<Rightarrow> mem_arg \<Rightarrow> addr \<Rightarrow> pin_change" where
  "instrumentVinsert128iRegRegMemImm E ctx dst src1 m imm =
     vex E dst (getExprFromRegMem E ctx src1 m) (\<lambda>x y. set_built E dst (doVinsert128i (builder_of E) x y imm))"

subsection \<open>Sums of products\<close>

text \<open>The first loop fills the array \<open>exprs_mul\<close>, here in the order of the lanes; the second adds neighbours.\<close>

fun add_pairs :: "builder \<Rightarrow> expr list \<Rightarrow> expr list \<Rightarrow> expr list build" where
  "add_pairs B [] exprs s = Some (exprs, s)"
| "add_pairs B [x] exprs s = None"
| "add_pairs B (x # y # es) exprs s = do {
     (e, s) \<leftarrow> createBinaryExpr B Add x y s; add_pairs B es (e # exprs) s }"

definition doPmaddwd :: "instr_env \<Rightarrow> reg \<Rightarrow> expr \<Rightarrow> expr \<Rightarrow> pin_change" where
  "doPmaddwd E dst d x =
     (let B = builder_of E in
      set_built E dst (\<lambda>s. do {
        is \<leftarrow> lane_starts (reg_bits E dst) 16;
        (muls, s) \<leftarrow> lanes (two_lanes B d x 16 (\<lambda>l r s. do {
          (l, s) \<leftarrow> createZExt B l 32 s;
          (r, s) \<leftarrow> createZExt B r 32 s;
          createBinaryExpr B Mul l r s })) is [] s;
        (exprs, s) \<leftarrow> add_pairs B (rev muls) [] s;
        createConcat_list B exprs s }))"

definition instrumentPmaddwdRegReg :: "instr_env \<Rightarrow> CONTEXT \<Rightarrow> reg \<Rightarrow> reg \<Rightarrow> pin_change" where
  "instrumentPmaddwdRegReg E ctx dst src = legacy (getExprFromRegReg E ctx dst src) (doPmaddwd E dst)"

definition instrumentPmaddwdRegMem :: "instr_env \<Rightarrow> CONTEXT \<Rightarrow> reg \<Rightarrow> mem_arg \<Rightarrow> pin_change" where
  "instrumentPmaddwdRegMem E ctx dst m = legacy (getExprFromRegMem E ctx dst m) (doPmaddwd E dst)"

definition instrumentVpmaddwdRegRegReg :: "instr_env \<Rightarrow> CONTEXT \<Rightarrow> reg \<Rightarrow> reg \<Rightarrow> reg \<Rightarrow> pin_change" where
  "instrumentVpmaddwdRegRegReg E ctx dst src1 src2 =
     vex E dst (getExprFromRegReg E ctx src1 src2) (doPmaddwd E dst)"

definition instrumentVpmaddwdRegRegMem :: "instr_env \<Rightarrow> CONTEXT \<Rightarrow> reg \<Rightarrow> reg \<Rightarrow> mem_arg \<Rightarrow> pin_change" where
  "instrumentVpmaddwdRegRegMem E ctx dst src1 m =
     vex E dst (getExprFromRegMem E ctx src1 m) (doPmaddwd E dst)"

subsection \<open>Shuffles\<close>

text \<open>
  \<open>doPshuf\<close> with the default \<open>beg = 0\<close>. The width of a lane is 32 bits whatever \<open>width\<close> is; the amount
  is computed as an \<open>ADDRINT\<close>.
\<close>

definition doPshuf :: "instr_env \<Rightarrow> reg \<Rightarrow> expr \<Rightarrow> addr \<Rightarrow> nat \<Rightarrow> nat \<Rightarrow> pin_change" where
  "doPshuf E dst x imm n width =
     (let B = builder_of E in
      set_built E dst (\<lambda>s. assert (width \<noteq> 0) (do {
        (exprs, s) \<leftarrow> lanes (\<lambda>i s. do {
          let amount = (drop_bit (2 * i) imm AND 3) * of_nat width * 8 + of_nat (n div 128 * 128);
          (c, s) \<leftarrow> createConstant B (unat amount) (bits x) s;
          (e, s) \<leftarrow> createBinaryExpr B LShr x c s;
          createExtract B e 0 32 s }) [0..<n div width] [] s;
        createConcat_list B exprs s })))"

definition instrumentPshufRegRegImm :: "instr_env \<Rightarrow> CONTEXT \<Rightarrow> reg \<Rightarrow> reg \<Rightarrow> addr \<Rightarrow> nat \<Rightarrow> pin_change" where
  "instrumentPshufRegRegImm E ctx dst src imm width s = do {
     (x, s) \<leftarrow> getReg E ctx src s;
     case x of
       None \<Rightarrow> clearReg E dst s
     | Some x \<Rightarrow> doPshuf E dst x imm (reg_bytes E dst) width s }"

definition instrumentPshufRegMemImm :: "instr_env \<Rightarrow> CONTEXT \<Rightarrow> reg \<Rightarrow> mem_arg \<Rightarrow> addr \<Rightarrow> nat \<Rightarrow> pin_change" where
  "instrumentPshufRegMemImm E ctx dst m imm width s = do {
     (x, s) \<leftarrow> getExprFromMemSrc E ctx m s;
     case x of
       None \<Rightarrow> clearReg E dst s
     | Some x \<Rightarrow> doPshuf E dst x imm (m_size m) width s }"

definition pshufb_lane :: "builder \<Rightarrow> expr \<Rightarrow> expr \<Rightarrow> expr \<Rightarrow> expr \<Rightarrow> expr \<Rightarrow> expr \<Rightarrow> nat \<Rightarrow> nat \<Rightarrow> expr build" where
  "pshufb_lane B d x one_bit zero_byte three msk n i s = do {
     (msb, s) \<leftarrow> createExtract B x (i * 8 + 7) 1 s;
     (idx, s) \<leftarrow> createExtract B x (i * 8) 8 s;
     (idx, s) \<leftarrow> createBinaryExpr B And idx msk s;
     (idx, s) \<leftarrow> createZExt B idx n s;
     (idx, s) \<leftarrow> createBinaryExpr B Shl idx three s;
     (idx, s) \<leftarrow> (if 16 \<le> i then do {
         (c, s) \<leftarrow> createConstant B 128 n s; createBinaryExpr B Add idx c s }
       else Some (idx, s));
     (e, s) \<leftarrow> createBinaryExpr B LShr d idx s;
     (e, s) \<leftarrow> createExtract B e 0 8 s;
     (c, s) \<leftarrow> createBinaryExpr B Equal msb one_bit s;
     createIte B c zero_byte e s }"

definition doPshufb :: "instr_env \<Rightarrow> reg \<Rightarrow> expr \<Rightarrow> expr \<Rightarrow> pin_change" where
  "doPshufb E dst d x =
     (let B = builder_of E; n = reg_bits E dst in
      set_built E dst (\<lambda>s. do {
        (one_bit, s) \<leftarrow> createConstant B 1 1 s;
        (zero_byte, s) \<leftarrow> createConstant B 0 8 s;
        (three, s) \<leftarrow> createConstant B 3 n s;
        (msk, s) \<leftarrow> createConstant B (if reg_bytes E dst = 8 then 7 else 15) 8 s;
        (exprs, s) \<leftarrow> lanes (pshufb_lane B d x one_bit zero_byte three msk n) [0..<reg_bytes E dst] [] s;
        createConcat_list B exprs s }))"

definition instrumentPshufbRegReg :: "instr_env \<Rightarrow> CONTEXT \<Rightarrow> reg \<Rightarrow> reg \<Rightarrow> pin_change" where
  "instrumentPshufbRegReg E ctx dst src s = do {
     s \<leftarrow> concretizeReg E ctx src s;
     legacy (getExprFromRegReg E ctx dst src) (doPshufb E dst) s }"

definition instrumentPshufbRegMem :: "instr_env \<Rightarrow> CONTEXT \<Rightarrow> reg \<Rightarrow> mem_arg \<Rightarrow> pin_change" where
  "instrumentPshufbRegMem E ctx dst m s = do {
     s \<leftarrow> concretizeMem E ctx (m_addr m) (m_size m) s;
     legacy (getExprFromRegMem E ctx dst m) (doPshufb E dst) s }"

definition instrumentVpshufbRegRegReg :: "instr_env \<Rightarrow> CONTEXT \<Rightarrow> reg \<Rightarrow> reg \<Rightarrow> reg \<Rightarrow> pin_change" where
  "instrumentVpshufbRegRegReg E ctx dst src1 src2 =
     vex E dst (getExprFromRegReg E ctx src1 src2) (doPshufb E dst)"

definition instrumentVpshufbRegRegMem :: "instr_env \<Rightarrow> CONTEXT \<Rightarrow> reg \<Rightarrow> reg \<Rightarrow> mem_arg \<Rightarrow> pin_change" where
  "instrumentVpshufbRegRegMem E ctx dst src1 m =
     vex E dst (getExprFromRegMem E ctx src1 m) (doPshufb E dst)"

text \<open>\<open>doPshufw\<close>: four words of one half of each 16 bytes are shuffled, the other half stays.\<close>

definition pshufw_word :: "builder \<Rightarrow> expr \<Rightarrow> addr \<Rightarrow> bool \<Rightarrow> nat \<Rightarrow> nat \<Rightarrow> nat \<Rightarrow> expr build" where
  "pshufw_word B x imm high beg n i s = do {
     (c, s) \<leftarrow> createConstant B (unat ((drop_bit i imm AND 3) * 16) + beg) n s;
     (e, s) \<leftarrow> createBinaryExpr B LShr x c s;
     createExtract B e (of_bool high * 64) 16 s }"

fun pshufw_loop :: "builder \<Rightarrow> expr \<Rightarrow> addr \<Rightarrow> bool \<Rightarrow> nat \<Rightarrow> nat list \<Rightarrow> expr list \<Rightarrow> expr list build" where
  "pshufw_loop B x imm high n [] exprs s = Some (exprs, s)"
| "pshufw_loop B x imm high n (j # js) exprs s = (let beg = j * 16 * 8 in do {
     (exprs, s) \<leftarrow> (if high then do { (e, s) \<leftarrow> createExtract B x beg 64 s; Some (e # exprs, s) }
       else Some (exprs, s));
     (exprs, s) \<leftarrow> lanes (pshufw_word B x imm high beg n) [0, 2, 4, 6] exprs s;
     (exprs, s) \<leftarrow> (if \<not> high then do { (e, s) \<leftarrow> createExtract B x (beg + 64) 64 s; Some (e # exprs, s) }
       else Some (exprs, s));
     pshufw_loop B x imm high n js exprs s })"

definition doPshufw :: "instr_env \<Rightarrow> reg \<Rightarrow> expr \<Rightarrow> addr \<Rightarrow> bool \<Rightarrow> pin_change" where
  "doPshufw E dst x imm high =
     (let B = builder_of E; n = reg_bytes E dst in
      set_built E dst (\<lambda>s. assert (n = 16 \<or> n = 32) (do {
        (exprs, s) \<leftarrow> pshufw_loop B x imm high (n * 8) [0..<n div 16] [] s;
        createConcat_list B exprs s })))"

definition instrumentPshufwRegRegImm :: "instr_env \<Rightarrow> CONTEXT \<Rightarrow> reg \<Rightarrow> reg \<Rightarrow> addr \<Rightarrow> bool \<Rightarrow> pin_change" where
  "instrumentPshufwRegRegImm E ctx dst src imm high s = do {
     (x, s) \<leftarrow> getReg E ctx src s;
     case x of None \<Rightarrow> clearReg E dst s | Some x \<Rightarrow> doPshufw E dst x imm high s }"

definition instrumentPshufwRegMemImm :: "instr_env \<Rightarrow> CONTEXT \<Rightarrow> reg \<Rightarrow> mem_arg \<Rightarrow> addr \<Rightarrow> bool \<Rightarrow> pin_change" where
  "instrumentPshufwRegMemImm E ctx dst m imm high s = do {
     (x, s) \<leftarrow> getExprFromMemSrc E ctx m s;
     case x of None \<Rightarrow> clearReg E dst s | Some x \<Rightarrow> doPshufw E dst x imm high s }"

subsection \<open>Shifts of lanes\<close>

text \<open>\<open>getLimitedValue\<close> of the count: at most \<open>2 ^ 64 - 1\<close>.\<close>

definition getLimitedValue :: "int \<Rightarrow> addr" where
  "getLimitedValue v = word_of_int (min v (2 ^ 64 - 1))"

definition doPshift :: "instr_env \<Rightarrow> reg \<Rightarrow> kind \<Rightarrow> expr \<Rightarrow> addr \<Rightarrow> nat \<Rightarrow> pin_change" where
  "doPshift E dst k d imm width =
     (let B = builder_of E; imm = (if width = 16 then imm * 8 else imm) in
      set_built E dst (\<lambda>s. do {
        (c, s) \<leftarrow> createConstant B (unat imm) (width * 8) s;
        lanewise B (reg_bits E dst) (width * 8) (\<lambda>i s. do {
          (l, s) \<leftarrow> createExtract B d i (width * 8) s; createBinaryExpr B k l c s }) s }))"

definition instrumentPshiftRegReg :: "instr_env \<Rightarrow> CONTEXT \<Rightarrow> reg \<Rightarrow> reg \<Rightarrow> kind \<Rightarrow> nat \<Rightarrow> pin_change" where
  "instrumentPshiftRegReg E ctx dst src k width s = do {
     (d, s) \<leftarrow> getReg E ctx dst s;
     s \<leftarrow> concretizeReg E ctx src s;
     case d of None \<Rightarrow> Some s
     | Some d \<Rightarrow> doPshift E dst k d (getLimitedValue (getRegValue (pin E) ctx src)) width s }"

definition instrumentPshiftRegImm :: "instr_env \<Rightarrow> CONTEXT \<Rightarrow> reg \<Rightarrow> addr \<Rightarrow> kind \<Rightarrow> nat \<Rightarrow> pin_change" where
  "instrumentPshiftRegImm E ctx dst imm k width s = do {
     (d, s) \<leftarrow> getReg E ctx dst s;
     case d of None \<Rightarrow> Some s | Some d \<Rightarrow> doPshift E dst k d imm width s }"

definition instrumentPshiftRegMem :: "instr_env \<Rightarrow> CONTEXT \<Rightarrow> reg \<Rightarrow> mem_arg \<Rightarrow> kind \<Rightarrow> nat \<Rightarrow> pin_change" where
  "instrumentPshiftRegMem E ctx dst m k width s = do {
     (d, s) \<leftarrow> getReg E ctx dst s;
     s \<leftarrow> makeAddrConcrete E ctx m s;
     case d of None \<Rightarrow> Some s
     | Some d \<Rightarrow> doPshift E dst k d (getLimitedValue (getMemValue (ctx_mem ctx) (m_addr m) (m_size m))) width s }"

definition instrumentVpshiftRegRegReg ::
  "instr_env \<Rightarrow> CONTEXT \<Rightarrow> reg \<Rightarrow> reg \<Rightarrow> reg \<Rightarrow> kind \<Rightarrow> nat \<Rightarrow> pin_change" where
  "instrumentVpshiftRegRegReg E ctx dst src1 src2 k width s = do {
     (x, s) \<leftarrow> getReg E ctx src1 s;
     s \<leftarrow> concretizeReg E ctx src2 s;
     case x of None \<Rightarrow> clearReg E dst s
     | Some x \<Rightarrow> doPshift E dst k x (getLimitedValue (getRegValue (pin E) ctx src2)) width s }"

definition instrumentVpshiftRegRegImm ::
  "instr_env \<Rightarrow> CONTEXT \<Rightarrow> reg \<Rightarrow> reg \<Rightarrow> addr \<Rightarrow> kind \<Rightarrow> nat \<Rightarrow> pin_change" where
  "instrumentVpshiftRegRegImm E ctx dst src1 imm k width s = do {
     (x, s) \<leftarrow> getReg E ctx src1 s;
     case x of None \<Rightarrow> clearReg E dst s | Some x \<Rightarrow> doPshift E dst k x imm width s }"

definition instrumentVpshiftRegRegMem ::
  "instr_env \<Rightarrow> CONTEXT \<Rightarrow> reg \<Rightarrow> reg \<Rightarrow> mem_arg \<Rightarrow> kind \<Rightarrow> nat \<Rightarrow> pin_change" where
  "instrumentVpshiftRegRegMem E ctx dst src1 m k width s = do {
     (x, s) \<leftarrow> getReg E ctx src1 s;
     s \<leftarrow> makeAddrConcrete E ctx m s;
     case x of None \<Rightarrow> clearReg E dst s
     | Some x \<Rightarrow> doPshift E dst k x (getLimitedValue (getMemValue (ctx_mem ctx) (m_addr m) (m_size m))) width s }"

subsection \<open>Interleaving\<close>

text \<open>The loops of \<open>doPunpckh\<close> and \<open>doPunpckl\<close>: a part of each operand at \<open>i / 2 + beg\<close>.\<close>

fun unpack_loop :: "builder \<Rightarrow> expr \<Rightarrow> expr \<Rightarrow> nat \<Rightarrow> nat \<Rightarrow> nat list \<Rightarrow> expr list \<Rightarrow> expr list build" where
  "unpack_loop B d x width beg [] exprs s = Some (exprs, s)"
| "unpack_loop B d x width beg (i # is) exprs s = do {
     (l, s) \<leftarrow> createExtract B d ((i div 2 + beg) * 8) (width * 8) s;
     (r, s) \<leftarrow> createExtract B x ((i div 2 + beg) * 8) (width * 8) s;
     unpack_loop B d x width beg is (r # l # exprs) s }"

definition unpack :: "builder \<Rightarrow> expr \<Rightarrow> expr \<Rightarrow> nat \<Rightarrow> nat \<Rightarrow> nat \<Rightarrow> expr build" where
  "unpack B d x width n beg s = do {
     is \<leftarrow> lane_starts n (width * 2);
     (exprs, s) \<leftarrow> unpack_loop B d x width beg is [] s;
     createConcat_list B exprs s }"

definition doPunpckh :: "instr_env \<Rightarrow> reg \<Rightarrow> expr \<Rightarrow> expr \<Rightarrow> nat \<Rightarrow> nat \<Rightarrow> pin_change" where
  "doPunpckh E dst d x width n = set_built E dst (unpack (builder_of E) d x width n (n div 2))"

definition doPunpckl :: "instr_env \<Rightarrow> reg \<Rightarrow> expr \<Rightarrow> expr \<Rightarrow> nat \<Rightarrow> nat \<Rightarrow> pin_change" where
  "doPunpckl E dst d x width n = set_built E dst (unpack (builder_of E) d x width n 0)"

definition instrumentPunpckhRegReg :: "instr_env \<Rightarrow> CONTEXT \<Rightarrow> reg \<Rightarrow> reg \<Rightarrow> nat \<Rightarrow> pin_change" where
  "instrumentPunpckhRegReg E ctx dst src width =
     legacy (getExprFromRegReg E ctx dst src) (\<lambda>d x. doPunpckh E dst d x width (reg_bytes E dst))"

definition instrumentPunpckhRegMem :: "instr_env \<Rightarrow> CONTEXT \<Rightarrow> reg \<Rightarrow> mem_arg \<Rightarrow> nat \<Rightarrow> pin_change" where
  "instrumentPunpckhRegMem E ctx dst m width =
     legacy (getExprFromRegMem E ctx dst m) (\<lambda>d x. doPunpckh E dst d x width (m_size m))"

definition instrumentPunpcklRegReg :: "instr_env \<Rightarrow> CONTEXT \<Rightarrow> reg \<Rightarrow> reg \<Rightarrow> nat \<Rightarrow> pin_change" where
  "instrumentPunpcklRegReg E ctx dst src width =
     legacy (getExprFromRegReg E ctx dst src) (\<lambda>d x. doPunpckl E dst d x width (reg_bytes E dst))"

definition instrumentPunpcklRegMem :: "instr_env \<Rightarrow> CONTEXT \<Rightarrow> reg \<Rightarrow> mem_arg \<Rightarrow> nat \<Rightarrow> pin_change" where
  "instrumentPunpcklRegMem E ctx dst m width =
     legacy (getExprFromRegMem E ctx dst m) (\<lambda>d x. doPunpckl E dst d x width (m_size m))"

end
