(* ===== verification/Shadow.thy ===== *)
theory Shadow
  imports Memory BuilderLaws
begin

declare One_nat_def [simp del]

section \<open>Expressions in the place of bytes\<close>

text \<open>
  Symbolic memory and the registers of a thread both hold, for every byte, nothing (the byte is
  concrete) or an expression, and read and write ranges of bytes in the same way. The locale
  \<open>shadow\<close> is what they have in common. \<open>tracks\<close> relates such a store to the contents that the
  program's bytes have for each input \<open>\<rho>\<close> of a set \<open>W\<close>, one of which, \<open>\<rho>0\<close>, is the input of the
  run; the lemmas say what a range that is read or written means then.
\<close>

subsection \<open>Outcomes\<close>

definition leads :: "bool \<Rightarrow> 'a option \<Rightarrow> ('a \<Rightarrow> bool) \<Rightarrow> bool" where
  "leads t m Q \<longleftrightarrow> (case m of None \<Rightarrow> \<not> t | Some x \<Rightarrow> Q x)"

lemma leads_simps [simp]: "leads t None Q \<longleftrightarrow> \<not> t" "leads t (Some x) Q \<longleftrightarrow> Q x"
  by (simp_all add: leads_def)

lemma leads_bind:
  "leads t m Q \<Longrightarrow> (\<And>x. Q x \<Longrightarrow> leads t (k x) P) \<Longrightarrow> leads t (Option.bind m k) P"
  by (cases m) auto

lemma leads_bind_pair:
  "leads t m Q \<Longrightarrow> (\<And>x s. Q (x, s) \<Longrightarrow> leads t (k x s) P) \<Longrightarrow> leads t (Option.bind m (\<lambda>(x, s). k x s)) P"
  by (cases m) auto

lemma leads_mono: "leads t m Q \<Longrightarrow> (\<And>x. Q x \<Longrightarrow> P x) \<Longrightarrow> leads t m P"
  by (cases m) auto

lemma leadsD: "leads t m Q \<Longrightarrow> m = Some x \<Longrightarrow> Q x"
  by simp

lemma leads_totalD: "leads True m Q \<Longrightarrow> \<exists>x. m = Some x \<and> Q x"
  by (cases m) auto

lemma leads_building:
  "runs t I (f (builder_state s)) P \<Longrightarrow>
   leads t (building f s) (\<lambda>(r, s'). P r \<and> (\<exists>b. I b \<and> s' = s\<lparr>builder_state := b\<rparr>))"
  by (auto simp: runs_def building_def split: option.splits)

text \<open>One outcome for all inputs.\<close>

lemma runs_all:
  "W \<noteq> {} \<Longrightarrow> (\<And>\<rho>. \<rho> \<in> W \<Longrightarrow> runs t I m (P \<rho>)) \<Longrightarrow> runs t I m (\<lambda>r. \<forall>\<rho>\<in>W. P \<rho> r)"
  by (auto simp: runs_def split: option.splits)

definition builder_on :: "bool \<Rightarrow> bool \<Rightarrow> assignment set \<Rightarrow> (bst \<Rightarrow> bool) \<Rightarrow> builder \<Rightarrow> bool" where
  "builder_on t dv W I B \<longleftrightarrow> W \<noteq> {} \<and> (\<forall>\<rho>\<in>W. sound_builder t dv \<rho> I B)"

lemma builder_on_runs:
  "builder_on t dv W I B \<Longrightarrow> (\<And>\<rho>. \<rho> \<in> W \<Longrightarrow> sound_builder t dv \<rho> I B \<Longrightarrow> runs t I m (P \<rho>)) \<Longrightarrow>
   runs t I m (\<lambda>r. \<forall>\<rho>\<in>W. P \<rho> r)"
  unfolding builder_on_def by (rule runs_all) auto

lemma concrete_same: "isConcrete e \<Longrightarrow> den dv \<rho> e = den dv \<sigma> e"
  using den_getDeps [of e \<rho> \<sigma> dv] by (simp add: isConcrete_getDeps)

subsection \<open>Numbers and their bytes\<close>

definition bytes_value :: "(nat \<Rightarrow> 8 word) \<Rightarrow> nat \<Rightarrow> int" where
  "bytes_value f n = horner_sum uint (2 ^ 8) (map f [0..<n])"

lemma bit_bytes_value [bit_simps]:
  "bit (bytes_value f n) k \<longleftrightarrow> k div 8 < n \<and> bit (f (k div 8)) (k mod 8)"
  using bit_horner_sum_uint_exp_iff [of "map f [0..<n]" k] by (auto simp: bytes_value_def)

lemma getMemValue_bytes: "getMemValue pm a n = bytes_value (\<lambda>i. pm (a + of_nat i)) n"
  by (simp add: getMemValue_def bytes_value_def)

lemma bytes_value_0 [simp]: "bytes_value f 0 = 0"
  by (simp add: bytes_value_def)

lemma bytes_value_1: "bytes_value f 1 = uint (f 0)"
  by (simp add: bytes_value_def One_nat_def)

lemma bytes_value_low:
  "bv_concat 8 (bytes_value (\<lambda>i. f (Suc i)) n) (uint (f 0)) = bytes_value f (Suc n)"
proof (rule bit_eqI)
  fix k
  show "bit (bv_concat 8 (bytes_value (\<lambda>i. f (Suc i)) n) (uint (f 0))) k = bit (bytes_value f (Suc n)) k"
  proof (cases "k < 8")
    case False
    then have "k = k - 8 + 8"
      by simp
    then have "k div 8 = Suc ((k - 8) div 8)" "k mod 8 = (k - 8) mod 8"
      by (metis div_add_self2 Suc_eq_plus1 zero_neq_numeral, metis mod_add_self2)
    with False show ?thesis
      by (simp add: bit_simps)
  qed (auto simp: bit_simps)
qed

lemma in_range_bytes_value [simp]: "in_range (8 * n) (bytes_value f n)"
  by (auto simp: in_range_iff_bit bit_bytes_value less_mult_imp_div_less mult.commute div_less_iff_less_mult)

lemma bytes_value_byte: "i < n \<Longrightarrow> bv_extract (i * 8) 8 (bytes_value f n) = uint (f i)"
proof (rule bit_eqI)
  fix k
  assume "i < n"
  moreover have "\<not> bit (f i) k" if "\<not> k < 8"
    using that bit_imp_le_length [of "f i" k] by auto
  ultimately show "bit (bv_extract (i * 8) 8 (bytes_value f n)) k = bit (uint (f i)) k"
    by (cases "k < 8") (auto simp: bit_simps)
qed

lemma bytes_value_cong: "(\<And>i. i < n \<Longrightarrow> f i = g i) \<Longrightarrow> bytes_value f n = bytes_value g n"
  by (rule bit_eqI) (auto simp: bit_simps)

lemma take_bit_byte: "take_bit 8 (uint (w :: 8 word)) = uint w"
  using uint_lt2p [of w] by (simp add: take_bit_int_eq_self)

text \<open>Writing the bytes of a number at an address, and bytes that are given.\<close>

definition put_bytes :: "addr \<Rightarrow> nat \<Rightarrow> (nat \<Rightarrow> 8 word) \<Rightarrow> (addr \<Rightarrow> 8 word) \<Rightarrow> addr \<Rightarrow> 8 word" where
  "put_bytes a n v f = (\<lambda>b. if unat (b - a) < n then v (unat (b - a)) else f b)"

definition byte_of :: "int \<Rightarrow> nat \<Rightarrow> 8 word" where
  "byte_of v i = word_of_int (drop_bit (i * 8) v)"

lemma put_bytes_0 [simp]: "put_bytes a 0 v f = f"
  by (simp add: put_bytes_def)

lemma unat_offset: "n < 2 ^ 64 \<Longrightarrow> unat (of_nat n :: addr) = n"
  by (simp add: unat_of_nat take_bit_nat_eq_self)

lemma offset_iff: "n < 2 ^ 64 \<Longrightarrow> unat (b - a) = n \<longleftrightarrow> (b :: addr) = a + of_nat n"
proof -
  assume n: "n < 2 ^ 64"
  have "unat (b - a) = n \<longleftrightarrow> b - a = of_nat n"
    using n by (auto simp: unat_offset)
  then show ?thesis
    by (simp add: diff_eq_eq add.commute)
qed

lemma put_bytes_Suc:
  "n < 2 ^ 64 \<Longrightarrow> put_bytes a (Suc n) v f = (put_bytes a n v f)(a + of_nat n := v n)"
  by (auto simp: put_bytes_def fun_eq_iff less_Suc_eq offset_iff unat_offset)

lemma bytes_value_byte_of: "in_range (8 * n) v \<Longrightarrow> bytes_value (byte_of v) n = v"
  by (rule bit_eqI) (auto simp: bit_simps in_range_iff_bit byte_of_def bit_word_of_int_iff)

lemma uint_byte_of: "uint (byte_of v i) = bv_extract (i * 8) 8 v"
  by (simp add: bv_extract_def byte_of_def uint_word_of_int take_bit_eq_mod)

subsection \<open>A store of expressions for bytes\<close>

definition tracks ::
  "bool \<Rightarrow> assignment set \<Rightarrow> assignment \<Rightarrow> (assignment \<Rightarrow> addr \<Rightarrow> 8 word) \<Rightarrow>
   (addr \<Rightarrow> expr option option) \<Rightarrow> bool" where
  "tracks dv W \<rho>0 V g \<longleftrightarrow> (\<forall>a. \<forall>\<rho>\<in>W. (g a = Some None \<longrightarrow> V \<rho> a = V \<rho>0 a) \<and>
     (\<forall>x. g a = Some (Some x) \<longrightarrow> den dv \<rho> x = Some (BV 8 (uint (V \<rho> a)))))"

lemma tracks_None: "tracks dv W \<rho>0 V g \<Longrightarrow> g a = Some None \<Longrightarrow> \<rho> \<in> W \<Longrightarrow> V \<rho> a = V \<rho>0 a"
  by (simp add: tracks_def)

lemma tracks_Some: "tracks dv W \<rho>0 V g \<Longrightarrow> g a = Some (Some x) \<Longrightarrow> \<rho> \<in> W \<Longrightarrow> den dv \<rho> x = Some (BV 8 (uint (V \<rho> a)))"
  by (simp add: tracks_def)

lemma tracks_clear:
  "tracks dv W \<rho>0 V g \<Longrightarrow> (\<And>\<rho>. \<rho> \<in> W \<Longrightarrow> v \<rho> = v \<rho>0) \<Longrightarrow>
   tracks dv W \<rho>0 (\<lambda>\<rho>. (V \<rho>)(a := v \<rho>)) (g(a := Some None))"
  by (simp add: tracks_def)

lemma tracks_put:
  "tracks dv W \<rho>0 V g \<Longrightarrow> (\<And>\<rho>. \<rho> \<in> W \<Longrightarrow> den dv \<rho> x = Some (BV 8 (uint (v \<rho>)))) \<Longrightarrow>
   tracks dv W \<rho>0 (\<lambda>\<rho>. (V \<rho>)(a := v \<rho>)) (g(a := Some (Some x)))"
  by (simp add: tracks_def)

lemma tracks_cong:
  "tracks dv W \<rho>0 V g \<Longrightarrow> (\<And>\<rho> a. \<rho> \<in> W \<or> \<rho> = \<rho>0 \<Longrightarrow> V' \<rho> a = V \<rho> a) \<Longrightarrow> tracks dv W \<rho>0 V' g"
  by (simp add: tracks_def)

lemma concat_bytes_loop:
  assumes B: "builder_on t dv W I B" and k: "0 < k"
  shows "I s \<Longrightarrow> \<forall>\<rho>\<in>W. den dv \<rho> e = Some (BV (8 * k) (bytes_value (\<lambda>i. F \<rho> (length es + i)) k)) \<Longrightarrow>
    \<forall>i < length es. \<forall>\<rho>\<in>W. den dv \<rho> (es ! i) = Some (BV 8 (uint (F \<rho> i))) \<Longrightarrow>
    runs t I (createConcat_loop B e (rev es) s)
      (\<lambda>r. \<forall>\<rho>\<in>W. den dv \<rho> r = Some (BV (8 * (k + length es)) (bytes_value (F \<rho>) (k + length es))))"
  using k
proof (induction es arbitrary: s e k rule: rev_induct)
  case Nil
  then show ?case
    by (simp add: add.commute)
next
  case (snoc x es)
  have low: "bytes_value (\<lambda>i. F \<rho> (length es + i)) (Suc k) =
      bv_concat 8 (bytes_value (\<lambda>i. F \<rho> (length (es @ [x]) + i)) k) (uint (F \<rho> (length es)))" for \<rho>
    using bytes_value_low [of "\<lambda>i. F \<rho> (length es + i)" k] by simp
  have x: "\<forall>\<rho>\<in>W. den dv \<rho> x = Some (BV 8 (uint (F \<rho> (length es))))"
    using snoc.prems(3) by (auto simp: nth_append)
  have "runs t I (createConcat B e x s)
      (\<lambda>r. \<forall>\<rho>\<in>W. den dv \<rho> r = Some (BV (8 * Suc k) (bytes_value (\<lambda>i. F \<rho> (length es + i)) (Suc k))))"
  proof (rule builder_on_runs [OF B])
    fix \<rho>
    assume \<rho>: "\<rho> \<in> W" "sound_builder t dv \<rho> I B"
    from sound_builder.concat_bv [OF \<rho>(2) snoc.prems(1) snoc.prems(2) [rule_format, OF \<rho>(1)] x [rule_format, OF \<rho>(1)]]
    show "runs t I (createConcat B e x s)
        (\<lambda>r. den dv \<rho> r = Some (BV (8 * Suc k) (bytes_value (\<lambda>i. F \<rho> (length es + i)) (Suc k))))"
      unfolding low by (simp add: add.commute)
  qed
  then show ?case
    unfolding rev_append rev.simps append_Nil append_Cons createConcat_loop.simps
  proof (rule runs_bind_pair)
    fix r s'
    assume "\<forall>\<rho>\<in>W. den dv \<rho> r = Some (BV (8 * Suc k) (bytes_value (\<lambda>i. F \<rho> (length es + i)) (Suc k)))" "I s'"
    moreover have "\<forall>i < length es. \<forall>\<rho>\<in>W. den dv \<rho> (es ! i) = Some (BV 8 (uint (F \<rho> i)))"
      using snoc.prems(3) by (auto simp: nth_append dest: spec less_SucI)
    ultimately show "runs t I (createConcat_loop B r (rev es) s')
        (\<lambda>r. \<forall>\<rho>\<in>W. den dv \<rho> r = Some (BV (8 * (k + length (es @ [x]))) (bytes_value (F \<rho>) (k + length (es @ [x])))))"
      using snoc.IH [of s' r "Suc k"] by simp
  qed
qed

lemma concat_bytes_law:
  assumes B: "builder_on t dv W I B" and I: "I s" and n: "es \<noteq> []"
    and es: "\<forall>i < length es. \<forall>\<rho>\<in>W. den dv \<rho> (es ! i) = Some (BV 8 (uint (F \<rho> i)))"
  shows "runs t I (createConcat_list B (rev es) s)
    (\<lambda>r. \<forall>\<rho>\<in>W. den dv \<rho> r = Some (BV (length es * 8) (bytes_value (F \<rho>) (length es))))"
proof -
  obtain es' x where x: "es = es' @ [x]"
    using n by (metis append_butlast_last_id)
  have "\<forall>\<rho>\<in>W. den dv \<rho> x = Some (BV (8 * 1) (bytes_value (\<lambda>i. F \<rho> (length es' + i)) 1))"
    using es by (auto simp: x nth_append bytes_value_1)
  moreover have "\<forall>i < length es'. \<forall>\<rho>\<in>W. den dv \<rho> (es' ! i) = Some (BV 8 (uint (F \<rho> i)))"
    using es by (auto simp: x nth_append dest: spec less_SucI)
  ultimately show ?thesis
    using concat_bytes_loop [OF B _ I, of 1 x F es'] by (simp add: x mult.commute add.commute Suc_eq_plus1)
qed

text \<open>
  The interface: \<open>get\<close> and the changes of one byte, and the loops over ranges by their equations.
  \<open>get\<close> is \<open>None\<close> where an access ends the process; \<open>writable\<close> tells where an expression can be
  put. \<open>same\<close> says that the rest of the state was not touched.
\<close>

locale shadow =
  fixes ok :: "'z expr_state_scheme \<Rightarrow> bool"
    and get :: "'z expr_state_scheme \<Rightarrow> addr \<Rightarrow> expr option option"
    and writable :: "'z expr_state_scheme \<Rightarrow> addr \<Rightarrow> bool"
    and same :: "'z expr_state_scheme \<Rightarrow> 'z expr_state_scheme \<Rightarrow> bool"
    and clear :: "addr \<Rightarrow> 'z change" and put :: "addr \<Rightarrow> expr \<Rightarrow> 'z change"
    and symbolic_loop :: "addr \<Rightarrow> nat list \<Rightarrow> 'z expr_state_scheme \<Rightarrow> bool option"
    and clear_loop :: "addr \<Rightarrow> nat list \<Rightarrow> 'z change"
    and put_loop :: "builder \<Rightarrow> addr \<Rightarrow> expr \<Rightarrow> nat list \<Rightarrow> 'z change"
    and get_loop :: "builder \<Rightarrow> (nat \<Rightarrow> 8 word) \<Rightarrow> addr \<Rightarrow> nat list \<Rightarrow> expr list \<Rightarrow> (expr list, 'z) step"
  assumes clear: "ok s \<Longrightarrow> get s a \<noteq> None \<Longrightarrow> \<exists>s'. clear a s = Some s' \<and> ok s' \<and> same s s' \<and>
      builder_state s' = builder_state s \<and> writable s' = writable s \<and> get s' = (get s)(a := Some None)"
    and clear_fault: "get s a = None \<Longrightarrow> clear a s = None"
    and put: "ok s \<Longrightarrow> writable s a \<Longrightarrow> \<exists>s'. put a e s = Some s' \<and> ok s' \<and> same s s' \<and>
      builder_state s' = builder_state s \<and> writable s' = writable s \<and> get s' = (get s)(a := Some (Some e))"
    and put_fault: "ok s \<Longrightarrow> \<not> writable s a \<Longrightarrow> put a e s = None"
    and writable_get: "ok s \<Longrightarrow> writable s a \<Longrightarrow> get s a \<noteq> None"
    and same_refl: "same s s"
    and same_trans: "same s1 s2 \<Longrightarrow> same s2 s3 \<Longrightarrow> same s1 s3"
    and built: "ok (s\<lparr>builder_state := b\<rparr>) = ok s" "get (s\<lparr>builder_state := b\<rparr>) = get s"
      "writable (s\<lparr>builder_state := b\<rparr>) = writable s" "same s (s\<lparr>builder_state := b\<rparr>)"
    and symbolic_loop: "symbolic_loop a [] s = Some False"
      "symbolic_loop a (i # is) s = do {
         e \<leftarrow> get s (a + of_nat i); if e \<noteq> None then Some True else symbolic_loop a is s }"
    and clear_loop: "clear_loop a [] s = Some s"
      "clear_loop a (i # is) s = do { s \<leftarrow> clear (a + of_nat i) s; clear_loop a is s }"
    and put_loop: "put_loop B a e [] s = Some s"
      "put_loop B a e (i # is) s = do {
         (new_expr, s) \<leftarrow> building (createExtract B e (i * 8) 8) s;
         s \<leftarrow> put (a + of_nat i) new_expr s;
         put_loop B a e is s }"
    and get_loop: "get_loop B c a [] exprs s = Some (exprs, s)"
      "get_loop B c a (i # is) exprs s = do {
         e_partial \<leftarrow> get s (a + of_nat i);
         (e, s) \<leftarrow> (case e_partial of
            Some e \<Rightarrow> Some (e, s)
          | None \<Rightarrow> building (createConstant B (unat (c i)) 8) s);
         get_loop B c a is (e # exprs) s }"
begin

text \<open>What no operation changes.\<close>

definition kept :: "'z expr_state_scheme \<Rightarrow> 'z expr_state_scheme \<Rightarrow> bool" where
  "kept s s' \<longleftrightarrow> ok s' \<and> same s s' \<and> writable s' = writable s \<and> (\<forall>a. get s' a = None \<longleftrightarrow> get s a = None)"

lemma kept_refl [simp]: "ok s \<Longrightarrow> kept s s"
  by (simp add: kept_def same_refl)

lemma kept_trans: "kept s1 s2 \<Longrightarrow> kept s2 s3 \<Longrightarrow> kept s1 s3"
  unfolding kept_def using same_trans by auto

lemma kept_built: "ok s \<Longrightarrow> kept s (s\<lparr>builder_state := b\<rparr>)"
  by (simp add: kept_def built)

lemma kept_ok: "kept s s' \<Longrightarrow> ok s'"
  by (simp add: kept_def)

text \<open>Clearing.\<close>

lemma clear_law:
  assumes "ok s" "t \<Longrightarrow> get s a \<noteq> None"
  shows "leads t (clear a s) (\<lambda>s'. kept s s' \<and> builder_state s' = builder_state s \<and> get s' = (get s)(a := Some None))"
proof (cases "get s a")
  case None
  with assms(2) show ?thesis
    by (auto simp: clear_fault)
next
  case (Some e)
  with clear [OF assms(1), of a] show ?thesis
    by (auto simp: kept_def)
qed

lemma clear_loop_law:
  assumes "ok s" "t \<Longrightarrow> \<forall>i \<in> set is. get s (a + of_nat i) \<noteq> None"
  shows "leads t (clear_loop a is s) (\<lambda>s'. kept s s' \<and> builder_state s' = builder_state s \<and>
    get s' = (\<lambda>b. if \<exists>i \<in> set is. b = a + of_nat i then Some None else get s b))"
  using assms
proof (induction "is" arbitrary: s)
  case (Cons i "is")
  show ?case
    unfolding clear_loop
  proof (rule leads_bind [OF clear_law])
    fix s1
    assume s1: "kept s s1 \<and> builder_state s1 = builder_state s \<and> get s1 = (get s)(a + of_nat i := Some None)"
    have "leads t (clear_loop a is s1) (\<lambda>s'. kept s1 s' \<and> builder_state s' = builder_state s1 \<and>
        get s' = (\<lambda>b. if \<exists>i \<in> set is. b = a + of_nat i then Some None else get s1 b))"
      using Cons.prems s1 by (intro Cons.IH) (auto simp: kept_ok)
    then show "leads t (clear_loop a is s1) (\<lambda>s'. kept s s' \<and> builder_state s' = builder_state s \<and>
        get s' = (\<lambda>b. if \<exists>i \<in> set (i # is). b = a + of_nat i then Some None else get s b))"
      by (rule leads_mono) (use s1 in \<open>auto intro: kept_trans\<close>)
  qed (use Cons.prems in auto)
qed (simp add: clear_loop)

text \<open>Reading.\<close>

lemma symbolic_loop_law:
  "(t \<Longrightarrow> \<forall>i \<in> set is. get s (a + of_nat i) \<noteq> None) \<Longrightarrow>
   leads t (symbolic_loop a is s) (\<lambda>b. if b then is \<noteq> [] else \<forall>i \<in> set is. get s (a + of_nat i) = Some None)"
proof (induction "is")
  case (Cons i "is")
  show ?case
  proof (cases "get s (a + of_nat i)")
    case None
    with Cons.prems show ?thesis
      by (auto simp: symbolic_loop)
  next
    case (Some e)
    then show ?thesis
      using Cons.prems by (auto simp: symbolic_loop intro: leads_mono [OF Cons.IH])
  qed
qed (simp add: symbolic_loop)

lemma get_loop_law:
  assumes B: "builder_on t dv W I B"
  shows "ok s \<Longrightarrow> I (builder_state s) \<Longrightarrow> tracks dv W \<rho>0 V (get s) \<Longrightarrow>
    \<forall>i \<in> set is. c i = V \<rho>0 (a + of_nat i) \<Longrightarrow> (t \<Longrightarrow> \<forall>i \<in> set is. get s (a + of_nat i) \<noteq> None) \<Longrightarrow>
    leads t (get_loop B c a is exprs s) (\<lambda>(r, s'). (\<exists>b. I b \<and> s' = s\<lparr>builder_state := b\<rparr>) \<and>
      (\<exists>es. r = rev es @ exprs \<and> length es = length is \<and>
        (\<forall>j < length is. \<forall>\<rho>\<in>W. den dv \<rho> (es ! j) = Some (BV 8 (uint (V \<rho> (a + of_nat (is ! j))))))))"
proof (induction "is" arbitrary: exprs s)
  case (Cons i "is")
  show ?case
  proof (cases "get s (a + of_nat i)")
    case None
    with Cons.prems(5) show ?thesis
      by (auto simp: get_loop)
  next
    case (Some e)
    have byte: "leads t (case e of Some e \<Rightarrow> Some (e, s) | None \<Rightarrow> building (createConstant B (unat (c i)) 8) s)
        (\<lambda>(x, s'). (\<forall>\<rho>\<in>W. den dv \<rho> x = Some (BV 8 (uint (V \<rho> (a + of_nat i))))) \<and>
          (\<exists>b. I b \<and> s' = s\<lparr>builder_state := b\<rparr>))"
    proof (cases e)
      case None
      have "runs t I (createConstant B (unat (c i)) 8 (builder_state s))
          (\<lambda>x. \<forall>\<rho>\<in>W. den dv \<rho> x = Some (BV 8 (uint (V \<rho> (a + of_nat i)))))"
      proof (rule builder_on_runs [OF B])
        fix \<rho>
        assume \<rho>: "\<rho> \<in> W" "sound_builder t dv \<rho> I B"
        have "uint (c i) = uint (V \<rho> (a + of_nat i))"
          using tracks_None [OF Cons.prems(3) _ \<rho>(1)] Some None Cons.prems(4) by simp
        then show "runs t I (createConstant B (unat (c i)) 8 (builder_state s))
            (\<lambda>x. den dv \<rho> x = Some (BV 8 (uint (V \<rho> (a + of_nat i)))))"
          using sound_builder.const_law [OF \<rho>(2) Cons.prems(2), of 8 "unat (c i)"]
          by (simp add: take_bit_byte flip: uint_nat)
      qed
      then show ?thesis
        using None by (auto dest: leads_building)
    next
      case (Some x)
      then show ?thesis
        using tracks_Some [OF Cons.prems(3)] \<open>get s (a + of_nat i) = Some e\<close> Cons.prems(2)
        by (auto intro!: exI [of _ "builder_state s"])
    qed
    show ?thesis
      unfolding get_loop Some bind.bind_lunit
    proof (rule leads_bind_pair [OF byte])
      fix x s1
      assume "case (x, s1) of (x, s') \<Rightarrow> (\<forall>\<rho>\<in>W. den dv \<rho> x = Some (BV 8 (uint (V \<rho> (a + of_nat i))))) \<and>
          (\<exists>b. I b \<and> s' = s\<lparr>builder_state := b\<rparr>)"
      then obtain b where x: "\<forall>\<rho>\<in>W. den dv \<rho> x = Some (BV 8 (uint (V \<rho> (a + of_nat i))))"
        and b: "I b" "s1 = s\<lparr>builder_state := b\<rparr>"
        by auto
      have "leads t (get_loop B c a is (x # exprs) s1) (\<lambda>(r, s'). (\<exists>b. I b \<and> s' = s1\<lparr>builder_state := b\<rparr>) \<and>
        (\<exists>es. r = rev es @ x # exprs \<and> length es = length is \<and>
        (\<forall>j < length is. \<forall>\<rho>\<in>W. den dv \<rho> (es ! j) = Some (BV 8 (uint (V \<rho> (a + of_nat (is ! j))))))))"
        using Cons.prems by (intro Cons.IH) (simp_all add: b built)
      then show "leads t (get_loop B c a is (x # exprs) s1) (\<lambda>(r, s'). (\<exists>b. I b \<and> s' = s\<lparr>builder_state := b\<rparr>) \<and>
        (\<exists>es. r = rev es @ exprs \<and> length es = length (i # is) \<and>
        (\<forall>j < length (i # is). \<forall>\<rho>\<in>W. den dv \<rho> (es ! j) = Some (BV 8 (uint (V \<rho> (a + of_nat ((i # is) ! j))))))))"
      proof (rule leads_mono, clarify)
        fix es b'
        assume es: "length es = length is"
          "\<forall>j < length is. \<forall>\<rho>\<in>W. den dv \<rho> (es ! j) = Some (BV 8 (uint (V \<rho> (a + of_nat (is ! j)))))" and "I b'"
        then show "(\<exists>b. I b \<and> s1\<lparr>builder_state := b'\<rparr> = s\<lparr>builder_state := b\<rparr>) \<and>
          (\<exists>es'. rev es @ x # exprs = rev es' @ exprs \<and> length es' = length (i # is) \<and>
          (\<forall>j < length (i # is). \<forall>\<rho>\<in>W. den dv \<rho> (es' ! j) = Some (BV 8 (uint (V \<rho> (a + of_nat ((i # is) ! j)))))))"
          using x b by (intro conjI exI [of _ b'] exI [of _ "x # es"]) (auto simp: less_Suc_eq_0_disj)
      qed
    qed
  qed
qed (auto simp: get_loop intro!: exI [of _ "builder_state s" for s])

text \<open>Writing.\<close>

lemma put_law:
  assumes "ok s" "t \<Longrightarrow> writable s a"
  shows "leads t (put a e s) (\<lambda>s'. kept s s' \<and> builder_state s' = builder_state s \<and> get s' = (get s)(a := Some (Some e)))"
proof (cases "writable s a")
  case True
  with put [OF assms(1), of a e] writable_get [OF assms(1), of a] show ?thesis
    by (auto simp: kept_def)
next
  case False
  with assms show ?thesis
    by (auto simp: put_fault)
qed

lemma put_loop_append:
  "put_loop B a e (xs @ ys) s = do { s \<leftarrow> put_loop B a e xs s; put_loop B a e ys s }"
  by (induction xs arbitrary: s) (simp_all add: put_loop split: prod.splits Option.bind_splits)

lemma put_loop_law:
  assumes B: "builder_on t dv W I B" and x: "\<forall>\<rho>\<in>W. den dv \<rho> e = Some (BV m (x \<rho>))"
  shows "ok s \<Longrightarrow> I (builder_state s) \<Longrightarrow> tracks dv W \<rho>0 V (get s) \<Longrightarrow> n * 8 \<le> m \<Longrightarrow> n \<le> 2 ^ 64 \<Longrightarrow>
    (t \<Longrightarrow> \<forall>i < n. writable s (a + of_nat i)) \<Longrightarrow>
    leads t (put_loop B a e [0..<n] s) (\<lambda>s'. kept s s' \<and> I (builder_state s') \<and>
      tracks dv W \<rho>0 (\<lambda>\<rho>. put_bytes a n (byte_of (x \<rho>)) (V \<rho>)) (get s'))"
proof (induction n)
  case (Suc n)
  have "leads t (put_loop B a e [n] s1) (\<lambda>s'. kept s s' \<and> I (builder_state s') \<and>
      tracks dv W \<rho>0 (\<lambda>\<rho>. put_bytes a (Suc n) (byte_of (x \<rho>)) (V \<rho>)) (get s'))"
    if s1: "kept s s1 \<and> I (builder_state s1) \<and> tracks dv W \<rho>0 (\<lambda>\<rho>. put_bytes a n (byte_of (x \<rho>)) (V \<rho>)) (get s1)" for s1
  proof -
    have "runs t I (createExtract B e (n * 8) 8 (builder_state s1)) (\<lambda>r. \<forall>\<rho>\<in>W. den dv \<rho> r = Some (BV 8 (uint (byte_of (x \<rho>) n))))"
      unfolding uint_byte_of
      by (rule builder_on_runs [OF B], rule sound_builder.extract_bv) (use s1 x Suc.prems(4) in auto)
    note byte = leads_building [where f = "createExtract B e (n * 8) 8", OF this]
    show ?thesis
      unfolding put_loop
    proof (rule leads_bind_pair [OF byte])
      fix r s2
      assume "case (r, s2) of (r, s') \<Rightarrow> (\<forall>\<rho>\<in>W. den dv \<rho> r = Some (BV 8 (uint (byte_of (x \<rho>) n)))) \<and>
          (\<exists>b. I b \<and> s' = s1\<lparr>builder_state := b\<rparr>)"
      then obtain b where r: "\<forall>\<rho>\<in>W. den dv \<rho> r = Some (BV 8 (uint (byte_of (x \<rho>) n)))"
        and b: "I b" "s2 = s1\<lparr>builder_state := b\<rparr>"
        by auto
      have s2: "kept s s2" "ok s2"
        using s1 b kept_trans [OF _ kept_built, of s s1 b] by (auto simp: kept_ok built)
      have "leads t (put (a + of_nat n) r s2) (\<lambda>s'. kept s2 s' \<and> builder_state s' = builder_state s2 \<and>
          get s' = (get s2)(a + of_nat n := Some (Some r)))"
        using s2 Suc.prems(6) by (intro put_law) (auto simp: kept_def)
      then have "leads t (put (a + of_nat n) r s2) (\<lambda>s'. kept s s' \<and> I (builder_state s') \<and>
          tracks dv W \<rho>0 (\<lambda>\<rho>. put_bytes a (Suc n) (byte_of (x \<rho>)) (V \<rho>)) (get s'))"
        by (rule leads_mono) (use s1 b r s2 Suc.prems(5) in \<open>auto simp: put_bytes_Suc built intro: kept_trans tracks_put\<close>)
      then show "leads t (do { s \<leftarrow> put (a + of_nat n) r s2; Some s }) (\<lambda>s'. kept s s' \<and> I (builder_state s') \<and>
          tracks dv W \<rho>0 (\<lambda>\<rho>. put_bytes a (Suc n) (byte_of (x \<rho>)) (V \<rho>)) (get s'))"
        by simp
    qed
  qed
  then show ?case
    using Suc by (simp add: put_loop_append) (blast intro: leads_bind)
qed (simp add: put_loop)

text \<open>The whole of reading a range.\<close>

definition read_range :: "builder \<Rightarrow> (nat \<Rightarrow> 8 word) \<Rightarrow> addr \<Rightarrow> nat \<Rightarrow> (expr option, 'z) step" where
  "read_range B c a n s = do {
     sym \<leftarrow> symbolic_loop a [0..<n] s;
     if \<not> sym then Some (None, s)
     else do {
       (exprs, s) \<leftarrow> get_loop B c a [0..<n] [] s;
       (e, s) \<leftarrow> building (createConcat_list B exprs) s;
       if isConcrete e then do { s \<leftarrow> clear_loop a [0..<n] s; Some (None, s) }
       else Some (Some e, s) } }"

lemma tracks_clear_loop:
  assumes "tracks dv W \<rho>0 V (get s)" "\<forall>\<rho>\<in>W. \<forall>i < n. V \<rho> (a + of_nat i) = V \<rho>0 (a + of_nat i)"
    and "get s' = (\<lambda>b. if \<exists>i \<in> set [0..<n]. b = a + of_nat i then Some None else get s b)"
  shows "tracks dv W \<rho>0 V (get s')"
  using assms unfolding tracks_def by auto

lemma concat_step:
  assumes B: "builder_on t dv W I B" and n: "0 < n" "length es = n" and I: "I (builder_state s)"
    and es: "\<forall>j < n. \<forall>\<rho>\<in>W. den dv \<rho> (es ! j) = Some (BV 8 (uint (V \<rho> (a + of_nat j))))"
  shows "leads t (building (createConcat_list B (rev es)) s) (\<lambda>(e, s').
    (\<forall>\<rho>\<in>W. den dv \<rho> e = Some (BV (n * 8) (getMemValue (V \<rho>) a n))) \<and> (\<exists>b. I b \<and> s' = s\<lparr>builder_state := b\<rparr>))"
  unfolding getMemValue_bytes
  by (rule leads_building) (use concat_bytes_law [OF B I, of es "\<lambda>\<rho> j. V \<rho> (a + of_nat j)"] n es in auto)

lemma read_range_law:
  assumes B: "builder_on t dv W I B" and s: "ok s" "I (builder_state s)" "tracks dv W \<rho>0 V (get s)"
    and c: "\<And>i. i < n \<Longrightarrow> c i = V \<rho>0 (a + of_nat i)" and \<rho>0: "\<rho>0 \<in> W"
    and t: "t \<Longrightarrow> \<forall>i < n. get s (a + of_nat i) \<noteq> None"
  shows "leads t (read_range B c a n s) (\<lambda>(r, s'). kept s s' \<and> I (builder_state s') \<and> tracks dv W \<rho>0 V (get s') \<and>
    (\<forall>b. get s b = Some None \<longrightarrow> get s' b = Some None) \<and>
    (case r of None \<Rightarrow> \<forall>i < n. get s' (a + of_nat i) = Some None
     | Some e \<Rightarrow> \<forall>\<rho>\<in>W. den dv \<rho> e = Some (BV (n * 8) (getMemValue (V \<rho>) a n))))"
    (is "leads t _ ?Q")
  unfolding read_range_def
proof (rule leads_bind [OF symbolic_loop_law])
  fix sym
  assume sym: "if sym then [0..<n] \<noteq> [] else \<forall>i \<in> set [0..<n]. get s (a + of_nat i) = Some None"
  show "leads t (if \<not> sym then Some (None, s)
      else do { (exprs, s) \<leftarrow> get_loop B c a [0..<n] [] s;
       (e, s) \<leftarrow> building (createConcat_list B exprs) s;
       if isConcrete e then do { s \<leftarrow> clear_loop a [0..<n] s; Some (None, s) }
       else Some (Some e, s) }) ?Q"
  proof (cases sym)
    case False
    then show ?thesis
      using sym s by auto
  next
    case True
    have "leads t (do { (exprs, s) \<leftarrow> get_loop B c a [0..<n] [] s;
       (e, s) \<leftarrow> building (createConcat_list B exprs) s;
       if isConcrete e then do { s \<leftarrow> clear_loop a [0..<n] s; Some (None, s) }
       else Some (Some e, s) }) ?Q"
    proof (rule leads_bind_pair [OF get_loop_law [OF B s]])
      fix r s1
      assume "case (r, s1) of (r, s') \<Rightarrow> (\<exists>b. I b \<and> s' = s\<lparr>builder_state := b\<rparr>) \<and>
        (\<exists>es. r = rev es @ [] \<and> length es = length [0..<n] \<and>
        (\<forall>j < length [0..<n]. \<forall>\<rho>\<in>W. den dv \<rho> (es ! j) = Some (BV 8 (uint (V \<rho> (a + of_nat ([0..<n] ! j)))))))"
      then obtain es b1 where r: "r = rev es" "s1 = s\<lparr>builder_state := b1\<rparr>" and b1: "I b1"
        and es: "length es = length [0..<n]" "\<forall>j < length [0..<n]. \<forall>\<rho>\<in>W. den dv \<rho> (es ! j) =
          Some (BV 8 (uint (V \<rho> (a + of_nat ([0..<n] ! j)))))"
        by auto
      have n: "0 < n" "length es = n"
        using True sym es(1) by auto
      have "leads t (building (createConcat_list B (rev es)) (s\<lparr>builder_state := b1\<rparr>)) (\<lambda>(e, s').
          (\<forall>\<rho>\<in>W. den dv \<rho> e = Some (BV (n * 8) (getMemValue (V \<rho>) a n))) \<and>
          (\<exists>b. I b \<and> s' = s\<lparr>builder_state := b1\<rparr>\<lparr>builder_state := b\<rparr>))"
        by (rule concat_step [OF B n]) (use b1 es in auto)
      then show "leads t (do { (e, s) \<leftarrow> building (createConcat_list B r) s1;
          if isConcrete e then do { s \<leftarrow> clear_loop a [0..<n] s; Some (None, s) } else Some (Some e, s) }) ?Q"
        unfolding r
      proof (rule leads_bind_pair)
        fix e s2
        assume "case (e, s2) of (e, s') \<Rightarrow> (\<forall>\<rho>\<in>W. den dv \<rho> e = Some (BV (n * 8) (getMemValue (V \<rho>) a n))) \<and>
          (\<exists>b. I b \<and> s' = s\<lparr>builder_state := b1\<rparr>\<lparr>builder_state := b\<rparr>)"
        then obtain b where e: "\<forall>\<rho>\<in>W. den dv \<rho> e = Some (BV (n * 8) (getMemValue (V \<rho>) a n))" and b: "I b"
          and s2: "s2 = s\<lparr>builder_state := b\<rparr>"
          by auto
        have kept: "kept s s2"
          using kept_built [OF s(1), of b] by (simp add: s2)
        show "leads t (if isConcrete e then do { s \<leftarrow> clear_loop a [0..<n] s2; Some (None, s) } else Some (Some e, s2)) ?Q"
        proof (cases "isConcrete e")
          case True
          have same: "V \<rho> (a + of_nat i) = V \<rho>0 (a + of_nat i)" if "\<rho> \<in> W" "i < n" for \<rho> i
          proof -
            have "getMemValue (V \<rho>) a n = getMemValue (V \<rho>0) a n"
              using concrete_same [OF True, of dv \<rho> \<rho>0] e that(1) \<rho>0 by simp
            then have "uint (V \<rho> (a + of_nat i)) = uint (V \<rho>0 (a + of_nat i))"
              unfolding getMemValue_bytes using that(2)
              by (metis bytes_value_byte [of i n "\<lambda>i. V \<rho> (a + of_nat i)"] bytes_value_byte [of i n "\<lambda>i. V \<rho>0 (a + of_nat i)"])
            then show ?thesis
              by (simp add: word_uint_eq_iff)
          qed
          have get: "get s2 = get s"
            by (simp add: s2 built)
          have "leads t (clear_loop a [0..<n] s2) (\<lambda>s'. kept s2 s' \<and> builder_state s' = builder_state s2 \<and>
              get s' = (\<lambda>b. if \<exists>i \<in> set [0..<n]. b = a + of_nat i then Some None else get s b))"
            unfolding get [symmetric] by (rule clear_loop_law) (use s t in \<open>auto simp: s2 built\<close>)
          then have "leads t (do { s \<leftarrow> clear_loop a [0..<n] s2; Some (None, s) }) ?Q"
          proof (rule leads_bind)
            fix s'
            assume s': "kept s2 s' \<and> builder_state s' = builder_state s2 \<and>
              get s' = (\<lambda>b. if \<exists>i \<in> set [0..<n]. b = a + of_nat i then Some None else get s b)"
            then have "tracks dv W \<rho>0 V (get s')"
              using tracks_clear_loop [OF s(3), of n a s'] same by blast
            with s' b kept show "leads t (Some (None, s')) ?Q"
              by (auto simp: s2 intro: kept_trans)
          qed
          with True show ?thesis
            by simp
        qed (use e b s kept in \<open>simp add: s2 built\<close>)
      qed
    qed (use c t in auto)
    with True show ?thesis
      by simp
  qed
qed (use t in auto)

lemma clear_range_law:
  assumes s: "ok s" "tracks dv W \<rho>0 V (get s)" and v: "\<And>\<rho> i. \<rho> \<in> W \<Longrightarrow> i < n \<Longrightarrow> v \<rho> i = v \<rho>0 i"
    and n: "n \<le> 2 ^ 64" and t: "t \<Longrightarrow> \<forall>i < n. get s (a + of_nat i) \<noteq> None"
  shows "leads t (clear_loop a [0..<n] s) (\<lambda>s'. kept s s' \<and> builder_state s' = builder_state s \<and>
    tracks dv W \<rho>0 (\<lambda>\<rho>. put_bytes a n (v \<rho>) (V \<rho>)) (get s'))"
proof (rule leads_mono [OF clear_loop_law [OF s(1), of t "[0..<n]" a]])
  fix s'
  assume s': "kept s s' \<and> builder_state s' = builder_state s \<and>
    get s' = (\<lambda>b. if \<exists>i \<in> set [0..<n]. b = a + of_nat i then Some None else get s b)"
  have cleared: "(\<exists>i \<in> set [0..<n]. b = a + of_nat i) \<longleftrightarrow> unat (b - a) < n" for b
    using n by (auto simp: unat_offset intro!: bexI [of _ "unat (b - a)"])
  show "kept s s' \<and> builder_state s' = builder_state s \<and> tracks dv W \<rho>0 (\<lambda>\<rho>. put_bytes a n (v \<rho>) (V \<rho>)) (get s')"
    using s(2) s' v unfolding tracks_def cleared put_bytes_def by auto
qed (use t in auto)

end

end
