(* ===== verification/MemorySound.thy ===== *)
theory MemorySound
  imports Shadow
begin

section \<open>Symbolic memory keeps its bytes apart\<close>

text \<open>
  The invariant of the page table: the two special pages have the rights that the constructor
  gave them, every other page that is mapped can be read and written, and no two of them share a
  cell. Then a byte of memory is a variable of its own, which is the interface \<open>shadow\<close>.
\<close>

subsection \<open>Cells\<close>

lemma read_write_cell:
  assumes "write_cell S p e = Some S'"
  shows "read_cell S' q = (if q = p then Some e else read_cell S q)" and "length S' = length S"
    and "rights (S' ! a) = rights (S ! a)"
proof -
  have S': "S' = S[area_of p := (S ! area_of p)\<lparr>cells := (cells (S ! area_of p))(cell_of p := Cell e)\<rparr>]"
    and p: "area_of p < length S" "cell_of p < area_length (S ! area_of p)"
      "rights (S ! area_of p) \<in> {PROT_READ_WRITE, HEAP}"
    using assms by (simp_all add: write_cell_def split: if_splits)
  show "length S' = length S"
    by (simp add: S')
  show "rights (S' ! a) = rights (S ! a)"
    using p unfolding S' by (cases "a = area_of p"; cases "a < length S") auto
  show "read_cell S' q = (if q = p then Some e else read_cell S q)"
    using p unfolding S' read_cell_def by (cases q; cases p) (auto simp: nth_list_update)
qed

lemma write_cell_works:
  "read_cell S p = Some e \<Longrightarrow> rights (S ! area_of p) \<in> {PROT_READ_WRITE, HEAP} \<Longrightarrow> \<exists>S'. write_cell S p e' = Some S'"
  by (auto simp: read_cell_def write_cell_def split: if_splits cell.splits)

lemma write_cell_refused:
  "rights (S ! area_of p) \<notin> {PROT_READ_WRITE, HEAP} \<Longrightarrow> write_cell S p e = None"
  by (simp add: write_cell_def)

lemma ptr_add_simps [simp]:
  "area_of (ptr_add p n) = area_of p" "cell_of (ptr_add p n) = cell_of p + n" "ptr_add p 0 = p"
  "ptr_add (ptr_add p n) k = ptr_add p (n + k)"
  by (simp_all add: ptr_add_def)

subsection \<open>Addresses\<close>

lemma page_size [simp]: "kPageSize = 4096" "unat kPageSize = 4096" "kPageMask = mask 12"
  by (simp_all add: kPageSize_def kPageShift_def kPageMask_def mask_eq_decr_exp)

lemma offset_less [simp]: "unat (addressToOffset a) < 4096"
proof -
  have "addressToOffset a = take_bit 12 a"
    by (simp add: addressToOffset_def take_bit_eq_mask)
  then show ?thesis
    by (simp add: unsigned_take_bit_eq take_bit_nat_less_exp [of 12, simplified])
qed

lemma address_eqI:
  assumes "addressToPageIndex a = addressToPageIndex b" "addressToOffset a = addressToOffset b"
  shows "a = b"
proof -
  have "push_bit 12 (drop_bit 12 a) + take_bit 12 a = push_bit 12 (drop_bit 12 b) + take_bit 12 b"
    using assms by (simp add: addressToPageIndex_def addressToOffset_def kPageShift_def take_bit_eq_mask)
  then show ?thesis
    by (simp add: bits_ident)
qed

subsection \<open>The invariant\<close>

definition page_readable :: "area list \<Rightarrow> pointer \<Rightarrow> bool" where
  "page_readable S p \<longleftrightarrow> (\<forall>k < 4096. read_cell S (ptr_add p k) \<noteq> None)"

definition can_write :: "area list \<Rightarrow> pointer \<Rightarrow> bool" where
  "can_write S p \<longleftrightarrow> area_of p < length S \<and> rights (S ! area_of p) \<in> {PROT_READ_WRITE, HEAP}"

definition apart :: "pointer \<Rightarrow> pointer \<Rightarrow> bool" where
  "apart p q \<longleftrightarrow> area_of p \<noteq> area_of q \<or> cell_of p + 4096 \<le> cell_of q \<or> cell_of q + 4096 \<le> cell_of p"

definition special_pages :: "area list \<Rightarrow> pointer \<Rightarrow> pointer \<Rightarrow> bool" where
  "special_pages S u z \<longleftrightarrow>
     area_of u < length S \<and> rights (S ! area_of u) = PROT_NONE \<and>
     area_of z < length S \<and> rights (S ! area_of z) = PROT_READ \<and>
     (\<forall>k < 4096. read_cell S (ptr_add z k) = Some None)"

definition memory_ok :: "memory \<Rightarrow> bool" where
  "memory_ok m \<longleftrightarrow> (\<exists>u z. unmapped_page m = Some u \<and> zero_page m = Some z \<and> special_pages (areas m) u z \<and>
     (\<forall>i p. page_table m i = Some p \<longrightarrow> p \<noteq> u \<longrightarrow> p \<noteq> z \<longrightarrow> can_write (areas m) p \<and> page_readable (areas m) p) \<and>
     (\<forall>i j p q. page_table m i = Some p \<longrightarrow> page_table m j = Some q \<longrightarrow> i \<noteq> j \<longrightarrow>
        can_write (areas m) p \<longrightarrow> can_write (areas m) q \<longrightarrow> apart p q))"

definition page_writable :: "memory \<Rightarrow> addr \<Rightarrow> bool" where
  "page_writable m a \<longleftrightarrow> (\<exists>p. getPage m a = Some p \<and> can_write (areas m) p)"

lemma memory_okE:
  assumes "memory_ok m"
  obtains u z where "unmapped_page m = Some u" "zero_page m = Some z" "special_pages (areas m) u z"
    "\<And>i p. page_table m i = Some p \<Longrightarrow> p \<noteq> u \<Longrightarrow> p \<noteq> z \<Longrightarrow> can_write (areas m) p \<and> page_readable (areas m) p"
    "\<And>i j p q. page_table m i = Some p \<Longrightarrow> page_table m j = Some q \<Longrightarrow> i \<noteq> j \<Longrightarrow>
        can_write (areas m) p \<Longrightarrow> can_write (areas m) q \<Longrightarrow> apart p q"
  using assms unfolding memory_ok_def by blast

lemma special_not_writable:
  "special_pages S u z \<Longrightarrow> \<not> can_write S u \<and> \<not> can_write S z"
  by (simp add: special_pages_def can_write_def)

text \<open>A pointer for each byte, and what can be read through it.\<close>

lemma getExprPtr_some: "memory_ok m \<Longrightarrow> \<exists>p. getExprPtrFromMem m a = Some p"
  by (erule memory_okE) (simp add: getExprPtrFromMem_def split: option.splits)

lemma getExprPtr_writable:
  assumes m: "memory_ok m" and p: "getExprPtrFromMem m a = Some p"
  shows "rights (areas m ! area_of p) \<in> {PROT_READ_WRITE, HEAP} \<longleftrightarrow> page_writable m a"
proof -
  obtain u z where uz: "zero_page m = Some z" "special_pages (areas m) u z"
    "\<And>i p. page_table m i = Some p \<Longrightarrow> p \<noteq> u \<Longrightarrow> p \<noteq> z \<Longrightarrow> can_write (areas m) p"
    using m by (rule memory_okE) blast
  show ?thesis
  proof (cases "getPage m a")
    case None
    with p uz show ?thesis
      by (auto simp: getExprPtrFromMem_def page_writable_def special_pages_def)
  next
    case (Some q)
    then have "area_of q < length (areas m)"
      using uz(3) [of "addressToPageIndex a" q] uz(2) by (auto simp: getPage_def special_pages_def can_write_def)
    with Some p show ?thesis
      by (auto simp: getExprPtrFromMem_def page_writable_def can_write_def)
  qed
qed

lemma writable_read:
  assumes m: "memory_ok m" and a: "page_writable m a"
  shows "getExprFromMem m a \<noteq> None"
proof -
  obtain u z where uz: "special_pages (areas m) u z"
    "\<And>i p. page_table m i = Some p \<Longrightarrow> p \<noteq> u \<Longrightarrow> p \<noteq> z \<Longrightarrow> page_readable (areas m) p"
    using m by (rule memory_okE) blast
  obtain p where p: "getPage m a = Some p" "can_write (areas m) p"
    using a by (auto simp: page_writable_def)
  then have "page_readable (areas m) p"
    using uz special_not_writable [OF uz(1)] unfolding getPage_def by metis
  with p show ?thesis
    by (simp add: getExprFromMem_def getExprPtrFromMem_def page_readable_def)
qed

lemma pointers_apart:
  assumes m: "memory_ok m" and a: "page_writable m a" and p: "getExprPtrFromMem m a = Some p" "getExprPtrFromMem m b = Some p"
  shows "a = b"
proof -
  have b: "page_writable m b"
    using getExprPtr_writable [OF m p(1)] getExprPtr_writable [OF m p(2)] a by simp
  obtain p1 p2 where pages: "getPage m a = Some p1" "getPage m b = Some p2" "can_write (areas m) p1" "can_write (areas m) p2"
    using a b by (auto simp: page_writable_def)
  have p: "area_of p1 = area_of p2"
    "cell_of p1 + unat (addressToOffset a) = cell_of p2 + unat (addressToOffset b)"
    using p pages by (auto simp: getExprPtrFromMem_def ptr_add_def)
  have "addressToPageIndex a = addressToPageIndex b"
  proof (rule ccontr)
    assume "addressToPageIndex a \<noteq> addressToPageIndex b"
    then have "apart p1 p2"
      using m pages unfolding getPage_def by (metis memory_okE)
    with p show False
      using offset_less [of a] offset_less [of b] by (simp add: apart_def)
  qed
  moreover from this have "addressToOffset a = addressToOffset b"
  proof -
    have "p1 = p2"
      using pages \<open>addressToPageIndex a = addressToPageIndex b\<close> by (simp add: getPage_def)
    with p(2) show ?thesis
      by (simp add: word_unat_eq_iff)
  qed
  ultimately show ?thesis
    by (rule address_eqI)
qed

subsection \<open>One byte\<close>

text \<open>The invariant and what can be written do not depend on the contents.\<close>

lemma memory_ok_write:
  assumes m: "memory_ok m" and p: "write_cell (areas m) p e = Some S"
  shows "memory_ok (m\<lparr>areas := S\<rparr>)" and "page_writable (m\<lparr>areas := S\<rparr>) = page_writable m"
proof -
  note wr = read_write_cell [OF p]
  have cw: "can_write S q \<longleftrightarrow> can_write (areas m) q" for q
    by (simp add: can_write_def wr)
  have pr: "page_readable (areas m) q \<Longrightarrow> page_readable S q" for q
    by (simp add: page_readable_def wr)
  have rp: "rights (areas m ! area_of p) \<in> {PROT_READ_WRITE, HEAP}"
    using p write_cell_refused by fastforce
  obtain u z where uz: "unmapped_page m = Some u" "zero_page m = Some z" "special_pages (areas m) u z"
    "\<And>i p. page_table m i = Some p \<Longrightarrow> p \<noteq> u \<Longrightarrow> p \<noteq> z \<Longrightarrow> can_write (areas m) p \<and> page_readable (areas m) p"
    "\<And>i j p q. page_table m i = Some p \<Longrightarrow> page_table m j = Some q \<Longrightarrow> i \<noteq> j \<Longrightarrow>
        can_write (areas m) p \<Longrightarrow> can_write (areas m) q \<Longrightarrow> apart p q"
    using m by (rule memory_okE) blast
  have "special_pages S u z"
    using uz(3) rp unfolding special_pages_def wr by auto
  with uz show "memory_ok (m\<lparr>areas := S\<rparr>)"
    unfolding memory_ok_def by (simp add: cw) (blast intro: pr)
  show "page_writable (m\<lparr>areas := S\<rparr>) = page_writable m"
    by (simp add: page_writable_def getPage_def cw fun_eq_iff)
qed

lemma write_byte:
  assumes m: "memory_ok m" and a: "page_writable m a" and p: "getExprPtrFromMem m a = Some p"
  obtains S where "write_cell (areas m) p e = Some S" "memory_ok (m\<lparr>areas := S\<rparr>)"
    "page_writable (m\<lparr>areas := S\<rparr>) = page_writable m"
    "getExprFromMem (m\<lparr>areas := S\<rparr>) = (getExprFromMem m)(a := Some e)"
proof -
  have rights: "rights (areas m ! area_of p) \<in> {PROT_READ_WRITE, HEAP}"
    using getExprPtr_writable [OF m p] a by simp
  obtain e0 where "read_cell (areas m) p = Some e0"
    using writable_read [OF m a] p by (auto simp: getExprFromMem_def)
  then obtain S where S: "write_cell (areas m) p e = Some S"
    using write_cell_works [OF _ rights] by blast
  have ptr: "getExprPtrFromMem (m\<lparr>areas := S\<rparr>) b = getExprPtrFromMem m b" for b
    by (simp add: getExprPtrFromMem_def getPage_def split: option.split)
  have "getExprFromMem (m\<lparr>areas := S\<rparr>) b = ((getExprFromMem m)(a := Some e)) b" for b
  proof (cases "b = a")
    case False
    obtain q where q: "getExprPtrFromMem m b = Some q"
      using getExprPtr_some [OF m] by blast
    then have "q \<noteq> p"
      using pointers_apart [OF m a p, of b] False by auto
    with False q show ?thesis
      by (simp add: getExprFromMem_def ptr read_write_cell(1) [OF S])
  qed (simp add: getExprFromMem_def ptr p read_write_cell(1) [OF S])
  then show ?thesis
    by (intro that [OF S memory_ok_write [OF m S]] ext)
qed

lemma clear_byte:
  assumes m: "memory_ok m" and a: "getExprFromMem m a \<noteq> None"
  obtains m' where "clearExprFromMem a m = Some m'" "memory_ok m'" "page_writable m' = page_writable m"
    "getExprFromMem m' = (getExprFromMem m)(a := Some None)"
proof -
  obtain p where p: "getExprPtrFromMem m a = Some p"
    using getExprPtr_some [OF m] by blast
  then obtain e where e: "read_cell (areas m) p = Some e"
    using a by (auto simp: getExprFromMem_def)
  show ?thesis
  proof (cases e)
    case None
    then have "getExprFromMem m = (getExprFromMem m)(a := Some None)"
      using p e by (auto simp: getExprFromMem_def)
    moreover have "clearExprFromMem a m = Some m"
      using None p e by (simp add: clearExprFromMem_def)
    ultimately show ?thesis
      by (intro that [OF _ m refl])
  next
    case (Some x)
    have "page_writable m a"
    proof (rule ccontr)
      assume no: "\<not> page_writable m a"
      obtain u z where uz: "zero_page m = Some z" "special_pages (areas m) u z"
        "\<And>i p. page_table m i = Some p \<Longrightarrow> p \<noteq> u \<Longrightarrow> p \<noteq> z \<Longrightarrow> can_write (areas m) p"
        using m by (rule memory_okE) blast
      have "area_of p = area_of u \<or> (\<exists>k < 4096. p = ptr_add z k)"
      proof (cases "getPage m a")
        case None
        then have "p = ptr_add z 0"
          using p uz(1) by (simp add: getExprPtrFromMem_def)
        then show ?thesis
          by fastforce
      next
        case (Some q)
        then have "q = u \<or> q = z"
          using no uz(3) by (auto simp: page_writable_def getPage_def)
        then show ?thesis
          using Some p offset_less [of a] unfolding getExprPtrFromMem_def by fastforce
      qed
      then show False
        using uz(2) e Some by (auto simp: special_pages_def read_cell_def split: if_splits)
    qed
    then obtain S where S: "write_cell (areas m) p None = Some S" "memory_ok (m\<lparr>areas := S\<rparr>)"
      "page_writable (m\<lparr>areas := S\<rparr>) = page_writable m"
      "getExprFromMem (m\<lparr>areas := S\<rparr>) = (getExprFromMem m)(a := Some None)"
      using write_byte [OF m _ p] by blast
    show ?thesis
      by (rule that [OF _ S(2-4)]) (simp add: clearExprFromMem_def p e Some S(1))
  qed
qed

lemma set_byte:
  assumes m: "memory_ok m" and a: "page_writable m a"
  obtains m' where "setExprToMem a (Some x) m = Some m'" "memory_ok m'" "page_writable m' = page_writable m"
    "getExprFromMem m' = (getExprFromMem m)(a := Some (Some x))"
proof -
  obtain m1 where m1: "clearExprFromMem a m = Some m1" "memory_ok m1" "page_writable m1 = page_writable m"
    "getExprFromMem m1 = (getExprFromMem m)(a := Some None)"
    using clear_byte [OF m writable_read [OF m a]] by blast
  obtain p where p: "getExprPtrFromMem m1 a = Some p"
    using getExprPtr_some [OF m1(2)] by blast
  with m1 a obtain S where S: "write_cell (areas m1) p (Some x) = Some S" "memory_ok (m1\<lparr>areas := S\<rparr>)"
    "page_writable (m1\<lparr>areas := S\<rparr>) = page_writable m1"
    "getExprFromMem (m1\<lparr>areas := S\<rparr>) = (getExprFromMem m1)(a := Some (Some x))"
    using write_byte [OF m1(2), of a p "Some x"] by (metis (no_types))
  with m1 p that [of "m1\<lparr>areas := S\<rparr>"] show ?thesis
    by (simp add: setExprToMem_def)
qed

lemma set_byte_refused:
  assumes m: "memory_ok m" and a: "\<not> page_writable m a"
  shows "setExprToMem a (Some x) m = None"
proof (cases "clearExprFromMem a m")
  case (Some m1)
  then have "getExprFromMem m a \<noteq> None"
    by (auto simp: clearExprFromMem_def getExprFromMem_def split: Option.bind_splits)
  then have m1: "memory_ok m1" "page_writable m1 = page_writable m"
    using clear_byte [OF m] Some by (metis option.sel)+
  obtain p where p: "getExprPtrFromMem m1 a = Some p"
    using getExprPtr_some [OF m1(1)] by blast
  then have "write_cell (areas m1) p (Some x) = None"
    using getExprPtr_writable [OF m1(1) p] m1(2) a by (intro write_cell_refused) simp
  with Some p show ?thesis
    by (simp add: setExprToMem_def)
qed (simp add: setExprToMem_def)

lemma clear_byte_refused: "getExprFromMem m a = None \<Longrightarrow> clearExprFromMem a m = None"
  by (auto simp: getExprFromMem_def clearExprFromMem_def split: Option.bind_splits)

subsection \<open>Memory as a store of expressions\<close>

definition same_but_memory :: "'z expr_state_scheme \<Rightarrow> 'z expr_state_scheme \<Rightarrow> bool" where
  "same_but_memory s s' \<longleftrightarrow> (\<exists>m b. s' = s\<lparr>g_memory := m, builder_state := b\<rparr>)"

interpretation mem: shadow "\<lambda>s. memory_ok (g_memory s)" "\<lambda>s. getExprFromMem (g_memory s)"
  "\<lambda>s. page_writable (g_memory s)" same_but_memory "\<lambda>a. on_memory (clearExprFromMem a)"
  "\<lambda>a e. on_memory (setExprToMem a (Some e))" "\<lambda>a is s. isSymbolicMem_loop (g_memory s) a is"
  "\<lambda>a is. on_memory (clearExprFromMem_loop a is)" setExprToMem_loop
  getExprFromMem_loop
proof (unfold_locales, goal_cases)
  case (1 s a)
  then show ?case
    by (rule clear_byte) (auto simp: on_memory_def same_but_memory_def intro!: exI [of _ "builder_state s"])
next
  case (3 s a e)
  then show ?case
    by (rule set_byte [where x = e]) (auto simp: on_memory_def same_but_memory_def intro!: exI [of _ "builder_state s"])
next
  case (6 s)
  show ?case
    by (auto simp: same_but_memory_def intro!: exI [of _ "g_memory s"] exI [of _ "builder_state s"])
next
  case (7 s1 s2 s3)
  then show ?case
    by (auto simp: same_but_memory_def) blast
next
  case (11 s b)
  show ?case
    unfolding same_but_memory_def by (rule exI [of _ "g_memory s"], rule exI [of _ b]) simp
qed (auto simp: on_memory_def clear_byte_refused set_byte_refused writable_read same_but_memory_def
    split: Option.bind_splits option.splits)

lemmas mem_kept_def = mem.kept_def

lemma read_range_mem:
  "getExprFromMem_range B pm a n = mem.read_range B (\<lambda>i. pm (a + of_nat i)) a n"
  unfolding fun_eq_iff getExprFromMem_range_def mem.read_range_def isSymbolicMem_def clearExprFromMem_range_def
  by simp

definition memory_holds ::
  "bool \<Rightarrow> assignment set \<Rightarrow> assignment \<Rightarrow> (assignment \<Rightarrow> addr \<Rightarrow> 8 word) \<Rightarrow> (bst \<Rightarrow> bool) \<Rightarrow>
   'z expr_state_scheme \<Rightarrow> bool" where
  "memory_holds dv W \<rho>0 V I s \<longleftrightarrow> memory_ok (g_memory s) \<and> I (builder_state s) \<and>
     tracks dv W \<rho>0 V (getExprFromMem (g_memory s))"

definition same_pages :: "'z expr_state_scheme \<Rightarrow> 'z expr_state_scheme \<Rightarrow> bool" where
  "same_pages s s' \<longleftrightarrow> same_but_memory s s' \<and> page_writable (g_memory s') = page_writable (g_memory s) \<and>
     (\<forall>a. getExprFromMem (g_memory s') a = None \<longleftrightarrow> getExprFromMem (g_memory s) a = None)"

lemma same_pages_refl [simp]: "same_pages s s"
  by (simp add: same_pages_def mem.same_refl)

lemma same_pages_trans: "same_pages s1 s2 \<Longrightarrow> same_pages s2 s3 \<Longrightarrow> same_pages s1 s3"
  unfolding same_pages_def using mem.same_trans by auto

lemma load_law:
  assumes "builder_on t dv W I B" "\<rho>0 \<in> W" "memory_holds dv W \<rho>0 V I s"
    and "t \<Longrightarrow> \<forall>i < n. getExprFromMem (g_memory s) (a + of_nat i) \<noteq> None"
  shows "leads t (getExprFromMem_range B (V \<rho>0) a n s) (\<lambda>(r, s'). same_pages s s' \<and> memory_holds dv W \<rho>0 V I s' \<and>
    (case r of
       None \<Rightarrow> \<forall>i < n. getExprFromMem (g_memory s') (a + of_nat i) = Some None \<and> (\<forall>\<rho>\<in>W. V \<rho> (a + of_nat i) = V \<rho>0 (a + of_nat i))
     | Some e \<Rightarrow> \<forall>\<rho>\<in>W. den dv \<rho> e = Some (BV (n * 8) (getMemValue (V \<rho>) a n))))"
  unfolding read_range_mem
  by (rule leads_mono [OF mem.read_range_law [OF assms(1), of s \<rho>0 V n "\<lambda>i. V \<rho>0 (a + of_nat i)" a]])
    (use assms in \<open>auto simp: memory_holds_def same_pages_def mem_kept_def split: option.splits intro: tracks_None\<close>)

lemma store_law:
  assumes B: "builder_on t dv W I B" and s: "memory_holds dv W \<rho>0 V I s"
    and e: "case e of
        None \<Rightarrow> \<forall>\<rho>\<in>W. \<forall>i < n. byte_of (x \<rho>) i = byte_of (x \<rho>0) i
      | Some e \<Rightarrow> n * 8 \<le> m \<and> (\<forall>\<rho>\<in>W. den dv \<rho> e = Some (BV m (x \<rho>)))"
    and n: "n \<le> 2 ^ 64" and t: "t \<Longrightarrow> \<forall>i < n. page_writable (g_memory s) (a + of_nat i)"
  shows "leads t (setExprToMem_range B a n e s) (\<lambda>s'. same_pages s s' \<and>
    memory_holds dv W \<rho>0 (\<lambda>\<rho>. put_bytes a n (byte_of (x \<rho>)) (V \<rho>)) I s')"
proof (cases e)
  case None
  have "leads t (on_memory (clearExprFromMem_loop a [0..<n]) s) (\<lambda>s'. mem.kept s s' \<and> builder_state s' = builder_state s \<and>
      tracks dv W \<rho>0 (\<lambda>\<rho>. put_bytes a n (byte_of (x \<rho>)) (V \<rho>)) (getExprFromMem (g_memory s')))"
    by (rule mem.clear_range_law) (use s e n t None in \<open>auto simp: memory_holds_def writable_read\<close>)
  then show ?thesis
    unfolding None setExprToMem_range_def option.case clearExprFromMem_range_def
    by (rule leads_mono) (use s in \<open>auto simp: mem_kept_def memory_holds_def same_pages_def\<close>)
next
  case (Some e')
  have "leads t (setExprToMem_loop B a e' [0..<n] s) (\<lambda>s'. mem.kept s s' \<and> I (builder_state s') \<and>
      tracks dv W \<rho>0 (\<lambda>\<rho>. put_bytes a n (byte_of (x \<rho>)) (V \<rho>)) (getExprFromMem (g_memory s')))"
    by (rule mem.put_loop_law [OF B]) (use s e n t Some in \<open>auto simp: memory_holds_def\<close>)
  then show ?thesis
    unfolding Some setExprToMem_range_def option.case
    by (rule leads_mono) (use s in \<open>auto simp: mem_kept_def memory_holds_def same_pages_def\<close>)
qed

text \<open>What was written is what is there.\<close>

lemma getMemValue_put_bytes:
  assumes "in_range (8 * n) v" "n \<le> 2 ^ 64"
  shows "getMemValue (put_bytes a n (byte_of v) f) a n = v"
proof -
  have "getMemValue (put_bytes a n (byte_of v) f) a n = bytes_value (byte_of v) n"
    unfolding getMemValue_bytes by (rule bytes_value_cong) (use assms(2) in \<open>simp add: put_bytes_def unat_offset\<close>)
  with assms(1) show ?thesis
    by (simp add: bytes_value_byte_of)
qed

text \<open>What is stored is read back.\<close>

lemma store_load_law:
  assumes B: "builder_on t dv W I B" "\<rho>0 \<in> W" and s: "memory_holds dv W \<rho>0 V I s"
    and e: "\<forall>\<rho>\<in>W. den dv \<rho> e = Some (BV (n * 8) (x \<rho>))" and n: "n \<le> 2 ^ 64"
    and t: "t \<Longrightarrow> \<forall>i < n. page_writable (g_memory s) (a + of_nat i)"
    and V': "V' = (\<lambda>\<rho>. put_bytes a n (byte_of (x \<rho>)) (V \<rho>))"
  shows "leads t (do { s \<leftarrow> setExprToMem_range B a n (Some e) s; getExprFromMem_range B (V' \<rho>0) a n s })
    (\<lambda>(r, s'). memory_holds dv W \<rho>0 V' I s' \<and>
      (case r of None \<Rightarrow> \<forall>\<rho>\<in>W. x \<rho> = x \<rho>0 | Some r \<Rightarrow> \<forall>\<rho>\<in>W. den dv \<rho> r = Some (BV (n * 8) (x \<rho>))))"
proof (rule leads_bind)
  show "leads t (setExprToMem_range B a n (Some e) s) (\<lambda>s'. same_pages s s' \<and> memory_holds dv W \<rho>0 V' I s')"
    unfolding V' by (rule store_law [OF B(1) s _ n t, where m = "n * 8"]) (use e in simp_all)
next
  fix s1
  assume s1: "same_pages s s1 \<and> memory_holds dv W \<rho>0 V' I s1"
  have x: "getMemValue (V' \<rho>) a n = x \<rho>" if "\<rho> \<in> W" for \<rho>
    unfolding V' by (rule getMemValue_put_bytes) (use e that den_BV n in \<open>auto simp: mult.commute\<close>)
  have t': "\<forall>i<n. getExprFromMem (g_memory s1) (a + of_nat i) \<noteq> None" if t
    using t [OF that] s s1 by (simp add: same_pages_def memory_holds_def writable_read)
  show "leads t (getExprFromMem_range B (V' \<rho>0) a n s1) (\<lambda>(r, s'). memory_holds dv W \<rho>0 V' I s' \<and>
      (case r of None \<Rightarrow> \<forall>\<rho>\<in>W. x \<rho> = x \<rho>0 | Some r \<Rightarrow> \<forall>\<rho>\<in>W. den dv \<rho> r = Some (BV (n * 8) (x \<rho>))))"
  proof (rule leads_mono [OF load_law [OF B _ t']])
    fix p
    assume p: "case p of (r, s') \<Rightarrow> same_pages s1 s' \<and> memory_holds dv W \<rho>0 V' I s' \<and>
      (case r of
         None \<Rightarrow> \<forall>i < n. getExprFromMem (g_memory s') (a + of_nat i) = Some None \<and> (\<forall>\<rho>\<in>W. V' \<rho> (a + of_nat i) = V' \<rho>0 (a + of_nat i))
       | Some e \<Rightarrow> \<forall>\<rho>\<in>W. den dv \<rho> e = Some (BV (n * 8) (getMemValue (V' \<rho>) a n)))"
    obtain r s2 where rs: "p = (r, s2)"
      by (cases p)
    have "x \<rho> = x \<rho>0" if "\<rho> \<in> W" "r = None" for \<rho>
    proof -
      have "getMemValue (V' \<rho>) a n = getMemValue (V' \<rho>0) a n"
        using p that unfolding rs getMemValue_bytes by (auto intro: bytes_value_cong)
      with x that B(2) show ?thesis
        by simp
    qed
    then show "case p of (r, s') \<Rightarrow> memory_holds dv W \<rho>0 V' I s' \<and>
      (case r of None \<Rightarrow> \<forall>\<rho>\<in>W. x \<rho> = x \<rho>0 | Some r \<Rightarrow> \<forall>\<rho>\<in>W. den dv \<rho> r = Some (BV (n * 8) (x \<rho>)))"
      using p x unfolding rs by (auto split: option.splits)
  qed (use s1 in simp)
qed

subsection \<open>New pages\<close>

lemma map_pages_lookup:
  "unat i + n \<le> 2 ^ 64 \<Longrightarrow> map_pages p n i j T k =
     (if unat i \<le> unat k \<and> unat k < unat i + n then p (j + (unat k - unat i)) else T k)"
proof (induction n arbitrary: i j T)
  case (Suc n)
  show ?case
  proof (cases "n = 0")
    case True
    then show ?thesis
      by (auto simp: word_unat_eq_iff)
  next
    case False
    then have i: "unat (i + 1) = Suc (unat i)"
      using Suc.prems by (simp add: unat_word_ariths(1) One_nat_def)
    have "map_pages p (Suc n) i j T k =
        (if Suc (unat i) \<le> unat k \<and> unat k < Suc (unat i) + n then p (Suc j + (unat k - Suc (unat i))) else (T(i := p j)) k)"
      using Suc.prems unfolding map_pages.simps by (subst Suc.IH) (simp_all only: i add_Suc add_Suc_right)
    moreover have "unat k = unat i \<longleftrightarrow> k = i"
      by (simp add: word_unat_eq_iff)
    ultimately show ?thesis
      by (auto simp: Suc_diff_le not_less_eq_eq less_Suc_eq_le) (rule arg_cong [of _ _ p], simp)
  qed
qed auto

lemma unat_address: "unat (a :: addr) < 2 ^ 64"
  using unsigned_less [of a, where 'a = nat] by simp

lemma unat_plus: "unat (a :: addr) + n < 2 ^ 64 \<Longrightarrow> unat (a + of_nat n) = unat a + n"
  by (simp add: unat_word_ariths(1) unat_offset)

lemma page_index: "unat (addressToPageIndex a) = unat a div 4096" "unat (addressToPageIndex a) < 2 ^ 52"
proof -
  show i: "unat (addressToPageIndex a) = unat a div 4096"
    by (simp add: addressToPageIndex_def kPageShift_def drop_bit_eq_div unat_div_distrib)
  show "unat (addressToPageIndex a) < 2 ^ 52"
    using unat_address [of a] unfolding i by (simp add: div_less_iff_less_mult)
qed

lemma set_pages_simps [simp]:
  "areas (set_pages p a b m) = areas m" "unmapped_page (set_pages p a b m) = unmapped_page m"
  "zero_page (set_pages p a b m) = zero_page m" "brk_end (set_pages p a b m) = brk_end m"
  by (simp_all add: set_pages_def)

lemma set_pages_lookup:
  "page_table (set_pages p (addressToPageIndex a) (addressToPageIndex b) m) k =
     (if addressToPageIndex a \<le> k \<and> k \<le> addressToPageIndex b
      then p (unat k - unat (addressToPageIndex a)) else page_table m k)"
proof -
  have "unat (addressToPageIndex a) + (Suc (unat (addressToPageIndex b)) - unat (addressToPageIndex a)) \<le> 2 ^ 64"
    using page_index(2) [of a] page_index(2) [of b] by simp
  note lookup = map_pages_lookup [OF this]
  show ?thesis
    unfolding set_pages_def by (simp add: lookup word_le_nat_alt) (auto simp: set_pages_def)
qed

lemma roundPageDown_index [simp]: "addressToPageIndex (roundPageDown a) = addressToPageIndex a"
proof -
  have "unat (a div 4096 * 4096) = unat a div 4096 * 4096"
    using unat_address [of a] le_less_trans [OF div_times_less_eq_dividend, of "unat a" "2 ^ 64" 4096]
    by (simp add: unat_word_ariths(2) unat_div_distrib)
  then show ?thesis
    by (simp add: word_unat_eq_iff page_index roundPageDown_def roundDown_def)
qed

lemma roundPageDown_unat: "unat (roundPageDown a) = 4096 * unat (addressToPageIndex a)"
  using unat_address [of a] le_less_trans [OF div_times_less_eq_dividend, of "unat a" "2 ^ 64" 4096]
  by (simp add: roundPageDown_def roundDown_def page_index unat_word_ariths(2) unat_div_distrib mult.commute)

lemma roundPageDown_page: "roundPageDown (roundPageDown a) = roundPageDown a"
  by (simp add: word_unat_eq_iff roundPageDown_unat)

lemma page_length:
  assumes le: "addressToPageIndex a \<le> addressToPageIndex b"
    and len: "roundPageDown b - roundPageDown a + 4096 \<noteq> 0"
  shows "unat (roundPageDown b - roundPageDown a + 4096) =
    4096 * Suc (unat (addressToPageIndex b) - unat (addressToPageIndex a))"
proof -
  have ab: "unat (roundPageDown a) \<le> unat (roundPageDown b)"
    using le by (simp add: roundPageDown_unat word_le_nat_alt)
  then have diff: "unat (roundPageDown b - roundPageDown a) = unat (roundPageDown b) - unat (roundPageDown a)"
    by (simp add: unat_sub_if' word_le_nat_alt)
  have "unat (roundPageDown b) - unat (roundPageDown a) + 4096 \<le> 2 ^ 64"
    using page_index(2) [of b] by (simp add: roundPageDown_unat)
  moreover have "unat (roundPageDown b) - unat (roundPageDown a) + 4096 \<noteq> 2 ^ 64"
  proof
    assume eq: "unat (roundPageDown b) - unat (roundPageDown a) + 4096 = 2 ^ 64"
    have "unat (roundPageDown b - roundPageDown a + 4096) = 0"
      unfolding unat_word_ariths(1) diff using eq by simp
    with len show False
      by (simp add: unat_eq_0)
  qed
  ultimately have "unat (roundPageDown b - roundPageDown a + 4096) = unat (roundPageDown b) - unat (roundPageDown a) + 4096"
    unfolding unat_word_ariths(1) diff by simp
  then show ?thesis
    by (simp add: roundPageDown_unat diff_mult_distrib2)
qed

lemma new_area_read:
  "read_cell (S @ [A]) p = (if area_of p = length S
     then if cell_of p < area_length A \<and> rights A \<noteq> PROT_NONE
       then case cells A (cell_of p) of Cell e \<Rightarrow> Some e | _ \<Rightarrow> None else None
     else read_cell S p)"
  by (auto simp: read_cell_def nth_append)

lemma mapped_areas:
  assumes "memory_ok m" "page_table m i = Some p"
  shows "area_of p < length (areas m)"
  using assms by (elim memory_okE) (metis can_write_def special_pages_def)

text \<open>
  Putting a fresh area of pages into the table: the new pages are writable and hold nothing, all
  others keep what they have.
\<close>

lemma new_pages:
  assumes m: "memory_ok m"
    and A: "rights A \<in> {PROT_READ_WRITE, HEAP}" "\<And>i. cells A i = Cell None"
      "addressToPageIndex a \<le> addressToPageIndex b \<Longrightarrow>
        4096 * Suc (unat (addressToPageIndex b) - unat (addressToPageIndex a)) \<le> area_length A"
  defines "m' \<equiv> set_pages (page_of (Ptr (length (areas m)) 0)) (addressToPageIndex a) (addressToPageIndex b)
    (m\<lparr>areas := areas m @ [A]\<rparr>)"
  shows "memory_ok m'"
    and "addressToPageIndex a \<le> addressToPageIndex x \<Longrightarrow> addressToPageIndex x \<le> addressToPageIndex b \<Longrightarrow>
      getExprFromMem m' x = Some None \<and> page_writable m' x"
    and "\<not> (addressToPageIndex a \<le> addressToPageIndex x \<and> addressToPageIndex x \<le> addressToPageIndex b) \<Longrightarrow>
      getExprFromMem m' x = getExprFromMem m x \<and> page_writable m' x = page_writable m x"
proof -
  define N where "N k = 4096 * (unat k - unat (addressToPageIndex a))" for k :: addr
  define new where "new k \<longleftrightarrow> addressToPageIndex a \<le> k \<and> k \<le> addressToPageIndex b" for k
  have fields: "areas m' = areas m @ [A]" "unmapped_page m' = unmapped_page m" "zero_page m' = zero_page m"
    by (simp_all add: m'_def set_pages_def)
  have table: "page_table m' k = (if new k then Some (Ptr (length (areas m)) (N k)) else page_table m k)" for k
    unfolding m'_def set_pages_lookup by (simp add: N_def new_def page_of_def ptr_add_def mult.commute)
  have bound: "N k + 4096 \<le> area_length A" if "new k" for k
    using A(3) that unfolding new_def N_def word_le_nat_alt by (auto intro: order_trans [rotated])
  have cells: "read_cell (areas m') (Ptr (length (areas m)) (N k + j)) = Some None" if "new k" "j < 4096" for k j
    using bound [OF that(1)] that(2) A(1,2) by (auto simp: fields new_area_read)
  have old: "read_cell (areas m') p = read_cell (areas m) p" "can_write (areas m') p = can_write (areas m) p"
    "page_readable (areas m') p = page_readable (areas m) p"
    if "area_of p < length (areas m)" for p
    using that by (simp_all add: fields new_area_read can_write_def nth_append page_readable_def)
  have fresh: "can_write (areas m') (Ptr (length (areas m)) (N k))" "page_readable (areas m') (Ptr (length (areas m)) (N k))"
    if "new k" for k
    using A(1) cells [OF that] by (auto simp: fields can_write_def page_readable_def ptr_add_def)
  obtain u z where uz: "unmapped_page m = Some u" "zero_page m = Some z" "special_pages (areas m) u z"
    "\<And>i p. page_table m i = Some p \<Longrightarrow> p \<noteq> u \<Longrightarrow> p \<noteq> z \<Longrightarrow> can_write (areas m) p \<and> page_readable (areas m) p"
    "\<And>i j p q. page_table m i = Some p \<Longrightarrow> page_table m j = Some q \<Longrightarrow> i \<noteq> j \<Longrightarrow>
        can_write (areas m) p \<Longrightarrow> can_write (areas m) q \<Longrightarrow> apart p q"
    using m by (rule memory_okE) blast
  have "special_pages (areas m') u z"
    using uz(3) by (simp add: special_pages_def fields new_area_read nth_append)
  moreover have "can_write (areas m') p \<and> page_readable (areas m') p"
    if "page_table m' i = Some p" "p \<noteq> u" "p \<noteq> z" for i p
    using that uz(4) [of i p] fresh [of i] old(2,3) [of p] mapped_areas [OF m, of i p]
    by (auto simp: table split: if_splits)
  moreover have "apart p q"
    if pq: "page_table m' i = Some p" "page_table m' j = Some q" "i \<noteq> j" "can_write (areas m') p" "can_write (areas m') q"
    for i j p q
  proof (cases "new i \<and> new j")
    case True
    then have "unat i < unat j \<or> unat j < unat i"
      using pq(3) by (metis linorder_neqE_nat word_unat_eq_iff)
    with True pq(1,2) show ?thesis
      by (auto simp: table apart_def N_def new_def word_le_nat_alt)
  next
    case False
    then show ?thesis
      using pq uz(5) [of i p j q] mapped_areas [OF m, of i p] mapped_areas [OF m, of j q] old(2) [of p] old(2) [of q]
      by (auto simp: table apart_def split: if_splits)
  qed
  ultimately show "memory_ok m'"
    unfolding memory_ok_def fields using uz(1,2) by blast
  show "getExprFromMem m' x = Some None \<and> page_writable m' x"
    if "addressToPageIndex a \<le> addressToPageIndex x" "addressToPageIndex x \<le> addressToPageIndex b"
  proof -
    have x: "new (addressToPageIndex x)"
      using that by (simp add: new_def)
    then show ?thesis
      using cells [OF x offset_less] fresh(1) [OF x]
      by (simp add: getExprFromMem_def getExprPtrFromMem_def getPage_def table page_writable_def ptr_add_def)
  qed
  show "getExprFromMem m' x = getExprFromMem m x \<and> page_writable m' x = page_writable m x"
    if "\<not> (addressToPageIndex a \<le> addressToPageIndex x \<and> addressToPageIndex x \<le> addressToPageIndex b)"
  proof -
    have page: "getPage m' x = getPage m x"
      using that by (auto simp: getPage_def table new_def)
    then have ptr: "getExprPtrFromMem m' x = getExprPtrFromMem m x"
      by (simp add: getExprPtrFromMem_def fields split: option.split)
    have "area_of p < length (areas m)" if "getExprPtrFromMem m x = Some p" for p
      using that uz(2,3) mapped_areas [OF m, of "addressToPageIndex x"]
      by (auto simp: getExprPtrFromMem_def getPage_def special_pages_def split: option.splits)
    then have "getExprFromMem m' x = getExprFromMem m x"
      using getExprPtr_some [OF m, of x] old(1) by (auto simp: getExprFromMem_def ptr)
    moreover have "page_writable m' x = page_writable m x"
      using old(2) mapped_areas [OF m, of "addressToPageIndex x"] by (auto simp: page_writable_def page) (auto simp: getPage_def)
    ultimately show ?thesis ..
  qed
qed

text \<open>\<open>mmap\<close>: all bytes of the pages from the first address to the last one.\<close>

definition on_pages :: "addr \<Rightarrow> addr \<Rightarrow> addr \<Rightarrow> bool" where
  "on_pages a b x \<longleftrightarrow> addressToPageIndex a \<le> addressToPageIndex x \<and> addressToPageIndex x \<le> addressToPageIndex b"

lemma whole_pages_ge: "n \<le> whole_pages n"
  using mod_less_divisor [of 256 "n + 255"] div_mult_mod_eq [of "n + 255" 256] by (simp add: whole_pages_def)

lemma mmap_law:
  assumes m: "memory_ok m" and run: "mmap a b m = Some m'"
  shows "memory_ok m'"
    and "getExprFromMem m' x = (if on_pages a b x then Some None else getExprFromMem m x)"
    and "page_writable m' x \<longleftrightarrow> on_pages a b x \<or> page_writable m x"
proof -
  define n where "n = roundPageDown b - roundPageDown a + 4096"
  define A where "A = \<lparr>rights = PROT_READ_WRITE, area_length = whole_pages (unat n), cells = (\<lambda>_. Cell None)\<rparr>"
  have n: "n \<noteq> 0" and m': "m' = set_pages (page_of (Ptr (length (areas m)) 0)) (addressToPageIndex a) (addressToPageIndex b)
    (m\<lparr>areas := areas m @ [A]\<rparr>)"
    using run by (auto simp: mmap_def Let_def n_def A_def allocRWPages_def allocPages_def split: if_splits)
  have len: "4096 * Suc (unat (addressToPageIndex b) - unat (addressToPageIndex a)) \<le> area_length A"
    if "addressToPageIndex a \<le> addressToPageIndex b"
    using page_length [OF that] n whole_pages_ge [of "unat n"] by (simp add: A_def n_def)
  have A: "rights A \<in> {PROT_READ_WRITE, HEAP}" "\<And>i. cells A i = Cell None"
    by (simp_all add: A_def)
  note law = new_pages [OF m A len, folded m']
  show "memory_ok m'"
    by (rule law(1))
  show "getExprFromMem m' x = (if on_pages a b x then Some None else getExprFromMem m x)"
    "page_writable m' x \<longleftrightarrow> on_pages a b x \<or> page_writable m x"
    using law(2,3) [of x] unfolding on_pages_def by auto
qed

lemma mmap_works:
  assumes "addressToPageIndex a \<le> addressToPageIndex b"
    and "unat (addressToPageIndex b) - unat (addressToPageIndex a) < 2 ^ 31 - 1"
  shows "\<exists>m'. mmap a b m = Some m'"
proof -
  let ?d = "4096 * (unat (addressToPageIndex b) - unat (addressToPageIndex a))"
  have "unat (roundPageDown b - roundPageDown a) = ?d"
    using assms(1) by (simp add: unat_sub_if' word_le_nat_alt roundPageDown_unat diff_mult_distrib2)
  then have len: "unat (roundPageDown b - roundPageDown a + 4096) = ?d + 4096"
    using assms(2) unfolding unat_word_ariths(1) by simp
  then have "roundPageDown b - roundPageDown a + 4096 \<noteq> 0"
    by (auto simp flip: unat_eq_0)
  moreover have "unat (roundPageDown b - roundPageDown a + 4096) * 16 < 2 ^ 47"
    unfolding len using assms(2) by simp
  ultimately show ?thesis
    using len by (simp add: mmap_def Let_def allocRWPages_def allocPages_def)
qed

subsection \<open>Which addresses are readable\<close>

text \<open>
  \<open>isReadable\<close> asks for the pages from the one of the first address to the one of the address
  behind the last, so for a range that ends with a page also for the next page.
\<close>

lemma isReadable_loop_law:
  "unat page + 4096 * n \<le> unat end_addr \<Longrightarrow> unat end_addr < unat page + 4096 * Suc n \<Longrightarrow>
   unat end_addr + 4096 < 2 ^ 64 \<Longrightarrow>
   isReadable_loop m page end_addr = Some (\<forall>k \<le> n. \<not> isUnmappedAddress m (page + of_nat (4096 * k)))"
proof (induction n arbitrary: page)
  case 0
  have "unat (page + 4096) = unat page + 4096"
    using 0 by (simp add: unat_word_ariths(1))
  then have "end_addr < page + 4096" "\<not> end_addr < page"
    using 0 by (simp_all add: word_less_nat_alt)
  then show ?case
    by (subst isReadable_loop.simps, subst isReadable_loop.simps) simp
next
  case (Suc n)
  have next_page: "unat (page + 4096) = unat page + 4096"
    using Suc.prems by (simp add: unat_word_ariths(1))
  have "isReadable_loop m (page + 4096) end_addr =
      Some (\<forall>k \<le> n. \<not> isUnmappedAddress m (page + 4096 + of_nat (4096 * k)))"
    using Suc.prems by (intro Suc.IH) (simp_all add: next_page)
  moreover have "\<not> end_addr < page"
    using Suc.prems by (simp add: word_less_nat_alt)
  moreover have all: "(\<forall>k \<le> Suc n. P (page + of_nat (4096 * k))) \<longleftrightarrow>
      P page \<and> (\<forall>k \<le> n. P (page + 4096 + of_nat (4096 * k)))" for P
    using All_less_Suc2 [of "Suc n" "\<lambda>k. P (page + of_nat (4096 * k))"]
    by (simp add: less_Suc_eq_le distrib_left add.assoc)
  ultimately show ?case
    unfolding all [of "\<lambda>x. \<not> isUnmappedAddress m x"] by (subst isReadable_loop.simps) simp
qed

text \<open>All pages that the loop looks at, by their addresses.\<close>

lemma isReadable_law:
  assumes "unat a + n + 4096 < 2 ^ 64"
  shows "isReadable m a n = Some (\<forall>x. on_pages a (a + of_nat n) x \<longrightarrow> \<not> isUnmappedAddress m x)"
proof -
  let ?i = "unat (addressToPageIndex a)" and ?j = "unat (addressToPageIndex (a + of_nat n))"
  have end_addr: "unat (a + of_nat n) = unat a + n"
    using assms by (simp add: unat_word_ariths(1) unat_offset)
  have le: "?i \<le> ?j"
    unfolding page_index end_addr by (rule div_le_mono) simp
  have bounds: "unat (roundPageDown a) + 4096 * (?j - ?i) \<le> unat (a + of_nat n)"
    "unat (a + of_nat n) < unat (roundPageDown a) + 4096 * Suc (?j - ?i)"
  proof -
    have "4096 * ?j \<le> unat a + n" "unat a + n < 4096 * Suc ?j"
      unfolding page_index end_addr using mod_less_divisor [of 4096 "unat a + n"] div_mult_mod_eq [of "unat a + n" 4096]
      by simp_all
    with le show "unat (roundPageDown a) + 4096 * (?j - ?i) \<le> unat (a + of_nat n)"
      "unat (a + of_nat n) < unat (roundPageDown a) + 4096 * Suc (?j - ?i)"
      by (simp_all add: roundPageDown_unat end_addr)
  qed
  have pages: "unat (addressToPageIndex (roundPageDown a + of_nat (4096 * k))) = ?i + k" if "k \<le> ?j - ?i" for k
  proof -
    have "4096 * k + unat (roundPageDown a) \<le> unat a + n"
      using bounds(1) that end_addr by simp
    then have "unat (roundPageDown a + of_nat (4096 * k)) = unat (roundPageDown a) + 4096 * k"
      using assms by (intro unat_plus) simp
    then show ?thesis
      by (simp only: page_index(1) [of "roundPageDown a + of_nat (4096 * k)"]) (simp add: roundPageDown_unat)
  qed
  have "isReadable m a n = Some (\<forall>k \<le> ?j - ?i. \<not> isUnmappedAddress m (roundPageDown a + of_nat (4096 * k)))"
    unfolding isReadable_def by (rule isReadable_loop_law [OF bounds]) (use assms end_addr in simp)
  also have "(\<forall>k \<le> ?j - ?i. \<not> isUnmappedAddress m (roundPageDown a + of_nat (4096 * k))) \<longleftrightarrow>
      (\<forall>x. on_pages a (a + of_nat n) x \<longrightarrow> \<not> isUnmappedAddress m x)"
  proof safe
    fix x
    assume all: "\<forall>k \<le> ?j - ?i. \<not> isUnmappedAddress m (roundPageDown a + of_nat (4096 * k))"
      and x: "on_pages a (a + of_nat n) x" "isUnmappedAddress m x"
    let ?k = "unat (addressToPageIndex x) - ?i"
    have k: "?k \<le> ?j - ?i" "?i + ?k = unat (addressToPageIndex x)"
      using x(1) by (simp_all add: on_pages_def word_le_nat_alt diff_le_mono)
    then have "addressToPageIndex (roundPageDown a + of_nat (4096 * ?k)) = addressToPageIndex x"
      using pages [OF k(1)] by (simp add: word_unat_eq_iff)
    with all k(1) x(2) show False
      unfolding isUnmappedAddress_def getPage_def by metis
  next
    fix k
    assume "\<forall>x. on_pages a (a + of_nat n) x \<longrightarrow> \<not> isUnmappedAddress m x" "k \<le> ?j - ?i"
      "isUnmappedAddress m (roundPageDown a + of_nat (4096 * k))"
    then show False
      using pages [of k] le by (auto simp: on_pages_def word_le_nat_alt)
  qed
  finally show ?thesis .
qed

text \<open>An unmapped address is one that cannot be read.\<close>

lemma unmapped_faults: "memory_ok m \<Longrightarrow> isUnmappedAddress m a \<Longrightarrow> getExprFromMem m a = None"
  by (erule memory_okE)
    (simp add: isUnmappedAddress_def getExprFromMem_def getExprPtrFromMem_def special_pages_def read_cell_def)

lemma mapped_reads:
  assumes "memory_ok m" "\<not> isUnmappedAddress m a"
  shows "getExprFromMem m a \<noteq> None"
proof -
  obtain u z where uz: "unmapped_page m = Some u" "zero_page m = Some z" "special_pages (areas m) u z"
    "\<And>i p. page_table m i = Some p \<Longrightarrow> p \<noteq> u \<Longrightarrow> p \<noteq> z \<Longrightarrow> page_readable (areas m) p"
    using assms(1) by (rule memory_okE) blast
  have zero: "read_cell (areas m) (ptr_add z k) \<noteq> None" if "k < 4096" for k
    using uz(3) that by (simp add: special_pages_def)
  show ?thesis
  proof (cases "getPage m a")
    case None
    then show ?thesis
      using zero [of 0] by (simp add: getExprFromMem_def getExprPtrFromMem_def uz)
  next
    case (Some p)
    then have "p \<noteq> u"
      using assms(2) uz(1) by (simp add: isUnmappedAddress_def)
    with Some show ?thesis
      using zero [OF offset_less] uz(4) [of _ p] offset_less [of a]
      by (cases "p = z") (auto simp: getExprFromMem_def getExprPtrFromMem_def getPage_def page_readable_def)
  qed
qed

subsection \<open>Where the pages are mixed up\<close>

text \<open>
  \<open>mremap\<close> maps all pages of the new range to the first page of the new area, so the bytes at the
  same place of two pages are one byte.
\<close>

lemma mremap_aliases:
  assumes run: "mremap old_start old_size new_start new_size m = Some m'"
    and x: "on_pages new_start (new_start + new_size - 1) x" "on_pages new_start (new_start + new_size - 1) y"
      "addressToOffset x = addressToOffset y"
  shows "getExprPtrFromMem m' x = getExprPtrFromMem m' y"
proof -
  obtain new_page m1 where m': "m' = set_pages (\<lambda>_. Some new_page) (addressToPageIndex new_start)
      (addressToPageIndex (roundPageDown (new_start + new_size - 1))) m1"
    using run by (auto simp: mremap_def Let_def split: Option.bind_splits)
  have "getPage m' z = Some new_page" if "on_pages new_start (new_start + new_size - 1) z" for z
    using that unfolding m' getPage_def set_pages_lookup by (simp add: on_pages_def)
  with x show ?thesis
    by (simp add: getExprPtrFromMem_def)
qed

text \<open>Memory that \<open>brk\<close> gets from \<open>realloc\<close> is not initialised: the first access reads garbage.\<close>

lemma brk_garbage:
  assumes run: "brk (\<lambda>_. Garbage) a m = Some m'" and first: "brk_page m = None"
    and x: "on_pages (brk_start m) (roundPageUp a - 1) x"
      "\<not> on_pages (roundPageUp a) (brk_end m) x"
  shows "setExprToMem x e m' = None"
proof -
  obtain S page where S: "safeRealloc (\<lambda>_. Garbage) None (unat (roundPageUp a - brk_start m)) (areas m) = Some (page, S)"
    and m': "areas m' = S" "getPage m' x = page_of page (unat (addressToPageIndex x) - unat (addressToPageIndex (brk_start m)))"
    using run first x unfolding brk_def Let_def getPage_def
    by (auto simp: set_pages_lookup on_pages_def split: Option.bind_splits)
  have "read_cell S (ptr_add page k) = None" for k
    using S by (auto simp: safeRealloc_def new_area_read read_cell_def nth_append split: if_splits)
  then have "clearExprFromMem x m' = None"
    by (simp add: clearExprFromMem_def getExprPtrFromMem_def m' page_of_def)
  then show ?thesis
    by (simp add: setExprToMem_def)
qed

subsection \<open>The start\<close>

lemma initialize_law:
  assumes "initialize vdso Memory = Some m"
  shows "memory_ok m" and "getExprFromMem m x = Some None"
proof -
  let ?area = "\<lambda>r. \<lparr>rights = r, area_length = 4096, cells = (\<lambda>_. Cell None)\<rparr>"
  let ?S = "[?area PROT_NONE, ?area PROT_READ]"
  have m: "m = setupVdso vdso (Memory\<lparr>areas := ?S, unmapped_page := Some (Ptr 0 0), zero_page := Some (Ptr 1 0)\<rparr>)"
    using assms by (auto simp: initialize_def allocPages_def Memory_def whole_pages_def One_nat_def)
  have table: "page_table m i = None \<or> page_table m i = Some (Ptr 1 0)" for i
    unfolding m setupVdso_def by (cases vdso) (auto simp: set_pages_lookup, auto simp: Memory_def)
  have fields: "areas m = ?S" "unmapped_page m = Some (Ptr 0 0)" "zero_page m = Some (Ptr 1 0)"
    unfolding m setupVdso_def by (cases vdso; simp)+
  have zero: "read_cell ?S (Ptr 1 k) = Some None" if "k < 4096" for k
    using that by (simp add: read_cell_def)
  then have special: "special_pages ?S (Ptr 0 0) (Ptr 1 0)"
    by (simp add: special_pages_def ptr_add_def)
  have not_writable: "\<not> can_write ?S (Ptr 1 0)"
    using special_not_writable [OF special] by simp
  show "memory_ok m"
    unfolding memory_ok_def fields using special table not_writable by (metis option.distinct(1) option.inject)
  show "getExprFromMem m x = Some None"
    using table [of "addressToPageIndex x"] zero [OF offset_less, of x] zero [of 0]
    by (auto simp: getExprFromMem_def getExprPtrFromMem_def getPage_def fields ptr_add_def)
qed

end
