(* ===== verification/ThreadSound.thy ===== *)
theory ThreadSound
  imports ThreadContext MemorySound
begin

declare One_nat_def [simp del]

section \<open>Registers keep their bytes apart\<close>

text \<open>
  The registers are a second store of expressions (interpretation \<open>regs\<close> of the locale \<open>shadow\<close>). The
  map from registers to their places is the one that the constructor computes. What is read from
  and written to a register, or the part of one, then has the meaning that the processor gives
  it, with the upper half of a 64-bit register cleared when its lower half is written.
\<close>

subsection \<open>The store\<close>

definition same_but_regs :: "'z thread_state_scheme \<Rightarrow> 'z thread_state_scheme \<Rightarrow> bool" where
  "same_but_regs s s' \<longleftrightarrow> (\<exists>xs b. length xs = length (reg_exprs (thread s)) \<and>
     s' = s\<lparr>thread := (thread s)\<lparr>reg_exprs := xs\<rparr>, builder_state := b\<rparr>)"

lemma same_but_regsI:
  "length xs = length (reg_exprs (thread s)) \<Longrightarrow>
   s' = s\<lparr>thread := (thread s)\<lparr>reg_exprs := xs\<rparr>, builder_state := b\<rparr> \<Longrightarrow> same_but_regs s s'"
  unfolding same_but_regs_def by blast

definition reg_writable :: "'z thread_state_scheme \<Rightarrow> addr \<Rightarrow> bool" where
  "reg_writable s a \<longleftrightarrow> unat a < length (reg_exprs (thread s))"

lemma reg_update:
  "unat a < length (reg_exprs c) \<Longrightarrow>
   getExprFromRegAddr (c\<lparr>reg_exprs := (reg_exprs c)[unat a := e]\<rparr>) = (getExprFromRegAddr c)(a := Some e)"
  by (auto simp: getExprFromRegAddr_def fun_eq_iff nth_list_update word_unat_eq_iff)

lemma clear_reg_byte:
  assumes "getExprFromRegAddr (thread s) a \<noteq> None"
  obtains s' where "clearExprFromRegAddr a s = Some s'" "same_but_regs s s'" "builder_state s' = builder_state s"
    "reg_writable s' = reg_writable s" "getExprFromRegAddr (thread s') = (getExprFromRegAddr (thread s))(a := Some None)"
proof -
  let ?xs = "(reg_exprs (thread s))[unat a := None]"
  let ?s = "s\<lparr>thread := (thread s)\<lparr>reg_exprs := ?xs\<rparr>\<rparr>"
  have a: "unat a < length (reg_exprs (thread s))"
    using assms by (simp add: getExprFromRegAddr_def split: if_splits)
  show ?thesis
  proof (cases "reg_exprs (thread s) ! unat a")
    case None
    then have "getExprFromRegAddr (thread s) = (getExprFromRegAddr (thread s))(a := Some None)"
      using a by (auto simp: getExprFromRegAddr_def)
    moreover have "same_but_regs s s"
      by (rule same_but_regsI [of "reg_exprs (thread s)" _ _ "builder_state s"]) simp_all
    ultimately show ?thesis
      using None a by (intro that [of s]) (simp_all add: clearExprFromRegAddr_def getExprFromRegAddr_def)
  next
    case (Some x)
    have "same_but_regs s ?s"
      by (rule same_but_regsI [of ?xs _ _ "builder_state s"]) simp_all
    with Some a show ?thesis
      by (intro that [of ?s])
        (simp_all add: clearExprFromRegAddr_def getExprFromRegAddr_def [of "thread s"] reg_update reg_writable_def fun_eq_iff)
  qed
qed

lemma set_reg_byte:
  assumes "reg_writable s a"
  obtains s' where "setExprToRegAddr a (Some e) s = Some s'" "same_but_regs s s'" "builder_state s' = builder_state s"
    "reg_writable s' = reg_writable s" "getExprFromRegAddr (thread s') = (getExprFromRegAddr (thread s))(a := Some (Some e))"
proof -
  have a: "unat a < length (reg_exprs (thread s))" "getExprFromRegAddr (thread s) a \<noteq> None"
    using assms by (simp_all add: reg_writable_def getExprFromRegAddr_def)
  obtain s1 where s1: "clearExprFromRegAddr a s = Some s1" "same_but_regs s s1" "builder_state s1 = builder_state s"
    "reg_writable s1 = reg_writable s" "getExprFromRegAddr (thread s1) = (getExprFromRegAddr (thread s))(a := Some None)"
    using clear_reg_byte [OF a(2)] by blast
  then have l: "length (reg_exprs (thread s1)) = length (reg_exprs (thread s))"
    by (auto simp: same_but_regs_def)
  let ?xs = "(reg_exprs (thread s1))[unat a := Some e]"
  let ?s = "s1\<lparr>thread := (thread s1)\<lparr>reg_exprs := ?xs\<rparr>\<rparr>"
  obtain xs b where "length xs = length (reg_exprs (thread s))"
    "s1 = s\<lparr>thread := (thread s)\<lparr>reg_exprs := xs\<rparr>, builder_state := b\<rparr>"
    using s1(2) unfolding same_but_regs_def by blast
  then have "same_but_regs s ?s"
    by (intro same_but_regsI [of "xs[unat a := Some e]" _ _ b]) simp_all
  with s1 a l show ?thesis
    by (intro that [of ?s]) (simp_all add: setExprToRegAddr_def reg_update reg_writable_def fun_eq_iff)
qed

interpretation regs: shadow "\<lambda>_ :: 'z thread_state_scheme. True" "\<lambda>s. getExprFromRegAddr (thread s)"
  reg_writable same_but_regs clearExprFromRegAddr "\<lambda>a e. setExprToRegAddr a (Some e)"
  "\<lambda>a is s. isSymbolicReg_loop (thread s) a is" clearExprFromRegAddr_loop setExprToRegAddr_loop
  getExprFromRegAddr_loop
proof (unfold_locales, goal_cases)
  case (1 s a)
  then show ?case
    by (metis clear_reg_byte)
next
  case (3 s a e)
  then show ?case
    by (metis set_reg_byte)
next
  case (6 s)
  show ?case
    by (rule same_but_regsI [of "reg_exprs (thread s)" _ _ "builder_state s"]) simp_all
next
  case (7 s1 s2 s3)
  then obtain xs b where 1: "length xs = length (reg_exprs (thread s1))"
    "s2 = s1\<lparr>thread := (thread s1)\<lparr>reg_exprs := xs\<rparr>, builder_state := b\<rparr>"
    unfolding same_but_regs_def by blast
  obtain xs' b' where "length xs' = length (reg_exprs (thread s2))"
    "s3 = s2\<lparr>thread := (thread s2)\<lparr>reg_exprs := xs'\<rparr>, builder_state := b'\<rparr>"
    using 7(2) unfolding same_but_regs_def by blast
  with 1 show ?case
    by (intro same_but_regsI [of xs' _ _ b']) simp_all
next
  case (11 s b)
  show ?case
    by (rule same_but_regsI [of "reg_exprs (thread s)" _ _ b]) simp_all
qed (auto simp: getExprFromRegAddr_def clearExprFromRegAddr_def setExprToRegAddr_def reg_writable_def fun_eq_iff
    split: Option.bind_splits)

subsection \<open>Places of registers\<close>

text \<open>What is relied on of Pin's registers.\<close>

definition pin_ok :: "pin_api \<Rightarrow> bool" where
  "pin_ok P \<longleftrightarrow> REG_INVALID P = 0 \<and> 0 < REG_GR_BASE P \<and>
     (\<forall>r. REG_FullRegName P (REG_FullRegName P r) = REG_FullRegName P r) \<and>
     (\<forall>r. 0 < REG_Size P r \<and> REG_Size P r \<le> REG_Size P (REG_FullRegName P r)) \<and>
     (\<forall>r. REG_is_gr32 P r \<longrightarrow> REG_Size P r = 4 \<and> REG_Size P (REG_FullRegName P r) = 8 \<and> \<not> REG_is_Upper8 P r) \<and>
     (\<forall>r. REG_is_Upper8 P r \<longrightarrow> REG_Size P r + 1 \<le> REG_Size P (REG_FullRegName P r) \<and> REG_Size P r = 1) \<and>
     (\<forall>r. \<not> REG_is_Upper8 P (REG_FullRegName P r)) \<and>
     (\<Sum>r \<leftarrow> filter (isInterestingReg P) [REG_GR_BASE P..<REG_LAST P]. REG_Size P r) < 2 ^ 31"

definition places_ok :: "pin_api \<Rightarrow> nat \<Rightarrow> thread_context \<Rightarrow> bool" where
  "places_ok P n c \<longleftrightarrow>
     (\<forall>r a. map_reg_to_addr c r = Some a \<longrightarrow> REG_FullRegName P r = r \<and> a + REG_Size P r \<le> n \<and>
        map_addr_to_reg c a = r \<and> r \<noteq> REG_INVALID P \<and> r < REG_LAST P) \<and>
     (\<forall>a. map_addr_to_reg c a \<noteq> REG_INVALID P \<longrightarrow> map_reg_to_addr c (map_addr_to_reg c a) = Some a \<and> a < n) \<and>
     (\<forall>r r' a a'. map_reg_to_addr c r = Some a \<longrightarrow> map_reg_to_addr c r' = Some a' \<longrightarrow> r \<noteq> r' \<longrightarrow>
        a + REG_Size P r \<le> a' \<or> a' + REG_Size P r' \<le> a)"

definition layout_ok :: "pin_api \<Rightarrow> thread_context \<Rightarrow> bool" where
  "layout_ok P c \<longleftrightarrow> places_ok P (length (reg_exprs c)) c \<and> length (reg_exprs c) < 2 ^ 31"

lemma places_ok_add:
  assumes P: "pin_ok P" and c: "places_ok P idx c" and r: "isInterestingReg P r" "map_reg_to_addr c r = None" "r \<noteq> 0"
    "r < REG_LAST P"
  shows "places_ok P (idx + REG_Size P r)
    (c\<lparr>map_reg_to_addr := (map_reg_to_addr c)(r := Some idx), map_addr_to_reg := (map_addr_to_reg c)(idx := r)\<rparr>)"
proof -
  have r': "REG_FullRegName P r = r" "0 < REG_Size P r" "REG_INVALID P = 0"
    using P r(1) by (auto simp: pin_ok_def isInterestingReg_def split: if_splits)
  have size: "0 < REG_Size P r" for r
    using P by (simp add: pin_ok_def)
  have old: "a + REG_Size P q \<le> idx" "a < idx" if "map_reg_to_addr c q = Some a" for q a
    using c that size [of q] by (fastforce simp: places_ok_def)+
  show ?thesis
    unfolding places_ok_def
  proof (intro conjI allI impI, goal_cases)
    case (3 q a)
    then show ?case
      using c old(2) [of q a] by (auto simp: places_ok_def split: if_splits)
  next
    case (4 q a)
    then show ?case
      using c old [of q a] r(2,3) r'(3) by (auto simp: places_ok_def split: if_splits)
  next
    case (6 a)
    then show ?case
      using c r(2) by (fastforce simp: places_ok_def)
  next
    case (7 a)
    then show ?case
      using c r'(2) by (fastforce simp: places_ok_def split: if_splits)
  next
    case (8 q q' a a')
    then show ?case
      using c old [of q a] old [of q' a'] by (auto simp: places_ok_def split: if_splits)
  qed (use c r r' old in \<open>auto simp: places_ok_def trans_le_add1 split: if_splits\<close>)
qed

lemma initialize_loop:
  assumes P: "pin_ok P"
  shows "distinct rs \<Longrightarrow> 0 \<notin> set rs \<Longrightarrow> \<forall>r \<in> set rs. map_reg_to_addr c r = None \<and> r < REG_LAST P \<Longrightarrow> places_ok P idx c \<Longrightarrow>
    places_ok P (getMaxRegAddr_loop P rs idx) (initializeMapRegToAddr_loop P rs idx c) \<and>
    reg_exprs (initializeMapRegToAddr_loop P rs idx c) = reg_exprs c"
proof (induction rs arbitrary: idx c)
  case (Cons r rs)
  show ?case
  proof (cases "isInterestingReg P r")
    case True
    then have c: "places_ok P (idx + REG_Size P r)
        (c\<lparr>map_reg_to_addr := (map_reg_to_addr c)(r := Some idx), map_addr_to_reg := (map_addr_to_reg c)(idx := r)\<rparr>)"
      using Cons.prems by (intro places_ok_add [OF P]) auto
    moreover have "\<forall>q \<in> set rs. ((map_reg_to_addr c)(r := Some idx)) q = None \<and> q < REG_LAST P"
      using Cons.prems by auto
    ultimately show ?thesis
      using True Cons.prems Cons.IH [OF _ _ _ c] by simp
  qed (use Cons in simp)
qed simp

lemma getMaxRegAddr_loop_sum:
  "getMaxRegAddr_loop P rs idx = idx + (\<Sum>r \<leftarrow> filter (isInterestingReg P) rs. REG_Size P r)"
  by (induction rs arbitrary: idx) simp_all

lemma layout_ok_start:
  assumes P: "pin_ok P"
  shows "layout_ok P (ThreadContext P)"
proof -
  let ?c = "\<lparr>syscall_ctx = \<lparr>nr = None, arg = (\<lambda>_. 0), ret = 0\<rparr>, eflags_of = Eflags,
      map_reg_to_addr = (\<lambda>_. None), map_addr_to_reg = (\<lambda>_. 0), reg_exprs = replicate (getMaxRegAddr P) None\<rparr>"
  have "places_ok P 0 ?c"
    using P by (simp add: places_ok_def pin_ok_def)
  moreover have "0 \<notin> set [REG_GR_BASE P..<REG_LAST P]"
    using P by (simp add: pin_ok_def)
  ultimately have "places_ok P (getMaxRegAddr P) (ThreadContext P) \<and> reg_exprs (ThreadContext P) = reg_exprs ?c"
    using initialize_loop [OF P, of "[REG_GR_BASE P..<REG_LAST P]" ?c 0]
    by (simp add: ThreadContext_def initializeMapRegToAddr_def getMaxRegAddr_def)
  moreover have "getMaxRegAddr P < 2 ^ 31"
    using P by (simp add: getMaxRegAddr_def getMaxRegAddr_loop_sum pin_ok_def)
  ultimately show ?thesis
    by (simp add: layout_ok_def)
qed

lemma layout_ok_exprs: "length xs = length (reg_exprs c) \<Longrightarrow> layout_ok P (c\<lparr>reg_exprs := xs\<rparr>) = layout_ok P c"
  by (simp add: layout_ok_def places_ok_def)

subsection \<open>The whole state\<close>

text \<open>
  \<open>M\<close> and \<open>R\<close> are the contents of memory and of the array of registers for each input; the context
  that Pin passes holds those for the input of the run.
\<close>

type_synonym contents = "assignment \<Rightarrow> addr \<Rightarrow> 8 word"

definition state_holds ::
  "bool \<Rightarrow> assignment set \<Rightarrow> assignment \<Rightarrow> (bst \<Rightarrow> bool) \<Rightarrow> pin_api \<Rightarrow> contents \<Rightarrow> contents \<Rightarrow>
   'z thread_state_scheme \<Rightarrow> bool" where
  "state_holds dv W \<rho>0 I P M R s \<longleftrightarrow> memory_holds dv W \<rho>0 M I s \<and> layout_ok P (thread s) \<and>
     tracks dv W \<rho>0 R (getExprFromRegAddr (thread s))"

definition context_holds :: "pin_api \<Rightarrow> thread_context \<Rightarrow> (addr \<Rightarrow> 8 word) \<Rightarrow> (addr \<Rightarrow> 8 word) \<Rightarrow> CONTEXT \<Rightarrow> bool" where
  "context_holds P c M R ctx \<longleftrightarrow> ctx_mem ctx = M \<and>
     (\<forall>r a i. map_reg_to_addr c r = Some a \<longrightarrow> i < REG_Size P r \<longrightarrow> ctx_reg ctx r i = R (of_nat a + of_nat i))"

lemma same_but_regs_simps:
  assumes "same_but_regs s s'"
  shows "g_memory s' = g_memory s" "eflags_of (thread s') = eflags_of (thread s)"
    "map_reg_to_addr (thread s') = map_reg_to_addr (thread s)" "map_addr_to_reg (thread s') = map_addr_to_reg (thread s)"
    "length (reg_exprs (thread s')) = length (reg_exprs (thread s))" "syscall_ctx (thread s') = syscall_ctx (thread s)"
    "layout_ok P (thread s') = layout_ok P (thread s)" "regToRegAddr P (thread s') = regToRegAddr P (thread s)"
  using assms by (auto simp: same_but_regs_def layout_ok_exprs regToRegAddr_def fun_eq_iff)

lemma same_pages_simps:
  assumes "same_pages s s'"
  shows "thread s' = thread s"
  using assms by (auto simp: same_pages_def same_but_memory_def)

lemma same_but_regs_refl [simp]: "same_but_regs s s"
  by (rule regs.same_refl)

lemma same_but_regs_trans: "same_but_regs s1 s2 \<Longrightarrow> same_but_regs s2 s3 \<Longrightarrow> same_but_regs s1 s3"
  by (rule regs.same_trans)

lemma regs_kept_iff: "regs.kept s s' \<longleftrightarrow> same_but_regs s s'"
  using same_but_regs_simps(5) [of s s']
  by (auto simp: regs.kept_def reg_writable_def fun_eq_iff getExprFromRegAddr_def)

lemma state_holds_regs:
  "state_holds dv W \<rho>0 I P M R s \<Longrightarrow> same_but_regs s s' \<Longrightarrow> I (builder_state s') \<Longrightarrow>
   tracks dv W \<rho>0 R' (getExprFromRegAddr (thread s')) \<Longrightarrow> state_holds dv W \<rho>0 I P M R' s'"
  by (simp add: state_holds_def memory_holds_def same_but_regs_simps)

lemma state_holds_memory:
  "state_holds dv W \<rho>0 I P M R s \<Longrightarrow> same_pages s s' \<Longrightarrow> memory_holds dv W \<rho>0 M' I s' \<Longrightarrow> state_holds dv W \<rho>0 I P M' R s'"
  by (simp add: state_holds_def same_pages_simps)

lemma state_holds_built:
  "state_holds dv W \<rho>0 I P M R s \<Longrightarrow> I b \<Longrightarrow> state_holds dv W \<rho>0 I P M R (s\<lparr>builder_state := b\<rparr>)"
  by (simp add: state_holds_def memory_holds_def)

subsection \<open>Reading registers\<close>

lemma place_of:
  assumes "layout_ok P c" "regToRegAddr P c r = Some a"
  obtains k where "map_reg_to_addr c (REG_FullRegName P r) = Some k" "unat a = (if REG_is_Upper8 P r then k + 1 else k)"
    "k + REG_Size P (REG_FullRegName P r) \<le> length (reg_exprs c)" "length (reg_exprs c) < 2 ^ 31"
proof -
  obtain k where k: "map_reg_to_addr c (REG_FullRegName P r) = Some k" "a = of_nat (if REG_is_Upper8 P r then k + 1 else k)"
    using assms(2) by (auto simp: regToRegAddr_def split: if_splits Option.bind_splits)
  have "k + REG_Size P (REG_FullRegName P r) \<le> length (reg_exprs c)" "length (reg_exprs c) < 2 ^ 31"
    using assms(1) k(1) by (auto simp: layout_ok_def places_ok_def)
  with k that show ?thesis
    by (simp add: unat_offset)
qed

lemma place_in_array:
  assumes P: "pin_ok P" and c: "layout_ok P c" "regToRegAddr P c r = Some a" and off: "off + n \<le> REG_Size P r"
  shows "unat a + off + n \<le> length (reg_exprs c)" "length (reg_exprs c) < 2 ^ 31"
    "i < n \<Longrightarrow> unat (a + of_nat off + of_nat i) = unat a + off + i"
proof -
  obtain k where k: "unat a = (if REG_is_Upper8 P r then k + 1 else k)"
    "k + REG_Size P (REG_FullRegName P r) \<le> length (reg_exprs c)" "length (reg_exprs c) < 2 ^ 31"
    using c by (rule place_of)
  have "REG_Size P r \<le> REG_Size P (REG_FullRegName P r)"
    "REG_is_Upper8 P r \<Longrightarrow> REG_Size P r + 1 \<le> REG_Size P (REG_FullRegName P r)"
    using P by (auto simp: pin_ok_def)
  with k off show bound: "unat a + off + n \<le> length (reg_exprs c)" "length (reg_exprs c) < 2 ^ 31"
    by (auto split: if_splits)
  then show "unat (a + of_nat off + of_nat i) = unat a + off + i" if "i < n"
    using unat_plus [of a "off + i"] that by (simp add: add.assoc)
qed

lemma regAddrToReg_start:
  assumes P: "pin_ok P" and c: "layout_ok P c" "regToRegAddr P c r = Some a" and off: "off < REG_Size P r"
    and q: "regAddrToReg P c (a + of_nat off) = Some q"
  shows "q = REG_FullRegName P r" "off = 0" "\<not> REG_is_Upper8 P r" "map_reg_to_addr c q = Some (unat a)"
proof -
  obtain k where k: "map_reg_to_addr c (REG_FullRegName P r) = Some k" "unat a = (if REG_is_Upper8 P r then k + 1 else k)"
    using c by (rule place_of) blast
  have place: "unat (a + of_nat off) = unat a + off"
    using place_in_array(3) [OF P c, of off 1 0] off by simp
  have r: "REG_is_Upper8 P r \<Longrightarrow> REG_Size P r + 1 \<le> REG_Size P (REG_FullRegName P r)"
    "REG_Size P r \<le> REG_Size P (REG_FullRegName P r)" "0 < REG_Size P q"
    using P by (auto simp: pin_ok_def)
  have q': "map_reg_to_addr c q = Some (unat a + off)"
    using q c(1) by (auto simp: regAddrToReg_def place layout_ok_def places_ok_def split: if_splits)
  have eq: "q = REG_FullRegName P r"
  proof (rule ccontr)
    assume "q \<noteq> REG_FullRegName P r"
    then have "unat a + off + REG_Size P q \<le> k \<or> k + REG_Size P (REG_FullRegName P r) \<le> unat a + off"
      using c(1) q' k(1) unfolding layout_ok_def places_ok_def by blast
    with k(2) r off show False
      by (auto split: if_splits)
  qed
  then have "k = unat a + off"
    using q' k(1) by simp
  with k(2) eq q' show "q = REG_FullRegName P r" "off = 0" "\<not> REG_is_Upper8 P r" "map_reg_to_addr c q = Some (unat a)"
    by (auto split: if_splits)
qed

lemma regAddrToReg_full:
  assumes c: "layout_ok P c" "regToRegAddr P c r = Some a" and r: "\<not> REG_is_Upper8 P r" "pin_ok P"
  shows "regAddrToReg P c a = Some (REG_FullRegName P r)"
proof -
  obtain k where k: "map_reg_to_addr c (REG_FullRegName P r) = Some k" "unat a = k"
    using c by (rule place_of) (use r in simp)
  have "0 < REG_Size P (REG_FullRegName P r)"
    using r(2) by (simp add: pin_ok_def)
  then have "map_addr_to_reg c k = REG_FullRegName P r" "REG_FullRegName P r \<noteq> REG_INVALID P" "k < length (reg_exprs c)"
    using c(1) k(1) by (fastforce simp: layout_ok_def places_ok_def)+
  with k(2) show ?thesis
    by (simp add: regAddrToReg_def)
qed

definition reads ::
  "bool \<Rightarrow> assignment set \<Rightarrow> assignment \<Rightarrow> contents \<Rightarrow> addr \<Rightarrow> nat \<Rightarrow> expr option \<Rightarrow> bool" where
  "reads dv W \<rho>0 V a n e \<longleftrightarrow> (case e of
     None \<Rightarrow> \<forall>\<rho>\<in>W. \<forall>i < n. V \<rho> (a + of_nat i) = V \<rho>0 (a + of_nat i)
   | Some e \<Rightarrow> \<forall>\<rho>\<in>W. den dv \<rho> e = Some (BV (n * 8) (getMemValue (V \<rho>) a n)))"

lemma getMemValue_1 [simp]: "getMemValue f a 1 = uint (f a)"
  by (simp add: getMemValue_bytes bytes_value_1)

definition reg_size :: "nat \<Rightarrow> bool" where
  "reg_size n \<longleftrightarrow> n \<in> {1, 2, 4, 8, 16, 32}"

lemma read_range_regs:
  assumes q: "regAddrToReg P (thread s) a = Some q"
  shows "getExprFromRegAddr_range B P ctx a n s = regs.read_range B (ctx_reg ctx q) a n s"
  unfolding getExprFromRegAddr_range_def regs.read_range_def isSymbolicReg_def clearExprFromRegAddr_range_def q
    bind.bind_lunit ..

definition clear_at :: "'z thread_state_scheme \<Rightarrow> addr \<Rightarrow> nat \<Rightarrow> bool" where
  "clear_at s a n \<longleftrightarrow> (\<forall>i < n. getExprFromRegAddr (thread s) (a + of_nat i) = Some None)"

lemma getExprFromReg_part_law:
  assumes B: "builder_on t dv W I B" "\<rho>0 \<in> W" and P: "pin_ok P" and s: "state_holds dv W \<rho>0 I P M R s"
    and ctx: "context_holds P (thread s) (M \<rho>0) (R \<rho>0) ctx" and a: "regToRegAddr P (thread s) r = Some a"
    and n: "reg_size n" "off + n \<le> REG_Size P r" and t: "t \<Longrightarrow> n = 1 \<or> off = 0 \<and> \<not> REG_is_Upper8 P r"
  shows "leads t (getExprFromReg_part B P ctx r off n s) (\<lambda>(e, s'). same_but_regs s s' \<and> state_holds dv W \<rho>0 I P M R s' \<and>
    reads dv W \<rho>0 R (a + of_nat off) n e \<and> (e = None \<longrightarrow> clear_at s' (a + of_nat off) n) \<and>
    (\<forall>b m. clear_at s b m \<longrightarrow> clear_at s' b m))"
proof -
  let ?a = "a + of_nat off"
  have layout: "layout_ok P (thread s)"
    using s by (simp add: state_holds_def)
  note place = place_in_array [OF P layout a n(2)]
  have tr: "tracks dv W \<rho>0 R (getExprFromRegAddr (thread s))" and I: "I (builder_state s)"
    using s by (auto simp: state_holds_def memory_holds_def)
  show ?thesis
  proof (cases "n = 1")
    case True
    then have "getExprFromRegAddr (thread s) ?a \<noteq> None"
      using place(1) place(3) [of 0] by (simp add: getExprFromRegAddr_def)
    then obtain e where e: "getExprFromRegAddr (thread s) ?a = Some e"
      by auto
    have "reads dv W \<rho>0 R ?a n e"
      using tracks_None [OF tr] tracks_Some [OF tr] e True unfolding reads_def
      by (auto split: option.split simp flip: One_nat_def)
    with e True a s show ?thesis
      by (simp add: getExprFromReg_part_def getExprFromRegAlways_def clear_at_def)
  next
    case False
    then have run: "getExprFromReg_part B P ctx r off n s = getExprFromRegAddr_range B P ctx ?a n s"
      using n(1) a by (auto simp: getExprFromReg_part_def getExprFromRegAlways_def reg_size_def)
    show ?thesis
    proof (cases "regAddrToReg P (thread s) ?a")
      case None
      have "\<not> t"
        using t False regAddrToReg_full [OF layout a _ P] None by auto
      have sym: "isSymbolicReg_loop (thread s) ?a [0..<n] = None \<or> isSymbolicReg_loop (thread s) ?a [0..<n] = Some True \<or>
          isSymbolicReg_loop (thread s) ?a [0..<n] = Some False"
        by auto
      have "leads False (isSymbolicReg_loop (thread s) ?a [0..<n])
          (\<lambda>b. if b then [0..<n] \<noteq> [] else \<forall>i \<in> set [0..<n]. getExprFromRegAddr (thread s) (?a + of_nat i) = Some None)"
        by (rule regs.symbolic_loop_law) simp
      then show ?thesis
        unfolding run getExprFromRegAddr_range_def isSymbolicReg_def None
        using sym \<open>\<not> t\<close> s tracks_None [OF tr] by (auto simp: reads_def clear_at_def)
    next
      case (Some q)
      have off: "off < REG_Size P r"
        using n by (auto simp: reg_size_def)
      note q = regAddrToReg_start [OF P layout a off Some]
      have val: "ctx_reg ctx q i = R \<rho>0 (?a + of_nat i)" if "i < n" for i
      proof -
        have "i < REG_Size P q"
          using that n(2) P unfolding q(1,2) pin_ok_def by (metis add_0 less_le_trans)
        then show ?thesis
          using ctx q by (simp add: context_holds_def)
      qed
      have "leads t (regs.read_range B (ctx_reg ctx q) ?a n s) (\<lambda>(r, s'). regs.kept s s' \<and> I (builder_state s') \<and>
          tracks dv W \<rho>0 R (getExprFromRegAddr (thread s')) \<and>
          (\<forall>b. getExprFromRegAddr (thread s) b = Some None \<longrightarrow> getExprFromRegAddr (thread s') b = Some None) \<and>
          (case r of None \<Rightarrow> \<forall>i < n. getExprFromRegAddr (thread s') (?a + of_nat i) = Some None
           | Some e \<Rightarrow> \<forall>\<rho>\<in>W. den dv \<rho> e = Some (BV (n * 8) (getMemValue (R \<rho>) ?a n))))"
        by (rule regs.read_range_law [OF B(1) _ I tr val B(2)])
          (use place in \<open>auto simp: getExprFromRegAddr_def\<close>)
      then show ?thesis
        unfolding run read_range_regs [OF Some]
        by (rule leads_mono)
          (auto simp: regs_kept_iff reads_def clear_at_def tracks_def split: option.splits
            intro: state_holds_regs [OF s])
    qed
  qed
qed

text \<open>
  A part of a register that does not start with it is not read: \<open>regAddrToReg\<close> finds no register
  there, which is fatal, if some byte of the part is symbolic.
\<close>

lemma part_read_aborts:
  assumes P: "pin_ok P" and layout: "layout_ok P (thread s)" and a: "regToRegAddr P (thread s) r = Some a"
    and n: "reg_size n" "n \<noteq> 1" "off + n \<le> REG_Size P r" "0 < off"
    and sym: "isSymbolicReg (thread s) (a + of_nat off) n = Some True"
  shows "getExprFromReg_part B P ctx r off n s = None"
proof -
  have "off < REG_Size P r"
    using n by (auto simp: reg_size_def)
  then have "regAddrToReg P (thread s) (a + of_nat off) = None"
    using regAddrToReg_start(2) [OF P layout a] n(4) by fastforce
  with n a sym show ?thesis
    by (auto simp: getExprFromReg_part_def getExprFromRegAlways_def reg_size_def getExprFromRegAddr_range_def)
qed

subsection \<open>Writing registers\<close>

text \<open>What a value that is written has to be: an expression, or bytes that are the same for all inputs.\<close>

definition writes ::
  "bool \<Rightarrow> assignment set \<Rightarrow> assignment \<Rightarrow> nat \<Rightarrow> (assignment \<Rightarrow> int) \<Rightarrow> expr option \<Rightarrow> bool" where
  "writes dv W \<rho>0 n x e \<longleftrightarrow> (case e of
     None \<Rightarrow> \<forall>\<rho>\<in>W. x \<rho> = x \<rho>0
   | Some e \<Rightarrow> \<forall>\<rho>\<in>W. den dv \<rho> e = Some (BV (n * 8) (x \<rho>)))"

lemma byte_of_0: "in_range 8 v \<Longrightarrow> byte_of v 0 = word_of_int v"
  by (simp add: byte_of_def)

lemma put_bytes_1: "put_bytes a 1 v f = f(a := v 0)"
  using put_bytes_Suc [of 0 a v f] by (simp add: One_nat_def)

lemma setExprToRegAddr_range_law:
  assumes B: "builder_on t dv W I B" and s: "state_holds dv W \<rho>0 I P M R s" and n: "reg_size n"
    and e: "writes dv W \<rho>0 n x e" and bound: "\<And>i. i < n \<Longrightarrow> unat (a + of_nat i) < length (reg_exprs (thread s))"
  shows "leads t (if n = 1 then setExprToRegAddr a e s else if n \<in> {2, 4, 8, 16, 32}
      then setExprToRegAddr_range B a n e s else None)
    (\<lambda>s'. same_but_regs s s' \<and> state_holds dv W \<rho>0 I P M (\<lambda>\<rho>. put_bytes a n (byte_of (x \<rho>)) (R \<rho>)) s')"
    (is "leads t _ ?Q")
proof -
  have tr: "tracks dv W \<rho>0 R (getExprFromRegAddr (thread s))" and I: "I (builder_state s)"
    using s by (auto simp: state_holds_def memory_holds_def)
  have small: "n \<le> 2 ^ 64"
    using n by (auto simp: reg_size_def)
  show ?thesis
  proof (cases e)
    case None
    have "leads t (clearExprFromRegAddr_loop a [0..<n] s) (\<lambda>s'. regs.kept s s' \<and> builder_state s' = builder_state s \<and>
        tracks dv W \<rho>0 (\<lambda>\<rho>. put_bytes a n (byte_of (x \<rho>)) (R \<rho>)) (getExprFromRegAddr (thread s')))"
      by (rule regs.clear_range_law) (use tr e None small bound in \<open>auto simp: writes_def getExprFromRegAddr_def\<close>)
    then have "leads t (clearExprFromRegAddr_loop a [0..<n] s) ?Q"
      by (rule leads_mono) (use I in \<open>auto simp: regs_kept_iff intro: state_holds_regs [OF s]\<close>)
    moreover have "(if n = 1 then setExprToRegAddr a e s else if n \<in> {2, 4, 8, 16, 32}
        then setExprToRegAddr_range B a n e s else None) = clearExprFromRegAddr_loop a [0..<n] s"
      using n None by (auto simp: reg_size_def setExprToRegAddr_def setExprToRegAddr_range_def
          clearExprFromRegAddr_range_def upt_conv_Cons split: Option.bind_split)
    ultimately show ?thesis
      by simp
  next
    case (Some e')
    show ?thesis
    proof (cases "n = 1")
      case True
      have "leads t (setExprToRegAddr a (Some e') s) (\<lambda>s'. regs.kept s s' \<and> builder_state s' = builder_state s \<and>
          getExprFromRegAddr (thread s') = (getExprFromRegAddr (thread s))(a := Some (Some e')))"
        by (rule regs.put_law) (use bound [of 0] True in \<open>auto simp: reg_writable_def\<close>)
      then have "leads t (setExprToRegAddr a (Some e') s) ?Q"
      proof (rule leads_mono)
        fix s'
        assume s': "regs.kept s s' \<and> builder_state s' = builder_state s \<and>
          getExprFromRegAddr (thread s') = (getExprFromRegAddr (thread s))(a := Some (Some e'))"
        have x: "den dv \<rho> e' = Some (BV 8 (uint (byte_of (x \<rho>) 0)))" if "\<rho> \<in> W" for \<rho>
          using e that True Some den_BV [of dv \<rho> e' 8 "x \<rho>"]
          by (auto simp: writes_def byte_of_def uint_word_of_int in_range_def)
        then have "tracks dv W \<rho>0 (\<lambda>\<rho>. put_bytes a n (byte_of (x \<rho>)) (R \<rho>)) (getExprFromRegAddr (thread s'))"
          using s' True tracks_put [OF tr, of e' "\<lambda>\<rho>. byte_of (x \<rho>) 0" a] by (simp add: put_bytes_1)
        with s' I show "?Q s'"
          by (auto simp: regs_kept_iff intro: state_holds_regs [OF s])
      qed
      with True Some show ?thesis
        by simp
    next
      case False
      have "leads t (setExprToRegAddr_loop B a e' [0..<n] s) (\<lambda>s'. regs.kept s s' \<and> I (builder_state s') \<and>
          tracks dv W \<rho>0 (\<lambda>\<rho>. put_bytes a n (byte_of (x \<rho>)) (R \<rho>)) (getExprFromRegAddr (thread s')))"
        by (rule regs.put_loop_law [OF B, where m = "n * 8"])
          (use tr I e Some small bound in \<open>auto simp: writes_def reg_writable_def\<close>)
      then have "leads t (setExprToRegAddr_loop B a e' [0..<n] s) ?Q"
        by (rule leads_mono) (auto simp: regs_kept_iff intro: state_holds_regs [OF s])
      with False n Some show ?thesis
        by (auto simp: reg_size_def setExprToRegAddr_range_def)
    qed
  qed
qed

text \<open>A register of 32 bits is written with the upper half of its full register.\<close>

definition wide :: "pin_api \<Rightarrow> reg \<Rightarrow> nat" where
  "wide P r = (if REG_is_gr32 P r then 8 else REG_Size P r)"

lemma regToRegAddr_full:
  assumes "pin_ok P" "REG_is_gr32 P r"
  shows "regToRegAddr P c (REG_FullRegName P r) = regToRegAddr P c r"
  using assms by (simp add: regToRegAddr_def pin_ok_def)

lemma clear_upper_loop:
  assumes P: "pin_ok P"
  shows "regToRegAddr P (thread s) (REG_FullRegName P r) = Some a \<Longrightarrow> 0 \<notin> set is \<Longrightarrow>
    clear_upper P (REG_FullRegName P r) is s = clearExprFromRegAddr_loop a is s"
proof (induction "is" arbitrary: s)
  case (Cons i "is")
  have "clearExprFromReg P (REG_FullRegName P r) i (Some 1) s = clearExprFromRegAddr (a + of_nat i) s"
    using Cons.prems by (simp add: clearExprFromReg_def)
  moreover have "clear_upper P (REG_FullRegName P r) is s' = clearExprFromRegAddr_loop a is s'"
    if "clearExprFromRegAddr (a + of_nat i) s = Some s'" for s'
  proof (rule Cons.IH)
    have "map_reg_to_addr (thread s') = map_reg_to_addr (thread s)"
      using that by (auto simp: clearExprFromRegAddr_def split: if_splits Option.bind_splits)
    then have "regToRegAddr P (thread s') = regToRegAddr P (thread s)"
      by (simp add: regToRegAddr_def fun_eq_iff)
    then show "regToRegAddr P (thread s') (REG_FullRegName P r) = Some a"
      using Cons.prems(1) by simp
  qed (use Cons.prems in auto)
  ultimately show ?case
    by (cases "clearExprFromRegAddr (a + of_nat i) s") simp_all
qed simp

lemma byte_of_high: "in_range (k * 8) v \<Longrightarrow> k \<le> i \<Longrightarrow> byte_of v i = 0"
  by (rule bit_word_eqI) (auto simp: byte_of_def bit_simps in_range_iff_bit)

lemma clear_upper_law:
  assumes P: "pin_ok P" and s: "state_holds dv W \<rho>0 I P M R s"
    and a: "regToRegAddr P (thread s) r = Some a" and r: "REG_is_gr32 P r"
  shows "leads t (clear_upper P (REG_FullRegName P r) [4..<8] s) (\<lambda>s'. same_but_regs s s' \<and>
    state_holds dv W \<rho>0 I P M (\<lambda>\<rho> b. if unat (b - a) \<in> {4..<8} then 0 else R \<rho> b) s')"
proof -
  have full: "regToRegAddr P (thread s) (REG_FullRegName P r) = Some a"
    using regToRegAddr_full [OF P r] a by simp
  have layout: "layout_ok P (thread s)"
    using s by (simp add: state_holds_def)
  have "0 + 8 \<le> REG_Size P (REG_FullRegName P r)"
    using P r by (simp add: pin_ok_def)
  note place = place_in_array [OF P layout full this]
  have "leads t (clearExprFromRegAddr_loop a [4..<8] s) (\<lambda>s'. regs.kept s s' \<and> builder_state s' = builder_state s \<and>
      getExprFromRegAddr (thread s') =
        (\<lambda>b. if \<exists>i \<in> set [4..<8]. b = a + of_nat i then Some None else getExprFromRegAddr (thread s) b))"
  proof (rule regs.clear_loop_law, simp, intro ballI)
    fix i
    assume "i \<in> set [4..<8]"
    then show "getExprFromRegAddr (thread s) (a + of_nat i) \<noteq> None"
      using place(1) place(3) [of i] by (simp add: getExprFromRegAddr_def del: upt_rec_numeral)
  qed
  moreover have "clear_upper P (REG_FullRegName P r) [4..<8] s = clearExprFromRegAddr_loop a [4..<8] s"
    by (rule clear_upper_loop [OF P full]) simp
  ultimately show ?thesis
  proof (simp only:, elim leads_mono)
    fix s'
    assume s': "regs.kept s s' \<and> builder_state s' = builder_state s \<and>
      getExprFromRegAddr (thread s') =
        (\<lambda>b. if \<exists>i \<in> set [4..<8]. b = a + of_nat i then Some None else getExprFromRegAddr (thread s) b)"
    have "(\<exists>i \<in> set [4..<8]. b = a + of_nat i) \<longleftrightarrow> unat (b - a) \<in> {4..<8}" for b
    proof -
      have "(\<exists>i \<in> set [4..<8]. b = a + of_nat i) \<longleftrightarrow> (\<exists>i \<in> {4..<8}. unat (b - a) = i)"
        unfolding set_upt by (rule bex_cong) (auto simp: offset_iff)
      then show ?thesis
        by blast
    qed
    then have "tracks dv W \<rho>0 (\<lambda>\<rho> b. if unat (b - a) \<in> {4..<8} then 0 else R \<rho> b) (getExprFromRegAddr (thread s'))"
      using s s' by (auto simp: state_holds_def tracks_def)
    moreover have "same_but_regs s s'" "I (builder_state s')"
      using s s' by (auto simp: regs_kept_iff state_holds_def memory_holds_def)
    ultimately show "same_but_regs s s' \<and>
        state_holds dv W \<rho>0 I P M (\<lambda>\<rho> b. if unat (b - a) \<in> {4..<8} then 0 else R \<rho> b) s'"
      using state_holds_regs [OF s] by blast
  qed
qed

lemma state_holds_cong:
  "state_holds dv W \<rho>0 I P M R s \<Longrightarrow> (\<And>\<rho> b. \<rho> \<in> W \<or> \<rho> = \<rho>0 \<Longrightarrow> R' \<rho> b = R \<rho> b) \<Longrightarrow> state_holds dv W \<rho>0 I P M R' s"
  unfolding state_holds_def using tracks_cong by blast

lemma setExprToReg_law:
  assumes B: "builder_on t dv W I B" "\<rho>0 \<in> W" and P: "pin_ok P" and s: "state_holds dv W \<rho>0 I P M R s"
    and a: "regToRegAddr P (thread s) r = Some a" and n: "reg_size (REG_Size P r)"
    and e: "writes dv W \<rho>0 (REG_Size P r) x e" "\<And>\<rho>. \<rho> \<in> W \<Longrightarrow> in_range (REG_Size P r * 8) (x \<rho>)"
  shows "leads t (setExprToReg B P r e s) (\<lambda>s'. same_but_regs s s' \<and>
    state_holds dv W \<rho>0 I P M (\<lambda>\<rho>. put_bytes a (wide P r) (byte_of (x \<rho>)) (R \<rho>)) s')"
proof -
  define R1 where "R1 = (\<lambda>\<rho> b. if REG_is_gr32 P r \<and> unat (b - a) \<in> {4..<8} then 0 else R \<rho> b)"
  have upper: "leads t (if REG_is_gr32 P r \<and> 0 = (0 :: nat) then clear_upper P (REG_FullRegName P r) [4..<8] s else Some s)
      (\<lambda>s'. same_but_regs s s' \<and> state_holds dv W \<rho>0 I P M R1 s')"
    using clear_upper_law [OF P s a] s by (simp add: R1_def)
  show ?thesis
    unfolding setExprToReg_def setExprToReg_part_def
  proof (rule leads_bind [OF upper])
    fix s1
    assume s1: "same_but_regs s s1 \<and> state_holds dv W \<rho>0 I P M R1 s1"
    then have layout: "layout_ok P (thread s1)" and a1: "regToRegAddr P (thread s1) r = Some a"
      using a by (auto simp: state_holds_def same_but_regs_simps)
    have place: "unat (a + of_nat i) < length (reg_exprs (thread s1))" if "i < REG_Size P r" for i
      using place_in_array [OF P layout a1, of 0 "REG_Size P r"] that by simp
    have "leads t (if REG_Size P r = 1 then setExprToRegAddr a e s1 else if REG_Size P r \<in> {2, 4, 8, 16, 32}
        then setExprToRegAddr_range B a (REG_Size P r) e s1 else None)
      (\<lambda>s'. same_but_regs s1 s' \<and> state_holds dv W \<rho>0 I P M (\<lambda>\<rho>. put_bytes a (REG_Size P r) (byte_of (x \<rho>)) (R1 \<rho>)) s')"
      using s1 by (intro setExprToRegAddr_range_law [OF B(1) _ n e(1) place]) auto
    moreover have "do { a \<leftarrow> regToRegAddr P (thread s1) r; let a = a + of_nat 0;
        if REG_Size P r = 1 then setExprToRegAddr a e s1 else if REG_Size P r \<in> {2, 4, 8, 16, 32}
        then setExprToRegAddr_range B a (REG_Size P r) e s1 else None } =
      (if REG_Size P r = 1 then setExprToRegAddr a e s1 else if REG_Size P r \<in> {2, 4, 8, 16, 32}
        then setExprToRegAddr_range B a (REG_Size P r) e s1 else None)"
      using a1 by simp
    ultimately show "leads t (do { a \<leftarrow> regToRegAddr P (thread s1) r; let a = a + of_nat 0;
        if REG_Size P r = 1 then setExprToRegAddr a e s1 else if REG_Size P r \<in> {2, 4, 8, 16, 32}
        then setExprToRegAddr_range B a (REG_Size P r) e s1 else None })
      (\<lambda>s'. same_but_regs s s' \<and> state_holds dv W \<rho>0 I P M (\<lambda>\<rho>. put_bytes a (wide P r) (byte_of (x \<rho>)) (R \<rho>)) s')"
    proof (simp only:, elim leads_mono, elim conjE, intro conjI)
      fix s'
      assume "same_but_regs s1 s'"
      with s1 show "same_but_regs s s'"
        using same_but_regs_trans by blast
    next
      fix s'
      assume s': "state_holds dv W \<rho>0 I P M (\<lambda>\<rho>. put_bytes a (REG_Size P r) (byte_of (x \<rho>)) (R1 \<rho>)) s'"
      have "put_bytes a (wide P r) (byte_of (x \<rho>)) (R \<rho>) b = put_bytes a (REG_Size P r) (byte_of (x \<rho>)) (R1 \<rho>) b"
        if "\<rho> \<in> W" for \<rho> b
      proof -
        have "REG_is_gr32 P r \<Longrightarrow> REG_Size P r = 4"
          using P by (simp add: pin_ok_def)
        then show ?thesis
          using byte_of_high [OF e(2) [OF that], of "unat (b - a)"] by (auto simp: put_bytes_def R1_def wide_def)
      qed
      then show "state_holds dv W \<rho>0 I P M (\<lambda>\<rho>. put_bytes a (wide P r) (byte_of (x \<rho>)) (R \<rho>)) s'"
        by (intro state_holds_cong [OF s']) (use B(2) in auto)
    qed
  qed
qed

lemma clearExprFromReg_law:
  assumes P: "pin_ok P" and s: "state_holds dv W \<rho>0 I P M R s" and a: "regToRegAddr P (thread s) r = Some a"
    and x: "\<And>\<rho>. \<rho> \<in> W \<Longrightarrow> x \<rho> = x \<rho>0"
  shows "leads t (clearExprFromReg P r 0 None s) (\<lambda>s'. same_but_regs s s' \<and>
    state_holds dv W \<rho>0 I P M (\<lambda>\<rho>. put_bytes a (wide P r) (byte_of (x \<rho>)) (R \<rho>)) s')"
proof -
  have layout: "layout_ok P (thread s)" and tr: "tracks dv W \<rho>0 R (getExprFromRegAddr (thread s))"
    and I: "I (builder_state s)"
    using s by (auto simp: state_holds_def memory_holds_def)
  define q where "q = (if REG_is_gr32 P r then REG_FullRegName P r else r)"
  have q: "regToRegAddr P (thread s) q = Some a" "REG_Size P q = wide P r"
    using P a regToRegAddr_full [OF P, of r] by (auto simp: q_def wide_def pin_ok_def)
  have place: "unat (a + of_nat i) < length (reg_exprs (thread s))" "wide P r < 2 ^ 64" if "i < wide P r" for i
    using place_in_array [OF P layout q(1), of 0 "wide P r"] q(2) that by simp_all
  have "0 < wide P r"
    using P by (simp add: wide_def pin_ok_def)
  then have "wide P r \<le> 2 ^ 64"
    using place(2) [of 0] by simp
  then have "leads t (clearExprFromRegAddr_loop a [0..<wide P r] s) (\<lambda>s'. regs.kept s s' \<and> builder_state s' = builder_state s \<and>
      tracks dv W \<rho>0 (\<lambda>\<rho>. put_bytes a (wide P r) (byte_of (x \<rho>)) (R \<rho>)) (getExprFromRegAddr (thread s')))"
    by (intro regs.clear_range_law) (use tr place(1) x in \<open>auto simp: getExprFromRegAddr_def\<close>)
  then have "leads t (clearExprFromRegAddr_loop a [0..<wide P r] s) (\<lambda>s'. same_but_regs s s' \<and>
      state_holds dv W \<rho>0 I P M (\<lambda>\<rho>. put_bytes a (wide P r) (byte_of (x \<rho>)) (R \<rho>)) s')"
    by (rule leads_mono) (use I in \<open>auto simp: regs_kept_iff intro: state_holds_regs [OF s]\<close>)
  moreover have "clearExprFromReg P r 0 None s = clearExprFromRegAddr_loop a [0..<wide P r] s"
    using P a by (auto simp: clearExprFromReg_def clearExprFromRegAddr_range_def wide_def pin_ok_def Let_def
        upt_conv_Cons split: Option.bind_split)
  ultimately show ?thesis
    by simp
qed

end
