(* ===== verification/FlagsSound.thy ===== *)
theory FlagsSound
  imports Flags
begin

section \<open>Flags: what the expressions say\<close>

text \<open>
  The flags that the processor computes for an operation, as its manual gives them, and the proof
  that the expressions built by \<open>flags.cpp\<close> have these values; where they do not, that too is
  stated. Then the ring of operations: a condition of a jump is built from the last operation
  that affected its flags, as long as the walk through the ring does not pass its first slot.
\<close>

subsection \<open>Bits and signs\<close>

lemma eflag_test: "w AND eflag f \<noteq> 0 \<longleftrightarrow> bit w (eflag_bit f)"
  by (simp add: eflag_def push_bit_eq_mult and_exp_eq_0_iff_not_bit)

lemma msb_iff:
  assumes "0 < n" "in_range n x"
  shows "bit x (n - 1) \<longleftrightarrow> 2 ^ (n - 1) \<le> x"
proof -
  have "x < 2 * 2 ^ (n - 1)" "0 \<le> x"
    using assms by (cases n; simp add: in_range_def)+
  then have "x div 2 ^ (n - 1) = (if 2 ^ (n - 1) \<le> x then 1 else 0)"
    by (auto intro!: int_div_pos_eq [where r = "x - 2 ^ (n - 1)"])
  then show ?thesis
    by (simp add: bit_iff_odd)
qed

lemma sval_alt:
  assumes "0 < n" "in_range n x"
  shows "sval n x = (if 2 ^ (n - 1) \<le> x then x - 2 * 2 ^ (n - 1) else x)"
proof -
  have n: "Suc (n - 1) = n"
    using assms(1) by simp
  have "take_bit n x = x"
    using assms(2) by (simp add: in_range_take_bit)
  then have "sval n x = x - 2 ^ n * of_bool (bit x (n - 1))"
    using signed_take_bit_eq_take_bit_minus [of "n - 1" x] by (simp add: sval_def n)
  moreover have "(2 :: int) ^ n = 2 * 2 ^ (n - 1)"
    using n by (metis power_Suc)
  ultimately show ?thesis
    using msb_iff [OF assms] by simp
qed

text \<open>Whether \<open>v\<close> is outside of the signed range of \<open>n\<close> bits.\<close>

definition overflows :: "nat \<Rightarrow> int \<Rightarrow> bool" where
  "overflows n v \<longleftrightarrow> v < - (2 ^ (n - 1)) \<or> 2 ^ (n - 1) \<le> v"

lemma take_bit_sum:
  assumes "in_range n a" "in_range n b"
  shows "take_bit n (a + b) = (if a + b < 2 ^ n then a + b else a + b - 2 ^ n)"
    and "take_bit n (a - b) = (if b \<le> a then a - b else a - b + 2 ^ n)"
proof -
  show "take_bit n (a + b) = (if a + b < 2 ^ n then a + b else a + b - 2 ^ n)"
    using assms by (auto simp: in_range_def take_bit_eq_mod intro!: int_mod_pos_eq [where q = 1])
  show "take_bit n (a - b) = (if b \<le> a then a - b else a - b + 2 ^ n)"
    using assms by (auto simp: in_range_def take_bit_eq_mod intro!: int_mod_pos_eq [where q = "- 1"])
qed

lemma in_range_double: "0 < n \<Longrightarrow> in_range n x \<longleftrightarrow> 0 \<le> x \<and> x < 2 * 2 ^ (n - 1)"
  by (cases n) (simp_all add: in_range_def)

lemma add_overflow:
  assumes n: "0 < n" and a: "in_range n a" and b: "in_range n b"
  defines "r \<equiv> take_bit n (a + b)"
  shows "(bit a (n - 1) = bit b (n - 1)) \<and> bit r (n - 1) \<noteq> bit a (n - 1) \<longleftrightarrow> overflows n (sval n a + sval n b)"
proof -
  define N :: int where "N = 2 ^ (n - 1)"
  have N2: "2 ^ n = 2 * N"
    using n unfolding N_def by (metis Suc_diff_1 power_Suc)
  have r: "in_range n r"
    by (simp add: r_def)
  have "r = (if a + b < 2 * N then a + b else a + b - 2 * N)"
    unfolding r_def take_bit_sum [OF a b] N2 ..
  then show ?thesis
    using a b r in_range_double [OF n, of a] in_range_double [OF n, of b]
    unfolding msb_iff [OF n a] msb_iff [OF n b] msb_iff [OF n r] sval_alt [OF n a] sval_alt [OF n b]
      overflows_def N_def [symmetric]
    by (auto split: if_splits)
qed

lemma sub_overflow:
  assumes n: "0 < n" and a: "in_range n a" and b: "in_range n b"
  defines "r \<equiv> take_bit n (a - b)"
  shows "(bit a (n - 1) \<noteq> bit b (n - 1)) \<and> bit r (n - 1) \<noteq> bit a (n - 1) \<longleftrightarrow> overflows n (sval n a - sval n b)"
proof -
  define N :: int where "N = 2 ^ (n - 1)"
  have N2: "2 ^ n = 2 * N"
    using n unfolding N_def by (metis Suc_diff_1 power_Suc)
  have r: "in_range n r"
    by (simp add: r_def)
  have "r = (if b \<le> a then a - b else a - b + 2 * N)"
    unfolding r_def take_bit_sum [OF a b] N2 ..
  then show ?thesis
    using a b r in_range_double [OF n, of a] in_range_double [OF n, of b]
    unfolding msb_iff [OF n a] msb_iff [OF n b] msb_iff [OF n r] sval_alt [OF n a] sval_alt [OF n b]
      overflows_def N_def [symmetric]
    by (auto split: if_splits)
qed

lemma add_carry:
  assumes "in_range n a" "in_range n b"
  shows "take_bit n (a + b) < b \<longleftrightarrow> 2 ^ n \<le> a + b"
  using assms unfolding take_bit_sum [OF assms] by (auto simp: in_range_def)

lemma inc_overflow:
  assumes n: "0 < n" and a: "in_range n a"
  shows "take_bit n (a + 1) = 2 ^ (n - 1) \<longleftrightarrow> overflows n (sval n a + 1)"
    and "take_bit n (a - 1) = 2 ^ (n - 1) - 1 \<longleftrightarrow> overflows n (sval n a - 1)"
proof -
  define N :: int where "N = 2 ^ (n - 1)"
  have N2: "2 ^ n = 2 * N" and N1: "1 \<le> N"
    using n unfolding N_def by (metis Suc_diff_1 power_Suc) simp
  have r: "in_range n 1"
    using n by simp
  note simps = take_bit_sum [OF a r] N2 sval_alt [OF n a] overflows_def N_def [symmetric]
  show "take_bit n (a + 1) = 2 ^ (n - 1) \<longleftrightarrow> overflows n (sval n a + 1)"
    using a in_range_double [OF n, of a] N1 unfolding simps by (auto split: if_splits)
  show "take_bit n (a - 1) = 2 ^ (n - 1) - 1 \<longleftrightarrow> overflows n (sval n a - 1)"
    using a in_range_double [OF n, of a] N1 unfolding simps by (auto split: if_splits)
qed

subsection \<open>The flags of an operation, as the processor computes them\<close>

text \<open>
  An operation by its kind, the width of its result, the result and the two operands. For
  \<open>CC_OP_BT\<close> the result is the bit that was tested. \<open>op_done\<close>: the result is that of the
  operation; shifts are those by one place, the only ones whose flags \<open>flags.cpp\<close> speaks of. The
  processor leaves the zero, sign and parity flag undefined after a product, and may take the values
  that \<open>x86_flag\<close> gives them, those of the result.
\<close>

datatype oper = Oper (oper_kind: op_kind) (oper_width: nat) (oper_result: int) (oper_dst: int) (oper_src: int)

fun op_done :: "oper \<Rightarrow> bool" where
  "op_done (Oper k n r a b) \<longleftrightarrow>
     (if k = CC_OP_BT then r = 0 \<or> r = 1
      else 8 \<le> n \<and> in_range n r \<and> in_range n a \<and> in_range n b \<and>
        (case k of
           CC_OP_ADD \<Rightarrow> r = take_bit n (a + b)
         | CC_OP_SUB \<Rightarrow> r = take_bit n (a - b)
         | CC_OP_INC \<Rightarrow> r = take_bit n (a + 1)
         | CC_OP_DEC \<Rightarrow> r = take_bit n (a - 1)
         | CC_OP_SHL \<Rightarrow> r = bv_shl n a 1
         | CC_OP_SHR \<Rightarrow> r = bv_lshr n a 1 \<or> r = bv_ashr n a 1
         | CC_OP_SMUL \<Rightarrow> even n
         | CC_OP_UMUL \<Rightarrow> even n
         | _ \<Rightarrow> True))"

fun x86_CF :: "oper \<Rightarrow> bool" where
  "x86_CF (Oper CC_OP_ADD n r a b) \<longleftrightarrow> 2 ^ n \<le> a + b"
| "x86_CF (Oper CC_OP_SUB n r a b) \<longleftrightarrow> a < b"
| "x86_CF (Oper CC_OP_LOGIC n r a b) \<longleftrightarrow> False"
| "x86_CF (Oper CC_OP_SHL n r a b) \<longleftrightarrow> bit a (n - 1)"
| "x86_CF (Oper CC_OP_SHR n r a b) \<longleftrightarrow> bit a 0"
| "x86_CF (Oper CC_OP_ROL n r a b) \<longleftrightarrow> bit r 0"
| "x86_CF (Oper CC_OP_ROR n r a b) \<longleftrightarrow> bit r (n - 1)"
| "x86_CF (Oper CC_OP_UMUL n r a b) \<longleftrightarrow> 2 ^ (n div 2) \<le> r"
| "x86_CF (Oper CC_OP_SMUL n r a b) \<longleftrightarrow> overflows (n div 2) (sval n r)"
| "x86_CF (Oper CC_OP_BT n r a b) \<longleftrightarrow> r = 1"
| "x86_CF (Oper _ n r a b) \<longleftrightarrow> False"

fun x86_OF :: "oper \<Rightarrow> bool" where
  "x86_OF (Oper CC_OP_ADD n r a b) \<longleftrightarrow> overflows n (sval n a + sval n b)"
| "x86_OF (Oper CC_OP_SUB n r a b) \<longleftrightarrow> overflows n (sval n a - sval n b)"
| "x86_OF (Oper CC_OP_INC n r a b) \<longleftrightarrow> overflows n (sval n a + 1)"
| "x86_OF (Oper CC_OP_DEC n r a b) \<longleftrightarrow> overflows n (sval n a - 1)"
| "x86_OF (Oper CC_OP_SHL n r a b) \<longleftrightarrow> bit r (n - 1) \<noteq> bit a (n - 1)"
| "x86_OF (Oper CC_OP_SHR n r a b) \<longleftrightarrow> bit r (n - 1) \<noteq> bit a (n - 1)"
| "x86_OF (Oper CC_OP_ROL n r a b) \<longleftrightarrow> bit r (n - 1) \<noteq> bit r 0"
| "x86_OF (Oper CC_OP_ROR n r a b) \<longleftrightarrow> bit r (n - 1) \<noteq> bit r (n - 2)"
| "x86_OF (Oper CC_OP_UMUL n r a b) \<longleftrightarrow> 2 ^ (n div 2) \<le> r"
| "x86_OF (Oper CC_OP_SMUL n r a b) \<longleftrightarrow> overflows (n div 2) (sval n r)"
| "x86_OF (Oper _ n r a b) \<longleftrightarrow> False"

definition x86_flag :: "oper \<Rightarrow> eflag \<Rightarrow> bool" where
  "x86_flag p f = (case f of
     EFLAGS_CF \<Rightarrow> x86_CF p
   | EFLAGS_OF \<Rightarrow> x86_OF p
   | EFLAGS_ZF \<Rightarrow> oper_result p = 0
   | EFLAGS_SF \<Rightarrow> sval (oper_width p) (oper_result p) < 0
   | EFLAGS_PF \<Rightarrow> even (length (filter (bit (oper_result p)) [0..<8]))
   | EFLAGS_AF \<Rightarrow> False)"

text \<open>What the code computes: for products, carry and overflow are the opposite.\<close>

definition code_flag :: "oper \<Rightarrow> eflag \<Rightarrow> bool" where
  "code_flag p f \<longleftrightarrow>
     (if oper_kind p \<in> {CC_OP_SMUL, CC_OP_UMUL} \<and> f \<in> {EFLAGS_CF, EFLAGS_OF}
      then \<not> x86_flag p f else x86_flag p f)"

text \<open>The recorded expressions mean the numbers of the operation.\<close>

definition means :: "bool \<Rightarrow> assignment \<Rightarrow> expr option \<Rightarrow> dval \<Rightarrow> bool" where
  "means dv \<rho> e v \<longleftrightarrow> (case e of None \<Rightarrow> False | Some x \<Rightarrow> den dv \<rho> x = Some v)"

lemma means_Some [simp]: "means dv \<rho> (Some x) v \<longleftrightarrow> den dv \<rho> x = Some v"
  by (simp add: means_def)

lemma means_None [simp]: "\<not> means dv \<rho> None v"
  by (simp add: means_def)

lemma meansE: "means dv \<rho> e v \<Longrightarrow> (\<And>x. e = Some x \<Longrightarrow> den dv \<rho> x = Some v \<Longrightarrow> P) \<Longrightarrow> P"
  by (cases e) auto

fun op_means :: "bool \<Rightarrow> assignment \<Rightarrow> flag_operation \<Rightarrow> oper \<Rightarrow> bool" where
  "op_means dv \<rho> op (Oper k n r a b) \<longleftrightarrow>
     op_flags op = getEflagsFromOpKind k \<and>
     means dv \<rho> (op_result op) (if k = CC_OP_BT then BoolV (r = 1) else BV n r) \<and>
     (k \<in> {CC_OP_ADD, CC_OP_SUB, CC_OP_INC, CC_OP_DEC, CC_OP_SHL, CC_OP_SHR} \<longrightarrow>
        means dv \<rho> (op_dst op) (BV n a)) \<and>
     (k \<in> {CC_OP_ADD, CC_OP_SUB} \<longrightarrow> means dv \<rho> (op_src op) (BV n b))"

subsection \<open>Each expression has the value of the flag\<close>

lemma parity_Cons:
  "odd (length (filter P (i # is))) = (P i \<noteq> odd (length (filter P is)))"
  by simp

context sound_builder
begin

lemma bit_xor_law:
  "I s \<Longrightarrow> den dv \<rho> x = Some (BV 1 (of_bool p)) \<Longrightarrow> den dv \<rho> y = Some (BV 1 (of_bool q)) \<Longrightarrow>
   runs t I (createBinaryExpr B Xor x y s) (\<lambda>e. den dv \<rho> e = Some (BV 1 (of_bool (p \<noteq> q))))"
  by (rule xor_bv, assumption, assumption, assumption) (cases p; cases q; simp)

lemma bit_and_law:
  "I s \<Longrightarrow> den dv \<rho> x = Some (BV 1 (of_bool p)) \<Longrightarrow> den dv \<rho> y = Some (BV 1 (of_bool q)) \<Longrightarrow>
   runs t I (createBinaryExpr B And x y s) (\<lambda>e. den dv \<rho> e = Some (BV 1 (of_bool (p \<and> q))))"
  by (rule and_bv, assumption, assumption, assumption) (cases p; cases q; simp)

lemma bit_test_law:
  "I s \<Longrightarrow> den dv \<rho> x = Some (BV 1 (of_bool p)) \<Longrightarrow>
   runs t I (bitToBool B x s) (\<lambda>e. den dv \<rho> e = Some (BoolV p))"
  using bitToBool_law [of s x "of_bool p"] by simp

lemma bit_extract_law:
  "I s \<Longrightarrow> den dv \<rho> x = Some (BV n a) \<Longrightarrow> i < n \<Longrightarrow>
   runs t I (createExtract B x i 1 s) (\<lambda>e. den dv \<rho> e = Some (BV 1 (of_bool (bit a i))))"
  using extract_bv [of s x n a 1 i] by (simp add: bv_extract_bit)

lemma parity_loop_law:
  "I s \<Longrightarrow> den dv \<rho> r = Some (BV n a) \<Longrightarrow> \<forall>i \<in> set is. i < n \<Longrightarrow>
   den dv \<rho> x = Some (BV 1 (of_bool p)) \<Longrightarrow>
   runs t I (computePF_loop B r is (Some x) s)
     (\<lambda>e. means dv \<rho> e (BV 1 (of_bool (p \<noteq> odd (length (filter (bit a) is))))))"
proof (induction "is" arbitrary: s x p)
  case (Cons i "is")
  have step: "runs t I (computePF_loop B r is (Some y) s')
      (\<lambda>e. means dv \<rho> e (BV 1 (of_bool (p \<noteq> odd (length (filter (bit a) (i # is)))))))"
    if "I s'" "den dv \<rho> y = Some (BV 1 (of_bool (bit a i \<noteq> p)))" for s' y
    using Cons.IH [OF that(1) Cons.prems(2) _ that(2)] Cons.prems(3)
    by (auto elim!: runs_mono simp: parity_Cons)
  show ?case
    unfolding computePF_loop.simps option.case
    by (rule runs_bind_pair [OF bit_extract_law [OF Cons.prems(1,2)]], use Cons.prems(3) in simp,
      rule runs_bind_pair [OF bit_xor_law [OF _ _ Cons.prems(4)]], assumption, assumption, rule step)
qed simp

lemma computePF_law:
  assumes "I s" "means dv \<rho> (op_result op) (BV n r)" "8 \<le> n"
  shows "runs t I (computePF B op s)
    (\<lambda>e. den dv \<rho> e = Some (BoolV (even (length (filter (bit r) [0..<8])))))"
proof -
  obtain x where x: "op_result op = Some x" "den dv \<rho> x = Some (BV n r)"
    using assms(2) by (rule meansE)
  have first: "[0..<8] = 0 # [1..<8]"
    by (simp add: upt_conv_Cons)
  have loop: "runs t I (computePF_loop B x [0..<8] None s')
      (\<lambda>e. means dv \<rho> e (BV 1 (of_bool (odd (length (filter (bit r) [0..<8]))))))" if "I s'" for s'
  proof -
    have n: "0 < n" "\<forall>i \<in> set [1..<8]. i < n"
      using assms(3) by auto
    show ?thesis
      unfolding first computePF_loop.simps option.case bind.bind_lunit prod.case parity_Cons
      by (rule runs_bind_pair [OF bit_extract_law [OF that x(2) n(1)]], rule parity_loop_law [OF _ x(2) n(2)])
  qed
  have last: "runs t I (Option.bind e (\<lambda>e. createBinaryExpr B Equal z e s'))
      (\<lambda>e. den dv \<rho> e = Some (BoolV (even (length (filter (bit r) [0..<8])))))"
    if "I s'" "den dv \<rho> z = Some (BV 1 0)"
      "means dv \<rho> e (BV 1 (of_bool (odd (length (filter (bit r) [0..<8])))))" for e z s'
    using that(3)
    by (rule meansE) (auto intro!: compare_bv [OF that(1,2)] simp: compareKind_def)
  show ?thesis
    unfolding computePF_def x(1) bind.bind_lunit
    by (rule runs_bind_pair [OF const_0 [OF assms(1)]], simp,
      rule runs_bind_pair [OF loop], assumption, rule last)
qed

end

context sound_builder
begin

lemmas xor_step = runs_bind_pair [OF xor_bv [OF _ _ _ refl]]
lemmas msb_step = runs_bind_pair [OF msb_law]
lemmas lsb_step = runs_bind_pair [OF lsb_law]
lemmas bit_and_step = runs_bind_pair [OF bit_and_law]
lemmas bit_xor_step = runs_bind_pair [OF bit_xor_law]

lemma Add_computeOF_law:
  assumes s: "I s" and n: "0 < n"
    and r: "means dv \<rho> (op_result op) (BV n (take_bit n (a + b)))"
    and d: "means dv \<rho> (op_dst op) (BV n a)" and x: "means dv \<rho> (op_src op) (BV n b)"
  shows "runs t I (Add_computeOF B op s) (\<lambda>e. den dv \<rho> e = Some (BoolV (overflows n (sval n a + sval n b))))"
proof -
  obtain er ed ex where e: "op_result op = Some er" "op_dst op = Some ed" "op_src op = Some ex"
    and den: "den dv \<rho> er = Some (BV n (take_bit n (a + b)))" "den dv \<rho> ed = Some (BV n a)"
      "den dv \<rho> ex = Some (BV n b)"
    using r d x by (meson meansE)
  have ab: "in_range n a" "in_range n b"
    using den(2,3) den_BV by blast+
  have same: "bit (take_bit n (NOT (a XOR b))) (n - 1) \<longleftrightarrow> bit a (n - 1) = bit b (n - 1)"
    using n by (auto simp: bit_simps)
  have "runs t I (Add_computeOF B op s) (\<lambda>e. den dv \<rho> e = Some (BoolV
      (bit (take_bit n (NOT (a XOR b))) (n - 1) \<and> bit (take_bit n (a + b) XOR a) (n - 1))))"
    unfolding Add_computeOF_def e bind.bind_lunit
    by (rule xor_step [OF s den(2,3)], rule runs_bind_pair [OF not_bv], assumption, assumption,
      rule msb_step, assumption, assumption, rule xor_step [OF _ den(1,2)], assumption,
      rule msb_step, assumption, assumption, rule bit_and_step, assumption+, rule bit_test_law, assumption+)
  then show ?thesis
    unfolding same bit_xor_iff add_overflow [OF n ab, symmetric] .
qed

lemma Sub_computeOF_law:
  assumes s: "I s" and n: "0 < n"
    and r: "means dv \<rho> (op_result op) (BV n (take_bit n (a - b)))"
    and d: "means dv \<rho> (op_dst op) (BV n a)" and x: "means dv \<rho> (op_src op) (BV n b)"
  shows "runs t I (Sub_computeOF B op s) (\<lambda>e. den dv \<rho> e = Some (BoolV (overflows n (sval n a - sval n b))))"
proof -
  obtain er ed ex where e: "op_result op = Some er" "op_dst op = Some ed" "op_src op = Some ex"
    and den: "den dv \<rho> er = Some (BV n (take_bit n (a - b)))" "den dv \<rho> ed = Some (BV n a)"
      "den dv \<rho> ex = Some (BV n b)"
    using r d x by (meson meansE)
  have ab: "in_range n a" "in_range n b"
    using den(2,3) den_BV by blast+
  have "runs t I (Sub_computeOF B op s) (\<lambda>e. den dv \<rho> e = Some (BoolV
      (bit (a XOR b) (n - 1) \<and> bit (take_bit n (a - b) XOR a) (n - 1))))"
    unfolding Sub_computeOF_def e bind.bind_lunit
    by (rule xor_step [OF s den(2,3)], rule msb_step, assumption, assumption,
      rule xor_step [OF _ den(1,2)], assumption, rule msb_step, assumption, assumption,
      rule bit_and_step, assumption+, rule bit_test_law, assumption+)
  then show ?thesis
    unfolding bit_xor_iff sub_overflow [OF n ab, symmetric] .
qed

end

lemma in_range_top:
  assumes "0 < n"
  shows "in_range n (2 ^ (n - 1)) \<and> in_range n (2 ^ (n - 1) - 1)"
proof -
  have "(1 :: int) \<le> 2 ^ (n - 1)"
    by simp
  then show ?thesis
    unfolding in_range_double [OF assms] by linarith
qed

lemma apint_top:
  assumes "apint_ok A" "0 < n"
  shows "ap_shl A n (ap_add A n 0 1) (int (n - 1)) = 2 ^ (n - 1)"
    and "ap_sub A n (2 ^ (n - 1)) 1 = 2 ^ (n - 1) - 1"
proof -
  have one: "ap_add A n 0 1 = 1"
    using apint_okD [OF assms, of 0 1] assms(2) by (simp add: in_range_def flip: in_range_take_bit)
  have less: "int (n - 1) < 2 ^ n"
  proof -
    have "n - 1 < 2 ^ n"
      by (meson diff_le_self le_less_trans less_exp)
    then show ?thesis
      by (metis of_nat_less_iff of_nat_numeral of_nat_power)
  qed
  have top: "in_range n (2 ^ (n - 1))"
    using assms(2) by (simp add: in_range_def)
  have "ap_shl A n 1 (int (n - 1)) = bv_shl n 1 (int (n - 1))"
    using apint_okD [OF assms, of 1 "int (n - 1)"] assms(2) less by (simp add: in_range_def)
  also have "\<dots> = take_bit n (2 ^ (n - 1))"
    using assms(2) unfolding bv_shl_def nat_int by (simp add: push_bit_eq_mult)
  also have "\<dots> = 2 ^ (n - 1)"
    using top by (simp add: in_range_take_bit)
  finally show "ap_shl A n (ap_add A n 0 1) (int (n - 1)) = 2 ^ (n - 1)"
    by (simp add: one)
  have "in_range n ((2 :: int) ^ (n - 1) - 1)"
    using in_range_top [OF assms(2)] by simp
  then show "ap_sub A n (2 ^ (n - 1)) 1 = 2 ^ (n - 1) - 1"
    using apint_okD [OF assms top, of 1] assms(2) by (simp add: in_range_take_bit)
qed

context sound_builder
begin

lemma equal_law:
  "I s \<Longrightarrow> den dv \<rho> l = Some (BV n a) \<Longrightarrow> den dv \<rho> r = Some (BV n b) \<Longrightarrow>
   runs t I (createBinaryExpr B Equal l r s) (\<lambda>e. den dv \<rho> e = Some (BoolV (a = b)))"
  by (rule compare_bv) (simp_all add: compareKind_def)

lemma ult_law:
  "I s \<Longrightarrow> den dv \<rho> l = Some (BV n a) \<Longrightarrow> den dv \<rho> r = Some (BV n b) \<Longrightarrow>
   runs t I (createBinaryExpr B Ult l r s) (\<lambda>e. den dv \<rho> e = Some (BoolV (a < b)))"
  by (rule compare_bv) (simp_all add: compareKind_def)

lemma slt_law:
  "I s \<Longrightarrow> den dv \<rho> l = Some (BV n a) \<Longrightarrow> den dv \<rho> r = Some (BV n b) \<Longrightarrow>
   runs t I (createBinaryExpr B Slt l r s) (\<lambda>e. den dv \<rho> e = Some (BoolV (sval n a < sval n b)))"
  by (rule compare_bv) (simp_all add: compareKind_def)

lemma Inc_computeOF_law:
  assumes s: "I s" and A: "apint_ok A" and r: "means dv \<rho> (op_result op) (BV n (take_bit n (a + 1)))"
    and a: "in_range n a"
  shows "runs t I (Inc_computeOF A B op s) (\<lambda>e. den dv \<rho> e = Some (BoolV (overflows n (sval n a + 1))))"
proof -
  obtain er where e: "op_result op = Some er" and den: "den dv \<rho> er = Some (BV n (take_bit n (a + 1)))"
    using r by (rule meansE)
  have n: "bits er = n" "0 < n"
    using den_BV [OF den] by simp_all
  show ?thesis
    unfolding Inc_computeOF_def e bind.bind_lunit Let_def n(1) apint_top [OF A n(2)] inc_overflow [OF n(2) a, symmetric]
    by (rule runs_bind_pair [OF constAP_law [OF s n(2)]], use n(2) in \<open>simp add: in_range_def\<close>,
      rule equal_law [OF _ den], assumption+)
qed

lemma Dec_computeOF_law:
  assumes s: "I s" and A: "apint_ok A" and r: "means dv \<rho> (op_result op) (BV n (take_bit n (a - 1)))"
    and a: "in_range n a"
  shows "runs t I (Dec_computeOF A B op s) (\<lambda>e. den dv \<rho> e = Some (BoolV (overflows n (sval n a - 1))))"
proof -
  obtain er where e: "op_result op = Some er" and den: "den dv \<rho> er = Some (BV n (take_bit n (a - 1)))"
    using r by (rule meansE)
  have n: "bits er = n" "0 < n"
    using den_BV [OF den] by simp_all
  have top: "in_range n ((2 :: int) ^ (n - 1) - 1)"
    using in_range_top [OF n(2)] by simp
  show ?thesis
    unfolding Dec_computeOF_def e bind.bind_lunit Let_def n(1) apint_top [OF A n(2)] inc_overflow [OF n(2) a, symmetric]
    by (rule runs_bind_pair [OF constAP_law [OF s n(2) top]], rule equal_law [OF _ den], assumption+)
qed

lemma Shift_computeOF_law:
  assumes s: "I s" and r: "means dv \<rho> (op_result op) (BV n r)" and d: "means dv \<rho> (op_dst op) (BV n a)"
  shows "runs t I (Shift_computeOF B op s) (\<lambda>e. den dv \<rho> e = Some (BoolV (bit r (n - 1) \<noteq> bit a (n - 1))))"
proof -
  obtain er ed where e: "op_result op = Some er" "op_dst op = Some ed"
    and den: "den dv \<rho> er = Some (BV n r)" "den dv \<rho> ed = Some (BV n a)"
    using r d by (meson meansE)
  show ?thesis
    unfolding Shift_computeOF_def e bind.bind_lunit bit_xor_iff [symmetric]
    by (rule xor_step [OF s den], rule msb_step, assumption, assumption, rule bit_test_law, assumption+)
qed

lemma Rol_computeOF_law:
  assumes s: "I s" and r: "means dv \<rho> (op_result op) (BV n r)"
  shows "runs t I (Rol_computeOF B op s) (\<lambda>e. den dv \<rho> e = Some (BoolV (bit r (n - 1) \<noteq> bit r 0)))"
proof -
  obtain er where e: "op_result op = Some er" and den: "den dv \<rho> er = Some (BV n r)"
    using r by (rule meansE)
  show ?thesis
    unfolding Rol_computeOF_def e bind.bind_lunit bit_0
    by (rule msb_step [OF s den], rule lsb_step [OF _ den], assumption, rule bit_xor_step, assumption+,
      rule bit_test_law, assumption+)
qed

lemma Ror_computeOF_law:
  assumes s: "I s" and r: "means dv \<rho> (op_result op) (BV n r)"
  shows "runs t I (Ror_computeOF B op s) (\<lambda>e. den dv \<rho> e = Some (BoolV (bit r (n - 1) \<noteq> bit r (n - 2))))"
proof -
  obtain er where e: "op_result op = Some er" and den: "den dv \<rho> er = Some (BV n r)"
    using r by (rule meansE)
  have n: "bits er = n" "n - 2 < n"
    using den_BV [OF den] by simp_all
  show ?thesis
    unfolding Ror_computeOF_def e bind.bind_lunit n(1)
    by (rule msb_step [OF s den], rule runs_bind_pair [OF bit_extract_law [OF _ den n(2)]], assumption,
      rule bit_xor_step, assumption+, rule bit_test_law, assumption+)
qed

end

lemma sval_sval: "m \<le> n \<Longrightarrow> sval m (sval n r) = sval m r" "m \<le> n \<Longrightarrow> sval n (sval m r) = sval m r"
proof -
  assume "m \<le> n"
  then have "min (m - 1) (n - 1) = m - 1" "min (n - 1) (m - 1) = m - 1"
    by simp_all
  then show "sval m (sval n r) = sval m r" "sval n (sval m r) = sval m r"
    by (simp_all add: sval_def)
qed

lemma sval_take_bit: "0 < n \<Longrightarrow> sval n (take_bit n r) = sval n r"
  by (auto simp: sval_def signed_take_bit_take_bit)

lemma sext_half:
  assumes "0 < h" "h \<le> n" "in_range n r"
  shows "take_bit n (sval h (take_bit h r)) = r \<longleftrightarrow> \<not> overflows h (sval n r)"
proof -
  have n: "0 < n"
    using assms by simp
  have "take_bit n (sval h r) = r \<longleftrightarrow> sval h r = sval n r"
  proof
    assume "take_bit n (sval h r) = r"
    then have "sval n r = sval n (take_bit n (sval h r))"
      by simp
    also have "\<dots> = sval h r"
      using assms(2) n by (simp add: sval_take_bit sval_sval)
    finally show "sval h r = sval n r" ..
  next
    assume "sval h r = sval n r"
    then show "take_bit n (sval h r) = r"
      using n assms(3) by (simp add: take_bit_sval in_range_take_bit)
  qed
  also have "\<dots> \<longleftrightarrow> sval h (sval n r) = sval n r"
    using assms(2) by (simp add: sval_sval)
  also have "\<dots> \<longleftrightarrow> \<not> overflows h (sval n r)"
    unfolding sval_def [of h] signed_take_bit_int_eq_self_iff overflows_def by auto
  finally show ?thesis
    using assms(1) by (simp add: sval_take_bit)
qed

lemma zext_half: "in_range n r \<Longrightarrow> take_bit h r = r \<longleftrightarrow> \<not> 2 ^ h \<le> r"
  by (auto simp: take_bit_int_eq_self_iff in_range_def)

context sound_builder
begin

lemma Mul_computeOF_law:
  assumes s: "I s" and r: "means dv \<rho> (op_result op) (BV n r)" and n: "8 \<le> n"
  shows "runs t I (Mul_computeOF B op sign s) (\<lambda>e. den dv \<rho> e =
    Some (BoolV (\<not> (if sign then overflows (n div 2) (sval n r) else 2 ^ (n div 2) \<le> r))))"
proof -
  obtain er where e: "op_result op = Some er" and den: "den dv \<rho> er = Some (BV n r)"
    using r by (rule meansE)
  have b: "bits er = n" "in_range n r"
    using den_BV [OF den] by simp_all
  have h: "0 < n div 2" "0 + n div 2 \<le> n" "n div 2 \<le> n"
    using n by simp_all
  have half: "bv_extract 0 (n div 2) r = take_bit (n div 2) r"
    by (simp add: bv_extract_def)
  show ?thesis
  proof (cases sign)
    case True
    then have sign: "sign = True"
      by simp
    show ?thesis
      unfolding Mul_computeOF_def e bind.bind_lunit b(1) sign if_True sext_half [OF h(1,3) b(2), symmetric] half [symmetric]
      by (rule runs_bind_pair [OF extract_bv [OF s den h(1,2)]],
        rule runs_bind_pair [OF sext_bv [OF _ _ h(3)]], assumption, assumption, rule equal_law [OF _ _ den], assumption+)
  next
    case False
    then have sign: "sign = False"
      by simp
    show ?thesis
      unfolding Mul_computeOF_def e bind.bind_lunit b(1) sign if_False zext_half [OF b(2), symmetric] half [symmetric]
      by (rule runs_bind_pair [OF extract_bv [OF s den h(1,2)]],
        rule runs_bind_pair [OF zext_bv [OF _ _ h(3)]], assumption, assumption, rule equal_law [OF _ _ den], assumption+)
  qed
qed

lemma computeZF_law:
  assumes "I s" "means dv \<rho> (op_result op) (BV n r)"
  shows "runs t I (computeZF B op s) (\<lambda>e. den dv \<rho> e = Some (BoolV (r = 0)))"
  using assms(2)
proof (rule meansE)
  fix x
  assume x: "op_result op = Some x" "den dv \<rho> x = Some (BV n r)"
  then have n: "bits x = n" "0 < n"
    using den_BV by blast+
  show ?thesis
    unfolding computeZF_def x(1) bind.bind_lunit n(1)
    by (rule runs_bind_pair [OF const_0 [OF assms(1) n(2)]], rule equal_law [OF _ x(2)], assumption+)
qed

lemma computeSF_law:
  assumes "I s" "means dv \<rho> (op_result op) (BV n r)"
  shows "runs t I (computeSF B op s) (\<lambda>e. den dv \<rho> e = Some (BoolV (sval n r < 0)))"
  using assms(2)
proof (rule meansE)
  fix x
  assume x: "op_result op = Some x" "den dv \<rho> x = Some (BV n r)"
  then have n: "bits x = n" "0 < n"
    using den_BV by blast+
  have zero: "sval n 0 = 0"
    by (simp add: sval_def)
  have "runs t I (computeSF B op s) (\<lambda>e. den dv \<rho> e = Some (BoolV (sval n r < sval n 0)))"
    unfolding computeSF_def x(1) bind.bind_lunit n(1)
    by (rule runs_bind_pair [OF const_0 [OF assms(1) n(2)]], rule slt_law [OF _ x(2)], assumption+)
  then show ?thesis
    unfolding zero .
qed

lemma compare_CF_law:
  assumes "I s" "means dv \<rho> l (BV n a)" "means dv \<rho> r (BV n b)"
  shows "runs t I (do { x \<leftarrow> l; y \<leftarrow> r; createBinaryExpr B Ult x y s }) (\<lambda>e. den dv \<rho> e = Some (BoolV (a < b)))"
  using assms by (auto elim!: meansE intro!: ult_law)

lemma msb_CF_law:
  assumes "I s" "means dv \<rho> x (BV n a)"
  shows "runs t I (do { d \<leftarrow> x; (e, s) \<leftarrow> createMsb B d s; bitToBool B e s })
    (\<lambda>e. den dv \<rho> e = Some (BoolV (bit a (n - 1))))"
  using assms(2)
proof (rule meansE)
  fix d
  assume d: "x = Some d" "den dv \<rho> d = Some (BV n a)"
  show ?thesis
    unfolding d(1) bind.bind_lunit
    by (rule msb_step [OF assms(1) d(2)], rule bit_test_law, assumption+)
qed

lemma lsb_CF_law:
  assumes "I s" "means dv \<rho> x (BV n a)"
  shows "runs t I (do { d \<leftarrow> x; (e, s) \<leftarrow> createLsb B d s; bitToBool B e s })
    (\<lambda>e. den dv \<rho> e = Some (BoolV (bit a 0)))"
  using assms(2)
proof (rule meansE)
  fix d
  assume d: "x = Some d" "den dv \<rho> d = Some (BV n a)"
  show ?thesis
    unfolding d(1) bind.bind_lunit bit_0
    by (rule lsb_step [OF assms(1) d(2)], rule bit_test_law, assumption+)
qed

end

subsection \<open>The flags that an operation affects\<close>

definition affects :: "op_kind \<Rightarrow> eflag \<Rightarrow> bool" where
  "affects k f \<longleftrightarrow> bit (getAffectedEflagsFromOpKind k) (eflag_bit f)"

definition spoils :: "op_kind \<Rightarrow> eflag \<Rightarrow> bool" where
  "spoils k f \<longleftrightarrow> bit (getUndefinedEflagsFromOpKind k) (eflag_bit f)"

lemma flags_of_kind: "bit (getEflagsFromOpKind k) (eflag_bit f) \<longleftrightarrow> affects k f \<or> spoils k f"
  by (simp add: getEflagsFromOpKind_def affects_def spoils_def bit_or_iff)

lemma bit_eflag [simp]: "bit (eflag f) (eflag_bit g) \<longleftrightarrow> f = g"
proof -
  have "bit (eflag f) (eflag_bit g) \<longleftrightarrow> eflag_bit f = eflag_bit g"
    by (cases g) (simp_all add: eflag_def push_bit_eq_mult bit_exp_iff)
  then show ?thesis
    by (cases f; cases g) simp_all
qed

lemma affects_iff [simp]:
  "affects CC_OP_BT f \<longleftrightarrow> f = EFLAGS_CF"
  "affects CC_OP_INC f \<longleftrightarrow> f \<in> {EFLAGS_PF, EFLAGS_ZF, EFLAGS_SF, EFLAGS_OF}"
  "affects CC_OP_DEC f \<longleftrightarrow> f \<in> {EFLAGS_PF, EFLAGS_ZF, EFLAGS_SF, EFLAGS_OF}"
  "affects CC_OP_ROR f \<longleftrightarrow> f \<in> {EFLAGS_CF, EFLAGS_OF}"
  "affects CC_OP_ROL f \<longleftrightarrow> f \<in> {EFLAGS_CF, EFLAGS_OF}"
  "k \<in> {CC_OP_ADD, CC_OP_SUB, CC_OP_LOGIC, CC_OP_SHL, CC_OP_SHR, CC_OP_SMUL, CC_OP_UMUL} \<Longrightarrow>
   affects k f \<longleftrightarrow> f \<noteq> EFLAGS_AF"
  unfolding affects_def by (cases f; auto simp: bit_or_iff simp del: eflag_bit.simps)+

lemma spoils_iff [simp]:
  "spoils k f \<longleftrightarrow> k = CC_OP_BT \<and> f \<in> {EFLAGS_OF, EFLAGS_SF, EFLAGS_AF, EFLAGS_PF}"
  unfolding spoils_def by (cases k; auto simp: bit_or_iff simp del: eflag_bit.simps)

context sound_builder
begin

lemma some_step:
  "runs t I m (\<lambda>e. den dv \<rho> e = Some v) \<Longrightarrow>
   runs t I (do { (e, s) \<leftarrow> m; Some (Some e, s) }) (\<lambda>e. means dv \<rho> e v)"
  by (erule runs_bind_pair) simp

lemma computeOF_law:
  assumes s: "I s" and A: "apint_ok A" and m: "op_means dv \<rho> op p" and d: "op_done p"
    and f: "affects (oper_kind p) EFLAGS_OF"
  shows "runs t I (computeOF A B (oper_kind p) op s) (\<lambda>e. den dv \<rho> e = Some (BoolV (code_flag p EFLAGS_OF)))"
proof (cases p)
  case (Oper k n r a b)
  note simps = code_flag_def x86_flag_def createFalse_def
  show ?thesis
    using m d f unfolding Oper
    by (cases k) (auto simp: simps simp del: not_iff intro: Add_computeOF_law Sub_computeOF_law Inc_computeOF_law
      Dec_computeOF_law Shift_computeOF_law Rol_computeOF_law Ror_computeOF_law bool_law s A
      Mul_computeOF_law [where sign = True, simplified, OF s] Mul_computeOF_law [where sign = False, simplified, OF s])
qed

lemma CF_laws:
  "I s \<Longrightarrow> means dv \<rho> (op_result op) (BV n r) \<Longrightarrow> means dv \<rho> (op_src op) (BV n b) \<Longrightarrow>
   runs t I (Add_computeCF B op s) (\<lambda>e. den dv \<rho> e = Some (BoolV (r < b)))"
  "I s \<Longrightarrow> means dv \<rho> (op_dst op) (BV n a) \<Longrightarrow> means dv \<rho> (op_src op) (BV n b) \<Longrightarrow>
   runs t I (Sub_computeCF B op s) (\<lambda>e. den dv \<rho> e = Some (BoolV (a < b)))"
  "I s \<Longrightarrow> means dv \<rho> (op_dst op) (BV n a) \<Longrightarrow>
   runs t I (Shl_computeCF B op s) (\<lambda>e. den dv \<rho> e = Some (BoolV (bit a (n - 1))))"
  "I s \<Longrightarrow> means dv \<rho> (op_dst op) (BV n a) \<Longrightarrow>
   runs t I (Shr_computeCF B op s) (\<lambda>e. den dv \<rho> e = Some (BoolV (bit a 0)))"
  "I s \<Longrightarrow> means dv \<rho> (op_result op) (BV n r) \<Longrightarrow>
   runs t I (Rol_computeCF B op s) (\<lambda>e. den dv \<rho> e = Some (BoolV (bit r 0)))"
  "I s \<Longrightarrow> means dv \<rho> (op_result op) (BV n r) \<Longrightarrow>
   runs t I (Ror_computeCF B op s) (\<lambda>e. den dv \<rho> e = Some (BoolV (bit r (n - 1))))"
  unfolding Add_computeCF_def Sub_computeCF_def Shl_computeCF_def Shr_computeCF_def Rol_computeCF_def
    Ror_computeCF_def
  by (rule compare_CF_law msb_CF_law lsb_CF_law; assumption)+

lemma computeCF_law:
  assumes s: "I s" and A: "apint_ok A" and m: "op_means dv \<rho> op p" and d: "op_done p"
    and f: "affects (oper_kind p) EFLAGS_CF"
  shows "runs t I (computeCF A B (oper_kind p) op s) (\<lambda>e. means dv \<rho> e (BoolV (code_flag p EFLAGS_CF)))"
proof (cases p)
  case (Oper k n r a b)
  note simps = code_flag_def x86_flag_def createFalse_def add_carry [symmetric]
  show ?thesis
    using m d f unfolding Oper
    by (cases k) (auto simp: simps simp del: not_iff intro!: some_step intro: CF_laws bool_law s
      Mul_computeOF_law [where sign = True, simplified, OF s] Mul_computeOF_law [where sign = False, simplified, OF s])
qed

text \<open>The flag of an operation that affects it.\<close>

lemma flag_of_law:
  assumes s: "I s" and A: "apint_ok A" and m: "op_means dv \<rho> op p" and d: "op_done p"
    and f: "affects (oper_kind p) f"
  shows "runs t I (flag_of A B (oper_kind p) op f s) (\<lambda>e. means dv \<rho> e (BoolV (code_flag p f)))"
proof (cases p)
  case (Oper k n r a b)
  have bv: "means dv \<rho> (op_result op) (BV n r)" "8 \<le> n" if "k \<noteq> CC_OP_BT"
    using m d that by (auto simp: Oper)
  have bt: "k \<noteq> CC_OP_BT" if "f \<noteq> EFLAGS_CF"
    using f that by (auto simp: Oper)
  have f': "f \<noteq> EFLAGS_AF"
    using f by (cases k) (auto simp: Oper)
  show ?thesis
  proof (cases f)
    case EFLAGS_CF
    then show ?thesis
      using computeCF_law [OF s A m d] f by (simp add: flag_of_def)
  next
    case EFLAGS_OF
    then show ?thesis
      using some_step [OF computeOF_law [OF s A m d]] f by (simp add: flag_of_def)
  next
    case EFLAGS_PF
    then show ?thesis
      using some_step [OF computePF_law [OF s bv]] bt
      by (simp add: flag_of_def code_flag_def x86_flag_def Oper)
  next
    case EFLAGS_ZF
    then show ?thesis
      using some_step [OF computeZF_law [OF s bv(1)]] bt
      by (simp add: flag_of_def code_flag_def x86_flag_def Oper)
  next
    case EFLAGS_SF
    then show ?thesis
      using some_step [OF computeSF_law [OF s bv(1)]] bt
      by (simp add: flag_of_def code_flag_def x86_flag_def Oper)
  qed (use f' in simp)
qed

end

subsection \<open>The ring of operations\<close>

text \<open>
  \<open>h\<close> lists all operations that were set, the last one first. The ring holds the kinds of the last
  twelve, and for each kind the object holds the last operation of that kind.
\<close>

definition touches :: "op_kind \<Rightarrow> eflag \<Rightarrow> bool" where
  "touches k f \<longleftrightarrow> affects k f \<or> spoils k f"

definition ring_ok :: "bool \<Rightarrow> assignment \<Rightarrow> oper list \<Rightarrow> eflags \<Rightarrow> bool" where
  "ring_ok dv \<rho> h E \<longleftrightarrow>
     length (op_kinds E) = CC_OP_LAST \<and> start E = of_nat (length h mod CC_OP_LAST) \<and>
     (\<forall>i < length h. i < CC_OP_LAST \<longrightarrow>
        op_kinds E ! ((length h - i) mod CC_OP_LAST) = Some (oper_kind (h ! i))) \<and>
     (\<forall>p \<in> set h. op_done p) \<and>
     (\<forall>i < length h. (\<forall>j < i. oper_kind (h ! j) \<noteq> oper_kind (h ! i)) \<longrightarrow>
        op_means dv \<rho> (operations E (oper_kind (h ! i))) (h ! i))"

lemma unat_small: "n < 2 ^ 32 \<Longrightarrow> unat (of_nat n :: 32 word) = n"
  by (simp add: unat_of_nat take_bit_nat_eq_self)

lemma word_slot:
  assumes "j \<le> m" "m < CC_OP_LAST"
  shows "unat ((of_nat m - of_nat j :: 32 word) mod of_nat CC_OP_LAST) = m - j"
proof -
  have "(of_nat m - of_nat j :: 32 word) = of_nat (m - j)"
    using assms(1) by simp
  moreover have "unat (of_nat (m - j) :: 32 word) = m - j"
    using assms by (intro unat_small) (simp add: CC_OP_LAST_def)
  ultimately show ?thesis
    using assms by (simp add: unat_mod_distrib CC_OP_LAST_def)
qed

lemma next_start:
  "((of_nat (n mod CC_OP_LAST) + 1) mod of_nat CC_OP_LAST :: 32 word) = of_nat (Suc n mod CC_OP_LAST)"
proof -
  have less: "n mod 12 < 12"
    by simp
  have "unat ((of_nat (n mod 12) + 1) mod (12 :: 32 word)) = (n mod 12 + 1) mod 12"
  proof -
    have "(of_nat (n mod 12) + 1 :: 32 word) = of_nat (n mod 12 + 1)"
      by simp
    moreover have "unat (of_nat (n mod 12 + 1) :: 32 word) = n mod 12 + 1"
      using less by (intro unat_small) simp
    ultimately show ?thesis
      by (simp add: unat_mod_distrib)
  qed
  also have "\<dots> = Suc n mod 12"
    by (metis Suc_eq_plus1 mod_add_left_eq)
  also have "\<dots> = unat (of_nat (Suc n mod 12) :: 32 word)"
    by (intro unat_small [symmetric]) (rule less_trans [of _ 12], simp_all)
  finally show ?thesis
    by (simp add: CC_OP_LAST_def word_unat_eq_iff)
qed

lemma ring_ok_init: "ring_ok dv \<rho> [] Eflags"
  by (simp add: ring_ok_def Eflags_def)

lemma invalidate_simps [simp]:
  "operations (invalidate k E) = operations E" "op_kinds (invalidate k E) = op_kinds E"
  "start (invalidate k E) = start E"
  by (simp_all add: invalidate_def)

lemma ring_ok_invalidate [simp]: "ring_ok dv \<rho> h (invalidate k E) \<longleftrightarrow> ring_ok dv \<rho> h E"
  by (simp add: ring_ok_def)

lemma slot_of_last:
  assumes "i < CC_OP_LAST" "i \<le> n" "(n - i) mod CC_OP_LAST = n mod CC_OP_LAST"
  shows "i = 0"
proof -
  have "n mod 12 = (n - i) mod 12 \<longleftrightarrow> 12 dvd n - (n - i)"
    by (rule mod_eq_dvd_iff_nat) simp
  with assms have "12 dvd i"
    by (simp add: CC_OP_LAST_def)
  with assms(1) show ?thesis
    by (auto simp: CC_OP_LAST_def dest: dvd_imp_le)
qed

lemma ring_ok_set:
  assumes ring: "ring_ok dv \<rho> h E" and p: "op_done p"
    and m: "op_means dv \<rho> (FlagOperation_set now (oper_kind p) r d x) p"
  shows "ring_ok dv \<rho> (p # h) (Eflags_set (oper_kind p) r d x E)"
proof -
  let ?n = "length h" and ?k = "oper_kind p"
  have slot: "unat (of_nat (Suc ?n mod CC_OP_LAST) :: 32 word) = Suc ?n mod CC_OP_LAST"
    by (intro unat_small) (rule less_trans [of _ 12], simp_all add: CC_OP_LAST_def)
  have st: "(start E + 1) mod of_nat CC_OP_LAST = of_nat (Suc ?n mod CC_OP_LAST)"
    using ring by (simp add: ring_ok_def next_start)
  have kinds: "(op_kinds E)[Suc ?n mod CC_OP_LAST := Some ?k] ! ((Suc ?n - i) mod CC_OP_LAST) =
      Some (oper_kind ((p # h) ! i))" if "i < Suc ?n" "i < CC_OP_LAST" for i
  proof (cases i)
    case 0
    then show ?thesis
      using ring by (simp add: ring_ok_def CC_OP_LAST_def)
  next
    case (Suc j)
    then have "(Suc ?n - i) mod CC_OP_LAST \<noteq> Suc ?n mod CC_OP_LAST"
      using slot_of_last [of i "Suc ?n"] that by auto
    then show ?thesis
      using ring that Suc by (simp add: ring_ok_def)
  qed
  have m': "op_means dv \<rho> (FlagOperation_set t ?k r d x) p" for t
    using m by (cases p) (simp add: FlagOperation_set_def)
  have ops: "op_means dv \<rho> (((operations E)(?k := FlagOperation_set (kTimeStampCounter E) ?k r d x))
      (oper_kind ((p # h) ! i))) ((p # h) ! i)"
    if "i < Suc ?n" "\<forall>j < i. oper_kind ((p # h) ! j) \<noteq> oper_kind ((p # h) ! i)" for i
  proof (cases i)
    case 0
    then show ?thesis
      by (simp add: m')
  next
    case (Suc j)
    have "?k \<noteq> oper_kind (h ! j)"
      using that(2) Suc by (metis nth_Cons_0 nth_Cons_Suc zero_less_Suc)
    moreover have "\<forall>l < j. oper_kind (h ! l) \<noteq> oper_kind (h ! j)"
      using that(2) Suc by (metis Suc_mono nth_Cons_Suc)
    ultimately show ?thesis
      using ring that(1) Suc by (simp add: ring_ok_def)
  qed
  show ?thesis
    using ring p kinds ops st unfolding ring_ok_def Eflags_set_def validate_def Let_def
    by (simp add: slot)
qed

text \<open>
  The flag \<open>f\<close> stems from the operation \<open>i\<close> places before the last one, and the walk finds it: it
  does not pass the first slot of the array, where the unsigned difference wraps around.
\<close>

definition defined_by :: "oper list \<Rightarrow> eflag \<Rightarrow> nat \<Rightarrow> bool" where
  "defined_by h f i \<longleftrightarrow> i < length h \<and> i \<le> length h mod CC_OP_LAST \<and>
     affects (oper_kind (h ! i)) f \<and> (\<forall>j < i. \<not> touches (oper_kind (h ! j)) f)"

lemma walk_slot:
  assumes "ring_ok dv \<rho> h E" "j \<le> length h mod CC_OP_LAST" "j < length h"
  shows "op_kinds E ! unat ((start E - of_nat j) mod of_nat CC_OP_LAST) = Some (oper_kind (h ! j))"
proof -
  have less: "length h mod CC_OP_LAST < CC_OP_LAST"
    by (simp add: CC_OP_LAST_def)
  have "(length h - j) mod CC_OP_LAST = length h mod CC_OP_LAST - j"
  proof -
    have "length h - j = CC_OP_LAST * (length h div CC_OP_LAST) + (length h mod CC_OP_LAST - j)"
      using assms(2) by (metis add_diff_assoc mult_div_mod_eq)
    then show ?thesis
      using less by (metis less_imp_diff_less mod_less mod_mult_self4)
  qed
  moreover have "op_kinds E ! ((length h - j) mod CC_OP_LAST) = Some (oper_kind (h ! j))"
    using assms less unfolding ring_ok_def by (meson le_less_trans)
  moreover have "start E = of_nat (length h mod CC_OP_LAST)"
    using assms(1) by (simp add: ring_ok_def)
  ultimately show ?thesis
    using word_slot [OF assms(2) less] by simp
qed

lemma first_means:
  assumes "ring_ok dv \<rho> h E" "i < length h"
  shows "op_flags (operations E (oper_kind (h ! i))) = getEflagsFromOpKind (oper_kind (h ! i))"
proof -
  let ?P = "\<lambda>j. oper_kind (h ! j) = oper_kind (h ! i)"
  have least: "?P (LEAST j. ?P j)" "(LEAST j. ?P j) \<le> i" "\<forall>j < (LEAST j. ?P j). \<not> ?P j"
    by (auto intro: LeastI [of ?P i] Least_le dest: not_less_Least)
  then have "op_means dv \<rho> (operations E (oper_kind (h ! i))) (h ! (LEAST j. ?P j))"
    using assms unfolding ring_ok_def by (metis (no_types, lifting) le_less_trans)
  then show ?thesis
    using least(1) by (cases "h ! (LEAST j. ?P j)") simp
qed

context sound_builder
begin

lemma computeFlag_loop_law:
  assumes s: "I s" and A: "apint_ok A" and ring: "ring_ok dv \<rho> h E" and i: "defined_by h f i"
  shows "j \<le> i \<Longrightarrow> runs t I (computeFlag_loop A B E f [j..<CC_OP_LAST] s)
    (\<lambda>e. means dv \<rho> e (BoolV (code_flag (h ! i) f)))"
proof (induction "i - j" arbitrary: j)
  case 0
  then have [simp]: "j = i"
    by simp
  have lt: "i < CC_OP_LAST" "i < length h" "i \<le> length h mod CC_OP_LAST"
    using i mod_less_divisor [of CC_OP_LAST "length h"] by (auto simp: defined_by_def CC_OP_LAST_def)
  have "\<forall>l < i. oper_kind (h ! l) \<noteq> oper_kind (h ! i)"
    using i by (auto simp: defined_by_def touches_def)
  then have m: "op_means dv \<rho> (operations E (oper_kind (h ! i))) (h ! i)" and d: "op_done (h ! i)"
    using ring lt(2) by (simp_all add: ring_ok_def)
  have f: "affects (oper_kind (h ! i)) f"
    using i by (simp add: defined_by_def)
  then have "op_flags (operations E (oper_kind (h ! i))) AND eflag f \<noteq> 0"
    unfolding eflag_test first_means [OF ring lt(2)] flags_of_kind by simp
  then show ?case
    using flag_of_law [OF s A m d f] lt(1) walk_slot [OF ring lt(3,2)]
    by (simp add: upt_conv_Cons)
next
  case (Suc l)
  then have j: "j < i"
    by simp
  have lt: "j < CC_OP_LAST" "j < length h" "j \<le> length h mod CC_OP_LAST"
    using i j mod_less_divisor [of CC_OP_LAST "length h"] by (auto simp: defined_by_def CC_OP_LAST_def)
  have "\<not> touches (oper_kind (h ! j)) f"
    using i j by (simp add: defined_by_def)
  then have "\<not> op_flags (operations E (oper_kind (h ! j))) AND eflag f \<noteq> 0"
    unfolding eflag_test first_means [OF ring lt(2)] flags_of_kind touches_def .
  then show ?case
    using Suc.hyps(1) [of "Suc j"] Suc.hyps(2) j lt(1) walk_slot [OF ring lt(3,2)]
    by (simp add: upt_conv_Cons)
qed

lemma computeFlag_law:
  assumes "I s" "apint_ok A" "ring_ok dv \<rho> h E" "defined_by h f i"
  shows "runs t I (computeFlag A B E f s) (\<lambda>e. means dv \<rho> e (BoolV (code_flag (h ! i) f)))"
  unfolding computeFlag_def by (rule computeFlag_loop_law [OF assms]) simp

end

subsection \<open>Flags as a state, and the conditions of jumps\<close>

text \<open>
  The flags of the processor as far as they depend on the input: no value where a flag is concrete
  or undefined. An operation on symbolic operands gives values, one on concrete operands takes
  them away.
\<close>

type_synonym flag_values = "eflag \<Rightarrow> bool option"

definition no_flags :: flag_values where
  "no_flags = (\<lambda>_. None)"

definition set_flags :: "oper \<Rightarrow> flag_values \<Rightarrow> flag_values" where
  "set_flags p F = (\<lambda>f. if affects (oper_kind p) f then Some (x86_flag p f)
     else if spoils (oper_kind p) f then None else F f)"

definition drop_flags :: "op_kind \<Rightarrow> flag_values \<Rightarrow> flag_values" where
  "drop_flags k F = (\<lambda>f. if touches k f then None else F f)"

definition flags_ok :: "bool \<Rightarrow> assignment \<Rightarrow> oper list \<Rightarrow> flag_values \<Rightarrow> eflags \<Rightarrow> bool" where
  "flags_ok dv \<rho> h F E \<longleftrightarrow> ring_ok dv \<rho> h E \<and>
     (\<forall>f. bit (valid_set E) (eflag_bit f) \<longleftrightarrow> F f \<noteq> None) \<and>
     (\<forall>f v. F f = Some v \<longrightarrow> (\<exists>i < length h. affects (oper_kind (h ! i)) f \<and>
        (\<forall>j < i. \<not> touches (oper_kind (h ! j)) f) \<and> v = x86_flag (h ! i) f))"

lemma flags_ok_init: "flags_ok dv \<rho> [] no_flags Eflags"
  using ring_ok_init by (simp add: flags_ok_def no_flags_def) (simp add: Eflags_def)

lemma flags_ok_invalidate:
  assumes "flags_ok dv \<rho> h F E"
  shows "flags_ok dv \<rho> h (drop_flags k F) (invalidate k E)"
proof -
  have possible: "eflag_bit f < 32" for f
    by (cases f) simp_all
  have "bit (valid_set (invalidate k E)) (eflag_bit f) \<longleftrightarrow> drop_flags k F f \<noteq> None" for f
    using assms possible [of f]
    by (simp add: flags_ok_def invalidate_def drop_flags_def bit_and_iff bit_not_iff flags_of_kind touches_def)
  with assms show ?thesis
    by (simp add: flags_ok_def drop_flags_def)
qed

lemma flags_ok_set:
  assumes E: "flags_ok dv \<rho> h F E" and p: "op_done p"
    and m: "op_means dv \<rho> (FlagOperation_set now (oper_kind p) r d x) p"
  shows "flags_ok dv \<rho> (p # h) (set_flags p F) (Eflags_set (oper_kind p) r d x E)"
proof -
  let ?E = "Eflags_set (oper_kind p) r d x E"
  have possible: "eflag_bit f < 32" for f
    by (cases f) simp_all
  have "valid_set ?E = (valid_set E AND NOT (getUndefinedEflagsFromOpKind (oper_kind p))) OR
      getAffectedEflagsFromOpKind (oper_kind p)"
    by (simp add: Eflags_set_def validate_def Let_def)
  then have bits: "bit (valid_set ?E) (eflag_bit f) \<longleftrightarrow> set_flags p F f \<noteq> None" for f
    using E possible [of f] unfolding affects_def [symmetric] spoils_def [symmetric]
    by (simp add: flags_ok_def set_flags_def bit_and_iff bit_or_iff bit_not_iff affects_def [symmetric]
        spoils_def [symmetric] del: spoils_iff)
  have "\<exists>i < length (p # h). affects (oper_kind ((p # h) ! i)) f \<and>
      (\<forall>j < i. \<not> touches (oper_kind ((p # h) ! j)) f) \<and> v = x86_flag ((p # h) ! i) f"
    if "set_flags p F f = Some v" for f v
  proof (cases "affects (oper_kind p) f")
    case True
    with that show ?thesis
      by (intro exI [of _ 0]) (simp add: set_flags_def)
  next
    case False
    with that have "F f = Some v" "\<not> touches (oper_kind p) f"
      by (auto simp: set_flags_def touches_def simp del: spoils_iff split: if_splits)
    then obtain i where "i < length h" "affects (oper_kind (h ! i)) f"
      "\<forall>j < i. \<not> touches (oper_kind (h ! j)) f" "v = x86_flag (h ! i) f"
      using E unfolding flags_ok_def by blast
    with \<open>\<not> touches (oper_kind p) f\<close> show ?thesis
      by (intro exI [of _ "Suc i"]) (auto simp: less_Suc_eq_0_disj)
  qed
  with bits ring_ok_set [OF _ p m] E show ?thesis
    unfolding flags_ok_def by blast
qed

text \<open>The conditions.\<close>

fun jcc_flags :: "jcc_kind \<Rightarrow> eflag list" where
  "jcc_flags JCC_B = [EFLAGS_CF]"
| "jcc_flags JCC_BE = [EFLAGS_CF, EFLAGS_ZF]"
| "jcc_flags JCC_L = [EFLAGS_SF, EFLAGS_OF]"
| "jcc_flags JCC_LE = [EFLAGS_SF, EFLAGS_OF, EFLAGS_ZF]"
| "jcc_flags JCC_O = [EFLAGS_OF]"
| "jcc_flags JCC_S = [EFLAGS_SF]"
| "jcc_flags JCC_P = [EFLAGS_PF]"
| "jcc_flags JCC_Z = [EFLAGS_ZF]"

fun jcc_holds :: "(eflag \<Rightarrow> bool) \<Rightarrow> jcc_kind \<Rightarrow> bool" where
  "jcc_holds v JCC_B \<longleftrightarrow> v EFLAGS_CF"
| "jcc_holds v JCC_BE \<longleftrightarrow> v EFLAGS_CF \<or> v EFLAGS_ZF"
| "jcc_holds v JCC_L \<longleftrightarrow> v EFLAGS_SF \<noteq> v EFLAGS_OF"
| "jcc_holds v JCC_LE \<longleftrightarrow> v EFLAGS_SF \<noteq> v EFLAGS_OF \<or> v EFLAGS_ZF"
| "jcc_holds v JCC_O \<longleftrightarrow> v EFLAGS_OF"
| "jcc_holds v JCC_S \<longleftrightarrow> v EFLAGS_SF"
| "jcc_holds v JCC_P \<longleftrightarrow> v EFLAGS_PF"
| "jcc_holds v JCC_Z \<longleftrightarrow> v EFLAGS_ZF"

definition jcc_value :: "flag_values \<Rightarrow> jcc_kind \<Rightarrow> bool option" where
  "jcc_value F j = (if \<forall>f \<in> set (jcc_flags j). F f \<noteq> None
     then Some (jcc_holds (\<lambda>f. F f = Some True) j) else None)"

lemma mask_iff: "(w AND m = m) \<longleftrightarrow> (\<forall>i. bit m i \<longrightarrow> bit (w :: 32 word) i)"
proof -
  have "(w AND m = m) \<longleftrightarrow> (\<forall>i. bit (w AND m) i = bit m i)"
    by (metis bit_eqI)
  then show ?thesis
    unfolding bit_and_iff by blast
qed

lemma bit_eflag_iff: "bit (eflag f) i \<longleftrightarrow> i = eflag_bit f"
proof -
  have "eflag_bit f < 32"
    by (cases f) simp_all
  then show ?thesis
    by (auto simp: eflag_def push_bit_eq_mult bit_exp_iff)
qed

lemma isValid_iff:
  assumes "flags_ok dv \<rho> h F E"
  shows "isValid E j \<longleftrightarrow> (\<forall>f \<in> set (jcc_flags j). F f \<noteq> None)"
  using assms unfolding isValid_def Let_def mask_iff flags_ok_def
  by (cases j) (auto simp: bit_or_iff bit_eflag_iff simp del: eflag_bit.simps)

lemma isValid_value: "flags_ok dv \<rho> h F E \<Longrightarrow> isValid E j \<longleftrightarrow> jcc_value F j \<noteq> None"
  by (simp add: isValid_iff jcc_value_def)

text \<open>
  When the code is right about a condition: each flag is found in the ring before its first slot,
  and no product stands behind a carry or an overflow; for \<open>JCC_Z\<close> the last operation set the flag,
  since otherwise the missing \<open>break\<close> of \<open>computeSlowJcc\<close> gives the overflow flag.
\<close>

definition faithful :: "oper list \<Rightarrow> eflag \<Rightarrow> bool" where
  "faithful h f \<longleftrightarrow> (\<exists>i < CC_OP_LAST. defined_by h f i \<and>
     \<not> (oper_kind (h ! i) \<in> {CC_OP_SMUL, CC_OP_UMUL} \<and> f \<in> {EFLAGS_CF, EFLAGS_OF}))"

definition jcc_faithful :: "oper list \<Rightarrow> jcc_kind \<Rightarrow> bool" where
  "jcc_faithful h j \<longleftrightarrow>
     (if j = JCC_Z then h \<noteq> [] \<and> affects (oper_kind (hd h)) EFLAGS_ZF
      else \<forall>f \<in> set (jcc_flags j). faithful h f)"

lemma sub_signed_less:
  assumes n: "0 < n" and a: "in_range n a" and b: "in_range n b"
  defines "r \<equiv> take_bit n (a - b)"
  shows "(sval n r < 0) \<noteq> overflows n (sval n a - sval n b) \<longleftrightarrow> sval n a < sval n b"
proof -
  define N :: int where "N = 2 ^ (n - 1)"
  have N2: "2 ^ n = 2 * N"
    using n unfolding N_def by (metis Suc_diff_1 power_Suc)
  have r: "in_range n r"
    by (simp add: r_def)
  have "r = (if b \<le> a then a - b else a - b + 2 * N)"
    unfolding r_def take_bit_sum [OF a b] N2 ..
  then show ?thesis
    using a b r in_range_double [OF n, of a] in_range_double [OF n, of b]
    unfolding sval_alt [OF n a] sval_alt [OF n b] sval_alt [OF n r] overflows_def N_def [symmetric]
    by (auto split: if_splits)
qed

lemma sub_zero:
  assumes "in_range n a" "in_range n b"
  shows "take_bit n (a - b) = 0 \<longleftrightarrow> a = b"
  using assms unfolding take_bit_sum [OF assms] by (auto simp: in_range_def)

text \<open>What a comparison of the operands says about the flags of a subtraction.\<close>

lemma sub_condition:
  assumes "op_done (Oper CC_OP_SUB n r a b)" "sub_jcc j = Some c"
  shows "compareKind c \<and> bv_compare c n a b = Some (jcc_holds (x86_flag (Oper CC_OP_SUB n r a b)) j)"
proof -
  have ab: "0 < n" "in_range n a" "in_range n b" and r: "r = take_bit n (a - b)"
    using assms(1) by auto
  have le: "sval n a \<le> sval n b \<longleftrightarrow> sval n a < sval n b \<or> a = b"
    using sval_inject [OF ab] by auto
  show ?thesis
    using assms(2) sub_signed_less [OF ab] sub_zero [OF ab(2,3)]
    by (cases j) (auto simp: x86_flag_def r compareKind_def le)
qed

lemma zero_condition:
  assumes "fast_jcc_s k j neg = Some c" "0 < n" "k \<noteq> CC_OP_BT"
  shows "compareKind c \<and> affects k EFLAGS_ZF \<and> affects k EFLAGS_SF \<and>
    bv_compare c n r 0 = Some (jcc_holds (x86_flag (Oper k n r a b)) j \<noteq> neg)"
proof -
  have sv: "sval n 0 = 0"
    by (simp add: sval_def)
  show ?thesis
    using assms
    by (cases k) (auto simp: fast_jcc_s_def eflag_test flags_of_kind x86_flag_def compareKind_def sv split: if_splits
        simp del: eflag_bit.simps)
qed

lemma negateKind_compare:
  assumes "compareKind c" "bv_compare c n a b = Some v"
  shows "\<exists>c'. negateKind c = Some c' \<and> compareKind c' \<and> bv_compare c' n a b = Some (\<not> v)"
  using assms by (cases c) (auto simp: compareKind_def)

lemma flags_ok_defined:
  assumes "flags_ok dv \<rho> h F E" "F f = Some v" "i < length h" "touches (oper_kind (h ! i)) f"
    "\<forall>j < i. \<not> touches (oper_kind (h ! j)) f"
  shows "affects (oper_kind (h ! i)) f \<and> v = x86_flag (h ! i) f"
proof -
  obtain l where l: "l < length h" "affects (oper_kind (h ! l)) f"
    "\<forall>j < l. \<not> touches (oper_kind (h ! j)) f" "v = x86_flag (h ! l) f"
    using assms(1,2) unfolding flags_ok_def by blast
  have "l = i"
    using l(2,3) assms(4,5) by (metis linorder_neqE_nat touches_def)
  with l show ?thesis
    by simp
qed

lemma flags_ok_last:
  assumes "flags_ok dv \<rho> h F E" "h \<noteq> []"
  shows "op_kinds E ! unat (start E) = Some (oper_kind (hd h))"
    and "op_means dv \<rho> (operations E (oper_kind (hd h))) (hd h)" and "op_done (hd h)"
proof -
  have ring: "ring_ok dv \<rho> h E"
    using assms(1) by (simp add: flags_ok_def)
  have less: "length h mod CC_OP_LAST < CC_OP_LAST"
    by (simp add: CC_OP_LAST_def)
  have "unat (start E) = length h mod CC_OP_LAST"
    using ring less unat_small [of "length h mod CC_OP_LAST"] by (simp add: ring_ok_def CC_OP_LAST_def)
  then show "op_kinds E ! unat (start E) = Some (oper_kind (hd h))"
    using ring assms(2) unfolding ring_ok_def by (metis CC_OP_LAST_def diff_zero hd_conv_nth length_greater_0_conv zero_less_numeral)
  show "op_means dv \<rho> (operations E (oper_kind (hd h))) (hd h)" "op_done (hd h)"
    using ring assms(2) by (auto simp: ring_ok_def hd_conv_nth)
qed

context sound_builder
begin

lemma flag_law:
  assumes s: "I s" and A: "apint_ok A" and E: "flags_ok dv \<rho> h F E" and f: "faithful h f" and v: "F f = Some v"
  shows "runs t I (computeFlag A B E f s) (\<lambda>e. means dv \<rho> e (BoolV v))"
proof -
  obtain i where i: "defined_by h f i" "\<not> (oper_kind (h ! i) \<in> {CC_OP_SMUL, CC_OP_UMUL} \<and> f \<in> {EFLAGS_CF, EFLAGS_OF})"
    using f unfolding faithful_def by blast
  have "v = x86_flag (h ! i) f"
    using flags_ok_defined [OF E v, of i] i(1) by (auto simp: defined_by_def touches_def)
  then have "code_flag (h ! i) f = v"
    using i(2) by (simp add: code_flag_def)
  moreover have "ring_ok dv \<rho> h E"
    using E by (simp add: flags_ok_def)
  ultimately show ?thesis
    using computeFlag_law [OF s A _ i(1)] by simp
qed

lemma connect_step:
  assumes "means dv \<rho> x (BoolV p)" "means dv \<rho> y (BoolV q)" "I s" "bool_connect k p q = Some b"
  shows "runs t I (do { x \<leftarrow> x; y \<leftarrow> y; (e, s) \<leftarrow> createBinaryExpr B k x y s; Some (Some e, s) })
    (\<lambda>e. means dv \<rho> e (BoolV b))"
proof -
  obtain u w where u: "x = Some u" "y = Some w" "den dv \<rho> u = Some (BoolV p)" "den dv \<rho> w = Some (BoolV q)"
    using assms(1,2) by (meson meansE)
  show ?thesis
    unfolding u(1,2) bind.bind_lunit by (rule some_step, rule connect_bool [OF assms(3) u(3,4) assms(4)])
qed

lemma slow_base_law:
  assumes s: "I s" and A: "apint_ok A" and E: "flags_ok dv \<rho> h F E" and j: "j \<noteq> JCC_Z"
    and f: "\<forall>f \<in> set (jcc_flags j). faithful h f" and v: "\<forall>f \<in> set (jcc_flags j). F f \<noteq> None"
  defines "b \<equiv> (\<lambda>f. F f = Some True)"
  shows "runs t I (slow_base A B E j s) (\<lambda>e. means dv \<rho> e (BoolV (jcc_holds b
    (if j = JCC_BE then JCC_B else if j = JCC_LE then JCC_L else j))))"
proof -
  have flag: "I s' \<Longrightarrow> runs t I (computeFlag A B E f s') (\<lambda>e. means dv \<rho> e (BoolV (b f)))"
    if "f \<in> set (jcc_flags j)" for f s'
    using flag_law [OF _ A E, of s' f] f v that by (auto simp: b_def)
  have less: "runs t I (do { (sf, s) \<leftarrow> computeFlag A B E EFLAGS_SF s;
      (ovf, s) \<leftarrow> computeFlag A B E EFLAGS_OF s;
      x \<leftarrow> sf; y \<leftarrow> ovf; (e, s) \<leftarrow> createBinaryExpr B Distinct x y s; Some (Some e, s) })
      (\<lambda>e. means dv \<rho> e (BoolV (b EFLAGS_SF \<noteq> b EFLAGS_OF)))" if "j = JCC_L \<or> j = JCC_LE"
  proof -
    have mem: "EFLAGS_SF \<in> set (jcc_flags j)" "EFLAGS_OF \<in> set (jcc_flags j)"
      using that by auto
    show ?thesis
      by (rule runs_bind_pair [OF flag [OF mem(1) s]], rule runs_bind_pair [OF flag [OF mem(2)]], assumption,
        rule connect_step, assumption+, simp)
  qed
  show ?thesis
    using flag s less j unfolding slow_base_def by (cases j) (simp_all del: not_iff)
qed

end

context sound_builder
begin

lemma computeSlowJcc_law:
  assumes s: "I s" and A: "apint_ok A" and E: "flags_ok dv \<rho> h F E" and j: "j \<noteq> JCC_Z"
    and f: "\<forall>f \<in> set (jcc_flags j). faithful h f" and v: "jcc_value F j = Some v"
  shows "runs t I (computeSlowJcc A B E j neg s) (\<lambda>e. means dv \<rho> e (BoolV (v \<noteq> neg)))"
proof -
  let ?b = "\<lambda>f. F f = Some True"
  let ?base = "jcc_holds ?b (if j = JCC_BE then JCC_B else if j = JCC_LE then JCC_L else j)"
  have defined: "\<forall>f \<in> set (jcc_flags j). F f \<noteq> None" and val: "v = jcc_holds ?b j"
    using v by (auto simp: jcc_value_def split: if_splits)
  have equal: "runs t I (if j = JCC_BE \<or> j = JCC_LE then do {
         (zf, s) \<leftarrow> computeFlag A B E EFLAGS_ZF s;
         x \<leftarrow> e; y \<leftarrow> zf;
         (e, s) \<leftarrow> createBinaryExpr B LOr x y s;
         Some (Some e, s) } else Some (e, s)) (\<lambda>e. means dv \<rho> e (BoolV v))"
    if "I s" "means dv \<rho> e (BoolV ?base)" for e s
  proof (cases "j = JCC_BE \<or> j = JCC_LE")
    case True
    then have zf: "EFLAGS_ZF \<in> set (jcc_flags j)"
      by auto
    then obtain z where z: "F EFLAGS_ZF = Some z"
      using defined by blast
    have "bool_connect LOr ?base z = Some v"
      using True z val by auto
    then show ?thesis
      unfolding if_P [OF True]
      by (intro runs_bind_pair [OF flag_law [OF that(1) A E bspec [OF f zf] z]] connect_step [OF that(2)])
  next
    case False
    then show ?thesis
      using that val by auto
  qed
  have negate: "runs t I (if neg then do { x \<leftarrow> e; (e, s) \<leftarrow> createUnaryExpr B LNot x s; Some (Some e, s) }
      else Some (e, s)) (\<lambda>e. means dv \<rho> e (BoolV (v \<noteq> neg)))" if "I s" "means dv \<rho> e (BoolV v)" for e s
    using that by (auto elim!: meansE intro!: some_step lnot_bool)
  show ?thesis
    unfolding computeSlowJcc_def
    by (intro runs_bind_pair [OF slow_base_law [OF s A E j f defined]] runs_bind_pair [OF equal] negate)
qed

lemma sub_fast_law:
  assumes s: "I s" and m: "op_means dv \<rho> op (Oper CC_OP_SUB n r a b)" and d: "op_done (Oper CC_OP_SUB n r a b)"
    and c: "sub_jcc j = Some c"
  shows "runs t I (do { c \<leftarrow> (if neg then negateKind c else Some c); d \<leftarrow> op_dst op; x \<leftarrow> op_src op;
      (e, s) \<leftarrow> createBinaryExpr B c d x s; Some (Some e, s) })
    (\<lambda>e. means dv \<rho> e (BoolV (jcc_holds (x86_flag (Oper CC_OP_SUB n r a b)) j \<noteq> neg)))"
proof -
  let ?v = "jcc_holds (x86_flag (Oper CC_OP_SUB n r a b)) j"
  have cmp: "compareKind c" "bv_compare c n a b = Some ?v"
    using sub_condition [OF d c] by simp_all
  obtain c' where c': "(if neg then negateKind c else Some c) = Some c'" "compareKind c'"
    "bv_compare c' n a b = Some (?v \<noteq> neg)"
    using negateKind_compare [OF cmp] cmp by (cases neg) auto
  obtain ed ex where e: "op_dst op = Some ed" "op_src op = Some ex"
    "den dv \<rho> ed = Some (BV n a)" "den dv \<rho> ex = Some (BV n b)"
    using m by (auto elim!: meansE)
  show ?thesis
    unfolding c'(1) e(1,2) bind.bind_lunit by (rule some_step, rule compare_bv [OF s e(3,4) c'(2,3)])
qed

lemma zero_fast_law:
  assumes s: "I s" and m: "op_means dv \<rho> op (Oper k n r a b)" and d: "op_done (Oper k n r a b)"
    and c: "fast_jcc_s k j neg = Some c" and bt: "k \<noteq> CC_OP_BT"
  shows "runs t I (do { r \<leftarrow> op_result op; (expr_zero, s) \<leftarrow> createConstant B 0 (bits r) s;
      (e, s) \<leftarrow> createBinaryExpr B c r expr_zero s; Some (Some e, s) })
    (\<lambda>e. means dv \<rho> e (BoolV (jcc_holds (x86_flag (Oper k n r a b)) j \<noteq> neg)))"
proof -
  obtain er where e: "op_result op = Some er" "den dv \<rho> er = Some (BV n r)"
    using m bt by (auto elim!: meansE)
  have n: "bits er = n" "0 < n"
    using den_BV [OF e(2)] by simp_all
  have cmp: "compareKind c" "bv_compare c n r 0 = Some (jcc_holds (x86_flag (Oper k n r a b)) j \<noteq> neg)"
    using zero_condition [OF c n(2) bt] by simp_all
  show ?thesis
    unfolding e(1) bind.bind_lunit n(1)
    by (rule runs_bind_pair [OF const_0 [OF s n(2)]], rule some_step, rule compare_bv [OF _ e(2) _ cmp])
qed

end

definition fast_applies :: "op_kind \<Rightarrow> jcc_kind \<Rightarrow> bool \<Rightarrow> bool" where
  "fast_applies k j neg \<longleftrightarrow>
     (if k = CC_OP_SUB \<and> j \<noteq> JCC_S then sub_jcc j \<noteq> None else fast_jcc_s k j neg \<noteq> None)"

lemma jcc_holds_cong:
  "(\<And>f. f \<in> set (jcc_flags j) \<Longrightarrow> u f = w f) \<Longrightarrow> jcc_holds u j = jcc_holds w j"
  by (cases j) simp_all

lemma jcc_value_last:
  assumes E: "flags_ok dv \<rho> h F E" and h: "h \<noteq> []" and v: "jcc_value F j = Some v"
    and k: "\<forall>f \<in> set (jcc_flags j). touches (oper_kind (hd h)) f"
  shows "v = jcc_holds (x86_flag (hd h)) j \<and> (\<forall>f \<in> set (jcc_flags j). affects (oper_kind (hd h)) f)"
proof -
  have last: "affects (oper_kind (hd h)) f \<and> F f = Some (x86_flag (hd h) f)" if "f \<in> set (jcc_flags j)" for f
  proof -
    have "F f \<noteq> None"
      using v that by (auto simp: jcc_value_def split: if_splits)
    then obtain w where w: "F f = Some w"
      by blast
    then show ?thesis
      using flags_ok_defined [OF E w, of 0] h k that by (simp add: hd_conv_nth)
  qed
  have "v = jcc_holds (\<lambda>f. F f = Some True) j"
    using v by (simp add: jcc_value_def split: if_splits)
  also have "\<dots> = jcc_holds (x86_flag (hd h)) j"
    by (rule jcc_holds_cong) (simp add: last)
  finally show ?thesis
    using last by blast
qed

lemma flags_ok_nonempty: "flags_ok dv \<rho> h F E \<Longrightarrow> jcc_value F j = Some v \<Longrightarrow> h \<noteq> []"
proof -
  assume E: "flags_ok dv \<rho> h F E" and v: "jcc_value F j = Some v"
  obtain f where f: "f \<in> set (jcc_flags j)"
    by (cases j) auto
  then obtain w where "F f = Some w"
    using v by (auto simp: jcc_value_def split: if_splits)
  with E show "h \<noteq> []"
    unfolding flags_ok_def by (metis length_0_conv not_less_zero)
qed

context sound_builder
begin

lemma computeFastJcc_law:
  assumes s: "I s" and E: "flags_ok dv \<rho> h F E" and v: "jcc_value F j = Some v"
  shows "if fast_applies (oper_kind (hd h)) j neg
    then runs t I (computeFastJcc B E j neg s) (\<lambda>e. means dv \<rho> e (BoolV (v \<noteq> neg)))
    else computeFastJcc B E j neg s = Some (None, s)"
proof -
  obtain k n r a b where p: "hd h = Oper k n r a b"
    by (cases "hd h")
  note h = flags_ok_nonempty [OF E v]
  note last = flags_ok_last [OF E h]
  have fast: "computeFastJcc B E j neg s =
     (if k = CC_OP_SUB \<and> j \<noteq> JCC_S then
       (case sub_jcc j of None \<Rightarrow> Some (None, s)
        | Some c \<Rightarrow> do { c \<leftarrow> (if neg then negateKind c else Some c);
            d \<leftarrow> op_dst (operations E k); x \<leftarrow> op_src (operations E k);
            (e, s) \<leftarrow> createBinaryExpr B c d x s; Some (Some e, s) })
     else
       (case fast_jcc_s k j neg of None \<Rightarrow> Some (None, s)
        | Some c \<Rightarrow> do { r \<leftarrow> op_result (operations E k);
            (expr_zero, s) \<leftarrow> createConstant B 0 (bits r) s;
            (e, s) \<leftarrow> createBinaryExpr B c r expr_zero s; Some (Some e, s) }))"
    using last(1) unfolding p by (simp add: computeFastJcc_def Let_def)
  have m: "op_means dv \<rho> (operations E k) (Oper k n r a b)" and d: "op_done (Oper k n r a b)"
    using last(2,3) unfolding p by simp_all
  show ?thesis
  proof (cases "k = CC_OP_SUB \<and> j \<noteq> JCC_S")
    case True
    show ?thesis
    proof (cases "sub_jcc j")
      case (Some c)
      have "v = jcc_holds (x86_flag (hd h)) j"
        using jcc_value_last [OF E h v] True by (cases j) (auto simp: p touches_def)
      then show ?thesis
        using sub_fast_law [OF s _ _ Some, of "operations E k" n r a b neg] m d True Some
        by (simp add: fast p fast_applies_def)
    qed (use True in \<open>simp add: fast p fast_applies_def\<close>)
  next
    case False
    show ?thesis
    proof (cases "fast_jcc_s k j neg")
      case (Some c)
      then have t: "\<forall>f \<in> set (jcc_flags j). touches k f"
        by (auto simp: fast_jcc_s_def eflag_test flags_of_kind touches_def simp del: eflag_bit.simps split: if_splits)
      have v': "v = jcc_holds (x86_flag (hd h)) j" and aff: "\<forall>f \<in> set (jcc_flags j). affects k f"
        using jcc_value_last [OF E h v] t by (simp_all add: p)
      have bt: "k \<noteq> CC_OP_BT"
        using aff Some by (auto simp: fast_jcc_s_def split: if_splits)
      have fa: "fast_applies k j neg"
        unfolding fast_applies_def if_not_P [OF False] using Some by simp
      show ?thesis
        unfolding p oper.sel if_P [OF fa] fast if_not_P [OF False] Some option.case
        using zero_fast_law [OF s m d Some bt] v' p by simp
    next
      case None
      then have fa: "\<not> fast_applies k j neg"
        unfolding fast_applies_def if_not_P [OF False] by simp
      show ?thesis
        unfolding p oper.sel if_not_P [OF fa] fast if_not_P [OF False] None option.case ..
    qed
  qed
qed

theorem computeJcc_law:
  assumes s: "I s" and A: "apint_ok A" and E: "flags_ok dv \<rho> h F E" and v: "jcc_value F j = Some v"
    and f: "jcc_faithful h j"
  shows "runs t I (computeJcc A B E j neg s) (\<lambda>e. means dv \<rho> e (BoolV (v \<noteq> neg)))"
proof -
  have valid: "isValid E j"
    using isValid_value [OF E] v by simp
  show ?thesis
  proof (cases "fast_applies (oper_kind (hd h)) j neg")
    case True
    then have "runs t I (computeFastJcc B E j neg s) (\<lambda>e. means dv \<rho> e (BoolV (v \<noteq> neg)))"
      using computeFastJcc_law [OF s E v, of neg] by simp
    then have "runs t I (do { (e, s) \<leftarrow> computeFastJcc B E j neg s;
        if e = None then computeSlowJcc A B E j neg s else Some (e, s) })
        (\<lambda>e. means dv \<rho> e (BoolV (v \<noteq> neg)))"
      by (rule runs_bind_pair) (auto elim!: meansE)
    then show ?thesis
      using valid by (simp add: computeJcc_def)
  next
    case False
    then have fast: "computeFastJcc B E j neg s = Some (None, s)"
      using computeFastJcc_law [OF s E v, of neg] by simp
    have "j \<noteq> JCC_Z"
    proof
      assume "j = JCC_Z"
      then have "affects (oper_kind (hd h)) EFLAGS_ZF"
        using f by (simp add: jcc_faithful_def)
      then have "fast_applies (oper_kind (hd h)) j neg"
        using \<open>j = JCC_Z\<close>
        by (auto simp: fast_applies_def fast_jcc_s_def eflag_test flags_of_kind simp del: eflag_bit.simps)
      with False show False ..
    qed
    moreover from this have "\<forall>f \<in> set (jcc_flags j). faithful h f"
      using f by (simp add: jcc_faithful_def)
    ultimately show ?thesis
      unfolding computeJcc_def using valid fast computeSlowJcc_law [OF s A E _ _ v] by simp
  qed
qed

end

lemma computeJcc_concrete:
  "flags_ok dv \<rho> h F E \<Longrightarrow> jcc_value F j = None \<Longrightarrow> computeJcc A B E j neg s = Some (None, s)"
  by (simp add: computeJcc_def isValid_value)

subsection \<open>Where the code is not right\<close>

text \<open>After a bit test, which leaves the zero flag as it was, a jump on it ends the process.\<close>

lemma jz_after_bit_test:
  assumes E: "flags_ok dv \<rho> h F E" and h: "h \<noteq> []" "oper_kind (hd h) = CC_OP_BT" and z: "F EFLAGS_ZF \<noteq> None"
  shows "computeJcc A B E JCC_Z neg s = None"
proof -
  have ring: "ring_ok dv \<rho> h E"
    using E by (simp add: flags_ok_def)
  note last = flags_ok_last [OF E h(1), unfolded h(2)]
  have slot: "op_kinds E ! unat (start E mod of_nat CC_OP_LAST) = Some CC_OP_BT"
    using walk_slot [OF ring, of 0] h by (simp add: hd_conv_nth)
  have flags: "op_flags (operations E CC_OP_BT) AND eflag EFLAGS_OF \<noteq> 0"
    using first_means [OF ring, of 0] h
    by (simp add: hd_conv_nth eflag_test flags_of_kind del: eflag_bit.simps)
  have ovf: "computeFlag A B E EFLAGS_OF s' = None" for s'
    using slot flags by (simp add: computeFlag_def CC_OP_LAST_def upt_conv_Cons flag_of_def)
  have "slow_base A B E JCC_Z s = None"
    by (cases "computeFlag A B E EFLAGS_ZF s") (auto simp: slow_base_def ovf)
  moreover have "computeFastJcc B E JCC_Z neg s = Some (None, s)"
    using last(1)
    by (simp add: computeFastJcc_def fast_jcc_s_def eflag_test flags_of_kind del: eflag_bit.simps)
  ultimately show ?thesis
    using isValid_iff [OF E, of JCC_Z] z by (simp add: computeJcc_def computeSlowJcc_def)
qed

text \<open>
  After thirteen operations the walk from the second slot goes on with the slots 0, 3, 2, 1, so
  that it meets the third operation before the eleventh: a carry that stems from the subtraction
  is taken from the older addition.
\<close>

definition thirteen_kinds :: "op_kind list" where
  "thirteen_kinds = [CC_OP_INC, CC_OP_INC, CC_OP_ADD, CC_OP_INC, CC_OP_INC, CC_OP_INC, CC_OP_INC,
     CC_OP_INC, CC_OP_INC, CC_OP_INC, CC_OP_SUB, CC_OP_INC, CC_OP_INC]"

definition thirteen :: "expr \<Rightarrow> eflags" where
  "thirteen e = fold (\<lambda>k. Eflags_set k (Some e) (Some e) (Some e)) thirteen_kinds Eflags"

fun fill_ring :: "nat \<Rightarrow> op_kind list \<Rightarrow> op_kind option list \<Rightarrow> op_kind option list" where
  "fill_ring n [] xs = xs"
| "fill_ring n (k # ks) xs = fill_ring (Suc n) ks (xs[Suc n mod CC_OP_LAST := Some k])"

lemma fold_ring:
  "start E = of_nat (n mod CC_OP_LAST) \<Longrightarrow>
   op_kinds (fold (\<lambda>k. Eflags_set k r d x) ks E) = fill_ring n ks (op_kinds E) \<and>
   start (fold (\<lambda>k. Eflags_set k r d x) ks E) = of_nat ((n + length ks) mod CC_OP_LAST)"
proof (induction ks arbitrary: E n)
  case (Cons k ks)
  have less: "Suc n mod CC_OP_LAST < 2 ^ 32"
    by (rule less_trans [of _ 12]) (simp_all add: CC_OP_LAST_def)
  have "start (Eflags_set k r d x E) = of_nat (Suc n mod CC_OP_LAST)"
    "op_kinds (Eflags_set k r d x E) = (op_kinds E)[Suc n mod CC_OP_LAST := Some k]"
    using Cons.prems unat_small [OF less] by (simp_all add: Eflags_set_def validate_def Let_def next_start)
  with Cons.IH [of "Eflags_set k r d x E" "Suc n"] show ?case
    by simp
qed simp

lemma thirteen_ring:
  "op_kinds (thirteen e) = [Some CC_OP_INC, Some CC_OP_INC, Some CC_OP_INC, Some CC_OP_ADD, Some CC_OP_INC,
     Some CC_OP_INC, Some CC_OP_INC, Some CC_OP_INC, Some CC_OP_INC, Some CC_OP_INC, Some CC_OP_INC, Some CC_OP_SUB]"
  "start (thirteen e) = 1"
proof -
  have "start Eflags = of_nat (0 mod CC_OP_LAST)"
    by (simp add: Eflags_def)
  note ring = fold_ring [OF this, of "Some e" "Some e" "Some e" thirteen_kinds, folded thirteen_def]
  show "op_kinds (thirteen e) = [Some CC_OP_INC, Some CC_OP_INC, Some CC_OP_INC, Some CC_OP_ADD, Some CC_OP_INC,
     Some CC_OP_INC, Some CC_OP_INC, Some CC_OP_INC, Some CC_OP_INC, Some CC_OP_INC, Some CC_OP_INC, Some CC_OP_SUB]"
    unfolding conjunct1 [OF ring] Eflags_def eflags.simps by code_simp
  show "start (thirteen e) = 1"
    unfolding conjunct2 [OF ring] by (simp add: thirteen_kinds_def CC_OP_LAST_def)
qed

lemma thirteen_flags:
  "op_flags (operations (thirteen e) CC_OP_INC) = getEflagsFromOpKind CC_OP_INC"
  "op_flags (operations (thirteen e) CC_OP_ADD) = getEflagsFromOpKind CC_OP_ADD"
  "isValid (thirteen e) JCC_B"
  by (simp_all add: thirteen_def thirteen_kinds_def Eflags_set_def FlagOperation_set_def Let_def validate_def
      isValid_def mask_iff bit_or_iff bit_and_iff bit_not_iff bit_eflag_iff del: eflag_bit.simps)

lemma walk_after_thirteen:
  "computeFlag A B (thirteen e) EFLAGS_CF s =
     flag_of A B CC_OP_ADD (operations (thirteen e) CC_OP_ADD) EFLAGS_CF s"
proof -
  have slots: "unat ((start (thirteen e) - of_nat 0) mod of_nat CC_OP_LAST) = 1"
    "unat ((start (thirteen e) - of_nat 1) mod of_nat CC_OP_LAST) = 0"
    "unat ((start (thirteen e) - of_nat 2) mod of_nat CC_OP_LAST) = 3"
    unfolding thirteen_ring CC_OP_LAST_def by code_simp+
  have kinds: "op_kinds (thirteen e) ! 1 = Some CC_OP_INC" "op_kinds (thirteen e) ! 0 = Some CC_OP_INC"
    "op_kinds (thirteen e) ! 3 = Some CC_OP_ADD"
    by (simp_all add: thirteen_ring eval_nat_numeral One_nat_def)
  have range: "[0..<CC_OP_LAST] = 0 # 1 # 2 # [3..<CC_OP_LAST]"
    by (simp add: CC_OP_LAST_def upt_conv_Cons)
  show ?thesis
    unfolding computeFlag_def range computeFlag_loop.simps Let_def slots kinds bind.bind_lunit eflag_test
      thirteen_flags flags_of_kind by simp
qed

end
