(* ===== verification/InstrumentSound.thy ===== *)
theory InstrumentSound
  imports InstrumentMove InstrumentShuffle ThreadSound FlagsSound
begin

declare One_nat_def [simp del]

section \<open>What the handlers compute\<close>

text \<open>
  The processor's side of an instruction is a change of the contents \<open>M\<close> and \<open>R\<close> of memory and
  registers, for each input \<open>\<rho>\<close> of a set \<open>W\<close>, and of the flags \<open>F\<close>. \<open>pin_holds\<close> says that the state of
  the tool agrees with them. The lemmas show for groups of handlers that the agreement is kept.
\<close>

subsection \<open>The context\<close>

definition cpu_context :: "pin_api \<Rightarrow> thread_context \<Rightarrow> (addr \<Rightarrow> 8 word) \<Rightarrow> (addr \<Rightarrow> 8 word) \<Rightarrow> CONTEXT \<Rightarrow> bool" where
  "cpu_context P c M R ctx \<longleftrightarrow> ctx_mem ctx = M \<and>
     (\<forall>r a i. regToRegAddr P c r = Some a \<longrightarrow> i < REG_Size P r \<longrightarrow> ctx_reg ctx r i = R (a + of_nat i))"

lemma cpu_context_full:
  assumes P: "pin_ok P" and layout: "layout_ok P c" and ctx: "cpu_context P c M R ctx"
  shows "context_holds P c M R ctx"
proof -
  have "ctx_reg ctx r i = R (of_nat a + of_nat i)" if "map_reg_to_addr c r = Some a" "i < REG_Size P r" for r a i
  proof -
    have r: "REG_FullRegName P r = r" "r < REG_LAST P"
      using layout that(1) by (auto simp: layout_ok_def places_ok_def)
    then have "\<not> REG_is_Upper8 P r"
      using P by (metis pin_ok_def)
    with r that(1) have "regToRegAddr P c r = Some (of_nat a)"
      by (simp add: regToRegAddr_def)
    with ctx that(2) show ?thesis
      by (simp add: cpu_context_def)
  qed
  with ctx show ?thesis
    by (simp add: context_holds_def cpu_context_def)
qed

lemma getRegValue_contents:
  "cpu_context P c M R ctx \<Longrightarrow> regToRegAddr P c r = Some a \<Longrightarrow> getRegValue P ctx r = getMemValue R a (REG_Size P r)"
  unfolding getRegValue_def getMemValue_def cpu_context_def
  by (intro arg_cong [where f = "horner_sum uint (2 ^ 8)"] map_cong) auto

lemma in_range_getMemValue [simp]: "in_range (n * 8) (getMemValue V a n)"
  using in_range_bytes_value [of n "\<lambda>i. V (a + of_nat i)"] by (simp add: getMemValue_bytes mult.commute)

lemma cpu_context_same:
  "same_but_regs s s' \<Longrightarrow> cpu_context P (thread s') M R ctx = cpu_context P (thread s) M R ctx"
  by (simp add: cpu_context_def same_but_regs_simps)

subsection \<open>States\<close>

definition pin_holds ::
  "bool \<Rightarrow> assignment set \<Rightarrow> assignment \<Rightarrow> (bst \<Rightarrow> bool) \<Rightarrow> pin_api \<Rightarrow> contents \<Rightarrow> contents \<Rightarrow>
   (assignment \<Rightarrow> oper list) \<Rightarrow> (assignment \<Rightarrow> flag_values) \<Rightarrow> 'z thread_state_scheme \<Rightarrow> bool" where
  "pin_holds dv W \<rho>0 I P M R h F s \<longleftrightarrow> state_holds dv W \<rho>0 I P M R s \<and>
     (\<forall>\<rho>\<in>W. flags_ok dv \<rho> (h \<rho>) (F \<rho>) (eflags_of (thread s)))"

definition operand :: "bool \<Rightarrow> assignment set \<Rightarrow> nat \<Rightarrow> (assignment \<Rightarrow> int) \<Rightarrow> expr \<Rightarrow> bool" where
  "operand dv W n v e \<longleftrightarrow> (\<forall>\<rho>\<in>W. den dv \<rho> e = Some (BV n (v \<rho>)))"

text \<open>The contents of a register, and what is assumed of one that an instruction names.\<close>

definition reg_at :: "instr_env \<Rightarrow> 'z thread_state_scheme \<Rightarrow> reg \<Rightarrow> addr \<Rightarrow> bool" where
  "reg_at E s r a \<longleftrightarrow> regToRegAddr (pin E) (thread s) r = Some a \<and> reg_size (reg_bytes E r)"

lemma reg_at_same: "same_but_regs s s' \<Longrightarrow> reg_at E s' r a = reg_at E s r a"
  by (simp add: reg_at_def same_but_regs_simps)

abbreviation reg_val :: "instr_env \<Rightarrow> reg \<Rightarrow> addr \<Rightarrow> (addr \<Rightarrow> 8 word) \<Rightarrow> int" where
  "reg_val E r a V \<equiv> getMemValue V a (reg_bytes E r)"

text \<open>What reading a register changes: the builders, and concrete expressions go.\<close>

definition reading ::
  "bool \<Rightarrow> assignment set \<Rightarrow> assignment \<Rightarrow> (bst \<Rightarrow> bool) \<Rightarrow> pin_api \<Rightarrow> contents \<Rightarrow> contents \<Rightarrow>
   'z thread_state_scheme \<Rightarrow> 'z thread_state_scheme \<Rightarrow> bool" where
  "reading dv W \<rho>0 I P M R s s' \<longleftrightarrow> same_but_regs s s' \<and> state_holds dv W \<rho>0 I P M R s' \<and>
     (\<forall>k m. clear_at s k m \<longrightarrow> clear_at s' k m)"

lemma reading_refl: "state_holds dv W \<rho>0 I P M R s \<Longrightarrow> reading dv W \<rho>0 I P M R s s"
  by (simp add: reading_def)

lemma reading_trans:
  "reading dv W \<rho>0 I P M R s1 s2 \<Longrightarrow> reading dv W \<rho>0 I P M R s2 s3 \<Longrightarrow> reading dv W \<rho>0 I P M R s1 s3"
  unfolding reading_def using same_but_regs_trans by blast

lemma readingD:
  assumes "reading dv W \<rho>0 I P M R s s'"
  shows "state_holds dv W \<rho>0 I P M R s'" "clear_at s k m \<Longrightarrow> clear_at s' k m" "reg_at E s' r a = reg_at E s r a"
    "cpu_context P (thread s') N V ctx = cpu_context P (thread s) N V ctx"
    "eflags_of (thread s') = eflags_of (thread s)"
  using assms by (auto simp: reading_def reg_at_same cpu_context_same same_but_regs_simps)

lemma reading_building:
  assumes "state_holds dv W \<rho>0 I P M R s" "I b"
  shows "reading dv W \<rho>0 I P M R s (s\<lparr>builder_state := b\<rparr>)"
  using assms by (auto simp: reading_def clear_at_def intro!: state_holds_built
      same_but_regsI [where xs = "reg_exprs (thread s)"])

lemma getReg_law:
  assumes B: "builder_on t dv W I (builder_of E)" "\<rho>0 \<in> W" and P: "pin_ok (pin E)"
    and s: "state_holds dv W \<rho>0 I (pin E) M R s" and ctx: "cpu_context (pin E) (thread s) (M \<rho>0) (R \<rho>0) ctx"
    and r: "reg_at E s r a"
  shows "leads t (getReg E ctx r s) (\<lambda>(e, s'). reading dv W \<rho>0 I (pin E) M R s s' \<and>
    reads dv W \<rho>0 R a (reg_bytes E r) e \<and> (e = None \<longrightarrow> clear_at s' a (reg_bytes E r)))"
proof -
  have layout: "layout_ok (pin E) (thread s)"
    using s by (simp add: state_holds_def)
  have up: "REG_is_Upper8 (pin E) r \<Longrightarrow> reg_bytes E r = 1"
    using P by (simp add: pin_ok_def)
  show ?thesis
    unfolding getExprFromReg_def
    by (rule leads_mono [OF getExprFromReg_part_law [OF B P s cpu_context_full [OF P layout ctx], where a = a]])
      (use r up in \<open>auto simp: reg_at_def reading_def\<close>)
qed

text \<open>A builder that is called.\<close>

lemma builds:
  assumes B: "builder_on t dv W I B" and s: "state_holds dv W \<rho>0 I P M R s"
    and f: "\<And>\<rho>. \<rho> \<in> W \<Longrightarrow> sound_builder t dv \<rho> I B \<Longrightarrow> I (builder_state s) \<Longrightarrow>
      runs t I (f (builder_state s)) (\<lambda>e. den dv \<rho> e = Some (BV n (v \<rho>)))"
  shows "leads t (building f s) (\<lambda>(x, s'). reading dv W \<rho>0 I P M R s s' \<and> operand dv W n v x)"
proof -
  have I: "I (builder_state s)"
    using s by (simp add: state_holds_def memory_holds_def)
  have "leads t (building f s) (\<lambda>(x, s'). (\<forall>\<rho>\<in>W. den dv \<rho> x = Some (BV n (v \<rho>))) \<and> (\<exists>b. I b \<and> s' = s\<lparr>builder_state := b\<rparr>))"
    by (rule leads_building, rule builder_on_runs [OF B]) (use f I in blast)
  then show ?thesis
    by (rule leads_mono) (auto simp: operand_def intro: reading_building [OF s])
qed

lemma reads_contents:
  assumes "reads dv W \<rho>0 V a n None" "\<rho> \<in> W"
  shows "getMemValue (V \<rho>) a n = getMemValue (V \<rho>0) a n"
  unfolding getMemValue_bytes by (rule bytes_value_cong) (use assms in \<open>simp add: reads_def\<close>)

lemma fixRegExpr_law:
  assumes B: "builder_on t dv W I (builder_of E)" "\<rho>0 \<in> W" and P: "pin_ok (pin E)"
    and s: "state_holds dv W \<rho>0 I (pin E) M R s" and ctx: "cpu_context (pin E) (thread s) (M \<rho>0) (R \<rho>0) ctx"
    and r: "reg_at E s r a" and e: "reads dv W \<rho>0 R a (reg_bytes E r) e"
  shows "leads t (fixRegExpr E ctx r e s) (\<lambda>(x, s'). reading dv W \<rho>0 I (pin E) M R s s' \<and>
    operand dv W (reg_bits E r) (\<lambda>\<rho>. reg_val E r a (R \<rho>)) x)"
proof (cases e)
  case None
  have val: "getRegValue (pin E) ctx r = reg_val E r a (R \<rho>)" if "\<rho> \<in> W" for \<rho>
    using getRegValue_contents [OF ctx] reads_contents [of dv W \<rho>0 R] e r that by (simp add: reg_at_def None)
  have size: "0 < reg_bytes E r"
    using r by (auto simp: reg_at_def reg_size_def)
  show ?thesis
    unfolding fixRegExpr_def None option.case getRegValueExpr_def
  proof (rule builds [OF B(1) s])
    fix \<rho>
    assume \<rho>: "\<rho> \<in> W" and sb: "sound_builder t dv \<rho> I (builder_of E)" and I: "I (builder_state s)"
    show "runs t I (createConstantAP (builder_of E) (getRegValue (pin E) ctx r) (reg_bits E r) (builder_state s))
        (\<lambda>x. den dv \<rho> x = Some (BV (reg_bits E r) (reg_val E r a (R \<rho>))))"
      using sound_builder.constAP_law [OF sb I, of "reg_bits E r" "getRegValue (pin E) ctx r"] size val [OF \<rho>] by simp
  qed
qed (use s e in \<open>auto simp: fixRegExpr_def operand_def reads_def reading_refl\<close>)

text \<open>Two registers: either both operands have expressions, or both are clear.\<close>

definition two_operands ::
  "bool \<Rightarrow> assignment set \<Rightarrow> assignment \<Rightarrow> nat \<Rightarrow> (assignment \<Rightarrow> int) \<Rightarrow> (assignment \<Rightarrow> int) \<Rightarrow>
   (expr \<times> expr) option \<Rightarrow> bool" where
  "two_operands dv W \<rho>0 n v w got \<longleftrightarrow> (case got of
     None \<Rightarrow> \<forall>\<rho>\<in>W. v \<rho> = v \<rho>0 \<and> w \<rho> = w \<rho>0
   | Some (d, x) \<Rightarrow> operand dv W n v d \<and> operand dv W n w x)"

lemma getExprFromRegReg_law:
  assumes B: "builder_on t dv W I (builder_of E)" "\<rho>0 \<in> W" and P: "pin_ok (pin E)"
    and s: "state_holds dv W \<rho>0 I (pin E) M R s" and ctx: "cpu_context (pin E) (thread s) (M \<rho>0) (R \<rho>0) ctx"
    and r: "reg_at E s dst a" "reg_at E s src b" "reg_bytes E dst = n" "reg_bytes E src = n"
  shows "leads t (getExprFromRegReg E ctx dst src s) (\<lambda>(got, s'). reading dv W \<rho>0 I (pin E) M R s s' \<and>
    two_operands dv W \<rho>0 (n * 8) (\<lambda>\<rho>. getMemValue (R \<rho>) a n) (\<lambda>\<rho>. getMemValue (R \<rho>) b n) got \<and>
    (got = None \<longrightarrow> clear_at s' a n))"
    (is "leads t _ ?Q")
  unfolding getExprFromRegReg_def
proof (rule leads_bind_pair [OF getReg_law [OF B P s ctx r(1)]])
  fix d s1
  assume "case (d, s1) of (e, s') \<Rightarrow> reading dv W \<rho>0 I (pin E) M R s s' \<and>
    reads dv W \<rho>0 R a (reg_bytes E dst) e \<and> (e = None \<longrightarrow> clear_at s' a (reg_bytes E dst))"
  then have s1: "reading dv W \<rho>0 I (pin E) M R s s1" "reads dv W \<rho>0 R a (reg_bytes E dst) d"
    and clear: "d = None \<Longrightarrow> clear_at s1 a n"
    using r by auto
  note D1 = readingD [OF s1(1)]
  show "leads t (do { (x, s) \<leftarrow> getReg E ctx src s1; fix_both (fixRegExpr E ctx dst) (fixRegExpr E ctx src) d x s }) ?Q"
  proof (rule leads_bind_pair [OF getReg_law [OF B P D1(1)]])
    fix x s2
    assume "case (x, s2) of (e, s') \<Rightarrow> reading dv W \<rho>0 I (pin E) M R s1 s' \<and>
      reads dv W \<rho>0 R b (reg_bytes E src) e \<and> (e = None \<longrightarrow> clear_at s' b (reg_bytes E src))"
    then have s2: "reading dv W \<rho>0 I (pin E) M R s s2" "reads dv W \<rho>0 R b (reg_bytes E src) x" "d = None \<Longrightarrow> clear_at s2 a n"
      using s1(1) clear reading_trans readingD(2) by (auto, blast+)
    note D2 = readingD [OF s2(1)]
    show "leads t (fix_both (fixRegExpr E ctx dst) (fixRegExpr E ctx src) d x s2) ?Q"
    proof (cases "d = None \<and> x = None")
      case True
      then show ?thesis
        using s1(2) s2 reads_contents [of dv W \<rho>0 R] r by (auto simp: fix_both_def two_operands_def)
    next
      case False
      have "leads t (do { (d, s) \<leftarrow> fixRegExpr E ctx dst d s2; (x, s) \<leftarrow> fixRegExpr E ctx src x s; Some (Some (d, x), s) }) ?Q"
      proof (rule leads_bind_pair [OF fixRegExpr_law [OF B P D2(1) _ _ s1(2)]])
        fix d' s3
        assume "case (d', s3) of (x, s') \<Rightarrow> reading dv W \<rho>0 I (pin E) M R s2 s' \<and>
          operand dv W (reg_bits E dst) (\<lambda>\<rho>. reg_val E dst a (R \<rho>)) x"
        then have s3: "reading dv W \<rho>0 I (pin E) M R s s3" and d': "operand dv W (n * 8) (\<lambda>\<rho>. getMemValue (R \<rho>) a n) d'"
          using s2(1) r reading_trans by auto
        note D3 = readingD [OF s3]
        show "leads t (do { (x, s) \<leftarrow> fixRegExpr E ctx src x s3; Some (Some (d', x), s) }) ?Q"
          by (rule leads_bind_pair [OF fixRegExpr_law [OF B P D3(1) _ _ s2(2)]])
            (use s3 d' r ctx D3 in \<open>auto simp: two_operands_def intro: reading_trans\<close>)
      qed (use ctx r D2 in simp_all)
      then show ?thesis
        unfolding fix_both_def if_not_P [OF False] .
    qed
  qed (use ctx r D1 in simp_all)
qed

subsection \<open>Binary operations\<close>

text \<open>What the processor computes, and the flags it sets (\<open>Oper\<close>).\<close>

fun alu :: "kind \<Rightarrow> nat \<Rightarrow> int \<Rightarrow> int \<Rightarrow> int" where
  "alu Add n x y = take_bit n (x + y)"
| "alu Sub n x y = take_bit n (x - y)"
| "alu And n x y = and x y"
| "alu Or n x y = or x y"
| "alu Xor n x y = xor x y"
| "alu _ n x y = 0"

lemma in_range_logic: "in_range n x \<Longrightarrow> in_range n y \<Longrightarrow> in_range n (and x y) \<and> in_range n (or x y) \<and> in_range n (xor x y)"
  by (auto simp: in_range_iff_bit bit_simps)

lemma in_range_alu:
  "getOpKindBinary k = Some op \<Longrightarrow> in_range n x \<Longrightarrow> in_range n y \<Longrightarrow> in_range n (alu k n x y)"
  by (cases k) (auto simp: in_range_logic)

lemma alu_arith:
  "getOpKindBinary k = Some op \<Longrightarrow> bv_arith k n x y = Some (alu k n x y) \<and> \<not> compareKind k \<and> k \<noteq> UDiv \<and> k \<noteq> SDiv"
  by (cases k) (auto simp: compareKind_def)

definition binary_oper :: "op_kind \<Rightarrow> kind \<Rightarrow> nat \<Rightarrow> int \<Rightarrow> int \<Rightarrow> oper" where
  "binary_oper op k n x y = Oper op n (alu k n x y) x y"

lemma binary_oper_done:
  assumes "getOpKindBinary k = Some op" "8 \<le> n" "in_range n x" "in_range n y"
  shows "op_done (binary_oper op k n x y)"
  using assms in_range_logic [of n x y] by (cases k) (auto simp: binary_oper_def)

lemma binary_oper_means:
  assumes "getOpKindBinary k = Some op" "den dv \<rho> r = Some (BV n (alu k n x y))" "den dv \<rho> d = Some (BV n x)"
    "den dv \<rho> e = Some (BV n y)"
  shows "op_means dv \<rho> (FlagOperation_set now op (Some r) (Some d) (Some e)) (binary_oper op k n x y)"
  using assms by (cases k) (auto simp: binary_oper_def FlagOperation_set_def)

lemma state_holds_eflags [simp]:
  "state_holds dv W \<rho>0 I P M R (s\<lparr>thread := (thread s)\<lparr>eflags_of := F\<rparr>\<rparr>) = state_holds dv W \<rho>0 I P M R s"
proof -
  have "getExprFromRegAddr ((thread s)\<lparr>eflags_of := F\<rparr>) = getExprFromRegAddr (thread s)"
    by (simp add: fun_eq_iff getExprFromRegAddr_def)
  moreover have "layout_ok P ((thread s)\<lparr>eflags_of := F\<rparr>) = layout_ok P (thread s)"
    by (simp add: layout_ok_def places_ok_def)
  ultimately show ?thesis
    by (simp add: state_holds_def memory_holds_def)
qed

text \<open>The steps after the operands: registers stay where they are and what is clear stays clear.\<close>

definition stays :: "instr_env \<Rightarrow> 'z thread_state_scheme \<Rightarrow> 'z thread_state_scheme \<Rightarrow> bool" where
  "stays E s s' \<longleftrightarrow> (\<forall>r a. reg_at E s' r a = reg_at E s r a) \<and> (\<forall>k m. clear_at s k m \<longrightarrow> clear_at s' k m)"

lemma stays_trans: "stays E s1 s2 \<Longrightarrow> stays E s2 s3 \<Longrightarrow> stays E s1 s3"
  by (simp add: stays_def)

lemma stays_reading: "reading dv W \<rho>0 I P M R s s' \<Longrightarrow> stays E s s'"
  by (simp add: stays_def readingD)

lemma stays_eflags: "stays E s (s\<lparr>thread := (thread s)\<lparr>eflags_of := F\<rparr>\<rparr>)"
  by (simp add: stays_def reg_at_def regToRegAddr_def clear_at_def getExprFromRegAddr_def)

lemma setEflags_law:
  assumes s: "pin_holds dv W \<rho>0 I P M R h F s"
    and p: "\<And>\<rho>. \<rho> \<in> W \<Longrightarrow> op_done (p \<rho>) \<and> oper_kind (p \<rho>) = op \<and>
      op_means dv \<rho> (FlagOperation_set 0 op r d x) (p \<rho>)"
  shows "leads t (setEflags op r d x s) (\<lambda>s'. stays E s s' \<and>
    pin_holds dv W \<rho>0 I P M R (\<lambda>\<rho>. p \<rho> # h \<rho>) (\<lambda>\<rho>. set_flags (p \<rho>) (F \<rho>)) s')"
proof -
  have "flags_ok dv \<rho> (p \<rho> # h \<rho>) (set_flags (p \<rho>) (F \<rho>)) (Eflags_set op r d x (eflags_of (thread s)))" if "\<rho> \<in> W" for \<rho>
    using flags_ok_set [of dv \<rho> "h \<rho>" "F \<rho>" "eflags_of (thread s)" "p \<rho>"] s p [OF that] that
    by (auto simp: pin_holds_def)
  with s show ?thesis
    by (simp add: setEflags_def on_thread_def pin_holds_def stays_eflags)
qed

lemma invalidateEflags_law:
  assumes "pin_holds dv W \<rho>0 I P M R h F s"
  shows "leads t (invalidateEflags op s) (\<lambda>s'. stays E s s' \<and>
    pin_holds dv W \<rho>0 I P M R h (\<lambda>\<rho>. drop_flags op (F \<rho>)) s')"
  using assms flags_ok_invalidate by (auto simp: invalidateEflags_def on_thread_def pin_holds_def stays_eflags)

lemma pin_holds_reading:
  "pin_holds dv W \<rho>0 I P M R h F s \<Longrightarrow> reading dv W \<rho>0 I P M R s s' \<Longrightarrow> pin_holds dv W \<rho>0 I P M R h F s'"
  by (simp add: pin_holds_def readingD)

lemma doBinary_law:
  assumes B: "builder_on t dv W I (builder_of E)" and s: "pin_holds dv W \<rho>0 I (pin E) M R h F s"
    and k: "getOpKindBinary k = Some op" and n: "8 \<le> n"
    and v: "operand dv W n v d" "operand dv W n w x"
  shows "leads t (doBinary E k op d x s) (\<lambda>(res, s'). stays E s s' \<and> operand dv W n (\<lambda>\<rho>. alu k n (v \<rho>) (w \<rho>)) res \<and>
    pin_holds dv W \<rho>0 I (pin E) M R (\<lambda>\<rho>. binary_oper op k n (v \<rho>) (w \<rho>) # h \<rho>)
      (\<lambda>\<rho>. set_flags (binary_oper op k n (v \<rho>) (w \<rho>)) (F \<rho>)) s')"
    (is "leads t _ ?Q")
proof -
  have "leads t (building (createBinaryExpr (builder_of E) k d x) s)
      (\<lambda>(res, s'). reading dv W \<rho>0 I (pin E) M R s s' \<and> operand dv W n (\<lambda>\<rho>. alu k n (v \<rho>) (w \<rho>)) res)"
  proof (rule builds [OF B])
    fix \<rho>
    assume \<rho>: "\<rho> \<in> W" and sb: "sound_builder t dv \<rho> I (builder_of E)" and I: "I (builder_state s)"
    show "runs t I (createBinaryExpr (builder_of E) k d x (builder_state s)) (\<lambda>e. den dv \<rho> e = Some (BV n (alu k n (v \<rho>) (w \<rho>))))"
      using alu_arith [OF k, of n "v \<rho>" "w \<rho>"] v \<rho> by (intro sound_builder.arith_bv [OF sb I]) (auto simp: operand_def)
  qed (use s in \<open>simp add: pin_holds_def\<close>)
  then show ?thesis
    unfolding doBinary_def
  proof (rule leads_bind_pair)
    fix res s1
    assume "case (res, s1) of (res, s') \<Rightarrow> reading dv W \<rho>0 I (pin E) M R s s' \<and> operand dv W n (\<lambda>\<rho>. alu k n (v \<rho>) (w \<rho>)) res"
    then have s1: "reading dv W \<rho>0 I (pin E) M R s s1" and res: "operand dv W n (\<lambda>\<rho>. alu k n (v \<rho>) (w \<rho>)) res"
      by auto
    have p: "op_done (binary_oper op k n (v \<rho>) (w \<rho>)) \<and> oper_kind (binary_oper op k n (v \<rho>) (w \<rho>)) = op \<and>
        op_means dv \<rho> (FlagOperation_set 0 op (Some res) (Some d) (Some x))
          (binary_oper op k n (v \<rho>) (w \<rho>))" if "\<rho> \<in> W" for \<rho>
      using res v that den_BV [of dv \<rho> d n "v \<rho>"] den_BV [of dv \<rho> x n "w \<rho>"]
        binary_oper_done [OF k n] binary_oper_means [OF k]
      by (auto simp: operand_def) (simp add: binary_oper_def)
    show "leads t (do { s \<leftarrow> setEflags op (Some res) (Some d) (Some x) s1; Some (res, s) }) ?Q"
      by (rule leads_bind [OF setEflags_law [OF pin_holds_reading [OF s s1], where p = "\<lambda>\<rho>. binary_oper op k n (v \<rho>) (w \<rho>)"]])
        (use p res stays_trans [OF stays_reading [OF s1]] in auto)
  qed
qed

text \<open>Storing a result in a register.\<close>

definition put_reg :: "instr_env \<Rightarrow> reg \<Rightarrow> addr \<Rightarrow> (assignment \<Rightarrow> int) \<Rightarrow> contents \<Rightarrow> contents" where
  "put_reg E r a v R = (\<lambda>\<rho>. put_bytes a (wide (pin E) r) (byte_of (v \<rho>)) (R \<rho>))"

lemma setReg_law:
  assumes B: "builder_on t dv W I (builder_of E)" "\<rho>0 \<in> W" and P: "pin_ok (pin E)"
    and s: "pin_holds dv W \<rho>0 I (pin E) M R h F s" and r: "reg_at E s r a"
    and e: "operand dv W (reg_bits E r) v e"
  shows "leads t (setReg E r (Some e) s) (pin_holds dv W \<rho>0 I (pin E) M (put_reg E r a v R) h F)"
proof -
  have range: "in_range (reg_bits E r) (v \<rho>)" if "\<rho> \<in> W" for \<rho>
    using e den_BV [of dv \<rho> e "reg_bits E r" "v \<rho>"] that by (simp add: operand_def)
  show ?thesis
    unfolding put_reg_def
    by (rule leads_mono [OF setExprToReg_law [OF B P, where M = M and R = R and x = v and a = a]])
      (use s r e range in \<open>auto simp: pin_holds_def reg_at_def writes_def operand_def same_but_regs_simps\<close>)
qed

text \<open>A result that is concrete needs no action where the register is clear.\<close>

lemma clear_put:
  assumes s: "state_holds dv W \<rho>0 I P M R s" and clear: "clear_at s a m" and m: "m \<le> 2 ^ 64"
    and v: "\<And>\<rho>. \<rho> \<in> W \<Longrightarrow> v \<rho> = v \<rho>0"
  shows "state_holds dv W \<rho>0 I P M (\<lambda>\<rho>. put_bytes a m (byte_of (v \<rho>)) (R \<rho>)) s"
proof -
  have "getExprFromRegAddr (thread s) b = Some None" if "unat (b - a) < m" for b
    using clear that offset_iff [of "unat (b - a)" b a] by (auto simp: clear_at_def)
  then have "tracks dv W \<rho>0 (\<lambda>\<rho>. put_bytes a m (byte_of (v \<rho>)) (R \<rho>)) (getExprFromRegAddr (thread s))"
    using s v by (auto simp: state_holds_def tracks_def put_bytes_def)
  with s show ?thesis
    by (simp add: state_holds_def)
qed

text \<open>
  The upper half of the 64-bit register of a 32-bit destination, which the processor clears, has to be
  clear already: when both operands are concrete, the handler does not touch the register.
\<close>

definition upper_clear :: "instr_env \<Rightarrow> 'z thread_state_scheme \<Rightarrow> reg \<Rightarrow> addr \<Rightarrow> bool" where
  "upper_clear E s r a \<longleftrightarrow> (REG_is_gr32 (pin E) r \<longrightarrow> clear_at s (a + 4) 4)"

lemma clear_wide:
  assumes P: "pin_ok (pin E)" and c: "clear_at s a (reg_bytes E r)" "upper_clear E s r a"
  shows "clear_at s a (wide (pin E) r)"
proof (cases "REG_is_gr32 (pin E) r")
  case True
  then have "reg_bytes E r = 4" "wide (pin E) r = 8"
    using P by (simp_all add: pin_ok_def wide_def)
  moreover have "getExprFromRegAddr (thread s) (a + of_nat i) = Some None" if "i < 8" for i
  proof (cases "i < 4")
    case True
    with c(1) \<open>reg_bytes E r = 4\<close> show ?thesis
      by (simp add: clear_at_def)
  next
    case False
    then have "a + of_nat i = a + 4 + of_nat (i - 4)" "i - 4 < 4"
      using that by (simp_all add: of_nat_diff)
    with c(2) True show ?thesis
      unfolding upper_clear_def clear_at_def by metis
  qed
  ultimately show ?thesis
    by (simp add: clear_at_def)
qed (use c(1) in \<open>simp add: wide_def\<close>)

text \<open>
  A handler of two registers: \<open>n\<close> bytes, \<open>wr\<close> whether the result is written. The flags are those of
  the processor, and no longer depend on the input if the operands do not.
\<close>

lemma instrumentBinaryRegReg_law:
  assumes B: "builder_on t dv W I (builder_of E)" "\<rho>0 \<in> W" and P: "pin_ok (pin E)"
    and s: "pin_holds dv W \<rho>0 I (pin E) M R h F s" and ctx: "cpu_context (pin E) (thread s) (M \<rho>0) (R \<rho>0) ctx"
    and r: "reg_at E s dst a" "reg_at E s src b" "reg_bytes E dst = n" "reg_bytes E src = n"
    and k: "getOpKindBinary k = Some op" and up: "wr \<Longrightarrow> upper_clear E s dst a"
    and v: "v = (\<lambda>\<rho>. getMemValue (R \<rho>) a n)" and w: "w = (\<lambda>\<rho>. getMemValue (R \<rho>) b n)"
    and R': "R' = (if wr then put_reg E dst a (\<lambda>\<rho>. alu k (n * 8) (v \<rho>) (w \<rho>)) R else R)"
  shows "leads t (instrumentBinaryRegReg E ctx dst src k wr s) (\<lambda>s'.
    pin_holds dv W \<rho>0 I (pin E) M R' (\<lambda>\<rho>. binary_oper op k (n * 8) (v \<rho>) (w \<rho>) # h \<rho>)
      (\<lambda>\<rho>. set_flags (binary_oper op k (n * 8) (v \<rho>) (w \<rho>)) (F \<rho>)) s' \<or>
    (\<forall>\<rho>\<in>W. v \<rho> = v \<rho>0 \<and> w \<rho> = w \<rho>0) \<and> pin_holds dv W \<rho>0 I (pin E) M R' h (\<lambda>\<rho>. drop_flags op (F \<rho>)) s')"
    (is "leads t _ ?Q")
proof -
  have st: "state_holds dv W \<rho>0 I (pin E) M R s"
    using s by (simp add: pin_holds_def)
  have n: "8 \<le> n * 8" "n \<le> 32"
    using r by (auto simp: reg_at_def reg_size_def)
  show ?thesis
    unfolding instrumentBinaryRegReg_def k bind.bind_lunit
  proof (rule leads_bind_pair [OF getExprFromRegReg_law [OF B P st ctx r]])
    fix got s1
    assume "case (got, s1) of (got, s') \<Rightarrow> reading dv W \<rho>0 I (pin E) M R s s' \<and>
      two_operands dv W \<rho>0 (n * 8) (\<lambda>\<rho>. getMemValue (R \<rho>) a n) (\<lambda>\<rho>. getMemValue (R \<rho>) b n) got \<and>
      (got = None \<longrightarrow> clear_at s' a n)"
    then have s1: "reading dv W \<rho>0 I (pin E) M R s s1" and got: "two_operands dv W \<rho>0 (n * 8) v w got"
      and clear: "got = None \<Longrightarrow> clear_at s1 a n"
      by (auto simp: v w)
    note p1 = pin_holds_reading [OF s s1] and D1 = readingD [OF s1]
    show "leads t (case got of None \<Rightarrow> invalidateEflags op s1 | Some (d, x) \<Rightarrow> do {
        (res, s) \<leftarrow> doBinary E k op d x s1; if wr then setReg E dst (Some res) s else Some s }) ?Q"
    proof (cases got)
      case None
      have same: "\<forall>\<rho>\<in>W. v \<rho> = v \<rho>0 \<and> w \<rho> = w \<rho>0"
        using got None by (simp add: two_operands_def)
      have put: "state_holds dv W \<rho>0 I (pin E) M R' s1"
      proof (cases wr)
        case True
        have "clear_at s1 a (wide (pin E) dst)"
          using clear_wide [OF P, of s1 a dst] clear [OF None] up [OF True] r(3) D1(2) by (auto simp: upper_clear_def)
        moreover have "wide (pin E) dst \<le> 2 ^ 64"
          using n r(3) by (simp add: wide_def)
        ultimately show ?thesis
          unfolding R' put_reg_def if_P [OF True] by (rule clear_put [OF D1(1)]) (use same in simp)
      qed (use D1(1) R' in simp)
      then have "pin_holds dv W \<rho>0 I (pin E) M R' h F s1"
        using p1 by (simp add: pin_holds_def)
      from invalidateEflags_law [OF this, where E = E] show ?thesis
        unfolding None option.case by (rule leads_mono) (use same in simp)
    next
      case (Some dx)
      then obtain d x where dx: "got = Some (d, x)" "operand dv W (n * 8) v d" "operand dv W (n * 8) w x"
        using got by (cases dx) (simp add: two_operands_def)
      show ?thesis
        unfolding dx(1) option.case prod.case
      proof (rule leads_bind_pair [OF doBinary_law [OF B(1) p1 k n(1) dx(2,3)]])
        fix res s2
        assume "case (res, s2) of (res, s') \<Rightarrow> stays E s1 s' \<and> operand dv W (n * 8) (\<lambda>\<rho>. alu k (n * 8) (v \<rho>) (w \<rho>)) res \<and>
          pin_holds dv W \<rho>0 I (pin E) M R (\<lambda>\<rho>. binary_oper op k (n * 8) (v \<rho>) (w \<rho>) # h \<rho>)
            (\<lambda>\<rho>. set_flags (binary_oper op k (n * 8) (v \<rho>) (w \<rho>)) (F \<rho>)) s'"
        then have s2: "stays E s1 s2" and res: "operand dv W (n * 8) (\<lambda>\<rho>. alu k (n * 8) (v \<rho>) (w \<rho>)) res"
          and p2: "pin_holds dv W \<rho>0 I (pin E) M R (\<lambda>\<rho>. binary_oper op k (n * 8) (v \<rho>) (w \<rho>) # h \<rho>)
            (\<lambda>\<rho>. set_flags (binary_oper op k (n * 8) (v \<rho>) (w \<rho>)) (F \<rho>)) s2"
          by auto
        have "reg_at E s2 dst a"
          using s2 D1(3) r(1) by (simp add: stays_def)
        from setReg_law [OF B P p2 this] res r(3)
        have "leads t (setReg E dst (Some res) s2) (pin_holds dv W \<rho>0 I (pin E) M (put_reg E dst a (\<lambda>\<rho>. alu k (n * 8) (v \<rho>) (w \<rho>)) R)
            (\<lambda>\<rho>. binary_oper op k (n * 8) (v \<rho>) (w \<rho>) # h \<rho>) (\<lambda>\<rho>. set_flags (binary_oper op k (n * 8) (v \<rho>) (w \<rho>)) (F \<rho>)))"
          by simp
        then show "leads t (if wr then setReg E dst (Some res) s2 else Some s2) ?Q"
          using p2 unfolding R' by (cases wr) (auto elim: leads_mono)
      qed
    qed
  qed
qed

subsection \<open>A comparison and a jump\<close>

text \<open>The processor's conditions after the comparison of \<open>x\<close> and \<open>y\<close>.\<close>

fun after_cmp :: "jcc_kind \<Rightarrow> nat \<Rightarrow> int \<Rightarrow> int \<Rightarrow> bool" where
  "after_cmp JCC_B n x y \<longleftrightarrow> x < y"
| "after_cmp JCC_BE n x y \<longleftrightarrow> x \<le> y"
| "after_cmp JCC_L n x y \<longleftrightarrow> sval n x < sval n y"
| "after_cmp JCC_LE n x y \<longleftrightarrow> sval n x \<le> sval n y"
| "after_cmp JCC_O n x y \<longleftrightarrow> overflows n (sval n x - sval n y)"
| "after_cmp JCC_S n x y \<longleftrightarrow> sval n (take_bit n (x - y)) < 0"
| "after_cmp JCC_P n x y \<longleftrightarrow> even (length (filter (bit (take_bit n (x - y))) [0..<8]))"
| "after_cmp JCC_Z n x y \<longleftrightarrow> x = y"

lemma after_cmp_flags:
  assumes "0 < n" "in_range n x" "in_range n y"
  shows "jcc_holds (x86_flag (binary_oper CC_OP_SUB Sub n x y)) j = after_cmp j n x y"
proof -
  have le: "sval n x \<le> sval n y \<longleftrightarrow> sval n x < sval n y \<or> x = y"
    using sval_inject [OF assms] by auto
  show ?thesis
    using sub_signed_less [OF assms] sub_zero [OF assms(2,3)]
    by (cases j) (auto simp: binary_oper_def x86_flag_def le)
qed

lemma sub_sets_all:
  assumes "oper_kind p = CC_OP_SUB"
  shows "jcc_value (set_flags p F) j = Some (jcc_holds (x86_flag p) j)" "jcc_faithful (p # h) j"
    "jcc_value (drop_flags CC_OP_SUB F) j = None"
proof -
  have a: "affects CC_OP_SUB f \<and> touches CC_OP_SUB f" if "f \<in> set (jcc_flags j)" for f
    using that by (cases j) (auto simp: touches_def)
  then have set: "set_flags p F f = Some (x86_flag p f)" "drop_flags CC_OP_SUB F f = None" if "f \<in> set (jcc_flags j)" for f
    using that assms by (simp_all add: set_flags_def drop_flags_def del: affects_iff)
  show "jcc_value (set_flags p F) j = Some (jcc_holds (x86_flag p) j)"
    using set(1) jcc_holds_cong [of j "\<lambda>f. set_flags p F f = Some True" "x86_flag p"]
    by (auto simp: jcc_value_def)
  have "jcc_flags j \<noteq> []"
    by (cases j) simp_all
  then show "jcc_value (drop_flags CC_OP_SUB F) j = None"
    using set(2) [of "hd (jcc_flags j)"] by (auto simp: jcc_value_def)
  have "faithful (p # h) f" if "f \<in> set (jcc_flags j)" for f
    unfolding faithful_def defined_by_def using a [OF that] assms
    by (intro exI [of _ 0]) (simp add: CC_OP_LAST_def del: affects_iff)
  then show "jcc_faithful (p # h) j"
    using assms by (simp add: jcc_faithful_def)
qed

text \<open>The condition that \<open>instrumentJcc\<close> passes to the solver.\<close>

lemma thread_computeJcc_law:
  assumes B: "builder_on t dv W I (builder_of E)" and A: "apint_ok (apint_of E)"
    and s: "pin_holds dv W \<rho>0 I P M R h F s"
    and v: "\<And>\<rho>. \<rho> \<in> W \<Longrightarrow> jcc_value (F \<rho>) j = Some (v \<rho>) \<and> jcc_faithful (h \<rho>) j"
  shows "leads t (thread_computeJcc (apint_of E) (builder_of E) j neg s) (\<lambda>(e, s').
    pin_holds dv W \<rho>0 I P M R h F s' \<and> (\<forall>\<rho>\<in>W. means dv \<rho> e (BoolV (v \<rho> \<noteq> neg))))"
proof -
  have I: "I (builder_state s)" and st: "state_holds dv W \<rho>0 I P M R s"
    using s by (auto simp: pin_holds_def state_holds_def memory_holds_def)
  have "leads t (building (computeJcc (apint_of E) (builder_of E) (eflags_of (thread s)) j neg) s)
      (\<lambda>(e, s'). (\<forall>\<rho>\<in>W. means dv \<rho> e (BoolV (v \<rho> \<noteq> neg))) \<and> (\<exists>b. I b \<and> s' = s\<lparr>builder_state := b\<rparr>))"
  proof (rule leads_building, rule builder_on_runs [OF B])
    fix \<rho>
    assume \<rho>: "\<rho> \<in> W" and sb: "sound_builder t dv \<rho> I (builder_of E)"
    show "runs t I (computeJcc (apint_of E) (builder_of E) (eflags_of (thread s)) j neg (builder_state s))
        (\<lambda>e. means dv \<rho> e (BoolV (v \<rho> \<noteq> neg)))"
      using s \<rho> v [OF \<rho>] by (intro sound_builder.computeJcc_law [OF sb I A]) (auto simp: pin_holds_def)
  qed
  then show ?thesis
    unfolding thread_computeJcc_def
    by (rule leads_mono) (auto intro!: pin_holds_reading [OF s] reading_building [OF st])
qed

lemma instrumentJcc_steps:
  "thread_computeJcc (apint_of E) (builder_of E) j neg s = Some (e, s') \<Longrightarrow>
   instrumentJcc E ctx taken target j neg s =
     (case e of None \<Rightarrow> Some s' | Some e \<Rightarrow> on_solver (addJcc (solver_of E) e taken (instr_ptr E ctx)) s')"
  by (simp add: instrumentJcc_def Let_def split: option.splits)

lemma cmp_jcc_law:
  assumes B: "builder_on t dv W I (builder_of E)" "\<rho>0 \<in> W" and P: "pin_ok (pin E)" and A: "apint_ok (apint_of E)"
    and s: "pin_holds dv W \<rho>0 I (pin E) M R h F s" and ctx: "cpu_context (pin E) (thread s) (M \<rho>0) (R \<rho>0) ctx"
    and r: "reg_at E s dst a" "reg_at E s src b" "reg_bytes E dst = n" "reg_bytes E src = n"
    and v: "v = (\<lambda>\<rho>. getMemValue (R \<rho>) a n)" and w: "w = (\<lambda>\<rho>. getMemValue (R \<rho>) b n)"
  shows "leads t (instrumentBinaryRegReg E ctx dst src Sub False s) (\<lambda>s1.
    leads t (thread_computeJcc (apint_of E) (builder_of E) j neg s1) (\<lambda>(e, s2).
      case e of
        None \<Rightarrow> (\<forall>\<rho>\<in>W. v \<rho> = v \<rho>0 \<and> w \<rho> = w \<rho>0) \<and> instrumentJcc E ctx' taken target j neg s1 = Some s2
      | Some e \<Rightarrow> (\<forall>\<rho>\<in>W. den dv \<rho> e = Some (BoolV (after_cmp j (n * 8) (v \<rho>) (w \<rho>) \<noteq> neg))) \<and>
          instrumentJcc E ctx' taken target j neg s1 = on_solver (addJcc (solver_of E) e taken (instr_ptr E ctx')) s2))"
proof -
  have op: "getOpKindBinary Sub = Some CC_OP_SUB"
    by simp
  have n: "0 < n * 8"
    using r by (auto simp: reg_at_def reg_size_def)
  show ?thesis
  proof (rule leads_mono [OF instrumentBinaryRegReg_law [OF B P s ctx r op _ v w, where wr = False and R' = R]], simp, simp, elim disjE)
    fix s1 :: pin_state
    assume s1: "pin_holds dv W \<rho>0 I (pin E) M R (\<lambda>\<rho>. binary_oper CC_OP_SUB Sub (n * 8) (v \<rho>) (w \<rho>) # h \<rho>)
      (\<lambda>\<rho>. set_flags (binary_oper CC_OP_SUB Sub (n * 8) (v \<rho>) (w \<rho>)) (F \<rho>)) s1"
    have val: "jcc_value (set_flags (binary_oper CC_OP_SUB Sub (n * 8) (v \<rho>) (w \<rho>)) (F \<rho>)) j = Some (after_cmp j (n * 8) (v \<rho>) (w \<rho>)) \<and>
        jcc_faithful (binary_oper CC_OP_SUB Sub (n * 8) (v \<rho>) (w \<rho>) # h \<rho>) j" for \<rho>
      using sub_sets_all(1,2) [where p = "binary_oper CC_OP_SUB Sub (n * 8) (v \<rho>) (w \<rho>)" and j = j]
        after_cmp_flags [OF n, of "v \<rho>" "w \<rho>" j]
      by (simp add: v w) (simp add: binary_oper_def)
    show "leads t (thread_computeJcc (apint_of E) (builder_of E) j neg s1) (\<lambda>(e, s2).
      case e of
        None \<Rightarrow> (\<forall>\<rho>\<in>W. v \<rho> = v \<rho>0 \<and> w \<rho> = w \<rho>0) \<and> instrumentJcc E ctx' taken target j neg s1 = Some s2
      | Some e \<Rightarrow> (\<forall>\<rho>\<in>W. den dv \<rho> e = Some (BoolV (after_cmp j (n * 8) (v \<rho>) (w \<rho>) \<noteq> neg))) \<and>
          instrumentJcc E ctx' taken target j neg s1 = on_solver (addJcc (solver_of E) e taken (instr_ptr E ctx')) s2)"
      using thread_computeJcc_law [OF B(1) A s1 val, of neg] instrumentJcc_steps [where E = E and j = j and neg = neg and s = s1 and ctx = ctx'] B(2)
      by (cases "thread_computeJcc (apint_of E) (builder_of E) j neg s1") (auto split: option.splits)
  next
    fix s1 :: pin_state
    assume s1: "(\<forall>\<rho>\<in>W. v \<rho> = v \<rho>0 \<and> w \<rho> = w \<rho>0) \<and> pin_holds dv W \<rho>0 I (pin E) M R h (\<lambda>\<rho>. drop_flags CC_OP_SUB (F \<rho>)) s1"
    then have "flags_ok dv \<rho>0 (h \<rho>0) (drop_flags CC_OP_SUB (F \<rho>0)) (eflags_of (thread s1))"
      using B(2) by (simp add: pin_holds_def)
    then have "computeJcc (apint_of E) (builder_of E) (eflags_of (thread s1)) j neg (builder_state s1) = Some (None, builder_state s1)"
      by (rule computeJcc_concrete) (simp add: sub_sets_all(3) [of "Oper CC_OP_SUB 0 0 0 0"])
    then show "leads t (thread_computeJcc (apint_of E) (builder_of E) j neg s1) (\<lambda>(e, s2).
      case e of
        None \<Rightarrow> (\<forall>\<rho>\<in>W. v \<rho> = v \<rho>0 \<and> w \<rho> = w \<rho>0) \<and> instrumentJcc E ctx' taken target j neg s1 = Some s2
      | Some e \<Rightarrow> (\<forall>\<rho>\<in>W. den dv \<rho> e = Some (BoolV (after_cmp j (n * 8) (v \<rho>) (w \<rho>) \<noteq> neg))) \<and>
          instrumentJcc E ctx' taken target j neg s1 = on_solver (addJcc (solver_of E) e taken (instr_ptr E ctx')) s2)"
      using s1 by (simp add: thread_computeJcc_def building_def instrumentJcc_def)
  qed
qed

end
