(* ===== verification/Dispatch.thy ===== *)
theory Dispatch
  imports InstrumentMove InstrumentShuffle
begin

declare One_nat_def [simp del]

section \<open>What is inserted for an instruction\<close>

text \<open>
  \<open>analysis_instruction.cpp\<close>. For every instruction of the program, before it runs for the first
  time, the code looks at its operands and asks Pin to call handlers of \<open>instrument.cpp\<close>
  whenever the instruction runs. What Pin tells about an instruction is a record \<open>ins\<close>; a call that
  the code inserts is a record \<open>call\<close>, with the handler, the arguments that Pin is to pass, and
  when to call. A function returns the calls that it inserts, in their order; \<open>None\<close> is a failed
  assertion, \<open>UNREACHABLE\<close>, or a question to Pin that has no answer.

  An opcode is the name of XED's enumeration without its prefix; \<open>None\<close> is a number out of the
  range of the enumeration.
\<close>

subsection \<open>Instructions\<close>

datatype operand_shape = OpReg reg | OpMemory | OpImmediate addr | OpAddressGenerator | OpOther

record operand =
  shape :: operand_shape
  op_read :: bool
  op_written :: bool
  op_implicit :: bool

record ins =
  INS_Opcode :: "string option"
  operands :: "operand list"
  INS_MemoryBaseReg :: reg
  INS_MemoryIndexReg :: reg
  INS_MemoryDisplacement :: addr
  INS_MemoryScale :: "32 word"
  INS_MemoryReadSize :: nat

definition shape_at :: "ins \<Rightarrow> nat \<Rightarrow> operand_shape" where
  "shape_at i n = (if n < length (operands i) then shape (operands i ! n) else OpOther)"

definition INS_OperandIsReg :: "ins \<Rightarrow> nat \<Rightarrow> bool" where
  "INS_OperandIsReg i n \<longleftrightarrow> (case shape_at i n of OpReg _ \<Rightarrow> True | _ \<Rightarrow> False)"

definition INS_OperandIsMemory :: "ins \<Rightarrow> nat \<Rightarrow> bool" where
  "INS_OperandIsMemory i n \<longleftrightarrow> shape_at i n = OpMemory"

definition INS_OperandIsImmediate :: "ins \<Rightarrow> nat \<Rightarrow> bool" where
  "INS_OperandIsImmediate i n \<longleftrightarrow> (case shape_at i n of OpImmediate _ \<Rightarrow> True | _ \<Rightarrow> False)"

definition INS_OperandReg :: "pin_api \<Rightarrow> ins \<Rightarrow> nat \<Rightarrow> reg" where
  "INS_OperandReg P i n = (case shape_at i n of OpReg r \<Rightarrow> r | _ \<Rightarrow> REG_INVALID P)"

definition INS_OperandImmediate :: "ins \<Rightarrow> nat \<Rightarrow> addr option" where
  "INS_OperandImmediate i n = (case shape_at i n of OpImmediate v \<Rightarrow> Some v | _ \<Rightarrow> None)"

definition INS_OperandIsImplicit :: "ins \<Rightarrow> nat \<Rightarrow> bool" where
  "INS_OperandIsImplicit i n \<longleftrightarrow> n < length (operands i) \<and> op_implicit (operands i ! n)"

subsection \<open>Calls\<close>

text \<open>The functions of \<open>instrument.h\<close>, without the prefix \<open>instrument\<close>.\<close>

datatype compute_fun =
    BBL | BinaryRegReg | BinaryRegImm | BinaryRegMem | BinaryMemReg | BinaryMemImm | CarryRegReg
   | CarryRegImm | CarryRegMem | CarryMemReg | CarryMemImm | BsRegReg | BsRegMem | BswapReg
   | BtRegReg | BtRegImm | BtMemReg | BtMemImm | Call | Cbw | Cwd

datatype exchange_fun =
    CmovRegReg | CmovRegMem | Cmps | CmpxchgRegReg | CmpxchgMemReg | Cpuid | IncDecReg | IncDecMem
   | DivReg | DivMem | IMulReg | IMulMem | IMulRegReg | IMulRegMem | IMulRegRegImm | IMulRegMemImm
   | LeaRegMem

datatype move_fun =
    MovRegReg | MovRegImm | MovRegMem | MovMemImm | MovMemReg | MovhRegMem | MovhMemReg
   | MovlzRegReg | MovlzRegMem | MovlzMemReg | Movs | MovsxRegMem | MovsxRegReg | MovzxRegMem
   | MovzxRegReg | MulReg | MulMem | NegNotReg | NegNotMem | Jcc | JmpReg | JmpMem

datatype packed_fun =
    PackRegReg | PackRegMem | PalignrReg | PalignrMem | PcmpRegReg | PcmpRegMem | PextrRegRegImm
   | PextrMemRegImm | PmaddwdRegReg | PmaddwdRegMem | PmulRegReg | PmulRegMem | PmulhwRegReg
   | PmulhwRegMem | PcmpxchgRegReg | PcmpxchgRegMem | Pmovmskb | PshufRegRegImm | PshufRegMemImm

datatype shuffle_fun =
    PshufbRegReg | PshufbRegMem | PshufwRegRegImm | PshufwRegMemImm | PshiftRegReg | PshiftRegImm
   | PshiftRegMem | ParithRegReg | ParithRegMem | PopReg | PopMem | PunpckhRegReg | PunpckhRegMem
   | PunpcklRegReg | PunpcklRegMem | PushReg | PushImm | PushMem

datatype shift_fun =
    Rdtsc | Rdtscp | Scas | SetReg | SetMem | ShiftRegImm | ShiftRegCl | ShiftMemImm | ShiftMemCl
   | ShiftdRegRegImm | ShiftdRegRegCl | ShiftdMemRegImm | ShiftdMemRegCl | Stos | XaddRegReg
   | XaddMemReg | XchgRegReg | XchgRegMem | XchgMemReg | ConcretizeReg | ConcretizeMem
   | ConcretizeEflags | ClrReg | ClrMem

datatype vex_fun =
    TernaryRegRegReg | TernaryRegRegMem | VmovlRegRegMem | VparithRegRegReg | VparithRegRegMem
   | VpcmpRegRegReg | VpcmpRegRegMem | Vinsert128iRegRegRegImm | Vinsert128iRegRegMemImm
   | VpmaddwdRegRegReg | VpmaddwdRegRegMem | VpcmpxchgRegRegReg | VpcmpxchgRegRegMem
   | VpmulhwRegRegReg | VpmulhwRegRegMem

datatype ymm_fun =
    VpmulRegRegReg | VpmulRegRegMem | VpshufbRegRegReg | VpshufbRegRegMem | VpshiftRegRegReg
   | VpshiftRegRegImm | VpshiftRegRegMem | VpackRegRegReg | VpackRegRegMem | CallAfter | Ret

datatype analysis_fun =
    Compute compute_fun | Exchange exchange_fun | Move move_fun | Packed packed_fun
     | Shuffle shuffle_fun | Shift shift_fun | Vex vex_fun | Ymm ymm_fun

text \<open>
  The arguments. A \<open>UINT\<close> that carries a kind, a condition, a truth value or a width says which of
  them it is.
\<close>

datatype uint_arg = KindArg kind | JccArg jcc_kind | BoolArg bool | WidthArg nat

datatype iarg =
    IARG_THREAD_CONTEXT | IARG_CONTEXT
  | IARG_REG reg | IARG_IMM addr | IARG_UINT32 "32 word" | IARG_ARG uint_arg
  | IARG_MEMORYREAD_EA | IARG_MEMORYREAD2_EA | IARG_MEMORYWRITE_EA
  | IARG_MEMORYREAD_SIZE | IARG_MEMORYWRITE_SIZE
  | IARG_EXECUTING | IARG_BRANCH_TAKEN | IARG_BRANCH_TARGET_ADDR | IARG_RETURN_IP

datatype ipoint = IPOINT_BEFORE | IPOINT_AFTER | IPOINT_TAKEN_BRANCH

record call =
  c_point :: ipoint
  c_predicated :: bool
  c_fun :: analysis_fun
  c_args :: "iarg list"

type_synonym calls = "call list option"

definition INS_InsertCall :: "ipoint \<Rightarrow> analysis_fun \<Rightarrow> iarg list \<Rightarrow> calls" where
  "INS_InsertCall p f args = Some [\<lparr>c_point = p, c_predicated = False, c_fun = f, c_args = args\<rparr>]"

definition INS_InsertPredicatedCall :: "ipoint \<Rightarrow> analysis_fun \<Rightarrow> iarg list \<Rightarrow> calls" where
  "INS_InsertPredicatedCall p f args = Some [\<lparr>c_point = p, c_predicated = True, c_fun = f, c_args = args\<rparr>]"

definition IARG_CPU_CONTEXT :: "iarg list" where
  "IARG_CPU_CONTEXT = [IARG_THREAD_CONTEXT, IARG_CONTEXT]"

definition IARG_MEM :: "ins \<Rightarrow> iarg \<times> iarg \<Rightarrow> iarg list" where
  "IARG_MEM i t = [IARG_REG (INS_MemoryBaseReg i), IARG_REG (INS_MemoryIndexReg i), fst t, snd t,
     IARG_IMM (INS_MemoryDisplacement i), IARG_UINT32 (INS_MemoryScale i)]"

definition IARG_MEM_WRITE :: "ins \<Rightarrow> iarg list" where
  "IARG_MEM_WRITE i = IARG_MEM i (IARG_MEMORYWRITE_EA, IARG_MEMORYWRITE_SIZE)"

definition IARG_MEM_READ :: "ins \<Rightarrow> iarg list" where
  "IARG_MEM_READ i = IARG_MEM i (IARG_MEMORYREAD_EA, IARG_MEMORYREAD_SIZE)"

text \<open>\<open>insert_before f args\<close> is the call that most functions insert.\<close>

definition insert_before :: "analysis_fun \<Rightarrow> iarg list \<Rightarrow> calls" where
  "insert_before f args = INS_InsertCall IPOINT_BEFORE f (IARG_CPU_CONTEXT @ args)"

text \<open>\<open>GET_REG\<close> returns from the function when the register is not followed.\<close>

definition GET_REG :: "pin_api \<Rightarrow> ins \<Rightarrow> nat \<Rightarrow> (reg \<Rightarrow> calls) \<Rightarrow> calls" where
  "GET_REG P i n k = (let r = INS_OperandReg P i n in
     if \<not> isInterestingReg P (REG_FullRegName P r) then Some [] else k r)"

definition getMemoryType_count :: "ins \<Rightarrow> nat \<Rightarrow> nat \<Rightarrow> ((iarg \<times> iarg) \<times> nat) option" where
  "getMemoryType_count i n cnt =
     (if n < length (operands i) \<and> op_read (operands i ! n)
      then if cnt = 0 then Some ((IARG_MEMORYREAD_EA, IARG_MEMORYREAD_SIZE), cnt + 1)
        else assert (cnt = 1) (Some ((IARG_MEMORYREAD2_EA, IARG_MEMORYREAD_SIZE), cnt))
      else assert (n < length (operands i) \<and> op_written (operands i ! n))
        (Some ((IARG_MEMORYWRITE_EA, IARG_MEMORYWRITE_SIZE), cnt)))"

definition getMemoryType :: "bool \<Rightarrow> iarg \<times> iarg" where
  "getMemoryType wr = (if wr then (IARG_MEMORYWRITE_EA, IARG_MEMORYWRITE_SIZE)
     else (IARG_MEMORYREAD_EA, IARG_MEMORYREAD_SIZE))"

subsection \<open>One, two and three operands\<close>

text \<open>
  The overloads of \<open>analyzeUnary\<close>, \<open>analyzeBinary\<close> and \<open>analyzeTernary\<close> differ in the number of
  arguments that are passed on to the handler (\<open>args\<close>). A null function pointer is \<open>None\<close>; that it
  is not null is asserted before the call is inserted.
\<close>

definition call_or_fail :: "analysis_fun option \<Rightarrow> iarg list \<Rightarrow> calls" where
  "call_or_fail f args = (case f of None \<Rightarrow> None | Some f \<Rightarrow> insert_before f args)"

definition unary_memory :: "ins \<Rightarrow> bool \<Rightarrow> uint_arg list \<Rightarrow> analysis_fun option \<Rightarrow> calls" where
  "unary_memory i wr args m =
     (if INS_OperandIsMemory i 0 then call_or_fail m (IARG_MEM i (getMemoryType wr) @ map IARG_ARG args) else None)"

definition analyzeUnary ::
  "pin_api \<Rightarrow> ins \<Rightarrow> bool \<Rightarrow> analysis_fun option \<Rightarrow> analysis_fun option \<Rightarrow> calls" where
  "analyzeUnary P i wr r m =
     (if INS_OperandIsReg i 0 then assert (r \<noteq> None) (GET_REG P i 0 (\<lambda>dst. call_or_fail r [IARG_REG dst]))
      else unary_memory i wr [] m)"

text \<open>With further arguments, the register is not looked at.\<close>

definition analyzeUnary_arg ::
  "pin_api \<Rightarrow> ins \<Rightarrow> bool \<Rightarrow> uint_arg \<Rightarrow> analysis_fun option \<Rightarrow> analysis_fun option \<Rightarrow> calls" where
  "analyzeUnary_arg P i wr ua r m =
     (if INS_OperandIsReg i 0 then call_or_fail r [IARG_REG (INS_OperandReg P i 0), IARG_ARG ua]
      else unary_memory i wr [ua] m)"

definition analyzeUnary_arg2 ::
  "pin_api \<Rightarrow> ins \<Rightarrow> bool \<Rightarrow> uint_arg \<Rightarrow> uint_arg \<Rightarrow> analysis_fun option \<Rightarrow> analysis_fun option \<Rightarrow> calls" where
  "analyzeUnary_arg2 P i wr ua1 ua2 r m =
     (if INS_OperandIsReg i 0 then call_or_fail r [IARG_REG (INS_OperandReg P i 0), IARG_ARG ua1, IARG_ARG ua2]
      else unary_memory i wr [ua1, ua2] m)"

definition binary_call ::
  "pin_api \<Rightarrow> ins \<Rightarrow> bool \<Rightarrow> uint_arg list \<Rightarrow> analysis_fun option \<Rightarrow> analysis_fun option \<Rightarrow>
   analysis_fun option \<Rightarrow> analysis_fun option \<Rightarrow> analysis_fun option \<Rightarrow> calls" where
  "binary_call P i wr args rr ri rm mr mi = (let more = map IARG_ARG args in
     if INS_OperandIsReg i 0 then GET_REG P i 0 (\<lambda>dst.
       if INS_OperandIsReg i 1 then
         assert (rr \<noteq> None) (GET_REG P i 1 (\<lambda>src. call_or_fail rr ([IARG_REG dst, IARG_REG src] @ more)))
       else if INS_OperandIsImmediate i 1 then do {
         imm \<leftarrow> INS_OperandImmediate i 1;
         call_or_fail ri ([IARG_REG dst, IARG_IMM imm] @ more) }
       else if INS_OperandIsMemory i 1 then call_or_fail rm (IARG_REG dst # IARG_MEM_READ i @ more)
       else None)
     else if INS_OperandIsMemory i 0 then
       if INS_OperandIsReg i 1 then
         assert (mr \<noteq> None) (GET_REG P i 1 (\<lambda>src. call_or_fail mr (IARG_MEM i (getMemoryType wr) @ [IARG_REG src] @ more)))
       else if INS_OperandIsImmediate i 1 then do {
         imm \<leftarrow> INS_OperandImmediate i 1;
         call_or_fail mi (IARG_MEM i (getMemoryType wr) @ [IARG_IMM imm] @ more) }
       else None
     else None)"

definition analyzeBinary ::
  "pin_api \<Rightarrow> ins \<Rightarrow> bool \<Rightarrow> analysis_fun option \<Rightarrow> analysis_fun option \<Rightarrow>
   analysis_fun option \<Rightarrow> analysis_fun option \<Rightarrow> analysis_fun option \<Rightarrow> calls" where
  "analyzeBinary P i wr rr ri rm mr mi = binary_call P i wr [] rr ri rm mr mi"

definition analyzeBinary_arg ::
  "pin_api \<Rightarrow> ins \<Rightarrow> bool \<Rightarrow> uint_arg \<Rightarrow> analysis_fun option \<Rightarrow> analysis_fun option \<Rightarrow>
   analysis_fun option \<Rightarrow> analysis_fun option \<Rightarrow> analysis_fun option \<Rightarrow> calls" where
  "analyzeBinary_arg P i wr ua rr ri rm mr mi = binary_call P i wr [ua] rr ri rm mr mi"

definition analyzeBinary_arg2 ::
  "pin_api \<Rightarrow> ins \<Rightarrow> bool \<Rightarrow> uint_arg \<Rightarrow> uint_arg \<Rightarrow> analysis_fun option \<Rightarrow> analysis_fun option \<Rightarrow>
   analysis_fun option \<Rightarrow> analysis_fun option \<Rightarrow> analysis_fun option \<Rightarrow> calls" where
  "analyzeBinary_arg2 P i wr ua1 ua2 rr ri rm mr mi = binary_call P i wr [ua1, ua2] rr ri rm mr mi"

definition ternary_call ::
  "pin_api \<Rightarrow> ins \<Rightarrow> uint_arg list \<Rightarrow> analysis_fun \<Rightarrow> analysis_fun \<Rightarrow> analysis_fun option \<Rightarrow> calls" where
  "ternary_call P i args rrr rrm rri = assert (INS_OperandIsReg i 0) (assert (INS_OperandIsReg i 1)
     (let more = map IARG_ARG args; dst = INS_OperandReg P i 0; src1 = INS_OperandReg P i 1 in
      if INS_OperandIsReg i 2 then
        insert_before rrr ([IARG_REG dst, IARG_REG src1, IARG_REG (INS_OperandReg P i 2)] @ more)
      else if INS_OperandIsMemory i 2 then insert_before rrm ([IARG_REG dst, IARG_REG src1] @ IARG_MEM_READ i @ more)
      else if INS_OperandIsImmediate i 2 then do {
        imm \<leftarrow> INS_OperandImmediate i 2;
        call_or_fail rri ([IARG_REG dst, IARG_REG src1, IARG_IMM imm] @ more) }
      else None))"

text \<open>Only the last overload has a case for an immediate operand.\<close>

definition analyzeTernary_fun :: "pin_api \<Rightarrow> ins \<Rightarrow> analysis_fun \<Rightarrow> analysis_fun \<Rightarrow> calls" where
  "analyzeTernary_fun P i rrr rrm = ternary_call P i [] rrr rrm None"

definition analyzeTernary_arg :: "pin_api \<Rightarrow> ins \<Rightarrow> uint_arg \<Rightarrow> analysis_fun \<Rightarrow> analysis_fun \<Rightarrow> calls" where
  "analyzeTernary_arg P i ua rrr rrm = ternary_call P i [ua] rrr rrm None"

definition analyzeTernary_arg2 ::
  "pin_api \<Rightarrow> ins \<Rightarrow> uint_arg \<Rightarrow> uint_arg \<Rightarrow> analysis_fun \<Rightarrow> analysis_fun \<Rightarrow> analysis_fun option \<Rightarrow> calls" where
  "analyzeTernary_arg2 P i ua1 ua2 rrr rrm rri = ternary_call P i [ua1, ua2] rrr rrm rri"

definition analyzeTernaryImm :: "pin_api \<Rightarrow> ins \<Rightarrow> uint_arg \<Rightarrow> analysis_fun \<Rightarrow> analysis_fun \<Rightarrow> calls" where
  "analyzeTernaryImm P i ua rri rmi =
     (if INS_OperandIsReg i 0 then GET_REG P i 0 (\<lambda>dst. do {
        imm \<leftarrow> INS_OperandImmediate i 2;
        if INS_OperandIsReg i 1 then
          GET_REG P i 1 (\<lambda>src. insert_before rri [IARG_REG dst, IARG_REG src, IARG_IMM imm, IARG_ARG ua])
        else if INS_OperandIsMemory i 1 then
          insert_before rmi (IARG_REG dst # IARG_MEM_READ i @ [IARG_IMM imm, IARG_ARG ua])
        else None })
      else None)"

end
