(* ===== verification/DispatchFuns.thy ===== *)
theory DispatchFuns
  imports Dispatch
begin

section \<open>The functions for the single instructions\<close>

text \<open>
  The functions \<open>analyze...\<close> of \<open>analysis_instruction.h\<close>, in the order of the file. An \<open>if\<close>
  without \<open>else\<close> in the code leaves the instruction without a call: \<open>Some []\<close>.
\<close>

definition analyzeBBL :: calls where
  "analyzeBBL = INS_InsertCall IPOINT_BEFORE (Compute BBL) IARG_CPU_CONTEXT"

subsection \<open>Integer instructions\<close>

definition analyzeBinary_kind :: "pin_api \<Rightarrow> ins \<Rightarrow> kind \<Rightarrow> bool \<Rightarrow> calls" where
  "analyzeBinary_kind P i k wr = analyzeBinary_arg2 P i wr (KindArg k) (BoolArg wr)
     (Some (Compute BinaryRegReg)) (Some (Compute BinaryRegImm)) (Some (Compute BinaryRegMem))
     (Some (Compute BinaryMemReg)) (Some (Compute BinaryMemImm))"

definition analyzeCarry :: "pin_api \<Rightarrow> ins \<Rightarrow> kind \<Rightarrow> calls" where
  "analyzeCarry P i k = analyzeBinary_arg P i True (KindArg k)
     (Some (Compute CarryRegReg)) (Some (Compute CarryRegImm)) (Some (Compute CarryRegMem))
     (Some (Compute CarryMemReg)) (Some (Compute CarryMemImm))"

definition analyzeBs :: "pin_api \<Rightarrow> ins \<Rightarrow> bool \<Rightarrow> calls" where
  "analyzeBs P i neg = analyzeBinary_arg P i True (BoolArg neg)
     (Some (Compute BsRegReg)) None (Some (Compute BsRegMem)) None None"

definition analyzeBswap :: "pin_api \<Rightarrow> ins \<Rightarrow> calls" where
  "analyzeBswap P i = analyzeUnary P i True (Some (Compute BswapReg)) None"

definition analyzeBt :: "pin_api \<Rightarrow> ins \<Rightarrow> kind \<Rightarrow> calls" where
  "analyzeBt P i k = analyzeBinary_arg P i (k \<noteq> Invalid) (KindArg k)
     (Some (Compute BtRegReg)) (Some (Compute BtRegImm)) None
     (Some (Compute BtMemReg)) (Some (Compute BtMemImm))"

definition analyzeJmp :: "pin_api \<Rightarrow> ins \<Rightarrow> calls" where
  "analyzeJmp P i =
     (if INS_OperandIsReg i 0 then GET_REG P i 0 (\<lambda>src. insert_before (Move JmpReg) [IARG_REG src])
      else if INS_OperandIsMemory i 0 then insert_before (Move JmpMem) (IARG_MEM_READ i)
      else Some [])"

definition analyzeCall :: "pin_api \<Rightarrow> ins \<Rightarrow> calls" where
  "analyzeCall P i = do {
     c1 \<leftarrow> insert_before (Compute Call) [IARG_MEMORYWRITE_EA, IARG_MEMORYWRITE_SIZE, IARG_RETURN_IP];
     c2 \<leftarrow> INS_InsertCall IPOINT_TAKEN_BRANCH (Ymm CallAfter) (IARG_CPU_CONTEXT @ [IARG_RETURN_IP]);
     c3 \<leftarrow> analyzeJmp P i;
     Some (c1 @ c2 @ c3) }"

definition two_registers :: "pin_api \<Rightarrow> ins \<Rightarrow> analysis_fun \<Rightarrow> calls" where
  "two_registers P i f = assert (INS_OperandIsReg i 0 \<and> INS_OperandIsReg i 1)
     (GET_REG P i 0 (\<lambda>dst. GET_REG P i 1 (\<lambda>src. insert_before f [IARG_REG dst, IARG_REG src])))"

definition analyzeCbw :: "pin_api \<Rightarrow> ins \<Rightarrow> calls" where
  "analyzeCbw P i = two_registers P i (Compute Cbw)"

definition analyzeCwd :: "pin_api \<Rightarrow> ins \<Rightarrow> calls" where
  "analyzeCwd P i = two_registers P i (Compute Cwd)"

definition analyzeCmov :: "pin_api \<Rightarrow> ins \<Rightarrow> jcc_kind \<Rightarrow> bool \<Rightarrow> calls" where
  "analyzeCmov P i j neg =
     (if INS_OperandIsReg i 0 then GET_REG P i 0 (\<lambda>dst.
        if INS_OperandIsReg i 1 then GET_REG P i 1 (\<lambda>src. insert_before (Exchange CmovRegReg)
          [IARG_EXECUTING, IARG_REG dst, IARG_REG src, IARG_ARG (JccArg j), IARG_ARG (BoolArg neg)])
        else if INS_OperandIsMemory i 1 then insert_before (Exchange CmovRegMem)
          ([IARG_EXECUTING, IARG_REG dst] @ IARG_MEM_READ i @ [IARG_ARG (JccArg j), IARG_ARG (BoolArg neg)])
        else None)
      else None)"

definition analyzeCmps :: "pin_api \<Rightarrow> ins \<Rightarrow> nat \<Rightarrow> calls" where
  "analyzeCmps P i width = INS_InsertPredicatedCall IPOINT_BEFORE (Exchange Cmps)
     (IARG_CPU_CONTEXT @ [IARG_MEMORYREAD_EA, IARG_MEMORYREAD2_EA, IARG_ARG (WidthArg width)])"

definition analyzeCmpxchg :: "pin_api \<Rightarrow> ins \<Rightarrow> calls" where
  "analyzeCmpxchg P i = analyzeBinary P i True
     (Some (Exchange CmpxchgRegReg)) None None (Some (Exchange CmpxchgMemReg)) None"

definition analyzeCpuid :: "pin_api \<Rightarrow> ins \<Rightarrow> calls" where
  "analyzeCpuid P i = INS_InsertCall IPOINT_AFTER (Exchange Cpuid) IARG_CPU_CONTEXT"

definition analyzeDiv :: "pin_api \<Rightarrow> ins \<Rightarrow> bool \<Rightarrow> calls" where
  "analyzeDiv P i sg = analyzeUnary_arg P i False (BoolArg sg) (Some (Exchange DivReg)) (Some (Exchange DivMem))"

definition analyzeClear :: "pin_api \<Rightarrow> ins \<Rightarrow> calls" where
  "analyzeClear P i =
     (if INS_OperandIsReg i 0 then GET_REG P i 0 (\<lambda>dst. insert_before (Shift ClrReg) [IARG_REG dst])
      else if INS_OperandIsMemory i 0 then
        INS_InsertCall IPOINT_BEFORE (Shift ClrMem) [IARG_MEMORYWRITE_EA, IARG_MEMORYWRITE_SIZE]
      else None)"

text \<open>
  Four operands: one explicit operand, whose product goes to two registers, or three. With an
  explicit second operand and no immediate nothing is inserted.
\<close>

definition analyzeIMul_four :: "pin_api \<Rightarrow> ins \<Rightarrow> calls" where
  "analyzeIMul_four P i =
     (if INS_OperandIsImplicit i 1 then
        if INS_OperandIsReg i 0 then GET_REG P i 0 (\<lambda>src. insert_before (Exchange IMulReg) [IARG_REG src])
        else if INS_OperandIsMemory i 0 then insert_before (Exchange IMulMem) (IARG_MEM_READ i)
        else None
      else if INS_OperandIsImmediate i 2 then
        if INS_OperandIsReg i 1 then GET_REG P i 0 (\<lambda>dst. GET_REG P i 1 (\<lambda>src. do {
          imm \<leftarrow> INS_OperandImmediate i 2;
          insert_before (Exchange IMulRegRegImm) [IARG_REG dst, IARG_REG src, IARG_IMM imm] }))
        else if INS_OperandIsMemory i 1 then GET_REG P i 0 (\<lambda>dst. do {
          imm \<leftarrow> INS_OperandImmediate i 2;
          insert_before (Exchange IMulRegMemImm) (IARG_REG dst # IARG_MEM_READ i @ [IARG_IMM imm]) })
        else None
      else Some [])"

definition analyzeIMul :: "pin_api \<Rightarrow> ins \<Rightarrow> calls" where
  "analyzeIMul P i =
     (if length (operands i) = 4 then analyzeIMul_four P i
      else if length (operands i) = 3 then
        if INS_OperandIsReg i 0 then GET_REG P i 0 (\<lambda>dst.
          if INS_OperandIsReg i 1 then GET_REG P i 1 (\<lambda>src. insert_before (Exchange IMulRegReg) [IARG_REG dst, IARG_REG src])
          else if INS_OperandIsMemory i 1 then insert_before (Exchange IMulRegMem) (IARG_REG dst # IARG_MEM_READ i)
          else None)
        else Some []
      else None)"

definition analyzeIncDec :: "pin_api \<Rightarrow> ins \<Rightarrow> kind \<Rightarrow> calls" where
  "analyzeIncDec P i k = analyzeUnary_arg P i True (KindArg k) (Some (Exchange IncDecReg)) (Some (Exchange IncDecMem))"

definition analyzeLea :: "pin_api \<Rightarrow> ins \<Rightarrow> calls" where
  "analyzeLea P i =
     (if INS_OperandIsReg i 0 \<and> shape_at i 1 = OpAddressGenerator then GET_REG P i 0 (\<lambda>src.
        insert_before (Exchange LeaRegMem) [IARG_REG src, IARG_REG (INS_MemoryBaseReg i), IARG_REG (INS_MemoryIndexReg i),
          IARG_IMM (INS_MemoryDisplacement i), IARG_UINT32 (INS_MemoryScale i)])
      else None)"

text \<open>\<open>bp\<close> is Pin's number of \<open>REG_GBP\<close>.\<close>

definition analyzeLeave :: "reg \<Rightarrow> pin_api \<Rightarrow> ins \<Rightarrow> calls" where
  "analyzeLeave bp P i = insert_before (Shift ClrReg) [IARG_REG bp]"

definition analyzeMul :: "pin_api \<Rightarrow> ins \<Rightarrow> calls" where
  "analyzeMul P i =
     (if INS_OperandIsReg i 0 then GET_REG P i 0 (\<lambda>src. insert_before (Move MulReg)
        [IARG_REG src, IARG_REG (getAx P (REG_Size P src)), IARG_REG (getDx P (REG_Size P src))])
      else if INS_OperandIsMemory i 0 then insert_before (Move MulMem)
        (IARG_MEM_READ i @ [IARG_REG (getAx P (INS_MemoryReadSize i)), IARG_REG (getDx P (INS_MemoryReadSize i))])
      else Some [])"

definition analyzeMov :: "pin_api \<Rightarrow> ins \<Rightarrow> calls" where
  "analyzeMov P i = analyzeBinary P i True
     (Some (Move MovRegReg)) (Some (Move MovRegImm)) (Some (Move MovRegMem))
     (Some (Move MovMemReg)) (Some (Move MovMemImm))"

definition analyzeMovh :: "pin_api \<Rightarrow> ins \<Rightarrow> calls" where
  "analyzeMovh P i = analyzeBinary P i True None None (Some (Move MovhRegMem)) (Some (Move MovhMemReg)) None"

definition analyzeMovlz :: "pin_api \<Rightarrow> ins \<Rightarrow> nat \<Rightarrow> calls" where
  "analyzeMovlz P i width = analyzeBinary_arg P i True (WidthArg width)
     (Some (Move MovlzRegReg)) None (Some (Move MovlzRegMem)) (Some (Move MovlzMemReg)) None"

definition analyzeMovs :: "pin_api \<Rightarrow> ins \<Rightarrow> nat \<Rightarrow> calls" where
  "analyzeMovs P i width = INS_InsertPredicatedCall IPOINT_BEFORE (Move Movs)
     (IARG_CPU_CONTEXT @ [IARG_MEMORYREAD_EA, IARG_MEMORYWRITE_EA, IARG_ARG (WidthArg width)])"

definition analyzeMovsx :: "pin_api \<Rightarrow> ins \<Rightarrow> calls" where
  "analyzeMovsx P i = analyzeBinary P i True (Some (Move MovsxRegReg)) None (Some (Move MovsxRegMem)) None None"

definition analyzeMovzx :: "pin_api \<Rightarrow> ins \<Rightarrow> calls" where
  "analyzeMovzx P i = analyzeBinary P i True (Some (Move MovzxRegReg)) None (Some (Move MovzxRegMem)) None None"

definition analyzeNegNot :: "pin_api \<Rightarrow> ins \<Rightarrow> kind \<Rightarrow> calls" where
  "analyzeNegNot P i k = analyzeUnary_arg P i True (KindArg k) (Some (Move NegNotReg)) (Some (Move NegNotMem))"

definition analyzeJcc :: "pin_api \<Rightarrow> ins \<Rightarrow> jcc_kind \<Rightarrow> bool \<Rightarrow> calls" where
  "analyzeJcc P i j neg = insert_before (Move Jcc)
     [IARG_BRANCH_TAKEN, IARG_BRANCH_TARGET_ADDR, IARG_ARG (JccArg j), IARG_ARG (BoolArg neg)]"

subsection \<open>Vectors, the stack and shifts\<close>

definition analyzePshufb :: "pin_api \<Rightarrow> ins \<Rightarrow> calls" where
  "analyzePshufb P i = analyzeBinary P i True (Some (Shuffle PshufbRegReg)) None (Some (Shuffle PshufbRegMem)) None None"

definition analyzePshuf :: "pin_api \<Rightarrow> ins \<Rightarrow> nat \<Rightarrow> calls" where
  "analyzePshuf P i width = analyzeTernaryImm P i (WidthArg width) (Packed PshufRegRegImm) (Packed PshufRegMemImm)"

definition analyzePshufw :: "pin_api \<Rightarrow> ins \<Rightarrow> bool \<Rightarrow> calls" where
  "analyzePshufw P i high = analyzeTernaryImm P i (BoolArg high) (Shuffle PshufwRegRegImm) (Shuffle PshufwRegMemImm)"

definition analyzePshift :: "pin_api \<Rightarrow> ins \<Rightarrow> kind \<Rightarrow> nat \<Rightarrow> calls" where
  "analyzePshift P i k width = analyzeBinary_arg2 P i True (KindArg k) (WidthArg width)
     (Some (Shuffle PshiftRegReg)) (Some (Shuffle PshiftRegImm)) (Some (Shuffle PshiftRegMem)) None None"

definition analyzePop :: "pin_api \<Rightarrow> ins \<Rightarrow> calls" where
  "analyzePop P i =
     (if INS_OperandIsReg i 0 then GET_REG P i 0 (\<lambda>dst. insert_before (Shuffle PopReg)
        [IARG_REG dst, IARG_MEMORYREAD_EA, IARG_MEMORYREAD_SIZE])
      else if INS_OperandIsMemory i 0 then insert_before (Shuffle PopMem) (IARG_MEM_WRITE i @ [IARG_MEMORYREAD_EA])
      else None)"

definition analyzePack :: "pin_api \<Rightarrow> ins \<Rightarrow> nat \<Rightarrow> bool \<Rightarrow> calls" where
  "analyzePack P i width sg = analyzeBinary_arg2 P i True (WidthArg width) (BoolArg sg)
     (Some (Packed PackRegReg)) None (Some (Packed PackRegMem)) None None"

definition analyzePalignr :: "pin_api \<Rightarrow> ins \<Rightarrow> calls" where
  "analyzePalignr P i = assert (INS_OperandIsImmediate i 2) (assert (INS_OperandIsReg i 0)
     (GET_REG P i 0 (\<lambda>dst. do {
        imm \<leftarrow> INS_OperandImmediate i 2;
        if INS_OperandIsReg i 1 then
          GET_REG P i 1 (\<lambda>src. insert_before (Packed PalignrReg) [IARG_REG dst, IARG_REG src, IARG_IMM imm])
        else if INS_OperandIsMemory i 1 then insert_before (Packed PalignrMem) (IARG_REG dst # IARG_MEM_READ i @ [IARG_IMM imm])
        else Some [] })))"

definition analyzeParith :: "pin_api \<Rightarrow> ins \<Rightarrow> kind \<Rightarrow> nat \<Rightarrow> calls" where
  "analyzeParith P i k width = analyzeBinary_arg2 P i True (KindArg k) (WidthArg width)
     (Some (Shuffle ParithRegReg)) None (Some (Shuffle ParithRegMem)) None None"

definition analyzePcmp :: "pin_api \<Rightarrow> ins \<Rightarrow> kind \<Rightarrow> nat \<Rightarrow> calls" where
  "analyzePcmp P i k width = analyzeBinary_arg2 P i True (KindArg k) (WidthArg width)
     (Some (Packed PcmpRegReg)) None (Some (Packed PcmpRegMem)) None None"

definition analyzePextr :: "pin_api \<Rightarrow> ins \<Rightarrow> nat \<Rightarrow> calls" where
  "analyzePextr P i width =
     (if INS_OperandIsReg i 0 then assert (INS_OperandIsReg i 1 \<and> INS_OperandIsImmediate i 2)
        (GET_REG P i 0 (\<lambda>dst. GET_REG P i 1 (\<lambda>src. do {
          imm \<leftarrow> INS_OperandImmediate i 2;
          insert_before (Packed PextrRegRegImm) [IARG_REG dst, IARG_REG src, IARG_IMM imm, IARG_ARG (WidthArg width)] })))
      else if INS_OperandIsMemory i 0 then GET_REG P i 1 (\<lambda>src. do {
        imm \<leftarrow> INS_OperandImmediate i 2;
        insert_before (Packed PextrMemRegImm) (IARG_MEM_WRITE i @ [IARG_REG src, IARG_IMM imm, IARG_ARG (WidthArg width)]) })
      else None)"

definition analyzePcmpxchg :: "pin_api \<Rightarrow> ins \<Rightarrow> kind \<Rightarrow> nat \<Rightarrow> calls" where
  "analyzePcmpxchg P i k width = analyzeBinary_arg2 P i False (KindArg k) (WidthArg width)
     (Some (Packed PcmpxchgRegReg)) None (Some (Packed PcmpxchgRegMem)) None None"

definition analyzePmaddwd :: "pin_api \<Rightarrow> ins \<Rightarrow> calls" where
  "analyzePmaddwd P i = analyzeBinary P i True (Some (Packed PmaddwdRegReg)) None (Some (Packed PmaddwdRegMem)) None None"

definition analyzePmul :: "pin_api \<Rightarrow> ins \<Rightarrow> nat \<Rightarrow> calls" where
  "analyzePmul P i width = analyzeBinary_arg P i True (WidthArg width)
     (Some (Packed PmulRegReg)) None (Some (Packed PmulRegMem)) None None"

definition analyzePmulhw :: "pin_api \<Rightarrow> ins \<Rightarrow> bool \<Rightarrow> calls" where
  "analyzePmulhw P i sg = analyzeBinary_arg P i True (BoolArg sg)
     (Some (Packed PmulhwRegReg)) None (Some (Packed PmulhwRegMem)) None None"

definition analyzePmovmskb :: "pin_api \<Rightarrow> ins \<Rightarrow> calls" where
  "analyzePmovmskb P i = two_registers P i (Packed Pmovmskb)"

definition analyzePunpckh :: "pin_api \<Rightarrow> ins \<Rightarrow> nat \<Rightarrow> calls" where
  "analyzePunpckh P i width = analyzeBinary_arg P i False (WidthArg width)
     (Some (Shuffle PunpckhRegReg)) None (Some (Shuffle PunpckhRegMem)) None None"

definition analyzePunpckl :: "pin_api \<Rightarrow> ins \<Rightarrow> nat \<Rightarrow> calls" where
  "analyzePunpckl P i width = analyzeBinary_arg P i False (WidthArg width)
     (Some (Shuffle PunpcklRegReg)) None (Some (Shuffle PunpcklRegMem)) None None"

definition analyzePush :: "pin_api \<Rightarrow> ins \<Rightarrow> calls" where
  "analyzePush P i =
     (if INS_OperandIsReg i 0 then GET_REG P i 0 (\<lambda>src. insert_before (Shuffle PushReg)
        [IARG_MEMORYWRITE_EA, IARG_MEMORYWRITE_SIZE, IARG_REG src])
      else if INS_OperandIsImmediate i 0 then insert_before (Shuffle PushImm) [IARG_MEMORYWRITE_EA, IARG_MEMORYWRITE_SIZE]
      else if INS_OperandIsMemory i 0 then insert_before (Shuffle PushMem) (IARG_MEMORYWRITE_EA # IARG_MEM_READ i)
      else None)"

definition analyzeRdtsc :: "pin_api \<Rightarrow> ins \<Rightarrow> calls" where
  "analyzeRdtsc P i = INS_InsertCall IPOINT_BEFORE (Shift Rdtsc) [IARG_THREAD_CONTEXT]"

definition analyzeRdtscp :: "pin_api \<Rightarrow> ins \<Rightarrow> calls" where
  "analyzeRdtscp P i = INS_InsertCall IPOINT_BEFORE (Shift Rdtscp) [IARG_THREAD_CONTEXT]"

text \<open>A count in a register is asserted to be in \<open>cl\<close>.\<close>

definition shift_count :: "reg \<Rightarrow> pin_api \<Rightarrow> ins \<Rightarrow> nat \<Rightarrow> (addr \<Rightarrow> calls) \<Rightarrow> calls \<Rightarrow> calls" where
  "shift_count cl P i n imm_case cl_case =
     (if INS_OperandIsImmediate i n then do { imm \<leftarrow> INS_OperandImmediate i n; imm_case imm }
      else if INS_OperandIsReg i n then assert (INS_OperandReg P i n = cl) cl_case
      else None)"

definition analyzeShift :: "reg \<Rightarrow> pin_api \<Rightarrow> ins \<Rightarrow> kind \<Rightarrow> calls" where
  "analyzeShift cl P i k =
     (if INS_OperandIsReg i 0 then GET_REG P i 0 (\<lambda>dst. shift_count cl P i 1
        (\<lambda>imm. insert_before (Shift ShiftRegImm) [IARG_REG dst, IARG_IMM imm, IARG_ARG (KindArg k)])
        (insert_before (Shift ShiftRegCl) [IARG_REG dst, IARG_ARG (KindArg k)]))
      else if INS_OperandIsMemory i 0 then shift_count cl P i 1
        (\<lambda>imm. insert_before (Shift ShiftMemImm) (IARG_MEM_WRITE i @ [IARG_IMM imm, IARG_ARG (KindArg k)]))
        (insert_before (Shift ShiftMemCl) (IARG_MEM_WRITE i @ [IARG_ARG (KindArg k)]))
      else None)"

definition analyzeScas :: "pin_api \<Rightarrow> ins \<Rightarrow> nat \<Rightarrow> calls" where
  "analyzeScas P i width = INS_InsertPredicatedCall IPOINT_BEFORE (Shift Scas)
     (IARG_CPU_CONTEXT @ [IARG_MEMORYREAD_EA, IARG_ARG (WidthArg width)])"

definition analyzeSet :: "pin_api \<Rightarrow> ins \<Rightarrow> jcc_kind \<Rightarrow> bool \<Rightarrow> calls" where
  "analyzeSet P i j neg = analyzeUnary_arg2 P i True (JccArg j) (BoolArg neg) (Some (Shift SetReg)) (Some (Shift SetMem))"

definition analyzeShiftd :: "reg \<Rightarrow> pin_api \<Rightarrow> ins \<Rightarrow> kind \<Rightarrow> calls" where
  "analyzeShiftd cl P i k = GET_REG P i 1 (\<lambda>src.
     if INS_OperandIsReg i 0 then GET_REG P i 0 (\<lambda>dst. shift_count cl P i 2
       (\<lambda>imm. insert_before (Shift ShiftdRegRegImm) [IARG_REG dst, IARG_REG src, IARG_IMM imm, IARG_ARG (KindArg k)])
       (insert_before (Shift ShiftdRegRegCl) [IARG_REG dst, IARG_REG src, IARG_ARG (KindArg k)]))
     else if INS_OperandIsMemory i 0 then shift_count cl P i 2
       (\<lambda>imm. insert_before (Shift ShiftdMemRegImm) (IARG_MEM_WRITE i @ [IARG_REG src, IARG_IMM imm, IARG_ARG (KindArg k)]))
       (insert_before (Shift ShiftdMemRegCl) (IARG_MEM_WRITE i @ [IARG_REG src, IARG_ARG (KindArg k)]))
     else None)"

definition analyzeStos :: "pin_api \<Rightarrow> ins \<Rightarrow> calls" where
  "analyzeStos P i = assert (INS_OperandIsMemory i 0) (assert (INS_OperandIsReg i 2)
     (GET_REG P i 2 (\<lambda>src. insert_before (Shift Stos) [IARG_MEMORYWRITE_EA, IARG_REG src])))"

definition analyzeXadd :: "pin_api \<Rightarrow> ins \<Rightarrow> calls" where
  "analyzeXadd P i = analyzeBinary P i True (Some (Shift XaddRegReg)) None None (Some (Shift XaddMemReg)) None"

definition analyzeXchg :: "pin_api \<Rightarrow> ins \<Rightarrow> calls" where
  "analyzeXchg P i = analyzeBinary P i True
     (Some (Shift XchgRegReg)) None (Some (Shift XchgRegMem)) (Some (Shift XchgMemReg)) None"

subsection \<open>Any other instruction\<close>

text \<open>The registers and memory that it touches become concrete. \<open>is_flags\<close> is Pin's \<open>REG_is_flags\<close>.\<close>

definition analyzeConcretizeReg :: "(reg \<Rightarrow> bool) \<Rightarrow> pin_api \<Rightarrow> ins \<Rightarrow> nat \<Rightarrow> calls" where
  "analyzeConcretizeReg is_flags P i n = GET_REG P i n (\<lambda>r.
     if isInterestingReg P (REG_FullRegName P r) then insert_before (Shift ConcretizeReg) [IARG_REG r]
     else if is_flags r then insert_before (Shift ConcretizeEflags) []
     else Some [])"

definition analyzeConcretizeMem :: "ins \<Rightarrow> nat \<Rightarrow> nat \<Rightarrow> (call list \<times> nat) option" where
  "analyzeConcretizeMem i n cnt = do {
     (ty, cnt) \<leftarrow> getMemoryType_count i n cnt;
     c \<leftarrow> INS_InsertCall IPOINT_BEFORE (Shift ConcretizeMem) [IARG_CONTEXT, fst ty, snd ty];
     Some (c, cnt) }"

fun analyzeDefault_loop :: "(reg \<Rightarrow> bool) \<Rightarrow> pin_api \<Rightarrow> ins \<Rightarrow> nat list \<Rightarrow> nat \<Rightarrow> calls" where
  "analyzeDefault_loop is_flags P i [] cnt = Some []"
| "analyzeDefault_loop is_flags P i (n # ns) cnt = do {
     (c, cnt) \<leftarrow> (if INS_OperandIsReg i n then map_option (\<lambda>c. (c, cnt)) (analyzeConcretizeReg is_flags P i n)
       else if INS_OperandIsMemory i n then analyzeConcretizeMem i n cnt
       else Some ([], cnt));
     cs \<leftarrow> analyzeDefault_loop is_flags P i ns cnt;
     Some (c @ cs) }"

definition analyzeDefault :: "(reg \<Rightarrow> bool) \<Rightarrow> pin_api \<Rightarrow> ins \<Rightarrow> calls" where
  "analyzeDefault is_flags P i = analyzeDefault_loop is_flags P i [0..<length (operands i)] 0"

subsection \<open>Vectors with three operands\<close>

definition analyzeTernary :: "pin_api \<Rightarrow> ins \<Rightarrow> kind \<Rightarrow> calls" where
  "analyzeTernary P i k = analyzeTernary_arg P i (KindArg k) (Vex TernaryRegRegReg) (Vex TernaryRegRegMem)"

definition analyzeVparith :: "pin_api \<Rightarrow> ins \<Rightarrow> kind \<Rightarrow> nat \<Rightarrow> calls" where
  "analyzeVparith P i k width = analyzeTernary_arg2 P i (KindArg k) (WidthArg width)
     (Vex VparithRegRegReg) (Vex VparithRegRegMem) None"

definition analyzeVpcmp :: "pin_api \<Rightarrow> ins \<Rightarrow> kind \<Rightarrow> nat \<Rightarrow> calls" where
  "analyzeVpcmp P i k width = analyzeTernary_arg2 P i (KindArg k) (WidthArg width)
     (Vex VpcmpRegRegReg) (Vex VpcmpRegRegMem) None"

definition analyzeVpmaddwd :: "pin_api \<Rightarrow> ins \<Rightarrow> calls" where
  "analyzeVpmaddwd P i = analyzeTernary_fun P i (Vex VpmaddwdRegRegReg) (Vex VpmaddwdRegRegMem)"

definition analyzeVinserti128 :: "pin_api \<Rightarrow> ins \<Rightarrow> calls" where
  "analyzeVinserti128 P i =
     assert (INS_OperandIsReg i 0) (assert (INS_OperandIsReg i 1) (assert (INS_OperandIsImmediate i 3)
       (GET_REG P i 0 (\<lambda>dst. GET_REG P i 1 (\<lambda>src1. do {
          imm \<leftarrow> INS_OperandImmediate i 3;
          if INS_OperandIsReg i 2 then GET_REG P i 2 (\<lambda>src2. insert_before (Vex Vinsert128iRegRegRegImm)
            [IARG_REG dst, IARG_REG src1, IARG_REG src2, IARG_IMM imm])
          else if INS_OperandIsMemory i 2 then insert_before (Vex Vinsert128iRegRegMemImm)
            ([IARG_REG dst, IARG_REG src1] @ IARG_MEM_READ i @ [IARG_IMM imm])
          else None })))))"

definition analyzeVmovl :: "pin_api \<Rightarrow> ins \<Rightarrow> calls" where
  "analyzeVmovl P i =
     (if INS_OperandIsReg i 0 then GET_REG P i 0 (\<lambda>dst. assert (INS_OperandIsReg i 1)
        (GET_REG P i 1 (\<lambda>src. assert (INS_OperandIsMemory i 2)
          (insert_before (Vex VmovlRegRegMem) ([IARG_REG dst, IARG_REG src] @ IARG_MEM_READ i)))))
      else if INS_OperandIsMemory i 0 then assert (INS_OperandIsReg i 1)
        (GET_REG P i 1 (\<lambda>src. insert_before (Move MovMemReg) (IARG_MEM_WRITE i @ [IARG_REG src])))
      else None)"

definition analyzeVpcmpxchg :: "pin_api \<Rightarrow> ins \<Rightarrow> kind \<Rightarrow> nat \<Rightarrow> calls" where
  "analyzeVpcmpxchg P i k width = analyzeTernary_arg2 P i (KindArg k) (WidthArg width)
     (Vex VpcmpxchgRegRegReg) (Vex VpcmpxchgRegRegMem) None"

definition analyzeVpmulhw :: "pin_api \<Rightarrow> ins \<Rightarrow> bool \<Rightarrow> calls" where
  "analyzeVpmulhw P i sg = analyzeTernary_arg P i (BoolArg sg) (Vex VpmulhwRegRegReg) (Vex VpmulhwRegRegMem)"

definition analyzeVpmul :: "pin_api \<Rightarrow> ins \<Rightarrow> nat \<Rightarrow> calls" where
  "analyzeVpmul P i width = analyzeTernary_arg P i (WidthArg width) (Ymm VpmulRegRegReg) (Ymm VpmulRegRegMem)"

definition analyzeVpshufb :: "pin_api \<Rightarrow> ins \<Rightarrow> calls" where
  "analyzeVpshufb P i = analyzeTernary_fun P i (Ymm VpshufbRegRegReg) (Ymm VpshufbRegRegMem)"

definition analyzeVpshift :: "pin_api \<Rightarrow> ins \<Rightarrow> kind \<Rightarrow> nat \<Rightarrow> calls" where
  "analyzeVpshift P i k width = analyzeTernary_arg2 P i (KindArg k) (WidthArg width)
     (Ymm VpshiftRegRegReg) (Ymm VpshiftRegRegMem) (Some (Ymm VpshiftRegRegImm))"

definition analyzeVpack :: "pin_api \<Rightarrow> ins \<Rightarrow> nat \<Rightarrow> bool \<Rightarrow> calls" where
  "analyzeVpack P i width sg = analyzeTernary_arg2 P i (WidthArg width) (BoolArg sg)
     (Ymm VpackRegRegReg) (Ymm VpackRegRegMem) None"

definition analyzeRet :: "pin_api \<Rightarrow> ins \<Rightarrow> calls" where
  "analyzeRet P i = insert_before (Ymm Ret) [IARG_BRANCH_TARGET_ADDR]"

end
