(* ===== verification/DispatchTable.thy ===== *)
theory DispatchTable
  imports DispatchFuns
begin

section \<open>The opcodes\<close>

text \<open>
  \<open>analysis.cpp\<close>: the function that each opcode is given to. The \<open>switch\<close> of \<open>analyzeInstruction\<close>
  is a list of its cases, each with its labels and with what is called, cut into parts in the order
  of the file. \<open>named_regs\<close> holds what the functions ask of Pin's numbers of registers beyond
  \<open>pin_api\<close>. \<open>analyzeTrace\<close> goes over the blocks of a trace.
\<close>

record named_regs =
  REG_GBP :: reg
  cl_reg :: reg
  REG_is_flags :: "reg \<Rightarrow> bool"

type_synonym opcode_table = "(string list \<times> (named_regs \<Rightarrow> pin_api \<Rightarrow> ins \<Rightarrow> calls)) list"

definition opcodes_ADC :: opcode_table where
  "opcodes_ADC = [
    ([''ADC''], \<lambda>N P i. analyzeCarry P i Add),
    ([''ADD''], \<lambda>N P i. analyzeBinary_kind P i Add True),
    ([''AND''], \<lambda>N P i. analyzeBinary_kind P i And True),
    ([''ANDPD'', ''ANDPS''], \<lambda>N P i. analyzeBinary_kind P i And True),
    ([''BSF''], \<lambda>N P i. analyzeBs P i False),
    ([''BSR''], \<lambda>N P i. analyzeBs P i True),
    ([''BSWAP''], \<lambda>N P i. analyzeBswap P i),
    ([''BT''], \<lambda>N P i. analyzeBt P i Invalid),
    ([''BTC''], \<lambda>N P i. analyzeBt P i Xor),
    ([''BTR''], \<lambda>N P i. analyzeBt P i And),
    ([''BTS''], \<lambda>N P i. analyzeBt P i Or),
    ([''CALL_FAR'', ''CALL_NEAR''], \<lambda>N P i. analyzeCall P i),
    ([''CBW''], \<lambda>N P i. analyzeCbw P i),
    ([''CDQ''], \<lambda>N P i. analyzeCwd P i),
    ([''CDQE''], \<lambda>N P i. analyzeCbw P i),
    ([''CMOVB''], \<lambda>N P i. analyzeCmov P i JCC_B False),
    ([''CMOVBE''], \<lambda>N P i. analyzeCmov P i JCC_BE False),
    ([''CMOVL''], \<lambda>N P i. analyzeCmov P i JCC_L False),
    ([''CMOVLE''], \<lambda>N P i. analyzeCmov P i JCC_LE False),
    ([''CMOVNB''], \<lambda>N P i. analyzeCmov P i JCC_B True),
    ([''CMOVNBE''], \<lambda>N P i. analyzeCmov P i JCC_BE True),
    ([''CMOVNL''], \<lambda>N P i. analyzeCmov P i JCC_L True),
    ([''CMOVNLE''], \<lambda>N P i. analyzeCmov P i JCC_LE True),
    ([''CMOVNO''], \<lambda>N P i. analyzeCmov P i JCC_O True),
    ([''CMOVNP''], \<lambda>N P i. analyzeCmov P i JCC_P True),
    ([''CMOVNS''], \<lambda>N P i. analyzeCmov P i JCC_S True),
    ([''CMOVNZ''], \<lambda>N P i. analyzeCmov P i JCC_Z True),
    ([''CMOVO''], \<lambda>N P i. analyzeCmov P i JCC_O False),
    ([''CMOVP''], \<lambda>N P i. analyzeCmov P i JCC_P False),
    ([''CMOVS''], \<lambda>N P i. analyzeCmov P i JCC_S False),
    ([''CMOVZ''], \<lambda>N P i. analyzeCmov P i JCC_Z False)]"

definition opcodes_CMP :: opcode_table where
  "opcodes_CMP = [
    ([''CMP''], \<lambda>N P i. analyzeBinary_kind P i Sub False),
    ([''CMPSB''], \<lambda>N P i. analyzeCmps P i 1),
    ([''CMPSD''], \<lambda>N P i. analyzeCmps P i 4),
    ([''CMPSQ''], \<lambda>N P i. analyzeCmps P i 8),
    ([''CMPSW''], \<lambda>N P i. analyzeCmps P i 2),
    ([''CMPXCHG''], \<lambda>N P i. analyzeCmpxchg P i),
    ([''CPUID''], \<lambda>N P i. analyzeCpuid P i),
    ([''CQO''], \<lambda>N P i. analyzeCwd P i),
    ([''CWD''], \<lambda>N P i. analyzeCwd P i),
    ([''CWDE''], \<lambda>N P i. analyzeCbw P i),
    ([''DEC''], \<lambda>N P i. analyzeIncDec P i Sub),
    ([''DIV''], \<lambda>N P i. analyzeDiv P i False),
    ([''FIST''], \<lambda>N P i. analyzeClear P i),
    ([''FISTP''], \<lambda>N P i. analyzeClear P i),
    ([''FNSTCW''], \<lambda>N P i. analyzeClear P i)]"

definition opcodes_FNSTSW :: opcode_table where
  "opcodes_FNSTSW = [
    ([''FNSTSW''], \<lambda>N P i. analyzeClear P i),
    ([''FST''], \<lambda>N P i. analyzeClear P i),
    ([''FSTP''], \<lambda>N P i. analyzeClear P i),
    ([''IDIV''], \<lambda>N P i. analyzeDiv P i True),
    ([''IMUL''], \<lambda>N P i. analyzeIMul P i),
    ([''INC''], \<lambda>N P i. analyzeIncDec P i Add),
    ([''INT''], \<lambda>N P i. Some []),
    ([''JB''], \<lambda>N P i. analyzeJcc P i JCC_B False),
    ([''JBE''], \<lambda>N P i. analyzeJcc P i JCC_BE False),
    ([''JL''], \<lambda>N P i. analyzeJcc P i JCC_L False),
    ([''JLE''], \<lambda>N P i. analyzeJcc P i JCC_LE False),
    ([''JMP'', ''JMP_FAR''], \<lambda>N P i. analyzeJmp P i),
    ([''JNB''], \<lambda>N P i. analyzeJcc P i JCC_B True),
    ([''JNBE''], \<lambda>N P i. analyzeJcc P i JCC_BE True),
    ([''JNL''], \<lambda>N P i. analyzeJcc P i JCC_L True),
    ([''JNLE''], \<lambda>N P i. analyzeJcc P i JCC_LE True),
    ([''JNO''], \<lambda>N P i. analyzeJcc P i JCC_O True),
    ([''JNP''], \<lambda>N P i. analyzeJcc P i JCC_P True),
    ([''JNS''], \<lambda>N P i. analyzeJcc P i JCC_S True),
    ([''JNZ''], \<lambda>N P i. analyzeJcc P i JCC_Z True),
    ([''JO''], \<lambda>N P i. analyzeJcc P i JCC_O False),
    ([''JP''], \<lambda>N P i. analyzeJcc P i JCC_P False),
    ([''JS''], \<lambda>N P i. analyzeJcc P i JCC_S False),
    ([''JZ''], \<lambda>N P i. analyzeJcc P i JCC_Z False),
    ([''LDDQU''], \<lambda>N P i. analyzeMov P i),
    ([''LEA''], \<lambda>N P i. analyzeLea P i),
    ([''LEAVE''], \<lambda>N P i. analyzeLeave (REG_GBP N) P i)]"

definition opcodes_LZCNT :: opcode_table where
  "opcodes_LZCNT = [
    ([''LZCNT''], \<lambda>N P i. analyzeBs P i True),
    ([''MOV'', ''MOVAPD'', ''MOVAPS''], \<lambda>N P i. analyzeMov P i),
    ([''MOVD''], \<lambda>N P i. analyzeMovlz P i 4),
    ([''MOVDQ2Q'', ''MOVDQA'', ''MOVDQU''], \<lambda>N P i. analyzeMov P i),
    ([''MOVHPS'', ''MOVHPD''], \<lambda>N P i. analyzeMovh P i),
    ([''MOVLPD'', ''MOVLPS''], \<lambda>N P i. analyzeMov P i),
    ([''MOVNTDQ'', ''MOVNTDQA'', ''MOVNTI'', ''MOVNTPD'', ''MOVNTPS'', ''MOVNTQ'', ''MOVNTSD'', ''MOVNTSS''], \<lambda>N P i. analyzeMov P i),
    ([''MOVQ''], \<lambda>N P i. analyzeMovlz P i 8),
    ([''MOVSB''], \<lambda>N P i. analyzeMovs P i 1),
    ([''MOVSD''], \<lambda>N P i. analyzeMovs P i 4),
    ([''MOVSD_XMM''], \<lambda>N P i. analyzeMov P i),
    ([''MOVSQ''], \<lambda>N P i. analyzeMovs P i 8),
    ([''MOVSW''], \<lambda>N P i. analyzeMovs P i 2),
    ([''MOVSX'', ''MOVSXD''], \<lambda>N P i. analyzeMovsx P i),
    ([''MOVUPD'', ''MOVUPS''], \<lambda>N P i. analyzeMov P i),
    ([''MOVZX''], \<lambda>N P i. analyzeMovzx P i),
    ([''MUL''], \<lambda>N P i. analyzeMul P i),
    ([''NEG''], \<lambda>N P i. analyzeNegNot P i Neg),
    ([''NOP'', ''NOP2'', ''NOP3'', ''NOP4'', ''NOP5'', ''NOP6'', ''NOP7'', ''NOP8'', ''NOP9''], \<lambda>N P i. Some []),
    ([''NOT''], \<lambda>N P i. analyzeNegNot P i Not),
    ([''OR'', ''ORPD'', ''ORPS''], \<lambda>N P i. analyzeBinary_kind P i Or True),
    ([''PACKSSDW''], \<lambda>N P i. analyzePack P i 2 True),
    ([''PACKSSWB''], \<lambda>N P i. analyzePack P i 1 True),
    ([''PACKUSDW''], \<lambda>N P i. analyzePack P i 2 False),
    ([''PACKUSWB''], \<lambda>N P i. analyzePack P i 1 False),
    ([''PADDB''], \<lambda>N P i. analyzeParith P i Add 1),
    ([''PADDD''], \<lambda>N P i. analyzeParith P i Add 4),
    ([''PADDQ''], \<lambda>N P i. analyzeParith P i Add 8)]"

definition opcodes_PADDW :: opcode_table where
  "opcodes_PADDW = [
    ([''PADDW''], \<lambda>N P i. analyzeParith P i Add 2),
    ([''PALIGNR''], \<lambda>N P i. analyzePalignr P i),
    ([''PAND''], \<lambda>N P i. analyzeBinary_kind P i And True),
    ([''PCMPEQB''], \<lambda>N P i. analyzePcmp P i Equal 1),
    ([''PCMPEQD''], \<lambda>N P i. analyzePcmp P i Equal 4),
    ([''PCMPEQQ''], \<lambda>N P i. analyzePcmp P i Equal 8),
    ([''PCMPEQW''], \<lambda>N P i. analyzePcmp P i Equal 2),
    ([''PCMPGTB''], \<lambda>N P i. analyzePcmp P i Sgt 1),
    ([''PCMPGTD''], \<lambda>N P i. analyzePcmp P i Sgt 4),
    ([''PCMPGTQ''], \<lambda>N P i. analyzePcmp P i Sgt 8),
    ([''PCMPGTW''], \<lambda>N P i. analyzePcmp P i Sgt 2),
    ([''PEXTRB''], \<lambda>N P i. analyzePextr P i 1),
    ([''PEXTRD''], \<lambda>N P i. analyzePextr P i 4),
    ([''PEXTRQ''], \<lambda>N P i. analyzePextr P i 8),
    ([''PEXTRW''], \<lambda>N P i. analyzePextr P i 2),
    ([''PMADDWD''], \<lambda>N P i. analyzePmaddwd P i),
    ([''PMAXSB''], \<lambda>N P i. analyzePcmpxchg P i Sgt 1),
    ([''PMAXSD''], \<lambda>N P i. analyzePcmpxchg P i Sgt 4),
    ([''PMAXSW''], \<lambda>N P i. analyzePcmpxchg P i Ugt 2),
    ([''PMAXUB''], \<lambda>N P i. analyzePcmpxchg P i Ugt 1),
    ([''PMAXUD''], \<lambda>N P i. analyzePcmpxchg P i Ugt 4),
    ([''PMAXUW''], \<lambda>N P i. analyzePcmpxchg P i Ugt 2),
    ([''PMINSB''], \<lambda>N P i. analyzePcmpxchg P i Slt 1),
    ([''PMINSD''], \<lambda>N P i. analyzePcmpxchg P i Slt 4),
    ([''PMINSW''], \<lambda>N P i. analyzePcmpxchg P i Slt 2),
    ([''PMINUB''], \<lambda>N P i. analyzePcmpxchg P i Ult 1),
    ([''PMINUD''], \<lambda>N P i. analyzePcmpxchg P i Ult 4),
    ([''PMINUW''], \<lambda>N P i. analyzePcmpxchg P i Ult 2),
    ([''PMOVMSKB''], \<lambda>N P i. analyzePmovmskb P i)]"

definition opcodes_PMULHUW :: opcode_table where
  "opcodes_PMULHUW = [
    ([''PMULHUW''], \<lambda>N P i. analyzePmulhw P i False),
    ([''PMULHW''], \<lambda>N P i. analyzePmulhw P i True),
    ([''PMULLD''], \<lambda>N P i. analyzePmul P i 4),
    ([''PMULLW''], \<lambda>N P i. analyzePmul P i 2),
    ([''POP''], \<lambda>N P i. analyzePop P i),
    ([''POR''], \<lambda>N P i. analyzeBinary_kind P i Or True),
    ([''PREFETCHNTA'', ''PREFETCHT0'', ''PREFETCHT1'', ''PREFETCHT2'', ''PREFETCHW'', ''PREFETCH_EXCLUSIVE'', ''PREFETCH_RESERVED''], \<lambda>N P i. Some []),
    ([''PSHUFB''], \<lambda>N P i. analyzePshufb P i),
    ([''PSHUFD''], \<lambda>N P i. analyzePshuf P i 4),
    ([''PSHUFHW''], \<lambda>N P i. analyzePshufw P i True),
    ([''PSHUFLW''], \<lambda>N P i. analyzePshufw P i False),
    ([''PSHUFW''], \<lambda>N P i. analyzePshuf P i 2),
    ([''PSLLD''], \<lambda>N P i. analyzePshift P i Shl 4),
    ([''PSLLDQ''], \<lambda>N P i. analyzePshift P i Shl 16),
    ([''PSLLQ''], \<lambda>N P i. analyzePshift P i Shl 8),
    ([''PSLLW''], \<lambda>N P i. analyzePshift P i Shl 2),
    ([''PSRAD''], \<lambda>N P i. analyzePshift P i AShr 4),
    ([''PSRAW''], \<lambda>N P i. analyzePshift P i AShr 2),
    ([''PSRLD''], \<lambda>N P i. analyzePshift P i LShr 4),
    ([''PSRLDQ''], \<lambda>N P i. analyzePshift P i LShr 16),
    ([''PSRLQ''], \<lambda>N P i. analyzePshift P i LShr 8),
    ([''PSRLW''], \<lambda>N P i. analyzePshift P i LShr 2),
    ([''PSUBB''], \<lambda>N P i. analyzeParith P i Sub 1),
    ([''PSUBD''], \<lambda>N P i. analyzeParith P i Sub 4),
    ([''PSUBQ''], \<lambda>N P i. analyzeParith P i Sub 8),
    ([''PSUBW''], \<lambda>N P i. analyzeParith P i Sub 2),
    ([''PTEST''], \<lambda>N P i. analyzeBinary_kind P i And False),
    ([''PUNPCKHBW''], \<lambda>N P i. analyzePunpckh P i 1),
    ([''PUNPCKHDQ''], \<lambda>N P i. analyzePunpckh P i 4),
    ([''PUNPCKHQDQ''], \<lambda>N P i. analyzePunpckh P i 8),
    ([''PUNPCKHWD''], \<lambda>N P i. analyzePunpckh P i 2),
    ([''PUNPCKLBW''], \<lambda>N P i. analyzePunpckl P i 1),
    ([''PUNPCKLDQ''], \<lambda>N P i. analyzePunpckl P i 4),
    ([''PUNPCKLQDQ''], \<lambda>N P i. analyzePunpckl P i 8),
    ([''PUNPCKLWD''], \<lambda>N P i. analyzePunpckl P i 2),
    ([''PUSH''], \<lambda>N P i. analyzePush P i),
    ([''PXOR''], \<lambda>N P i. analyzeBinary_kind P i Xor True)]"

definition opcodes_RDTSC :: opcode_table where
  "opcodes_RDTSC = [
    ([''RDTSC''], \<lambda>N P i. analyzeRdtsc P i),
    ([''RDTSCP''], \<lambda>N P i. analyzeRdtscp P i),
    ([''RET_FAR'', ''RET_NEAR''], \<lambda>N P i. analyzeRet P i),
    ([''ROL''], \<lambda>N P i. analyzeShift (cl_reg N) P i Rol),
    ([''ROR''], \<lambda>N P i. analyzeShift (cl_reg N) P i Ror),
    ([''SAR''], \<lambda>N P i. analyzeShift (cl_reg N) P i AShr),
    ([''SBB''], \<lambda>N P i. analyzeCarry P i Sub),
    ([''SCASB''], \<lambda>N P i. analyzeScas P i 1),
    ([''SCASD''], \<lambda>N P i. analyzeScas P i 4),
    ([''SCASQ''], \<lambda>N P i. analyzeScas P i 8),
    ([''SCASW''], \<lambda>N P i. analyzeScas P i 2),
    ([''SETB''], \<lambda>N P i. analyzeSet P i JCC_B False),
    ([''SETBE''], \<lambda>N P i. analyzeSet P i JCC_BE False),
    ([''SETL''], \<lambda>N P i. analyzeSet P i JCC_L False),
    ([''SETLE''], \<lambda>N P i. analyzeSet P i JCC_LE False),
    ([''SETNB''], \<lambda>N P i. analyzeSet P i JCC_B True),
    ([''SETNBE''], \<lambda>N P i. analyzeSet P i JCC_BE True),
    ([''SETNL''], \<lambda>N P i. analyzeSet P i JCC_L True),
    ([''SETNLE''], \<lambda>N P i. analyzeSet P i JCC_LE True),
    ([''SETNO''], \<lambda>N P i. analyzeSet P i JCC_O True),
    ([''SETNP''], \<lambda>N P i. analyzeSet P i JCC_P True),
    ([''SETNS''], \<lambda>N P i. analyzeSet P i JCC_S True),
    ([''SETNZ''], \<lambda>N P i. analyzeSet P i JCC_Z True),
    ([''SETO''], \<lambda>N P i. analyzeSet P i JCC_O False),
    ([''SETP''], \<lambda>N P i. analyzeSet P i JCC_P False),
    ([''SETS''], \<lambda>N P i. analyzeSet P i JCC_S False),
    ([''SETZ''], \<lambda>N P i. analyzeSet P i JCC_Z False),
    ([''SHL''], \<lambda>N P i. analyzeShift (cl_reg N) P i Shl),
    ([''SHLD''], \<lambda>N P i. analyzeShiftd (cl_reg N) P i Shl),
    ([''SHR''], \<lambda>N P i. analyzeShift (cl_reg N) P i LShr),
    ([''SHRD''], \<lambda>N P i. analyzeShiftd (cl_reg N) P i LShr),
    ([''STOSB''], \<lambda>N P i. analyzeStos P i),
    ([''STOSD''], \<lambda>N P i. analyzeStos P i),
    ([''STOSQ''], \<lambda>N P i. analyzeStos P i),
    ([''STOSW''], \<lambda>N P i. analyzeStos P i),
    ([''SUB''], \<lambda>N P i. analyzeBinary_kind P i Sub True)]"

definition opcodes_TEST :: opcode_table where
  "opcodes_TEST = [
    ([''TEST''], \<lambda>N P i. analyzeBinary_kind P i And False),
    ([''TZCNT''], \<lambda>N P i. analyzeBs P i False)]"

definition opcodes_VINSERTF128 :: opcode_table where
  "opcodes_VINSERTF128 = [
    ([''VINSERTF128'', ''VINSERTI128''], \<lambda>N P i. analyzeVinserti128 P i),
    ([''VMOVAPD'', ''VMOVAPS''], \<lambda>N P i. analyzeMov P i),
    ([''VMOVD''], \<lambda>N P i. analyzeMovlz P i 4),
    ([''VMOVDQA''], \<lambda>N P i. analyzeMov P i),
    ([''VMOVDQU''], \<lambda>N P i. analyzeMov P i),
    ([''VMOVLPD'', ''VMOVLPS''], \<lambda>N P i. analyzeVmovl P i),
    ([''VMOVNTDQ'', ''VMOVNTDQA''], \<lambda>N P i. analyzeMov P i),
    ([''VMOVQ''], \<lambda>N P i. analyzeMovlz P i 8),
    ([''VPACKSSDW''], \<lambda>N P i. analyzeVpack P i 2 True),
    ([''VPACKSSWB''], \<lambda>N P i. analyzeVpack P i 1 True),
    ([''VPACKUSDW''], \<lambda>N P i. analyzeVpack P i 2 False),
    ([''VPACKUSWB''], \<lambda>N P i. analyzeVpack P i 1 False),
    ([''VPADDB''], \<lambda>N P i. analyzeVparith P i Add 1),
    ([''VPADDD''], \<lambda>N P i. analyzeVparith P i Add 4),
    ([''VPADDQ''], \<lambda>N P i. analyzeVparith P i Add 8),
    ([''VPADDW''], \<lambda>N P i. analyzeVparith P i Add 2),
    ([''VPAND''], \<lambda>N P i. analyzeBinary_kind P i And True),
    ([''VPCMPEQB''], \<lambda>N P i. analyzeVpcmp P i Equal 1),
    ([''VPCMPEQD''], \<lambda>N P i. analyzeVpcmp P i Equal 4),
    ([''VPCMPEQQ''], \<lambda>N P i. analyzeVpcmp P i Equal 8),
    ([''VPCMPEQW''], \<lambda>N P i. analyzeVpcmp P i Equal 2),
    ([''VPCMPGTB''], \<lambda>N P i. analyzeVpcmp P i Sgt 1),
    ([''VPCMPGTD''], \<lambda>N P i. analyzeVpcmp P i Sgt 4),
    ([''VPCMPGTQ''], \<lambda>N P i. analyzeVpcmp P i Sgt 8)]"

definition opcodes_VPCMPGTW :: opcode_table where
  "opcodes_VPCMPGTW = [
    ([''VPCMPGTW''], \<lambda>N P i. analyzeVpcmp P i Sgt 2),
    ([''VPEXTRB''], \<lambda>N P i. analyzePextr P i 1),
    ([''VPEXTRD''], \<lambda>N P i. analyzePextr P i 4),
    ([''VPEXTRQ''], \<lambda>N P i. analyzePextr P i 8),
    ([''VPEXTRW''], \<lambda>N P i. analyzePextr P i 2),
    ([''VPMADDWD''], \<lambda>N P i. analyzeVpmaddwd P i),
    ([''VPMAXSB''], \<lambda>N P i. analyzeVpcmpxchg P i Sgt 1),
    ([''VPMAXSD''], \<lambda>N P i. analyzeVpcmpxchg P i Sgt 4),
    ([''VPMAXSW''], \<lambda>N P i. analyzeVpcmpxchg P i Ugt 2),
    ([''VPMAXUB''], \<lambda>N P i. analyzeVpcmpxchg P i Ugt 1),
    ([''VPMAXUD''], \<lambda>N P i. analyzeVpcmpxchg P i Ugt 4),
    ([''VPMAXUW''], \<lambda>N P i. analyzeVpcmpxchg P i Ugt 2),
    ([''VPMINSB''], \<lambda>N P i. analyzeVpcmpxchg P i Slt 1),
    ([''VPMINSD''], \<lambda>N P i. analyzeVpcmpxchg P i Slt 4),
    ([''VPMINSW''], \<lambda>N P i. analyzeVpcmpxchg P i Slt 2),
    ([''VPMINUB''], \<lambda>N P i. analyzeVpcmpxchg P i Ult 1),
    ([''VPMINUD''], \<lambda>N P i. analyzeVpcmpxchg P i Ult 4),
    ([''VPMINUW''], \<lambda>N P i. analyzeVpcmpxchg P i Ult 2),
    ([''VPMULHUW''], \<lambda>N P i. analyzeVpmulhw P i False),
    ([''VPMULHW''], \<lambda>N P i. analyzeVpmulhw P i True),
    ([''VPMULLD''], \<lambda>N P i. analyzeVpmul P i 4),
    ([''VPMULLW''], \<lambda>N P i. analyzeVpmul P i 2)]"

definition opcodes_VPOR :: opcode_table where
  "opcodes_VPOR = [
    ([''VPOR''], \<lambda>N P i. analyzeTernary P i Or),
    ([''VPSHUFB''], \<lambda>N P i. analyzeVpshufb P i),
    ([''VPSHUFHW''], \<lambda>N P i. analyzePshufw P i True),
    ([''VPSHUFLW''], \<lambda>N P i. analyzePshufw P i False),
    ([''VPSLLD''], \<lambda>N P i. analyzeVpshift P i Shl 4),
    ([''VPSLLDQ''], \<lambda>N P i. analyzeVpshift P i Shl 16),
    ([''VPSLLQ''], \<lambda>N P i. analyzeVpshift P i Shl 8),
    ([''VPSLLW''], \<lambda>N P i. analyzeVpshift P i Shl 2),
    ([''VPSRAD''], \<lambda>N P i. analyzeVpshift P i AShr 4),
    ([''VPSRAW''], \<lambda>N P i. analyzeVpshift P i AShr 2),
    ([''VPSRLD''], \<lambda>N P i. analyzeVpshift P i LShr 4),
    ([''VPSRLDQ''], \<lambda>N P i. analyzeVpshift P i LShr 16),
    ([''VPSRLQ''], \<lambda>N P i. analyzeVpshift P i LShr 8),
    ([''VPSRLW''], \<lambda>N P i. analyzeVpshift P i LShr 2),
    ([''VPSUBB''], \<lambda>N P i. analyzeVparith P i Sub 1),
    ([''VPSUBD''], \<lambda>N P i. analyzeVparith P i Sub 4),
    ([''VPSUBQ''], \<lambda>N P i. analyzeVparith P i Sub 8),
    ([''VPSUBW''], \<lambda>N P i. analyzeVparith P i Sub 2),
    ([''VPTEST''], \<lambda>N P i. analyzeBinary_kind P i And False),
    ([''VPUNPCKHBW''], \<lambda>N P i. analyzePunpckh P i 1),
    ([''VPUNPCKHDQ''], \<lambda>N P i. analyzePunpckh P i 4),
    ([''VPUNPCKHQDQ''], \<lambda>N P i. analyzePunpckh P i 8),
    ([''VPUNPCKHWD''], \<lambda>N P i. analyzePunpckh P i 2),
    ([''VPUNPCKLBW''], \<lambda>N P i. analyzePunpckl P i 1),
    ([''VPUNPCKLDQ''], \<lambda>N P i. analyzePunpckl P i 4),
    ([''VPUNPCKLQDQ''], \<lambda>N P i. analyzePunpckl P i 8),
    ([''VPUNPCKLWD''], \<lambda>N P i. analyzePunpckl P i 2),
    ([''VPXOR''], \<lambda>N P i. analyzeTernary P i Xor),
    ([''VXORPS''], \<lambda>N P i. analyzeTernary P i Xor)]"

definition opcodes_XADD :: opcode_table where
  "opcodes_XADD = [
    ([''XADD''], \<lambda>N P i. analyzeXadd P i),
    ([''XCHG''], \<lambda>N P i. analyzeXchg P i),
    ([''XOR''], \<lambda>N P i. analyzeBinary_kind P i Xor True),
    ([''XORPD''], \<lambda>N P i. analyzeBinary_kind P i Xor True),
    ([''XORPS''], \<lambda>N P i. analyzeBinary_kind P i Xor True)]"

definition opcode_cases :: opcode_table where
  "opcode_cases = opcodes_ADC @ opcodes_CMP @ opcodes_FNSTSW @ opcodes_LZCNT @ opcodes_PADDW @ opcodes_PMULHUW @ opcodes_RDTSC @ opcodes_TEST @ opcodes_VINSERTF128 @ opcodes_VPCMPGTW @ opcodes_VPOR @ opcodes_XADD"

definition find_case :: "string \<Rightarrow> opcode_table \<Rightarrow> (named_regs \<Rightarrow> pin_api \<Rightarrow> ins \<Rightarrow> calls) option" where
  "find_case x t = map_option snd (List.find (\<lambda>(labels, _). x \<in> set labels) t)"

definition analyzeInstruction :: "named_regs \<Rightarrow> pin_api \<Rightarrow> ins \<Rightarrow> calls" where
  "analyzeInstruction N P i = (case INS_Opcode i of
     None \<Rightarrow> Some []
   | Some x \<Rightarrow> (case find_case x opcode_cases of
       Some f \<Rightarrow> f N P i
     | None \<Rightarrow> analyzeDefault (REG_is_flags N) P i))"

fun analyze_all :: "('a \<Rightarrow> calls) \<Rightarrow> 'a list \<Rightarrow> call list list option" where
  "analyze_all f [] = Some []"
| "analyze_all f (x # xs) = do { c \<leftarrow> f x; cs \<leftarrow> analyze_all f xs; Some (c # cs) }"

text \<open>For each block: the call before it, and the calls of each of its instructions.\<close>

fun analyzeTrace :: "named_regs \<Rightarrow> pin_api \<Rightarrow> ins list list \<Rightarrow> (call list \<times> call list list) list option" where
  "analyzeTrace N P [] = Some []"
| "analyzeTrace N P (bbl # bbls) = do {
     b \<leftarrow> analyzeBBL;
     cs \<leftarrow> analyze_all (analyzeInstruction N P) bbl;
     rest \<leftarrow> analyzeTrace N P bbls;
     Some ((b, cs) # rest) }"

end
