(* ===== verification/DispatchRun.thy ===== *)
theory DispatchRun
  imports DispatchTable
begin

section \<open>From an inserted call to its handler\<close>

text \<open>
  What connects the two sides: the parameters that \<open>instrument.h\<close> declares for each handler, in its
  order and cut into parts as the file goes, and what happens when an inserted call is run: Pin
  puts the run-time values in the place of the arguments (\<open>eval_arg\<close>, as the \<open>IARG\<close> values are
  documented), and the handler takes them one after the other.
\<close>

subsection \<open>Parameters\<close>

datatype param =
    P_ThreadContext | P_CONTEXT | P_REG | P_ADDRINT | P_UINT | P_Kind | P_JccKind | P_bool

definition CPU_CONTEXT :: "param list" where
  "CPU_CONTEXT = [P_ThreadContext, P_CONTEXT]"

definition MEM_ARG :: "param list" where
  "MEM_ARG = [P_REG, P_REG, P_ADDRINT, P_UINT, P_ADDRINT, P_UINT]"

primrec compute_parameters :: "compute_fun \<Rightarrow> param list" where
  "compute_parameters BBL = CPU_CONTEXT"
| "compute_parameters BinaryRegReg = CPU_CONTEXT @ [P_REG, P_REG, P_Kind, P_bool]"
| "compute_parameters BinaryRegImm = CPU_CONTEXT @ [P_REG, P_ADDRINT, P_Kind, P_bool]"
| "compute_parameters BinaryRegMem = CPU_CONTEXT @ [P_REG] @ MEM_ARG @ [P_Kind, P_bool]"
| "compute_parameters BinaryMemReg = CPU_CONTEXT @ MEM_ARG @ [P_REG, P_Kind, P_bool]"
| "compute_parameters BinaryMemImm = CPU_CONTEXT @ MEM_ARG @ [P_ADDRINT, P_Kind, P_bool]"
| "compute_parameters CarryRegReg = CPU_CONTEXT @ [P_REG, P_REG, P_Kind]"
| "compute_parameters CarryRegImm = CPU_CONTEXT @ [P_REG, P_ADDRINT, P_Kind]"
| "compute_parameters CarryRegMem = CPU_CONTEXT @ [P_REG] @ MEM_ARG @ [P_Kind]"
| "compute_parameters CarryMemReg = CPU_CONTEXT @ MEM_ARG @ [P_REG, P_Kind]"
| "compute_parameters CarryMemImm = CPU_CONTEXT @ MEM_ARG @ [P_ADDRINT, P_Kind]"
| "compute_parameters BsRegReg = CPU_CONTEXT @ [P_REG, P_REG, P_bool]"
| "compute_parameters BsRegMem = CPU_CONTEXT @ [P_REG] @ MEM_ARG @ [P_bool]"
| "compute_parameters BswapReg = CPU_CONTEXT @ [P_REG]"
| "compute_parameters BtRegReg = CPU_CONTEXT @ [P_REG, P_REG, P_Kind]"
| "compute_parameters BtRegImm = CPU_CONTEXT @ [P_REG, P_ADDRINT, P_Kind]"
| "compute_parameters BtMemReg = CPU_CONTEXT @ MEM_ARG @ [P_REG, P_Kind]"
| "compute_parameters BtMemImm = CPU_CONTEXT @ MEM_ARG @ [P_ADDRINT, P_Kind]"
| "compute_parameters Call = CPU_CONTEXT @ [P_ADDRINT, P_UINT]"
| "compute_parameters Cbw = CPU_CONTEXT @ [P_REG, P_REG]"
| "compute_parameters Cwd = CPU_CONTEXT @ [P_REG, P_REG]"

primrec exchange_parameters :: "exchange_fun \<Rightarrow> param list" where
  "exchange_parameters CmovRegReg = CPU_CONTEXT @ [P_bool, P_REG, P_REG, P_JccKind, P_bool]"
| "exchange_parameters CmovRegMem = CPU_CONTEXT @ [P_bool, P_REG] @ MEM_ARG @ [P_JccKind, P_bool]"
| "exchange_parameters Cmps = CPU_CONTEXT @ [P_ADDRINT, P_ADDRINT, P_UINT]"
| "exchange_parameters CmpxchgRegReg = CPU_CONTEXT @ [P_REG, P_REG]"
| "exchange_parameters CmpxchgMemReg = CPU_CONTEXT @ MEM_ARG @ [P_REG]"
| "exchange_parameters Cpuid = CPU_CONTEXT"
| "exchange_parameters IncDecReg = CPU_CONTEXT @ [P_REG, P_Kind]"
| "exchange_parameters IncDecMem = CPU_CONTEXT @ MEM_ARG @ [P_Kind]"
| "exchange_parameters DivReg = CPU_CONTEXT @ [P_REG, P_bool]"
| "exchange_parameters DivMem = CPU_CONTEXT @ MEM_ARG @ [P_bool]"
| "exchange_parameters IMulReg = CPU_CONTEXT @ [P_REG]"
| "exchange_parameters IMulMem = CPU_CONTEXT @ MEM_ARG"
| "exchange_parameters IMulRegReg = CPU_CONTEXT @ [P_REG, P_REG]"
| "exchange_parameters IMulRegMem = CPU_CONTEXT @ [P_REG] @ MEM_ARG"
| "exchange_parameters IMulRegRegImm = CPU_CONTEXT @ [P_REG, P_REG, P_ADDRINT]"
| "exchange_parameters IMulRegMemImm = CPU_CONTEXT @ [P_REG] @ MEM_ARG @ [P_ADDRINT]"
| "exchange_parameters LeaRegMem = CPU_CONTEXT @ [P_REG, P_REG, P_REG, P_ADDRINT, P_UINT]"

primrec move_parameters :: "move_fun \<Rightarrow> param list" where
  "move_parameters MovRegReg = CPU_CONTEXT @ [P_REG, P_REG]"
| "move_parameters MovRegImm = CPU_CONTEXT @ [P_REG, P_ADDRINT]"
| "move_parameters MovRegMem = CPU_CONTEXT @ [P_REG] @ MEM_ARG"
| "move_parameters MovMemImm = CPU_CONTEXT @ MEM_ARG @ [P_ADDRINT]"
| "move_parameters MovMemReg = CPU_CONTEXT @ MEM_ARG @ [P_REG]"
| "move_parameters MovhRegMem = CPU_CONTEXT @ [P_REG] @ MEM_ARG"
| "move_parameters MovhMemReg = CPU_CONTEXT @ MEM_ARG @ [P_REG]"
| "move_parameters MovlzRegReg = CPU_CONTEXT @ [P_REG, P_REG, P_UINT]"
| "move_parameters MovlzRegMem = CPU_CONTEXT @ [P_REG] @ MEM_ARG @ [P_UINT]"
| "move_parameters MovlzMemReg = CPU_CONTEXT @ MEM_ARG @ [P_REG, P_UINT]"
| "move_parameters Movs = CPU_CONTEXT @ [P_ADDRINT, P_ADDRINT, P_UINT]"
| "move_parameters MovsxRegMem = CPU_CONTEXT @ [P_REG] @ MEM_ARG"
| "move_parameters MovsxRegReg = CPU_CONTEXT @ [P_REG, P_REG]"
| "move_parameters MovzxRegMem = CPU_CONTEXT @ [P_REG] @ MEM_ARG"
| "move_parameters MovzxRegReg = CPU_CONTEXT @ [P_REG, P_REG]"
| "move_parameters MulReg = CPU_CONTEXT @ [P_REG, P_REG, P_REG]"
| "move_parameters MulMem = CPU_CONTEXT @ MEM_ARG @ [P_REG, P_REG]"
| "move_parameters NegNotReg = CPU_CONTEXT @ [P_REG, P_Kind]"
| "move_parameters NegNotMem = CPU_CONTEXT @ MEM_ARG @ [P_Kind]"
| "move_parameters Jcc = CPU_CONTEXT @ [P_bool, P_ADDRINT, P_JccKind, P_bool]"
| "move_parameters JmpReg = CPU_CONTEXT @ [P_REG]"
| "move_parameters JmpMem = CPU_CONTEXT @ MEM_ARG"

primrec packed_parameters :: "packed_fun \<Rightarrow> param list" where
  "packed_parameters PackRegReg = CPU_CONTEXT @ [P_REG, P_REG, P_UINT, P_bool]"
| "packed_parameters PackRegMem = CPU_CONTEXT @ [P_REG] @ MEM_ARG @ [P_UINT, P_bool]"
| "packed_parameters PalignrReg = CPU_CONTEXT @ [P_REG, P_REG, P_ADDRINT]"
| "packed_parameters PalignrMem = CPU_CONTEXT @ [P_REG] @ MEM_ARG @ [P_ADDRINT]"
| "packed_parameters PcmpRegReg = CPU_CONTEXT @ [P_REG, P_REG, P_Kind, P_UINT]"
| "packed_parameters PcmpRegMem = CPU_CONTEXT @ [P_REG] @ MEM_ARG @ [P_Kind, P_UINT]"
| "packed_parameters PextrRegRegImm = CPU_CONTEXT @ [P_REG, P_REG, P_ADDRINT, P_UINT]"
| "packed_parameters PextrMemRegImm = CPU_CONTEXT @ MEM_ARG @ [P_REG, P_ADDRINT, P_UINT]"
| "packed_parameters PmaddwdRegReg = CPU_CONTEXT @ [P_REG, P_REG]"
| "packed_parameters PmaddwdRegMem = CPU_CONTEXT @ [P_REG] @ MEM_ARG"
| "packed_parameters PmulRegReg = CPU_CONTEXT @ [P_REG, P_REG, P_UINT]"
| "packed_parameters PmulRegMem = CPU_CONTEXT @ [P_REG] @ MEM_ARG @ [P_UINT]"
| "packed_parameters PmulhwRegReg = CPU_CONTEXT @ [P_REG, P_REG, P_bool]"
| "packed_parameters PmulhwRegMem = CPU_CONTEXT @ [P_REG] @ MEM_ARG @ [P_bool]"
| "packed_parameters PcmpxchgRegReg = CPU_CONTEXT @ [P_REG, P_REG, P_Kind, P_UINT]"
| "packed_parameters PcmpxchgRegMem = CPU_CONTEXT @ [P_REG] @ MEM_ARG @ [P_Kind, P_UINT]"
| "packed_parameters Pmovmskb = CPU_CONTEXT @ [P_REG, P_REG]"
| "packed_parameters PshufRegRegImm = CPU_CONTEXT @ [P_REG, P_REG, P_ADDRINT, P_UINT]"
| "packed_parameters PshufRegMemImm = CPU_CONTEXT @ [P_REG] @ MEM_ARG @ [P_ADDRINT, P_UINT]"

primrec shuffle_parameters :: "shuffle_fun \<Rightarrow> param list" where
  "shuffle_parameters PshufbRegReg = CPU_CONTEXT @ [P_REG, P_REG]"
| "shuffle_parameters PshufbRegMem = CPU_CONTEXT @ [P_REG] @ MEM_ARG"
| "shuffle_parameters PshufwRegRegImm = CPU_CONTEXT @ [P_REG, P_REG, P_ADDRINT, P_bool]"
| "shuffle_parameters PshufwRegMemImm = CPU_CONTEXT @ [P_REG] @ MEM_ARG @ [P_ADDRINT, P_bool]"
| "shuffle_parameters PshiftRegReg = CPU_CONTEXT @ [P_REG, P_REG, P_Kind, P_UINT]"
| "shuffle_parameters PshiftRegImm = CPU_CONTEXT @ [P_REG, P_ADDRINT, P_Kind, P_UINT]"
| "shuffle_parameters PshiftRegMem = CPU_CONTEXT @ [P_REG] @ MEM_ARG @ [P_Kind, P_UINT]"
| "shuffle_parameters ParithRegReg = CPU_CONTEXT @ [P_REG, P_REG, P_Kind, P_UINT]"
| "shuffle_parameters ParithRegMem = CPU_CONTEXT @ [P_REG] @ MEM_ARG @ [P_Kind, P_UINT]"
| "shuffle_parameters PopReg = CPU_CONTEXT @ [P_REG, P_ADDRINT, P_UINT]"
| "shuffle_parameters PopMem = CPU_CONTEXT @ MEM_ARG @ [P_ADDRINT]"
| "shuffle_parameters PunpckhRegReg = CPU_CONTEXT @ [P_REG, P_REG, P_UINT]"
| "shuffle_parameters PunpckhRegMem = CPU_CONTEXT @ [P_REG] @ MEM_ARG @ [P_UINT]"
| "shuffle_parameters PunpcklRegReg = CPU_CONTEXT @ [P_REG, P_REG, P_UINT]"
| "shuffle_parameters PunpcklRegMem = CPU_CONTEXT @ [P_REG] @ MEM_ARG @ [P_UINT]"
| "shuffle_parameters PushReg = CPU_CONTEXT @ [P_ADDRINT, P_UINT, P_REG]"
| "shuffle_parameters PushImm = CPU_CONTEXT @ [P_ADDRINT, P_UINT]"
| "shuffle_parameters PushMem = CPU_CONTEXT @ [P_ADDRINT] @ MEM_ARG"

primrec shift_parameters :: "shift_fun \<Rightarrow> param list" where
  "shift_parameters Rdtsc = [P_ThreadContext]"
| "shift_parameters Rdtscp = [P_ThreadContext]"
| "shift_parameters Scas = CPU_CONTEXT @ [P_ADDRINT, P_UINT]"
| "shift_parameters SetReg = CPU_CONTEXT @ [P_REG, P_JccKind, P_bool]"
| "shift_parameters SetMem = CPU_CONTEXT @ MEM_ARG @ [P_JccKind, P_bool]"
| "shift_parameters ShiftRegImm = CPU_CONTEXT @ [P_REG, P_ADDRINT, P_Kind]"
| "shift_parameters ShiftRegCl = CPU_CONTEXT @ [P_REG, P_Kind]"
| "shift_parameters ShiftMemImm = CPU_CONTEXT @ MEM_ARG @ [P_ADDRINT, P_Kind]"
| "shift_parameters ShiftMemCl = CPU_CONTEXT @ MEM_ARG @ [P_Kind]"
| "shift_parameters ShiftdRegRegImm = CPU_CONTEXT @ [P_REG, P_REG, P_ADDRINT, P_Kind]"
| "shift_parameters ShiftdRegRegCl = CPU_CONTEXT @ [P_REG, P_REG, P_Kind]"
| "shift_parameters ShiftdMemRegImm = CPU_CONTEXT @ MEM_ARG @ [P_REG, P_ADDRINT, P_Kind]"
| "shift_parameters ShiftdMemRegCl = CPU_CONTEXT @ MEM_ARG @ [P_REG, P_Kind]"
| "shift_parameters Stos = CPU_CONTEXT @ [P_ADDRINT, P_REG]"
| "shift_parameters XaddRegReg = CPU_CONTEXT @ [P_REG, P_REG]"
| "shift_parameters XaddMemReg = CPU_CONTEXT @ MEM_ARG @ [P_REG]"
| "shift_parameters XchgRegReg = CPU_CONTEXT @ [P_REG, P_REG]"
| "shift_parameters XchgRegMem = CPU_CONTEXT @ [P_REG] @ MEM_ARG"
| "shift_parameters XchgMemReg = CPU_CONTEXT @ MEM_ARG @ [P_REG]"
| "shift_parameters ConcretizeReg = CPU_CONTEXT @ [P_REG]"
| "shift_parameters ConcretizeMem = [P_CONTEXT, P_ADDRINT, P_UINT]"
| "shift_parameters ConcretizeEflags = CPU_CONTEXT"
| "shift_parameters ClrReg = CPU_CONTEXT @ [P_REG]"
| "shift_parameters ClrMem = [P_ADDRINT, P_UINT]"

primrec vex_parameters :: "vex_fun \<Rightarrow> param list" where
  "vex_parameters TernaryRegRegReg = CPU_CONTEXT @ [P_REG, P_REG, P_REG, P_Kind]"
| "vex_parameters TernaryRegRegMem = CPU_CONTEXT @ [P_REG, P_REG] @ MEM_ARG @ [P_Kind]"
| "vex_parameters VmovlRegRegMem = CPU_CONTEXT @ [P_REG, P_REG] @ MEM_ARG"
| "vex_parameters VparithRegRegReg = CPU_CONTEXT @ [P_REG, P_REG, P_REG, P_Kind, P_UINT]"
| "vex_parameters VparithRegRegMem = CPU_CONTEXT @ [P_REG, P_REG] @ MEM_ARG @ [P_Kind, P_UINT]"
| "vex_parameters VpcmpRegRegReg = CPU_CONTEXT @ [P_REG, P_REG, P_REG, P_Kind, P_UINT]"
| "vex_parameters VpcmpRegRegMem = CPU_CONTEXT @ [P_REG, P_REG] @ MEM_ARG @ [P_Kind, P_UINT]"
| "vex_parameters Vinsert128iRegRegRegImm = CPU_CONTEXT @ [P_REG, P_REG, P_REG, P_ADDRINT]"
| "vex_parameters Vinsert128iRegRegMemImm = CPU_CONTEXT @ [P_REG, P_REG] @ MEM_ARG @ [P_ADDRINT]"
| "vex_parameters VpmaddwdRegRegReg = CPU_CONTEXT @ [P_REG, P_REG, P_REG]"
| "vex_parameters VpmaddwdRegRegMem = CPU_CONTEXT @ [P_REG, P_REG] @ MEM_ARG"
| "vex_parameters VpcmpxchgRegRegReg = CPU_CONTEXT @ [P_REG, P_REG, P_REG, P_Kind, P_UINT]"
| "vex_parameters VpcmpxchgRegRegMem = CPU_CONTEXT @ [P_REG, P_REG] @ MEM_ARG @ [P_Kind, P_UINT]"
| "vex_parameters VpmulhwRegRegReg = CPU_CONTEXT @ [P_REG, P_REG, P_REG, P_bool]"
| "vex_parameters VpmulhwRegRegMem = CPU_CONTEXT @ [P_REG, P_REG] @ MEM_ARG @ [P_bool]"

primrec ymm_parameters :: "ymm_fun \<Rightarrow> param list" where
  "ymm_parameters VpmulRegRegReg = CPU_CONTEXT @ [P_REG, P_REG, P_REG, P_UINT]"
| "ymm_parameters VpmulRegRegMem = CPU_CONTEXT @ [P_REG, P_REG] @ MEM_ARG @ [P_UINT]"
| "ymm_parameters VpshufbRegRegReg = CPU_CONTEXT @ [P_REG, P_REG, P_REG]"
| "ymm_parameters VpshufbRegRegMem = CPU_CONTEXT @ [P_REG, P_REG] @ MEM_ARG"
| "ymm_parameters VpshiftRegRegReg = CPU_CONTEXT @ [P_REG, P_REG, P_REG, P_Kind, P_UINT]"
| "ymm_parameters VpshiftRegRegImm = CPU_CONTEXT @ [P_REG, P_REG, P_ADDRINT, P_Kind, P_UINT]"
| "ymm_parameters VpshiftRegRegMem = CPU_CONTEXT @ [P_REG, P_REG] @ MEM_ARG @ [P_Kind, P_UINT]"
| "ymm_parameters VpackRegRegReg = CPU_CONTEXT @ [P_REG, P_REG, P_REG, P_UINT, P_bool]"
| "ymm_parameters VpackRegRegMem = CPU_CONTEXT @ [P_REG, P_REG] @ MEM_ARG @ [P_UINT, P_bool]"
| "ymm_parameters CallAfter = CPU_CONTEXT @ [P_ADDRINT]"
| "ymm_parameters Ret = CPU_CONTEXT @ [P_ADDRINT]"

primrec parameters :: "analysis_fun \<Rightarrow> param list" where
  "parameters (Compute f) = compute_parameters f"
| "parameters (Exchange f) = exchange_parameters f"
| "parameters (Move f) = move_parameters f"
| "parameters (Packed f) = packed_parameters f"
| "parameters (Shuffle f) = shuffle_parameters f"
| "parameters (Shift f) = shift_parameters f"
| "parameters (Vex f) = vex_parameters f"
| "parameters (Ymm f) = ymm_parameters f"

text \<open>A call is well typed if every argument is a value for the parameter.\<close>

fun accepts :: "param \<Rightarrow> iarg \<Rightarrow> bool" where
  "accepts P_ThreadContext a \<longleftrightarrow> a = IARG_THREAD_CONTEXT"
| "accepts P_CONTEXT a \<longleftrightarrow> a = IARG_CONTEXT"
| "accepts P_REG a \<longleftrightarrow> (\<exists>r. a = IARG_REG r)"
| "accepts P_ADDRINT a \<longleftrightarrow> (\<exists>v. a = IARG_IMM v) \<or> a = IARG_MEMORYREAD_EA \<or> a = IARG_MEMORYREAD2_EA \<or>
     a = IARG_MEMORYWRITE_EA \<or> a = IARG_BRANCH_TARGET_ADDR \<or> a = IARG_RETURN_IP"
| "accepts P_UINT a \<longleftrightarrow> (\<exists>v. a = IARG_UINT32 v) \<or> (\<exists>w. a = IARG_ARG (WidthArg w)) \<or>
     a = IARG_MEMORYREAD_SIZE \<or> a = IARG_MEMORYWRITE_SIZE"
| "accepts P_Kind a \<longleftrightarrow> (\<exists>k. a = IARG_ARG (KindArg k))"
| "accepts P_JccKind a \<longleftrightarrow> (\<exists>j. a = IARG_ARG (JccArg j))"
| "accepts P_bool a \<longleftrightarrow> (\<exists>b. a = IARG_ARG (BoolArg b)) \<or> a = IARG_EXECUTING \<or> a = IARG_BRANCH_TAKEN"

definition well_typed :: "call \<Rightarrow> bool" where
  "well_typed c \<longleftrightarrow> list_all2 accepts (parameters (c_fun c)) (c_args c)"

subsection \<open>Running a call\<close>

record runtime =
  rt_ctx :: CONTEXT
  rt_read :: addr
  rt_read2 :: addr
  rt_write :: addr
  rt_read_size :: nat
  rt_write_size :: nat
  rt_executing :: bool
  rt_taken :: bool
  rt_target :: addr
  rt_return :: addr

datatype value_arg =
    V_ThreadContext | V_CONTEXT CONTEXT | V_REG reg | V_ADDRINT addr | V_UINT nat
  | V_Kind kind | V_JccKind jcc_kind | V_bool bool

fun eval_uint :: "uint_arg \<Rightarrow> value_arg" where
  "eval_uint (KindArg k) = V_Kind k"
| "eval_uint (JccArg j) = V_JccKind j"
| "eval_uint (BoolArg b) = V_bool b"
| "eval_uint (WidthArg w) = V_UINT w"

fun eval_arg :: "runtime \<Rightarrow> iarg \<Rightarrow> value_arg" where
  "eval_arg rt IARG_THREAD_CONTEXT = V_ThreadContext"
| "eval_arg rt IARG_CONTEXT = V_CONTEXT (rt_ctx rt)"
| "eval_arg rt (IARG_REG r) = V_REG r"
| "eval_arg rt (IARG_IMM a) = V_ADDRINT a"
| "eval_arg rt (IARG_UINT32 w) = V_UINT (unat w)"
| "eval_arg rt (IARG_ARG u) = eval_uint u"
| "eval_arg rt IARG_MEMORYREAD_EA = V_ADDRINT (rt_read rt)"
| "eval_arg rt IARG_MEMORYREAD2_EA = V_ADDRINT (rt_read2 rt)"
| "eval_arg rt IARG_MEMORYWRITE_EA = V_ADDRINT (rt_write rt)"
| "eval_arg rt IARG_MEMORYREAD_SIZE = V_UINT (rt_read_size rt)"
| "eval_arg rt IARG_MEMORYWRITE_SIZE = V_UINT (rt_write_size rt)"
| "eval_arg rt IARG_EXECUTING = V_bool (rt_executing rt)"
| "eval_arg rt IARG_BRANCH_TAKEN = V_bool (rt_taken rt)"
| "eval_arg rt IARG_BRANCH_TARGET_ADDR = V_ADDRINT (rt_target rt)"
| "eval_arg rt IARG_RETURN_IP = V_ADDRINT (rt_return rt)"

text \<open>
  A handler takes a list of values; \<open>None\<close> is a value of a wrong type or a missing one. Values that
  it has no parameter for are not looked at, as the calling convention has it.
\<close>

type_synonym 'a handler = "value_arg list \<Rightarrow> 'a option"

definition no_more :: "'a \<Rightarrow> 'a handler" where
  "no_more x vs = Some x"

fun thread_arg :: "'a handler \<Rightarrow> 'a handler" where
  "thread_arg f (V_ThreadContext # vs) = f vs"
| "thread_arg f _ = None"

fun ctx_arg :: "(CONTEXT \<Rightarrow> 'a handler) \<Rightarrow> 'a handler" where
  "ctx_arg f (V_CONTEXT c # vs) = f c vs"
| "ctx_arg f _ = None"

fun reg_arg :: "(reg \<Rightarrow> 'a handler) \<Rightarrow> 'a handler" where
  "reg_arg f (V_REG r # vs) = f r vs"
| "reg_arg f _ = None"

fun addr_arg :: "(addr \<Rightarrow> 'a handler) \<Rightarrow> 'a handler" where
  "addr_arg f (V_ADDRINT a # vs) = f a vs"
| "addr_arg f _ = None"

fun nat_arg :: "(nat \<Rightarrow> 'a handler) \<Rightarrow> 'a handler" where
  "nat_arg f (V_UINT n # vs) = f n vs"
| "nat_arg f _ = None"

fun kind_arg :: "(kind \<Rightarrow> 'a handler) \<Rightarrow> 'a handler" where
  "kind_arg f (V_Kind k # vs) = f k vs"
| "kind_arg f _ = None"

fun jcc_arg :: "(jcc_kind \<Rightarrow> 'a handler) \<Rightarrow> 'a handler" where
  "jcc_arg f (V_JccKind j # vs) = f j vs"
| "jcc_arg f _ = None"

fun bool_arg :: "(bool \<Rightarrow> 'a handler) \<Rightarrow> 'a handler" where
  "bool_arg f (V_bool b # vs) = f b vs"
| "bool_arg f _ = None"

definition mem_args :: "(mem_arg \<Rightarrow> 'a handler) \<Rightarrow> 'a handler" where
  "mem_args f = reg_arg (\<lambda>base. reg_arg (\<lambda>idx. addr_arg (\<lambda>a. nat_arg (\<lambda>n. addr_arg (\<lambda>disp. nat_arg (\<lambda>scale.
     f \<lparr>m_base = base, m_index = idx, m_addr = a, m_size = n, m_disp = disp, m_scale = of_nat scale\<rparr>))))))"

primrec call_compute :: "instr_env \<Rightarrow> xxh32 \<Rightarrow> compute_fun \<Rightarrow> pin_change handler" where
  "call_compute E X BBL = thread_arg (ctx_arg (\<lambda>ctx. no_more (instrumentBBL E ctx)))"
| "call_compute E X BinaryRegReg =
     thread_arg (ctx_arg (\<lambda>ctx. reg_arg (\<lambda>r1. reg_arg (\<lambda>r2. kind_arg (\<lambda>k.
       bool_arg (\<lambda>b. no_more (instrumentBinaryRegReg E ctx r1 r2 k b)))))))"
| "call_compute E X BinaryRegImm =
     thread_arg (ctx_arg (\<lambda>ctx. reg_arg (\<lambda>r. addr_arg (\<lambda>a. kind_arg (\<lambda>k.
       bool_arg (\<lambda>b. no_more (instrumentBinaryRegImm E ctx r a k b)))))))"
| "call_compute E X BinaryRegMem =
     thread_arg (ctx_arg (\<lambda>ctx. reg_arg (\<lambda>r. mem_args (\<lambda>m. kind_arg (\<lambda>k.
       bool_arg (\<lambda>b. no_more (instrumentBinaryRegMem E ctx r m k b)))))))"
| "call_compute E X BinaryMemReg =
     thread_arg (ctx_arg (\<lambda>ctx. mem_args (\<lambda>m. reg_arg (\<lambda>r. kind_arg (\<lambda>k.
       bool_arg (\<lambda>b. no_more (instrumentBinaryMemReg E ctx m r k b)))))))"
| "call_compute E X BinaryMemImm =
     thread_arg (ctx_arg (\<lambda>ctx. mem_args (\<lambda>m. addr_arg (\<lambda>a. kind_arg (\<lambda>k.
       bool_arg (\<lambda>b. no_more (instrumentBinaryMemImm E ctx m a k b)))))))"
| "call_compute E X CarryRegReg =
     thread_arg (ctx_arg (\<lambda>ctx. reg_arg (\<lambda>r1. reg_arg (\<lambda>r2. kind_arg (\<lambda>k.
       no_more (instrumentCarryRegReg E ctx r1 r2 k))))))"
| "call_compute E X CarryRegImm =
     thread_arg (ctx_arg (\<lambda>ctx. reg_arg (\<lambda>r. addr_arg (\<lambda>a. kind_arg (\<lambda>k.
       no_more (instrumentCarryRegImm E ctx r a k))))))"
| "call_compute E X CarryRegMem =
     thread_arg (ctx_arg (\<lambda>ctx. reg_arg (\<lambda>r. mem_args (\<lambda>m. kind_arg (\<lambda>k.
       no_more (instrumentCarryRegMem E ctx r m k))))))"
| "call_compute E X CarryMemReg =
     thread_arg (ctx_arg (\<lambda>ctx. mem_args (\<lambda>m. reg_arg (\<lambda>r. kind_arg (\<lambda>k.
       no_more (instrumentCarryMemReg E ctx m r k))))))"
| "call_compute E X CarryMemImm =
     thread_arg (ctx_arg (\<lambda>ctx. mem_args (\<lambda>m. addr_arg (\<lambda>a. kind_arg (\<lambda>k.
       no_more (instrumentCarryMemImm E ctx m a k))))))"
| "call_compute E X BsRegReg =
     thread_arg (ctx_arg (\<lambda>ctx. reg_arg (\<lambda>r1. reg_arg (\<lambda>r2. bool_arg (\<lambda>b.
       no_more (instrumentBsRegReg E ctx r1 r2 b))))))"
| "call_compute E X BsRegMem =
     thread_arg (ctx_arg (\<lambda>ctx. reg_arg (\<lambda>r. mem_args (\<lambda>m. bool_arg (\<lambda>b.
       no_more (instrumentBsRegMem E ctx r m b))))))"
| "call_compute E X BswapReg =
     thread_arg (ctx_arg (\<lambda>ctx. reg_arg (\<lambda>r. no_more (instrumentBswapReg E ctx r))))"
| "call_compute E X BtRegReg =
     thread_arg (ctx_arg (\<lambda>ctx. reg_arg (\<lambda>r1. reg_arg (\<lambda>r2. kind_arg (\<lambda>k.
       no_more (instrumentBtRegReg E ctx r1 r2 k))))))"
| "call_compute E X BtRegImm =
     thread_arg (ctx_arg (\<lambda>ctx. reg_arg (\<lambda>r. addr_arg (\<lambda>a. kind_arg (\<lambda>k.
       no_more (instrumentBtRegImm E ctx r a k))))))"
| "call_compute E X BtMemReg =
     thread_arg (ctx_arg (\<lambda>ctx. mem_args (\<lambda>m. reg_arg (\<lambda>r. kind_arg (\<lambda>k.
       no_more (instrumentBtMemReg E ctx m r k))))))"
| "call_compute E X BtMemImm =
     thread_arg (ctx_arg (\<lambda>ctx. mem_args (\<lambda>m. addr_arg (\<lambda>a. kind_arg (\<lambda>k.
       no_more (instrumentBtMemImm E ctx m a k))))))"
| "call_compute E X Call =
     thread_arg (ctx_arg (\<lambda>ctx. addr_arg (\<lambda>a. nat_arg (\<lambda>n. no_more (instrumentCall E ctx a n)))))"
| "call_compute E X Cbw =
     thread_arg (ctx_arg (\<lambda>ctx. reg_arg (\<lambda>r1. reg_arg (\<lambda>r2. no_more (instrumentCbw E ctx r1 r2)))))"
| "call_compute E X Cwd =
     thread_arg (ctx_arg (\<lambda>ctx. reg_arg (\<lambda>r1. reg_arg (\<lambda>r2. no_more (instrumentCwd E ctx r1 r2)))))"

primrec call_exchange :: "instr_env \<Rightarrow> xxh32 \<Rightarrow> exchange_fun \<Rightarrow> pin_change handler" where
  "call_exchange E X CmovRegReg =
     thread_arg (ctx_arg (\<lambda>ctx. bool_arg (\<lambda>b1. reg_arg (\<lambda>r1. reg_arg (\<lambda>r2.
       jcc_arg (\<lambda>j. bool_arg (\<lambda>b2. no_more (instrumentCmovRegReg E ctx b1 r1 r2 j b2))))))))"
| "call_exchange E X CmovRegMem =
     thread_arg (ctx_arg (\<lambda>ctx. bool_arg (\<lambda>b1. reg_arg (\<lambda>r. mem_args (\<lambda>m.
       jcc_arg (\<lambda>j. bool_arg (\<lambda>b2. no_more (instrumentCmovRegMem E ctx b1 r m j b2))))))))"
| "call_exchange E X Cmps =
     thread_arg (ctx_arg (\<lambda>ctx. addr_arg (\<lambda>a1. addr_arg (\<lambda>a2. nat_arg (\<lambda>n.
       no_more (instrumentCmps E ctx a1 a2 n))))))"
| "call_exchange E X CmpxchgRegReg =
     thread_arg (ctx_arg (\<lambda>ctx. reg_arg (\<lambda>r1. reg_arg (\<lambda>r2.
       no_more (instrumentCmpxchgRegReg E ctx r1 r2)))))"
| "call_exchange E X CmpxchgMemReg =
     thread_arg (ctx_arg (\<lambda>ctx. mem_args (\<lambda>m. reg_arg (\<lambda>r.
       no_more (instrumentCmpxchgMemReg E ctx m r)))))"
| "call_exchange E X Cpuid =
     thread_arg (ctx_arg (\<lambda>ctx. no_more (\<lambda>s. map_option snd (instrumentCpuid E ctx s))))"
| "call_exchange E X IncDecReg =
     thread_arg (ctx_arg (\<lambda>ctx. reg_arg (\<lambda>r. kind_arg (\<lambda>k.
       no_more (instrumentIncDecReg E ctx r k)))))"
| "call_exchange E X IncDecMem =
     thread_arg (ctx_arg (\<lambda>ctx. mem_args (\<lambda>m. kind_arg (\<lambda>k.
       no_more (instrumentIncDecMem E ctx m k)))))"
| "call_exchange E X DivReg =
     thread_arg (ctx_arg (\<lambda>ctx. reg_arg (\<lambda>r. bool_arg (\<lambda>b. no_more (instrumentDivReg E ctx r b)))))"
| "call_exchange E X DivMem =
     thread_arg (ctx_arg (\<lambda>ctx. mem_args (\<lambda>m. bool_arg (\<lambda>b. no_more (instrumentDivMem E ctx m b)))))"
| "call_exchange E X IMulReg =
     thread_arg (ctx_arg (\<lambda>ctx. reg_arg (\<lambda>r. no_more (instrumentIMulReg E ctx r))))"
| "call_exchange E X IMulMem =
     thread_arg (ctx_arg (\<lambda>ctx. mem_args (\<lambda>m. no_more (instrumentIMulMem E ctx m))))"
| "call_exchange E X IMulRegReg =
     thread_arg (ctx_arg (\<lambda>ctx. reg_arg (\<lambda>r1. reg_arg (\<lambda>r2.
       no_more (instrumentIMulRegReg E ctx r1 r2)))))"
| "call_exchange E X IMulRegMem =
     thread_arg (ctx_arg (\<lambda>ctx. reg_arg (\<lambda>r. mem_args (\<lambda>m.
       no_more (instrumentIMulRegMem E ctx r m)))))"
| "call_exchange E X IMulRegRegImm =
     thread_arg (ctx_arg (\<lambda>ctx. reg_arg (\<lambda>r1. reg_arg (\<lambda>r2. addr_arg (\<lambda>a.
       no_more (instrumentIMulRegRegImm E ctx r1 r2 a))))))"
| "call_exchange E X IMulRegMemImm =
     thread_arg (ctx_arg (\<lambda>ctx. reg_arg (\<lambda>r. mem_args (\<lambda>m. addr_arg (\<lambda>a.
       no_more (instrumentIMulRegMemImm E ctx r m a))))))"
| "call_exchange E X LeaRegMem =
     thread_arg (ctx_arg (\<lambda>ctx. reg_arg (\<lambda>r1. reg_arg (\<lambda>r2. reg_arg (\<lambda>r3.
       addr_arg (\<lambda>a. nat_arg (\<lambda>n. no_more (instrumentLeaRegMem E ctx r1 r2 r3 a (of_nat n)))))))))"

primrec call_move :: "instr_env \<Rightarrow> xxh32 \<Rightarrow> move_fun \<Rightarrow> pin_change handler" where
  "call_move E X MovRegReg =
     thread_arg (ctx_arg (\<lambda>ctx. reg_arg (\<lambda>r1. reg_arg (\<lambda>r2.
       no_more (instrumentMovRegReg E ctx r1 r2)))))"
| "call_move E X MovRegImm =
     thread_arg (ctx_arg (\<lambda>ctx. reg_arg (\<lambda>r. addr_arg (\<lambda>a. no_more (instrumentMovRegImm E r a)))))"
| "call_move E X MovRegMem =
     thread_arg (ctx_arg (\<lambda>ctx. reg_arg (\<lambda>r. mem_args (\<lambda>m.
       no_more (instrumentMovRegMem E ctx r m)))))"
| "call_move E X MovMemImm =
     thread_arg (ctx_arg (\<lambda>ctx. mem_args (\<lambda>m. addr_arg (\<lambda>a.
       no_more (instrumentMovMemImm E ctx m a)))))"
| "call_move E X MovMemReg =
     thread_arg (ctx_arg (\<lambda>ctx. mem_args (\<lambda>m. reg_arg (\<lambda>r.
       no_more (instrumentMovMemReg E ctx m r)))))"
| "call_move E X MovhRegMem =
     thread_arg (ctx_arg (\<lambda>ctx. reg_arg (\<lambda>r. mem_args (\<lambda>m.
       no_more (instrumentMovhRegMem E ctx r m)))))"
| "call_move E X MovhMemReg =
     thread_arg (ctx_arg (\<lambda>ctx. mem_args (\<lambda>m. reg_arg (\<lambda>r.
       no_more (instrumentMovhMemReg E ctx m r)))))"
| "call_move E X MovlzRegReg =
     thread_arg (ctx_arg (\<lambda>ctx. reg_arg (\<lambda>r1. reg_arg (\<lambda>r2. nat_arg (\<lambda>n.
       no_more (instrumentMovlzRegReg E ctx r1 r2 n))))))"
| "call_move E X MovlzRegMem =
     thread_arg (ctx_arg (\<lambda>ctx. reg_arg (\<lambda>r. mem_args (\<lambda>m. nat_arg (\<lambda>n.
       no_more (instrumentMovlzRegMem E ctx r m n))))))"
| "call_move E X MovlzMemReg =
     thread_arg (ctx_arg (\<lambda>ctx. mem_args (\<lambda>m. reg_arg (\<lambda>r. nat_arg (\<lambda>n.
       no_more (instrumentMovlzMemReg E ctx m r n))))))"
| "call_move E X Movs =
     thread_arg (ctx_arg (\<lambda>ctx. addr_arg (\<lambda>a1. addr_arg (\<lambda>a2. nat_arg (\<lambda>n.
       no_more (instrumentMovs E ctx a1 a2 n))))))"
| "call_move E X MovsxRegMem =
     thread_arg (ctx_arg (\<lambda>ctx. reg_arg (\<lambda>r. mem_args (\<lambda>m.
       no_more (instrumentMovsxRegMem E ctx r m)))))"
| "call_move E X MovsxRegReg =
     thread_arg (ctx_arg (\<lambda>ctx. reg_arg (\<lambda>r1. reg_arg (\<lambda>r2.
       no_more (instrumentMovsxRegReg E ctx r1 r2)))))"
| "call_move E X MovzxRegMem =
     thread_arg (ctx_arg (\<lambda>ctx. reg_arg (\<lambda>r. mem_args (\<lambda>m.
       no_more (instrumentMovzxRegMem E ctx r m)))))"
| "call_move E X MovzxRegReg =
     thread_arg (ctx_arg (\<lambda>ctx. reg_arg (\<lambda>r1. reg_arg (\<lambda>r2.
       no_more (instrumentMovzxRegReg E ctx r1 r2)))))"
| "call_move E X MulReg =
     thread_arg (ctx_arg (\<lambda>ctx. reg_arg (\<lambda>r1. reg_arg (\<lambda>r2. reg_arg (\<lambda>r3.
       no_more (instrumentMulReg E ctx r1 r2 r3))))))"
| "call_move E X MulMem =
     thread_arg (ctx_arg (\<lambda>ctx. mem_args (\<lambda>m. reg_arg (\<lambda>r1. reg_arg (\<lambda>r2.
       no_more (instrumentMulMem E ctx m r1 r2))))))"
| "call_move E X NegNotReg =
     thread_arg (ctx_arg (\<lambda>ctx. reg_arg (\<lambda>r. kind_arg (\<lambda>k.
       no_more (instrumentNegNotReg E ctx r k)))))"
| "call_move E X NegNotMem =
     thread_arg (ctx_arg (\<lambda>ctx. mem_args (\<lambda>m. kind_arg (\<lambda>k.
       no_more (instrumentNegNotMem E ctx m k)))))"
| "call_move E X Jcc =
     thread_arg (ctx_arg (\<lambda>ctx. bool_arg (\<lambda>b1. addr_arg (\<lambda>a. jcc_arg (\<lambda>j.
       bool_arg (\<lambda>b2. no_more (instrumentJcc E ctx b1 a j b2)))))))"
| "call_move E X JmpReg =
     thread_arg (ctx_arg (\<lambda>ctx. reg_arg (\<lambda>r. no_more (instrumentJmpReg E ctx r))))"
| "call_move E X JmpMem =
     thread_arg (ctx_arg (\<lambda>ctx. mem_args (\<lambda>m. no_more (instrumentJmpMem E ctx m))))"

primrec call_packed :: "instr_env \<Rightarrow> xxh32 \<Rightarrow> packed_fun \<Rightarrow> pin_change handler" where
  "call_packed E X PackRegReg =
     thread_arg (ctx_arg (\<lambda>ctx. reg_arg (\<lambda>r1. reg_arg (\<lambda>r2. nat_arg (\<lambda>n.
       bool_arg (\<lambda>b. no_more (instrumentPackRegReg E ctx r1 r2 n b)))))))"
| "call_packed E X PackRegMem =
     thread_arg (ctx_arg (\<lambda>ctx. reg_arg (\<lambda>r. mem_args (\<lambda>m. nat_arg (\<lambda>n.
       bool_arg (\<lambda>b. no_more (instrumentPackRegMem E ctx r m n b)))))))"
| "call_packed E X PalignrReg =
     thread_arg (ctx_arg (\<lambda>ctx. reg_arg (\<lambda>r1. reg_arg (\<lambda>r2. addr_arg (\<lambda>a.
       no_more (instrumentPalignrReg E ctx r1 r2 a))))))"
| "call_packed E X PalignrMem =
     thread_arg (ctx_arg (\<lambda>ctx. reg_arg (\<lambda>r. mem_args (\<lambda>m. addr_arg (\<lambda>a.
       no_more (instrumentPalignrMem E ctx r m a))))))"
| "call_packed E X PcmpRegReg =
     thread_arg (ctx_arg (\<lambda>ctx. reg_arg (\<lambda>r1. reg_arg (\<lambda>r2. kind_arg (\<lambda>k.
       nat_arg (\<lambda>n. no_more (instrumentPcmpRegReg E ctx r1 r2 k n)))))))"
| "call_packed E X PcmpRegMem =
     thread_arg (ctx_arg (\<lambda>ctx. reg_arg (\<lambda>r. mem_args (\<lambda>m. kind_arg (\<lambda>k.
       nat_arg (\<lambda>n. no_more (instrumentPcmpRegMem E ctx r m k n)))))))"
| "call_packed E X PextrRegRegImm =
     thread_arg (ctx_arg (\<lambda>ctx. reg_arg (\<lambda>r1. reg_arg (\<lambda>r2. addr_arg (\<lambda>a.
       nat_arg (\<lambda>n. no_more (instrumentPextrRegRegImm E ctx r1 r2 a n)))))))"
| "call_packed E X PextrMemRegImm =
     thread_arg (ctx_arg (\<lambda>ctx. mem_args (\<lambda>m. reg_arg (\<lambda>r. addr_arg (\<lambda>a.
       nat_arg (\<lambda>n. no_more (instrumentPextrMemRegImm E ctx m r a n)))))))"
| "call_packed E X PmaddwdRegReg =
     thread_arg (ctx_arg (\<lambda>ctx. reg_arg (\<lambda>r1. reg_arg (\<lambda>r2.
       no_more (instrumentPmaddwdRegReg E ctx r1 r2)))))"
| "call_packed E X PmaddwdRegMem =
     thread_arg (ctx_arg (\<lambda>ctx. reg_arg (\<lambda>r. mem_args (\<lambda>m.
       no_more (instrumentPmaddwdRegMem E ctx r m)))))"
| "call_packed E X PmulRegReg =
     thread_arg (ctx_arg (\<lambda>ctx. reg_arg (\<lambda>r1. reg_arg (\<lambda>r2. nat_arg (\<lambda>n.
       no_more (instrumentPmulRegReg E ctx r1 r2 n))))))"
| "call_packed E X PmulRegMem =
     thread_arg (ctx_arg (\<lambda>ctx. reg_arg (\<lambda>r. mem_args (\<lambda>m. nat_arg (\<lambda>n.
       no_more (instrumentPmulRegMem E ctx r m n))))))"
| "call_packed E X PmulhwRegReg =
     thread_arg (ctx_arg (\<lambda>ctx. reg_arg (\<lambda>r1. reg_arg (\<lambda>r2. bool_arg (\<lambda>b.
       no_more (instrumentPmulhwRegReg E ctx r1 r2 b))))))"
| "call_packed E X PmulhwRegMem =
     thread_arg (ctx_arg (\<lambda>ctx. reg_arg (\<lambda>r. mem_args (\<lambda>m. bool_arg (\<lambda>b.
       no_more (instrumentPmulhwRegMem E ctx r m b))))))"
| "call_packed E X PcmpxchgRegReg =
     thread_arg (ctx_arg (\<lambda>ctx. reg_arg (\<lambda>r1. reg_arg (\<lambda>r2. kind_arg (\<lambda>k.
       nat_arg (\<lambda>n. no_more (instrumentPcmpxchgRegReg E ctx r1 r2 k n)))))))"
| "call_packed E X PcmpxchgRegMem =
     thread_arg (ctx_arg (\<lambda>ctx. reg_arg (\<lambda>r. mem_args (\<lambda>m. kind_arg (\<lambda>k.
       nat_arg (\<lambda>n. no_more (instrumentPcmpxchgRegMem E ctx r m k n)))))))"
| "call_packed E X Pmovmskb =
     thread_arg (ctx_arg (\<lambda>ctx. reg_arg (\<lambda>r1. reg_arg (\<lambda>r2.
       no_more (instrumentPmovmskb E ctx r1 r2)))))"
| "call_packed E X PshufRegRegImm =
     thread_arg (ctx_arg (\<lambda>ctx. reg_arg (\<lambda>r1. reg_arg (\<lambda>r2. addr_arg (\<lambda>a.
       nat_arg (\<lambda>n. no_more (instrumentPshufRegRegImm E ctx r1 r2 a n)))))))"
| "call_packed E X PshufRegMemImm =
     thread_arg (ctx_arg (\<lambda>ctx. reg_arg (\<lambda>r. mem_args (\<lambda>m. addr_arg (\<lambda>a.
       nat_arg (\<lambda>n. no_more (instrumentPshufRegMemImm E ctx r m a n)))))))"

primrec call_shuffle :: "instr_env \<Rightarrow> xxh32 \<Rightarrow> shuffle_fun \<Rightarrow> pin_change handler" where
  "call_shuffle E X PshufbRegReg =
     thread_arg (ctx_arg (\<lambda>ctx. reg_arg (\<lambda>r1. reg_arg (\<lambda>r2.
       no_more (instrumentPshufbRegReg E ctx r1 r2)))))"
| "call_shuffle E X PshufbRegMem =
     thread_arg (ctx_arg (\<lambda>ctx. reg_arg (\<lambda>r. mem_args (\<lambda>m.
       no_more (instrumentPshufbRegMem E ctx r m)))))"
| "call_shuffle E X PshufwRegRegImm =
     thread_arg (ctx_arg (\<lambda>ctx. reg_arg (\<lambda>r1. reg_arg (\<lambda>r2. addr_arg (\<lambda>a.
       bool_arg (\<lambda>b. no_more (instrumentPshufwRegRegImm E ctx r1 r2 a b)))))))"
| "call_shuffle E X PshufwRegMemImm =
     thread_arg (ctx_arg (\<lambda>ctx. reg_arg (\<lambda>r. mem_args (\<lambda>m. addr_arg (\<lambda>a.
       bool_arg (\<lambda>b. no_more (instrumentPshufwRegMemImm E ctx r m a b)))))))"
| "call_shuffle E X PshiftRegReg =
     thread_arg (ctx_arg (\<lambda>ctx. reg_arg (\<lambda>r1. reg_arg (\<lambda>r2. kind_arg (\<lambda>k.
       nat_arg (\<lambda>n. no_more (instrumentPshiftRegReg E ctx r1 r2 k n)))))))"
| "call_shuffle E X PshiftRegImm =
     thread_arg (ctx_arg (\<lambda>ctx. reg_arg (\<lambda>r. addr_arg (\<lambda>a. kind_arg (\<lambda>k.
       nat_arg (\<lambda>n. no_more (instrumentPshiftRegImm E ctx r a k n)))))))"
| "call_shuffle E X PshiftRegMem =
     thread_arg (ctx_arg (\<lambda>ctx. reg_arg (\<lambda>r. mem_args (\<lambda>m. kind_arg (\<lambda>k.
       nat_arg (\<lambda>n. no_more (instrumentPshiftRegMem E ctx r m k n)))))))"
| "call_shuffle E X ParithRegReg =
     thread_arg (ctx_arg (\<lambda>ctx. reg_arg (\<lambda>r1. reg_arg (\<lambda>r2. kind_arg (\<lambda>k.
       nat_arg (\<lambda>n. no_more (instrumentParithRegReg E ctx r1 r2 k n)))))))"
| "call_shuffle E X ParithRegMem =
     thread_arg (ctx_arg (\<lambda>ctx. reg_arg (\<lambda>r. mem_args (\<lambda>m. kind_arg (\<lambda>k.
       nat_arg (\<lambda>n. no_more (instrumentParithRegMem E ctx r m k n)))))))"
| "call_shuffle E X PopReg =
     thread_arg (ctx_arg (\<lambda>ctx. reg_arg (\<lambda>r. addr_arg (\<lambda>a. nat_arg (\<lambda>n.
       no_more (instrumentPopReg E ctx r a n))))))"
| "call_shuffle E X PopMem =
     thread_arg (ctx_arg (\<lambda>ctx. mem_args (\<lambda>m. addr_arg (\<lambda>a. no_more (instrumentPopMem E ctx m a)))))"
| "call_shuffle E X PunpckhRegReg =
     thread_arg (ctx_arg (\<lambda>ctx. reg_arg (\<lambda>r1. reg_arg (\<lambda>r2. nat_arg (\<lambda>n.
       no_more (instrumentPunpckhRegReg E ctx r1 r2 n))))))"
| "call_shuffle E X PunpckhRegMem =
     thread_arg (ctx_arg (\<lambda>ctx. reg_arg (\<lambda>r. mem_args (\<lambda>m. nat_arg (\<lambda>n.
       no_more (instrumentPunpckhRegMem E ctx r m n))))))"
| "call_shuffle E X PunpcklRegReg =
     thread_arg (ctx_arg (\<lambda>ctx. reg_arg (\<lambda>r1. reg_arg (\<lambda>r2. nat_arg (\<lambda>n.
       no_more (instrumentPunpcklRegReg E ctx r1 r2 n))))))"
| "call_shuffle E X PunpcklRegMem =
     thread_arg (ctx_arg (\<lambda>ctx. reg_arg (\<lambda>r. mem_args (\<lambda>m. nat_arg (\<lambda>n.
       no_more (instrumentPunpcklRegMem E ctx r m n))))))"
| "call_shuffle E X PushReg =
     thread_arg (ctx_arg (\<lambda>ctx. addr_arg (\<lambda>a. nat_arg (\<lambda>n. reg_arg (\<lambda>r.
       no_more (instrumentPushReg E ctx a n r))))))"
| "call_shuffle E X PushImm =
     thread_arg (ctx_arg (\<lambda>ctx. addr_arg (\<lambda>a. nat_arg (\<lambda>n. no_more (instrumentPushImm E ctx a n)))))"
| "call_shuffle E X PushMem =
     thread_arg (ctx_arg (\<lambda>ctx. addr_arg (\<lambda>a. mem_args (\<lambda>m.
       no_more (instrumentPushMem E ctx a m)))))"

primrec call_shift :: "instr_env \<Rightarrow> xxh32 \<Rightarrow> shift_fun \<Rightarrow> pin_change handler" where
  "call_shift E X Rdtsc = thread_arg (no_more (instrumentRdtsc E))"
| "call_shift E X Rdtscp = thread_arg (no_more (instrumentRdtscp E))"
| "call_shift E X Scas =
     thread_arg (ctx_arg (\<lambda>ctx. addr_arg (\<lambda>a. nat_arg (\<lambda>n. no_more (instrumentScas E ctx a n)))))"
| "call_shift E X SetReg =
     thread_arg (ctx_arg (\<lambda>ctx. reg_arg (\<lambda>r. jcc_arg (\<lambda>j. bool_arg (\<lambda>b.
       no_more (instrumentSetReg E ctx r j b))))))"
| "call_shift E X SetMem =
     thread_arg (ctx_arg (\<lambda>ctx. mem_args (\<lambda>m. jcc_arg (\<lambda>j. bool_arg (\<lambda>b.
       no_more (instrumentSetMem E ctx m j b))))))"
| "call_shift E X ShiftRegImm =
     thread_arg (ctx_arg (\<lambda>ctx. reg_arg (\<lambda>r. addr_arg (\<lambda>a. kind_arg (\<lambda>k.
       no_more (instrumentShiftRegImm E ctx r a k))))))"
| "call_shift E X ShiftRegCl =
     thread_arg (ctx_arg (\<lambda>ctx. reg_arg (\<lambda>r. kind_arg (\<lambda>k.
       no_more (instrumentShiftRegCl E ctx r k)))))"
| "call_shift E X ShiftMemImm =
     thread_arg (ctx_arg (\<lambda>ctx. mem_args (\<lambda>m. addr_arg (\<lambda>a. kind_arg (\<lambda>k.
       no_more (instrumentShiftMemImm E ctx m a k))))))"
| "call_shift E X ShiftMemCl =
     thread_arg (ctx_arg (\<lambda>ctx. mem_args (\<lambda>m. kind_arg (\<lambda>k.
       no_more (instrumentShiftMemCl E ctx m k)))))"
| "call_shift E X ShiftdRegRegImm =
     thread_arg (ctx_arg (\<lambda>ctx. reg_arg (\<lambda>r1. reg_arg (\<lambda>r2. addr_arg (\<lambda>a.
       kind_arg (\<lambda>k. no_more (instrumentShiftdRegRegImm E ctx r1 r2 a k)))))))"
| "call_shift E X ShiftdRegRegCl =
     thread_arg (ctx_arg (\<lambda>ctx. reg_arg (\<lambda>r1. reg_arg (\<lambda>r2. kind_arg (\<lambda>k.
       no_more (instrumentShiftdRegRegCl E ctx r1 r2 k))))))"
| "call_shift E X ShiftdMemRegImm =
     thread_arg (ctx_arg (\<lambda>ctx. mem_args (\<lambda>m. reg_arg (\<lambda>r. addr_arg (\<lambda>a.
       kind_arg (\<lambda>k. no_more (instrumentShiftdMemRegImm E ctx m r a k)))))))"
| "call_shift E X ShiftdMemRegCl =
     thread_arg (ctx_arg (\<lambda>ctx. mem_args (\<lambda>m. reg_arg (\<lambda>r. kind_arg (\<lambda>k.
       no_more (instrumentShiftdMemRegCl E ctx m r k))))))"
| "call_shift E X Stos =
     thread_arg (ctx_arg (\<lambda>ctx. addr_arg (\<lambda>a. reg_arg (\<lambda>r. no_more (instrumentStos E ctx a r)))))"
| "call_shift E X XaddRegReg =
     thread_arg (ctx_arg (\<lambda>ctx. reg_arg (\<lambda>r1. reg_arg (\<lambda>r2.
       no_more (instrumentXaddRegReg E ctx r1 r2)))))"
| "call_shift E X XaddMemReg =
     thread_arg (ctx_arg (\<lambda>ctx. mem_args (\<lambda>m. reg_arg (\<lambda>r.
       no_more (instrumentXaddMemReg E ctx m r)))))"
| "call_shift E X XchgRegReg =
     thread_arg (ctx_arg (\<lambda>ctx. reg_arg (\<lambda>r1. reg_arg (\<lambda>r2.
       no_more (instrumentXchgRegReg E ctx r1 r2)))))"
| "call_shift E X XchgRegMem =
     thread_arg (ctx_arg (\<lambda>ctx. reg_arg (\<lambda>r. mem_args (\<lambda>m.
       no_more (instrumentXchgRegMem E ctx r m)))))"
| "call_shift E X XchgMemReg =
     thread_arg (ctx_arg (\<lambda>ctx. mem_args (\<lambda>m. reg_arg (\<lambda>r.
       no_more (instrumentXchgMemReg E ctx m r)))))"
| "call_shift E X ConcretizeReg =
     thread_arg (ctx_arg (\<lambda>ctx. reg_arg (\<lambda>r. no_more (instrumentConcretizeReg E ctx r))))"
| "call_shift E X ConcretizeMem =
     ctx_arg (\<lambda>ctx. addr_arg (\<lambda>a. nat_arg (\<lambda>n. no_more (instrumentConcretizeMem E ctx a n))))"
| "call_shift E X ConcretizeEflags = thread_arg (ctx_arg (\<lambda>ctx. no_more instrumentConcretizeEflags))"
| "call_shift E X ClrReg =
     thread_arg (ctx_arg (\<lambda>ctx. reg_arg (\<lambda>r. no_more (instrumentClrReg E r))))"
| "call_shift E X ClrMem = addr_arg (\<lambda>a. nat_arg (\<lambda>n. no_more (instrumentClrMem a n)))"

primrec call_vex :: "instr_env \<Rightarrow> xxh32 \<Rightarrow> vex_fun \<Rightarrow> pin_change handler" where
  "call_vex E X TernaryRegRegReg =
     thread_arg (ctx_arg (\<lambda>ctx. reg_arg (\<lambda>r1. reg_arg (\<lambda>r2. reg_arg (\<lambda>r3.
       kind_arg (\<lambda>k. no_more (instrumentTernaryRegRegReg E ctx r1 r2 r3 k)))))))"
| "call_vex E X TernaryRegRegMem =
     thread_arg (ctx_arg (\<lambda>ctx. reg_arg (\<lambda>r1. reg_arg (\<lambda>r2. mem_args (\<lambda>m.
       kind_arg (\<lambda>k. no_more (instrumentTernaryRegRegMem E ctx r1 r2 m k)))))))"
| "call_vex E X VmovlRegRegMem =
     thread_arg (ctx_arg (\<lambda>ctx. reg_arg (\<lambda>r1. reg_arg (\<lambda>r2. mem_args (\<lambda>m.
       no_more (instrumentVmovlRegRegMem E ctx r1 r2 m))))))"
| "call_vex E X VparithRegRegReg =
     thread_arg (ctx_arg (\<lambda>ctx. reg_arg (\<lambda>r1. reg_arg (\<lambda>r2. reg_arg (\<lambda>r3.
       kind_arg (\<lambda>k. nat_arg (\<lambda>n. no_more (instrumentVparithRegRegReg E ctx r1 r2 r3 k n))))))))"
| "call_vex E X VparithRegRegMem =
     thread_arg (ctx_arg (\<lambda>ctx. reg_arg (\<lambda>r1. reg_arg (\<lambda>r2. mem_args (\<lambda>m.
       kind_arg (\<lambda>k. nat_arg (\<lambda>n. no_more (instrumentVparithRegRegMem E ctx r1 r2 m k n))))))))"
| "call_vex E X VpcmpRegRegReg =
     thread_arg (ctx_arg (\<lambda>ctx. reg_arg (\<lambda>r1. reg_arg (\<lambda>r2. reg_arg (\<lambda>r3.
       kind_arg (\<lambda>k. nat_arg (\<lambda>n. no_more (instrumentVpcmpRegRegReg E ctx r1 r2 r3 k n))))))))"
| "call_vex E X VpcmpRegRegMem =
     thread_arg (ctx_arg (\<lambda>ctx. reg_arg (\<lambda>r1. reg_arg (\<lambda>r2. mem_args (\<lambda>m.
       kind_arg (\<lambda>k. nat_arg (\<lambda>n. no_more (instrumentVpcmpRegRegMem E ctx r1 r2 m k n))))))))"
| "call_vex E X Vinsert128iRegRegRegImm =
     thread_arg (ctx_arg (\<lambda>ctx. reg_arg (\<lambda>r1. reg_arg (\<lambda>r2. reg_arg (\<lambda>r3.
       addr_arg (\<lambda>a. no_more (instrumentVinsert128iRegRegRegImm E ctx r1 r2 r3 a)))))))"
| "call_vex E X Vinsert128iRegRegMemImm =
     thread_arg (ctx_arg (\<lambda>ctx. reg_arg (\<lambda>r1. reg_arg (\<lambda>r2. mem_args (\<lambda>m.
       addr_arg (\<lambda>a. no_more (instrumentVinsert128iRegRegMemImm E ctx r1 r2 m a)))))))"
| "call_vex E X VpmaddwdRegRegReg =
     thread_arg (ctx_arg (\<lambda>ctx. reg_arg (\<lambda>r1. reg_arg (\<lambda>r2. reg_arg (\<lambda>r3.
       no_more (instrumentVpmaddwdRegRegReg E ctx r1 r2 r3))))))"
| "call_vex E X VpmaddwdRegRegMem =
     thread_arg (ctx_arg (\<lambda>ctx. reg_arg (\<lambda>r1. reg_arg (\<lambda>r2. mem_args (\<lambda>m.
       no_more (instrumentVpmaddwdRegRegMem E ctx r1 r2 m))))))"
| "call_vex E X VpcmpxchgRegRegReg =
     thread_arg (ctx_arg (\<lambda>ctx. reg_arg (\<lambda>r1. reg_arg (\<lambda>r2. reg_arg (\<lambda>r3.
       kind_arg (\<lambda>k. nat_arg (\<lambda>n. no_more (instrumentVpcmpxchgRegRegReg E ctx r1 r2 r3 k n))))))))"
| "call_vex E X VpcmpxchgRegRegMem =
     thread_arg (ctx_arg (\<lambda>ctx. reg_arg (\<lambda>r1. reg_arg (\<lambda>r2. mem_args (\<lambda>m.
       kind_arg (\<lambda>k. nat_arg (\<lambda>n. no_more (instrumentVpcmpxchgRegRegMem E ctx r1 r2 m k n))))))))"
| "call_vex E X VpmulhwRegRegReg =
     thread_arg (ctx_arg (\<lambda>ctx. reg_arg (\<lambda>r1. reg_arg (\<lambda>r2. reg_arg (\<lambda>r3.
       bool_arg (\<lambda>b. no_more (instrumentVpmulhwRegRegReg E ctx r1 r2 r3 b)))))))"
| "call_vex E X VpmulhwRegRegMem =
     thread_arg (ctx_arg (\<lambda>ctx. reg_arg (\<lambda>r1. reg_arg (\<lambda>r2. mem_args (\<lambda>m.
       bool_arg (\<lambda>b. no_more (instrumentVpmulhwRegRegMem E ctx r1 r2 m b)))))))"

primrec call_ymm :: "instr_env \<Rightarrow> xxh32 \<Rightarrow> ymm_fun \<Rightarrow> pin_change handler" where
  "call_ymm E X VpmulRegRegReg =
     thread_arg (ctx_arg (\<lambda>ctx. reg_arg (\<lambda>r1. reg_arg (\<lambda>r2. reg_arg (\<lambda>r3.
       nat_arg (\<lambda>n. no_more (instrumentVpmulRegRegReg E ctx r1 r2 r3 n)))))))"
| "call_ymm E X VpmulRegRegMem =
     thread_arg (ctx_arg (\<lambda>ctx. reg_arg (\<lambda>r1. reg_arg (\<lambda>r2. mem_args (\<lambda>m.
       nat_arg (\<lambda>n. no_more (instrumentVpmulRegRegMem E ctx r1 r2 m n)))))))"
| "call_ymm E X VpshufbRegRegReg =
     thread_arg (ctx_arg (\<lambda>ctx. reg_arg (\<lambda>r1. reg_arg (\<lambda>r2. reg_arg (\<lambda>r3.
       no_more (instrumentVpshufbRegRegReg E ctx r1 r2 r3))))))"
| "call_ymm E X VpshufbRegRegMem =
     thread_arg (ctx_arg (\<lambda>ctx. reg_arg (\<lambda>r1. reg_arg (\<lambda>r2. mem_args (\<lambda>m.
       no_more (instrumentVpshufbRegRegMem E ctx r1 r2 m))))))"
| "call_ymm E X VpshiftRegRegReg =
     thread_arg (ctx_arg (\<lambda>ctx. reg_arg (\<lambda>r1. reg_arg (\<lambda>r2. reg_arg (\<lambda>r3.
       kind_arg (\<lambda>k. nat_arg (\<lambda>n. no_more (instrumentVpshiftRegRegReg E ctx r1 r2 r3 k n))))))))"
| "call_ymm E X VpshiftRegRegImm =
     thread_arg (ctx_arg (\<lambda>ctx. reg_arg (\<lambda>r1. reg_arg (\<lambda>r2. addr_arg (\<lambda>a.
       kind_arg (\<lambda>k. nat_arg (\<lambda>n. no_more (instrumentVpshiftRegRegImm E ctx r1 r2 a k n))))))))"
| "call_ymm E X VpshiftRegRegMem =
     thread_arg (ctx_arg (\<lambda>ctx. reg_arg (\<lambda>r1. reg_arg (\<lambda>r2. mem_args (\<lambda>m.
       kind_arg (\<lambda>k. nat_arg (\<lambda>n. no_more (instrumentVpshiftRegRegMem E ctx r1 r2 m k n))))))))"
| "call_ymm E X VpackRegRegReg =
     thread_arg (ctx_arg (\<lambda>ctx. reg_arg (\<lambda>r1. reg_arg (\<lambda>r2. reg_arg (\<lambda>r3.
       nat_arg (\<lambda>n. bool_arg (\<lambda>b. no_more (instrumentVpackRegRegReg E ctx r1 r2 r3 n b))))))))"
| "call_ymm E X VpackRegRegMem =
     thread_arg (ctx_arg (\<lambda>ctx. reg_arg (\<lambda>r1. reg_arg (\<lambda>r2. mem_args (\<lambda>m.
       nat_arg (\<lambda>n. bool_arg (\<lambda>b. no_more (instrumentVpackRegRegMem E ctx r1 r2 m n b))))))))"
| "call_ymm E X CallAfter =
     thread_arg (ctx_arg (\<lambda>ctx. addr_arg (\<lambda>a. no_more (instrumentCallAfter X a))))"
| "call_ymm E X Ret = thread_arg (ctx_arg (\<lambda>ctx. addr_arg (\<lambda>a. no_more (instrumentRet X a))))"

primrec call_fun :: "instr_env \<Rightarrow> xxh32 \<Rightarrow> analysis_fun \<Rightarrow> pin_change handler" where
  "call_fun E X (Compute f) = call_compute E X f"
| "call_fun E X (Exchange f) = call_exchange E X f"
| "call_fun E X (Move f) = call_move E X f"
| "call_fun E X (Packed f) = call_packed E X f"
| "call_fun E X (Shuffle f) = call_shuffle E X f"
| "call_fun E X (Shift f) = call_shift E X f"
| "call_fun E X (Vex f) = call_vex E X f"
| "call_fun E X (Ymm f) = call_ymm E X f"

definition run_call :: "instr_env \<Rightarrow> xxh32 \<Rightarrow> runtime \<Rightarrow> call \<Rightarrow> pin_change" where
  "run_call E X rt c s =
     (if c_predicated c \<and> \<not> rt_executing rt \<or> c_point c = IPOINT_TAKEN_BRANCH \<and> \<not> rt_taken rt then Some s
      else do { f \<leftarrow> call_fun E X (c_fun c) (map (eval_arg rt) (c_args c)); f s })"

fun run_calls :: "instr_env \<Rightarrow> xxh32 \<Rightarrow> runtime \<Rightarrow> call list \<Rightarrow> pin_change" where
  "run_calls E X rt [] s = Some s"
| "run_calls E X rt (c # cs) s = do { s \<leftarrow> run_call E X rt c s; run_calls E X rt cs s }"

text \<open>An instruction: its calls are inserted, and those before it run before the others.\<close>

definition run_ins :: "named_regs \<Rightarrow> instr_env \<Rightarrow> xxh32 \<Rightarrow> runtime \<Rightarrow> ins \<Rightarrow> pin_change" where
  "run_ins N E X rt i s = do {
     cs \<leftarrow> analyzeInstruction N (pin E) i;
     s \<leftarrow> run_calls E X rt (filter (\<lambda>c. c_point c = IPOINT_BEFORE) cs) s;
     run_calls E X rt (filter (\<lambda>c. c_point c \<noteq> IPOINT_BEFORE) cs) s }"

end
