(* ===== verification/DispatchSound.thy ===== *)
theory DispatchSound
  imports DispatchRun
begin

section \<open>The dispatch is well typed\<close>

text \<open>
  Pin passes the arguments of an inserted call as they come, with no check that the handler has
  parameters for them. Here: every call that \<open>analyzeInstruction\<close> inserts, for any instruction at
  all, has the arguments that its handler declares, so that running it reaches the handler; the
  one exception is the call of \<open>instrumentCall\<close>, which gets an argument too many. And: what is
  inserted for the instructions that have no function of their own.
\<close>

subsection \<open>A handler takes what its parameters accept\<close>

definition takes :: "param list \<Rightarrow> 'a handler \<Rightarrow> bool" where
  "takes ps f \<longleftrightarrow> (\<forall>rt as bs. list_all2 accepts ps as \<longrightarrow> f (map (eval_arg rt) as @ bs) \<noteq> None)"

lemma takes_no_more: "takes [] (no_more x)"
  by (simp add: takes_def no_more_def)

lemma takes_thread: "takes ps f \<Longrightarrow> takes (P_ThreadContext # ps) (thread_arg f)"
  by (auto simp: takes_def list_all2_Cons1)

lemma takes_ctx: "(\<And>x. takes ps (f x)) \<Longrightarrow> takes (P_CONTEXT # ps) (ctx_arg f)"
  by (auto simp: takes_def list_all2_Cons1)

lemma takes_reg: "(\<And>x. takes ps (f x)) \<Longrightarrow> takes (P_REG # ps) (reg_arg f)"
  by (auto simp: takes_def list_all2_Cons1)

lemma takes_addr: "(\<And>x. takes ps (f x)) \<Longrightarrow> takes (P_ADDRINT # ps) (addr_arg f)"
  by (auto simp: takes_def list_all2_Cons1)

lemma takes_nat: "(\<And>x. takes ps (f x)) \<Longrightarrow> takes (P_UINT # ps) (nat_arg f)"
  by (auto simp: takes_def list_all2_Cons1)

lemma takes_kind: "(\<And>x. takes ps (f x)) \<Longrightarrow> takes (P_Kind # ps) (kind_arg f)"
  by (auto simp: takes_def list_all2_Cons1)

lemma takes_jcc: "(\<And>x. takes ps (f x)) \<Longrightarrow> takes (P_JccKind # ps) (jcc_arg f)"
  by (auto simp: takes_def list_all2_Cons1)

lemma takes_bool: "(\<And>x. takes ps (f x)) \<Longrightarrow> takes (P_bool # ps) (bool_arg f)"
  by (auto simp: takes_def list_all2_Cons1)

lemma takes_mem:
  "(\<And>x. takes ps (f x)) \<Longrightarrow> takes (P_REG # P_REG # P_ADDRINT # P_UINT # P_ADDRINT # P_UINT # ps) (mem_args f)"
  unfolding mem_args_def by (intro takes_reg takes_addr takes_nat)

lemmas takes_rules = takes_no_more takes_thread takes_ctx takes_mem takes_addr takes_nat takes_kind takes_jcc takes_bool

lemma call_compute_takes: "takes (compute_parameters f) (call_compute E X f)"
  by (cases f) (simp_all add: CPU_CONTEXT_def MEM_ARG_def takes_rules takes_reg)

lemma call_exchange_takes: "takes (exchange_parameters f) (call_exchange E X f)"
  by (cases f) (simp_all add: CPU_CONTEXT_def MEM_ARG_def takes_rules takes_reg)

lemma call_move_takes: "takes (move_parameters f) (call_move E X f)"
  by (cases f) (simp_all add: CPU_CONTEXT_def MEM_ARG_def takes_rules takes_reg)

lemma call_packed_takes: "takes (packed_parameters f) (call_packed E X f)"
  by (cases f) (simp_all add: CPU_CONTEXT_def MEM_ARG_def takes_rules takes_reg)

lemma call_shuffle_takes: "takes (shuffle_parameters f) (call_shuffle E X f)"
  by (cases f) (simp_all add: CPU_CONTEXT_def MEM_ARG_def takes_rules takes_reg)

lemma call_shift_takes: "takes (shift_parameters f) (call_shift E X f)"
  by (cases f) (simp_all add: CPU_CONTEXT_def MEM_ARG_def takes_rules takes_reg)

lemma call_vex_takes: "takes (vex_parameters f) (call_vex E X f)"
  by (cases f) (simp_all add: CPU_CONTEXT_def MEM_ARG_def takes_rules takes_reg)

lemma call_ymm_takes: "takes (ymm_parameters f) (call_ymm E X f)"
  by (cases f) (simp_all add: CPU_CONTEXT_def MEM_ARG_def takes_rules takes_reg)

lemma call_fun_takes: "takes (parameters f) (call_fun E X f)"
  by (cases f) (simp_all add: call_compute_takes call_exchange_takes call_move_takes call_packed_takes
      call_shuffle_takes call_shift_takes call_vex_takes call_ymm_takes)

subsection \<open>The calls that are inserted\<close>

text \<open>
  \<open>fits c\<close>: the handler's parameters accept the arguments; only \<open>instrumentCall\<close> is passed one more.
\<close>

definition fits :: "call \<Rightarrow> bool" where
  "fits c \<longleftrightarrow> (if c_fun c = Compute Call
     then list_all2 accepts (parameters (c_fun c) @ [P_ADDRINT]) (c_args c)
     else well_typed c)"

lemma fits_runs:
  assumes "fits c"
  shows "\<exists>f. call_fun E X (c_fun c) (map (eval_arg rt) (c_args c)) = Some f"
proof -
  obtain as bs where "list_all2 accepts (parameters (c_fun c)) as" "c_args c = as @ bs"
  proof (cases "c_fun c = Compute Call")
    case True
    with assms obtain as bs where "c_args c = as @ bs" "list_all2 accepts (parameters (c_fun c)) as"
      unfolding fits_def if_P [OF True] list_all2_append1 by blast
    with that show ?thesis
      by blast
  next
    case False
    with assms that [of "c_args c" "[]"] show ?thesis
      by (simp add: fits_def well_typed_def)
  qed
  then show ?thesis
    using call_fun_takes [of "c_fun c" E X] by (simp add: takes_def)
qed

definition typed :: "calls \<Rightarrow> bool" where
  "typed r \<longleftrightarrow> (\<forall>cs. r = Some cs \<longrightarrow> (\<forall>c \<in> set cs. fits c \<and> c_fun c \<noteq> Shift ConcretizeEflags))"

lemma typed_None: "typed None"
  by (simp add: typed_def)

lemma typed_Nil: "typed (Some [])"
  by (simp add: typed_def)

lemma typed_GET_REG: "(\<And>r. typed (k r)) \<Longrightarrow> typed (GET_REG P i n k)"
  by (simp add: GET_REG_def Let_def typed_Nil)

lemma typed_if: "(b \<Longrightarrow> typed x) \<Longrightarrow> (\<not> b \<Longrightarrow> typed y) \<Longrightarrow> typed (if b then x else y)"
  by simp

lemma typed_assert: "(b \<Longrightarrow> typed x) \<Longrightarrow> typed (assert b x)"
  by (cases b) (simp_all add: assert_def typed_None)

lemma typed_bind: "(\<And>x. typed (k x)) \<Longrightarrow> typed (Option.bind m k)"
  by (cases m) (simp_all add: typed_None)

lemma typed_append: "typed x \<Longrightarrow> typed y \<Longrightarrow> typed (do { a \<leftarrow> x; b \<leftarrow> y; Some (a @ b) })"
  by (cases x; cases y) (auto simp: typed_def)

lemma typed_insert:
  assumes "list_all2 accepts (parameters f) as" "f \<noteq> Compute Call" "f \<noteq> Shift ConcretizeEflags"
  shows "typed (INS_InsertCall p f as)" "typed (INS_InsertPredicatedCall p f as)"
  using assms by (simp_all add: typed_def fits_def well_typed_def INS_InsertCall_def INS_InsertPredicatedCall_def)

lemma typed_before:
  "list_all2 accepts (parameters f) (IARG_CPU_CONTEXT @ as) \<Longrightarrow> f \<noteq> Compute Call \<Longrightarrow> f \<noteq> Shift ConcretizeEflags \<Longrightarrow>
   typed (insert_before f as)"
  unfolding insert_before_def by (rule typed_insert)

lemma typed_call_or_fail: "(\<And>g. f = Some g \<Longrightarrow> typed (insert_before g as)) \<Longrightarrow> typed (call_or_fail f as)"
  by (cases f) (simp_all add: call_or_fail_def typed_None)

lemmas typed_rules = typed_None typed_Nil typed_GET_REG typed_if typed_assert typed_bind typed_call_or_fail
  typed_before typed_insert

text \<open>Arguments.\<close>

lemma accepts_mem:
  "accepts P_ADDRINT a \<Longrightarrow> accepts P_UINT n \<Longrightarrow>
   list_all2 accepts (P_REG # P_REG # P_ADDRINT # P_UINT # P_ADDRINT # P_UINT # ps) (IARG_MEM i (a, n) @ as) =
   list_all2 accepts ps as"
  by (simp add: IARG_MEM_def)

lemma getMemoryType_accepts:
  "accepts P_ADDRINT (fst (getMemoryType wr))" "accepts P_UINT (snd (getMemoryType wr))"
  by (simp_all add: getMemoryType_def)

lemma mem_append:
  "list_all2 accepts (P_REG # P_REG # P_ADDRINT # P_UINT # P_ADDRINT # P_UINT # ps) (IARG_MEM i (getMemoryType wr) @ as) =
   list_all2 accepts ps as"
  "list_all2 accepts (P_REG # P_REG # P_ADDRINT # P_UINT # P_ADDRINT # P_UINT # ps) (IARG_MEM_READ i @ as) =
   list_all2 accepts ps as"
  "list_all2 accepts (P_REG # P_REG # P_ADDRINT # P_UINT # P_ADDRINT # P_UINT # ps) (IARG_MEM_WRITE i @ as) =
   list_all2 accepts ps as"
  using accepts_mem [of "fst (getMemoryType wr)" "snd (getMemoryType wr)"] getMemoryType_accepts
  by (simp_all add: IARG_MEM_READ_def IARG_MEM_WRITE_def accepts_mem)

lemmas mem_args_accepted = mem_append mem_append [where as = "[]", simplified]

lemmas call_types = IARG_CPU_CONTEXT_def CPU_CONTEXT_def MEM_ARG_def mem_args_accepted

subsection \<open>The generic functions\<close>

text \<open>A null pointer fits everything.\<close>

definition fits_args :: "analysis_fun option \<Rightarrow> iarg list \<Rightarrow> bool" where
  "fits_args f as \<longleftrightarrow> (\<forall>g. f = Some g \<longrightarrow> list_all2 accepts (parameters g) (IARG_CPU_CONTEXT @ as) \<and>
     g \<noteq> Compute Call \<and> g \<noteq> Shift ConcretizeEflags)"

lemma fits_args_None [simp]: "fits_args None as"
  by (simp add: fits_args_def)

lemma fits_args_Some:
  "fits_args (Some g) as \<longleftrightarrow> list_all2 accepts (parameters g) (IARG_CPU_CONTEXT @ as) \<and>
     g \<noteq> Compute Call \<and> g \<noteq> Shift ConcretizeEflags"
  by (simp add: fits_args_def)

lemma typed_call_fits: "fits_args f as \<Longrightarrow> typed (call_or_fail f as)"
  by (auto simp: fits_args_def intro: typed_call_or_fail typed_before)

lemma unary_typed:
  assumes "\<And>r. fits_args f ([IARG_REG r] @ map IARG_ARG us)"
    and "\<And>wr. fits_args m (IARG_MEM i (getMemoryType wr) @ map IARG_ARG us)"
  shows "us = [] \<Longrightarrow> typed (analyzeUnary P i wr f m)"
    and "us = [u] \<Longrightarrow> typed (analyzeUnary_arg P i wr u f m)"
    and "us = [u, v] \<Longrightarrow> typed (analyzeUnary_arg2 P i wr u v f m)"
  using assms
  by (auto simp: analyzeUnary_def analyzeUnary_arg_def analyzeUnary_arg2_def unary_memory_def typed_None
      intro!: typed_if typed_assert typed_GET_REG typed_call_fits)

lemma binary_typed:
  assumes "\<And>r r'. fits_args rr ([IARG_REG r, IARG_REG r'] @ map IARG_ARG us)"
    and "\<And>r v. fits_args ri ([IARG_REG r, IARG_IMM v] @ map IARG_ARG us)"
    and "\<And>r. fits_args rm (IARG_REG r # IARG_MEM_READ i @ map IARG_ARG us)"
    and "\<And>r wr. fits_args mr (IARG_MEM i (getMemoryType wr) @ [IARG_REG r] @ map IARG_ARG us)"
    and "\<And>v wr. fits_args mi (IARG_MEM i (getMemoryType wr) @ [IARG_IMM v] @ map IARG_ARG us)"
  shows "typed (binary_call P i wr us rr ri rm mr mi)"
  using assms
  by (auto simp: binary_call_def Let_def typed_None
      intro!: typed_if typed_assert typed_GET_REG typed_call_fits typed_bind)

lemma ternary_typed:
  assumes "\<And>r r' r''. fits_args (Some rrr) ([IARG_REG r, IARG_REG r', IARG_REG r''] @ map IARG_ARG us)"
    and "\<And>r r'. fits_args (Some rrm) ([IARG_REG r, IARG_REG r'] @ IARG_MEM_READ i @ map IARG_ARG us)"
    and "\<And>r r' v. fits_args rri ([IARG_REG r, IARG_REG r', IARG_IMM v] @ map IARG_ARG us)"
  shows "typed (ternary_call P i us rrr rrm rri)"
  using assms
  by (auto simp: ternary_call_def Let_def typed_None fits_args_Some
      intro!: typed_if typed_assert typed_call_fits typed_bind typed_before)

lemma ternary_imm_typed:
  assumes "\<And>r r' v. fits_args (Some rri) [IARG_REG r, IARG_REG r', IARG_IMM v, IARG_ARG u]"
    and "\<And>r v. fits_args (Some rmi) (IARG_REG r # IARG_MEM_READ i @ [IARG_IMM v, IARG_ARG u])"
  shows "typed (analyzeTernaryImm P i u rri rmi)"
  using assms
  by (auto simp: analyzeTernaryImm_def typed_None fits_args_Some
      intro!: typed_if typed_GET_REG typed_bind typed_before)

subsection \<open>The functions for the single instructions\<close>

lemma binary_functions_typed:
  "typed (analyzeBinary_kind P i k wr)" "typed (analyzeCarry P i k)" "typed (analyzeBs P i neg)"
  "typed (analyzeBt P i k)" "typed (analyzeCmpxchg P i)" "typed (analyzeMov P i)"
  "typed (analyzeMovh P i)" "typed (analyzeMovlz P i width)" "typed (analyzeMovsx P i)"
  "typed (analyzeMovzx P i)" "typed (analyzePshufb P i)" "typed (analyzePshift P i k width)"
  "typed (analyzePack P i width sg)" "typed (analyzeParith P i k width)" "typed (analyzePcmp P i k width)"
  "typed (analyzePcmpxchg P i k width)" "typed (analyzePmaddwd P i)" "typed (analyzePmul P i width)"
  "typed (analyzePmulhw P i sg)" "typed (analyzePunpckh P i width)" "typed (analyzePunpckl P i width)"
  "typed (analyzeXadd P i)" "typed (analyzeXchg P i)"
  unfolding analyzeBinary_def analyzeBinary_arg_def analyzeBinary_arg2_def
    analyzeBinary_kind_def analyzeCarry_def analyzeBs_def analyzeBt_def analyzeCmpxchg_def analyzeMov_def
    analyzeMovh_def analyzeMovlz_def analyzeMovsx_def analyzeMovzx_def analyzePshufb_def
    analyzePshift_def analyzePack_def analyzeParith_def analyzePcmp_def analyzePcmpxchg_def
    analyzePmaddwd_def analyzePmul_def analyzePmulhw_def analyzePunpckh_def analyzePunpckl_def
    analyzeXadd_def analyzeXchg_def
  by (rule binary_typed; simp add: fits_args_Some call_types)+

lemma ternary_functions_typed:
  "typed (analyzeTernary P i k)" "typed (analyzeVparith P i k width)" "typed (analyzeVpcmp P i k width)"
  "typed (analyzeVpmaddwd P i)" "typed (analyzeVpcmpxchg P i k width)" "typed (analyzeVpmulhw P i sg)"
  "typed (analyzeVpmul P i width)" "typed (analyzeVpshufb P i)" "typed (analyzeVpshift P i k width)"
  "typed (analyzeVpack P i width sg)"
  unfolding analyzeTernary_fun_def analyzeTernary_arg_def analyzeTernary_arg2_def
    analyzeTernary_def analyzeVparith_def analyzeVpcmp_def analyzeVpmaddwd_def analyzeVpcmpxchg_def
    analyzeVpmulhw_def analyzeVpmul_def analyzeVpshufb_def analyzeVpshift_def analyzeVpack_def
  by (rule ternary_typed; simp add: fits_args_Some call_types)+

lemma ternary_imm_functions_typed:
  "typed (analyzePshuf P i width)" "typed (analyzePshufw P i high)"
  unfolding analyzePshuf_def analyzePshufw_def
  by (rule ternary_imm_typed; simp add: fits_args_Some call_types)+

lemma unary_functions_typed:
  "typed (analyzeBswap P i)" "typed (analyzeDiv P i sg)" "typed (analyzeIncDec P i k)"
  "typed (analyzeNegNot P i k)" "typed (analyzeSet P i j neg)"
  unfolding analyzeBswap_def analyzeDiv_def analyzeIncDec_def analyzeNegNot_def analyzeSet_def
  by (rule unary_typed; simp add: fits_args_Some call_types)+

lemma direct_functions_typed:
  "typed analyzeBBL"
  "typed (analyzeCmps P i width)" "typed (analyzeCpuid P i)" "typed (analyzeMovs P i width)"
  "typed (analyzeJcc P i j neg)" "typed (analyzeRdtsc P i)" "typed (analyzeRdtscp P i)"
  "typed (analyzeScas P i width)" "typed (analyzeRet P i)" "typed (analyzeLeave bp P i)"
  unfolding analyzeBBL_def
    analyzeCmps_def analyzeCpuid_def analyzeMovs_def analyzeJcc_def analyzeRdtsc_def analyzeRdtscp_def
    analyzeScas_def analyzeRet_def analyzeLeave_def
  by (rule typed_before typed_insert; simp add: call_types)+

lemma shift_count_typed:
  "(\<And>v. typed (f v)) \<Longrightarrow> typed g \<Longrightarrow> typed (shift_count cl P i n f g)"
  unfolding shift_count_def by (auto intro!: typed_if typed_bind typed_assert simp: typed_None)

lemma case_functions_typed:
  "typed (analyzeJmp P i)" "typed (analyzeCbw P i)" "typed (analyzeCwd P i)"
  "typed (analyzeCmov P i j neg)" "typed (analyzeClear P i)" "typed (analyzeIMul_four P i)"
  "typed (analyzeIMul P i)" "typed (analyzeLea P i)" "typed (analyzeMul P i)" "typed (analyzePop P i)"
  "typed (analyzePalignr P i)" "typed (analyzePextr P i width)" "typed (analyzePmovmskb P i)"
  "typed (analyzePush P i)" "typed (analyzeShift cl P i k)" "typed (analyzeShiftd cl P i k)"
  "typed (analyzeStos P i)" "typed (analyzeVinserti128 P i)" "typed (analyzeVmovl P i)"
  unfolding two_registers_def
    analyzeJmp_def analyzeCbw_def analyzeCwd_def analyzeCmov_def analyzeClear_def analyzeIMul_four_def
    analyzeIMul_def analyzeLea_def analyzeMul_def analyzePop_def analyzePalignr_def analyzePextr_def
    analyzePmovmskb_def analyzePush_def analyzeShift_def analyzeShiftd_def analyzeStos_def
    analyzeVinserti128_def analyzeVmovl_def
  by (intro typed_if typed_assert typed_GET_REG typed_bind typed_None typed_Nil shift_count_typed
      typed_before typed_insert; simp add: call_types)+

lemma analyzeCall_typed: "typed (analyzeCall P i)"
proof -
  have "fits c \<and> c_fun c \<noteq> Shift ConcretizeEflags"
    if "insert_before (Compute Call) [IARG_MEMORYWRITE_EA, IARG_MEMORYWRITE_SIZE, IARG_RETURN_IP] = Some cs" "c \<in> set cs" for cs c
    using that by (auto simp: insert_before_def INS_InsertCall_def fits_def call_types)
  then have "typed (insert_before (Compute Call) [IARG_MEMORYWRITE_EA, IARG_MEMORYWRITE_SIZE, IARG_RETURN_IP])"
    by (simp add: typed_def)
  moreover have "typed (INS_InsertCall IPOINT_TAKEN_BRANCH (Ymm CallAfter) (IARG_CPU_CONTEXT @ [IARG_RETURN_IP]))"
    by (rule typed_insert) (simp_all add: call_types)
  ultimately have "typed (do { c1 \<leftarrow> insert_before (Compute Call) [IARG_MEMORYWRITE_EA, IARG_MEMORYWRITE_SIZE, IARG_RETURN_IP];
      c \<leftarrow> (do { c2 \<leftarrow> INS_InsertCall IPOINT_TAKEN_BRANCH (Ymm CallAfter) (IARG_CPU_CONTEXT @ [IARG_RETURN_IP]);
                 c3 \<leftarrow> analyzeJmp P i; Some (c2 @ c3) }); Some (c1 @ c) })"
    by (intro typed_append case_functions_typed)
  then show ?thesis
    unfolding analyzeCall_def by simp
qed

subsection \<open>Instructions without a function\<close>

text \<open>The call for one operand.\<close>

definition concretize_reg :: "reg \<Rightarrow> call" where
  "concretize_reg r = \<lparr>c_point = IPOINT_BEFORE, c_predicated = False, c_fun = Shift ConcretizeReg,
     c_args = IARG_CPU_CONTEXT @ [IARG_REG r]\<rparr>"

definition concretize_mem :: "iarg \<times> iarg \<Rightarrow> call" where
  "concretize_mem t = \<lparr>c_point = IPOINT_BEFORE, c_predicated = False, c_fun = Shift ConcretizeMem,
     c_args = [IARG_CONTEXT, fst t, snd t]\<rparr>"

text \<open>The branch for the flags is never taken: \<open>GET_REG\<close> has returned before.\<close>

lemma analyzeConcretizeReg_eq:
  "analyzeConcretizeReg F P i n = Some (let r = INS_OperandReg P i n in
     if isInterestingReg P (REG_FullRegName P r) then [concretize_reg r] else [])"
  by (simp add: analyzeConcretizeReg_def GET_REG_def Let_def insert_before_def INS_InsertCall_def concretize_reg_def)

text \<open>What the operand \<open>n\<close> is, and the calls for a list of operands.\<close>

definition followed_regs :: "pin_api \<Rightarrow> ins \<Rightarrow> nat list \<Rightarrow> reg list" where
  "followed_regs P i ns = filter (\<lambda>r. isInterestingReg P (REG_FullRegName P r))
     (map (INS_OperandReg P i) (filter (INS_OperandIsReg i) ns))"

definition accesses :: "ins \<Rightarrow> nat \<Rightarrow> iarg \<times> iarg \<Rightarrow> bool" where
  "accesses i n t \<longleftrightarrow> (if op_read (operands i ! n)
     then t \<in> {(IARG_MEMORYREAD_EA, IARG_MEMORYREAD_SIZE), (IARG_MEMORYREAD2_EA, IARG_MEMORYREAD_SIZE)}
     else op_written (operands i ! n) \<and> t = (IARG_MEMORYWRITE_EA, IARG_MEMORYWRITE_SIZE))"

definition memory_operands :: "ins \<Rightarrow> nat list \<Rightarrow> nat list" where
  "memory_operands i ns = filter (INS_OperandIsMemory i) ns"

lemma reg_not_memory: "INS_OperandIsReg i n \<Longrightarrow> \<not> INS_OperandIsMemory i n"
  by (auto simp: INS_OperandIsReg_def INS_OperandIsMemory_def)

lemma analyzeDefault_loop_calls:
  "analyzeDefault_loop F P i ns cnt = Some cs \<Longrightarrow>
   filter (\<lambda>c. c_fun c = Shift ConcretizeReg) cs = map concretize_reg (followed_regs P i ns) \<and>
   (\<exists>ts. filter (\<lambda>c. c_fun c \<noteq> Shift ConcretizeReg) cs = map concretize_mem ts \<and>
     list_all2 (accesses i) (memory_operands i ns) ts)"
proof (induction ns arbitrary: cnt cs)
  case Nil
  then show ?case
    by (simp add: followed_regs_def memory_operands_def)
next
  case (Cons n ns)
  show ?case
  proof (cases "INS_OperandIsReg i n")
    case True
    with Cons show ?thesis
      by (auto simp: analyzeConcretizeReg_eq followed_regs_def memory_operands_def reg_not_memory bind_eq_Some_conv
          concretize_reg_def Let_def split: if_splits)
  next
    case reg: False
    show ?thesis
    proof (cases "INS_OperandIsMemory i n")
      case True
      then obtain t cnt' cs' where t: "getMemoryType_count i n cnt = Some (t, cnt')"
        and cs: "analyzeDefault_loop F P i ns cnt' = Some cs'" "cs = concretize_mem t # cs'"
        using Cons.prems reg
        by (auto simp: analyzeConcretizeMem_def bind_eq_Some_conv INS_InsertCall_def concretize_mem_def)
      have t': "accesses i n t"
        using t by (auto simp: accesses_def getMemoryType_count_def assert_def split: if_splits)
      obtain ts where ts: "filter (\<lambda>c. c_fun c \<noteq> Shift ConcretizeReg) cs' = map concretize_mem ts"
          "list_all2 (accesses i) (memory_operands i ns) ts"
        and regs: "filter (\<lambda>c. c_fun c = Shift ConcretizeReg) cs' = map concretize_reg (followed_regs P i ns)"
        using Cons.IH [OF cs(1)] by blast
      have "filter (\<lambda>c. c_fun c \<noteq> Shift ConcretizeReg) cs = map concretize_mem (t # ts)"
        "list_all2 (accesses i) (memory_operands i (n # ns)) (t # ts)"
        using ts t' cs(2) True by (simp_all add: memory_operands_def concretize_mem_def)
      moreover have "filter (\<lambda>c. c_fun c = Shift ConcretizeReg) cs = map concretize_reg (followed_regs P i (n # ns))"
        using regs cs(2) reg by (simp add: followed_regs_def concretize_mem_def)
      ultimately show ?thesis
        by blast
    qed (use Cons reg in \<open>auto simp: followed_regs_def memory_operands_def\<close>)
  qed
qed

lemma analyzeDefault_typed: "typed (analyzeDefault F P i)"
  unfolding typed_def
proof (intro allI impI ballI)
  fix cs c
  assume "analyzeDefault F P i = Some cs" and c: "c \<in> set cs"
  then obtain ts where ts: "filter (\<lambda>c. c_fun c = Shift ConcretizeReg) cs = map concretize_reg (followed_regs P i [0..<length (operands i)])"
    "filter (\<lambda>c. c_fun c \<noteq> Shift ConcretizeReg) cs = map concretize_mem ts"
    "list_all2 (accesses i) (memory_operands i [0..<length (operands i)]) ts"
    unfolding analyzeDefault_def using analyzeDefault_loop_calls by blast
  show "fits c \<and> c_fun c \<noteq> Shift ConcretizeEflags"
  proof (cases "c_fun c = Shift ConcretizeReg")
    case True
    then have "c \<in> set (map concretize_reg (followed_regs P i [0..<length (operands i)]))"
      using c unfolding ts(1) [symmetric] by simp
    then show ?thesis
      by (auto simp: concretize_reg_def fits_def well_typed_def call_types)
  next
    case False
    then have "c \<in> set (map concretize_mem ts)"
      using c unfolding ts(2) [symmetric] by simp
    moreover have "t \<in> {(IARG_MEMORYREAD_EA, IARG_MEMORYREAD_SIZE), (IARG_MEMORYREAD2_EA, IARG_MEMORYREAD_SIZE),
        (IARG_MEMORYWRITE_EA, IARG_MEMORYWRITE_SIZE)}" if "t \<in> set ts" for t
      using ts(3) that by (auto simp: list_all2_conv_all_nth in_set_conv_nth accesses_def split: if_splits)
    ultimately show ?thesis
      by (fastforce simp: concretize_mem_def fits_def well_typed_def)
  qed
qed

subsection \<open>All opcodes\<close>

definition table_typed :: "opcode_table \<Rightarrow> bool" where
  "table_typed t \<longleftrightarrow> (\<forall>(ls, f) \<in> set t. \<forall>N P i. typed (f N P i))"

lemma table_typed_append: "table_typed (t @ u) \<longleftrightarrow> table_typed t \<and> table_typed u"
  by (simp add: table_typed_def ball_Un)

lemmas functions_typed = binary_functions_typed ternary_functions_typed ternary_imm_functions_typed
  unary_functions_typed direct_functions_typed case_functions_typed analyzeCall_typed typed_Nil

lemma opcode_cases_typed: "table_typed opcode_cases"
  unfolding opcode_cases_def table_typed_append
  by (simp add: table_typed_def opcodes_ADC_def opcodes_CMP_def opcodes_FNSTSW_def opcodes_LZCNT_def opcodes_PADDW_def
      opcodes_PMULHUW_def opcodes_RDTSC_def opcodes_TEST_def opcodes_VINSERTF128_def opcodes_VPCMPGTW_def
      opcodes_VPOR_def opcodes_XADD_def functions_typed)

lemma find_case_in: "find_case x t = Some f \<Longrightarrow> \<exists>ls. (ls, f) \<in> set t \<and> x \<in> set ls"
  by (auto simp: find_case_def find_Some_iff) (metis nth_mem)

lemma analyzeInstruction_typed: "typed (analyzeInstruction N P i)"
proof (cases "INS_Opcode i")
  case (Some x)
  show ?thesis
  proof (cases "find_case x opcode_cases")
    case None
    then show ?thesis
      by (simp add: analyzeInstruction_def Some analyzeDefault_typed)
  next
    case (Some f)
    then show ?thesis
      using find_case_in [OF Some] opcode_cases_typed
      by (auto simp: analyzeInstruction_def \<open>INS_Opcode i = Some x\<close> table_typed_def)
  qed
qed (simp add: analyzeInstruction_def typed_Nil)

end
