(* ===== verification/InstrumentPath.thy ===== *)
theory InstrumentPath
  imports InstrumentSound DispatchSound
begin

section \<open>From the instruction to the condition\<close>

text \<open>
  The parts together: an instruction is dispatched, its calls are run, and the handlers change the
  state of the tool. For the integer operations on two registers and for conditional jumps, what
  the whole does is what the processor does, for every input at once.
\<close>

subsection \<open>Dispatch\<close>

text \<open>The opcodes of the processor's manual, with their operation and whether it writes the result.\<close>

definition alu_opcodes :: "(string \<times> kind \<times> bool) list" where
  "alu_opcodes = [(''ADD'', Add, True), (''SUB'', Sub, True), (''AND'', And, True), (''OR'', Or, True),
     (''XOR'', Xor, True), (''CMP'', Sub, False), (''TEST'', And, False)]"

definition jcc_opcodes :: "(string \<times> jcc_kind \<times> bool) list" where
  "jcc_opcodes = [(''JB'', JCC_B, False), (''JNB'', JCC_B, True), (''JBE'', JCC_BE, False), (''JNBE'', JCC_BE, True),
     (''JL'', JCC_L, False), (''JNL'', JCC_L, True), (''JLE'', JCC_LE, False), (''JNLE'', JCC_LE, True),
     (''JO'', JCC_O, False), (''JNO'', JCC_O, True), (''JS'', JCC_S, False), (''JNS'', JCC_S, True),
     (''JP'', JCC_P, False), (''JNP'', JCC_P, True), (''JZ'', JCC_Z, False), (''JNZ'', JCC_Z, True)]"

lemma find_case_Cons:
  "find_case x ((ls, f) # t) = (if x \<in> set ls then Some f else find_case x t)"
  by (simp add: find_case_def)

lemma find_case_append:
  "find_case x (t @ u) = (case find_case x t of Some f \<Rightarrow> Some f | None \<Rightarrow> find_case x u)"
  by (induction t) (auto simp: find_case_Cons, simp add: find_case_def)

lemma find_case_Nil: "find_case x [] = None"
  by (simp add: find_case_def)

text \<open>A table is searched part by part.\<close>

lemma find_case_skip: "find_case x t = None \<Longrightarrow> find_case x (t @ u) = find_case x u"
  by (simp add: find_case_append)

lemma find_case_here: "find_case x t = Some f \<Longrightarrow> find_case x (t @ u) = Some f"
  by (simp add: find_case_append)

lemma not_in_ADC:
  "find_case ''CMP'' opcodes_ADC = None"
  "find_case ''OR'' opcodes_ADC = None"
  "find_case ''SUB'' opcodes_ADC = None"
  "find_case ''TEST'' opcodes_ADC = None"
  "find_case ''XOR'' opcodes_ADC = None"
  by (simp_all add: find_case_Cons find_case_Nil opcodes_ADC_def)

lemma not_in_CMP:
  "find_case ''OR'' opcodes_CMP = None"
  "find_case ''SUB'' opcodes_CMP = None"
  "find_case ''TEST'' opcodes_CMP = None"
  "find_case ''XOR'' opcodes_CMP = None"
  by (simp_all add: find_case_Cons find_case_Nil opcodes_CMP_def)

lemma not_in_FNSTSW:
  "find_case ''OR'' opcodes_FNSTSW = None"
  "find_case ''SUB'' opcodes_FNSTSW = None"
  "find_case ''TEST'' opcodes_FNSTSW = None"
  "find_case ''XOR'' opcodes_FNSTSW = None"
  by (simp_all add: find_case_Cons find_case_Nil opcodes_FNSTSW_def)

lemma not_in_LZCNT:
  "find_case ''SUB'' opcodes_LZCNT = None"
  "find_case ''TEST'' opcodes_LZCNT = None"
  "find_case ''XOR'' opcodes_LZCNT = None"
  by (simp_all add: find_case_Cons find_case_Nil opcodes_LZCNT_def)

lemma not_in_PADDW:
  "find_case ''SUB'' opcodes_PADDW = None"
  "find_case ''TEST'' opcodes_PADDW = None"
  "find_case ''XOR'' opcodes_PADDW = None"
  by (simp_all add: find_case_Cons find_case_Nil opcodes_PADDW_def)

lemma not_in_PMULHUW:
  "find_case ''SUB'' opcodes_PMULHUW = None"
  "find_case ''TEST'' opcodes_PMULHUW = None"
  "find_case ''XOR'' opcodes_PMULHUW = None"
  by (simp_all add: find_case_Cons find_case_Nil opcodes_PMULHUW_def)

lemma not_in_RDTSC:
  "find_case ''TEST'' opcodes_RDTSC = None"
  "find_case ''XOR'' opcodes_RDTSC = None"
  by (simp_all add: find_case_Cons find_case_Nil opcodes_RDTSC_def)

lemma not_in_TEST:
  "find_case ''XOR'' opcodes_TEST = None"
  by (simp_all add: find_case_Cons find_case_Nil opcodes_TEST_def)

lemma not_in_VINSERTF128:
  "find_case ''XOR'' opcodes_VINSERTF128 = None"
  by (simp_all add: find_case_Cons find_case_Nil opcodes_VINSERTF128_def)

lemma not_in_VPCMPGTW:
  "find_case ''XOR'' opcodes_VPCMPGTW = None"
  by (simp_all add: find_case_Cons find_case_Nil opcodes_VPCMPGTW_def)

lemma not_in_VPOR:
  "find_case ''XOR'' opcodes_VPOR = None"
  by (simp_all add: find_case_Cons find_case_Nil opcodes_VPOR_def)

lemma alu_cases:
  "find_case ''ADD'' opcodes_ADC = Some (\<lambda>N P i. analyzeBinary_kind P i Add True)"
  "find_case ''AND'' opcodes_ADC = Some (\<lambda>N P i. analyzeBinary_kind P i And True)"
  "find_case ''CMP'' opcodes_CMP = Some (\<lambda>N P i. analyzeBinary_kind P i Sub False)"
  "find_case ''OR'' opcodes_LZCNT = Some (\<lambda>N P i. analyzeBinary_kind P i Or True)"
  "find_case ''SUB'' opcodes_RDTSC = Some (\<lambda>N P i. analyzeBinary_kind P i Sub True)"
  "find_case ''TEST'' opcodes_TEST = Some (\<lambda>N P i. analyzeBinary_kind P i And False)"
  "find_case ''XOR'' opcodes_XADD = Some (\<lambda>N P i. analyzeBinary_kind P i Xor True)"
  by (simp_all add: find_case_Cons opcodes_ADC_def opcodes_CMP_def opcodes_LZCNT_def opcodes_RDTSC_def
      opcodes_TEST_def opcodes_XADD_def)

lemmas alu_search = alu_cases
  not_in_ADC not_in_CMP not_in_FNSTSW not_in_LZCNT not_in_PADDW
  not_in_PMULHUW not_in_RDTSC not_in_TEST not_in_VINSERTF128 not_in_VPCMPGTW
  not_in_VPOR

lemma alu_case:
  assumes "(x, k, wr) \<in> set alu_opcodes"
  shows "find_case x opcode_cases = Some (\<lambda>N P i. analyzeBinary_kind P i k wr)"
proof -
  have "find_case ''ADD'' opcode_cases = Some (\<lambda>N P i. analyzeBinary_kind P i Add True)"
    "find_case ''AND'' opcode_cases = Some (\<lambda>N P i. analyzeBinary_kind P i And True)"
    "find_case ''CMP'' opcode_cases = Some (\<lambda>N P i. analyzeBinary_kind P i Sub False)"
    "find_case ''OR'' opcode_cases = Some (\<lambda>N P i. analyzeBinary_kind P i Or True)"
    "find_case ''SUB'' opcode_cases = Some (\<lambda>N P i. analyzeBinary_kind P i Sub True)"
    "find_case ''TEST'' opcode_cases = Some (\<lambda>N P i. analyzeBinary_kind P i And False)"
    "find_case ''XOR'' opcode_cases = Some (\<lambda>N P i. analyzeBinary_kind P i Xor True)"
    unfolding opcode_cases_def by (simp_all add: find_case_append alu_search)
  with assms show ?thesis
    by (auto simp: alu_opcodes_def)
qed

lemma jcc_not_in_ADC: "list_all (\<lambda>(x, _). find_case x opcodes_ADC = None) jcc_opcodes"
  by (simp add: jcc_opcodes_def find_case_Cons find_case_Nil opcodes_ADC_def)

lemma jcc_not_in_CMP: "list_all (\<lambda>(x, _). find_case x opcodes_CMP = None) jcc_opcodes"
  by (simp add: jcc_opcodes_def find_case_Cons find_case_Nil opcodes_CMP_def)

lemma jcc_in_FNSTSW:
  "list_all (\<lambda>(x, j, neg). find_case x opcodes_FNSTSW = Some (\<lambda>N P i. analyzeJcc P i j neg)) jcc_opcodes"
  by (simp add: jcc_opcodes_def find_case_Cons opcodes_FNSTSW_def)

lemma jcc_case:
  assumes "(x, j, neg) \<in> set jcc_opcodes"
  shows "find_case x opcode_cases = Some (\<lambda>N P i. analyzeJcc P i j neg)"
proof -
  have "find_case x opcodes_ADC = None" "find_case x opcodes_CMP = None"
    "find_case x opcodes_FNSTSW = Some (\<lambda>N P i. analyzeJcc P i j neg)"
    using assms jcc_not_in_ADC jcc_not_in_CMP jcc_in_FNSTSW by (auto simp: list_all_iff)
  then show ?thesis
    unfolding opcode_cases_def by (simp add: find_case_append)
qed

subsection \<open>Two registers\<close>

text \<open>An instruction with two followed registers as its first operands.\<close>

definition of_registers :: "pin_api \<Rightarrow> reg \<Rightarrow> reg \<Rightarrow> ins \<Rightarrow> bool" where
  "of_registers P dst src i \<longleftrightarrow> shape_at i 0 = OpReg dst \<and> shape_at i 1 = OpReg src \<and>
     isInterestingReg P (REG_FullRegName P dst) \<and> isInterestingReg P (REG_FullRegName P src)"

lemma run_alu:
  assumes x: "INS_Opcode i = Some x" "(x, k, wr) \<in> set alu_opcodes" and r: "of_registers (pin E) dst src i"
  shows "run_ins N E X rt i s = instrumentBinaryRegReg E (rt_ctx rt) dst src k wr s"
proof -
  have "analyzeInstruction N (pin E) i = insert_before (Compute BinaryRegReg)
      [IARG_REG dst, IARG_REG src, IARG_ARG (KindArg k), IARG_ARG (BoolArg wr)]"
    using x r by (simp add: analyzeInstruction_def alu_case analyzeBinary_kind_def analyzeBinary_arg2_def binary_call_def
        of_registers_def INS_OperandIsReg_def INS_OperandReg_def GET_REG_def Let_def assert_def call_or_fail_def)
  then show ?thesis
    by (simp add: run_ins_def insert_before_def INS_InsertCall_def run_call_def IARG_CPU_CONTEXT_def no_more_def)
qed

lemma run_jcc:
  assumes "INS_Opcode i = Some x" "(x, j, neg) \<in> set jcc_opcodes"
  shows "run_ins N E X rt i s = instrumentJcc E (rt_ctx rt) (rt_taken rt) (rt_target rt) j neg s"
  using assms by (simp add: run_ins_def analyzeInstruction_def jcc_case analyzeJcc_def insert_before_def INS_InsertCall_def
      run_call_def IARG_CPU_CONTEXT_def no_more_def)

text \<open>
  What is assumed of the tool: its builders are sound for all inputs of \<open>W\<close>, and its state agrees
  with the contents \<open>M\<close> of memory, \<open>R\<close> of the registers and with the flags \<open>F\<close>, which the operations
  \<open>h\<close> have left.
\<close>

definition agrees_with ::
  "bool \<Rightarrow> bool \<Rightarrow> assignment set \<Rightarrow> assignment \<Rightarrow> (bst \<Rightarrow> bool) \<Rightarrow> instr_env \<Rightarrow> contents \<Rightarrow> contents \<Rightarrow>
   (assignment \<Rightarrow> oper list) \<Rightarrow> (assignment \<Rightarrow> flag_values) \<Rightarrow> pin_state \<Rightarrow> bool" where
  "agrees_with t dv W \<rho>0 I E M R h F s \<longleftrightarrow> builder_on t dv W I (builder_of E) \<and> \<rho>0 \<in> W \<and> pin_ok (pin E) \<and>
     apint_ok (apint_of E) \<and> pin_holds dv W \<rho>0 I (pin E) M R h F s"

text \<open>Two registers of the same size, and the context, which holds the contents for \<open>\<rho>0\<close>.\<close>

definition registers_at ::
  "instr_env \<Rightarrow> contents \<Rightarrow> contents \<Rightarrow> assignment \<Rightarrow> runtime \<Rightarrow> reg \<Rightarrow> reg \<Rightarrow> nat \<Rightarrow> addr \<Rightarrow> addr \<Rightarrow> pin_state \<Rightarrow> bool" where
  "registers_at E M R \<rho>0 rt dst src n a b s \<longleftrightarrow> reg_at E s dst a \<and> reg_at E s src b \<and>
     reg_bytes E dst = n \<and> reg_bytes E src = n \<and> cpu_context (pin E) (thread s) (M \<rho>0) (R \<rho>0) (rt_ctx rt)"

lemma run_alu_law:
  assumes s: "agrees_with t dv W \<rho>0 I E M R h F s" and i: "INS_Opcode i = Some x" "(x, k, wr) \<in> set alu_opcodes"
    "of_registers (pin E) dst src i" and r: "registers_at E M R \<rho>0 rt dst src n a b s"
    and up: "wr \<Longrightarrow> upper_clear E s dst a" and k: "getOpKindBinary k = Some op"
    and v: "v = (\<lambda>\<rho>. getMemValue (R \<rho>) a n)" and w: "w = (\<lambda>\<rho>. getMemValue (R \<rho>) b n)"
    and R': "R' = (if wr then put_reg E dst a (\<lambda>\<rho>. alu k (n * 8) (v \<rho>) (w \<rho>)) R else R)"
  shows "leads t (run_ins N E X rt i s) (\<lambda>s'.
    agrees_with t dv W \<rho>0 I E M R' (\<lambda>\<rho>. binary_oper op k (n * 8) (v \<rho>) (w \<rho>) # h \<rho>)
      (\<lambda>\<rho>. set_flags (binary_oper op k (n * 8) (v \<rho>) (w \<rho>)) (F \<rho>)) s' \<or>
    (\<forall>\<rho>\<in>W. v \<rho> = v \<rho>0 \<and> w \<rho> = w \<rho>0) \<and> agrees_with t dv W \<rho>0 I E M R' h (\<lambda>\<rho>. drop_flags op (F \<rho>)) s')"
proof -
  have B: "builder_on t dv W I (builder_of E)" "\<rho>0 \<in> W" "pin_ok (pin E)" "apint_ok (apint_of E)"
    and p: "pin_holds dv W \<rho>0 I (pin E) M R h F s"
    using s by (simp_all add: agrees_with_def)
  have r': "reg_at E s dst a" "reg_at E s src b" "reg_bytes E dst = n" "reg_bytes E src = n"
    "cpu_context (pin E) (thread s) (M \<rho>0) (R \<rho>0) (rt_ctx rt)"
    using r by (simp_all add: registers_at_def)
  show ?thesis
    unfolding run_alu [OF i]
    by (rule leads_mono [OF instrumentBinaryRegReg_law [OF B(1-3) p r'(5) r'(1-4) k up v w R']])
      (simp_all add: agrees_with_def B)
qed

lemma run_cmp_jcc_law:
  assumes s: "agrees_with t dv W \<rho>0 I E M R h F s"
    and i: "INS_Opcode i = Some ''CMP''" "of_registers (pin E) dst src i"
    and r: "registers_at E M R \<rho>0 rt dst src n a b s"
    and i': "INS_Opcode i' = Some x" "(x, j, neg) \<in> set jcc_opcodes"
    and v: "v = (\<lambda>\<rho>. getMemValue (R \<rho>) a n)" and w: "w = (\<lambda>\<rho>. getMemValue (R \<rho>) b n)"
  shows "leads t (run_ins N E X rt i s) (\<lambda>s1.
    leads t (thread_computeJcc (apint_of E) (builder_of E) j neg s1) (\<lambda>(e, s2).
      case e of
        None \<Rightarrow> (\<forall>\<rho>\<in>W. v \<rho> = v \<rho>0 \<and> w \<rho> = w \<rho>0) \<and> run_ins N E X rt' i' s1 = Some s2
      | Some e \<Rightarrow> (\<forall>\<rho>\<in>W. den dv \<rho> e = Some (BoolV (after_cmp j (n * 8) (v \<rho>) (w \<rho>) \<noteq> neg))) \<and>
          run_ins N E X rt' i' s1 = on_solver (addJcc (solver_of E) e (rt_taken rt') (instr_ptr E (rt_ctx rt'))) s2))"
proof -
  have B: "builder_on t dv W I (builder_of E)" "\<rho>0 \<in> W" "pin_ok (pin E)" "apint_ok (apint_of E)"
    and p: "pin_holds dv W \<rho>0 I (pin E) M R h F s"
    using s by (simp_all add: agrees_with_def)
  have r': "reg_at E s dst a" "reg_at E s src b" "reg_bytes E dst = n" "reg_bytes E src = n"
    "cpu_context (pin E) (thread s) (M \<rho>0) (R \<rho>0) (rt_ctx rt)"
    using r by (simp_all add: registers_at_def)
  have "(''CMP'', Sub, False) \<in> set alu_opcodes"
    by (simp add: alu_opcodes_def)
  from run_alu [OF i(1) this i(2)] have run: "run_ins N E X rt i s = instrumentBinaryRegReg E (rt_ctx rt) dst src Sub False s"
    .
  show ?thesis
    unfolding run run_jcc [OF i'] by (rule cmp_jcc_law [OF B p r'(5) r'(1-4) v w])
qed

end
