(* ===== verification/ConcretePin.thy ===== *)
theory ConcretePin
  imports ConcreteRun InstrumentPath
begin

section \<open>A small processor\<close>

text \<open>
  The concrete input at which the properties of instructions are applied: two registers of one byte,
  1 and 2. Register 1 holds the first byte of the input, register 2 holds 7, memory holds zeros; the
  builders fold constants, and there is one page of zeros.
\<close>

definition demo_pin :: pin_api where
  "demo_pin = \<lparr>REG_Size = (\<lambda>_. 1), REG_FullRegName = (\<lambda>r. r), REG_is_gr = (\<lambda>r. r = 1 \<or> r = 2),
     REG_is_gr32 = (\<lambda>_. False), REG_is_Upper8 = (\<lambda>_. False), REG_is_xmm = (\<lambda>_. False),
     REG_is_ymm = (\<lambda>_. False), REG_INVALID = 0, REG_INST_PTR = 5, REG_GR_BASE = 1, REG_LAST = 3,
     REG_ax = (\<lambda>_. 1), REG_dx = (\<lambda>_. 2)\<rparr>"

definition demo_builder :: builder where
  "demo_builder = const_folding_builder bv_api (cached_base demo_env)"

definition demo_instr_env :: instr_env where
  "demo_instr_env = \<lparr>solver_of = demo_solver_env\<lparr>g_expr_builder := demo_builder\<rparr>, pin = demo_pin,
     reg_no = (\<lambda>_. 1), fuel = 0\<rparr>"

definition demo_regs :: contents where
  "demo_regs \<rho> a = (if a = 0 then \<rho> 0 else if a = 1 then 7 else 0)"

definition demo_memory :: contents where
  "demo_memory \<rho> a = 0"

definition demo_context :: CONTEXT where
  "demo_context = \<lparr>ctx_reg = (\<lambda>r i. if r = 2 then 7 else 0), ctx_mem = (\<lambda>_. 0), syscall_number = 0,
     syscall_argument = (\<lambda>_. 0), syscall_return = 0\<rparr>"

definition demo_runtime :: runtime where
  "demo_runtime = \<lparr>rt_ctx = demo_context, rt_read = 0, rt_read2 = 0, rt_write = 0, rt_read_size = 0, rt_write_size = 0,
     rt_executing = True, rt_taken = True, rt_target = 0, rt_return = 0\<rparr>"

definition demo_ins :: "string \<Rightarrow> ins" where
  "demo_ins x = \<lparr>INS_Opcode = Some x,
     operands = [\<lparr>shape = OpReg 1, op_read = True, op_written = True, op_implicit = False\<rparr>,
       \<lparr>shape = OpReg 2, op_read = True, op_written = False, op_implicit = False\<rparr>],
     INS_MemoryBaseReg = 0, INS_MemoryIndexReg = 0, INS_MemoryDisplacement = 0, INS_MemoryScale = 0,
     INS_MemoryReadSize = 0\<rparr>"

definition demo_named :: named_regs where
  "demo_named = \<lparr>REG_GBP = 1, cl_reg = 1, REG_is_flags = (\<lambda>_. False)\<rparr>"

definition demo_page_memory :: memory where
  "demo_page_memory = the (initialize (0, 0) Memory)"

definition demo_thread :: thread_context where
  "demo_thread = (ThreadContext demo_pin)\<lparr>reg_exprs := [Some (ReadExpr 1 0), None]\<rparr>"

definition demo_pin_state :: pin_state where
  "demo_pin_state = \<lparr>g_memory = demo_page_memory, builder_state = demo_bst, thread = demo_thread, g_solver = demo_solver\<rparr>"

lemma demo_pin_ok: "pin_ok demo_pin"
  by (simp add: pin_ok_def demo_pin_def isInterestingReg_def upt_rec numeral_3_eq_3)

lemma demo_builder_sound: "builder_on True True UNIV (\<lambda>_. True) demo_builder"
  using folding_stack_sound [of demo_env "\<lambda>_. True"]
  by (simp add: builder_on_def demo_builder_def demo_env_def bv_api_ok)

lemma demo_page_memory_law: "memory_ok demo_page_memory" "getExprFromMem demo_page_memory a = Some None"
proof -
  obtain m where m: "initialize (0, 0) Memory = Some m"
    by (auto simp: initialize_def allocPages_def kPageSize_def Memory_def)
  then have "demo_page_memory = m"
    by (simp add: demo_page_memory_def)
  then show "memory_ok demo_page_memory" "getExprFromMem demo_page_memory a = Some None"
    using initialize_law [OF m] by simp_all
qed

lemma demo_followed: "isInterestingReg demo_pin r \<longleftrightarrow> r = 1 \<or> r = 2 \<or> r = 5"
  by (simp add: demo_pin_def isInterestingReg_def)

lemma demo_range: "[REG_GR_BASE demo_pin..<REG_LAST demo_pin] = [1, 2]" "REG_Size demo_pin r = 1"
  by (simp_all add: demo_pin_def upt_rec)

lemma demo_registers:
  "reg_exprs (ThreadContext demo_pin) = [None, None]" "eflags_of (ThreadContext demo_pin) = Eflags"
  "map_reg_to_addr (ThreadContext demo_pin) = (\<lambda>r. if r = 2 then Some 1 else if r = 1 then Some 0 else None)"
  unfolding ThreadContext_def initializeMapRegToAddr_def getMaxRegAddr_def demo_range
  by (simp_all add: demo_followed demo_range fun_eq_iff numeral_2_eq_2 One_nat_def)

lemma demo_thread_simps [simp]:
  "reg_exprs demo_thread = [Some (ReadExpr 1 0), None]" "eflags_of demo_thread = Eflags"
  "map_reg_to_addr demo_thread = (\<lambda>r. if r = 2 then Some 1 else if r = 1 then Some 0 else None)"
  using demo_registers by (simp_all add: demo_thread_def)

lemma demo_pin_simps [simp]:
  "REG_Size demo_pin r = 1" "REG_FullRegName demo_pin r = r" "REG_is_gr32 demo_pin r = False"
  "REG_is_Upper8 demo_pin r = False" "REG_LAST demo_pin = 3"
  by (simp_all add: demo_pin_def)

lemma demo_reg_addr:
  "regToRegAddr demo_pin demo_thread r = (if r = 2 then Some 1 else if r = 1 then Some 0 else None)"
  by (simp add: regToRegAddr_def)

lemma demo_env_simps [simp]:
  "pin demo_instr_env = demo_pin" "builder_of demo_instr_env = demo_builder" "apint_of demo_instr_env = bv_api"
  "thread demo_pin_state = demo_thread" "rt_ctx demo_runtime = demo_context" "rt_taken demo_runtime"
  by (simp_all add: demo_instr_env_def demo_solver_env_def demo_pin_state_def demo_runtime_def)

lemma demo_layout: "layout_ok demo_pin demo_thread"
  unfolding demo_thread_def using layout_ok_start [OF demo_pin_ok] demo_registers(1) by (simp add: layout_ok_exprs)

lemma demo_reg_exprs:
  "getExprFromRegAddr demo_thread a = (if a = 0 then Some (Some (ReadExpr 1 0)) else if a = 1 then Some None else None)"
proof (cases "a = 0 \<or> a = 1")
  case True
  then show ?thesis
    by (auto simp: getExprFromRegAddr_def One_nat_def)
next
  case False
  have "unat a \<noteq> 0" "unat a \<noteq> 1"
    using False word_unat_eq_iff [of a 0] word_unat_eq_iff [of a 1] by auto
  with False show ?thesis
    by (simp add: getExprFromRegAddr_def)
qed

lemma demo_tracks: "tracks True UNIV (\<lambda>_. 0) demo_regs (getExprFromRegAddr demo_thread)"
  by (simp add: tracks_def demo_reg_exprs demo_regs_def)

lemma demo_agrees:
  "agrees_with True True UNIV (\<lambda>_. 0) (\<lambda>_. True) demo_instr_env demo_memory demo_regs (\<lambda>_. []) (\<lambda>_. no_flags) demo_pin_state"
proof -
  have "memory_holds True UNIV (\<lambda>_. 0) demo_memory (\<lambda>_. True) demo_pin_state"
    using demo_page_memory_law by (simp add: memory_holds_def tracks_def demo_memory_def demo_pin_state_def)
  then show ?thesis
    using demo_builder_sound demo_pin_ok bv_api_ok flags_ok_init demo_layout demo_tracks
    by (simp add: agrees_with_def pin_holds_def state_holds_def)
qed

lemma demo_registers_at:
  "registers_at demo_instr_env demo_memory demo_regs (\<lambda>_. 0) demo_runtime 1 2 1 0 1 demo_pin_state"
  by (auto simp: registers_at_def reg_at_def demo_reg_addr reg_size_def cpu_context_def demo_context_def demo_memory_def
      demo_regs_def)

lemma demo_of_registers: "of_registers demo_pin 1 2 (demo_ins x)"
  by (simp add: of_registers_def shape_at_def demo_ins_def demo_followed)

lemma demo_contents [simp]: "demo_regs \<rho> 0 = \<rho> 0" "demo_regs \<rho> 1 = 7"
  by (simp_all add: demo_regs_def)

text \<open>Some inputs differ.\<close>

lemma inputs_differ: "\<not> (\<forall>\<rho> :: assignment. uint (\<rho> 0) = 0)" "\<not> (\<forall>\<rho> :: assignment. \<rho> 0 = 0)"
  by (auto intro!: exI [of _ "\<lambda>_. 1"])

end
