(* ===== verification/Spec2Isabelle.thy ===== *)
theory Spec2Isabelle
  imports ConcretePin
begin

text \<open>
  A verification development for QSYM (\<open>src/qsym/pintool\<close>), a concolic execution engine. A pintool
  runs a program on a concrete input, keeps for every byte of its memory and registers an
  expression over the input bytes, and at every conditional branch asks Z3 for an input that takes
  the same path up to the branch and then goes the other way. The development models how
  expressions are represented, built, simplified, compared, cached and evaluated; how every
  instruction is given to a handler, and what the handlers do to the expressions of memory,
  registers and flags; which branches and blocks are worth solving; how the path condition is
  recorded; and how it is cut down to the constraints that matter, handed to Z3 and turned into
  test cases.

  \<^bold>\<open>The parts and how they interact.\<close>
  Before a piece of the program runs for the first time, \<open>analyzeTrace\<close> looks at its instructions and
  has Pin insert calls of instruction handlers before them. A handler reads the expressions of its
  operands from the memory (\<open>Memory\<close>) and the registers (\<open>ThreadContext\<close>), records its operation for
  the flags (\<open>Eflags\<close>), and stores the expression of the result; where nothing is symbolic it does
  nothing. The handlers call the global \<open>g_expr_builder\<close>, a chain of builders in which each
  layer simplifies and passes on to the layer below (\<open>next_\<close>). The lowest layers make objects and
  look them up in the expression cache. One optional layer asks the call stack manager whether an
  expression is still interesting in its calling context, and evaluates it when it is not. The
  handler of a conditional jump has the flags build the condition, and
  the branch reaches \<open>Solver::addJcc\<close>, which asks the branch map (\<open>AflTraceMap\<close>) whether the branch is
  worth solving; if so \<open>negatePath\<close> collects the constraints that share input bytes with it from
  the dependency forest, and calls Z3. Then \<open>addConstraint\<close> records the branch, either as a range of
  values of an expression (\<open>RangeSet\<close>) or as a node of the forest.

  \<^bold>\<open>Theories and sources.\<close>
  \<^item> \<open>Prelude\<close>: outcomes with a state, \<open>assert\<close> and the reasoning rules \<open>runs\<close> for them.
  \<^item> \<open>BitVec\<close>: the SMT-LIB operations on bit vectors, which Z3 gives to expressions, and what is
    relied on of LLVM's \<open>APInt\<close> (\<open>apint_ok\<close>: its operations compute modulo \<open>2 ^ width\<close>).
  \<^item> \<open>Expr\<close>, \<open>ExprSem\<close>: the expression classes (\<open>expr.h\<close>), the queries on them (\<open>codegen/expr.cpp\<close>)
    and their meaning \<open>den\<close>, as \<open>toZ3ExprRecursively\<close> assigns it.
  \<^item> \<open>ExprCache\<close>: \<open>expr_cache.cpp\<close>. \<open>CallStack\<close>: \<open>call_stack_manager.cpp\<close>. \<open>XXHash\<close>: the 32-bit hash
    of \<open>third_party/xxhash/xxhash.cpp\<close>. \<open>AflTraceMap\<close>: \<open>afl_trace_map.cpp\<close>.
  \<^item> \<open>Builder\<close>: \<open>ExprBuilder\<close>, \<open>BaseExprBuilder\<close> and \<open>CacheExprBuilder\<close> (\<open>expr_builder.h\<close> and
    \<open>codegen/gen_expr_builder.py\<close>). \<open>BuilderLaws\<close>: the contract of a builder (locale
    \<open>sound_builder\<close>) and of a layer (locale \<open>layer\<close>). \<open>ConstFold\<close>, \<open>CommonSimplify\<close>, \<open>Symbolic\<close>,
    \<open>SymbolicSound\<close>: the layers of \<open>codegen/expr_builder.cpp\<close> and their proofs. \<open>BuilderStacks\<close>: the
    commutative and the pruning layer and the stacks that the \<open>create\<close> methods put together.
    \<open>BuilderDeps\<close>: that no builder brings in input bytes (locale \<open>frugal_builder\<close>).
  \<^item> \<open>Evaluate\<close>: \<open>expr_evaluate.cpp\<close>.
  \<^item> \<open>RangeSet\<close>: \<open>third_party/llvm/range.h\<close>, \<open>range.cpp\<close> and the range part of \<open>codegen/expr.cpp\<close>.
  \<^item> \<open>Dependency\<close>: \<open>dependency.h\<close>, with the interface of an index by bytes (locale
    \<open>dependency_index\<close>).
  \<^item> \<open>Solver\<close>: the operations of \<open>solver.cpp\<close>. \<open>SolverSound\<close>: the forest and the range sets
    together are equivalent to the recorded path (\<open>path_inv\<close>). \<open>SolverFlip\<close>: what is asserted is the
    slice of the path, and a model of it is an input that follows the path.
  \<^item> \<open>Flags\<close>: \<open>flags.h\<close>, \<open>flags.cpp\<close>. \<open>FlagsSound\<close>: the flags that the processor computes, and that
    the expressions have their values.
  \<^item> \<open>Memory\<close>: \<open>memory.h\<close>, \<open>memory.cpp\<close>, \<open>allocation.cpp\<close>. \<open>ThreadContext\<close>: \<open>thread_context.h\<close>,
    \<open>thread_context.cpp\<close>, \<open>common.h\<close>. \<open>Shadow\<close>: the interface that the two have in common (locale
    \<open>shadow\<close>), a byte of the program and its expression, and what ranges of bytes mean.
    \<open>MemorySound\<close>, \<open>ThreadSound\<close>: the invariant of the page table, the places of the registers, the
    interpretations \<open>mem\<close> and \<open>regs\<close>, and the operations that map and unmap pages.
  \<^item> \<open>Instrument\<close> (operands), \<open>InstrumentArith\<close> (arithmetic, shifts), \<open>InstrumentBits\<close> (conversions,
    bit scans and tests, quotients), \<open>InstrumentMove\<close> (jumps, moves, the stack, strings),
    \<open>InstrumentSimd\<close>, \<open>InstrumentShuffle\<close> (vectors): every handler of \<open>instrument.cpp\<close>.
    \<open>InstrumentSound\<close>: that the state of the tool goes on agreeing with the processor's.
  \<^item> \<open>Dispatch\<close>, \<open>DispatchFuns\<close>: \<open>analysis_instruction.cpp\<close>, the calls that are inserted for an
    instruction. \<open>DispatchTable\<close>: the \<open>switch\<close> of \<open>analysis.cpp\<close>. \<open>DispatchRun\<close>: the declarations of
    \<open>instrument.h\<close> and the step from an inserted call to its handler. \<open>DispatchSound\<close>: that the calls
    fit the declarations. \<open>InstrumentPath\<close>: the composition, from the opcode to the condition that
    \<open>addJcc\<close> gets.
  \<^item> \<open>ConcreteRun\<close>, \<open>ConcretePin\<close>: a run of one branch and a small processor, the concrete inputs of
    several witnesses.

  \<^bold>\<open>State and effects.\<close>
  A C++ object is a record and a method a function that takes and returns it; \<open>None\<close> is a failed
  \<open>QSYM_ASSERT\<close>, a \<open>LOG_FATAL\<close>, an \<open>UNREACHABLE\<close> or undefined behaviour. An expression object has an
  identity (\<open>oid\<close>), so that equality of pointers and of data differ as they do in the code; the
  \<open>std::shared_ptr\<close> to it is the value. The fields in which an object remembers computed data are
  not kept where the data never changes (hash, dependencies, leading zeros); \<open>evaluation_\<close> and
  \<open>range_sets\<close>, which change, are maps in the state of the builders (\<open>bst\<close>) and of the solver.
  Arguments of a call are evaluated from left to right, an order that C++ leaves open. The trees of
  the forest live in a store; a \<open>std::set\<close> of pointers to them is visited in the order of the store.
  Machine words are \<open>w word\<close> where they wrap (\<open>AflTraceMap\<close>, \<open>CallStack\<close>, \<open>XXHash\<close>); widths and
  indices of expressions are \<open>nat\<close>, values of constants \<open>int\<close> in \<open>[0, 2 ^ width)\<close>. Addresses are
  \<open>64 word\<close>. The state of the memory extends that of the builders, the state of a thread that of
  the memory, and the state of the tool (\<open>pin_state\<close>) adds the solver; pages are areas of cells, and
  a pointer into one is the number of its area and cell, so that pages that share cells do so in the
  model. The handlers that are passed to Pin as function pointers are the constructors of
  \<open>analysis_fun\<close>, an opcode is its name, and a function that inserts calls returns the list of them.

  \<^bold>\<open>Parameters.\<close>
  LLVM's \<open>APInt\<close> (a record of its operations, with \<open>apint_ok\<close>); the digests of \<open>Expr::hash\<close>; which
  weak pointers have expired at a time; Z3 (\<open>z3_check\<close>, \<open>z3_eval\<close>, with \<open>z3_ok\<close>: a model that is
  reported satisfies what was asserted); the images that Pin has loaded; whether an output file
  opens. Of Pin: its registers with their sizes and classes (\<open>pin_api\<close>), what an instruction and its
  operands are (\<open>ins\<close>), the registers, the memory and the arguments of inserted calls at run time
  (\<open>CONTEXT\<close>, \<open>runtime\<close>). Of the system: what \<open>realloc\<close> leaves in new memory, the addresses of the
  vdso, and libdft's table of system calls with its hooks. \<open>ConcreteRun\<close>, \<open>ConcretePin\<close> and the
  witnesses give concrete functions for all that the properties need.

  \<^bold>\<open>Bounds.\<close>
  \<open>CommonSimplifyExprBuilder\<close> and \<open>SymbolicExprBuilder\<close> call themselves on expressions that they
  have just built. The model unfolds these calls to depth \<open>m\<close> and \<open>n\<close>; beyond, the outcome is \<open>None\<close>.
  Soundness holds for every depth, so it says nothing of an input for which no depth is enough; no
  depth is proved to be enough in general, but the witnesses show that a small one is on theirs.
  For \<open>CommutativeExprBuilder\<close> two levels are proved to be all (C13), and constant folding, evaluation
  and the forest are total. \<open>fuel\<close> bounds the questions of \<open>getMinValue\<close>, \<open>getMaxValue\<close> and \<open>solveAll\<close>,
  which end when Z3 finds no further value.

  \<^bold>\<open>What the lemmas show.\<close>
  C1 to C6: the solver, up to the property of whole runs that every test case follows the path and
  flips the branch. C7 to C15: builders keep meanings, and where they do not (nested quotients,
  C8), evaluation, bit tests. The flag \<open>dv\<close> of \<open>den\<close> tells whether quotients have a meaning: where
  they are rewritten unsoundly the theorems are about expressions without them. C16 to C18: the
  cache. C19 and C20: the call stack. C21 to C23: the branch map. C24 to C26: range sets. C27 to C29:
  the dependency forest. C30 and C31: xxHash. C32 to C34: the flags, and where their expressions are
  not the processor's. C35 and C36: instructions on two registers and the jump after a
  comparison, from the opcode to the state of the tool, for every input at once. C37: for any
  instruction the inserted calls fit the handlers. C38: instructions without a function of their
  own. C39: memory. C40: pruned blocks come back. With C1 and C7 to C9 these meet: the condition that
  C35 says is handed to \<open>addJcc\<close> is the branch that C1 is about. In C35, C36 and C39 the flag \<open>t\<close> of
  \<open>leads\<close> says whether the outcome is also proved to exist; it does whenever the builder is
  total (\<open>builder_on\<close>), as the one of constant folding is (C10).

  \<^bold>\<open>Not modelled.\<close>
  Printing, timing, log, trace and option code, and \<open>main.cpp\<close>, which starts the tool; the tables of
  system calls of libdft and Pin itself with its decoder, which are parameters; the 64-bit xxHash,
  which is not called; \<open>instrumentFild\<close>, which is declared and has no body. The vector handlers
  and the handlers of strings, shifts and quotients are modelled, and C37 covers their
  calls, but no law of their results is proved; several of them do not compute what the processor
  does.
\<close>

section \<open>The solver\<close>

text \<open>
  C1. The main property. A run records its branches with \<open>Solver::addJcc\<close>, from an empty solver and
  with the builders of \<open>SymbolicExprBuilder::create\<close>; \<open>branches\<close> lists them with the directions
  that the run took. Then every test case that was written belongs to one of the branches, and as
  an input takes the other direction there; and unless its name carries the suffix
  \<open>optimistic\<close>, it takes all branches before in the directions of the run
  (\<open>follows\<close>, \<open>flips\<close>). Z3 enters with what it documents of models (\<open>z3_ok\<close>). A branch
  whose negation no input satisfies is excluded, and a boolean node that \<open>syncConstraints\<close> itself
  reports as incorrect (\<open>nodes_constrainable\<close>).
\<close>

theorem run_follows_paths:
  assumes "g_expr_builder E = SymbolicExprBuilder_create Eb m n" and "apint_ok (apint Eb)"
    and "apint_ok (solver_apint E)" and "z3_ok False E"
    and "dep_forest s = empty_forest" and "rsets s = (\<lambda>_. no_range_sets)" and "testcases s = []"
    and "take_branches E branches s = Some s'"
    and "\<And>e t pc. (e, t, pc) \<in> set branches \<Longrightarrow> den False (input_of (inputs E)) e = Some (BoolV t) \<and>
       (isConcrete e \<or> (\<exists>\<sigma>. den False \<sigma> e = Some (BoolV (\<not> t))))"
    and "\<And>pre b post s1. branches = pre @ b # post \<Longrightarrow> take_branches E pre s = Some s1 \<Longrightarrow>
       nodes_constrainable False (input_of (inputs E)) s1"
  shows "\<forall>c \<in> set (testcases s'). follows False E branches c"
proof -
  have B: "builder_ok False (g_expr_builder E)" "frugal (g_expr_builder E)"
    using assms(1,2) by (simp_all add: builder_ok_def frugal_def symbolic_stack_sound symbolic_stack_frugal)
  show ?thesis
    using take_branches_law [OF B assms(3,4) path_inv_init [OF assms(5,6)] assms(7,8)] assms(9,10) by blast
qed

theorem run_follows_paths_witness:
  "\<exists>s'. take_branches demo_solver_env [(demo_branch, True, 0)] demo_solver = Some s' \<and>
     testcases s' = [(Some ''out/000000'', [66])] \<and>
     (\<forall>c \<in> set (testcases s'). follows False demo_solver_env [(demo_branch, True, 0)] c)"
proof -
  obtain s' where s': "addJcc demo_solver_env demo_branch True 0 demo_solver = Some s'"
    "testcases s' = [(Some ''out/000000'', [66])]"
    using demo_run by blast
  have run: "take_branches demo_solver_env [(demo_branch, True, 0)] demo_solver = Some s'"
    using s'(1) by simp
  have "\<forall>c \<in> set (testcases s'). follows False demo_solver_env [(demo_branch, True, 0)] c"
  proof (rule run_follows_paths [where Eb = demo_env and m = "Suc 0" and n = "Suc 0", OF _ _ _ demo_z3 _ _ _ run])
    show "den False (input_of (inputs demo_solver_env)) e = Some (BoolV t) \<and>
        (isConcrete e \<or> (\<exists>\<sigma>. den False \<sigma> e = Some (BoolV (\<not> t))))"
      if "(e, t, pc) \<in> set [(demo_branch, True, 0)]" for e t and pc :: addr
    proof -
      have "\<exists>\<sigma> :: assignment. \<sigma> 0 \<noteq> 65"
        by (rule exI [of _ "\<lambda>_. 0"]) simp
      with that show ?thesis
        by (auto simp: demo_branch_den demo_solver_env_def input_of_def)
    qed
    show "nodes_constrainable False (input_of (inputs demo_solver_env)) s1"
      if "[(demo_branch, True, 0)] = pre @ b # post" "take_branches demo_solver_env pre demo_solver = Some s1"
      for pre b post s1
      using that by (auto simp: Cons_eq_append_conv nodes_constrainable_def empty_forest_def)
  qed (simp_all add: demo_solver_env_def demo_env_def bv_api_ok)
  with run s'(2) show ?thesis
    by blast
qed

text \<open>
  C2. The path condition. Recording a branch (\<open>Solver::addConstraint\<close>) puts it into the dependency
  forest, as a node or as range sets of its canonical expression, so that the state goes on
  saying just what the recorded branches say: an input satisfies all nodes and ranges just if it
  takes all branches in the recorded directions.
\<close>

theorem addConstraint_keeps_path:
  assumes "g_expr_builder E = SymbolicExprBuilder_create Eb m n" and "apint_ok (apint Eb)"
    and "apint_ok (solver_apint E)" and "path_inv False \<rho>0 cs ns s"
    and "den False \<rho>0 e = Some (BoolV t)" and "addConstraint_path E e t s = Some s'"
  shows "\<exists>ns'. path_inv False \<rho>0 (cs @ [(e, t)]) ns' s'"
proof -
  have B: "builder_ok False (g_expr_builder E)"
    using assms(1,2) by (simp add: builder_ok_def symbolic_stack_sound)
  show ?thesis
    by (rule path_inv_path [OF B assms(3-6)])
qed

theorem addConstraint_keeps_path_witness:
  "\<exists>ns' s'. addConstraint_path demo_solver_env demo_branch True demo_solver = Some s' \<and>
     path_inv False (\<lambda>_. 65) [(demo_branch, True)] ns' s'"
proof -
  obtain s' where s': "addConstraint_path demo_solver_env demo_branch True demo_solver = Some s'"
    using demo_record [of demo_solver] by auto
  have "\<exists>ns'. path_inv False (\<lambda>_. 65) ([] @ [(demo_branch, True)]) ns' s'"
    by (rule addConstraint_keeps_path [where Eb = demo_env and m = "Suc 0" and n = "Suc 0" and ns = "[]", OF _ _ _ _ _ s'])
      (simp_all add: demo_solver_env_def demo_env_def bv_api_ok demo_branch_den path_inv_init)
  with s' show ?thesis
    by auto
qed

text \<open>
  C3. The slice. After a reset, \<open>syncConstraints\<close> asserts terms over the bytes of the slice of the
  expression only, the bytes that it is connected to through recorded branches; and they hold
  just if all nodes of the slice do.
\<close>

theorem syncConstraints_asserts_slice:
  assumes "g_expr_builder E = SymbolicExprBuilder_create Eb m n" and "apint_ok (apint Eb)"
    and "path_inv False \<rho>0 cs ns s" and "\<And>n. n \<in> set ns \<Longrightarrow> constrainable False \<rho>0 n"
    and "syncConstraints E e (reset s) = Some s'"
  shows "(\<forall>z \<in> set (asserted s'). getDeps (zterm z) \<subseteq> bytes_of_slice e s) \<and>
    (\<forall>\<rho>. (\<forall>n \<in> slice_of e s. den False \<rho> n \<noteq> None) \<longrightarrow>
       ((\<forall>z \<in> set (asserted s'). zsem False \<rho> z = Some True) \<longleftrightarrow>
        (\<forall>n \<in> slice_of e s. node_holds False (rsets s) \<rho> n)))"
proof -
  have B: "builder_ok False (g_expr_builder E)" "frugal (g_expr_builder E)"
    using assms(1,2) by (simp_all add: builder_ok_def frugal_def symbolic_stack_sound symbolic_stack_frugal)
  have inv: "path_inv False \<rho>0 cs ns (reset s)"
    using assms(3) by simp
  obtain s1 where ex: "\<exists>F'. s1 = (reset s)\<lparr>dep_forest := F'\<rparr>"
    and a: "asserts False (bytes_of_slice e (reset s)) (\<lambda>\<rho>. \<forall>n \<in> slice_of e (reset s). den False \<rho> n \<noteq> None)
       (\<lambda>\<rho>. \<forall>n \<in> slice_of e (reset s). node_holds False (rsets (reset s)) \<rho> n) s1 s'"
    by (rule syncConstraints_law [OF B inv assms(4,5)])
  have "asserted s1 = []"
    using ex by (auto simp: asserted_def reset_def)
  then show ?thesis
    using a unfolding asserts_def reset_same within_def by fastforce
qed

theorem syncConstraints_asserts_slice_witness:
  "\<exists>s1 s2. addConstraint_path demo_solver_env demo_branch True demo_solver = Some s1 \<and>
     syncConstraints demo_solver_env demo_branch (reset s1) = Some s2 \<and>
     length (asserted s2) = 1 \<and> bytes_of_slice demo_branch s1 = {0} \<and> slice_of demo_branch s1 = {ReadExpr 1 0} \<and>
     (\<forall>z \<in> set (asserted s2). getDeps (zterm z) \<subseteq> {0}) \<and>
     (\<forall>\<rho>. node_holds False (rsets s1) \<rho> (ReadExpr 1 0) \<longleftrightarrow> \<rho> 0 = 65)"
proof -
  obtain b where sync: "syncConstraints demo_solver_env demo_branch (reset demo_recorded) =
      Some ((reset demo_recorded)\<lparr>bs := b, frames := [[Holds demo_asserted]]\<rparr>)"
    using demo_recorded_sync by blast
  let ?s = "(reset demo_recorded)\<lparr>bs := b, frames := [[Holds demo_asserted]]\<rparr>"
  have A: "asserted ?s = [Holds demo_asserted]"
    by (simp add: asserted_def)
  have slice: "slice_of demo_branch demo_recorded = {ReadExpr 1 0}" "bytes_of_slice demo_branch demo_recorded = {0}"
    by (auto simp: dependency_index.slice_def [OF forest.dependency_index_axioms] tree_nodes_def slot_def
        dependency_index.slice_bytes_def [OF forest.dependency_index_axioms] demo_branch_def demo_recorded_def)
  obtain ns where inv: "path_inv False (\<lambda>_. 65) [(demo_branch, True)] ns demo_recorded" and ns: "set ns = {ReadExpr 1 0}"
    using demo_recorded_inv by blast
  have law: "(\<forall>z \<in> set (asserted ?s). getDeps (zterm z) \<subseteq> bytes_of_slice demo_branch demo_recorded) \<and>
    (\<forall>\<rho>. (\<forall>n \<in> slice_of demo_branch demo_recorded. den False \<rho> n \<noteq> None) \<longrightarrow>
       ((\<forall>z \<in> set (asserted ?s). zsem False \<rho> z = Some True) \<longleftrightarrow>
        (\<forall>n \<in> slice_of demo_branch demo_recorded. node_holds False (rsets demo_recorded) \<rho> n)))"
    by (rule syncConstraints_asserts_slice [where Eb = demo_env and m = "Suc 0" and n = "Suc 0", OF _ _ inv _ sync])
      (use ns in \<open>simp_all add: demo_solver_env_def demo_env_def bv_api_ok constrainable_def\<close>)
  then have "node_holds False (rsets demo_recorded) \<rho> (ReadExpr 1 0) \<longleftrightarrow> \<rho> 0 = 65" for \<rho>
    unfolding A slice by (simp add: zsem_def demo_asserted_den)
  with law show ?thesis
    using demo_recorded_run sync A slice by (intro exI [of _ demo_recorded] exI [of _ ?s]) simp
qed

text \<open>
  C4. Range constraints. The expression that \<open>getRangeConstraint\<close> builds for a bit vector holds
  just if its value is in the recorded set, read signed or unsigned. It is null just if there is
  no set or the set is empty: an empty set, which no value satisfies, is not asserted at all.
\<close>

theorem getRangeConstraint_exact:
  assumes "g_expr_builder E = SymbolicExprBuilder_create Eb m n" and "apint_ok (apint Eb)"
    and "range_sets_ok (bits e) (rsets s e)" and "den False \<rho> e = Some (BV (bits e) v)"
    and "getRangeConstraint E e u s = Some (r, s')"
  shows "(r = None \<longleftrightarrow> (\<forall>S. getRangeSet u (rsets s e) = Some S \<longrightarrow> ranges S = [])) \<and>
    (\<forall>x. r = Some x \<longrightarrow> (\<exists>S. getRangeSet u (rsets s e) = Some S \<and>
       den False \<rho> x = Some (BoolV (aps_read (factory u (bits e)) v \<in> members (ranges S)))))"
proof -
  have B: "builder_ok False (g_expr_builder E)"
    using assms(1,2) by (simp add: builder_ok_def symbolic_stack_sound)
  have n: "0 < bits e"
    using den_BV [OF assms(4)] by blast
  note law = getRangeConstraint_law [OF B assms(3) n assms(5)]
  show ?thesis
    using law(2) law(3) [OF _ assms(4)] by (metis option.distinct(1))
qed

theorem getRangeConstraint_exact_witness:
  "getRangeConstraint demo_solver_env (ReadExpr 1 0) False demo_ranged = Some (None, demo_ranged) \<and>
   (\<exists>s'. getRangeConstraint demo_solver_env (ReadExpr 1 0) False demo_recorded = Some (Some demo_asserted, s') \<and>
     den False (\<lambda>_. 7) demo_asserted = Some (BoolV False))"
proof -
  have S: "getRangeSet False (rsets demo_ranged (ReadExpr 1 0)) = Some \<lparr>BV_ranges = factory False 8, ranges = []\<rparr>"
    by (simp add: demo_ranged_def setRangeSet_def getRangeSet_def)
  have R: "getRangeSet False (rsets demo_recorded (ReadExpr 1 0)) = Some \<lparr>BV_ranges = factory False 8, ranges = [(65, 65)]\<rparr>"
    by (simp add: demo_recorded_def demo_range_sets_def getRangeSet_def)
  have ok: "range_sets_ok 8 (rsets s (ReadExpr 1 0))" if "s = demo_ranged \<or> s = demo_recorded" for s
    using that by (auto simp: demo_ranged_def demo_recorded_def demo_range_sets_def range_sets_ok_def setRangeSet_def
        getRangeSet_def ranges_ok_def no_range_sets_def factory_def GetMinValue_def GetMaxValue_def split: if_splits)
  have law: "(r = None \<longleftrightarrow> (\<forall>S. getRangeSet False (rsets s (ReadExpr 1 0)) = Some S \<longrightarrow> ranges S = [])) \<and>
    (\<forall>x. r = Some x \<longrightarrow> (\<exists>S. getRangeSet False (rsets s (ReadExpr 1 0)) = Some S \<and>
       den False (\<lambda>_. 7) x = Some (BoolV (aps_read (factory False 8) 7 \<in> members (ranges S)))))"
    if "range_sets_ok 8 (rsets s (ReadExpr 1 0))"
      "getRangeConstraint demo_solver_env (ReadExpr 1 0) False s = Some (r, s')" for s r s'
    using getRangeConstraint_exact [where E = demo_solver_env and Eb = demo_env and m = "Suc 0" and n = "Suc 0"
        and e = "ReadExpr 1 0" and u = False and s = s and r = r and \<rho> = "\<lambda>_. 7" and v = 7, OF _ _ _ _ that(2)] that(1)
    by (simp add: demo_solver_env_def demo_env_def bv_api_ok)
  obtain r s' where 1: "getRangeConstraint demo_solver_env (ReadExpr 1 0) False demo_ranged = Some (r, s')" "s' = demo_ranged"
    by (simp add: getRangeConstraint_def S)
  obtain b where 2: "getRangeConstraint demo_solver_env (ReadExpr 1 0) False demo_recorded =
      Some (Some demo_asserted, demo_recorded\<lparr>bs := b\<rparr>)"
    using demo_range_constraint [of demo_recorded] by (auto simp: demo_recorded_def)
  have "r = None"
    using law [OF ok 1(1)] S by simp
  moreover have "den False (\<lambda>_. 7) demo_asserted = Some (BoolV False)"
    using law [OF ok 2] R by (simp add: factory_def aps_read_def sval_def)
  ultimately show ?thesis
    using 1 2 by blast
qed

text \<open>
  C5. \<open>getCanonicalExpr\<close> splits a sum or difference with a constant: the value is that of the
  canonical expression plus the constant, in the width of the expression.
\<close>

theorem getCanonicalExpr_splits:
  assumes "g_expr_builder E = SymbolicExprBuilder_create Eb m n" and "apint_ok (apint Eb)"
    and "getCanonicalExpr E x s = Some ((canonical, w, a), s')" and "den False \<rho> x = Some (BV k v)"
  shows "w = k \<and> (\<exists>y. den False \<rho> canonical = Some (BV k y) \<and> (y + a) mod 2 ^ k = v)"
proof -
  have B: "builder_ok False (g_expr_builder E)"
    using assms(1,2) by (simp add: builder_ok_def symbolic_stack_sound)
  show ?thesis
    using canonical_law(2) [OF B assms(3,4)] by (simp add: take_bit_eq_mod)
qed

theorem getCanonicalExpr_splits_witness:
  "\<exists>y. den False (\<lambda>_. 7) (ReadExpr 1 0) = Some (BV 8 y) \<and> (y + 250) mod 2 ^ 8 = 1"
proof -
  have "getCanonicalExpr demo_solver_env (BinaryExpr 5 Add (ConstantExpr 4 250 8) (ReadExpr 1 0)) demo_solver =
      Some ((ReadExpr 1 0, 8, 250), demo_solver)"
    by (simp add: getCanonicalExpr_def)
  from getCanonicalExpr_splits [where Eb = demo_env and m = "Suc 0" and n = "Suc 0" and \<rho> = "\<lambda>_. 7" and k = 8
      and v = 1, OF _ _ this]
  show ?thesis
    by (simp add: demo_solver_env_def demo_env_def bv_api_ok compareKind_def)
qed

text \<open>
  C6. The names of test cases. \<open>toString6digit\<close> gives the numbers below a million distinct names of
  six characters; a number of seven digits gets the name of its first six, so from there on test
  cases overwrite earlier ones.
\<close>

theorem toString6digit_names:
  "inj_on toString6digit {n. n < 10 ^ 6} \<and> (\<forall>n < 10 ^ 6. length (toString6digit n) = 6) \<and>
   (\<forall>n \<in> {10 ^ 6..<10 ^ 7}. toString6digit n = toString6digit (n div 10))"
  using toString6digit_small toString6digit_collision
  by (auto intro!: inj_onI) metis

theorem toString6digit_names_witness: "toString6digit 1000000 = toString6digit 100000"
  using toString6digit_names by auto

section \<open>The builders\<close>

text \<open>
  C7. Whatever a builder made by \<open>SymbolicExprBuilder::create\<close> returns means, under every
  assignment of the input bytes, what the operation means on the meanings of the operands.
  Expressions with quotients are excluded (see C8).
\<close>

theorem symbolic_create_sound:
  assumes "apint_ok (apint E)"
  shows "sound_builder False False \<rho> (\<lambda>_. True) (SymbolicExprBuilder_create E m n)"
  using assms by (rule symbolic_stack_sound)

theorem symbolic_create_sound_witness:
  "sound_builder False False (\<lambda>_. 0) (\<lambda>_. True) (SymbolicExprBuilder_create quotient_env 4 4)"
  using symbolic_create_sound [of quotient_env "\<lambda>_. 0" 4 4] by (simp add: quotient_env_def bv_api_ok)

text \<open>
  C8. The exclusion is needed. \<open>createUDiv\<close> rewrites \<open>(x / 16) / 17\<close> on eight bits to \<open>x / 16\<close>,
  because the product of the two divisors is taken modulo 256. For the byte 255 the result is 15
  and not 0.
\<close>

theorem createUDiv_changes_value:
  "\<exists>e s. createBinaryExpr (SymbolicExprBuilder_create quotient_env (Suc m) (Suc (Suc n))) UDiv
       (BinaryExpr 2 UDiv (ReadExpr 0 0) (ConstantExpr 1 16 8)) (ConstantExpr 3 17 8) quotient_state = Some (e, s) \<and>
     den True (\<lambda>_. 255) (BinaryExpr 2 UDiv (ReadExpr 0 0) (ConstantExpr 1 16 8)) = Some (BV 8 15) \<and>
     sem_binary True UDiv (BV 8 15) (BV 8 17) = Some (BV 8 0) \<and>
     den True (\<lambda>_. 255) e = Some (BV 8 15)"
  using quotient_product [of m n] quotient_differs by blast

text \<open>
  C9. The builders of \<open>PruneExprBuilder::create\<close> replace expressions by their concrete values where
  the code has become uninteresting. For the input of the run the meaning is kept.
\<close>

theorem prune_create_sound:
  assumes "apint_ok (apint E)"
  shows "sound_builder False False (input_of inp) (evaluations_ok inp) (PruneExprBuilder_create E inp m n)"
  using assms by (rule prune_stack_sound)

theorem prune_create_sound_witness:
  "sound_builder False False (input_of [65]) (evaluations_ok [65]) (PruneExprBuilder_create quotient_env [65] 4 4)"
  using prune_create_sound [of quotient_env "[65]" 4 4] by (simp add: quotient_env_def bv_api_ok)

text \<open>
  C10. The constant folding builder on the cached base builder, the lower part of every stack, comes
  back from every call on operands that have a meaning, with an expression of the right meaning,
  quotients included.
\<close>

theorem folding_total:
  assumes "apint_ok (apint E)"
  shows "sound_builder True True \<rho> (\<lambda>_. True) (const_folding_builder (apint E) (cached_base E))"
  using assms by (rule folding_stack_sound) simp

theorem folding_total_witness:
  "sound_builder True True (\<lambda>_. 0) (\<lambda>_. True) (const_folding_builder (apint quotient_env) (cached_base quotient_env))"
  using folding_total [of quotient_env "\<lambda>_. 0"] by (simp add: quotient_env_def bv_api_ok)

text \<open>
  C11. No builder brings in input bytes: what a builder of \<open>SymbolicExprBuilder::create\<close> returns
  depends on bytes of the operands only.
\<close>

theorem symbolic_create_frugal: "frugal_builder (\<lambda>_. True) D (SymbolicExprBuilder_create E m n)"
  by (rule symbolic_stack_frugal)

text \<open>
  C12. \<open>Expr::evaluate\<close> comes back with the constant that is the value of the expression for the
  input of the run, if the expression has a value and the input has the bytes.
\<close>

theorem evaluate_value:
  assumes "apint_ok (apint E)" and "den True (input_of inp) e = Some v"
    and "\<And>i. i \<in> getDeps e \<Longrightarrow> i < length inp" and "evaluations_ok inp s"
  shows "\<exists>r s'. evaluate E inp e s = Some (r, s') \<and> value_of r = Some v \<and> evaluations_ok inp s'"
  using runs_totalD [OF evaluate_law [where t = True, OF assms(1,2) _ assms(4)]] assms(3) by blast

theorem evaluate_value_witness:
  "\<exists>r s'. evaluate quotient_env [17] (BinaryExpr 1 UDiv (ReadExpr 0 0) (ConstantExpr 2 5 8)) quotient_state = Some (r, s') \<and>
     value_of r = Some (BV 8 3)"
proof -
  have "den True (input_of [17]) (BinaryExpr 1 UDiv (ReadExpr 0 0) (ConstantExpr 2 5 8)) = Some (BV 8 3)"
    by (simp add: input_of_def compareKind_def)
  from evaluate_value [of quotient_env, OF _ this, of quotient_state] show ?thesis
    by (auto simp: quotient_env_def bv_api_ok quotient_state_def evaluations_ok_def)
qed

text \<open>
  C13. \<open>CommutativeExprBuilder\<close> on any sound builder. It keeps the meaning of every operation, the
  exchanged comparisons and \<open>x - c\<close> included. And it is a normal form for the builders below:
  whatever they would answer to one of its operations with a constant on the right only does not
  matter, as they are never asked for one. It calls itself at most once more, so that the model with
  two levels is the builder that calls itself.
\<close>

theorem commutative_normalizes:
  assumes "sound_builder t dv \<rho> I next_builder"
  shows "sound_builder t dv \<rho> I (commutative_builder next_builder) \<and>
    (\<forall>other. createUnaryExpr other = createUnaryExpr next_builder \<longrightarrow>
       (\<forall>k x y. exchanges k \<and> \<not> isConstant x \<and> isConstant y \<or>
          createBinaryExpr other k x y = createBinaryExpr next_builder k x y) \<longrightarrow>
       createBinaryExpr (commutative_builder other) = createBinaryExpr (commutative_builder next_builder)) \<and>
    commutative_layer (commutative_builder next_builder) next_builder = commutative_builder next_builder"
  using commutative_sound [OF assms] commutative_normal_form commutative_fixpoint by blast

theorem commutative_normalizes_witness:
  "\<exists>e s'. createBinaryExpr (commutative_builder (const_folding_builder (apint quotient_env) (cached_base quotient_env)))
      Sub (ReadExpr 1 0) (ConstantExpr 2 5 8) demo_bst = Some (e, s') \<and> den True (\<lambda>_. 3) e = Some (BV 8 254)"
proof -
  let ?C = "commutative_builder (const_folding_builder (apint quotient_env) (cached_base quotient_env))"
  have "sound_builder True True (\<lambda>_. 3) (\<lambda>_. True) (const_folding_builder (apint quotient_env) (cached_base quotient_env))"
    by (rule folding_stack_sound) (simp_all add: quotient_env_def bv_api_ok)
  then have "sound_builder True True (\<lambda>_. 3) (\<lambda>_. True) ?C"
    using commutative_normalizes by blast
  then have "runs True (\<lambda>_. True) (createBinaryExpr ?C Sub (ReadExpr 1 0) (ConstantExpr 2 5 8) demo_bst)
      (\<lambda>e. den True (\<lambda>_. 3) e = Some (BV 8 254))"
    by (rule sound_builder.binary_law [where a = "BV 8 3" and b = "BV 8 5"]) (simp_all add: compareKind_def take_bit_eq_mod)
  from runs_totalD [OF this] show ?thesis
    by blast
qed

section \<open>Expressions\<close>

text \<open>
  C14. \<open>isZeroBit\<close> and \<open>isOneBit\<close> tell bits of the value, and \<open>countLeadingZeros\<close> counts bits that
  are zero.
\<close>

theorem bit_tests_sound:
  assumes "den dv \<rho> e = Some (BV n x)"
  shows "(isZeroBit e i \<longrightarrow> \<not> bit x i) \<and> (isOneBit e i \<longrightarrow> bit x i) \<and>
    0 \<le> x \<and> x < 2 ^ (n - countLeadingZeros e)"
  using isZeroBit_sound [OF _ assms] isOneBit_sound [OF _ assms] countLeadingZeros_sound [OF assms]
  by (auto simp: in_range_def)

theorem bit_tests_sound_witness: "\<not> bit (200 :: int) 8"
proof -
  have "uint (200 :: 8 word) = 200"
    by code_simp
  then have "den True (\<lambda>_. 200) (ConcatExpr 3 (ConstantExpr 2 0 8) (ReadExpr 1 0)) = Some (BV 16 200)"
    by (simp add: bv_concat_def)
  from bit_tests_sound [OF this, of 8] show ?thesis
    by simp
qed

text \<open>
  C15. \<open>swapKind\<close> is the comparison with the operands exchanged, and \<open>negateKind\<close> the one with the
  opposite answer.
\<close>

theorem comparison_kinds:
  "(swapKind k = Some k' \<longrightarrow> sem_binary dv k' b a = sem_binary dv k a b) \<and>
   (negateKind k = Some k' \<longrightarrow> sem_binary dv k a b = Some (BoolV p) \<longrightarrow> sem_binary dv k' a b = Some (BoolV (\<not> p)))"
  using swapKind_sem negateKind_sem by blast

theorem comparison_kinds_witness: "sem_binary True Ugt (BV 8 3) (BV 8 200) = Some (BoolV False)"
  using comparison_kinds [of Ule Ugt True "BV 8 200" "BV 8 3" True] by (simp add: compareKind_def)

text \<open>
  C16. Two objects that the cache takes for equal have the same kind, width, children and data;
  the hash never separates such objects; and they mean the same.
\<close>

theorem equalShallowly_correct:
  "(equalShallowly H a b \<longleftrightarrow> kind_of a = kind_of b \<and> bits a = bits b \<and> children a = children b \<and> equalAux a b) \<and>
   (equalShallowly H a b \<longrightarrow> den dv \<rho> a = den dv \<rho> b)"
  using equalShallowly_iff equalShallowly_den by blast

theorem equalShallowly_correct_witness:
  "den True (\<lambda>_. 3) (BinaryExpr 7 Add (ReadExpr 0 0) (ReadExpr 1 1)) =
   den True (\<lambda>_. 3) (BinaryExpr 8 Add (ReadExpr 0 0) (ReadExpr 1 1))"
  using equalShallowly_correct [of "\<lambda>_. 0" "BinaryExpr 7 Add (ReadExpr 0 0) (ReadExpr 1 1)"
      "BinaryExpr 8 Add (ReadExpr 0 0) (ReadExpr 1 1)" True "\<lambda>_. 3"]
  by (simp add: equalAux_def)

section \<open>The expression cache\<close>

text \<open>
  C17. The cache keeps its invariant: no two live elements are equal, the queue holds the live
  elements of the set, and both keep to their bounds.
\<close>

theorem cache_insert_keeps_invariant:
  assumes "cache_inv H ex c" and "\<not> ex e"
  shows "cache_inv H ex (insert H ex e c)"
  using assms by (rule insert_inv)

theorem cache_insert_keeps_invariant_witness:
  "cache_inv (\<lambda>_. 0) (\<lambda>_. False) (insert (\<lambda>_. 0) (\<lambda>_. False) (ReadExpr 0 0) ExprCache)"
  using cache_insert_keeps_invariant [OF cache_inv_init, of "\<lambda>_. False" "ReadExpr 0 0" "\<lambda>_. 0"] by simp

text \<open>C18. What was inserted is found again, or an equal object that was there before.\<close>

theorem cache_find_inserted:
  assumes "cache_inv H ex c" and "\<not> ex e" and "0 < cache_limit c"
  shows "\<exists>x. find H ex e (insert H ex e c) = Some x \<and> equalShallowly H x e"
  using insert_find [OF assms] find_sound by blast

theorem cache_find_inserted_witness:
  "\<exists>x. find (\<lambda>_. 0) (\<lambda>_. False) (ReadExpr 0 0) (insert (\<lambda>_. 0) (\<lambda>_. False) (ReadExpr 0 0) ExprCache) = Some x \<and>
     equalShallowly (\<lambda>_. 0) x (ReadExpr 0 0)"
  using cache_find_inserted [OF cache_inv_init, of "\<lambda>_. False" "ReadExpr 0 0" "\<lambda>_. 0"]
  by (simp add: ExprCache_def kCacheSize_def)

section \<open>The call stack and the branch map\<close>

text \<open>
  C19. \<open>visitRet\<close> removes the top frame if it is the address, and otherwise the whole stack: the
  search compares the top of the stack in every round. It does what unwinding to the frame of the
  address does just in the two cases in which the difference does not show.
\<close>

theorem visitRet_stack:
  "call_stack (visitRet X pc m) =
     (if call_stack m \<noteq> [] \<and> last (call_stack m) = pc then butlast (call_stack m) else []) \<and>
   (call_stack (visitRet X pc m) = unwind_to pc (call_stack m) \<longleftrightarrow>
      unwind_to pc (call_stack m) = [] \<or> last (call_stack m) = pc)"
  using visitRet_call_stack visitRet_unwind by blast

text \<open>
  C20. Of the visits of a block in one context, \<open>updateBitmap\<close> finds those interesting whose number
  divided by eight is zero or a power of two; the count is kept modulo 65536.
\<close>

theorem visits_back_off:
  assumes "length (bitmap m) = kBitmapSize" and "bitmap m ! bitmap_index X (visitBasicBlock pc m) = 0"
  shows "isInteresting (visits X pc (Suc n) m) \<longleftrightarrow>
    (n mod 2 ^ 16) div 8 = 0 \<or> (\<exists>k. (n mod 2 ^ 16) div 8 = 2 ^ k)"
  using visits_interesting [OF assms] by (simp add: backoff_def)

theorem visits_back_off_witness:
  "isInteresting (visits (\<lambda>_. 0) 0 (Suc 3) (CallStackManager 0 (replicate kBitmapSize 0)))"
proof -
  have "0 < kBitmapSize"
    by (simp add: kBitmapSize_def)
  with visits_back_off [of "CallStackManager 0 (replicate kBitmapSize 0)" "\<lambda>_. 0" 0 3] show ?thesis
    by (simp add: CallStackManager_def bitmap_index_def)
qed

text \<open>
  C21. The answer of \<open>AflTraceMap::isInterestingBranch\<close>, and all its changes. A branch is interesting
  just if its new count has a bit that the trace map lacks, or if, in a context-sensitive run and at
  a count of zero or a power of two (\<open>examined\<close>), one of the visited branches has not been before it
  yet. The virgin map counts the visit; the trace map takes over the bits of the count, and those of
  one visit of the inverse branch; the context map gets the bits of the pairs that were looked at, and
  no other; the branch is visited from its first count on; and what was found is written to the
  bitmap file, if there is one, just if the branch is interesting.
\<close>

theorem isInterestingBranch_answer:
  assumes "afl_ok m" and "finite (visited m)" and "isInterestingBranch E pc taken m = Some (r, m')"
  shows "\<exists>h inv_h. hashPc E pc taken = Some h \<and> hashPc E pc (\<not> taken) = Some inv_h \<and>
    (let i = getIndex m h; j = getIndex m inv_h; c = virgin_map m ! i; v = at i (\<lambda>x. x + 1) (virgin_map m) in
      (r \<longleftrightarrow> new_bits m i \<or> examined E c \<and> (\<exists>p \<in> visited m. \<not> pair_known (context_map m) p h)) \<and>
      afl_ok m' \<and> path m' = path m \<and> prev_loc m' = h \<and> virgin_map m' = v \<and>
      trace_map m' = (if new_bits m i
        then at j (\<lambda>x. or x (v ! j + 1)) (at i (\<lambda>x. or x (v ! i)) (trace_map m)) else trace_map m) \<and>
      (\<forall>a < kMapSize. \<forall>k. bit (context_map m' ! a) k \<longleftrightarrow>
        bit (context_map m ! a) k \<or> examined E c \<and> (\<exists>p \<in> visited m. context_bit p h = (a, push_bit k 1))) \<and>
      visited m' = (if examined E c \<and> c = 0 then visited m \<union> {h} else visited m) \<and>
      bitmap_file m' = (if r \<and> path m \<noteq> [] then Some (trace_map m' @ context_map m') else bitmap_file m))"
proof -
  obtain h b m1 where h: "hashPc E pc taken = Some h"
    and ctx: "isInterestingContext E h (ucast (virgin_map m ! getIndex m h)) m = (b, m1)"
    and r: "r \<longleftrightarrow> new_bits m (getIndex m h) \<or> b" and same: "afl_ok m'" "prev_loc m' = h" "path m' = path m"
    and v: "virgin_map m' = at (getIndex m h) (\<lambda>x. x + 1) (virgin_map m)"
    and c: "context_map m' = context_map m1" "visited m' = visited m1"
    and tr: "trace_map m' = (if new_bits m (getIndex m h)
        then traced (getIndex m h) (getIndex m (the (hashPc E pc (\<not> taken)))) m else trace_map m)"
    and written: "bitmap_file m' = (if r \<and> path m \<noteq> [] then Some (trace_map m' @ context_map m') else bitmap_file m)"
    by (rule isInterestingBranch_spec [OF assms(1,3)])
  obtain inv_h where inv: "hashPc E pc (\<not> taken) = Some inv_h"
    using hashPc_other [OF h] by blast
  have "length (context_map m) = kMapSize"
    using assms(1) by (simp add: afl_ok_def)
  note law = isInterestingContext_exact [OF this assms(2) ctx]
  show ?thesis
    unfolding Let_def
    by (intro exI [of _ h] exI [of _ inv_h] conjI allI impI)
      (fact h inv same v written | simp only: r law(1) | simp only: c law(2,3) | simp only: tr inv traced_def Let_def option.sel)+
qed

theorem isInterestingBranch_answer_witness:
  "\<exists>h m'. hashPc demo_afl 0 True = Some h \<and>
     isInterestingBranch demo_afl 0 True (AflTraceMap ''map'' None) = Some (True, m') \<and>
     visited m' = {h} \<and> bitmap_file m' = Some (trace_map m' @ context_map m')"
proof -
  let ?m = "AflTraceMap ''map'' None"
  have new: "new_bits ?m (getIndex ?m h)" and zero: "virgin_map ?m ! getIndex ?m h = 0" for h
    by (simp_all add: new_bits_def AflTraceMap_def afl_import_def setDefault_def Let_def)
  have m: "visited ?m = {}" "path ?m = ''map''" "examined demo_afl 0"
    by (simp_all add: AflTraceMap_def afl_import_def setDefault_def Let_def examined_def demo_afl_def isPowerOfTwoOrZero_def)
  have "isInterestingBranch demo_afl 0 True ?m \<noteq> None"
    by (rule isInterestingBranch_total [OF AflTraceMap_ok]) (simp_all add: demo_afl_def)
  then obtain r m' where run: "isInterestingBranch demo_afl 0 True ?m = Some (r, m')"
    by auto
  from isInterestingBranch_answer [OF AflTraceMap_ok _ run] new zero m run show ?thesis
    by (auto simp: Let_def)
qed

text \<open>C22. It comes back whenever the address is in an image and the bitmap can be written.\<close>

theorem isInterestingBranch_returns:
  assumes "afl_ok m" and "find_image E pc \<noteq> None" and "path m = [] \<or> writable E"
  shows "\<exists>r m'. isInterestingBranch E pc taken m = Some (r, m') \<and> grows (trace_map m) (trace_map m')"
  using isInterestingBranch_total [OF assms] isInterestingBranch_spec [OF assms(1)] traced_grows grows_refl
  by (metis (no_types, lifting) not_None_eq surj_pair)

theorem isInterestingBranch_returns_witness:
  "\<exists>r m'. isInterestingBranch demo_afl 0 True (AflTraceMap ''map'' None) = Some (r, m')"
  using isInterestingBranch_returns [OF AflTraceMap_ok, of demo_afl 0 "''map''" None True]
  by (auto simp: demo_afl_def)

text \<open>C23. What \<open>commit\<close> writes, \<open>import\<close> reads: a new process starts with the maps of the last commit.\<close>

theorem commit_import_roundtrip:
  assumes "afl_ok m" and "commit E m = Some m'" and "path m \<noteq> []"
  shows "trace_map (AflTraceMap (path m') (bitmap_file m')) = trace_map m \<and>
    context_map (AflTraceMap (path m') (bitmap_file m')) = context_map m"
  using commit_import [OF assms] by blast

theorem commit_import_roundtrip_witness:
  "\<exists>m'. commit demo_afl (AflTraceMap ''map'' None) = Some m' \<and>
     trace_map (AflTraceMap (path m') (bitmap_file m')) = replicate kMapSize 0"
proof -
  let ?m = "AflTraceMap ''map'' None"
  have "commit demo_afl ?m \<noteq> None"
    by (simp add: commit_def demo_afl_def)
  then obtain m' where m': "commit demo_afl ?m = Some m'"
    by blast
  have "path ?m \<noteq> []" and "trace_map ?m = replicate kMapSize 0"
    by (simp_all add: AflTraceMap_def afl_import_def setDefault_def Let_def)
  with commit_import_roundtrip [OF AflTraceMap_ok m'] m' show ?thesis
    by auto
qed

section \<open>Range sets\<close>

text \<open>
  C24. \<open>Expr::addConstraint\<close> with the comparison \<open>x + a k c\<close> keeps of the values of \<open>x\<close> just those
  that satisfy it, in modular arithmetic, signed or unsigned as the comparison is. One case is an
  exception: a comparison that no value satisfies (less than the least value, greater than the
  greatest) wraps around and keeps all.
\<close>

theorem addConstraint_exact:
  assumes "apint_ok A" and "0 < n" and "range_sets_ok n R" and "compareKind k" and "0 \<le> c" and "c < 2 ^ n"
  shows "\<exists>R'. addConstraint A n k (n, c) (n, a) R = Some R' \<and> range_sets_ok n R' \<and>
    (\<forall>x. 0 \<le> x \<and> x < 2 ^ n \<longrightarrow> (allows n R' x \<longleftrightarrow> allows n R x \<and>
       (bv_compare k n ((x + a) mod 2 ^ n) c = Some True \<or> vacuous (factory (recorded_unsigned k) n) k c)))"
  using addConstraint_step [OF assms(1-4), of c a] assms(5,6)
  by (simp add: in_range_def relation_holds_def take_bit_eq_mod)

theorem addConstraint_exact_witness:
  "\<exists>R'. addConstraint bv_api 8 Ult (8, 10) (8, 250) no_range_sets = Some R' \<and>
     allows 8 R' 15 \<and> \<not> allows 8 R' 16"
proof -
  have "\<not> vacuous (factory (recorded_unsigned Ult) 8) Ult 10"
    by (simp add: vacuous_def factory_def recorded_unsigned_def GetMinValue_def GetMaxValue_def aps_read_def)
  with addConstraint_exact [OF bv_api_ok, of 8 no_range_sets Ult 10 250] show ?thesis
    by (fastforce simp: compareKind_def)
qed

text \<open>
  C25. \<open>RangeSet::intersect\<close> gives the members in the interval, or for a lower bound above the upper
  one those outside the gap; the ranges stay sorted, apart, and in the bounds of the type.
\<close>

theorem intersect_exact:
  assumes "ranges_ok (BV_ranges S) (ranges S)"
    and "in_factory (BV_ranges S) lower" and "in_factory (BV_ranges S) upper"
  shows "\<exists>S'. intersect S lower upper = Some S' \<and> ranges_ok (BV_ranges S) (ranges S') \<and>
    members (ranges S') = {v \<in> members (ranges S). if lower \<le> upper then lower \<le> v \<and> v \<le> upper else v \<le> upper \<or> lower \<le> v}"
  using intersect_members [OF assms] by fastforce

theorem intersect_exact_witness:
  "\<exists>S'. intersect \<lparr>BV_ranges = \<lparr>is_unsigned = True, bit_width = 8\<rparr>, ranges = [(0, 9), (20, 255)]\<rparr> 200 5 = Some S' \<and>
     members (ranges S') = {0..5} \<union> {200..255}"
proof -
  let ?S = "\<lparr>BV_ranges = \<lparr>is_unsigned = True, bit_width = 8\<rparr>, ranges = [(0, 9), (20, 255)]\<rparr>"
  have "ranges_ok (BV_ranges ?S) (ranges ?S)" "in_factory (BV_ranges ?S) 200" "in_factory (BV_ranges ?S) 5"
    by (simp_all add: ranges_ok_def before_def in_factory_def GetMinValue_def GetMaxValue_def)
  from intersect_exact [OF this] show ?thesis
    by fastforce
qed

text \<open>
  C26. \<open>RangeSet::size\<close> for a type of at most 64 bits is the number of members modulo \<open>2 ^ 32\<close>, so it is
  zero for the full set of a type of 32 bits; for a wider type it is \<open>INT_MAX / 2\<close>, whatever the
  members.
\<close>

theorem size_counts_members:
  assumes "apint_ok A" and "V_ok (BV_ranges S)" and "ranges_ok (BV_ranges S) (ranges S)"
  shows "unat (range_set_size A S) =
    (if bit_width (BV_ranges S) \<le> 64 then card (members (ranges S)) mod 2 ^ 32 else (2 ^ 31 - 1) div 2)"
proof (cases "bit_width (BV_ranges S) \<le> 64")
  case True
  then show ?thesis
    using range_set_size_card [OF assms] by (simp add: unat_of_nat)
qed (simp add: range_set_size_def Let_def)

theorem size_counts_members_witness:
  "unat (range_set_size bv_api \<lparr>BV_ranges = \<lparr>is_unsigned = True, bit_width = 32\<rparr>, ranges = [(0, 4294967295)]\<rparr>) = 0"
proof -
  let ?S = "\<lparr>BV_ranges = \<lparr>is_unsigned = True, bit_width = 32\<rparr>, ranges = [(0, 4294967295)]\<rparr>"
  have "V_ok (BV_ranges ?S)" "ranges_ok (BV_ranges ?S) (ranges ?S)"
    by (simp_all add: V_ok_def ranges_ok_def before_def GetMinValue_def GetMaxValue_def)
  from size_counts_members [OF bv_api_ok this] show ?thesis
    by simp
qed

section \<open>The dependency forest\<close>

text \<open>C27. \<open>DependencyForest::addNode\<close> comes back for a node with dependencies, and keeps the invariant.\<close>

theorem addNode_keeps_forest:
  assumes "forest_ok D ns F" and "finite (D n)" and "D n \<noteq> {}"
  shows "\<exists>F'. forest_addNode D n F = Some F' \<and> forest_ok D (ns @ [n]) F'"
  using assms by (rule forest_ok_addNode)

theorem addNode_keeps_forest_witness:
  "\<exists>F'. forest_addNode (\<lambda>n. {n, n + 3}) 4 empty_forest = Some F' \<and> forest_ok (\<lambda>n. {n, n + 3}) [4] F'"
  using addNode_keeps_forest [OF forest_ok_empty, of "\<lambda>n. {n, n + 3}" 4] by simp

text \<open>
  C28. The forest after any run of \<open>addNode\<close> from the empty one: every call comes back, and for a byte
  \<open>find\<close> then returns a tree with just the added nodes that the byte is connected to, through a chain
  of nodes that share bytes, each as often as it was added; connected bytes get the same tree.
\<close>

theorem tree_is_component:
  assumes "\<forall>n \<in> set ns. finite (D n) \<and> D n \<noteq> {}"
  shows "\<exists>F. forest_addNodes D ns empty_forest = Some F \<and>
    (\<forall>i. mset (found_nodes F i) = {#n \<in># mset ns. \<exists>d \<in> D n. (i, d) \<in> (link D ns)\<^sup>*#}) \<and>
    (\<forall>(i, j) \<in> (link D ns)\<^sup>+. fst (forest_find i F) = fst (forest_find j F))"
  using forest_addNodes_empty [OF assms] found_component found_shared by blast

theorem tree_is_component_witness:
  "\<exists>F. forest_addNodes (\<lambda>n. {n, n + 3}) [4, 8, 7] empty_forest = Some F \<and>
     set (found_nodes F 10) = {4, 7 :: nat} \<and> fst (forest_find 4 F) = fst (forest_find 10 F)"
proof -
  let ?D = "\<lambda>n :: nat. {n, n + 3}"
  have d: "\<forall>n \<in> set [4, 8, 7]. finite (?D n) \<and> ?D n \<noteq> {}"
    by simp
  obtain F where F: "forest_addNodes ?D [4, 8, 7] empty_forest = Some F"
    "\<And>i. mset (found_nodes F i) = {#n \<in># mset [4, 8, 7]. \<exists>d \<in> ?D n. (i, d) \<in> (link ?D [4, 8, 7])\<^sup>*#}"
    "\<And>i j. (i, j) \<in> (link ?D [4, 8, 7])\<^sup>+ \<Longrightarrow> fst (forest_find i F) = fst (forest_find j F)"
    using tree_is_component [OF d] by blast
  have l: "(10, 7) \<in> link ?D [4, 8, 7]" "(7, 4) \<in> link ?D [4, 8, 7]" "(4, 7) \<in> link ?D [4, 8, 7]" "(7, 10) \<in> link ?D [4, 8, 7]"
    by (auto simp: link_def)
  have c: "(10, i) \<in> (link ?D [4, 8, 7])\<^sup>* \<Longrightarrow> i \<in> {4, 7, 10}" for i
    by (induction rule: rtrancl_induct) (auto simp: link_def)
  have "(10, 8) \<notin> (link ?D [4, 8, 7])\<^sup>*" "(10, 11) \<notin> (link ?D [4, 8, 7])\<^sup>*"
    using c [of 8] c [of 11] by auto
  moreover have "(10, 4) \<in> (link ?D [4, 8, 7])\<^sup>*" "(10, 7) \<in> (link ?D [4, 8, 7])\<^sup>*"
    using l by (blast intro: rtrancl_trans)+
  ultimately have "set_mset {#n \<in># mset [4, 8, 7]. \<exists>d \<in> ?D n. (10, d) \<in> (link ?D [4, 8, 7])\<^sup>*#} = {4, 7}"
    by auto
  then have "set (found_nodes F 10) = {4, 7}"
    using F(2) [of 10] by (metis set_mset_mset)
  moreover have "fst (forest_find 4 F) = fst (forest_find 10 F)"
    using l by (intro F(3)) (blast intro: trancl_trans)
  ultimately show ?thesis
    using F(1) by blast
qed

text \<open>
  C29. Why the solver may look at a slice only. After any run of \<open>addNode\<close>, take the nodes that
  \<open>find\<close> gives for the bytes \<open>X\<close>. An assignment that satisfies these nodes, and outside \<open>X\<close> and
  their bytes agrees with one that satisfies all nodes, satisfies all nodes.
\<close>

theorem slice_solution:
  assumes "\<forall>n \<in> set ns. finite (D n) \<and> D n \<noteq> {}"
    and "\<And>n r r'. n \<in> set ns \<Longrightarrow> (\<forall>i \<in> D n. r i = r' i) \<Longrightarrow> holds r n \<Longrightarrow> holds r' n"
  shows "\<exists>F. forest_addNodes D ns empty_forest = Some F \<and>
    (\<forall>X r r0. (\<forall>n \<in> set ns. holds r0 n) \<longrightarrow> (\<forall>i \<in> X. \<forall>n \<in> set (found_nodes F i). holds r n) \<longrightarrow>
       (\<forall>j. j \<notin> X \<union> (\<Union>i \<in> X. \<Union>n \<in> set (found_nodes F i). D n) \<longrightarrow> r j = r0 j) \<longrightarrow> (\<forall>n \<in> set ns. holds r n))"
proof -
  obtain F where F: "forest_addNodes D ns empty_forest = Some F" "forest_ok D ns F"
    using forest_addNodes_empty [OF assms(1)] by blast
  have "\<forall>n \<in> set ns. holds r n"
    if "\<forall>n \<in> set ns. holds r0 n" "\<forall>i \<in> X. \<forall>n \<in> set (found_nodes F i). holds r n"
      "\<forall>j. j \<notin> X \<union> (\<Union>i \<in> X. \<Union>n \<in> set (found_nodes F i). D n) \<longrightarrow> r j = r0 j" for X r r0
    by (rule found_solution [OF F(2) _ that]) (rule assms(2))
  with F(1) show ?thesis
    by blast
qed

theorem slice_solution_witness:
  "\<exists>F. forest_addNodes (\<lambda>n. {n, n + 3}) [4, 8] empty_forest = Some F \<and>
     (\<forall>r. (\<forall>n \<in> set (found_nodes F 4). r n = r (n + 3)) \<longrightarrow> (\<forall>j. j \<notin> {4} \<union> (\<Union>n \<in> set (found_nodes F 4). {n, n + 3}) \<longrightarrow> r j = 0) \<longrightarrow>
       r 8 = (r 11 :: nat))"
proof -
  let ?D = "\<lambda>n :: nat. {n, n + 3}"
  obtain F where F: "forest_addNodes ?D [4, 8] empty_forest = Some F"
    "\<And>X r r0. (\<forall>n \<in> set [4, 8]. r0 n = (r0 (n + 3) :: nat)) \<Longrightarrow> (\<forall>i \<in> X. \<forall>n \<in> set (found_nodes F i). r n = r (n + 3)) \<Longrightarrow>
       (\<forall>j. j \<notin> X \<union> (\<Union>i \<in> X. \<Union>n \<in> set (found_nodes F i). ?D n) \<longrightarrow> r j = r0 j) \<Longrightarrow> (\<forall>n \<in> set [4, 8]. r n = r (n + 3))"
    using slice_solution [of "[4, 8]" ?D "\<lambda>r n. r n = (r (n + 3) :: nat)"] by auto
  have "r 8 = r 11" if "\<forall>n \<in> set (found_nodes F 4). r n = r (n + 3)"
    "\<forall>j. j \<notin> {4} \<union> (\<Union>n \<in> set (found_nodes F 4). ?D n) \<longrightarrow> r j = 0" for r :: "nat \<Rightarrow> nat"
    using F(2) [of "\<lambda>_. 0" "{4}" r] that by simp
  with F(1) show ?thesis
    by blast
qed

section \<open>The hash function\<close>

text \<open>
  C30. The streaming interface of xxHash computes the hash of the concatenated chunks, however the
  input is cut.
\<close>

theorem xxhash_streaming:
  "XXH32_digest (fold XXH32_update chunks (XXH32_reset seed)) = XXH32 (concat chunks) seed"
  by (rule streaming_digest)

text \<open>C31. A hash that is written in canonical form is read back.\<close>

theorem xxhash_canonical: "XXH32_hashFromCanonical (XXH32_canonicalFromHash h) = h"
  by (rule canonical_roundtrip)


section \<open>Flags\<close>

text \<open>
  C32. The condition of a jump. \<open>flags_ok\<close> relates the object \<open>Eflags\<close> to the operations that were
  recorded (\<open>h\<close>, the last one first) and to the flags \<open>F\<close> that the processor has after them, where
  they depend on the input. If the processor's condition \<open>j\<close> has the value \<open>v\<close>, then \<open>computeJcc\<close>
  gives an expression with this value, or the opposite one if asked for the opposite; with a
  builder that comes back, it comes back. Excluded (\<open>jcc_faithful\<close>) are a flag that stems from a
  product (C33), a walk through the ring past its first slot, and a zero flag that
  the last operation did not set (C34).
\<close>

theorem computeJcc_condition:
  assumes "sound_builder t dv \<rho> I B" and "I s" and "apint_ok A"
    and "flags_ok dv \<rho> h F E" and "jcc_value F j = Some v" and "jcc_faithful h j"
  shows "runs t I (computeJcc A B E j neg s) (\<lambda>e. means dv \<rho> e (BoolV (v \<noteq> neg)))"
  using assms by (rule sound_builder.computeJcc_law)

theorem computeJcc_condition_witness:
  "\<exists>e s'. computeJcc bv_api (const_folding_builder bv_api (cached_base quotient_env))
      (Eflags_set CC_OP_SUB (Some (BinaryExpr 3 Sub (ReadExpr 1 0) (ConstantExpr 2 5 8)))
        (Some (ReadExpr 1 0)) (Some (ConstantExpr 2 5 8)) Eflags) JCC_L True quotient_state = Some (Some e, s') \<and>
    den True (\<lambda>_. 200) e = Some (BoolV False)"
proof -
  let ?op = "Oper CC_OP_SUB 8 195 200 5" and ?r = "BinaryExpr 3 Sub (ReadExpr 1 0) (ConstantExpr 2 5 8)"
  let ?E = "Eflags_set CC_OP_SUB (Some ?r) (Some (ReadExpr 1 0)) (Some (ConstantExpr 2 5 8)) Eflags"
  have den: "den True (\<lambda>_. 200) ?r = Some (BV 8 195)" "den True (\<lambda>_. 200) (ReadExpr 1 0) = Some (BV 8 200)"
    using take_bit_eq_mod [of 8 "195 :: int"] take_bit_eq_mod [of 8 "5 :: int"] by (simp_all add: compareKind_def)
  have op: "op_done ?op" "op_means True (\<lambda>_. 200)
      (FlagOperation_set 0 CC_OP_SUB (Some ?r) (Some (ReadExpr 1 0)) (Some (ConstantExpr 2 5 8))) ?op"
    using take_bit_eq_mod [of 8 "195 :: int"] take_bit_eq_mod [of 8 "5 :: int"]
    by (simp_all add: FlagOperation_set_def in_range_def compareKind_def)
  have E: "flags_ok True (\<lambda>_. 200) [?op] (set_flags ?op no_flags) ?E"
    using flags_ok_set [OF flags_ok_init op(1)] op(2) by simp
  have "x86_flag ?op EFLAGS_SF" "\<not> x86_flag ?op EFLAGS_OF"
    by (simp_all add: x86_flag_def overflows_def sval_alt in_range_def)
  then have v: "jcc_value (set_flags ?op no_flags) JCC_L = Some True"
    by (simp add: jcc_value_def set_flags_def not_None_eq [symmetric] del: not_None_eq)
  have f: "jcc_faithful [?op] JCC_L"
    by (auto simp: jcc_faithful_def faithful_def defined_by_def CC_OP_LAST_def intro!: exI [of _ 0])
  have B: "sound_builder True True (\<lambda>_. 200) (\<lambda>_. True) (const_folding_builder bv_api (cached_base quotient_env))"
    using folding_stack_sound [of quotient_env "\<lambda>_. True"] by (simp add: quotient_env_def bv_api_ok)
  from runs_totalD [OF computeJcc_condition [OF B _ bv_api_ok E v f, where s = quotient_state and neg = True]]
  show ?thesis
    by (auto elim!: meansE)
qed

text \<open>
  C33. The flags of one operation. The expression that the class of the operation builds for a flag
  that the operation affects has the value that the processor gives to the flag: sums, differences,
  increments, logic, shifts and rotations by one place, bit tests. For products, carry and overflow
  are the opposite of the processor's.
\<close>

theorem flag_of_exact:
  assumes "sound_builder t dv \<rho> I B" and "I s" and "apint_ok A"
    and "op_means dv \<rho> op p" and "op_done p" and "affects (oper_kind p) f"
  shows "runs t I (flag_of A B (oper_kind p) op f s) (\<lambda>e. means dv \<rho> e (BoolV (
    if oper_kind p \<in> {CC_OP_SMUL, CC_OP_UMUL} \<and> f \<in> {EFLAGS_CF, EFLAGS_OF}
    then \<not> x86_flag p f else x86_flag p f)))"
  using sound_builder.flag_of_law [OF assms] unfolding code_flag_def .

theorem flag_of_exact_witness:
  "\<exists>e s'. flag_of bv_api (const_folding_builder bv_api (cached_base quotient_env)) CC_OP_UMUL
      (FlagOperation_set 0 CC_OP_UMUL (Some (ConstantExpr 1 300 16)) None None) EFLAGS_OF quotient_state =
      Some (Some e, s') \<and> den True (\<lambda>_. 0) e = Some (BoolV False) \<and> x86_flag (Oper CC_OP_UMUL 16 300 20 15) EFLAGS_OF"
proof -
  let ?p = "Oper CC_OP_UMUL 16 300 20 15"
  have B: "sound_builder True True (\<lambda>_. 0) (\<lambda>_. True) (const_folding_builder bv_api (cached_base quotient_env))"
    using folding_stack_sound [of quotient_env "\<lambda>_. True"] by (simp add: quotient_env_def bv_api_ok)
  have m: "op_means True (\<lambda>_. 0) (FlagOperation_set 0 CC_OP_UMUL (Some (ConstantExpr 1 300 16)) None None) ?p"
    and d: "op_done ?p" "affects (oper_kind ?p) EFLAGS_OF"
    by (simp_all add: FlagOperation_set_def in_range_def)
  have o: "x86_flag ?p EFLAGS_OF"
    by (simp add: x86_flag_def)
  from runs_totalD [OF flag_of_exact [OF B _ bv_api_ok m d, where s = quotient_state]] o
  show ?thesis
    by (auto elim!: meansE)
qed

text \<open>
  C34. A missing \<open>break\<close>. After a bit test on symbolic operands, which leaves the zero flag of an
  earlier operation in place, a jump on the zero flag ends the process: \<open>computeSlowJcc\<close> goes on
  from the zero flag to the overflow flag, which the class of bit tests does not implement.
\<close>

theorem jz_after_bit_test_aborts:
  assumes "flags_ok dv \<rho> h F E" and "h \<noteq> []" and "oper_kind (hd h) = CC_OP_BT" and "F EFLAGS_ZF \<noteq> None"
  shows "computeJcc A B E JCC_Z neg s = None"
  using assms by (rule jz_after_bit_test)

theorem jz_after_bit_test_aborts_witness:
  "computeJcc bv_api (const_folding_builder bv_api (cached_base quotient_env))
     (Eflags_set CC_OP_BT (Some (BoolExpr 4 True)) None None
       (Eflags_set CC_OP_LOGIC (Some (ReadExpr 1 0)) None None Eflags)) JCC_Z False quotient_state = None"
proof -
  let ?logic = "Oper CC_OP_LOGIC 8 9 0 0" and ?bt = "Oper CC_OP_BT 1 1 0 0"
  have "flags_ok True (\<lambda>_. 9) [?logic] (set_flags ?logic no_flags) (Eflags_set CC_OP_LOGIC (Some (ReadExpr 1 0)) None None Eflags)"
    using flags_ok_set [OF flags_ok_init, where p = ?logic and dv = True and \<rho> = "\<lambda>_. 9" and r = "Some (ReadExpr 1 0)"
        and d = None and x = None]
    by (simp add: FlagOperation_set_def in_range_def)
  from flags_ok_set [OF this, where p = ?bt and r = "Some (BoolExpr 4 True)" and d = None and x = None]
  have "flags_ok True (\<lambda>_. 9) [?bt, ?logic] (set_flags ?bt (set_flags ?logic no_flags))
      (Eflags_set CC_OP_BT (Some (BoolExpr 4 True)) None None (Eflags_set CC_OP_LOGIC (Some (ReadExpr 1 0)) None None Eflags))"
    by (simp add: FlagOperation_set_def)
  then show ?thesis
    by (rule jz_after_bit_test_aborts) (simp_all add: set_flags_def)
qed

section \<open>Instructions\<close>

text \<open>
  C35. From two instructions to the condition of a branch. A comparison of two registers is
  dispatched and its handler run, then a conditional jump: the handler of the jump builds an
  expression whose value, for every input, is the condition that the processor computes from the
  two registers, negated for the jumps that are, and hands it to \<open>Solver::addJcc\<close>; it builds none
  only if the registers do not depend on the input.
\<close>

theorem compare_and_jump:
  assumes "agrees_with t dv W \<rho>0 I E M R h F s"
    and "INS_Opcode i = Some ''CMP''" and "of_registers (pin E) dst src i"
    and "registers_at E M R \<rho>0 rt dst src n a b s"
    and "INS_Opcode i' = Some x" and "(x, j, neg) \<in> set jcc_opcodes"
    and "v = (\<lambda>\<rho>. getMemValue (R \<rho>) a n)" and "w = (\<lambda>\<rho>. getMemValue (R \<rho>) b n)"
  shows "leads t (run_ins N E X rt i s) (\<lambda>s1.
    leads t (thread_computeJcc (apint_of E) (builder_of E) j neg s1) (\<lambda>(e, s2).
      case e of
        None \<Rightarrow> (\<forall>\<rho>\<in>W. v \<rho> = v \<rho>0 \<and> w \<rho> = w \<rho>0) \<and> run_ins N E X rt' i' s1 = Some s2
      | Some e \<Rightarrow> (\<forall>\<rho>\<in>W. den dv \<rho> e = Some (BoolV (after_cmp j (n * 8) (v \<rho>) (w \<rho>) \<noteq> neg))) \<and>
          run_ins N E X rt' i' s1 = on_solver (addJcc (solver_of E) e (rt_taken rt') (instr_ptr E (rt_ctx rt'))) s2))"
  using assms by (rule run_cmp_jcc_law)

theorem compare_and_jump_witness:
  "\<exists>s1 e s2. run_ins demo_named demo_instr_env (\<lambda>_. 0) demo_runtime (demo_ins ''CMP'') demo_pin_state = Some s1 \<and>
     thread_computeJcc bv_api demo_builder JCC_B True s1 = Some (Some e, s2) \<and>
     den True (\<lambda>_. 6) e = Some (BoolV False) \<and> den True (\<lambda>_. 8) e = Some (BoolV True)"
proof -
  have j: "(''JNB'', JCC_B, True) \<in> set jcc_opcodes" and i: "INS_Opcode (demo_ins x) = Some x" for x
    by (simp_all add: jcc_opcodes_def demo_ins_def)
  from leads_totalD [OF compare_and_jump [OF demo_agrees i _ demo_registers_at i j refl refl,
      where N = demo_named and X = "\<lambda>_. 0" and rt' = demo_runtime]] demo_of_registers
  obtain s1 where s1: "run_ins demo_named demo_instr_env (\<lambda>_. 0) demo_runtime (demo_ins ''CMP'') demo_pin_state = Some s1"
    and run: "leads True (thread_computeJcc (apint_of demo_instr_env) (builder_of demo_instr_env) JCC_B True s1) (\<lambda>(e, s2).
      case e of
        None \<Rightarrow> (\<forall>\<rho>\<in>UNIV. getMemValue (demo_regs \<rho>) 0 1 = getMemValue (demo_regs (\<lambda>_. 0)) 0 1 \<and>
          getMemValue (demo_regs \<rho>) 1 1 = getMemValue (demo_regs (\<lambda>_. 0)) 1 1) \<and>
          run_ins demo_named demo_instr_env (\<lambda>_. 0) demo_runtime (demo_ins ''JNB'') s1 = Some s2
      | Some e \<Rightarrow> (\<forall>\<rho>\<in>UNIV. den True \<rho> e = Some (BoolV (after_cmp JCC_B (1 * 8)
            (getMemValue (demo_regs \<rho>) 0 1) (getMemValue (demo_regs \<rho>) 1 1) \<noteq> True))) \<and>
          run_ins demo_named demo_instr_env (\<lambda>_. 0) demo_runtime (demo_ins ''JNB'') s1 =
            on_solver (addJcc (solver_of demo_instr_env) e (rt_taken demo_runtime)
              (instr_ptr demo_instr_env (rt_ctx demo_runtime))) s2)"
    by auto
  have jcc: "leads True (thread_computeJcc bv_api demo_builder JCC_B True s1) (\<lambda>(e, s2).
      case e of None \<Rightarrow> \<forall>\<rho> :: assignment. uint (\<rho> 0) = 0
      | Some e \<Rightarrow> \<forall>\<rho>. den True \<rho> e = Some (BoolV (\<not> uint (\<rho> 0) < 7)))"
    using run unfolding demo_env_simps by (rule leads_mono) (auto split: option.splits)
  from leads_totalD [OF jcc] obtain e s2 where e: "thread_computeJcc bv_api demo_builder JCC_B True s1 = Some (e, s2)"
    and v: "case e of None \<Rightarrow> \<forall>\<rho> :: assignment. uint (\<rho> 0) = 0
      | Some e \<Rightarrow> \<forall>\<rho>. den True \<rho> e = Some (BoolV (\<not> uint (\<rho> 0) < 7))"
    by auto
  with s1 inputs_differ show ?thesis
    by (cases e) auto
qed

text \<open>
  C36. The integer operations on two registers, from the opcode on: after \<open>ADD\<close>, \<open>SUB\<close>, \<open>AND\<close>, \<open>OR\<close>,
  \<open>XOR\<close>, \<open>CMP\<close> and \<open>TEST\<close> the state of the tool agrees with the processor's for every input, in the
  registers, the cleared upper half of a 64-bit register included, and in the flags. If the operands
  do not depend on the input, the flags that the operation sets are given up; a symbolic upper half
  is then not cleared, which is why it is excluded.
\<close>

theorem alu_on_registers:
  assumes "agrees_with t dv W \<rho>0 I E M R h F s" and "INS_Opcode i = Some x" and "(x, k, wr) \<in> set alu_opcodes"
    and "of_registers (pin E) dst src i" and "registers_at E M R \<rho>0 rt dst src n a b s"
    and "wr \<Longrightarrow> upper_clear E s dst a" and "getOpKindBinary k = Some op"
    and "v = (\<lambda>\<rho>. getMemValue (R \<rho>) a n)" and "w = (\<lambda>\<rho>. getMemValue (R \<rho>) b n)"
    and "R' = (if wr then put_reg E dst a (\<lambda>\<rho>. alu k (n * 8) (v \<rho>) (w \<rho>)) R else R)"
  shows "leads t (run_ins N E X rt i s) (\<lambda>s'.
    agrees_with t dv W \<rho>0 I E M R' (\<lambda>\<rho>. binary_oper op k (n * 8) (v \<rho>) (w \<rho>) # h \<rho>)
      (\<lambda>\<rho>. set_flags (binary_oper op k (n * 8) (v \<rho>) (w \<rho>)) (F \<rho>)) s' \<or>
    (\<forall>\<rho>\<in>W. v \<rho> = v \<rho>0 \<and> w \<rho> = w \<rho>0) \<and> agrees_with t dv W \<rho>0 I E M R' h (\<lambda>\<rho>. drop_flags op (F \<rho>)) s')"
  using assms by (rule run_alu_law)

theorem alu_on_registers_witness:
  "\<exists>s' h F. run_ins demo_named demo_instr_env (\<lambda>_. 0) demo_runtime (demo_ins ''ADD'') demo_pin_state = Some s' \<and>
     agrees_with True True UNIV (\<lambda>_. 0) (\<lambda>_. True) demo_instr_env demo_memory
       (put_reg demo_instr_env 1 0 (\<lambda>\<rho>. take_bit 8 (uint (\<rho> 0) + 7)) demo_regs) h F s'"
proof -
  have x: "(''ADD'', Add, True) \<in> set alu_opcodes" and i: "INS_Opcode (demo_ins ''ADD'') = Some ''ADD''"
    and up: "upper_clear demo_instr_env demo_pin_state 1 0"
    by (simp_all add: alu_opcodes_def demo_ins_def upper_clear_def)
  from leads_totalD [OF alu_on_registers [OF demo_agrees i x _ demo_registers_at up _ refl refl refl,
      where N = demo_named and X = "\<lambda>_. 0" and op = CC_OP_ADD]] demo_of_registers inputs_differ
  show ?thesis
    by auto
qed

text \<open>
  C37. The calls that are inserted. Pin passes arguments without a check. For any instruction at
  all, every call that \<open>analyzeInstruction\<close> inserts passes what the handler of \<open>instrument.h\<close> declares,
  in number, order and kind, so that the call runs its handler; only \<open>instrumentCall\<close> is passed an
  address too many. No instruction makes \<open>instrumentConcretizeEflags\<close> be called.
\<close>

theorem inserted_calls_accepted:
  assumes "analyzeInstruction N P i = Some cs" and "c \<in> set cs"
  shows "list_all2 accepts (if c_fun c = Compute Call then parameters (c_fun c) @ [P_ADDRINT] else parameters (c_fun c))
      (c_args c) \<and>
    (\<exists>f. call_fun E X (c_fun c) (map (eval_arg rt) (c_args c)) = Some f) \<and> c_fun c \<noteq> Shift ConcretizeEflags"
proof -
  have c: "fits c" "c_fun c \<noteq> Shift ConcretizeEflags"
    using analyzeInstruction_typed [of N P i] assms by (simp_all add: typed_def)
  show ?thesis
    using c fits_runs [OF c(1)] by (cases "c_fun c = Compute Call") (simp_all add: fits_def well_typed_def)
qed

theorem inserted_calls_accepted_witness:
  "\<exists>c. analyzeInstruction demo_named demo_pin (demo_ins ''CMP'') = Some [c] \<and> c_fun c = Compute BinaryRegReg \<and>
     list_all2 accepts (parameters (c_fun c)) (c_args c)"
proof -
  have "find_case ''CMP'' opcode_cases = Some (\<lambda>N P i. analyzeBinary_kind P i Sub False)"
    by (rule alu_case) (simp add: alu_opcodes_def)
  then have "\<exists>c. analyzeInstruction demo_named demo_pin (demo_ins ''CMP'') = Some [c] \<and> c_fun c = Compute BinaryRegReg"
    by (simp add: analyzeInstruction_def demo_ins_def analyzeBinary_kind_def analyzeBinary_arg2_def binary_call_def
        shape_at_def INS_OperandIsReg_def INS_OperandReg_def GET_REG_def demo_followed Let_def assert_def call_or_fail_def
        insert_before_def INS_InsertCall_def)
  then show ?thesis
    using inserted_calls_accepted [of demo_named demo_pin "demo_ins ''CMP''"] by fastforce
qed

text \<open>
  C38. Instructions that have no function of their own. \<open>analyzeDefault\<close> concretizes just the
  registers among the operands that are followed, in their order, and the memory of each memory
  operand, read or written; nothing is done about the flags, which such an instruction may change.
\<close>

theorem analyzeDefault_concretizes:
  assumes "analyzeDefault F P i = Some cs"
  shows "filter (\<lambda>c. c_fun c = Shift ConcretizeReg) cs = map concretize_reg (followed_regs P i [0..<length (operands i)]) \<and>
    (\<exists>ts. filter (\<lambda>c. c_fun c \<noteq> Shift ConcretizeReg) cs = map concretize_mem ts \<and>
       list_all2 (accesses i) (memory_operands i [0..<length (operands i)]) ts)"
  using assms unfolding analyzeDefault_def by (rule analyzeDefault_loop_calls)

theorem analyzeDefault_concretizes_witness:
  "\<exists>cs. analyzeDefault (\<lambda>_. True) demo_pin (demo_ins ''ADCX'') = Some cs \<and>
     filter (\<lambda>c. c_fun c = Shift ConcretizeReg) cs = [concretize_reg 1, concretize_reg 2]"
proof -
  have d: "operands (demo_ins ''ADCX'') ! 0 = \<lparr>shape = OpReg 1, op_read = True, op_written = True, op_implicit = False\<rparr>"
    "operands (demo_ins ''ADCX'') ! 1 = \<lparr>shape = OpReg 2, op_read = True, op_written = False, op_implicit = False\<rparr>"
    "[0..<length (operands (demo_ins ''ADCX''))] = [0, 1]"
    by (simp_all add: demo_ins_def One_nat_def)
  then have "length (operands (demo_ins ''ADCX'')) = 2"
    by (simp add: demo_ins_def)
  with d have r: "followed_regs demo_pin (demo_ins ''ADCX'') [0..<length (operands (demo_ins ''ADCX''))] = [1, 2]"
    and "\<exists>cs. analyzeDefault (\<lambda>_. True) demo_pin (demo_ins ''ADCX'') = Some cs"
    by (simp_all add: followed_regs_def analyzeDefault_def analyzeConcretizeReg_eq INS_OperandIsReg_def
        INS_OperandReg_def shape_at_def demo_followed Let_def)
  then show ?thesis
    using analyzeDefault_concretizes [of "\<lambda>_. True" demo_pin "demo_ins ''ADCX''"] by auto
qed

section \<open>Memory and pruning\<close>

text \<open>
  C39. What is stored in memory is read back. After an expression has been stored byte for byte, the
  expression that is read at the same address has the same value for every input, and none is
  read only if the value does not depend on the input; all memory agrees with the contents
  after the store. Neither ends the process if the pages are writable.
\<close>

theorem store_and_load:
  assumes "builder_on t dv W I B" and "\<rho>0 \<in> W" and "memory_holds dv W \<rho>0 V I s"
    and "\<forall>\<rho>\<in>W. den dv \<rho> e = Some (BV (n * 8) (x \<rho>))" and "n \<le> 2 ^ 64"
    and "t \<Longrightarrow> \<forall>i < n. page_writable (g_memory s) (a + of_nat i)"
    and "V' = (\<lambda>\<rho>. put_bytes a n (byte_of (x \<rho>)) (V \<rho>))"
  shows "leads t (do { s \<leftarrow> setExprToMem_range B a n (Some e) s; getExprFromMem_range B (V' \<rho>0) a n s })
    (\<lambda>(r, s'). memory_holds dv W \<rho>0 V' I s' \<and>
      (case r of None \<Rightarrow> \<forall>\<rho>\<in>W. x \<rho> = x \<rho>0 | Some r \<Rightarrow> \<forall>\<rho>\<in>W. den dv \<rho> r = Some (BV (n * 8) (x \<rho>))))"
  using assms by (rule store_load_law)

theorem store_and_load_witness:
  "\<exists>m s. mmap 4096 8191 demo_page_memory = Some m \<and>
     setExprToMem_range demo_builder 5000 1 (Some (ReadExpr 1 0)) (demo_pin_state\<lparr>g_memory := m\<rparr>) = Some s \<and>
     (\<exists>r s'. getExprFromMem_range demo_builder (put_bytes 5000 1 (byte_of 0) (\<lambda>_. 0)) 5000 1 s = Some (Some r, s') \<and>
       den True (\<lambda>_. 200) r = Some (BV 8 200))"
proof -
  have "addressToPageIndex 4096 \<le> (addressToPageIndex 8191 :: addr)"
    "unat (addressToPageIndex 8191) - unat (addressToPageIndex 4096) < 2 ^ 31 - 1"
    by (simp_all add: word_le_nat_alt page_index)
  then obtain m where m: "mmap 4096 8191 demo_page_memory = Some m"
    using mmap_works by blast
  note law = mmap_law [OF demo_page_memory_law(1) m]
  let ?s = "demo_pin_state\<lparr>g_memory := m\<rparr>"
  have s: "memory_holds True UNIV (\<lambda>_. 0) demo_memory (\<lambda>_. True) ?s"
    using law(1,2) demo_page_memory_law(2) by (simp add: memory_holds_def tracks_def demo_memory_def)
  have w: "\<forall>i < 1. page_writable (g_memory ?s) (5000 + of_nat i)"
    using law(3) by (simp add: on_pages_def word_le_nat_alt page_index)
  have e: "\<forall>\<rho>\<in>UNIV. den True \<rho> (ReadExpr 1 0) = Some (BV (1 * 8) (uint (\<rho> 0)))"
    by simp
  have zeros: "demo_memory (\<lambda>_. 0) = (\<lambda>_. 0)"
    by (simp add: demo_memory_def fun_eq_iff)
  have "leads True (do { s \<leftarrow> setExprToMem_range demo_builder 5000 1 (Some (ReadExpr 1 0)) ?s;
      getExprFromMem_range demo_builder (put_bytes 5000 1 (byte_of (uint (0 :: 8 word))) (demo_memory (\<lambda>_. 0))) 5000 1 s })
    (\<lambda>(r, s'). case r of None \<Rightarrow> \<forall>\<rho> :: assignment. uint (\<rho> 0) = 0 | Some r \<Rightarrow> \<forall>\<rho>. den True \<rho> r = Some (BV 8 (uint (\<rho> 0))))"
    by (rule leads_mono [OF store_and_load [OF demo_builder_sound _ s e _ w refl]]) (auto split: option.splits)
  then have "leads True (do { s \<leftarrow> setExprToMem_range demo_builder 5000 1 (Some (ReadExpr 1 0)) ?s;
      getExprFromMem_range demo_builder (put_bytes 5000 1 (byte_of 0) (\<lambda>_. 0)) 5000 1 s })
    (\<lambda>(r, s'). case r of None \<Rightarrow> \<forall>\<rho> :: assignment. uint (\<rho> 0) = 0 | Some r \<Rightarrow> \<forall>\<rho>. den True \<rho> r = Some (BV 8 (uint (\<rho> 0))))"
    by (simp only: zeros unsigned_0)
  from leads_totalD [OF this] obtain s r s' where run: "setExprToMem_range demo_builder 5000 1 (Some (ReadExpr 1 0)) ?s = Some s"
    "getExprFromMem_range demo_builder (put_bytes 5000 1 (byte_of 0) (\<lambda>_. 0)) 5000 1 s = Some (r, s')"
    and r: "case r of None \<Rightarrow> \<forall>\<rho> :: assignment. uint (\<rho> 0) = 0 | Some r \<Rightarrow> \<forall>\<rho>. den True \<rho> r = Some (BV 8 (uint (\<rho> 0)))"
    by (auto simp: bind_eq_Some_conv)
  obtain r' where r': "r = Some r'"
    using r inputs_differ by (cases r) auto
  have "uint (200 :: 8 word) = 200"
    by (simp add: uint_numeral take_bit_eq_mod)
  moreover have "den True (\<lambda>_. 200) r' = Some (BV 8 (uint (200 :: 8 word)))"
    using r unfolding r' by simp
  ultimately show ?thesis
    using m run unfolding r' by metis
qed

text \<open>
  C40. Pruning is never for ever. From any state of the call stack manager, however often a block has
  been visited in a context, it becomes interesting again after at most \<open>2 ^ 16\<close> further visits: its
  counter comes round.
\<close>

theorem block_interesting_again:
  assumes "length (bitmap m) = kBitmapSize"
  shows "\<exists>k > n. k \<le> n + 2 ^ 16 \<and> isInteresting (visits X pc k m)"
  using assms by (rule visits_again)

theorem block_interesting_again_witness:
  "\<exists>k > 100. isInteresting (visits (\<lambda>_. 0) 0 k (CallStackManager 0 (replicate kBitmapSize 5)))"
  using block_interesting_again [of "CallStackManager 0 (replicate kBitmapSize 5)" 100 "\<lambda>_. 0" 0]
  by (auto simp: CallStackManager_def)

end
